(* ===== verification/Prelude.thy ===== *)
theory Prelude
  imports Main "HOL-Library.AList" "HOL-Library.Char_ord" "HOL-Library.List_Lexorder"
    "HOL-Library.Word" "HOL-Library.Multiset"
begin

text \<open>
  What every component shares: Go's built-in types as this development reads them.

  \<^item> A Go map is an association list with distinct keys (\<open>gomap\<close>). The order of the
    list is the order in which one \<open>for range\<close> loop visits the map; Go leaves that order
    open, so statements quantify over every list, that is over every order.
  \<^item> A \<open>string\<close> is its bytes; comparison is bytewise, as in Go.
  \<^item> An instant (\<open>time.Time\<close>) is the number of nanoseconds since Go's zero time, so
    \<open>IsZero\<close> is equality with 0; a duration is a signed 64-bit count of nanoseconds.
  \<^item> \<open>int64\<close> values are integers; where the code can overflow, the two's complement
    wrap-around is written out with \<open>wrap64\<close>. Counters that grow by one per event
    (failures, streaks, requests) are left unbounded: 2^63 events are out of reach.
\<close>

named_theorems gomap_simps "lookup laws of Go maps"
named_theorems go_defs "definitions of the operations on Go's built-in types"

subsection \<open>Maps\<close>

type_synonym ('k, 'v) gomap = "('k \<times> 'v) list"

abbreviation mget :: "('k, 'v) gomap \<Rightarrow> 'k \<Rightarrow> 'v option" where
  "mget m k \<equiv> map_of m k"

abbreviation mput :: "'k \<Rightarrow> 'v \<Rightarrow> ('k, 'v) gomap \<Rightarrow> ('k, 'v) gomap" where
  "mput k v m \<equiv> AList.update k v m"

abbreviation mdel :: "'k \<Rightarrow> ('k, 'v) gomap \<Rightarrow> ('k, 'v) gomap" where
  "mdel k m \<equiv> AList.delete k m"

abbreviation mkeys :: "('k, 'v) gomap \<Rightarrow> 'k list" where
  "mkeys m \<equiv> map fst m"

abbreviation wfmap :: "('k, 'v) gomap \<Rightarrow> bool" where
  "wfmap m \<equiv> distinct (mkeys m)"

lemma mget_mput [simp, gomap_simps]: "mget (mput k v m) k' = (if k' = k then Some v else mget m k')"
  by (simp add: update_conv')

lemma mget_mdel [simp, gomap_simps]: "mget (mdel k m) k' = (if k' = k then None else mget m k')"
  by (simp add: delete_conv')

lemma wfmap_mput [simp]: "wfmap m \<Longrightarrow> wfmap (mput k v m)"
  by (rule distinct_update)

lemma wfmap_mdel [simp]: "wfmap m \<Longrightarrow> wfmap (mdel k m)"
  by (rule distinct_delete)

lemma wfmap_filter [simp]: "wfmap m \<Longrightarrow> wfmap (filter P m)"
  by (induction m) auto

lemma mkeys_map_snd [simp]: "mkeys (map (\<lambda>(k, v). (k, f k v)) m) = mkeys m"
  by (induction m) auto

lemma mget_map_snd [gomap_simps]: "mget (map (\<lambda>(k, v). (k, f k v)) m) k = map_option (f k) (mget m k)"
  by (induction m) auto

lemma mget_filter_wf:
  "wfmap m \<Longrightarrow> mget (filter (\<lambda>(k, v). P k v) m) k
     = (case mget m k of None \<Rightarrow> None | Some v \<Rightarrow> if P k v then Some v else None)"
  by (induction m) (auto split: option.splits dest: map_of_SomeD simp: weak_map_of_SomeI image_iff)

lemma wf_mget_iff: "wfmap m \<Longrightarrow> mget m k = Some v \<longleftrightarrow> (k, v) \<in> set m"
  by (rule map_of_eq_Some_iff)

lemma mget_None_keys: "mget m k = None \<longleftrightarrow> k \<notin> set (mkeys m)"
  by (simp add: map_of_eq_None_iff)

lemma set_mkeys_mput [simp]: "set (mkeys (mput k v m)) = insert k (set (mkeys m))"
  using dom_update [of k v m] by (simp add: dom_map_of_conv_image_fst)

lemma set_mkeys_mdel [simp]: "set (mkeys (mdel k m)) = set (mkeys m) - {k}"
  by (simp add: dom_map_of_conv_image_fst [symmetric] delete_conv')

text \<open>Two visiting orders of the same map.\<close>

definition same_map :: "('k, 'v) gomap \<Rightarrow> ('k, 'v) gomap \<Rightarrow> bool" where
  "same_map m m' \<longleftrightarrow> wfmap m \<and> wfmap m' \<and> set m = set m'"

lemma same_map_mget: "same_map m m' \<Longrightarrow> mget m k = mget m' k"
  unfolding same_map_def by (metis map_of_inject_set)

text \<open>A sum over a list of processes or requests when one of them changes.\<close>

lemma sum_list_update_int:
  "i < length xs \<Longrightarrow> (\<Sum>r\<leftarrow>xs[i := x]. f r) = (\<Sum>r\<leftarrow>xs. f r) + f x - (f (xs ! i) :: int)"
  by (induction xs arbitrary: i) (auto split: nat.split)

subsection \<open>Signed 64-bit integers and durations\<close>

definition wrap64 :: "int \<Rightarrow> int" where
  "wrap64 x = (x + 2 ^ 63) mod 2 ^ 64 - 2 ^ 63"

definition in64 :: "int \<Rightarrow> bool" where
  "in64 x \<longleftrightarrow> - (2 ^ 63) \<le> x \<and> x < 2 ^ 63"

abbreviation max_int64 :: int where "max_int64 \<equiv> 9223372036854775807"
abbreviation min_int64 :: int where "min_int64 \<equiv> - 9223372036854775808"

lemma wrap64_id [simp]: "in64 x \<Longrightarrow> wrap64 x = x"
  by (simp add: wrap64_def in64_def)

lemma in64_wrap64 [simp]: "in64 (wrap64 x)"
  using pos_mod_bound [of "2 ^ 64" "x + 2 ^ 63"] pos_mod_sign [of "2 ^ 64" "x + 2 ^ 63"]
  by (simp add: wrap64_def in64_def)

lemma wrap64_signed_word: "wrap64 x = sint (word_of_int x :: 64 word)"
  by (simp add: wrap64_def sint_sbintrunc' signed_take_bit_eq_take_bit_shift take_bit_eq_mod)

text \<open>Integer division of Go truncates towards zero.\<close>

definition go_div :: "int \<Rightarrow> int \<Rightarrow> int" where
  "go_div a b = sgn a * sgn b * (\<bar>a\<bar> div \<bar>b\<bar>)"

definition go_mod :: "int \<Rightarrow> int \<Rightarrow> int" where
  "go_mod a b = a - b * go_div a b"

lemma go_div_nonneg: "0 \<le> a \<Longrightarrow> 0 < b \<Longrightarrow> go_div a b = a div b"
  by (cases "a = 0") (simp_all add: go_div_def)

lemma go_mod_nonneg: "0 \<le> a \<Longrightarrow> 0 < b \<Longrightarrow> go_mod a b = a mod b"
  by (simp add: go_mod_def go_div_nonneg minus_mult_div_eq_mod)

definition nanosecond :: int where "nanosecond = 1"
definition millisecond :: int where "millisecond = 1000000"
definition second :: int where "second = 1000000000"
definition minute :: int where "minute = 60 * second"
definition hour :: int where "hour = 60 * minute"
definition day :: int where "day = 24 * hour"

lemmas dur_defs = nanosecond_def millisecond_def second_def minute_def hour_def day_def

subsection \<open>Instants\<close>

type_synonym instant = int
type_synonym duration = int

definition zero_time :: instant where "zero_time = 0"

definition is_zero :: "instant \<Rightarrow> bool" where
  "is_zero t \<longleftrightarrow> t = 0"

text \<open>\<open>Time.Sub\<close> saturates at the ends of the duration range.\<close>

definition time_sub :: "instant \<Rightarrow> instant \<Rightarrow> duration" where
  "time_sub t u = max min_int64 (min max_int64 (t - u))"

lemma time_sub_mono: "t \<le> t' \<Longrightarrow> time_sub t u \<le> time_sub t' u"
  by (auto simp: time_sub_def)

lemma time_sub_gt_iff: "d < max_int64 \<Longrightarrow> min_int64 \<le> d \<Longrightarrow> d < time_sub t u \<longleftrightarrow> d < t - u"
  by (auto simp: time_sub_def)

end
