(* ===== verification/GoStrings.thy ===== *)
theory GoStrings
  imports Prelude
begin

text \<open>
  The part of Go's \<open>strings\<close> package the code uses, on byte strings. \<open>TrimSpace\<close>
  removes the UTF-8 encodings of all Unicode white space, not only ASCII blanks; \<open>ToLower\<close>
  is exact for every comparison with an ASCII text: besides A-Z it maps the two non-ASCII
  runes whose lower case is ASCII (the Kelvin sign and the dotted capital I).
\<close>

definition has_prefix :: "string \<Rightarrow> string \<Rightarrow> bool" where
  "has_prefix s p \<longleftrightarrow> take (length p) s = p"

definition has_suffix :: "string \<Rightarrow> string \<Rightarrow> bool" where
  "has_suffix s p \<longleftrightarrow> length p \<le> length s \<and> drop (length s - length p) s = p"

definition trim_prefix :: "string \<Rightarrow> string \<Rightarrow> string" where
  "trim_prefix s p = (if has_prefix s p then drop (length p) s else s)"

lemma has_prefix_append [simp]: "has_prefix (p @ s) p"
  by (simp add: has_prefix_def)

lemma has_prefix_iff: "has_prefix s p \<longleftrightarrow> (\<exists>t. s = p @ t)"
  unfolding has_prefix_def by (metis append_eq_conv_conj append_take_drop_id)

lemma has_suffix_iff: "has_suffix s p \<longleftrightarrow> (\<exists>t. s = t @ p)"
proof
  assume "has_suffix s p"
  then have "s = take (length s - length p) s @ p"
    unfolding has_suffix_def by (metis append_take_drop_id)
  then show "\<exists>t. s = t @ p" ..
qed (auto simp: has_suffix_def)

subsection \<open>TrimSpace\<close>

text \<open>The UTF-8 encodings of the runes with the property White_Space.\<close>

definition space_runes :: "string list" where
  "space_runes =
     [[CHR 0x09], [CHR 0x0A], [CHR 0x0B], [CHR 0x0C], [CHR 0x0D], [CHR 0x20],
      [CHR 0xC2, CHR 0x85], [CHR 0xC2, CHR 0xA0], [CHR 0xE1, CHR 0x9A, CHR 0x80]]
     @ map (\<lambda>n. [CHR 0xE2, CHR 0x80, char_of n]) [0x80..<(0x8B::nat)]
     @ [[CHR 0xE2, CHR 0x80, CHR 0xA8], [CHR 0xE2, CHR 0x80, CHR 0xA9],
        [CHR 0xE2, CHR 0x80, CHR 0xAF], [CHR 0xE2, CHR 0x81, CHR 0x9F],
        [CHR 0xE3, CHR 0x80, CHR 0x80]]"

lemma space_runes_nonempty: "w \<in> set space_runes \<Longrightarrow> w \<noteq> []"
  by (auto simp: space_runes_def)

lemma find_prefix_space:
  assumes "find (has_prefix s) space_runes = Some w"
  shows "w \<in> set space_runes" "has_prefix s w" "w \<noteq> []" "s \<noteq> []"
proof -
  from assms show w: "w \<in> set space_runes" and p: "has_prefix s w"
    by (auto simp: find_Some_iff)
  from w show "w \<noteq> []" by (rule space_runes_nonempty)
  with p show "s \<noteq> []" by (auto simp: has_prefix_def)
qed

lemma find_suffix_space:
  assumes "find (has_suffix s) space_runes = Some w"
  shows "w \<in> set space_runes" "has_suffix s w" "w \<noteq> []" "s \<noteq> []"
proof -
  from assms show w: "w \<in> set space_runes" and p: "has_suffix s w"
    by (auto simp: find_Some_iff)
  from w show "w \<noteq> []" by (rule space_runes_nonempty)
  with p show "s \<noteq> []" by (auto simp: has_suffix_def)
qed

function trim_left :: "string \<Rightarrow> string" where
  "trim_left s = (case find (has_prefix s) space_runes of
      None \<Rightarrow> s | Some w \<Rightarrow> trim_left (drop (length w) s))"
  by pat_completeness auto
termination
  by (relation "measure length")
    (use find_prefix_space(3,4) in \<open>fastforce\<close>)+

function trim_right :: "string \<Rightarrow> string" where
  "trim_right s = (case find (has_suffix s) space_runes of
      None \<Rightarrow> s | Some w \<Rightarrow> trim_right (take (length s - length w) s))"
  by pat_completeness auto
termination
  by (relation "measure length")
    (use find_suffix_space(3,4) in \<open>fastforce\<close>)+

declare trim_left.simps [simp del] trim_right.simps [simp del]

definition trim_space :: "string \<Rightarrow> string" where
  "trim_space s = trim_right (trim_left s)"

lemma trim_left_id: "find (has_prefix s) space_runes = None \<Longrightarrow> trim_left s = s"
  by (simp add: trim_left.simps [of s])

lemma trim_right_id: "find (has_suffix s) space_runes = None \<Longrightarrow> trim_right s = s"
  by (simp add: trim_right.simps [of s])

lemma trim_left_no_space: "w \<in> set space_runes \<Longrightarrow> \<not> has_prefix (trim_left s) w"
proof (induction s rule: trim_left.induct)
  case (1 s)
  show ?case
  proof (cases "find (has_prefix s) space_runes")
    case None
    with "1.prems" show ?thesis by (simp add: trim_left_id find_None_iff)
  next
    case (Some v)
    with "1.IH" "1.prems" show ?thesis by (simp add: trim_left.simps [of s])
  qed
qed

lemma trim_right_no_space: "w \<in> set space_runes \<Longrightarrow> \<not> has_suffix (trim_right s) w"
proof (induction s rule: trim_right.induct)
  case (1 s)
  show ?case
  proof (cases "find (has_suffix s) space_runes")
    case None
    with "1.prems" show ?thesis by (simp add: trim_right_id find_None_iff)
  next
    case (Some v)
    with "1.IH" "1.prems" show ?thesis by (simp add: trim_right.simps [of s])
  qed
qed

lemma trim_right_prefix: "\<exists>t. s = trim_right s @ t"
proof (induction s rule: trim_right.induct)
  case (1 s)
  show ?case
  proof (cases "find (has_suffix s) space_runes")
    case None
    then show ?thesis by (simp add: trim_right_id)
  next
    case (Some w)
    with "1.IH" obtain t
      where "take (length s - length w) s = trim_right (take (length s - length w) s) @ t"
      by blast
    then have "s = trim_right (take (length s - length w) s) @ (t @ drop (length s - length w) s)"
      by (metis append.assoc append_take_drop_id)
    with Some show ?thesis by (auto simp: trim_right.simps [of s])
  qed
qed

text \<open>Trimming leaves no white space at either end, and is idempotent.\<close>

lemma trim_space_clean:
  assumes "w \<in> set space_runes"
  shows "\<not> has_prefix (trim_space s) w" "\<not> has_suffix (trim_space s) w"
proof -
  obtain t where "trim_left s = trim_space s @ t"
    unfolding trim_space_def using trim_right_prefix by blast
  with trim_left_no_space [OF assms, of s] show "\<not> has_prefix (trim_space s) w"
    by (auto simp: has_prefix_iff)
  show "\<not> has_suffix (trim_space s) w"
    unfolding trim_space_def by (rule trim_right_no_space [OF assms])
qed

lemma trim_space_id:
  assumes "\<And>w. w \<in> set space_runes \<Longrightarrow> \<not> has_prefix s w"
    and "\<And>w. w \<in> set space_runes \<Longrightarrow> \<not> has_suffix s w"
  shows "trim_space s = s"
  using assms by (simp add: trim_space_def trim_left_id trim_right_id find_None_iff)

lemma trim_space_idem [simp]: "trim_space (trim_space s) = trim_space s"
  by (rule trim_space_id) (simp_all add: trim_space_clean)

lemma trim_space_Nil [simp]: "trim_space [] = []"
  by (rule trim_space_id) (auto simp: has_prefix_def has_suffix_def dest: space_runes_nonempty)

text \<open>A text whose first and last bytes are printable ASCII is left alone.\<close>

definition printable :: "char \<Rightarrow> bool" where
  "printable c \<longleftrightarrow> 0x21 \<le> (of_char c :: nat) \<and> (of_char c :: nat) \<le> 0x7E"

lemma space_runes_not_printable:
  "w \<in> set space_runes \<Longrightarrow> \<not> printable (hd w) \<and> \<not> printable (last w)"
  by (auto simp: space_runes_def printable_def)

lemma trim_space_printable:
  assumes "s \<noteq> []" "printable (hd s)" "printable (last s)"
  shows "trim_space s = s"
proof (rule trim_space_id)
  fix w assume w: "w \<in> set space_runes"
  note ne = space_runes_nonempty [OF w] and np = space_runes_not_printable [OF w]
  from ne np assms(2) show "\<not> has_prefix s w"
    by (auto simp: has_prefix_iff)
  from ne np assms(3) show "\<not> has_suffix s w"
    by (auto simp: has_suffix_iff)
qed

subsection \<open>ToLower\<close>

definition lower_byte :: "char \<Rightarrow> char" where
  "lower_byte c = (if CHR ''A'' \<le> c \<and> c \<le> CHR ''Z'' then char_of (of_char c + (32::nat)) else c)"

definition kelvin_sign :: string where "kelvin_sign = [CHR 0xE2, CHR 0x84, CHR 0xAA]"
definition dotted_capital_i :: string where "dotted_capital_i = [CHR 0xC4, CHR 0xB0]"

fun to_lower :: "string \<Rightarrow> string" where
  "to_lower [] = []"
| "to_lower (c # s) =
     (if has_prefix (c # s) kelvin_sign then CHR ''k'' # to_lower (drop 2 s)
      else if has_prefix (c # s) dotted_capital_i then CHR ''i'' # to_lower (drop 1 s)
      else lower_byte c # to_lower s)"

subsection \<open>Splitting at a byte\<close>

text \<open>\<open>strings.IndexByte\<close> followed by the two slices, and \<open>strings.Cut\<close> at one byte.\<close>

fun cut_at :: "char \<Rightarrow> string \<Rightarrow> (string \<times> string) option" where
  "cut_at c [] = None"
| "cut_at c (x # s) =
     (if x = c then Some ([], s)
      else (case cut_at c s of None \<Rightarrow> None | Some (a, b) \<Rightarrow> Some (x # a, b)))"

lemma cut_at_SomeD: "cut_at c s = Some (a, b) \<Longrightarrow> s = a @ c # b \<and> c \<notin> set a"
  by (induction s arbitrary: a b) (auto split: if_splits option.splits)

lemma cut_at_None: "cut_at c s = None \<longleftrightarrow> c \<notin> set s"
  by (induction s) (auto split: option.splits)

lemma cut_at_append: "c \<notin> set a \<Longrightarrow> cut_at c (a @ c # b) = Some (a, b)"
  by (induction a) auto

end
