(* ===== verification/Auth.thy ===== *)
theory Auth
  imports GoStrings
begin

text \<open>
  Account credentials, \<open>internal/auth/auth.go\<close>: the record, the realm an account belongs
  to, the one-time completion of a missing realm, and the refresh protocol, in which callers
  of one account share a single refresh and a late response must not overwrite credentials
  that changed while it was under way.
\<close>

record auth =
  AccessToken :: string
  RefreshToken :: string
  ExpiresAt :: int
  Domain :: string
  realm :: string
  UID :: string
  EnterpriseID :: string
  Nickname :: string
  FilePath :: string
  DeviceToken :: string

definition empty_auth :: auth where
  "empty_auth = \<lparr>AccessToken = [], RefreshToken = [], ExpiresAt = 0, Domain = [], realm = [],
     UID = [], EnterpriseID = [], Nickname = [], FilePath = [], DeviceToken = []\<rparr>"

subsection \<open>Realm\<close>

definition is_global_domain :: "string \<Rightarrow> bool" where
  "is_global_domain d0 =
     (let d = to_lower (trim_space d0)
      in d = ''workbuddy.ai'' \<or> has_suffix d ''.workbuddy.ai'')"

text \<open>\<open>Realm()\<close>; the first argument is the switch \<open>globalEnabled\<close>.\<close>

definition Realm :: "bool \<Rightarrow> auth \<Rightarrow> string" where
  "Realm global_enabled a =
     (if \<not> global_enabled then ''cn''
      else if trim_space (realm a) = ''global'' \<or> is_global_domain (Domain a) then ''global''
      else ''cn'')"

definition IsGlobal :: "bool \<Rightarrow> auth \<Rightarrow> bool" where
  "IsGlobal global_enabled a \<longleftrightarrow> Realm global_enabled a = ''global''"

definition ResolveRealm :: "string \<Rightarrow> string \<Rightarrow> string" where
  "ResolveRealm explicit domain =
     (let r = trim_space explicit
      in if r \<noteq> [] then r else if is_global_domain domain then ''global'' else ''cn'')"

definition BackfillRealm :: "auth \<Rightarrow> auth \<times> bool \<times> string" where
  "BackfillRealm a =
     (if trim_space (realm a) \<noteq> [] then (a, False, realm a)
      else let r = ResolveRealm [] (Domain a) in (a\<lparr>realm := r\<rparr>, True, r))"

definition NeedsRefresh :: "instant \<Rightarrow> duration \<Rightarrow> int \<Rightarrow> auth \<Rightarrow> bool" where
  \<comment> \<open>\<open>epoch\<close>: the instant of Unix time 0; \<open>Unix()\<close> drops the fraction of a second\<close>
  "NeedsRefresh now within epoch a =
     (if ExpiresAt a \<le> 0 then True else (now + within - epoch) div second \<ge> ExpiresAt a)"

lemma Realm_cases: "Realm g a = ''cn'' \<or> Realm g a = ''global''"
  by (simp add: Realm_def)

lemma Realm_nonempty: "Realm g a \<noteq> []"
  by (simp add: Realm_def)

lemma trim_cn [simp]: "trim_space ''cn'' = ''cn''" and trim_global [simp]: "trim_space ''global'' = ''global''"
  by (simp_all add: trim_space_printable printable_def)

lemma BackfillRealm_keeps_Realm: "Realm g (fst (BackfillRealm a)) = Realm g a"
  by (simp add: BackfillRealm_def Realm_def ResolveRealm_def Let_def)

lemma BackfillRealm_idempotent:
  "BackfillRealm (fst (BackfillRealm a)) = (fst (BackfillRealm a), False, realm (fst (BackfillRealm a)))"
  by (simp add: BackfillRealm_def ResolveRealm_def Let_def)

subsection \<open>Refresh\<close>

record token_update =
  tu_AccessToken :: string
  tu_RefreshToken :: string
  tu_ExpiresAt :: int
  tu_Domain :: string

text \<open>Same credentials as in the snapshot the refresh started from.\<close>

definition same_credentials :: "auth \<Rightarrow> auth \<Rightarrow> bool" where
  "same_credentials a b \<longleftrightarrow> AccessToken a = AccessToken b \<and> RefreshToken a = RefreshToken b
     \<and> ExpiresAt a = ExpiresAt b \<and> Domain a = Domain b"

definition apply_update :: "token_update \<Rightarrow> auth \<Rightarrow> auth" where
  "apply_update u a = a\<lparr>
     AccessToken := tu_AccessToken u,
     RefreshToken := (if tu_RefreshToken u \<noteq> [] then tu_RefreshToken u else RefreshToken a),
     Domain := (if tu_Domain u \<noteq> [] then tu_Domain u else Domain a),
     ExpiresAt := (if tu_ExpiresAt u > 0 then tu_ExpiresAt u else ExpiresAt a)\<rparr>"

datatype refresh_error = RefreshFailed string | EmptyAccessToken | Interrupted

text \<open>
  What the leader does when the refresh callback returns: \<open>before\<close> is the snapshot it took,
  \<open>a\<close> the credentials as they are now.
\<close>

definition finish_refresh ::
  "auth \<Rightarrow> string + token_update \<Rightarrow> auth \<Rightarrow> auth \<times> refresh_error option" where
  "finish_refresh before r a =
     (case r of
        Inl e \<Rightarrow> (a, Some (RefreshFailed e))
      | Inr u \<Rightarrow>
          if trim_space (tu_AccessToken u) = [] then (a, Some EmptyAccessToken)
          else if same_credentials a before then (apply_update u a, None)
          else (a, None))"

text \<open>
  The single flight: callers are numbered; \<open>refreshing\<close> is the pending call, its leader and
  snapshot; a caller leads, waits for the pending call, or has returned with a result.
  A pending call is identified by its leader, who leads once.
\<close>

datatype caller =
    Fresh
  | Leading auth
  | Waiting nat
  | Returned nat "refresh_error option"

record flight =
  creds :: auth
  refreshing :: "nat option"
  callers :: "nat \<Rightarrow> caller"
  results :: "nat \<Rightarrow> refresh_error option option"

inductive refresh_step :: "flight \<Rightarrow> flight \<Rightarrow> bool" where
  lead: "callers s i = Fresh \<Longrightarrow> refreshing s = None \<Longrightarrow>
     refresh_step s (s\<lparr>refreshing := Some i, callers := (callers s)(i := Leading (creds s))\<rparr>)"
| join: "callers s i = Fresh \<Longrightarrow> refreshing s = Some l \<Longrightarrow>
     refresh_step s (s\<lparr>callers := (callers s)(i := Waiting l)\<rparr>)"
| finish: "callers s i = Leading before \<Longrightarrow> finish_refresh before r (creds s) = (a, e) \<Longrightarrow>
     refresh_step s (s\<lparr>creds := a, refreshing := None, results := (results s)(i := Some e),
       callers := (callers s)(i := Returned i e)\<rparr>)"
| panic: "callers s i = Leading before \<Longrightarrow>
     refresh_step s (s\<lparr>refreshing := None, results := (results s)(i := Some (Some Interrupted)),
       callers := (callers s)(i := Returned i (Some Interrupted))\<rparr>)"
| wake: "callers s i = Waiting l \<Longrightarrow> results s l = Some e \<Longrightarrow>
     refresh_step s (s\<lparr>callers := (callers s)(i := Returned l e)\<rparr>)"
| other_writer: "refresh_step s (s\<lparr>creds := c\<rparr>)"

definition flight_start :: "auth \<Rightarrow> flight" where
  "flight_start a = \<lparr>creds = a, refreshing = None, callers = (\<lambda>_. Fresh), results = (\<lambda>_. None)\<rparr>"

inductive flight_reachable :: "auth \<Rightarrow> flight \<Rightarrow> bool" for a where
  init: "flight_reachable a (flight_start a)"
| step: "flight_reachable a s \<Longrightarrow> refresh_step s t \<Longrightarrow> flight_reachable a t"

inductive_cases refresh_stepE: "refresh_step s t"

definition flight_inv :: "flight \<Rightarrow> bool" where
  "flight_inv s \<longleftrightarrow>
     (\<forall>i. (\<exists>b. callers s i = Leading b) \<longleftrightarrow> refreshing s = Some i)
   \<and> (\<forall>i l. callers s i = Waiting l \<longrightarrow> refreshing s = Some l \<or> results s l \<noteq> None)
   \<and> (\<forall>i l e. callers s i = Returned l e \<longrightarrow> results s l = Some e)
   \<and> (\<forall>l. results s l \<noteq> None \<longrightarrow> (\<exists>e. callers s l = Returned l e))"

lemma flight_inv_fresh:
  "flight_inv s \<Longrightarrow> callers s i = Fresh \<Longrightarrow> refreshing s \<noteq> Some i \<and> results s i = None"
  unfolding flight_inv_def by (metis caller.distinct(1,5) option.exhaust)

lemma flight_inv_waiting:
  "flight_inv s \<Longrightarrow> callers s i = Waiting l \<Longrightarrow> refreshing s \<noteq> Some i \<and> results s i = None"
  unfolding flight_inv_def by (metis caller.distinct(7,11) option.exhaust)

lemma flight_inv_leader:
  assumes "flight_inv s" "callers s i = Leading b"
  shows "refreshing s = Some i" "results s i = None" "\<And>j c. callers s j = Leading c \<Longrightarrow> j = i"
    "\<And>j e. callers s j \<noteq> Returned i e"
proof -
  show r: "refreshing s = Some i" using assms unfolding flight_inv_def by blast
  show n: "results s i = None"
    using assms unfolding flight_inv_def by (metis caller.distinct(9))
  show "j = i" if "callers s j = Leading c" for j c
    using assms(1) that r unfolding flight_inv_def by (metis option.inject)
  show "callers s j \<noteq> Returned i e" for j e
    using assms(1) n unfolding flight_inv_def by auto
qed

lemma flight_inv_finish:
  assumes inv: "flight_inv s" and i: "callers s i = Leading b"
  shows "flight_inv (s\<lparr>creds := a, refreshing := None, results := (results s)(i := Some e),
    callers := (callers s)(i := Returned i e)\<rparr>)"
proof -
  note L = flight_inv_leader [OF inv i]
  have "callers s j \<noteq> Leading c" if "j \<noteq> i" for j c using L(3) that by blast
  moreover have "results s l \<noteq> None" if "l \<noteq> i" "callers s j = Waiting l" for j l
    using inv that L(1) unfolding flight_inv_def by auto
  ultimately show ?thesis using inv L(4) unfolding flight_inv_def by auto
qed

lemma refresh_step_inv: "refresh_step s t \<Longrightarrow> flight_inv s \<Longrightarrow> flight_inv t"
proof (induction rule: refresh_step.induct)
  case (lead s i)
  then show ?case using flight_inv_fresh [of s i] by (auto simp: flight_inv_def)
next
  case (join s i l)
  then show ?case using flight_inv_fresh [of s i] by (auto simp: flight_inv_def)
next
  case (finish s i before r a e)
  then show ?case by (blast intro: flight_inv_finish)
next
  case (panic s i before)
  then show ?case using flight_inv_finish [where s = s and i = i and b = before and a = "creds s" and e = "Some Interrupted"] by simp
next
  case (wake s i l e)
  then show ?case using flight_inv_waiting [of s i l] by (auto simp: flight_inv_def)
next
  case (other_writer s c)
  then show ?case by (simp add: flight_inv_def)
qed

lemma flight_reachable_inv: "flight_reachable a s \<Longrightarrow> flight_inv s"
proof (induction rule: flight_reachable.induct)
  case init
  show ?case by (simp add: flight_inv_def flight_start_def)
next
  case (step s t)
  then show ?case by (blast intro: refresh_step_inv)
qed

end
