(* ===== verification/GoFloat.thy ===== *)
theory GoFloat
  imports Complex_Main Prelude
begin

text \<open>
  Go's \<open>float64\<close>. A value is a rational number and every operation is the exact operation
  followed by \<open>fl\<close>, rounding to 53 significant bits, ties to even, as IEEE 754 and the Go
  specification prescribe (no fused operations). The exponent is not bounded: overflow to
  infinity, NaN and subnormal numbers are outside this model. The lemmas are the laws the
  components use: rounding is monotone, keeps the sign, and is exact on small integers.
\<close>

type_synonym float64 = rat

subsection \<open>Rounding to an integer, ties to even\<close>

definition round_even :: "rat \<Rightarrow> int" where
  "round_even x =
     (let f = \<lfloor>x\<rfloor>; d = x - of_int f
      in if d < 1 / 2 then f else if d > 1 / 2 then f + 1 else if even f then f else f + 1)"

lemma round_even_bounds: "\<lfloor>x\<rfloor> \<le> round_even x" "round_even x \<le> \<lfloor>x\<rfloor> + 1"
  by (simp_all add: round_even_def Let_def)

lemma round_even_of_int [simp]: "round_even (of_int n) = n"
  by (simp add: round_even_def)

lemma round_even_near: "\<bar>of_int (round_even x) - x\<bar> \<le> 1 / 2"
proof -
  have "of_int \<lfloor>x\<rfloor> \<le> x" "x < of_int \<lfloor>x\<rfloor> + 1" by linarith+
  then show ?thesis by (simp add: round_even_def Let_def abs_if) linarith
qed

lemma round_even_mono:
  assumes "x \<le> y" shows "round_even x \<le> round_even y"
proof (cases "\<lfloor>x\<rfloor> = \<lfloor>y\<rfloor>")
  case True
  with assms show ?thesis by (auto simp: round_even_def Let_def)
next
  case False
  moreover have "\<lfloor>x\<rfloor> \<le> \<lfloor>y\<rfloor>" using assms by (rule floor_mono)
  ultimately have "\<lfloor>x\<rfloor> + 1 \<le> \<lfloor>y\<rfloor>" by simp
  with round_even_bounds [of x] round_even_bounds [of y] show ?thesis by linarith
qed

subsection \<open>The binary exponent of a positive number\<close>

fun lg :: "nat \<Rightarrow> nat" where
  "lg n = (if n < 2 then 0 else Suc (lg (n div 2)))"

declare lg.simps [simp del]

lemma lg_bounds: "0 < n \<Longrightarrow> 2 ^ lg n \<le> n \<and> n < 2 ^ (lg n + 1)"
proof (induction n rule: lg.induct)
  case (1 n)
  show ?case
  proof (cases "n < 2")
    case True
    with "1.prems" show ?thesis by (simp add: lg.simps [of n])
  next
    case False
    then have "0 < n div 2" by simp
    with "1.IH" False have "2 ^ lg (n div 2) \<le> n div 2 \<and> n div 2 < 2 ^ (lg (n div 2) + 1)" by simp
    with False show ?thesis by (auto simp: lg.simps [of n])
  qed
qed

definition exponent :: "rat \<Rightarrow> int" where
  "exponent x =
     (if 1 \<le> x then int (lg (nat \<lfloor>x\<rfloor>))
      else let j = lg (nat \<lfloor>1 / x\<rfloor>) in if x * 2 ^ j = 1 then - int j else - int j - 1)"

lemma lg_floor:
  assumes "1 \<le> (y :: rat)"
  shows "2 ^ lg (nat \<lfloor>y\<rfloor>) \<le> y" "y < 2 ^ (lg (nat \<lfloor>y\<rfloor>) + 1)"
proof -
  let ?n = "nat \<lfloor>y\<rfloor>"
  have n: "0 < ?n" "int ?n = \<lfloor>y\<rfloor>" using assms by (simp_all add: le_floor_iff)
  have "(2 ^ lg ?n :: int) \<le> \<lfloor>y\<rfloor>"
    using lg_bounds [OF n(1)] n(2) by (metis of_nat_le_iff of_nat_numeral of_nat_power)
  then have "of_int (2 ^ lg ?n) \<le> y" by (simp add: le_floor_iff)
  then show "2 ^ lg ?n \<le> y" by simp
  have "\<lfloor>y\<rfloor> < (2 ^ (lg ?n + 1) :: int)"
    using lg_bounds [OF n(1)] n(2) by (metis of_nat_less_iff of_nat_numeral of_nat_power)
  then have "y < of_int (2 ^ (lg ?n + 1))" by (simp add: floor_less_iff)
  then show "y < 2 ^ (lg ?n + 1)" by simp
qed

lemma exponent_bounds:
  assumes "0 < (x :: rat)"
  shows "2 powi exponent x \<le> x" "x < 2 powi (exponent x + 1)"
proof -
  have "2 powi exponent x \<le> x \<and> x < 2 powi (exponent x + 1)"
  proof (cases "1 \<le> x")
    case True
    have "2 powi (int (lg (nat \<lfloor>x\<rfloor>)) + 1) = (2 :: rat) ^ (lg (nat \<lfloor>x\<rfloor>) + 1)"
      by (metis of_nat_Suc Suc_eq_plus1 power_int_of_nat add.commute)
    with True lg_floor [OF True] show ?thesis
      by (simp add: exponent_def)
  next
    case False
    let ?j = "lg (nat \<lfloor>1 / x\<rfloor>)"
    from False assms have "1 \<le> 1 / x" by simp
    from lg_floor [OF this] assms
    have b: "x * 2 ^ ?j \<le> 1" "1 < x * 2 ^ (?j + 1)"
      by (simp_all add: field_simps)
    have p: "2 powi (- int ?j) = 1 / (2 :: rat) ^ ?j"
      by (simp add: power_int_minus field_simps)
    have p1: "2 powi (- int ?j - 1) = 1 / (2 :: rat) ^ (?j + 1)"
      by (simp add: power_int_diff p field_simps)
    have p2: "2 powi (- int ?j + 1) = 2 / (2 :: rat) ^ ?j"
      using power_int_add [of "2 :: rat" "- int ?j" 1] p by (simp add: add.commute)
    show ?thesis
    proof (cases "x * 2 ^ ?j = 1")
      case True
      then have "x = 1 / 2 ^ ?j" by (simp add: field_simps)
      moreover have "2 / 2 ^ ?j = 2 * x" using \<open>x = 1 / 2 ^ ?j\<close> by (metis times_divide_eq_right mult.right_neutral)
      moreover have "exponent x = - int ?j" using True False by (simp add: exponent_def Let_def)
      ultimately show ?thesis using p p2 assms by (metis order_refl less_add_same_cancel1 mult_2)
    next
      case neq: False
      with False have e: "exponent x = - int ?j - 1" by (simp add: exponent_def Let_def)
      have e1: "exponent x + 1 = - int ?j" by (simp add: e)
      from b neq have "x < 1 / 2 ^ ?j" "1 / 2 ^ (?j + 1) \<le> x" by (simp_all add: field_simps)
      then show ?thesis unfolding e1 unfolding e p p1 by simp
    qed
  qed
  then show "2 powi exponent x \<le> x" "x < 2 powi (exponent x + 1)" by simp_all
qed

lemma exponent_eqI:
  assumes "2 powi e \<le> (x :: rat)" "x < 2 powi (e + 1)"
  shows "exponent x = e"
proof -
  have "0 < (2 :: rat) powi e" by simp
  with assms(1) have "0 < x" by linarith
  note b = exponent_bounds [OF this]
  have "2 powi e < (2 :: rat) powi (exponent x + 1)" using assms(1) b(2) by linarith
  moreover have "2 powi exponent x < (2 :: rat) powi (e + 1)" using assms(2) b(1) by linarith
  ultimately have "e < exponent x + 1" "exponent x < e + 1"
    by (meson linorder_not_le not_less power_int_increasing one_le_numeral)+
  then show ?thesis by simp
qed

lemma exponent_mono: "0 < x \<Longrightarrow> x \<le> y \<Longrightarrow> exponent x \<le> exponent y"
proof (rule ccontr)
  assume "0 < x" "x \<le> y" "\<not> exponent x \<le> exponent y"
  then have "(2 :: rat) powi (exponent y + 1) \<le> 2 powi exponent x"
    by (intro power_int_increasing) simp_all
  with exponent_bounds [of x] exponent_bounds [of y] \<open>0 < x\<close> \<open>x \<le> y\<close> show False by linarith
qed

subsection \<open>Rounding to 53 significant bits\<close>

definition ulp :: "rat \<Rightarrow> rat" where
  "ulp x = 2 powi (exponent x - 52)"

definition fl_pos :: "rat \<Rightarrow> rat" where
  "fl_pos x = of_int (round_even (x / ulp x)) * ulp x"

definition fl :: "rat \<Rightarrow> float64" where
  "fl x = (if x = 0 then 0 else if 0 < x then fl_pos x else - fl_pos (- x))"

lemma ulp_pos [simp]: "0 < ulp x" by (simp add: ulp_def)

lemma fl_pos_bounds:
  assumes "0 < x"
  shows "2 powi exponent x \<le> fl_pos x" "fl_pos x \<le> 2 powi (exponent x + 1)"
proof -
  have e: "2 powi exponent x = of_int (2 ^ 52) * ulp x"
      "2 powi (exponent x + 1) = of_int (2 ^ 53) * ulp x"
    using power_int_add [of "2 :: rat" "exponent x - 52" 52]
      power_int_add [of "2 :: rat" "exponent x - 52" 53]
    by (simp_all add: ulp_def mult.commute add.commute)
  have "of_int (2 ^ 52) \<le> x / ulp x" "x / ulp x \<le> of_int (2 ^ 53)"
    using exponent_bounds [OF assms] unfolding e
    by (simp_all add: pos_le_divide_eq pos_divide_le_eq less_imp_le)
  then have "2 ^ 52 \<le> round_even (x / ulp x)" "round_even (x / ulp x) \<le> 2 ^ 53"
    by (metis round_even_mono round_even_of_int)+
  then have "of_int (2 ^ 52) \<le> (of_int (round_even (x / ulp x)) :: rat)"
    "(of_int (round_even (x / ulp x)) :: rat) \<le> of_int (2 ^ 53)"
    by (simp_all only: of_int_le_iff)
  then show "2 powi exponent x \<le> fl_pos x" "fl_pos x \<le> 2 powi (exponent x + 1)"
    unfolding e fl_pos_def by (simp_all add: mult_right_mono less_imp_le)
qed

lemma fl_pos_mono:
  assumes "0 < x" "x \<le> y" shows "fl_pos x \<le> fl_pos y"
proof (cases "exponent x = exponent y")
  case True
  then have "ulp x = ulp y" by (simp add: ulp_def)
  with assms show ?thesis
    by (simp add: fl_pos_def round_even_mono divide_right_mono less_imp_le)
next
  case False
  with exponent_mono [OF assms] have "exponent x + 1 \<le> exponent y" by simp
  then have "(2 :: rat) powi (exponent x + 1) \<le> 2 powi exponent y"
    by (intro power_int_increasing) simp_all
  with fl_pos_bounds [of x] fl_pos_bounds [of y] assms show ?thesis by linarith
qed

lemma fl_pos_pos: "0 < x \<Longrightarrow> 0 < fl_pos x"
  using fl_pos_bounds(1) [of x] zero_less_power_int [of "2 :: rat" "exponent x"] by linarith

lemma fl_0 [simp]: "fl 0 = 0" by (simp add: fl_def)

lemma fl_minus: "fl (- x) = - fl x" by (simp add: fl_def)

lemma fl_mono: "x \<le> y \<Longrightarrow> fl x \<le> fl y"
  using fl_pos_mono [of x y] fl_pos_mono [of "- y" "- x"] fl_pos_pos [of y] fl_pos_pos [of "- x"]
  by (auto simp: fl_def)

lemma fl_nonneg: "0 \<le> x \<Longrightarrow> 0 \<le> fl x"
  using fl_mono [of 0 x] by simp

lemma fl_pos': "0 < x \<Longrightarrow> 0 < fl x"
  by (simp add: fl_def fl_pos_pos)

subsection \<open>Exactly representable numbers\<close>

lemma fl_exact:
  assumes "\<bar>m\<bar> \<le> 2 ^ 53"
  shows "fl (of_int m * 2 powi k) = of_int m * 2 powi k"
proof -
  have pos: "fl_pos (of_int m * 2 powi k) = of_int m * 2 powi k"
    if m: "0 < m" "m \<le> 2 ^ 53" for m :: int
  proof -
    let ?x = "of_int m * (2 :: rat) powi k"
    have x: "0 < ?x" using m by simp
    have "?x \<le> of_int (2 ^ 53) * 2 powi k"
      using m by (intro mult_right_mono) (simp_all only: of_int_le_iff, simp)
    also have "\<dots> = 2 powi (k + 53)" by (simp add: power_int_add)
    finally have "(2 :: rat) powi exponent ?x \<le> 2 powi (k + 53)"
      using exponent_bounds(1) [OF x] by linarith
    then have le: "exponent ?x \<le> k + 53"
      by (meson linorder_not_le not_less power_int_strict_increasing one_less_numeral_iff semiring_norm(76))
    show ?thesis
    proof (cases "exponent ?x \<le> k + 52")
      case True
      define n where "n = nat (k - (exponent ?x - 52))"
      have n: "k = (exponent ?x - 52) + int n" using True by (simp add: n_def)
      have "?x = of_int (m * 2 ^ n) * ulp ?x"
        unfolding ulp_def by (subst n, simp add: power_int_add)
      then have "?x / ulp ?x = of_int (m * 2 ^ n)" by (metis nonzero_mult_div_cancel_right ulp_pos less_irrefl)
      then have "fl_pos ?x = of_int (m * 2 ^ n) * ulp ?x"
        unfolding fl_pos_def by (metis round_even_of_int)
      with \<open>?x = of_int (m * 2 ^ n) * ulp ?x\<close> show ?thesis by metis
    next
      case False
      with le have e: "exponent ?x = k + 53" by simp
      from exponent_bounds(1) [OF x] have "of_int (2 ^ 53) * 2 powi k \<le> ?x"
        unfolding e by (simp add: power_int_add)
      then have "of_int (2 ^ 53) \<le> (of_int m :: rat)" by (simp add: mult_le_cancel_right)
      then have "m = 2 ^ 53" using m(2) by (simp only: of_int_le_iff)
      then have xx: "?x = of_int (2 ^ 52) * ulp ?x"
        unfolding ulp_def e by (simp add: power_int_add)
      then have "?x / ulp ?x = of_int (2 ^ 52)" by (metis nonzero_mult_div_cancel_right ulp_pos less_irrefl)
      then have "fl_pos ?x = of_int (2 ^ 52) * ulp ?x"
        unfolding fl_pos_def by (metis round_even_of_int)
      with xx show ?thesis by metis
    qed
  qed
  consider "m = 0" | "0 < m" | "m < 0" by linarith
  then show ?thesis
  proof cases
    case 3
    then have "of_int m * (2 :: rat) powi k < 0" by (intro mult_neg_pos) simp_all
    with pos [of "- m"] 3 assms show ?thesis by (simp add: fl_def)
  qed (use pos [of m] assms in \<open>simp_all add: fl_def zero_less_mult_iff\<close>)
qed

lemma fl_of_int [simp]: "\<bar>m\<bar> \<le> 2 ^ 53 \<Longrightarrow> fl (of_int m) = of_int m"
  using fl_exact [of m 0] by simp

lemma fl_1 [simp]: "fl 1 = 1"
  using fl_of_int [of 1] by simp

lemma fl_numeral [simp]: "numeral n \<le> (2 ^ 53 :: int) \<Longrightarrow> fl (numeral n) = numeral n"
  using fl_of_int [of "numeral n"] by simp

lemma fl_le_of_int: "x \<le> of_int m \<Longrightarrow> \<bar>m\<bar> \<le> 2 ^ 53 \<Longrightarrow> fl x \<le> of_int m"
  using fl_mono [of x "of_int m"] by simp

lemma fl_ge_of_int: "of_int m \<le> x \<Longrightarrow> \<bar>m\<bar> \<le> 2 ^ 53 \<Longrightarrow> of_int m \<le> fl x"
  using fl_mono [of "of_int m" x] by simp

lemma fl_ge_1: "1 \<le> x \<Longrightarrow> 1 \<le> fl x" using fl_mono [of 1 x] by simp
lemma fl_le_1: "x \<le> 1 \<Longrightarrow> fl x \<le> 1" using fl_mono [of x 1] by simp

text \<open>Halving is exact, so rounding commutes with it.\<close>

lemma exponent_half: "0 < x \<Longrightarrow> exponent (x / 2) = exponent x - 1"
  using exponent_bounds [of x]
  by (intro exponent_eqI) (simp_all add: power_int_diff power_int_add field_simps)

lemma fl_half: "fl (x / 2) = fl x / 2"
proof -
  have *: "fl_pos (y / 2) = fl_pos y / 2" if "0 < y" for y
  proof -
    have u: "ulp (y / 2) = ulp y / 2"
      using that by (simp add: ulp_def exponent_half power_int_diff)
    show ?thesis unfolding fl_pos_def u by simp
  qed
  show ?thesis using * [of x] * [of "- x"] by (auto simp: fl_def)
qed

lemma fl_pos_near: "0 < x \<Longrightarrow> \<bar>fl_pos x - x\<bar> \<le> ulp x / 2"
proof -
  assume "0 < x"
  have "fl_pos x - x = (of_int (round_even (x / ulp x)) - x / ulp x) * ulp x"
    using less_imp_neq [OF ulp_pos [of x]] by (simp add: fl_pos_def algebra_simps)
  then have "\<bar>fl_pos x - x\<bar> = \<bar>of_int (round_even (x / ulp x)) - x / ulp x\<bar> * ulp x"
    using ulp_pos [of x] by (simp add: abs_mult abs_of_pos)
  also have "\<dots> \<le> 1 / 2 * ulp x"
    by (intro mult_right_mono round_even_near) (simp add: less_imp_le)
  finally show ?thesis by simp
qed

text \<open>Rounding a nonnegative number at most doubles it.\<close>

lemma fl_le_double: "0 \<le> x \<Longrightarrow> fl x \<le> 2 * x"
proof -
  assume x: "0 \<le> x"
  show ?thesis
  proof (cases "x = 0")
    case False
    with x have p: "0 < x" by simp
    have "fl_pos x \<le> 2 powi (exponent x + 1)" by (rule fl_pos_bounds [OF p])
    also have "\<dots> = 2 * 2 powi exponent x" by (simp add: power_int_add)
    also have "\<dots> \<le> 2 * x" using exponent_bounds(1) [OF p] by simp
    finally show ?thesis using p by (simp add: fl_def)
  qed simp
qed

text \<open>Conversion \<open>int64(x)\<close> drops the fraction.\<close>

definition trunc64 :: "rat \<Rightarrow> int" where
  "trunc64 x = (if 0 \<le> x then \<lfloor>x\<rfloor> else \<lceil>x\<rceil>)"

end
