(* ===== verification/PoolEntry.thy ===== *)
theory PoolEntry
  imports Auth GoFloat
begin

text \<open>
  The data of the account pool, \<open>internal/pool/entry.go\<close> and the struct of \<open>pool.go\<close>: one
  \<open>entry\<close> per account with four independent reasons to be unavailable (disabled, account
  cooldown, per-model cooldown, circuit breaker), what of it is written to disk, and the
  predicates that read it. Every function that calls \<open>time.Now()\<close> takes the instant as
  \<open>now\<close>; \<open>Realm()\<close> reads a process-wide switch, which is the argument \<open>g\<close>.
\<close>

subsection \<open>Constants\<close>

type_synonym CoolKind = int

definition CoolHard :: CoolKind where "CoolHard = 0"
definition CoolSoft :: CoolKind where "CoolSoft = 1"

definition CoolKind_String :: "CoolKind \<Rightarrow> string" where
  "CoolKind_String k =
     (if k = CoolHard then ''hard_credit'' else if k = CoolSoft then ''soft_rate'' else ''unknown'')"

definition modelCostTTL :: duration where "modelCostTTL = 6 * hour"
definition defaultBreakerThreshold :: int where "defaultBreakerThreshold = 3"
definition defaultBreakerCooldown :: duration where "defaultBreakerCooldown = 30 * minute"
definition defaultBreakerCooldownMax :: duration where "defaultBreakerCooldownMax = 6 * hour"
definition defaultSoftRateMax :: duration where "defaultSoftRateMax = 2 * hour"
definition modelBlockBaseTTL :: duration where "modelBlockBaseTTL = 6 * hour"
definition modelBlockMaxTTL :: duration where "modelBlockMaxTTL = 24 * hour"
definition modelBlockShift :: int where "modelBlockShift = 6"
definition sessionDeadThreshold :: int where "sessionDeadThreshold = 3"
definition sessionDeadReason :: string where "sessionDeadReason = ''12153 session dead''"
definition softStreakShiftMax :: int where "softStreakShiftMax = 16"
definition defaultIdleWeightPerHour :: float64 where "defaultIdleWeightPerHour = 1 / 2"
definition defaultIdleWeightMax :: float64 where "defaultIdleWeightMax = 5"
definition successAlpha :: float64 where "successAlpha = fl (1 / 10)"

lemmas pool_const_defs = CoolHard_def CoolSoft_def modelCostTTL_def defaultBreakerThreshold_def
  defaultBreakerCooldown_def defaultBreakerCooldownMax_def defaultSoftRateMax_def
  modelBlockBaseTTL_def modelBlockMaxTTL_def modelBlockShift_def sessionDeadThreshold_def
  softStreakShiftMax_def

subsection \<open>Entries\<close>

record modelCostEntry =
  CostPer1k :: float64
  LastSeen :: instant
  Samples :: int

record modelCooldown =
  mc_Until :: instant
  mc_ResetAt :: instant
  mc_Reason :: string
  mc_Hits :: int

record entry =
  acct :: auth
  credits :: int
  creditsExpiring :: int
  successCount :: int
  errTotal :: int
  successEMA :: float64
  errorEMA :: float64
  lastErr :: instant
  lastSuccess :: instant
  coolKind :: CoolKind
  until :: instant
  disabled :: bool
  reason :: string
  lastUsed :: instant
  usedSeq :: nat
  breakerUntil :: instant
  fails :: int
  retryCount :: int
  softStreak :: int
  modelCooldowns :: "(string, modelCooldown) gomap"
  sessionDeadFails :: int
  inFlight :: int
  modelCost :: "(string, modelCostEntry) gomap"

text \<open>The entry \<open>&entry{a: a}\<close>: Go's zero values everywhere else.\<close>

definition new_entry :: "auth \<Rightarrow> entry" where
  "new_entry a = \<lparr>acct = a, credits = 0, creditsExpiring = 0, successCount = 0, errTotal = 0,
     successEMA = 0, errorEMA = 0, lastErr = 0, lastSuccess = 0, coolKind = 0, until = 0,
     disabled = False, reason = [], lastUsed = 0, usedSeq = 0, breakerUntil = 0, fails = 0,
     retryCount = 0, softStreak = 0, modelCooldowns = [], sessionDeadFails = 0, inFlight = 0,
     modelCost = []\<rparr>"

definition modelCostOf :: "entry \<Rightarrow> string \<Rightarrow> instant \<Rightarrow> modelCostEntry option" where
  "modelCostOf e model now =
     (if model = [] then None
      else case mget (modelCost e) model of
        None \<Rightarrow> None
      | Some mc \<Rightarrow>
          if is_zero (LastSeen mc) then None
          else if time_sub now (LastSeen mc) > modelCostTTL then None
          else Some mc)"

text \<open>A deadline in force: set, and still ahead.\<close>

definition in_force :: "instant \<Rightarrow> instant \<Rightarrow> bool" where
  "in_force now t \<longleftrightarrow> \<not> is_zero t \<and> now < t"

definition healthy :: "entry \<Rightarrow> instant \<Rightarrow> bool" where
  "healthy e now =
     (if disabled e then False
      else if in_force now (until e) then False
      else if in_force now (breakerUntil e) then False
      else True)"

definition modelExempt :: "entry \<Rightarrow> bool" where
  "modelExempt e \<longleftrightarrow> length (modelCooldowns e) > 0 \<and> \<not> disabled e \<and> is_zero (breakerUntil e)"

definition modelCooled :: "entry \<Rightarrow> instant \<Rightarrow> string \<Rightarrow> bool" where
  "modelCooled e now reqModel =
     (if reqModel = [] then False
      else case mget (modelCooldowns e) reqModel of
        None \<Rightarrow> False
      | Some mc \<Rightarrow> in_force now (mc_Until mc))"

definition healthyForModel :: "entry \<Rightarrow> instant \<Rightarrow> string \<Rightarrow> bool" where
  "healthyForModel e now reqModel =
     (if \<not> healthy e now then False else if modelCooled e now reqModel then False else True)"

definition pruneExpiredModelCooldowns :: "instant \<Rightarrow> entry \<Rightarrow> entry" where
  "pruneExpiredModelCooldowns now e =
     (if length (modelCooldowns e) = 0 then e
      else e\<lparr>modelCooldowns := filter (\<lambda>(m, mc). in_force now (mc_Until mc)) (modelCooldowns e)\<rparr>)"

definition expiry :: "entry \<Rightarrow> instant \<Rightarrow> instant" where
  "expiry e now =
     (let t = (if in_force now (until e) then until e else zero_time)
      in if in_force now (breakerUntil e) \<and> (is_zero t \<or> breakerUntil e < t)
         then breakerUntil e else t)"

definition fallbackKind :: "entry \<Rightarrow> instant \<Rightarrow> string" where
  "fallbackKind e now =
     (if in_force now (breakerUntil e)
         \<and> (is_zero (until e) \<or> \<not> now < until e \<or> breakerUntil e < until e)
      then ''breaker'' else ''soft'')"

lemma healthy_iff:
  "healthy e now \<longleftrightarrow> \<not> disabled e \<and> \<not> in_force now (until e) \<and> \<not> in_force now (breakerUntil e)"
  by (simp add: healthy_def)

lemma healthyForModel_iff: "healthyForModel e now m \<longleftrightarrow> healthy e now \<and> \<not> modelCooled e now m"
  by (simp add: healthyForModel_def)

lemma healthyForModel_empty [simp]: "healthyForModel e now [] = healthy e now"
  by (simp add: healthyForModel_iff modelCooled_def)

lemma prune_eq:
  "pruneExpiredModelCooldowns now e
     = e\<lparr>modelCooldowns := filter (\<lambda>(m, mc). in_force now (mc_Until mc)) (modelCooldowns e)\<rparr>"
  by (simp add: pruneExpiredModelCooldowns_def)

lemma prune_modelCooldowns:
  "modelCooldowns (pruneExpiredModelCooldowns now e)
     = filter (\<lambda>(m, mc). in_force now (mc_Until mc)) (modelCooldowns e)"
  by (simp add: prune_eq)

lemma prune_frame [simp]:
  "healthy (pruneExpiredModelCooldowns now e) t = healthy e t"
  "acct (pruneExpiredModelCooldowns now e) = acct e"
  "disabled (pruneExpiredModelCooldowns now e) = disabled e"
  "until (pruneExpiredModelCooldowns now e) = until e"
  "breakerUntil (pruneExpiredModelCooldowns now e) = breakerUntil e"
  "coolKind (pruneExpiredModelCooldowns now e) = coolKind e"
  "inFlight (pruneExpiredModelCooldowns now e) = inFlight e"
  "credits (pruneExpiredModelCooldowns now e) = credits e"
  "expiry (pruneExpiredModelCooldowns now e) t = expiry e t"
  "modelCostOf (pruneExpiredModelCooldowns now e) m t = modelCostOf e m t"
  by (simp_all add: prune_eq healthy_def expiry_def modelCostOf_def Let_def cong: if_cong)

text \<open>Pruning drops only entries that no longer hold a model back.\<close>

lemma prune_modelCooled [simp]:
  "wfmap (modelCooldowns e) \<Longrightarrow>
   modelCooled (pruneExpiredModelCooldowns now e) now m = modelCooled e now m"
  by (auto simp: modelCooled_def prune_modelCooldowns mget_filter_wf split: option.splits)

lemma expiry_zero_iff:
  "0 \<le> now \<Longrightarrow> is_zero (expiry e now) \<longleftrightarrow> \<not> in_force now (until e) \<and> \<not> in_force now (breakerUntil e)"
  by (auto simp: expiry_def in_force_def is_zero_def zero_time_def Let_def)

lemma expiry_in_force: "\<not> is_zero (expiry e now) \<Longrightarrow> in_force now (expiry e now)"
  by (auto simp: expiry_def in_force_def is_zero_def zero_time_def Let_def split: if_splits)

subsection \<open>What is persisted\<close>

record stateModelCooldown =
  smc_Until :: instant
  smc_ResetAt :: instant
  smc_Reason :: string

record stateAccount =
  sa_Credits :: int
  sa_Disabled :: bool
  sa_Reason :: string
  sa_Until :: instant
  sa_CoolKind :: CoolKind
  sa_SuccessCount :: int
  sa_ErrTotal :: int
  sa_ErrCount :: int
  sa_LastSuccess :: instant
  sa_LastErr :: instant
  sa_SuccessEMA :: float64
  sa_ErrorEMA :: float64
  sa_SoftStreak :: int
  sa_SessionDeadFails :: int
  sa_BreakerUntil :: "instant option"
  sa_RetryCount :: int
  sa_CreditsExpiring :: int
  sa_ModelCooldowns :: "(string, stateModelCooldown) gomap"

record stateFile =
  Accounts :: "(string, stateAccount) gomap"
  AccountEpochs :: "(string, nat) gomap"

definition zero_stateAccount :: stateAccount where
  "zero_stateAccount = \<lparr>sa_Credits = 0, sa_Disabled = False, sa_Reason = [], sa_Until = 0,
     sa_CoolKind = 0, sa_SuccessCount = 0, sa_ErrTotal = 0, sa_ErrCount = 0, sa_LastSuccess = 0,
     sa_LastErr = 0, sa_SuccessEMA = 0, sa_ErrorEMA = 0, sa_SoftStreak = 0,
     sa_SessionDeadFails = 0, sa_BreakerUntil = None, sa_RetryCount = 0, sa_CreditsExpiring = 0,
     sa_ModelCooldowns = []\<rparr>"

definition zero_stateFile :: stateFile where
  "zero_stateFile = \<lparr>Accounts = [], AccountEpochs = []\<rparr>"

record stateIntent =
  si_fields :: "string set"
  si_models :: "string set"
  si_deltas :: "(string, int) gomap"
  created :: bool
  deleted :: bool
  createdEpoch :: nat
  deletedEpoch :: nat
  importedCounters :: bool
  importedSuccess :: int
  importedErrors :: int

definition new_intent :: stateIntent where
  "new_intent = \<lparr>si_fields = {}, si_models = {}, si_deltas = [], created = False,
     deleted = False, createdEpoch = 0, deletedEpoch = 0, importedCounters = False,
     importedSuccess = 0, importedErrors = 0\<rparr>"

subsection \<open>The pool\<close>

record explorationState =
  preferred :: nat
  cursor :: string
  touched :: nat

record pool =
  byUID :: "(string, entry) gomap"
  stateFp :: string
  persistBase :: stateFile
  stateIntents :: "(string, stateIntent) gomap"
  dirty :: bool
  breakerThreshold :: int
  breakerCooldown :: duration
  breakerCooldownMax :: duration
  softRateMax :: duration
  idleWeightPerHour :: float64
  idleWeightMax :: float64
  maxInFlight :: int
  persistFails :: int
  pickSeq :: nat
  costExploration :: "(string, explorationState) gomap"

text \<open>\<open>New("")\<close>: a pool without a state file.\<close>

definition New_pool :: "string \<Rightarrow> pool" where
  "New_pool fp = \<lparr>byUID = [], stateFp = fp, persistBase = zero_stateFile, stateIntents = [],
     dirty = False, breakerThreshold = defaultBreakerThreshold,
     breakerCooldown = defaultBreakerCooldown, breakerCooldownMax = defaultBreakerCooldownMax,
     softRateMax = 0, idleWeightPerHour = defaultIdleWeightPerHour,
     idleWeightMax = defaultIdleWeightMax, maxInFlight = 0, persistFails = 0, pickSeq = 0,
     costExploration = []\<rparr>"

end
