(* ===== verification/PoolState.thy ===== *)
theory PoolState
  imports PoolEntry
begin

text \<open>
  The account state machine: \<open>transition.go\<close>, \<open>cooldown.go\<close>, the state-changing half of
  \<open>state.go\<close> and the setters and lease operations of \<open>pool.go\<close>. Each exported method is one
  function on the pool; the mutex makes it atomic. Methods on an unknown uid do nothing.
  With a state file configured every assignment also records which fields it meant to set
  (\<open>stateIntents\<close>), which the merge of \<open>persist_merge.go\<close> reads.
\<close>

subsection \<open>Intents, \<open>persist_merge.go\<close>\<close>

definition intent_of :: "pool \<Rightarrow> string \<Rightarrow> stateIntent" where
  "intent_of p uid = (case mget (stateIntents p) uid of None \<Rightarrow> new_intent | Some c \<Rightarrow> c)"

definition put_intent :: "string \<Rightarrow> stateIntent \<Rightarrow> pool \<Rightarrow> pool" where
  "put_intent uid c p = p\<lparr>stateIntents := mput uid c (stateIntents p)\<rparr>"

definition markStateFieldsLocked :: "string \<Rightarrow> string list \<Rightarrow> pool \<Rightarrow> pool" where
  "markStateFieldsLocked uid fs p =
     (let p1 = (if stateFp p \<noteq> []
                then let c = intent_of p uid
                     in put_intent uid (c\<lparr>si_fields := si_fields c \<union> set fs\<rparr>) p
                else p)
      in p1\<lparr>dirty := True\<rparr>)"

definition markStateModelLocked :: "string \<Rightarrow> string \<Rightarrow> pool \<Rightarrow> pool" where
  "markStateModelLocked uid model p =
     (let p1 = (if stateFp p \<noteq> []
                then let c = intent_of p uid
                     in put_intent uid (c\<lparr>si_models := insert model (si_models c)\<rparr>) p
                else p)
      in p1\<lparr>dirty := True\<rparr>)"

definition addStateDeltaLocked :: "string \<Rightarrow> string \<Rightarrow> int \<Rightarrow> pool \<Rightarrow> pool" where
  "addStateDeltaLocked uid field delta p =
     (if delta = 0 then p
      else
        let p1 = (if stateFp p \<noteq> []
                  then let c = intent_of p uid;
                           old = (case mget (si_deltas c) field of None \<Rightarrow> 0 | Some d \<Rightarrow> d)
                       in put_intent uid (c\<lparr>si_deltas := mput field (wrap64 (old + delta)) (si_deltas c)\<rparr>) p
                  else p)
        in p1\<lparr>dirty := True\<rparr>)"

lemma intents_frame [simp]:
  "byUID (markStateFieldsLocked uid fs p) = byUID p"
  "byUID (markStateModelLocked uid m p) = byUID p"
  "byUID (addStateDeltaLocked uid f d p) = byUID p"
  "maxInFlight (markStateFieldsLocked uid fs p) = maxInFlight p"
  "maxInFlight (markStateModelLocked uid m p) = maxInFlight p"
  "maxInFlight (addStateDeltaLocked uid f d p) = maxInFlight p"
  "softRateMax (markStateFieldsLocked uid fs p) = softRateMax p"
  "softRateMax (markStateModelLocked uid m p) = softRateMax p"
  "breakerThreshold (markStateFieldsLocked uid fs p) = breakerThreshold p"
  "breakerThreshold (markStateModelLocked uid m p) = breakerThreshold p"
  "breakerThreshold (addStateDeltaLocked uid f d p) = breakerThreshold p"
  by (simp_all add: markStateFieldsLocked_def markStateModelLocked_def addStateDeltaLocked_def
      put_intent_def Let_def)

lemma dirty_marks [simp]:
  "dirty (markStateFieldsLocked uid fs p)" "dirty (markStateModelLocked uid m p)"
  by (simp_all add: markStateFieldsLocked_def markStateModelLocked_def Let_def)

definition set_entry :: "string \<Rightarrow> entry \<Rightarrow> pool \<Rightarrow> pool" where
  "set_entry uid e p = p\<lparr>byUID := mput uid e (byUID p)\<rparr>"

lemma set_entry_frame [simp]:
  "byUID (set_entry uid e p) = mput uid e (byUID p)"
  "maxInFlight (set_entry uid e p) = maxInFlight p"
  "softRateMax (set_entry uid e p) = softRateMax p"
  "breakerThreshold (set_entry uid e p) = breakerThreshold p"
  "stateFp (set_entry uid e p) = stateFp p"
  "stateIntents (set_entry uid e p) = stateIntents p"
  by (simp_all add: set_entry_def)

subsection \<open>Transition primitives, \<open>transition.go\<close>\<close>

definition clearCoolingLocked :: "entry \<Rightarrow> entry" where
  "clearCoolingLocked e =
     e\<lparr>until := zero_time, coolKind := 0, reason := [], softStreak := 0, modelCooldowns := []\<rparr>"

definition disableLocked :: "string \<Rightarrow> entry \<Rightarrow> string \<Rightarrow> pool \<Rightarrow> pool" where
  "disableLocked uid e why p =
     (let e' = (clearCoolingLocked e)\<lparr>disabled := True, reason := why\<rparr>
      in markStateFieldsLocked (UID (acct e))
           [''disabled'', ''reason'', ''until'', ''cool_kind'', ''soft_streak'', ''model_cooldowns'']
           (set_entry uid e' p))"

definition reviveCoolingLocked :: "string \<Rightarrow> entry \<Rightarrow> int \<Rightarrow> pool \<Rightarrow> pool" where
  "reviveCoolingLocked uid e c p =
     (let e' = clearCoolingLocked (e\<lparr>credits := c\<rparr>)
      in markStateFieldsLocked (UID (acct e))
           [''credits'', ''reason'', ''until'', ''cool_kind'', ''soft_streak'', ''model_cooldowns'']
           (set_entry uid e' p))"

subsection \<open>Balances and cooldowns, \<open>cooldown.go\<close>\<close>

definition SetCredits :: "string \<Rightarrow> int \<Rightarrow> pool \<Rightarrow> pool" where
  "SetCredits uid c p =
     (case mget (byUID p) uid of
        None \<Rightarrow> p
      | Some e \<Rightarrow> markStateFieldsLocked uid [''credits''] (set_entry uid (e\<lparr>credits := c\<rparr>) p))"

definition SetCreditsDetailed :: "string \<Rightarrow> int \<Rightarrow> int \<Rightarrow> pool \<Rightarrow> pool" where
  "SetCreditsDetailed uid c expiring p =
     (case mget (byUID p) uid of
        None \<Rightarrow> p
      | Some e \<Rightarrow>
          let x0 = (if expiring < 0 then 0 else expiring);
              x = (if x0 > c then c else x0)
          in markStateFieldsLocked uid [''credits'', ''credits_expiring'']
               (set_entry uid (e\<lparr>credits := c, creditsExpiring := x\<rparr>) p))"

definition Cooldown :: "instant \<Rightarrow> string \<Rightarrow> CoolKind \<Rightarrow> duration \<Rightarrow> string \<Rightarrow> pool \<Rightarrow> pool" where
  "Cooldown now uid kind d why p =
     (case mget (byUID p) uid of
        None \<Rightarrow> p
      | Some e \<Rightarrow>
          markStateFieldsLocked uid [''until'', ''cool_kind'', ''reason'', ''model_cooldowns'']
            (set_entry uid
              (e\<lparr>until := now + d, coolKind := kind, reason := why, modelCooldowns := []\<rparr>) p))"

definition softRateMaxOr :: "pool \<Rightarrow> duration" where
  "softRateMaxOr p = (if softRateMax p > 0 then softRateMax p else defaultSoftRateMax)"

definition cappedSoftUntilLocked :: "pool \<Rightarrow> instant \<Rightarrow> instant \<Rightarrow> instant" where
  "cappedSoftUntilLocked p now resetAt =
     (let cap = now + softRateMaxOr p
      in if resetAt > cap then cap
         else if resetAt > now then resetAt
         else now + millisecond)"

text \<open>The left shift is on a signed 64-bit value, so it may overflow; the code tests for it.\<close>

definition softDurationLocked :: "pool \<Rightarrow> duration \<Rightarrow> int \<Rightarrow> duration" where
  "softDurationLocked p d streak =
     (if streak \<le> 1 then d
      else
        let shift0 = streak - 1;
            shift = (if shift0 > softStreakShiftMax then softStreakShiftMax else shift0);
            d' = wrap64 (d * 2 ^ nat shift);
            m = (if softRateMax p \<le> 0 then defaultSoftRateMax else softRateMax p)
        in if d' > m \<or> d' \<le> 0 then m else d')"

definition CooldownSoftForModel ::
  "instant \<Rightarrow> string \<Rightarrow> duration \<Rightarrow> instant \<Rightarrow> string \<Rightarrow> string \<Rightarrow> pool \<Rightarrow> pool" where
  "CooldownSoftForModel now uid base resetAt model why p =
     (case mget (byUID p) uid of
        None \<Rightarrow> p
      | Some e \<Rightarrow>
          if \<not> is_zero resetAt then
            markStateModelLocked uid model
              (set_entry uid
                (e\<lparr>modelCooldowns := mput model
                     \<lparr>mc_Until = cappedSoftUntilLocked p now resetAt, mc_ResetAt = resetAt,
                      mc_Reason = why, mc_Hits = 0\<rparr> (modelCooldowns e)\<rparr>) p)
          else
            let e1 = (if coolKind e \<noteq> CoolSoft \<or> \<not> now < until e
                      then e\<lparr>softStreak := softStreak e + 1,
                             until := now + softDurationLocked p base (softStreak e + 1)\<rparr>
                      else e)
            in markStateFieldsLocked uid
                 [''until'', ''cool_kind'', ''reason'', ''soft_streak'', ''model_cooldowns'']
                 (set_entry uid
                   (e1\<lparr>coolKind := CoolSoft, reason := why, modelCooldowns := []\<rparr>) p))"

definition CooldownSoftRate ::
  "instant \<Rightarrow> string \<Rightarrow> duration \<Rightarrow> instant \<Rightarrow> string \<Rightarrow> pool \<Rightarrow> pool" where
  "CooldownSoftRate now uid base resetAt why p =
     (case mget (byUID p) uid of
        None \<Rightarrow> p
      | Some e \<Rightarrow>
          let e1 = (if \<not> is_zero resetAt then e\<lparr>until := cappedSoftUntilLocked p now resetAt\<rparr>
                    else if coolKind e \<noteq> CoolSoft \<or> \<not> now < until e
                    then e\<lparr>softStreak := softStreak e + 1,
                           until := now + softDurationLocked p base (softStreak e + 1)\<rparr>
                    else e)
          in markStateFieldsLocked uid
               [''until'', ''cool_kind'', ''reason'', ''soft_streak'', ''model_cooldowns'']
               (set_entry uid
                 (e1\<lparr>coolKind := CoolSoft, reason := why, modelCooldowns := []\<rparr>) p))"

text \<open>\<open>ttl * (1 << min(hits-1, 6))\<close>, capped at a day.\<close>

definition block_ttl :: "int \<Rightarrow> duration" where
  "block_ttl hits =
     (let d = wrap64 (modelBlockBaseTTL * 2 ^ nat (min (hits - 1) modelBlockShift))
      in if d < modelBlockMaxTTL then d else modelBlockMaxTTL)"

definition BlockModelBackoff :: "instant \<Rightarrow> string \<Rightarrow> string \<Rightarrow> string \<Rightarrow> pool \<Rightarrow> pool" where
  "BlockModelBackoff now uid model why p =
     (if uid = [] \<or> model = [] then p
      else case mget (byUID p) uid of
        None \<Rightarrow> p
      | Some e \<Rightarrow>
          let hits0 = (case mget (modelCooldowns e) model of None \<Rightarrow> 0 | Some mc \<Rightarrow> mc_Hits mc);
              hits = hits0 + 1
          in markStateModelLocked uid model
               (set_entry uid
                 (e\<lparr>modelCooldowns := mput model
                      \<lparr>mc_Until = now + block_ttl hits, mc_ResetAt = zero_time, mc_Reason = why,
                       mc_Hits = hits\<rparr> (modelCooldowns e)\<rparr>) p))"

definition BlockModelClear :: "string \<Rightarrow> string \<Rightarrow> pool \<Rightarrow> pool" where
  "BlockModelClear uid model p =
     (if uid = [] \<or> model = [] then p
      else case mget (byUID p) uid of
        None \<Rightarrow> p
      | Some e \<Rightarrow>
          if length (modelCooldowns e) = 0 then p
          else case mget (modelCooldowns e) model of
            None \<Rightarrow> p
          | Some mc \<Rightarrow>
              if \<not> has_prefix (mc_Reason mc) ''11102'' then p
              else markStateModelLocked uid model
                     (set_entry uid (e\<lparr>modelCooldowns := mdel model (modelCooldowns e)\<rparr>) p))"

text \<open>The doubling loop of the breaker: at most \<open>retryCount\<close> times, stopped at the cap.\<close>

fun breaker_backoff :: "nat \<Rightarrow> duration \<Rightarrow> duration \<Rightarrow> duration" where
  "breaker_backoff 0 d mx = d"
| "breaker_backoff (Suc i) d mx =
     (let d' = wrap64 (d * 2) in if d' \<ge> mx then mx else breaker_backoff i d' mx)"

definition recordBreakerFailureLocked :: "instant \<Rightarrow> pool \<Rightarrow> entry \<Rightarrow> entry" where
  "recordBreakerFailureLocked now p e =
     (let e1 = e\<lparr>fails := fails e + 1\<rparr>
      in if fails e1 < breakerThreshold p then e1
         else e1\<lparr>fails := 0, retryCount := retryCount e + 1,
                 breakerUntil := now + breaker_backoff (nat (retryCount e)) (breakerCooldown p)
                                         (breakerCooldownMax p)\<rparr>)"

text \<open>
  The next 04:00 in the location of \<open>now\<close>, here a location with the fixed offset \<open>off\<close> from
  UTC (the deployment runs in Asia/Shanghai, which has no daylight saving time).
\<close>

definition local_hour :: "duration \<Rightarrow> instant \<Rightarrow> int" where
  "local_hour off now = ((now + off) mod day) div hour"

definition local_midnight :: "duration \<Rightarrow> instant \<Rightarrow> instant" where
  "local_midnight off now = ((now + off) div day) * day - off"

definition nextDay4AM :: "duration \<Rightarrow> instant \<Rightarrow> instant" where
  "nextDay4AM off now =
     (if local_hour off now < 4 then local_midnight off now + 4 * hour
      else local_midnight off now + day + 4 * hour)"

definition CooldownUntilTomorrow4AM :: "duration \<Rightarrow> instant \<Rightarrow> string \<Rightarrow> string \<Rightarrow> pool \<Rightarrow> pool" where
  "CooldownUntilTomorrow4AM off now uid why p =
     Cooldown now uid CoolHard (time_sub (nextDay4AM off now) now) why p"

subsection \<open>Events, \<open>state.go\<close>\<close>

definition Disable :: "string \<Rightarrow> string \<Rightarrow> pool \<Rightarrow> pool" where
  "Disable uid why p =
     (case mget (byUID p) uid of None \<Rightarrow> p | Some e \<Rightarrow> disableLocked uid e why p)"

definition NoteSessionDead :: "string \<Rightarrow> pool \<Rightarrow> pool \<times> bool" where
  "NoteSessionDead uid p =
     (case mget (byUID p) uid of
        None \<Rightarrow> (p, False)
      | Some e \<Rightarrow>
          let e1 = e\<lparr>sessionDeadFails := sessionDeadFails e + 1\<rparr>
          in if sessionDeadFails e1 < sessionDeadThreshold
             then ((set_entry uid e1 p)\<lparr>dirty := True\<rparr>, False)
             else (disableLocked uid (e1\<lparr>sessionDeadFails := 0\<rparr>) sessionDeadReason p, True))"

definition ClearSessionDead :: "string \<Rightarrow> pool \<Rightarrow> pool" where
  "ClearSessionDead uid p =
     (case mget (byUID p) uid of
        None \<Rightarrow> p
      | Some e \<Rightarrow>
          if sessionDeadFails e \<noteq> 0
          then markStateFieldsLocked uid [''session_dead_fails'']
                 (set_entry uid (e\<lparr>sessionDeadFails := 0\<rparr>) p)
          else p)"

definition ReviveDisabled :: "string \<Rightarrow> pool \<Rightarrow> pool" where
  "ReviveDisabled uid p =
     (case mget (byUID p) uid of
        None \<Rightarrow> p
      | Some e \<Rightarrow>
          if disabled e
          then markStateFieldsLocked uid [''disabled'', ''reason'', ''session_dead_fails'']
                 (set_entry uid (e\<lparr>disabled := False, reason := [], sessionDeadFails := 0\<rparr>) p)
          else p)"

definition ReenableIfCredits :: "string \<Rightarrow> int \<Rightarrow> pool \<Rightarrow> pool" where
  "ReenableIfCredits uid remain p =
     (case mget (byUID p) uid of
        None \<Rightarrow> p
      | Some e \<Rightarrow>
          (if remain > 0 \<and> \<not> disabled e then reviveCoolingLocked uid e remain p
           else markStateFieldsLocked uid [''credits''] (set_entry uid (e\<lparr>credits := remain\<rparr>) p))
          \<lparr>dirty := True\<rparr>)"

text \<open>One step of an exponential moving average towards 1.\<close>

definition ema_up :: "float64 \<Rightarrow> float64" where
  "ema_up x = fl (x + fl (fl (1 - x) * successAlpha))"

definition NoteError :: "instant \<Rightarrow> string \<Rightarrow> pool \<Rightarrow> pool" where
  "NoteError now uid p =
     (case mget (byUID p) uid of
        None \<Rightarrow> p
      | Some e \<Rightarrow>
          (set_entry uid
             (recordBreakerFailureLocked now p
                (e\<lparr>errTotal := errTotal e + 1, errorEMA := ema_up (errorEMA e), lastErr := now\<rparr>)) p)
          \<lparr>dirty := True\<rparr>)"

definition NoteSuccess :: "instant \<Rightarrow> string \<Rightarrow> pool \<Rightarrow> pool" where
  "NoteSuccess now uid p =
     (case mget (byUID p) uid of
        None \<Rightarrow> p
      | Some e \<Rightarrow>
          markStateFieldsLocked uid
            [''breaker_until'', ''retry_count'', ''soft_streak'', ''session_dead_fails'']
            (set_entry uid
              (e\<lparr>successCount := successCount e + 1, successEMA := ema_up (successEMA e),
                 lastSuccess := now, fails := 0, retryCount := 0, breakerUntil := zero_time,
                 softStreak := 0, sessionDeadFails := 0\<rparr>) p))"

text \<open>\<open>NoteModelCost\<close>: unit price per thousand tokens, balances debited by the rounded cost.\<close>

definition cost_per_1k :: "float64 \<Rightarrow> int \<Rightarrow> float64" where
  "cost_per_1k credit tokens =
     (let c = fl (fl (credit / fl (of_int tokens)) * 1000) in if c < 0 then 0 else c)"

definition debit_entry :: "int \<Rightarrow> entry \<Rightarrow> entry" where
  "debit_entry consumed e =
     (let d = (if consumed > credits e then credits e else consumed);
          e1 = e\<lparr>credits := wrap64 (credits e - d)\<rparr>
      in if creditsExpiring e1 > 0
         then let d2 = (if d > creditsExpiring e1 then creditsExpiring e1 else d)
              in e1\<lparr>creditsExpiring := wrap64 (creditsExpiring e1 - d2)\<rparr>
         else e1)"

definition learn_cost :: "instant \<Rightarrow> string \<Rightarrow> float64 \<Rightarrow> entry \<Rightarrow> entry" where
  "learn_cost now model per1k e =
     e\<lparr>modelCost := mput model
         (case mget (modelCost e) model of
            None \<Rightarrow> \<lparr>CostPer1k = per1k, LastSeen = now, Samples = 1\<rparr>
          | Some prev \<Rightarrow>
              \<lparr>CostPer1k = fl (fl (CostPer1k prev * fl (7 / 10)) + fl (per1k * fl (3 / 10))),
               LastSeen = now, Samples = Samples prev + 1\<rparr>)
         (modelCost e)\<rparr>"

definition NoteModelCost :: "instant \<Rightarrow> string \<Rightarrow> string \<Rightarrow> float64 \<Rightarrow> int \<Rightarrow> pool \<Rightarrow> pool" where
  "NoteModelCost now uid model credit tokens p =
     (if uid = [] \<or> model = [] \<or> tokens \<le> 0 then p
      else case mget (byUID p) uid of
        None \<Rightarrow> p
      | Some e \<Rightarrow>
          let consumed = trunc64 (fl (credit + 1 / 2));
              p1 = (if credit > 0
                    then addStateDeltaLocked uid ''credits_expiring'' (wrap64 (- consumed))
                           (addStateDeltaLocked uid ''credits'' (wrap64 (- consumed)) p)
                    else p);
              e1 = (if credit > 0 then debit_entry consumed e else e)
          in set_entry uid (learn_cost now model (cost_per_1k credit tokens) e1) p1)"

definition ModelCost :: "instant \<Rightarrow> string \<Rightarrow> string \<Rightarrow> pool \<Rightarrow> float64 option" where
  "ModelCost now uid model p =
     (case mget (byUID p) uid of
        None \<Rightarrow> None
      | Some e \<Rightarrow> map_option CostPer1k (modelCostOf e model now))"

subsection \<open>Settings, leases and membership, \<open>pool.go\<close>\<close>

definition SetBreaker :: "int \<Rightarrow> duration \<Rightarrow> duration \<Rightarrow> pool \<Rightarrow> pool" where
  "SetBreaker threshold cooldown cooldownMax p = p\<lparr>
     breakerThreshold := (if threshold > 0 then threshold else breakerThreshold p),
     breakerCooldown := (if cooldown > 0 then cooldown else breakerCooldown p),
     breakerCooldownMax := (if cooldownMax > 0 then cooldownMax else breakerCooldownMax p)\<rparr>"

definition SetSoftRateMax :: "duration \<Rightarrow> pool \<Rightarrow> pool" where
  "SetSoftRateMax d p = (if d > 0 then p\<lparr>softRateMax := d\<rparr> else p)"

definition SetWeights :: "float64 \<Rightarrow> float64 \<Rightarrow> pool \<Rightarrow> pool" where
  "SetWeights idlePerHour idleMax p = p\<lparr>
     idleWeightPerHour := (if idlePerHour > 0 then idlePerHour else idleWeightPerHour p),
     idleWeightMax := (if idleMax > 0 then idleMax else idleWeightMax p)\<rparr>"

definition SetMaxInFlight :: "int \<Rightarrow> pool \<Rightarrow> pool" where
  "SetMaxInFlight n p = (if n \<ge> 0 then p\<lparr>maxInFlight := n\<rparr> else p)"

definition inFlightFull :: "pool \<Rightarrow> entry \<Rightarrow> bool" where
  "inFlightFull p e = (if maxInFlight p \<le> 0 then False else inFlight e \<ge> maxInFlight p)"

text \<open>
  A whole \<open>Acquire\<close> or \<open>Release\<close>, that is the iteration of its compare-and-swap loop that
  succeeds; theory \<open>Lease\<close> refines it to interleaved loads and swaps.
\<close>

definition acquire_inflight :: "int \<Rightarrow> int \<Rightarrow> int option" where
  "acquire_inflight limit cur =
     (if limit \<le> 0 then Some (cur + 1) else if cur \<ge> limit then None else Some (cur + 1))"

definition release_inflight :: "int \<Rightarrow> int option" where
  "release_inflight cur = (if cur \<le> 0 then None else Some (cur - 1))"

definition Acquire :: "string \<Rightarrow> pool \<Rightarrow> pool \<times> bool" where
  "Acquire uid p =
     (case mget (byUID p) uid of
        None \<Rightarrow> (p, False)
      | Some e \<Rightarrow>
          (case acquire_inflight (maxInFlight p) (inFlight e) of
             None \<Rightarrow> (p, False)
           | Some n \<Rightarrow> (set_entry uid (e\<lparr>inFlight := n\<rparr>) p, True)))"

definition Release :: "string \<Rightarrow> pool \<Rightarrow> pool" where
  "Release uid p =
     (case mget (byUID p) uid of
        None \<Rightarrow> p
      | Some e \<Rightarrow>
          (case release_inflight (inFlight e) of
             None \<Rightarrow> p
           | Some n \<Rightarrow> set_entry uid (e\<lparr>inFlight := n\<rparr>) p))"

end
