(* ===== verification/PoolFacts.thy ===== *)
theory PoolFacts
  imports PoolState
begin

text \<open>
  Facts about the account state machine: bounds of the backoff schedules, the effect of each
  event on availability, the orthogonality of the four dimensions, and frame lemmas saying
  which accounts and fields an event leaves alone.
\<close>

subsection \<open>Backoff schedules\<close>

lemma breaker_backoff_exact:
  "0 < d \<Longrightarrow> d \<le> mx \<Longrightarrow> mx < 2 ^ 62 \<Longrightarrow> breaker_backoff n d mx = min (d * 2 ^ n) mx"
proof (induction n arbitrary: d)
  case 0
  then show ?case by simp
next
  case (Suc n)
  then have w: "wrap64 (d * 2) = d * 2" by (simp add: in64_def)
  show ?case
  proof (cases "mx \<le> d * 2")
    case True
    have "1 \<le> (2::int) ^ n" by simp
    then have "d * 2 * 1 \<le> d * 2 * 2 ^ n" using Suc.prems by (intro mult_left_mono) simp_all
    with True w show ?thesis by (simp add: mult.assoc)
  next
    case False
    with Suc w show ?thesis by (simp add: Let_def mult.assoc)
  qed
qed

lemma breaker_backoff_bounds:
  "0 < d \<Longrightarrow> d \<le> mx \<Longrightarrow> mx < 2 ^ 62 \<Longrightarrow> d \<le> breaker_backoff n d mx \<and> breaker_backoff n d mx \<le> mx"
  by (simp add: breaker_backoff_exact)

lemma breaker_backoff_mono:
  assumes "0 < d" "d \<le> mx" "mx < 2 ^ 62" "i \<le> j"
  shows "breaker_backoff i d mx \<le> breaker_backoff j d mx"
proof -
  have "d * 2 ^ i \<le> d * 2 ^ j"
    using assms by (intro mult_left_mono power_increasing) simp_all
  then show ?thesis using assms by (simp add: breaker_backoff_exact min.coboundedI1)
qed

lemma softRateMaxOr_pos [simp]: "0 < softRateMaxOr p"
  by (simp add: softRateMaxOr_def defaultSoftRateMax_def dur_defs)

lemma softDurationLocked_alt:
  "softDurationLocked p d streak =
     (if streak \<le> 1 then d
      else let d' = wrap64 (d * 2 ^ nat (min (streak - 1) softStreakShiftMax))
           in if d' > softRateMaxOr p \<or> d' \<le> 0 then softRateMaxOr p else d')"
  by (auto simp: softDurationLocked_def softRateMaxOr_def Let_def min_def)

lemma softDurationLocked_bounds:
  "0 < d \<Longrightarrow> 0 < softDurationLocked p d streak \<and> softDurationLocked p d streak \<le> max d (softRateMaxOr p)"
  using softRateMaxOr_pos [of p] by (auto simp: softDurationLocked_alt Let_def)

text \<open>Below 2^47 nanoseconds (39 hours) the shift by at most 16 cannot overflow.\<close>

lemma softDurationLocked_exact:
  assumes "0 < d" "d < 2 ^ 47" "1 < streak"
  shows "softDurationLocked p d streak
           = min (d * 2 ^ nat (min (streak - 1) softStreakShiftMax)) (softRateMaxOr p)"
proof -
  let ?s = "nat (min (streak - 1) softStreakShiftMax)"
  have s: "?s \<le> 16" by (auto simp: softStreakShiftMax_def min_def)
  have pos: "0 < d * 2 ^ ?s" using assms by simp
  have "d * 2 ^ ?s \<le> d * 2 ^ 16"
    using assms s by (intro mult_left_mono power_increasing) simp_all
  also have "\<dots> < 2 ^ 63" using assms by simp
  finally have "in64 (d * 2 ^ ?s)" using pos by (simp add: in64_def)
  then have "wrap64 (d * 2 ^ ?s) = d * 2 ^ ?s" by (rule wrap64_id)
  moreover define x where "x = d * 2 ^ ?s"
  ultimately have "wrap64 x = x" "0 < x" using pos by simp_all
  with assms(3) show ?thesis
    unfolding softDurationLocked_alt Let_def x_def [symmetric] by (auto simp: min_def)
qed

lemma block_ttl_table: "block_ttl 1 = 6 * hour" "block_ttl 2 = 12 * hour" "block_ttl 3 = 24 * hour"
  by (simp_all add: block_ttl_def pool_const_defs dur_defs wrap64_def Let_def)

lemma block_ttl_eq:
  assumes "1 \<le> hits"
  shows "block_ttl hits = min (modelBlockBaseTTL * 2 ^ nat (hits - 1)) modelBlockMaxTTL"
proof -
  let ?n = "nat (hits - 1)"
  let ?m = "nat (min (hits - 1) modelBlockShift)"
  have m: "?m = min ?n 6" by (auto simp: modelBlockShift_def min_def)
  have "in64 (modelBlockBaseTTL * 2 ^ ?m)"
  proof -
    have "modelBlockBaseTTL * 2 ^ ?m \<le> modelBlockBaseTTL * 2 ^ 6"
      unfolding m by (intro mult_left_mono power_increasing) (simp_all add: pool_const_defs dur_defs)
    moreover have "0 \<le> modelBlockBaseTTL * 2 ^ ?m" by (simp add: pool_const_defs dur_defs)
    moreover have "modelBlockBaseTTL * 2 ^ 6 < 2 ^ 63" by (simp add: pool_const_defs dur_defs)
    ultimately show ?thesis unfolding in64_def by linarith
  qed
  then have e: "block_ttl hits = min (modelBlockBaseTTL * 2 ^ ?m) modelBlockMaxTTL"
    by (simp add: block_ttl_def Let_def min_def)
  show ?thesis
  proof (cases "?n \<le> 6")
    case True
    with e m show ?thesis by (simp add: min_absorb1)
  next
    case False
    then have "(2::int) ^ 6 \<le> 2 ^ ?n" by (intro power_increasing) simp_all
    with False e m show ?thesis by (simp add: pool_const_defs dur_defs)
  qed
qed

lemma block_ttl_bounds: "1 \<le> hits \<Longrightarrow> modelBlockBaseTTL \<le> block_ttl hits \<and> block_ttl hits \<le> modelBlockMaxTTL"
  by (simp add: block_ttl_eq) (simp add: pool_const_defs dur_defs)

lemma cappedSoftUntilLocked_bounds:
  "now < cappedSoftUntilLocked p now r \<or> softRateMaxOr p < millisecond"
  "cappedSoftUntilLocked p now r \<le> max (now + softRateMaxOr p) (now + millisecond)"
  using softRateMaxOr_pos [of p]
  by (auto simp: cappedSoftUntilLocked_def Let_def millisecond_def)

lemma cappedSoftUntilLocked_future: "now < cappedSoftUntilLocked p now r"
  using softRateMaxOr_pos [of p] by (auto simp: cappedSoftUntilLocked_def Let_def millisecond_def)

lemma div_less_iff_int:
  assumes "0 < (c :: int)" shows "a div c < b \<longleftrightarrow> a < b * c"
proof
  assume "a div c < b"
  then have "(a div c + 1) * c \<le> b * c" using assms by (intro mult_right_mono) simp_all
  moreover have "a < (a div c + 1) * c"
    using pos_mod_bound [OF assms, of a] div_mult_mod_eq [of a c] unfolding distrib_right by linarith
  ultimately show "a < b * c" by linarith
next
  assume "a < b * c"
  moreover have "a div c * c \<le> a"
    using pos_mod_sign [OF assms, of a] div_mult_mod_eq [of a c] by linarith
  ultimately have "a div c * c < b * c" by linarith
  then show "a div c < b" using assms by (simp add: mult_less_cancel_right)
qed

lemma nextDay4AM_bounds: "now < nextDay4AM off now \<and> nextDay4AM off now \<le> now + day"
proof -
  define q where "q = (now + off) div day"
  define r where "r = (now + off) mod day"
  have "now + off = q * day + r" "0 \<le> r" "r < day"
    by (simp_all add: q_def r_def dur_defs)
  then show ?thesis
    unfolding nextDay4AM_def local_hour_def local_midnight_def q_def [symmetric] r_def [symmetric]
    by (auto simp: div_less_iff_int dur_defs)
qed

lemma nextDay4AM_is_4AM: "(nextDay4AM off now + off) mod day = 4 * hour"
  by (simp add: nextDay4AM_def local_midnight_def) (simp add: dur_defs mod_simps)

subsection \<open>Moving averages\<close>

lemma successAlpha_bounds: "0 < successAlpha" "successAlpha \<le> 1 / 2"
proof -
  show "0 < successAlpha" by (simp add: successAlpha_def fl_pos')
  have "fl (1 / 10) \<le> 2 * (1 / 10)" by (rule fl_le_double) simp
  then show "successAlpha \<le> 1 / 2" by (simp add: successAlpha_def)
qed

lemma ema_up_range:
  assumes "0 \<le> x" "x \<le> 1"
  shows "0 \<le> ema_up x" "ema_up x \<le> 1"
proof -
  let ?y = "fl (1 - x)"
  have y: "0 \<le> ?y" "?y \<le> 2 * (1 - x)"
    using assms fl_le_double [of "1 - x"] by (simp_all add: fl_nonneg)
  have ya: "0 \<le> ?y * successAlpha" using y successAlpha_bounds by simp
  then show "0 \<le> ema_up x"
    unfolding ema_up_def using assms by (intro fl_nonneg add_nonneg_nonneg) simp_all
  have "?y * successAlpha \<le> ?y * (1 / 5)"
  proof (intro mult_left_mono y)
    have "fl (1 / 10) \<le> 2 * (1 / 10)" by (rule fl_le_double) simp
    then show "successAlpha \<le> 1 / 5" by (simp add: successAlpha_def)
  qed
  moreover have "fl (?y * successAlpha) \<le> 2 * (?y * successAlpha)" using ya by (rule fl_le_double)
  moreover have "x + F \<le> 1" if "P \<le> y * (1 / 5)" "F \<le> 2 * P" "y \<le> 2 * (1 - x)" for F P y :: rat
    using that assms by (simp add: algebra_simps)
  ultimately have "x + fl (?y * successAlpha) \<le> 1" using y(2) by blast
  then show "ema_up x \<le> 1" unfolding ema_up_def by (rule fl_le_1)
qed

subsection \<open>Who is affected\<close>

text \<open>Every event on one uid leaves every other account as it is.\<close>

lemmas event_defs = SetCredits_def SetCreditsDetailed_def Cooldown_def CooldownSoftForModel_def
  CooldownSoftRate_def BlockModelBackoff_def BlockModelClear_def CooldownUntilTomorrow4AM_def
  Disable_def NoteSessionDead_def ClearSessionDead_def ReviveDisabled_def ReenableIfCredits_def
  NoteError_def NoteSuccess_def NoteModelCost_def Acquire_def Release_def

lemmas primitive_defs = disableLocked_def reviveCoolingLocked_def clearCoolingLocked_def

lemma event_other:
  assumes "v \<noteq> uid"
  shows "mget (byUID (SetCredits uid c p)) v = mget (byUID p) v"
    "mget (byUID (SetCreditsDetailed uid c x p)) v = mget (byUID p) v"
    "mget (byUID (Cooldown now uid k d r p)) v = mget (byUID p) v"
    "mget (byUID (CooldownSoftForModel now uid b t m r p)) v = mget (byUID p) v"
    "mget (byUID (CooldownSoftRate now uid b t r p)) v = mget (byUID p) v"
    "mget (byUID (BlockModelBackoff now uid m r p)) v = mget (byUID p) v"
    "mget (byUID (BlockModelClear uid m p)) v = mget (byUID p) v"
    "mget (byUID (CooldownUntilTomorrow4AM off now uid r p)) v = mget (byUID p) v"
    "mget (byUID (Disable uid r p)) v = mget (byUID p) v"
    "mget (byUID (fst (NoteSessionDead uid p))) v = mget (byUID p) v"
    "mget (byUID (ReviveDisabled uid p)) v = mget (byUID p) v"
    "mget (byUID (ReenableIfCredits uid c p)) v = mget (byUID p) v"
    "mget (byUID (NoteError now uid p)) v = mget (byUID p) v"
    "mget (byUID (NoteSuccess now uid p)) v = mget (byUID p) v"
  using assms
  by (auto simp: event_defs primitive_defs Let_def split: option.splits)

lemma mget_CooldownSoftForModel_reset:
  assumes "mget (byUID p) uid = Some e" "\<not> is_zero t"
  shows "mget (byUID (CooldownSoftForModel now uid b t m r p)) uid =
    Some (e\<lparr>modelCooldowns := mput m \<lparr>mc_Until = cappedSoftUntilLocked p now t, mc_ResetAt = t,
      mc_Reason = r, mc_Hits = 0\<rparr> (modelCooldowns e)\<rparr>)"
  using assms by (simp add: CooldownSoftForModel_def)

lemma modelCooled_other:
  "m' \<noteq> m \<Longrightarrow> modelCooled (e\<lparr>modelCooldowns := mput m c (modelCooldowns e)\<rparr>) t m' = modelCooled e t m'"
  by (simp add: modelCooled_def)

lemma healthy_modelCooldowns [simp]: "healthy (e\<lparr>modelCooldowns := x\<rparr>) t = healthy e t"
  by (simp add: healthy_def)

end
