(* ===== verification/PoolPick.thy ===== *)
theory PoolPick
  imports PoolFacts "HOL-Library.Product_Lexorder"
begin

text \<open>
  Account selection: \<open>pick.go\<close>, \<open>exploration.go\<close>, \<open>realm.go\<close> and the read side of
  \<open>state.go\<close>. A selection sees the candidates in the order in which Go happens to visit
  the map, draws a number from \<open>rnd\<close> (\<open>rand.Int64N\<close>) and may shuffle the candidates with
  \<open>shuf\<close> (\<open>rand.Shuffle\<close>); both sources of chance are arguments.
\<close>

type_synonym cand = "string \<times> entry"

definition minPickGap :: duration where "minPickGap = 100 * millisecond"
definition maxExplorationScopes :: nat where "maxExplorationScopes = 256"
definition max_uint64 :: nat where "max_uint64 = 2 ^ 64 - 1"
definition expiringWeight :: float64 where "expiringWeight = 8"
definition weightEpsilon :: float64 where "weightEpsilon = fl (1 / 10 ^ 9)"

abbreviation cand_uid :: "cand \<Rightarrow> string" where "cand_uid c \<equiv> UID (acct (snd c))"

subsection \<open>Bounded exploration of accounts with unknown cost\<close>

text \<open>The least recently touched scope; \<open>none\<close> is the zero array the search starts from.\<close>

definition oldest_scope :: "string \<Rightarrow> (string \<times> explorationState) list \<Rightarrow> string" where
  "oldest_scope none scopes =
     fst (foldl (\<lambda>(o1, seq) (k, s). if touched s < seq then (k, touched s) else (o1, seq))
            (none, max_uint64) scopes)"

text \<open>One pass over the unknown accounts: the first after the cursor, and the first of all.\<close>

fun explore_scan :: "string \<Rightarrow> cand option \<Rightarrow> cand option \<Rightarrow> cand list \<Rightarrow> cand option \<times> cand option" where
  "explore_scan cur nxt first [] = (nxt, first)"
| "explore_scan cur nxt first (e # es) =
     (let first' = (case first of None \<Rightarrow> Some e
                    | Some f \<Rightarrow> if cand_uid e < cand_uid f then Some e else first);
          nxt' = (if cand_uid e > cur
                  then (case nxt of None \<Rightarrow> Some e
                        | Some n \<Rightarrow> if cand_uid e < cand_uid n then Some e else nxt)
                  else nxt)
      in explore_scan cur nxt' first' es)"

text \<open>\<open>sha\<close> is SHA-256; \<open>zero_key\<close> the zero value of its result type.\<close>

definition exploreUnknownLocked ::
  "(string \<Rightarrow> string) \<Rightarrow> string \<Rightarrow> cand list \<Rightarrow> string \<Rightarrow> string \<Rightarrow> pool \<Rightarrow> pool \<times> cand option" where
  "exploreUnknownLocked sha zero_key unknown model rlm p =
     (let key = sha (rlm @ [CHR 0x00] @ model);
          scopes0 = costExploration p;
          (scopes, st0) =
            (case mget scopes0 key of
               Some st \<Rightarrow> (scopes0, st)
             | None \<Rightarrow>
                 ((if length scopes0 \<ge> maxExplorationScopes
                   then mdel (oldest_scope zero_key scopes0) scopes0 else scopes0),
                  \<lparr>preferred = 0, cursor = [], touched = 0\<rparr>));
          st1 = st0\<lparr>touched := pickSeq p + 1, preferred := (preferred st0 + 1) mod 256\<rparr>
      in if preferred st1 < 4
         then (p\<lparr>costExploration := mput key st1 scopes\<rparr>, None)
         else
           let (nxt, first) = explore_scan (cursor st1) None None unknown;
               chosen = (case nxt of None \<Rightarrow> first | Some n \<Rightarrow> Some n)
           in case chosen of
                None \<Rightarrow> (p\<lparr>costExploration := mput key (st1\<lparr>preferred := 0\<rparr>) scopes\<rparr>, None)
              | Some c \<Rightarrow>
                  (p\<lparr>costExploration := mput key (st1\<lparr>preferred := 0, cursor := cand_uid c\<rparr>) scopes\<rparr>,
                   Some c))"

subsection \<open>Weights\<close>

definition duration_hours :: "duration \<Rightarrow> float64" where
  "duration_hours d =
     fl (fl (of_int (go_div d hour)) + fl (fl (of_int (go_mod d hour)) / of_int hour))"

definition idle_weight :: "pool \<Rightarrow> entry \<Rightarrow> instant \<Rightarrow> float64" where
  "idle_weight p e now =
     (if is_zero (lastUsed e) then idleWeightMax p
      else let w0 = fl (duration_hours (time_sub now (lastUsed e)) * idleWeightPerHour p);
               w1 = (if w0 > idleWeightMax p then idleWeightMax p else w0)
           in if w1 < 0 then 0 else w1)"

definition success_weight :: "entry \<Rightarrow> float64" where
  "success_weight e =
     (let obs = fl (successEMA e + errorEMA e)
      in if obs > 0 then fl (fl (successEMA e / obs) * 3) else 3 / 2)"

definition weightOf :: "pool \<Rightarrow> entry \<Rightarrow> int \<Rightarrow> instant \<Rightarrow> float64" where
  "weightOf p e maxCredits now =
     (let w0 = 1;
          w1 = (if maxCredits > 0
                then fl (w0 + fl (fl (fl (of_int (credits e)) / fl (of_int maxCredits)) * 10))
                else w0);
          w2 = (if credits e > 0 \<and> creditsExpiring e > 0
                then fl (w1 + fl (fl (fl (of_int (creditsExpiring e)) / fl (of_int (credits e)))
                                   * expiringWeight))
                else w1);
          w3 = fl (w2 + idle_weight p e now)
      in fl (w3 + success_weight e))"

record weighted =
  we_c :: cand
  we_w :: float64
  we_tier :: nat
  we_cost1k :: float64

definition costTier :: "string \<Rightarrow> instant \<Rightarrow> entry \<Rightarrow> nat \<times> float64" where
  "costTier reqModel now e =
     (case modelCostOf e reqModel now of
        None \<Rightarrow> (1, 0)
      | Some mc \<Rightarrow> if CostPer1k mc \<le> 0 then (0, 0) else (2, CostPer1k mc))"

text \<open>Fixed-point weights, at least 1 each, and the draw.\<close>

definition fixed_weight :: "float64 \<Rightarrow> int" where
  "fixed_weight w = (let wi = trunc64 (fl (fl (w * 1000000) + 1 / 2)) in if wi < 1 then 1 else wi)"

fun draw :: "int \<Rightarrow> int \<Rightarrow> weighted list \<Rightarrow> weighted option" where
  "draw r acc [] = None"
| "draw r acc (c # cs) =
     (let acc' = acc + fixed_weight (we_w c) in if r < acc' then Some c else draw r acc' cs)"

definition pickWeighted :: "(int \<Rightarrow> int) \<Rightarrow> weighted list \<Rightarrow> weighted" where
  "pickWeighted rnd cands =
     (let total = sum_list (map (\<lambda>c. fixed_weight (we_w c)) cands)
      in case draw (rnd total) 0 cands of None \<Rightarrow> last cands | Some c \<Rightarrow> c)"

subsection \<open>Selection\<close>

definition realmOK :: "bool \<Rightarrow> string \<Rightarrow> entry \<Rightarrow> bool" where
  "realmOK g rlm e \<longleftrightarrow> rlm = [] \<or> Realm g (acct e) = rlm"

definition candidates ::
  "bool \<Rightarrow> instant \<Rightarrow> string set \<Rightarrow> string \<Rightarrow> string \<Rightarrow> pool \<Rightarrow> cand list" where
  "candidates g now tried reqModel rlm p =
     filter (\<lambda>(uid, e). uid \<notin> tried \<and> realmOK g rlm e
               \<and> (if reqModel \<noteq> [] then healthyForModel e now reqModel else healthy e now)
               \<and> \<not> inFlightFull p e)
       (byUID p)"

definition fallback_ok ::
  "bool \<Rightarrow> instant \<Rightarrow> string set \<Rightarrow> string \<Rightarrow> string \<Rightarrow> pool \<Rightarrow> cand \<Rightarrow> bool" where
  "fallback_ok g now tried reqModel rlm p c =
     (case c of (uid, e) \<Rightarrow>
        if uid \<in> tried then False
        else if rlm \<noteq> [] \<and> Realm g (acct e) \<noteq> rlm then False
        else if disabled e then False
        else if modelCooled e now reqModel then False
        else if coolKind e = CoolHard \<and> in_force now (until e) then False
        else if inFlightFull p e then False
        else if is_zero (expiry e now) then False
        else True)"

fun earliest :: "instant \<Rightarrow> cand option \<Rightarrow> cand list \<Rightarrow> cand option" where
  "earliest now best [] = best"
| "earliest now best (c # cs) =
     earliest now
       (case best of None \<Rightarrow> Some c
        | Some b \<Rightarrow> if expiry (snd c) now < expiry (snd b) now then Some c else best) cs"

definition pickEarliestExpiryLocked ::
  "bool \<Rightarrow> string set \<Rightarrow> instant \<Rightarrow> string \<Rightarrow> string \<Rightarrow> pool \<Rightarrow> pool \<times> cand option" where
  "pickEarliestExpiryLocked g tried now reqModel rlm p =
     (case earliest now None (filter (fallback_ok g now tried reqModel rlm p) (byUID p)) of
        None \<Rightarrow> (p, None)
      | Some (uid, e) \<Rightarrow> (set_entry uid (e\<lparr>lastUsed := now\<rparr>) p, Some (uid, e)))"

definition maxCreditsOf :: "cand list \<Rightarrow> int" where
  "maxCreditsOf cands = foldl (\<lambda>m (uid, e). if credits e > m then credits e else m) 0 cands"

definition bestTierOf :: "string \<Rightarrow> instant \<Rightarrow> cand list \<Rightarrow> nat" where
  "bestTierOf reqModel now cands =
     foldl (\<lambda>b (uid, e). if fst (costTier reqModel now e) < b then fst (costTier reqModel now e) else b)
       2 cands"

definition weigh :: "pool \<Rightarrow> string \<Rightarrow> instant \<Rightarrow> int \<Rightarrow> cand \<Rightarrow> weighted" where
  "weigh p reqModel now maxCredits c =
     \<lparr>we_c = c, we_w = weightOf p (snd c) maxCredits now,
      we_tier = fst (costTier reqModel now (snd c)), we_cost1k = snd (costTier reqModel now (snd c))\<rparr>"

definition has_ties :: "weighted list \<Rightarrow> bool" where
  "has_ties ws = (case ws of [] \<Rightarrow> False
     | c # cs \<Rightarrow> list_ex (\<lambda>d. \<bar>fl (we_w d - we_w c)\<bar> < weightEpsilon) cs)"

definition sort_rank :: "weighted \<Rightarrow> float64 \<times> float64 \<times> string" where
  "sort_rank c = (we_cost1k c, - we_w c, cand_uid (we_c c))"

definition rank_cands ::
  "(weighted list \<Rightarrow> weighted list) \<Rightarrow> weighted list \<Rightarrow> weighted list" where
  "rank_cands shuf ws =
     sort_key sort_rank (if length ws > 5 \<and> has_ties ws then shuf ws else ws)"

fun least_used :: "cand \<Rightarrow> cand list \<Rightarrow> cand" where
  "least_used e [] = e"
| "least_used e (c # cs) = least_used (if usedSeq (snd c) < usedSeq (snd e) then c else e) cs"

definition choose_cand :: "(int \<Rightarrow> int) \<Rightarrow> instant \<Rightarrow> weighted list \<Rightarrow> cand" where
  "choose_cand rnd now ws =
     (let eligible = filter (\<lambda>w. time_sub now (lastUsed (snd (we_c w))) \<ge> minPickGap) (take 5 ws)
      in if eligible = []
         then least_used (we_c (hd ws)) (map we_c (tl ws))
         else we_c (pickWeighted rnd eligible))"

definition mark_used :: "instant \<Rightarrow> cand \<Rightarrow> pool \<Rightarrow> pool" where
  "mark_used now c p =
     (let q = p\<lparr>pickSeq := pickSeq p + 1\<rparr>
      in set_entry (fst c) ((snd c)\<lparr>lastUsed := now, usedSeq := pickSeq q\<rparr>) q)"

definition prune_all :: "instant \<Rightarrow> pool \<Rightarrow> pool" where
  "prune_all now p = p\<lparr>byUID := map (\<lambda>(uid, e). (uid, pruneExpiredModelCooldowns now e)) (byUID p)\<rparr>"

record chance =
  c_sha :: "string \<Rightarrow> string"
  c_zero :: string
  c_rnd :: "int \<Rightarrow> int"
  c_shuf :: "weighted list \<Rightarrow> weighted list"

definition pick ::
  "chance \<Rightarrow> bool \<Rightarrow> instant \<Rightarrow> string set \<Rightarrow> string \<Rightarrow> string \<Rightarrow> pool \<Rightarrow> pool \<times> auth option" where
  "pick ch g now tried reqModel rlm p0 =
     (let p = prune_all now p0;
          cands = candidates g now tried reqModel rlm p
      in if cands = [] then
           (case pickEarliestExpiryLocked g tried now reqModel rlm p of
              (q, r) \<Rightarrow> (q, map_option (\<lambda>c. acct (snd c)) r))
         else
           let maxCredits = maxCreditsOf cands;
               bestTier = bestTierOf reqModel now cands;
               unknown = filter (\<lambda>c. fst (costTier reqModel now (snd c)) = 1) cands;
               (p1, explored) =
                 (if bestTier = 0 \<and> unknown \<noteq> []
                  then exploreUnknownLocked (c_sha ch) (c_zero ch) unknown reqModel rlm p
                  else (p, None))
           in case explored of
                Some c \<Rightarrow> (mark_used now c p1, Some (acct (snd c)))
              | None \<Rightarrow>
                  let ws = filter (\<lambda>w. we_tier w = bestTier) (map (weigh p1 reqModel now maxCredits) cands);
                      c = choose_cand (c_rnd ch) now (rank_cands (c_shuf ch) ws)
                  in (mark_used now c p1, Some (acct (snd c))))"

definition Pick :: "chance \<Rightarrow> bool \<Rightarrow> instant \<Rightarrow> string \<Rightarrow> pool \<Rightarrow> pool \<times> auth option" where
  "Pick ch g now model p = pick ch g now {} model [] p"

definition PickExcludingForRealm ::
  "chance \<Rightarrow> bool \<Rightarrow> instant \<Rightarrow> string set \<Rightarrow> string \<Rightarrow> string \<Rightarrow> pool \<Rightarrow> pool \<times> auth option" where
  "PickExcludingForRealm ch g now tried reqModel rlm p = pick ch g now tried reqModel rlm p"

definition PickByUIDForModel :: "instant \<Rightarrow> string \<Rightarrow> string \<Rightarrow> pool \<Rightarrow> pool \<times> auth option" where
  "PickByUIDForModel now uid model p =
     (case mget (byUID p) uid of
        None \<Rightarrow> (p, None)
      | Some e \<Rightarrow>
          if \<not> healthyForModel e now model then (p, None)
          else if inFlightFull p e then (p, None)
          else (mark_used now (uid, e) p, Some (acct e)))"

subsection \<open>Reading the pool, \<open>state.go\<close>\<close>

definition availableUIDsLocked ::
  "bool \<Rightarrow> string \<Rightarrow> (entry \<Rightarrow> bool) \<Rightarrow> pool \<Rightarrow> string list" where
  "availableUIDsLocked g rlm health p =
     sort (map fst (filter (\<lambda>(uid, e). \<not> (rlm \<noteq> [] \<and> Realm g (acct e) \<noteq> rlm)
                              \<and> health e \<and> \<not> inFlightFull p e) (byUID p)))"

definition AvailableUIDs :: "bool \<Rightarrow> instant \<Rightarrow> pool \<Rightarrow> string list" where
  "AvailableUIDs g now p = availableUIDsLocked g [] (\<lambda>e. healthy e now) p"

definition AvailableUIDsForModel :: "bool \<Rightarrow> instant \<Rightarrow> string \<Rightarrow> pool \<Rightarrow> string list" where
  "AvailableUIDsForModel g now model p = availableUIDsLocked g [] (\<lambda>e. healthyForModel e now model) p"

definition AvailableUIDsForRealm :: "bool \<Rightarrow> instant \<Rightarrow> string \<Rightarrow> pool \<Rightarrow> string list" where
  "AvailableUIDsForRealm g now rlm p = availableUIDsLocked g rlm (\<lambda>e. healthy e now) p"

definition AvailableUIDsForModelRealm :: "bool \<Rightarrow> instant \<Rightarrow> string \<Rightarrow> string \<Rightarrow> pool \<Rightarrow> string list" where
  "AvailableUIDsForModelRealm g now model rlm p =
     availableUIDsLocked g rlm (\<lambda>e. healthyForModel e now model) p"

record counts =
  cn_total :: nat
  cn_healthy :: nat
  cn_cooling :: nat
  cn_disabled :: nat
  cn_full :: nat

definition count_step :: "bool \<Rightarrow> instant \<Rightarrow> string \<Rightarrow> pool \<Rightarrow> counts \<Rightarrow> cand \<Rightarrow> counts" where
  "count_step g now rlm p n c =
     (case c of (uid, e) \<Rightarrow>
        if rlm \<noteq> [] \<and> Realm g (acct e) \<noteq> rlm then n
        else
          let n1 = n\<lparr>cn_total := cn_total n + 1\<rparr>
          in if disabled e then n1\<lparr>cn_disabled := cn_disabled n + 1\<rparr>
             else if \<not> healthy e now then n1\<lparr>cn_cooling := cn_cooling n + 1\<rparr>
             else n1\<lparr>cn_healthy := cn_healthy n + 1,
                     cn_full := (if inFlightFull p e then cn_full n + 1 else cn_full n)\<rparr>)"

definition countsDetailedForRealm :: "bool \<Rightarrow> instant \<Rightarrow> string \<Rightarrow> pool \<Rightarrow> counts" where
  "countsDetailedForRealm g now rlm p =
     foldl (count_step g now rlm p)
       \<lparr>cn_total = 0, cn_healthy = 0, cn_cooling = 0, cn_disabled = 0, cn_full = 0\<rparr> (byUID p)"

definition servableLocked :: "bool \<Rightarrow> instant \<Rightarrow> string \<Rightarrow> pool \<Rightarrow> bool" where
  "servableLocked g now rlm p =
     list_ex (\<lambda>(uid, e). \<not> (rlm \<noteq> [] \<and> Realm g (acct e) \<noteq> rlm) \<and> \<not> inFlightFull p e
                \<and> (healthy e now \<or> modelExempt e)) (byUID p)"

record rateLimitedModel =
  rl_Model :: string
  rl_Until :: instant
  rl_ResetAt :: instant
  rl_Reason :: string

definition rateLimitedModelsLocked :: "entry \<Rightarrow> instant \<Rightarrow> rateLimitedModel list" where
  "rateLimitedModelsLocked e now =
     concat (map (\<lambda>m. case mget (modelCooldowns e) m of
         None \<Rightarrow> []
       | Some mc \<Rightarrow>
           if in_force now (mc_Until mc)
           then [\<lparr>rl_Model = m, rl_Until = mc_Until mc, rl_ResetAt = mc_ResetAt mc,
                  rl_Reason = mc_Reason mc\<rparr>]
           else []) (sort (mkeys (modelCooldowns e))))"

text \<open>\<open>cooledReasonLocked\<close> of \<open>persist.go\<close>, shared by the status and the state file.\<close>

definition cooledReasonLocked :: "entry \<Rightarrow> instant \<Rightarrow> CoolKind \<times> string" where
  "cooledReasonLocked e now =
     (if disabled e \<or> in_force now (until e) then (coolKind e, reason e) else (0, []))"

definition duration_seconds :: "duration \<Rightarrow> float64" where
  "duration_seconds d =
     fl (fl (of_int (go_div d second)) + fl (fl (of_int (go_mod d second)) / of_int second))"

record status =
  st_UID :: string
  st_Realm :: string
  st_Nickname :: string
  st_Credits :: int
  st_Cooling :: bool
  st_CoolKind :: string
  st_CoolRemaining :: int
  st_Until :: instant
  st_Reason :: string
  st_SoftStreak :: int
  st_RateLimitedModels :: "rateLimitedModel list"
  st_Disabled :: bool
  st_DisabledReason :: string
  st_SuccessCount :: int
  st_ErrTotal :: int
  st_LastSuccessTime :: instant
  st_LastErrTime :: instant
  st_InFlight :: int
  st_BreakerFails :: int
  st_BreakerUntil :: instant

definition cool_remaining :: "instant \<Rightarrow> entry \<Rightarrow> int" where
  "cool_remaining now e =
     (let r0 = time_sub (until e) now;
          b = time_sub (breakerUntil e) now;
          remain = (if b > r0 then b else r0);
          s = trunc64 (fl (duration_seconds remain + fl (999 / 1000)))
      in if s < 0 then 0 else s)"

definition statusOf :: "bool \<Rightarrow> instant \<Rightarrow> string \<Rightarrow> entry \<Rightarrow> status" where
  "statusOf g now uid e =
     (let cooling = (now < until e \<or> now < breakerUntil e)
      in \<lparr>st_UID = uid, st_Realm = Realm g (acct e), st_Nickname = Nickname (acct e),
          st_Credits = credits e, st_Cooling = cooling,
          st_CoolKind = (if cooling then CoolKind_String (coolKind e) else []),
          st_CoolRemaining = (if cooling then cool_remaining now e else 0),
          st_Until = until e, st_Reason = snd (cooledReasonLocked e now),
          st_SoftStreak = softStreak e,
          st_RateLimitedModels = rateLimitedModelsLocked e now, st_Disabled = disabled e,
          st_DisabledReason = (if disabled e then reason e else []),
          st_SuccessCount = successCount e, st_ErrTotal = errTotal e,
          st_LastSuccessTime = lastSuccess e, st_LastErrTime = lastErr e,
          st_InFlight = inFlight e, st_BreakerFails = fails e, st_BreakerUntil = breakerUntil e\<rparr>)"

definition List_status :: "bool \<Rightarrow> instant \<Rightarrow> pool \<Rightarrow> status list" where
  "List_status g now p =
     concat (map (\<lambda>uid. case mget (byUID p) uid of None \<Rightarrow> [] | Some e \<Rightarrow> [statusOf g now uid e])
       (sort (mkeys (byUID p))))"

end
