(* ===== verification/PickFacts.thy ===== *)
theory PickFacts
  imports PoolPick
begin

text \<open>
  Facts about selection: the chosen account is one of the candidates, the ranking depends
  neither on Go's map order nor on the shuffle, the cheapest tier wins, exploration walks the
  unknown accounts in cyclic uid order, and the availability queries agree with selection.
\<close>

subsection \<open>Well-formed pools\<close>

definition pool_wf :: "pool \<Rightarrow> bool" where
  "pool_wf p \<longleftrightarrow> wfmap (byUID p)
     \<and> (\<forall>(uid, e) \<in> set (byUID p). UID (acct e) = uid \<and> wfmap (modelCooldowns e))"

lemma pool_wfD:
  assumes "pool_wf p"
  shows "wfmap (byUID p)"
    "(uid, e) \<in> set (byUID p) \<Longrightarrow> UID (acct e) = uid"
    "(uid, e) \<in> set (byUID p) \<Longrightarrow> wfmap (modelCooldowns e)"
  using assms by (auto simp: pool_wf_def)

lemma pool_wf_mget:
  assumes "pool_wf p" "mget (byUID p) uid = Some e"
  shows "UID (acct e) = uid" "wfmap (modelCooldowns e)"
  using assms pool_wfD map_of_SomeD by metis+

lemma pool_wf_iff:
  "pool_wf p \<longleftrightarrow> wfmap (byUID p)
     \<and> (\<forall>uid e. mget (byUID p) uid = Some e \<longrightarrow> UID (acct e) = uid \<and> wfmap (modelCooldowns e))"
  unfolding pool_wf_def by (auto simp: wf_mget_iff)

lemma prune_all_byUID: "byUID (prune_all now p) = map (\<lambda>(uid, e). (uid, pruneExpiredModelCooldowns now e)) (byUID p)"
  by (simp add: prune_all_def)

lemma prune_all_frame [simp]:
  "maxInFlight (prune_all now p) = maxInFlight p" "pickSeq (prune_all now p) = pickSeq p"
  "inFlightFull (prune_all now p) e = inFlightFull p e"
  by (simp_all add: prune_all_def inFlightFull_def)

lemma prune_all_wf: "pool_wf p \<Longrightarrow> pool_wf (prune_all now p)"
  unfolding pool_wf_def prune_all_byUID
  by (auto simp: comp_def case_prod_unfold prune_modelCooldowns)

lemma mget_prune_all:
  "mget (byUID (prune_all now p)) uid = map_option (pruneExpiredModelCooldowns now) (mget (byUID p) uid)"
  by (simp add: prune_all_byUID mget_map_snd [where f = "\<lambda>_. pruneExpiredModelCooldowns now"])

subsection \<open>Candidates\<close>

lemma candidates_iff:
  "(uid, e) \<in> set (candidates g now tried m r p) \<longleftrightarrow>
     (uid, e) \<in> set (byUID p) \<and> uid \<notin> tried \<and> realmOK g r e \<and> healthyForModel e now m
     \<and> \<not> inFlightFull p e"
  by (auto simp: candidates_def)

lemma explore_scan_mem:
  "explore_scan cur nxt first es = (n, f) \<Longrightarrow>
     (n = nxt \<or> (\<exists>e \<in> set es. n = Some e)) \<and> (f = first \<or> (\<exists>e \<in> set es. f = Some e))"
proof (induction es arbitrary: nxt first)
  case Nil
  then show ?case by simp
next
  case (Cons e es)
  from Cons.prems show ?case
    by (auto simp: Let_def dest!: Cons.IH split: option.splits if_splits)
qed

lemma explore_frame [simp]:
  "byUID (fst (exploreUnknownLocked sha z us m r p)) = byUID p"
  "pickSeq (fst (exploreUnknownLocked sha z us m r p)) = pickSeq p"
  "maxInFlight (fst (exploreUnknownLocked sha z us m r p)) = maxInFlight p"
  "idleWeightMax (fst (exploreUnknownLocked sha z us m r p)) = idleWeightMax p"
  "idleWeightPerHour (fst (exploreUnknownLocked sha z us m r p)) = idleWeightPerHour p"
  by (auto simp: exploreUnknownLocked_def Let_def split: option.splits prod.splits)

lemma explore_mem:
  "snd (exploreUnknownLocked sha z us m r p) = Some c \<Longrightarrow> c \<in> set us"
  by (auto simp: exploreUnknownLocked_def Let_def split: option.splits prod.splits if_splits
      dest!: explore_scan_mem)

lemma least_used_mem: "least_used e cs \<in> insert e (set cs)"
  by (induction cs arbitrary: e) auto

lemma least_used_min: "c \<in> insert e (set cs) \<Longrightarrow> usedSeq (snd (least_used e cs)) \<le> usedSeq (snd c)"
proof (induction cs arbitrary: e c)
  case Nil
  then show ?case by simp
next
  case (Cons d cs)
  let ?b = "if usedSeq (snd d) < usedSeq (snd e) then d else e"
  have b: "usedSeq (snd (least_used ?b cs)) \<le> usedSeq (snd ?b)" by (rule Cons.IH) simp
  show ?case
  proof (cases "c \<in> set cs")
    case True
    then show ?thesis using Cons.IH [of c ?b] by simp
  next
    case False
    with Cons.prems b show ?thesis by (auto split: if_splits)
  qed
qed

lemma draw_mem: "draw r acc cs = Some c \<Longrightarrow> c \<in> set cs"
  by (induction cs arbitrary: acc) (auto simp: Let_def split: if_splits)

lemma pickWeighted_mem: "cs \<noteq> [] \<Longrightarrow> pickWeighted rnd cs \<in> set cs"
  by (auto simp: pickWeighted_def Let_def split: option.splits dest: draw_mem)

lemma fixed_weight_pos: "1 \<le> fixed_weight w"
  by (simp add: fixed_weight_def Let_def)

text \<open>A draw inside the total always lands in some interval: the last resort is not used.\<close>

lemma draw_total:
  "acc \<le> r \<Longrightarrow> r < acc + sum_list (map (\<lambda>c. fixed_weight (we_w c)) cs) \<Longrightarrow> draw r acc cs \<noteq> None"
  by (induction cs arbitrary: acc) (auto simp: Let_def add.assoc)

lemma choose_cand_mem: "ws \<noteq> [] \<Longrightarrow> choose_cand rnd now ws \<in> we_c ` set ws"
proof -
  assume ws: "ws \<noteq> []"
  let ?el = "filter (\<lambda>w. time_sub now (lastUsed (snd (we_c w))) \<ge> minPickGap) (take 5 ws)"
  show ?thesis
  proof (cases "?el = []")
    case True
    have "least_used (we_c (hd ws)) (map we_c (tl ws)) \<in> insert (we_c (hd ws)) (set (map we_c (tl ws)))"
      by (rule least_used_mem)
    also have "\<dots> = we_c ` set ws" using ws by (cases ws) auto
    finally show ?thesis using True by (simp add: choose_cand_def)
  next
    case False
    then have "pickWeighted rnd ?el \<in> set ?el" by (rule pickWeighted_mem)
    then have "pickWeighted rnd ?el \<in> set ws" by (auto dest: in_set_takeD)
    with False show ?thesis by (simp add: choose_cand_def Let_def)
  qed
qed

subsection \<open>Tiers\<close>

lemma costTier_le: "fst (costTier m now e) \<le> 2"
  by (simp add: costTier_def split: option.splits)

lemma foldl_min:
  "foldl (\<lambda>b x. if f x < b then f x else b) (b0 :: 'b :: linorder) xs
     = (if xs = [] then b0 else min b0 (Min (f ` set xs)))"
proof (induction xs arbitrary: b0)
  case Nil
  then show ?case by simp
next
  case (Cons x xs)
  have "(if f x < b0 then f x else b0) = min b0 (f x)" by (auto simp: min_def)
  then show ?case
    using Cons.IH [of "min b0 (f x)"] by (cases "xs = []") (simp_all add: min.assoc)
qed

lemma foldl_max:
  "foldl (\<lambda>b x. if f x > b then f x else b) (b0 :: 'b :: linorder) xs
     = (if xs = [] then b0 else max b0 (Max (f ` set xs)))"
proof (induction xs arbitrary: b0)
  case Nil
  then show ?case by simp
next
  case (Cons x xs)
  have "(if b0 < f x then f x else b0) = max b0 (f x)" by (auto simp: max_def)
  then show ?case
    using Cons.IH [of "max b0 (f x)"] by (cases "xs = []") (simp_all add: max.assoc)
qed

lemma bestTierOf_eq:
  assumes "cands \<noteq> []"
  shows "bestTierOf m now cands = Min ((\<lambda>c. fst (costTier m now (snd c))) ` set cands)"
proof -
  obtain c where "c \<in> set cands" using assms by (cases cands) auto
  then have "Min ((\<lambda>c. fst (costTier m now (snd c))) ` set cands) \<le> fst (costTier m now (snd c))"
    by simp
  then have "Min ((\<lambda>c. fst (costTier m now (snd c))) ` set cands) \<le> 2"
    using costTier_le [of m now "snd c"] by linarith
  then show ?thesis
    using assms foldl_min [of "\<lambda>c. fst (costTier m now (snd c))" 2 cands]
    by (simp add: bestTierOf_def case_prod_unfold min_absorb2)
qed

lemma maxCreditsOf_eq:
  "cands \<noteq> [] \<Longrightarrow> maxCreditsOf cands = max 0 (Max ((\<lambda>c. credits (snd c)) ` set cands))"
  using foldl_max [of "\<lambda>c. credits (snd c)" 0 cands]
  by (simp add: maxCreditsOf_def case_prod_unfold)

lemma bestTierOf_attained:
  assumes "cands \<noteq> []"
  obtains c where "c \<in> set cands" "fst (costTier m now (snd c)) = bestTierOf m now cands"
proof -
  have "Min ((\<lambda>c. fst (costTier m now (snd c))) ` set cands) \<in> (\<lambda>c. fst (costTier m now (snd c))) ` set cands"
    using assms by (intro Min_in) auto
  with that show thesis by (auto simp: bestTierOf_eq [OF assms])
qed

lemma bestTierOf_le: "c \<in> set cands \<Longrightarrow> bestTierOf m now cands \<le> fst (costTier m now (snd c))"
  by (subst bestTierOf_eq) auto

subsection \<open>Ranking\<close>

lemma sort_key_perm:
  assumes "mset xs = mset ys" "inj_on f (set xs)"
  shows "sort_key f xs = sort_key f ys"
  by (rule sort_key_inj_key_eq) (use assms in simp_all)

definition distinct_uids :: "weighted list \<Rightarrow> bool" where
  "distinct_uids ws \<longleftrightarrow> inj_on (\<lambda>w. cand_uid (we_c w)) (set ws)"

lemma distinct_uids_rank: "distinct_uids ws \<Longrightarrow> inj_on sort_rank (set ws)"
  by (auto simp: distinct_uids_def inj_on_def sort_rank_def)

lemma rank_cands_shuffle:
  assumes "distinct_uids ws" "\<And>xs. mset (shuf xs) = mset xs"
  shows "rank_cands shuf ws = sort_key sort_rank ws"
  unfolding rank_cands_def
  using sort_key_perm [of "shuf ws" ws sort_rank] assms distinct_uids_rank [of ws] mset_eq_setD [of "shuf ws" ws]
  by simp

lemma set_rank_cands: "(\<And>xs. mset (shuf xs) = mset xs) \<Longrightarrow> set (rank_cands shuf ws) = set ws"
  using mset_eq_setD [of "shuf ws" ws] by (simp add: rank_cands_def)

subsection \<open>What a selection returns\<close>

definition tier_list :: "pool \<Rightarrow> string \<Rightarrow> instant \<Rightarrow> cand list \<Rightarrow> weighted list" where
  "tier_list p m now cands =
     filter (\<lambda>w. we_tier w = bestTierOf m now cands) (map (weigh p m now (maxCreditsOf cands)) cands)"

lemma tier_list_mem:
  "w \<in> set (tier_list p m now cands) \<longleftrightarrow>
     (\<exists>c \<in> set cands. w = weigh p m now (maxCreditsOf cands) c
        \<and> fst (costTier m now (snd c)) = bestTierOf m now cands)"
  by (auto simp: tier_list_def weigh_def)

lemma tier_list_nonempty: "cands \<noteq> [] \<Longrightarrow> tier_list p m now cands \<noteq> []"
  by (metis bestTierOf_attained tier_list_mem empty_iff list.set(1))

text \<open>The two ways a selection with candidates ends.\<close>

lemma pick_cases:
  assumes ne: "candidates g now tried m r (prune_all now p) \<noteq> []"
    and shuf: "\<And>xs. mset (c_shuf ch xs) = mset xs"
  obtains (explored) c p1 where
      "c \<in> set (candidates g now tried m r (prune_all now p))" "fst (costTier m now (snd c)) = 1"
      "bestTierOf m now (candidates g now tried m r (prune_all now p)) = 0"
      "byUID p1 = byUID (prune_all now p)" "pickSeq p1 = pickSeq p"
      "pick ch g now tried m r p = (mark_used now c p1, Some (acct (snd c)))"
    | (ranked) c p1 where
      "c \<in> set (candidates g now tried m r (prune_all now p))"
      "fst (costTier m now (snd c)) = bestTierOf m now (candidates g now tried m r (prune_all now p))"
      "byUID p1 = byUID (prune_all now p)" "pickSeq p1 = pickSeq p"
      "c = choose_cand (c_rnd ch) now (rank_cands (c_shuf ch)
             (tier_list p1 m now (candidates g now tried m r (prune_all now p))))"
      "pick ch g now tried m r p = (mark_used now c p1, Some (acct (snd c)))"
proof -
  let ?p = "prune_all now p"
  let ?cs = "candidates g now tried m r ?p"
  let ?b = "bestTierOf m now ?cs"
  let ?us = "filter (\<lambda>c. fst (costTier m now (snd c)) = 1) ?cs"
  let ?x = "exploreUnknownLocked (c_sha ch) (c_zero ch) ?us m r ?p"
  define p1 where "p1 = (if ?b = 0 \<and> ?us \<noteq> [] then fst ?x else ?p)"
  define ex where "ex = (if ?b = 0 \<and> ?us \<noteq> [] then snd ?x else None)"
  have p1: "byUID p1 = byUID ?p" "pickSeq p1 = pickSeq p" by (simp_all add: p1_def)
  have pair: "(if ?b = 0 \<and> ?us \<noteq> [] then ?x else (?p, None)) = (p1, ex)"
    by (simp add: p1_def ex_def)
  let ?c = "choose_cand (c_rnd ch) now (rank_cands (c_shuf ch) (tier_list p1 m now ?cs))"
  have pick: "pick ch g now tried m r p =
      (case ex of Some c \<Rightarrow> (mark_used now c p1, Some (acct (snd c)))
       | None \<Rightarrow> (mark_used now ?c p1, Some (acct (snd ?c))))"
    by (simp only: pick_def Let_def pair prod.case ne if_False tier_list_def)
  show thesis
  proof (cases ex)
    case (Some c)
    then have "?b = 0" "c \<in> set ?us" by (auto simp: ex_def split: if_splits dest: explore_mem)
    with explored [of c p1] pick Some p1 show thesis by simp
  next
    case None
    have "rank_cands (c_shuf ch) (tier_list p1 m now ?cs) \<noteq> []"
      using set_rank_cands [OF shuf] tier_list_nonempty [OF ne] by (metis set_empty)
    then have "?c \<in> we_c ` set (tier_list p1 m now ?cs)"
      using choose_cand_mem set_rank_cands [OF shuf] by metis
    then have "?c \<in> set ?cs" "fst (costTier m now (snd ?c)) = ?b"
      by (auto simp: tier_list_mem weigh_def)
    with ranked [of ?c p1] pick None p1 show thesis by simp
  qed
qed

lemma pick_no_candidates:
  "candidates g now tried m r (prune_all now p) = [] \<Longrightarrow>
   pick ch g now tried m r p =
     (case pickEarliestExpiryLocked g tried now m r (prune_all now p) of
        (q, x) \<Rightarrow> (q, map_option (\<lambda>c. acct (snd c)) x))"
  by (simp add: pick_def Let_def)

subsection \<open>The fallback\<close>

lemma earliest_mem: "earliest now best cs = Some c \<Longrightarrow> best = Some c \<or> c \<in> set cs"
  by (induction cs arbitrary: best) (auto split: option.splits if_splits)

lemma earliest_None: "earliest now best cs = None \<longleftrightarrow> best = None \<and> cs = []"
  by (induction cs arbitrary: best) (auto split: option.splits if_splits)

lemma earliest_min:
  "earliest now best cs = Some c \<Longrightarrow> (d \<in> set cs \<or> best = Some d) \<Longrightarrow> expiry (snd c) now \<le> expiry (snd d) now"
proof (induction cs arbitrary: best d)
  case Nil
  then show ?case by simp
next
  case (Cons x cs)
  let ?b = "case best of None \<Rightarrow> Some x
      | Some b \<Rightarrow> if expiry (snd x) now < expiry (snd b) now then Some x else best"
  obtain b where b: "?b = Some b" "expiry (snd b) now \<le> expiry (snd x) now"
      "\<And>y. best = Some y \<Longrightarrow> expiry (snd b) now \<le> expiry (snd y) now"
  proof (cases best)
    case (Some y)
    then show thesis using that [of x] that [of y] by (cases "expiry (snd x) now < expiry (snd y) now") auto
  qed (use that [of x] in simp)
  have step: "earliest now (Some b) cs = Some c" using Cons.prems(1) b(1) by simp
  have cb: "expiry (snd c) now \<le> expiry (snd b) now" by (rule Cons.IH [OF step]) simp
  consider "d \<in> set cs" | "d = x" | "best = Some d" using Cons.prems(2) by auto
  then show ?case
  proof cases
    case 1
    then show ?thesis by (intro Cons.IH [OF step]) simp
  next
    case 2
    with cb b(2) show ?thesis using order_trans by blast
  next
    case 3
    with cb b(3) show ?thesis using order_trans by blast
  qed
qed

lemma fallback_okD:
  assumes "fallback_ok g now tried m r p (uid, e)"
  shows "uid \<notin> tried" "realmOK g r e" "\<not> disabled e" "\<not> modelCooled e now m"
    "\<not> inFlightFull p e" "\<not> (coolKind e = CoolHard \<and> in_force now (until e))"
    "\<not> is_zero (expiry e now)"
  using assms by (auto simp: fallback_ok_def realmOK_def split: if_splits)

subsection \<open>Exploration in cyclic uid order\<close>

definition least_cand :: "cand option \<Rightarrow> cand set \<Rightarrow> bool" where
  "least_cand c S \<longleftrightarrow> (case c of None \<Rightarrow> S = {}
     | Some x \<Rightarrow> x \<in> S \<and> (\<forall>y \<in> S. cand_uid x \<le> cand_uid y))"

lemma least_cand_step:
  assumes "least_cand c S"
  shows "least_cand (case c of None \<Rightarrow> Some e | Some f \<Rightarrow> if cand_uid e < cand_uid f then Some e else c)
           (insert e S)"
  using assms by (cases c) (auto simp: least_cand_def intro: order_trans less_imp_le)

lemma explore_scan_least:
  "explore_scan cur nxt first es = (n, f) \<Longrightarrow> least_cand nxt N \<Longrightarrow> least_cand first F \<Longrightarrow>
   least_cand n (N \<union> {e \<in> set es. cand_uid e > cur}) \<and> least_cand f (F \<union> set es)"
proof (induction es arbitrary: nxt first N F)
  case Nil
  then show ?case by simp
next
  case (Cons e es)
  let ?first = "case first of None \<Rightarrow> Some e | Some f \<Rightarrow> if cand_uid e < cand_uid f then Some e else first"
  let ?nxt = "if cand_uid e > cur
      then (case nxt of None \<Rightarrow> Some e | Some n \<Rightarrow> if cand_uid e < cand_uid n then Some e else nxt) else nxt"
  let ?N = "if cand_uid e > cur then insert e N else N"
  have "explore_scan cur ?nxt ?first es = (n, f)" using Cons.prems(1) by (simp add: Let_def)
  moreover have "least_cand ?nxt ?N" using least_cand_step [OF Cons.prems(2)] Cons.prems(2) by simp
  moreover have "least_cand ?first (insert e F)" by (rule least_cand_step [OF Cons.prems(3)])
  ultimately have "least_cand n (?N \<union> {x \<in> set es. cand_uid x > cur}) \<and> least_cand f (insert e F \<union> set es)"
    by (rule Cons.IH)
  moreover have "?N \<union> {x \<in> set es. cand_uid x > cur} = N \<union> {x \<in> set (e # es). cand_uid x > cur}" by auto
  moreover have "insert e F \<union> set es = F \<union> set (e # es)" by auto
  ultimately show ?case by simp
qed

text \<open>The next account after the cursor, wrapping around.\<close>

definition cyclic_next :: "string \<Rightarrow> cand set \<Rightarrow> cand \<Rightarrow> bool" where
  "cyclic_next cur S c \<longleftrightarrow> c \<in> S \<and>
     (if \<exists>x \<in> S. cand_uid x > cur
      then cand_uid c > cur \<and> (\<forall>x \<in> S. cand_uid x > cur \<longrightarrow> cand_uid c \<le> cand_uid x)
      else (\<forall>x \<in> S. cand_uid c \<le> cand_uid x))"

lemma cyclic_next_unique:
  assumes "inj_on cand_uid S" "cyclic_next cur S c" "cyclic_next cur S d"
  shows "c = d"
proof -
  have "cand_uid c \<le> cand_uid d" "cand_uid d \<le> cand_uid c"
    using assms(2,3) by (auto simp: cyclic_next_def split: if_splits)
  then have "cand_uid c = cand_uid d" by (rule order_antisym)
  moreover have "c \<in> S" "d \<in> S" using assms(2,3) by (auto simp: cyclic_next_def)
  ultimately show ?thesis using assms(1) by (simp add: inj_on_def)
qed

text \<open>Scope state after the call, and the account chosen by it.\<close>

definition scope_state :: "(string \<Rightarrow> string) \<Rightarrow> string \<Rightarrow> string \<Rightarrow> pool \<Rightarrow> explorationState" where
  "scope_state sha m r p =
     (case mget (costExploration p) (sha (r @ [CHR 0x00] @ m)) of
        None \<Rightarrow> \<lparr>preferred = 0, cursor = [], touched = 0\<rparr> | Some st \<Rightarrow> st)"

lemma explore_result:
  assumes "us \<noteq> []"
  shows "(case snd (exploreUnknownLocked sha z us m r p) of
            None \<Rightarrow> (preferred (scope_state sha m r p) + 1) mod 256 < 4
              \<and> preferred (scope_state sha m r (fst (exploreUnknownLocked sha z us m r p)))
                  = (preferred (scope_state sha m r p) + 1) mod 256
              \<and> cursor (scope_state sha m r (fst (exploreUnknownLocked sha z us m r p)))
                  = cursor (scope_state sha m r p)
          | Some c \<Rightarrow> 4 \<le> (preferred (scope_state sha m r p) + 1) mod 256
              \<and> cyclic_next (cursor (scope_state sha m r p)) (set us) c
              \<and> preferred (scope_state sha m r (fst (exploreUnknownLocked sha z us m r p))) = 0
              \<and> cursor (scope_state sha m r (fst (exploreUnknownLocked sha z us m r p))) = cand_uid c)"
proof -
  define st where "st = scope_state sha m r p"
  define key where "key = sha (r @ [CHR 0x00] @ m)"
  have key: "sha (r @ CHR 0x00 # m) = key" by (simp add: key_def)
  define scopes where "scopes = (case mget (costExploration p) key of Some st \<Rightarrow> costExploration p
      | None \<Rightarrow> if length (costExploration p) \<ge> maxExplorationScopes
          then mdel (oldest_scope z (costExploration p)) (costExploration p) else costExploration p)"
  have ex: "exploreUnknownLocked sha z us m r p =
      (let st1 = st\<lparr>touched := pickSeq p + 1, preferred := (preferred st + 1) mod 256\<rparr>
      in if preferred st1 < 4
         then (p\<lparr>costExploration := mput key st1 scopes\<rparr>, None)
         else
           let (nxt, first) = explore_scan (cursor st1) None None us;
               chosen = (case nxt of None \<Rightarrow> first | Some n \<Rightarrow> Some n)
           in case chosen of
                None \<Rightarrow> (p\<lparr>costExploration := mput key (st1\<lparr>preferred := 0\<rparr>) scopes\<rparr>, None)
              | Some c \<Rightarrow>
                  (p\<lparr>costExploration := mput key (st1\<lparr>preferred := 0, cursor := cand_uid c\<rparr>) scopes\<rparr>,
                   Some c))"
    by (cases "mget (costExploration p) key")
      (simp_all add: exploreUnknownLocked_def st_def scope_state_def key_def scopes_def Let_def)
  obtain nxt first where sc: "explore_scan (cursor st) None None us = (nxt, first)" by fastforce
  from explore_scan_least [OF sc, of "{}" "{}"]
  have l: "least_cand nxt {e \<in> set us. cand_uid e > cursor st}" "least_cand first (set us)"
    by (simp_all add: least_cand_def)
  from l(2) assms obtain f where f: "first = Some f" by (cases first) (auto simp: least_cand_def)
  define c where "c = (case nxt of None \<Rightarrow> f | Some n \<Rightarrow> n)"
  have chosen: "(case nxt of None \<Rightarrow> first | Some n \<Rightarrow> Some n) = Some c"
    by (simp add: c_def f split: option.splits)
  have cyc: "cyclic_next (cursor st) (set us) c"
    using l f by (cases nxt) (auto simp: cyclic_next_def least_cand_def c_def)
  show ?thesis
  proof (cases "(preferred st + 1) mod 256 < 4")
    case True
    then show ?thesis
      unfolding ex Let_def st_def [symmetric]
      by (simp add: scope_state_def key)
  next
    case False
    then show ?thesis
      unfolding ex Let_def st_def [symmetric]
      using cyc by (simp add: sc chosen scope_state_def key)
  qed
qed

end
