(* ===== verification/PoolPersist.thy ===== *)
theory PoolPersist
  imports PickFacts
begin

text \<open>
  Persistence of the pool: \<open>persist.go\<close>, \<open>persist_merge.go\<close> and the membership
  operations of \<open>pool.go\<close>. The state file is a value of type \<open>disk\<close>; writing replaces it
  whole (temporary file and rename) or leaves it. Several processes may share the file: a save
  reads what is there and merges this process's changes into it field by field.

  A persisted account is compared and merged as the JSON object the code marshals, a map from
  field names to values in which the zero values of the \<open>omitempty\<close> fields are absent.
  \<open>json.Marshal\<close> is deterministic and injective on these values, so equality of the raw
  bytes is equality of the values.
\<close>

subsection \<open>The JSON object of an account\<close>

datatype field_value =
    FInt int
  | FBool bool
  | FStr string
  | FTime instant
  | FFloat float64
  | FModels "(string, stateModelCooldown) gomap"

definition omit_if :: "bool \<Rightarrow> string \<Rightarrow> field_value \<Rightarrow> (string, field_value) gomap" where
  "omit_if z k v = (if z then [] else [(k, v)])"

text \<open>\<open>json.Marshal\<close> writes the keys of a map in order.\<close>

definition sort_models :: "(string, 'v) gomap \<Rightarrow> (string, 'v) gomap" where
  "sort_models m = sort_key fst m"

definition stateFields :: "stateAccount \<Rightarrow> (string, field_value) gomap" where
  "stateFields a =
     [(''credits'', FInt (sa_Credits a)), (''disabled'', FBool (sa_Disabled a))]
     @ omit_if (sa_Reason a = []) ''reason'' (FStr (sa_Reason a))
     @ [(''until'', FTime (sa_Until a)), (''cool_kind'', FInt (sa_CoolKind a))]
     @ omit_if (sa_SuccessCount a = 0) ''success_count'' (FInt (sa_SuccessCount a))
     @ [(''err_total'', FInt (sa_ErrTotal a))]
     @ omit_if (sa_ErrCount a = 0) ''err_count'' (FInt (sa_ErrCount a))
     @ [(''last_success'', FTime (sa_LastSuccess a)), (''last_err'', FTime (sa_LastErr a))]
     @ omit_if (sa_SuccessEMA a = 0) ''success_ema'' (FFloat (sa_SuccessEMA a))
     @ [(''error_ema'', FFloat (sa_ErrorEMA a)), (''soft_streak'', FInt (sa_SoftStreak a)),
        (''session_dead_fails'', FInt (sa_SessionDeadFails a))]
     @ (case sa_BreakerUntil a of None \<Rightarrow> [] | Some t \<Rightarrow> [(''breaker_until'', FTime t)])
     @ omit_if (sa_RetryCount a = 0) ''retry_count'' (FInt (sa_RetryCount a))
     @ [(''credits_expiring'', FInt (sa_CreditsExpiring a))]
     @ omit_if (sa_ModelCooldowns a = []) ''model_cooldowns'' (FModels (sort_models (sa_ModelCooldowns a)))"

definition get_int :: "(string, field_value) gomap \<Rightarrow> string \<Rightarrow> int" where
  "get_int m k = (case mget m k of Some (FInt i) \<Rightarrow> i | _ \<Rightarrow> 0)"
definition get_bool :: "(string, field_value) gomap \<Rightarrow> string \<Rightarrow> bool" where
  "get_bool m k = (case mget m k of Some (FBool b) \<Rightarrow> b | _ \<Rightarrow> False)"
definition get_str :: "(string, field_value) gomap \<Rightarrow> string \<Rightarrow> string" where
  "get_str m k = (case mget m k of Some (FStr s) \<Rightarrow> s | _ \<Rightarrow> [])"
definition get_time :: "(string, field_value) gomap \<Rightarrow> string \<Rightarrow> instant" where
  "get_time m k = (case mget m k of Some (FTime t) \<Rightarrow> t | _ \<Rightarrow> 0)"
definition get_float :: "(string, field_value) gomap \<Rightarrow> string \<Rightarrow> float64" where
  "get_float m k = (case mget m k of Some (FFloat x) \<Rightarrow> x | _ \<Rightarrow> 0)"
definition get_models :: "(string, field_value) gomap \<Rightarrow> string \<Rightarrow> (string, stateModelCooldown) gomap" where
  "get_models m k = (case mget m k of Some (FModels x) \<Rightarrow> x | _ \<Rightarrow> [])"

lemmas get_defs = get_int_def get_bool_def get_str_def get_time_def get_float_def get_models_def

text \<open>\<open>json.Unmarshal\<close> into the struct: absent fields keep the zero value.\<close>

definition of_fields :: "(string, field_value) gomap \<Rightarrow> stateAccount" where
  "of_fields m = \<lparr>sa_Credits = get_int m ''credits'', sa_Disabled = get_bool m ''disabled'',
     sa_Reason = get_str m ''reason'', sa_Until = get_time m ''until'',
     sa_CoolKind = get_int m ''cool_kind'', sa_SuccessCount = get_int m ''success_count'',
     sa_ErrTotal = get_int m ''err_total'', sa_ErrCount = get_int m ''err_count'',
     sa_LastSuccess = get_time m ''last_success'', sa_LastErr = get_time m ''last_err'',
     sa_SuccessEMA = get_float m ''success_ema'', sa_ErrorEMA = get_float m ''error_ema'',
     sa_SoftStreak = get_int m ''soft_streak'',
     sa_SessionDeadFails = get_int m ''session_dead_fails'',
     sa_BreakerUntil = (case mget m ''breaker_until'' of Some (FTime t) \<Rightarrow> Some t | _ \<Rightarrow> None),
     sa_RetryCount = get_int m ''retry_count'',
     sa_CreditsExpiring = get_int m ''credits_expiring'',
     sa_ModelCooldowns = get_models m ''model_cooldowns''\<rparr>"

subsection \<open>Three-way merge\<close>

definition drop_removed :: "('k, 'v) gomap \<Rightarrow> ('k, 'v) gomap \<Rightarrow> ('k, 'v) gomap \<Rightarrow> ('k, 'v) gomap" where
  "drop_removed base current latest =
     foldl (\<lambda>l (k, prev). if mget current k = None \<and> mget l k = Some prev then mdel k l else l) latest base"

definition take_changed :: "('k, 'v) gomap \<Rightarrow> ('k, 'v) gomap \<Rightarrow> ('k, 'v) gomap \<Rightarrow> ('k, 'v) gomap" where
  "take_changed base current latest =
     foldl (\<lambda>l (k, v). if mget base k \<noteq> Some v then mput k v l else l) latest current"

definition take_forced :: "'k list \<Rightarrow> ('k, 'v) gomap \<Rightarrow> ('k, 'v) gomap \<Rightarrow> ('k, 'v) gomap" where
  "take_forced forced current latest =
     foldl (\<lambda>l k. case mget current k of Some v \<Rightarrow> mput k v l | None \<Rightarrow> mdel k l) latest forced"

text \<open>\<open>forced\<close> lists the keys of the intent's set in the order the loop visits them.\<close>

definition mergeStateFields ::
  "('k, 'v) gomap \<Rightarrow> ('k, 'v) gomap \<Rightarrow> ('k, 'v) gomap \<Rightarrow> 'k list \<Rightarrow> ('k, 'v) gomap" where
  "mergeStateFields base current latest forced =
     take_forced forced current (take_changed base current (drop_removed base current latest))"

definition mergedCounter :: "int \<Rightarrow> int \<Rightarrow> int \<Rightarrow> string + int" where
  "mergedCounter latest current base =
     (if current < base then Inr current
      else let delta = wrap64 (current - base)
           in if delta > 0 \<and> latest > wrap64 (max_int64 - delta)
              then Inl ''persisted account counter overflow''
              else Inr (wrap64 (latest + delta)))"

definition intent_fields :: "stateIntent \<Rightarrow> string list" where
  "intent_fields i = sorted_list_of_set (si_fields i)"

definition delta_of :: "stateIntent \<Rightarrow> string \<Rightarrow> int" where
  "delta_of i k = (case mget (si_deltas i) k of None \<Rightarrow> 0 | Some d \<Rightarrow> d)"

definition merge_models ::
  "stateAccount \<Rightarrow> stateAccount \<Rightarrow> stateAccount \<Rightarrow> stateIntent \<Rightarrow> (string, stateModelCooldown) gomap" where
  "merge_models base current latest i =
     mergeStateFields (sa_ModelCooldowns base) (sa_ModelCooldowns current) (sa_ModelCooldowns latest)
       (sorted_list_of_set (si_models i))"

definition merge_object ::
  "stateAccount \<Rightarrow> stateAccount \<Rightarrow> stateAccount \<Rightarrow> stateIntent \<Rightarrow> (string, field_value) gomap" where
  "merge_object base current latest i =
     (let d = mergeStateFields (stateFields base) (stateFields current) (stateFields latest) (intent_fields i);
          models = merge_models base current latest i
      in if ''model_cooldowns'' \<in> si_fields i then d
         else if models = [] then mdel ''model_cooldowns'' d
         else mput ''model_cooldowns'' (FModels (sort_models models)) d)"

definition mergeStateAccount ::
  "stateAccount \<Rightarrow> stateAccount \<Rightarrow> stateAccount \<Rightarrow> stateIntent option \<Rightarrow> string + stateAccount" where
  "mergeStateAccount base current latest intent =
     (let i = (case intent of None \<Rightarrow> new_intent | Some x \<Rightarrow> x);
          result = of_fields (merge_object base current latest i);
          ls0 = sa_SuccessCount latest;
          le0 = max (sa_ErrTotal latest) (sa_ErrCount latest);
          ls = (if importedCounters i then max ls0 (importedSuccess i) else ls0);
          le = (if importedCounters i then max le0 (importedErrors i) else le0)
      in case mergedCounter ls (sa_SuccessCount current) (sa_SuccessCount base) of
           Inl e \<Rightarrow> Inl e
         | Inr succ \<Rightarrow>
             (case mergedCounter le (sa_ErrTotal current) (max (sa_ErrTotal base) (sa_ErrCount base)) of
                Inl e \<Rightarrow> Inl e
              | Inr errs \<Rightarrow> Inr (result\<lparr>
                  sa_SuccessCount := succ,
                  sa_ErrTotal := errs,
                  sa_LastSuccess := (if sa_LastSuccess latest > sa_LastSuccess result
                                     then sa_LastSuccess latest else sa_LastSuccess result),
                  sa_LastErr := (if sa_LastErr latest > sa_LastErr result
                                 then sa_LastErr latest else sa_LastErr result),
                  sa_Credits := (if ''credits'' \<notin> si_fields i \<and> delta_of i ''credits'' \<noteq> 0
                                 then max 0 (wrap64 (sa_Credits latest + delta_of i ''credits''))
                                 else sa_Credits result),
                  sa_CreditsExpiring :=
                    (if ''credits_expiring'' \<notin> si_fields i \<and> delta_of i ''credits_expiring'' \<noteq> 0
                     then max 0 (wrap64 (sa_CreditsExpiring latest + delta_of i ''credits_expiring''))
                     else sa_CreditsExpiring result)\<rparr>)))"

subsection \<open>Collecting and restoring\<close>

definition state_of_entry :: "instant \<Rightarrow> entry \<Rightarrow> stateAccount" where
  "state_of_entry now e =
     (let mcs = map (\<lambda>(m, mc). (m, \<lparr>smc_Until = mc_Until mc, smc_ResetAt = mc_ResetAt mc,
                                     smc_Reason = mc_Reason mc\<rparr>))
                 (filter (\<lambda>(m, mc). in_force now (mc_Until mc)) (modelCooldowns e));
          br = in_force now (breakerUntil e)
      in \<lparr>sa_Credits = credits e, sa_Disabled = disabled e, sa_Reason = snd (cooledReasonLocked e now),
          sa_Until = until e, sa_CoolKind = fst (cooledReasonLocked e now),
          sa_SuccessCount = successCount e, sa_ErrTotal = errTotal e, sa_ErrCount = 0,
          sa_LastSuccess = lastSuccess e, sa_LastErr = lastErr e, sa_SuccessEMA = successEMA e,
          sa_ErrorEMA = errorEMA e, sa_SoftStreak = softStreak e,
          sa_SessionDeadFails = sessionDeadFails e,
          sa_BreakerUntil = (if br then Some (breakerUntil e) else None),
          sa_RetryCount = (if br then retryCount e else 0),
          sa_CreditsExpiring = creditsExpiring e, sa_ModelCooldowns = mcs\<rparr>)"

definition stateOverviewLocked :: "instant \<Rightarrow> pool \<Rightarrow> stateFile" where
  "stateOverviewLocked now p =
     \<lparr>Accounts = map (\<lambda>(uid, e). (uid, state_of_entry now e)) (byUID p),
      AccountEpochs = AccountEpochs (persistBase p)\<rparr>"

definition entry_of_state :: "instant \<Rightarrow> string \<Rightarrow> stateAccount \<Rightarrow> entry" where
  "entry_of_state now uid s =
     (let errs = (if sa_ErrCount s > sa_ErrTotal s then sa_ErrCount s else sa_ErrTotal s);
          x0 = (if sa_CreditsExpiring s < 0 then 0 else sa_CreditsExpiring s);
          expiring = (if x0 > sa_Credits s then sa_Credits s else x0);
          obs = wrap64 (sa_SuccessCount s + errs);
          legacy = (sa_SuccessEMA s = 0 \<and> sa_ErrorEMA s = 0 \<and> obs > 0);
          alive = (case sa_BreakerUntil s of None \<Rightarrow> False | Some t \<Rightarrow> in_force now t)
      in (new_entry (empty_auth\<lparr>UID := uid\<rparr>))\<lparr>
          credits := sa_Credits s, disabled := sa_Disabled s, reason := sa_Reason s,
          until := sa_Until s, coolKind := sa_CoolKind s, successCount := sa_SuccessCount s,
          errTotal := errs,
          successEMA := (if legacy then fl (fl (of_int (sa_SuccessCount s)) / fl (of_int obs))
                         else sa_SuccessEMA s),
          errorEMA := (if legacy then fl (fl (of_int errs) / fl (of_int obs)) else sa_ErrorEMA s),
          lastErr := sa_LastErr s, lastSuccess := sa_LastSuccess s, softStreak := sa_SoftStreak s,
          sessionDeadFails := sa_SessionDeadFails s, creditsExpiring := expiring,
          breakerUntil := (if alive then the (sa_BreakerUntil s) else 0),
          retryCount := (if alive then sa_RetryCount s else 0),
          modelCooldowns := map (\<lambda>(m, c). (m, \<lparr>mc_Until = smc_Until c, mc_ResetAt = smc_ResetAt c,
                                               mc_Reason = smc_Reason c, mc_Hits = 0\<rparr>))
             (filter (\<lambda>(m, c). in_force now (smc_Until c)) (sa_ModelCooldowns s))\<rparr>)"

definition applyAccountsLocked :: "instant \<Rightarrow> (string, stateAccount) gomap \<Rightarrow> pool \<Rightarrow> pool" where
  "applyAccountsLocked now accts p =
     foldl (\<lambda>q (uid, s). set_entry uid (entry_of_state now uid s) q) p accts"

datatype disk = Missing | Unreadable | Corrupt | Present stateFile

definition load :: "instant \<Rightarrow> disk \<Rightarrow> pool \<Rightarrow> pool" where
  "load now d p =
     (case d of Present sf \<Rightarrow> (applyAccountsLocked now (Accounts sf) p)\<lparr>persistBase := sf\<rparr> | _ \<Rightarrow> p)"

definition epoch_of :: "(string, nat) gomap \<Rightarrow> string \<Rightarrow> nat" where
  "epoch_of m uid = (case mget m uid of None \<Rightarrow> 0 | Some n \<Rightarrow> n)"

definition observeAccountEpochLocked :: "disk \<Rightarrow> string \<Rightarrow> pool \<Rightarrow> nat \<times> bool \<times> bool" where
  "observeAccountEpochLocked d uid p =
     (let epoch = epoch_of (AccountEpochs (persistBase p)) uid
      in if stateFp p = [] then (epoch, False, False)
         else case d of
           Missing \<Rightarrow> (epoch, False, True)
         | Unreadable \<Rightarrow> (epoch, False, False)
         | Corrupt \<Rightarrow> (epoch, False, False)
         | Present s \<Rightarrow> (max epoch (epoch_of (AccountEpochs s) uid), mget (Accounts s) uid \<noteq> None, True))"

definition upsertLocked :: "disk \<Rightarrow> auth \<Rightarrow> pool \<Rightarrow> pool" where
  "upsertLocked d a p =
     (case observeAccountEpochLocked d (UID a) p of (epoch, persisted, observed) \<Rightarrow>
        let mark = (\<lambda>q. put_intent (UID a)
              ((intent_of q (UID a))\<lparr>created := True, deleted := False, createdEpoch := epoch\<rparr>) q)
        in case mget (byUID p) (UID a) of
             Some e \<Rightarrow>
               let q = set_entry (UID a) (e\<lparr>acct := a\<rparr>) p
               in if stateFp p \<noteq> [] \<and> observed
                     \<and> (\<not> persisted \<or> epoch \<noteq> epoch_of (AccountEpochs (persistBase p)) (UID a))
                  then mark q else q
           | None \<Rightarrow>
               let q = set_entry (UID a) (new_entry a) p
               in if stateFp p \<noteq> []
                  then mark (q\<lparr>persistBase := (persistBase q)\<lparr>Accounts :=
                              mput (UID a) zero_stateAccount (Accounts (persistBase q))\<rparr>\<rparr>)
                  else q)"

definition Add :: "disk \<Rightarrow> auth \<Rightarrow> pool \<Rightarrow> pool" where
  "Add d a p = upsertLocked d a p"

subsection \<open>Saving\<close>

definition raise_epochs :: "(string, nat) gomap \<Rightarrow> (string, nat) gomap \<Rightarrow> (string, nat) gomap" where
  "raise_epochs current latest =
     foldl (\<lambda>l (uid, n). mput uid (max (epoch_of l uid) n) l) latest current"

text \<open>The loop over the intents: deletions raise the account's deletion epoch.\<close>

fun apply_deletions :: "(string, stateIntent) gomap \<Rightarrow> stateFile \<Rightarrow> string + stateFile" where
  "apply_deletions [] f = Inr f"
| "apply_deletions ((uid, i) # is) f =
     (if \<not> deleted i then apply_deletions is f
      else if deletedEpoch i \<noteq> 0 then
        (if epoch_of (AccountEpochs f) uid > deletedEpoch i then apply_deletions is f
         else apply_deletions is
                (f\<lparr>AccountEpochs := mput uid (deletedEpoch i) (AccountEpochs f),
                   Accounts := mdel uid (Accounts f)\<rparr>))
      else if epoch_of (AccountEpochs f) uid = max_uint64 then Inl ''account deletion epoch overflow''
      else apply_deletions is
             (f\<lparr>AccountEpochs := mput uid (epoch_of (AccountEpochs f) uid + 1) (AccountEpochs f),
                Accounts := mdel uid (Accounts f)\<rparr>))"

fun merge_accounts :: "pool \<Rightarrow> (string, stateAccount) gomap \<Rightarrow> stateFile \<Rightarrow> string + stateFile" where
  "merge_accounts p [] f = Inr f"
| "merge_accounts p ((uid, account) # as) f =
     (let base = mget (Accounts (persistBase p)) uid;
          fresh = mget (Accounts f) uid;
          intent = mget (stateIntents p) uid;
          was_created = (case intent of None \<Rightarrow> False | Some i \<Rightarrow> created i);
          stale = (case intent of None \<Rightarrow> False
                   | Some i \<Rightarrow> created i \<and> createdEpoch i \<noteq> epoch_of (AccountEpochs f) uid)
      in if stale then merge_accounts p as f
         else case fresh of
           None \<Rightarrow>
             if base = None \<or> was_created
             then merge_accounts p as (f\<lparr>Accounts := mput uid account (Accounts f)\<rparr>)
             else merge_accounts p as f
         | Some fr \<Rightarrow>
             (case mergeStateAccount (case base of None \<Rightarrow> zero_stateAccount | Some b \<Rightarrow> b) account fr intent of
                Inl e \<Rightarrow> Inl e
              | Inr merged \<Rightarrow> merge_accounts p as (f\<lparr>Accounts := mput uid merged (Accounts f)\<rparr>)))"

definition mergedStateLocked :: "disk \<Rightarrow> pool \<Rightarrow> stateFile \<Rightarrow> string + stateFile" where
  "mergedStateLocked d p current =
     (case d of
        Unreadable \<Rightarrow> Inl ''read error''
      | Corrupt \<Rightarrow> Inl ''read existing pool state''
      | Missing \<Rightarrow>
          apply_deletions (stateIntents p)
            (current\<lparr>AccountEpochs := raise_epochs (AccountEpochs current) (AccountEpochs current)\<rparr>)
      | Present latest \<Rightarrow>
          (case apply_deletions (stateIntents p)
                  (latest\<lparr>AccountEpochs := raise_epochs (AccountEpochs current) (AccountEpochs latest)\<rparr>) of
             Inl e \<Rightarrow> Inl e
           | Inr f \<Rightarrow> merge_accounts p (Accounts current) f))"

definition notePersistFail :: "pool \<Rightarrow> pool" where
  "notePersistFail p = p\<lparr>dirty := True, persistFails := persistFails p + 1\<rparr>"

text \<open>
  \<open>io_ok\<close>: whether creating the directory, taking the file lock, writing, syncing and
  renaming the temporary file all succeed; each failure takes the same exit. With no file on
  disk the merge works on the map of \<open>current\<close> itself, so the new base sees its deletions.
\<close>

definition saveLocked :: "bool \<Rightarrow> instant \<Rightarrow> disk \<Rightarrow> pool \<Rightarrow> pool \<times> disk" where
  "saveLocked io_ok now d p =
     (if stateFp p = [] then (p, d)
      else if \<not> io_ok then (notePersistFail p, d)
      else
        let current = stateOverviewLocked now p
        in case mergedStateLocked d p current of
             Inl e \<Rightarrow> (notePersistFail p, d)
           | Inr sf \<Rightarrow>
               (p\<lparr>persistBase := current\<lparr>
                    Accounts := (if d = Missing then Accounts sf else Accounts current),
                    AccountEpochs := AccountEpochs sf\<rparr>, stateIntents := [],
                  dirty := False, persistFails := 0\<rparr>, Present sf))"

definition Flush :: "bool \<Rightarrow> instant \<Rightarrow> disk \<Rightarrow> pool \<Rightarrow> pool \<times> disk" where
  "Flush io_ok now d p = (if dirty p then saveLocked io_ok now d (p\<lparr>dirty := False\<rparr>) else (p, d))"

definition drop_account :: "string \<Rightarrow> pool \<Rightarrow> pool" where
  "drop_account uid p =
     (let q = put_intent uid ((intent_of p uid)\<lparr>deleted := True, deletedEpoch := 0\<rparr>) p
      in q\<lparr>byUID := mdel uid (byUID q)\<rparr>)"

definition SyncToDir :: "bool \<Rightarrow> instant \<Rightarrow> disk \<Rightarrow> auth list \<Rightarrow> pool \<Rightarrow> pool \<times> disk" where
  "SyncToDir io_ok now d auths p =
     (let q = foldl (\<lambda>q a. upsertLocked d a q) p auths;
          gone = filter (\<lambda>uid. uid \<notin> UID ` set auths) (mkeys (byUID q));
          q2 = foldl (\<lambda>q uid. drop_account uid q) q gone
      in if gone \<noteq> [] then saveLocked io_ok now d q2 else (q2, d))"

subsection \<open>Restoring from the remote snapshot\<close>

record snapshot =
  sn_file :: stateFile
  SavedAt :: instant

definition applySnapshotLocked :: "instant \<Rightarrow> snapshot \<Rightarrow> pool \<Rightarrow> pool" where
  "applySnapshotLocked now s p =
     (let accts = Accounts (sn_file s);
          eps = AccountEpochs (sn_file s);
          p1 = foldl (\<lambda>q uid. if mget accts uid = None
                  then put_intent uid ((intent_of q uid)\<lparr>deleted := True, deletedEpoch := epoch_of eps uid\<rparr>) q
                  else q) (p\<lparr>stateIntents := []\<rparr>) (mkeys (byUID p));
          p2 = applyAccountsLocked now accts (p1\<lparr>byUID := []\<rparr>);
          p3 = p2\<lparr>persistBase := (persistBase p2)\<lparr>AccountEpochs :=
                 raise_epochs eps (AccountEpochs (persistBase p2))\<rparr>\<rparr>
      in foldl (\<lambda>q (uid, e).
           let base = mget (Accounts (persistBase q)) uid;
               b = (case base of None \<Rightarrow> zero_stateAccount | Some b \<Rightarrow> b);
               b' = b\<lparr>sa_SuccessCount := successCount e, sa_ErrTotal := errTotal e, sa_ErrCount := 0\<rparr>;
               q1 = q\<lparr>persistBase := (persistBase q)\<lparr>Accounts := mput uid b' (Accounts (persistBase q))\<rparr>\<rparr>;
               i = (intent_of q1 uid)\<lparr>importedCounters := True, importedSuccess := successCount e,
                     importedErrors := errTotal e\<rparr>;
               i' = (if base = None then i\<lparr>created := True, createdEpoch := epoch_of eps uid\<rparr> else i)
           in put_intent uid i' q1) p3 (byUID p3))"

datatype stat_result = StatOk instant | StatMissing | StatError

text \<open>
  \<open>RestoreFromSnapshot\<close> with what \<open>os.Stat\<close> said of the local file and what the store
  returned: nothing, something that does not parse, or a snapshot.
\<close>

datatype remote = NoSnapshot | BadSnapshot | Snapshot snapshot

definition RestoreFromSnapshot :: "instant \<Rightarrow> bool \<Rightarrow> stat_result \<Rightarrow> remote \<Rightarrow> pool \<Rightarrow> pool" where
  "RestoreFromSnapshot now has_store local r p =
     (if \<not> has_store \<or> stateFp p = [] then p
      else case r of
        NoSnapshot \<Rightarrow> p
      | BadSnapshot \<Rightarrow> p
      | Snapshot s \<Rightarrow>
          if is_zero (SavedAt s) then p
          else if local = StatMissing \<or> (case local of StatOk t \<Rightarrow> \<not> t > SavedAt s | _ \<Rightarrow> False)
          then (applySnapshotLocked now s p)\<lparr>dirty := True\<rparr>
          else p)"

end
