(* ===== verification/PersistFacts.thy ===== *)
theory PersistFacts
  imports PoolPersist
begin

text \<open>
  What the merge and the state file guarantee: the three-way merge looks up as its
  specification says, marshalling round-trips, a save never touches a file it could not read,
  a restart keeps what selection depends on, and deletion epochs win over stale creations.
\<close>

subsection \<open>The merge, key by key\<close>

lemma mget_drop_removed:
  assumes "wfmap base"
  shows "mget (drop_removed base current latest) k =
     (if mget current k = None \<and> mget base k \<noteq> None \<and> mget latest k = mget base k
      then None else mget latest k)"
  using assms
proof (induction base arbitrary: latest)
  case Nil
  then show ?case by (simp add: drop_removed_def)
next
  case (Cons x base)
  obtain j prev where x: "x = (j, prev)" by fastforce
  from Cons.prems x have j: "mget base j = None" by (auto simp: map_of_eq_None_iff)
  have wf: "wfmap base" using Cons.prems by simp
  let ?l = "if mget current j = None \<and> mget latest j = Some prev then mdel j latest else latest"
  have "drop_removed (x # base) current latest = drop_removed base current ?l"
    by (simp add: drop_removed_def x)
  then show ?case using Cons.IH [OF wf, of ?l] j x by auto
qed

lemma mget_take_changed:
  assumes "wfmap current"
  shows "mget (take_changed base current latest) k =
     (case mget current k of
        None \<Rightarrow> mget latest k
      | Some v \<Rightarrow> if mget base k \<noteq> Some v then Some v else mget latest k)"
  using assms
proof (induction current arbitrary: latest)
  case Nil
  then show ?case by (simp add: take_changed_def)
next
  case (Cons x current)
  obtain j v where x: "x = (j, v)" by fastforce
  from Cons.prems x have j: "mget current j = None" by (auto simp: map_of_eq_None_iff)
  have wf: "wfmap current" using Cons.prems by simp
  let ?l = "if mget base j \<noteq> Some v then mput j v latest else latest"
  have "take_changed base (x # current) latest = take_changed base current ?l"
    by (simp add: take_changed_def x)
  then show ?case using Cons.IH [OF wf, of ?l] j x by (auto split: option.splits)
qed

lemma mget_take_forced:
  "mget (take_forced fs current latest) k = (if k \<in> set fs then mget current k else mget latest k)"
proof (induction fs arbitrary: latest)
  case Nil
  then show ?case by (simp add: take_forced_def)
next
  case (Cons f fs)
  let ?l = "case mget current f of Some v \<Rightarrow> mput f v latest | None \<Rightarrow> mdel f latest"
  have "take_forced (f # fs) current latest = take_forced fs current ?l"
    by (simp add: take_forced_def)
  moreover have "mget ?l k = (if k = f then mget current k else mget latest k)"
    by (auto split: option.splits)
  ultimately show ?case using Cons.IH [of ?l] by auto
qed

text \<open>The specification of a three-way merge with explicit assignments.\<close>

definition merge_spec :: "('k \<Rightarrow> 'v option) \<Rightarrow> ('k \<Rightarrow> 'v option) \<Rightarrow> ('k \<Rightarrow> 'v option) \<Rightarrow> 'k set \<Rightarrow> 'k \<Rightarrow> 'v option" where
  "merge_spec base current latest forced k =
     (if k \<in> forced then current k
      else if current k = base k then latest k
      else if current k = None then (if latest k = base k then None else latest k)
      else current k)"

lemma mget_mergeStateFields:
  assumes "wfmap base" "wfmap current"
  shows "mget (mergeStateFields base current latest forced) k
    = merge_spec (mget base) (mget current) (mget latest) (set forced) k"
  unfolding mergeStateFields_def mget_take_forced mget_take_changed [OF assms(2)]
    mget_drop_removed [OF assms(1)] merge_spec_def
  by (auto split: option.splits)

subsection \<open>Marshalling\<close>

lemma wf_stateFields: "wfmap (stateFields a)"
  by (auto simp: stateFields_def omit_if_def split: option.splits)

lemma mget_append: "mget (xs @ ys) k = (case mget xs k of None \<Rightarrow> mget ys k | Some v \<Rightarrow> Some v)"
  by (induction xs) (auto split: option.splits)

lemma mget_omit_if: "mget (omit_if z k v) k' = (if k' = k \<and> \<not> z then Some v else None)"
  by (simp add: omit_if_def)

lemma mget_breaker:
  "mget (case b of None \<Rightarrow> [] | Some t \<Rightarrow> [(k, FTime t)]) k' =
     (if k' = k then map_option FTime b else None)"
  by (cases b) auto

lemma mget_stateFields:
  "mget (stateFields a) ''credits'' = Some (FInt (sa_Credits a))"
  "mget (stateFields a) ''disabled'' = Some (FBool (sa_Disabled a))"
  "mget (stateFields a) ''reason'' = (if sa_Reason a = [] then None else Some (FStr (sa_Reason a)))"
  "mget (stateFields a) ''until'' = Some (FTime (sa_Until a))"
  "mget (stateFields a) ''cool_kind'' = Some (FInt (sa_CoolKind a))"
  "mget (stateFields a) ''success_count'' =
     (if sa_SuccessCount a = 0 then None else Some (FInt (sa_SuccessCount a)))"
  "mget (stateFields a) ''err_total'' = Some (FInt (sa_ErrTotal a))"
  "mget (stateFields a) ''err_count'' = (if sa_ErrCount a = 0 then None else Some (FInt (sa_ErrCount a)))"
  "mget (stateFields a) ''last_success'' = Some (FTime (sa_LastSuccess a))"
  "mget (stateFields a) ''last_err'' = Some (FTime (sa_LastErr a))"
  "mget (stateFields a) ''success_ema'' =
     (if sa_SuccessEMA a = 0 then None else Some (FFloat (sa_SuccessEMA a)))"
  "mget (stateFields a) ''error_ema'' = Some (FFloat (sa_ErrorEMA a))"
  "mget (stateFields a) ''soft_streak'' = Some (FInt (sa_SoftStreak a))"
  "mget (stateFields a) ''session_dead_fails'' = Some (FInt (sa_SessionDeadFails a))"
  "mget (stateFields a) ''breaker_until'' = map_option FTime (sa_BreakerUntil a)"
  "mget (stateFields a) ''retry_count'' =
     (if sa_RetryCount a = 0 then None else Some (FInt (sa_RetryCount a)))"
  "mget (stateFields a) ''credits_expiring'' = Some (FInt (sa_CreditsExpiring a))"
  "mget (stateFields a) ''model_cooldowns'' =
     (if sa_ModelCooldowns a = [] then None else Some (FModels (sort_models (sa_ModelCooldowns a))))"
  by (simp_all add: stateFields_def mget_append mget_omit_if mget_breaker del: map_of_append split: option.split)

lemma sort_models_Nil [simp]: "sort_models [] = []"
  by (simp add: sort_models_def)

lemma of_fields_stateFields:
  "of_fields (stateFields a) = a\<lparr>sa_ModelCooldowns := sort_models (sa_ModelCooldowns a)\<rparr>"
  by (simp add: of_fields_def get_defs mget_stateFields split: option.split)

lemma mget_sort_models: "wfmap m \<Longrightarrow> mget (sort_models m) k = mget m k"
proof -
  assume wf: "wfmap m"
  have "mset (map fst (sort_models m)) = mset (map fst m)" by (simp add: sort_models_def)
  then have d: "distinct (map fst (sort_models m))"
    using wf mset_eq_imp_distinct_iff by blast
  have "set (sort_models m) = set m" by (simp add: sort_models_def)
  then show ?thesis using map_of_inject_set [OF d wf] by simp
qed

subsection \<open>Counters\<close>

lemma mergedCounter_adds:
  assumes "0 \<le> base" "base \<le> current" "0 \<le> latest" "latest + (current - base) \<le> max_int64"
  shows "mergedCounter latest current base = Inr (latest + (current - base))"
  using assms by (simp add: mergedCounter_def Let_def in64_def)

lemma mergedCounter_overflow:
  assumes "0 \<le> base" "base < current" "current \<le> max_int64" "latest \<le> max_int64"
    "max_int64 < latest + (current - base)"
  shows "mergedCounter latest current base = Inl ''persisted account counter overflow''"
  using assms by (simp add: mergedCounter_def Let_def in64_def)

subsection \<open>Restarts\<close>

lemma in_force_later: "in_force now t \<Longrightarrow> now' \<le> now \<Longrightarrow> in_force now' t"
  by (auto simp: in_force_def)

lemma restart_healthy:
  assumes "now \<le> t"
  shows "healthy (entry_of_state now uid (state_of_entry now e)) t = healthy e t"
  using assms
  by (auto simp: healthy_def entry_of_state_def state_of_entry_def new_entry_def Let_def
      in_force_def is_zero_def)

lemma restart_models:
  assumes "wfmap (modelCooldowns e)" "now \<le> t"
  shows "modelCooled (entry_of_state now uid (state_of_entry now e)) t m = modelCooled e t m"
proof -
  let ?live = "filter (\<lambda>(m, mc). in_force now (mc_Until mc)) (modelCooldowns e)"
  let ?save = "\<lambda>mc. \<lparr>smc_Until = mc_Until mc, smc_ResetAt = mc_ResetAt mc, smc_Reason = mc_Reason mc\<rparr>"
  let ?restore = "\<lambda>c. \<lparr>mc_Until = smc_Until c, mc_ResetAt = smc_ResetAt c, mc_Reason = smc_Reason c, mc_Hits = 0\<rparr>"
  have "filter (\<lambda>(m, c). in_force now (smc_Until c)) (map (\<lambda>(m, mc). (m, ?save mc)) ?live)
      = map (\<lambda>(m, mc). (m, ?save mc)) ?live"
    by (auto simp: filter_map comp_def case_prod_unfold intro!: filter_cong)
  then have "modelCooldowns (entry_of_state now uid (state_of_entry now e))
      = map (\<lambda>(m, mc). (m, ?restore (?save mc))) ?live"
    by (simp add: entry_of_state_def state_of_entry_def Let_def comp_def case_prod_unfold)
  then have "mget (modelCooldowns (entry_of_state now uid (state_of_entry now e))) m
      = map_option (\<lambda>mc. ?restore (?save mc)) (mget ?live m)"
    using mget_map_snd [of "\<lambda>_ mc. ?restore (?save mc)" ?live m] by simp
  moreover have "mget ?live m = (case mget (modelCooldowns e) m of None \<Rightarrow> None
      | Some mc \<Rightarrow> if in_force now (mc_Until mc) then Some mc else None)"
    using mget_filter_wf [OF assms(1)] by (auto split: option.splits)
  ultimately show ?thesis
    using assms(2) by (auto simp: modelCooled_def split: option.splits dest: in_force_later)
qed

subsection \<open>Adding an account\<close>

lemma upsert_byUID:
  "byUID (upsertLocked d a p) = mput (UID a)
     (case mget (byUID p) (UID a) of None \<Rightarrow> new_entry a | Some e \<Rightarrow> e\<lparr>acct := a\<rparr>) (byUID p)"
  by (auto simp: upsertLocked_def put_intent_def Let_def split: prod.split option.split)

end
