(* ===== verification/PoolMachine.thy ===== *)
theory PoolMachine
  imports PersistFacts
begin

text \<open>
  The pool as a state machine: its methods are the events, each one atomic under the pool's
  mutex. Two contracts are stated as locales: an operation that works on one account, and one that
  in addition never switches a disabled account on. Every operation is shown to meet the first,
  every operation except \<open>ReviveDisabled\<close> the second, and what follows from the contracts is
  proved once.
\<close>

subsection \<open>The contract of an operation on one account\<close>

locale account_method =
  fixes oper :: "string \<Rightarrow> pool \<Rightarrow> pool"
  assumes unknown_uid: "mget (byUID p) uid = None \<Longrightarrow> byUID (oper uid p) = byUID p"
    and known_uid: "mget (byUID p) uid = Some e \<Longrightarrow>
      \<exists>e'. byUID (oper uid p) = mput uid e' (byUID p) \<or> byUID (oper uid p) = byUID p \<and> e' = e"
    and keeps_account: "mget (byUID p) uid = Some e \<Longrightarrow> mget (byUID (oper uid p)) uid = Some e' \<Longrightarrow>
      acct e' = acct e"
    and keeps_models: "mget (byUID p) uid = Some e \<Longrightarrow> mget (byUID (oper uid p)) uid = Some e' \<Longrightarrow>
      wfmap (modelCooldowns e) \<Longrightarrow> wfmap (modelCooldowns e')"
begin

lemma cases_uid:
  obtains (none) "byUID (oper uid p) = byUID p"
    | (some) e e' where "mget (byUID p) uid = Some e" "byUID (oper uid p) = mput uid e' (byUID p)"
        "acct e' = acct e" "wfmap (modelCooldowns e) \<Longrightarrow> wfmap (modelCooldowns e')"
proof (cases "mget (byUID p) uid")
  case None
  then show thesis using none unknown_uid by blast
next
  case (Some e)
  then obtain e' where e': "byUID (oper uid p) = mput uid e' (byUID p) \<or> byUID (oper uid p) = byUID p \<and> e' = e"
    using known_uid by blast
  then show thesis
  proof
    assume u: "byUID (oper uid p) = mput uid e' (byUID p)"
    then have m: "mget (byUID (oper uid p)) uid = Some e'" by simp
    show thesis using some [OF Some u keeps_account [OF Some m]] keeps_models [OF Some m] by blast
  qed (use none in simp)
qed

lemma other_accounts: "v \<noteq> uid \<Longrightarrow> mget (byUID (oper uid p)) v = mget (byUID p) v"
  by (cases rule: cases_uid [of uid p]) auto

lemma same_accounts: "set (mkeys (byUID (oper uid p))) = set (mkeys (byUID p))"
proof (cases rule: cases_uid [of uid p])
  case (some e e')
  then have "uid \<in> set (mkeys (byUID p))" by (metis mget_None_keys option.distinct(1))
  then show ?thesis unfolding some(2) set_mkeys_mput by (rule insert_absorb)
qed simp

lemma keeps_wf:
  assumes "pool_wf p"
  shows "pool_wf (oper uid p)"
proof (cases rule: cases_uid [of uid p])
  case none
  then show ?thesis using assms by (simp add: pool_wf_def)
next
  case (some e e')
  from pool_wf_mget [OF assms some(1)] some(3,4)
  have "UID (acct e') = uid" "wfmap (modelCooldowns e')" by simp_all
  then show ?thesis using assms unfolding pool_wf_iff some(2) by simp
qed

end

locale quiet_method = account_method +
  assumes stays_off: "mget (byUID p) uid = Some e \<Longrightarrow> mget (byUID (oper uid p)) uid = Some e' \<Longrightarrow>
      disabled e \<Longrightarrow> disabled e'"
begin

lemma disabled_stays:
  assumes "mget (byUID p) v = Some e" "disabled e"
  shows "\<exists>e'. mget (byUID (oper uid p)) v = Some e' \<and> disabled e'"
proof (cases "v = uid")
  case True
  obtain e' where e': "mget (byUID (oper uid p)) uid = Some e'"
    using assms(1) True by (cases rule: cases_uid [of uid p]) auto
  then show ?thesis using stays_off [of p uid e e'] assms True by simp
next
  case False
  then show ?thesis using other_accounts assms by simp
qed

end

text \<open>
  The account invariant: counters do not go negative, the moving averages are fractions, three
  session failures or a full breaker count never stay behind, leases respect the limit.
\<close>

definition acct_inv :: "pool \<Rightarrow> entry \<Rightarrow> bool" where
  "acct_inv p e \<longleftrightarrow> wfmap (modelCooldowns e)
     \<and> 0 \<le> successCount e \<and> 0 \<le> errTotal e
     \<and> 0 \<le> successEMA e \<and> successEMA e \<le> 1 \<and> 0 \<le> errorEMA e \<and> errorEMA e \<le> 1
     \<and> 0 \<le> sessionDeadFails e \<and> sessionDeadFails e < sessionDeadThreshold
     \<and> 0 \<le> fails e \<and> fails e < breakerThreshold p
     \<and> 0 \<le> retryCount e \<and> 0 \<le> softStreak e
     \<and> 0 \<le> inFlight e \<and> (maxInFlight p > 0 \<longrightarrow> inFlight e \<le> maxInFlight p)
     \<and> (\<forall>m c. mget (modelCooldowns e) m = Some c \<longrightarrow> 0 \<le> mc_Hits c)"

definition same_settings :: "pool \<Rightarrow> pool \<Rightarrow> bool" where
  "same_settings p q \<longleftrightarrow> breakerThreshold q = breakerThreshold p \<and> maxInFlight q = maxInFlight p"

lemma acct_inv_settings: "same_settings p q \<Longrightarrow> acct_inv q e = acct_inv p e"
  by (simp add: same_settings_def acct_inv_def)

lemma acct_inv_wf: "acct_inv p e \<Longrightarrow> wfmap (modelCooldowns e)"
  by (simp add: acct_inv_def)

definition pool_inv :: "pool \<Rightarrow> bool" where
  "pool_inv p \<longleftrightarrow> pool_wf p \<and> 0 < breakerThreshold p
     \<and> (\<forall>uid e. mget (byUID p) uid = Some e \<longrightarrow> acct_inv p e)"

locale sound_method = account_method +
  assumes keeps_settings: "same_settings p (oper uid p)"
    and keeps_inv: "mget (byUID p) uid = Some e \<Longrightarrow> mget (byUID (oper uid p)) uid = Some e' \<Longrightarrow>
      0 < breakerThreshold p \<Longrightarrow> acct_inv p e \<Longrightarrow> acct_inv p e'"
begin

lemma keeps_pool_inv:
  assumes "pool_inv p"
  shows "pool_inv (oper uid p)"
proof -
  have "acct_inv p e'" if v: "mget (byUID (oper uid p)) v = Some e'" for v e'
  proof (cases rule: cases_uid [of uid p])
    case none
    then show ?thesis using that assms by (simp add: pool_inv_def)
  next
    case (some e e2)
    show ?thesis
    proof (cases "v = uid")
      case True
      then show ?thesis using keeps_inv [OF some(1), of e'] v assms some(1) by (simp add: pool_inv_def)
    next
      case False
      then show ?thesis using v other_accounts assms by (simp add: pool_inv_def)
    qed
  qed
  moreover have "pool_wf (oper uid p)" using assms keeps_wf by (simp add: pool_inv_def)
  ultimately show ?thesis
    using assms keeps_settings [of p uid] acct_inv_settings [OF keeps_settings [of p uid]]
    by (simp add: pool_inv_def same_settings_def)
qed

end

locale safe_method = quiet_method + sound_method

subsection \<open>Preservation, account by account\<close>

lemma breaker_inv:
  assumes "0 < breakerThreshold p" "acct_inv p e"
  shows "acct_inv p (recordBreakerFailureLocked now p e)"
  using assms by (simp add: recordBreakerFailureLocked_def acct_inv_def Let_def)

lemma cost_inv [simp]:
  "acct_inv p (learn_cost now m x e) = acct_inv p e" "acct_inv p (debit_entry c e) = acct_inv p e"
  by (simp_all add: learn_cost_def debit_entry_def Let_def acct_inv_def)

lemma acquire_inv:
  "acquire_inflight limit n = Some n' \<Longrightarrow> 0 \<le> n \<Longrightarrow> (limit > 0 \<longrightarrow> n \<le> limit) \<Longrightarrow>
   0 \<le> n' \<and> (limit > 0 \<longrightarrow> n' \<le> limit)"
  by (auto simp: acquire_inflight_def split: if_splits)

lemma release_inv:
  "release_inflight n = Some n' \<Longrightarrow> 0 \<le> n \<Longrightarrow> (limit > 0 \<longrightarrow> n \<le> limit) \<Longrightarrow>
   0 \<le> n' \<and> (limit > 0 \<longrightarrow> n' \<le> limit)"
  by (auto simp: release_inflight_def split: if_splits)

lemmas inv_defs = same_settings_def acct_inv_def

subsection \<open>The methods meet the contracts\<close>

lemmas method_split = option.splits if_splits prod.splits

text \<open>What each oper does to the account it is called on.\<close>

interpretation set_credits: safe_method "\<lambda>uid. SetCredits uid c" for c
  by unfold_locales (auto simp: SetCredits_def inv_defs split: option.splits if_splits)

interpretation set_credits_detailed: safe_method "\<lambda>uid. SetCreditsDetailed uid c x" for c x
  by unfold_locales (auto simp: SetCreditsDetailed_def Let_def inv_defs split: option.splits if_splits)

interpretation cooldown: safe_method "\<lambda>uid. Cooldown now uid k d why" for now k d why
  by unfold_locales (auto simp: Cooldown_def inv_defs split: option.splits if_splits)

interpretation cooldown_4am: safe_method "\<lambda>uid. CooldownUntilTomorrow4AM off now uid why" for off now why
  unfolding CooldownUntilTomorrow4AM_def by unfold_locales (auto simp: Cooldown_def inv_defs split: option.splits if_splits)

interpretation soft_model: safe_method "\<lambda>uid. CooldownSoftForModel now uid b t m why" for now b t m why
  by unfold_locales (auto simp: CooldownSoftForModel_def Let_def inv_defs split: option.splits if_splits)

interpretation soft_rate: safe_method "\<lambda>uid. CooldownSoftRate now uid b t why" for now b t why
  by unfold_locales (auto simp: CooldownSoftRate_def Let_def inv_defs split: option.splits if_splits)

interpretation block: safe_method "\<lambda>uid. BlockModelBackoff now uid m why" for now m why
  by unfold_locales (auto simp: BlockModelBackoff_def Let_def inv_defs split: option.splits if_splits)

interpretation block_clear: safe_method "\<lambda>uid. BlockModelClear uid m" for m
  by unfold_locales (auto simp: BlockModelClear_def inv_defs split: option.splits if_splits)

interpretation disable: safe_method "\<lambda>uid. Disable uid why" for why
  by unfold_locales (auto simp: Disable_def primitive_defs Let_def inv_defs split: option.splits if_splits)

interpretation session_dead: safe_method "\<lambda>uid p. fst (NoteSessionDead uid p)"
  by unfold_locales (auto simp: NoteSessionDead_def sessionDeadThreshold_def primitive_defs Let_def inv_defs split: option.splits if_splits)

interpretation clear_dead: safe_method ClearSessionDead
  by unfold_locales (auto simp: ClearSessionDead_def sessionDeadThreshold_def inv_defs split: option.splits if_splits)

interpretation reenable: safe_method "\<lambda>uid. ReenableIfCredits uid c" for c
  by unfold_locales (auto simp: ReenableIfCredits_def primitive_defs Let_def inv_defs split: option.splits if_splits)

interpretation revive: sound_method ReviveDisabled
  by unfold_locales (auto simp: ReviveDisabled_def sessionDeadThreshold_def inv_defs split: option.splits if_splits)

lemma breaker_frame [simp]:
  "acct (recordBreakerFailureLocked now p e) = acct e"
  "modelCooldowns (recordBreakerFailureLocked now p e) = modelCooldowns e"
  "disabled (recordBreakerFailureLocked now p e) = disabled e"
  by (simp_all add: recordBreakerFailureLocked_def Let_def)

interpretation note_error: safe_method "\<lambda>uid. NoteError now uid" for now
  by unfold_locales (auto simp: NoteError_def recordBreakerFailureLocked_def Let_def ema_up_range inv_defs split: option.splits if_splits)

interpretation note_success: safe_method "\<lambda>uid. NoteSuccess now uid" for now
  by unfold_locales (auto simp: NoteSuccess_def ema_up_range sessionDeadThreshold_def inv_defs split: option.splits if_splits)

lemma cost_frame [simp]:
  "acct (learn_cost now m x e) = acct e" "modelCooldowns (learn_cost now m x e) = modelCooldowns e"
  "disabled (learn_cost now m x e) = disabled e" "acct (debit_entry c e) = acct e"
  "modelCooldowns (debit_entry c e) = modelCooldowns e" "disabled (debit_entry c e) = disabled e"
  by (simp_all add: learn_cost_def debit_entry_def Let_def)

interpretation note_cost: safe_method "\<lambda>uid. NoteModelCost now uid m c t" for now m c t
  by unfold_locales (auto simp: NoteModelCost_def Let_def same_settings_def split: option.split if_splits)

interpretation acquire: safe_method "\<lambda>uid p. fst (Acquire uid p)"
  by unfold_locales (auto simp: Acquire_def acquire_inflight_def inv_defs split: option.splits if_splits)

interpretation release: safe_method Release
  by unfold_locales (auto simp: Release_def release_inflight_def inv_defs split: option.splits if_splits)

interpretation pick_uid: safe_method "\<lambda>uid p. fst (PickByUIDForModel now uid m p)" for now m
  by unfold_locales (auto simp: PickByUIDForModel_def mark_used_def Let_def inFlightFull_def inv_defs split: option.splits if_splits)

subsection \<open>Selections\<close>

text \<open>A selection never changes more than the expired cooldowns and the use marks of an account.\<close>

definition same_but_use :: "instant \<Rightarrow> entry \<Rightarrow> entry \<Rightarrow> bool" where
  "same_but_use now e e' \<longleftrightarrow>
     (\<exists>l u. e' = (pruneExpiredModelCooldowns now e)\<lparr>lastUsed := l, usedSeq := u\<rparr>)"

lemma same_but_use_prune: "same_but_use now e (pruneExpiredModelCooldowns now e)"
  unfolding same_but_use_def
  by (rule exI [of _ "lastUsed (pruneExpiredModelCooldowns now e)"],
      rule exI [of _ "usedSeq (pruneExpiredModelCooldowns now e)"]) simp

lemma same_but_use_mark:
  "same_but_use now e ((pruneExpiredModelCooldowns now e)\<lparr>lastUsed := l, usedSeq := u\<rparr>)"
  unfolding same_but_use_def by blast

lemma same_but_use_last: "same_but_use now e ((pruneExpiredModelCooldowns now e)\<lparr>lastUsed := l\<rparr>)"
  unfolding same_but_use_def
  by (rule exI [of _ l], rule exI [of _ "usedSeq (pruneExpiredModelCooldowns now e)"]) simp

lemma pick_shape:
  assumes wf: "pool_wf p"
    and shuf: "\<And>xs. mset (c_shuf ch xs) = mset xs"
  obtains (none) "byUID (fst (pick ch g now tried m r p)) = byUID (prune_all now p)"
      "snd (pick ch g now tried m r p) = None"
    | (one) v e e' where "mget (byUID p) v = Some e" "same_but_use now e e'"
      "byUID (fst (pick ch g now tried m r p)) = mput v e' (byUID (prune_all now p))"
      "snd (pick ch g now tried m r p) = Some (acct e)"
      "v \<notin> tried" "realmOK g r e" "\<not> disabled e" "\<not> modelCooled e now m" "\<not> inFlightFull p e"
      "healthy e now \<or>
       candidates g now tried m r (prune_all now p) = [] \<and> \<not> (coolKind e = CoolHard \<and> in_force now (until e))"
proof -
  have wf': "pool_wf (prune_all now p)" by (rule prune_all_wf [OF wf])
  have entry: "\<exists>e0. mget (byUID p) v = Some e0 \<and> e = pruneExpiredModelCooldowns now e0"
    if "(v, e) \<in> set (byUID (prune_all now p))" for v e
  proof -
    have "mget (byUID (prune_all now p)) v = Some e"
      using that wf_mget_iff [OF pool_wfD(1) [OF wf']] by blast
    then show ?thesis by (auto simp: mget_prune_all)
  qed
  have ok: "realmOK g r e = realmOK g r e0" "disabled e = disabled e0" "modelCooled e now m = modelCooled e0 now m"
    "inFlightFull p e = inFlightFull p e0" "healthy e now = healthy e0 now"
    "coolKind e = coolKind e0" "until e = until e0"  "acct e = acct e0"
    if "mget (byUID p) v = Some e0" "e = pruneExpiredModelCooldowns now e0" for v e e0
    using that pool_wf_mget(2) [OF wf that(1)] by (simp_all add: realmOK_def inFlightFull_def)
  show thesis
  proof (cases "candidates g now tried m r (prune_all now p) = []")
    case True
    note eq = pick_no_candidates [OF True]
    show thesis
    proof (cases "earliest now None (filter (fallback_ok g now tried m r (prune_all now p)) (byUID (prune_all now p)))")
      case None
      then show thesis using none by (simp add: eq pickEarliestExpiryLocked_def)
    next
      case (Some c)
      obtain v e where c: "c = (v, e)" by fastforce
      have mem: "(v, e) \<in> set (byUID (prune_all now p))" "fallback_ok g now tried m r (prune_all now p) (v, e)"
        using earliest_mem [OF Some] c by auto
      obtain e0 where e0: "mget (byUID p) v = Some e0" "e = pruneExpiredModelCooldowns now e0"
        using entry [OF mem(1)] by blast
      show thesis
        using one [OF e0(1) same_but_use_last [of now e0 now]] fallback_okD [OF mem(2)] ok [OF e0] True
        by (simp add: eq pickEarliestExpiryLocked_def Some c e0(2) [symmetric])
    qed
  next
    case False
    have fin: thesis if mem: "c \<in> set (candidates g now tried m r (prune_all now p))"
      and b: "byUID q = byUID (prune_all now p)" and r: "pick ch g now tried m r p = (mark_used now c q, Some (acct (snd c)))" for c q
    proof -
      obtain v e where c: "c = (v, e)" by fastforce
      from mem have m: "(v, e) \<in> set (byUID (prune_all now p))" "v \<notin> tried" "realmOK g r e"
        "healthyForModel e now m" "\<not> inFlightFull p e" by (simp_all add: c candidates_iff)
      obtain e0 where e0: "mget (byUID p) v = Some e0" "e = pruneExpiredModelCooldowns now e0"
        using entry [OF m(1)] by blast
      show thesis
        using one [OF e0(1) same_but_use_mark [where u = "Suc (pickSeq q)" and l = now]] m ok [OF e0] b
        by (simp add: r mark_used_def Let_def c healthyForModel_iff e0(2) [symmetric] healthy_iff)
    qed
    show thesis using pick_cases [OF False shuf] fin by metis
  qed
qed

end
