(* ===== verification/PoolRun.thy ===== *)
theory PoolRun
  imports PoolMachine
begin

text \<open>
  Runs of the pool: the events as a datatype, the step relation, reachable pools, and what
  holds along every run.
\<close>

datatype event =
    ESetCredits string int
  | ESetCreditsDetailed string int int
  | ECooldown instant string CoolKind duration string
  | ECooldown4AM duration instant string string
  | ESoftModel instant string duration instant string string
  | ESoftRate instant string duration instant string
  | EBlock instant string string string
  | EBlockClear string string
  | EDisable string string
  | ESessionDead string
  | EClearDead string
  | ERevive string
  | EReenable string int
  | EError instant string
  | ESuccess instant string
  | ECost instant string string float64 int
  | EAcquire string
  | ERelease string
  | EPickUID instant string string
  | EPick chance bool instant "string set" string string
  | EAdd disk auth

fun exec :: "event \<Rightarrow> pool \<Rightarrow> pool" where
  "exec (ESetCredits uid c) p = SetCredits uid c p"
| "exec (ESetCreditsDetailed uid c x) p = SetCreditsDetailed uid c x p"
| "exec (ECooldown now uid k d why) p = Cooldown now uid k d why p"
| "exec (ECooldown4AM off now uid why) p = CooldownUntilTomorrow4AM off now uid why p"
| "exec (ESoftModel now uid b t m why) p = CooldownSoftForModel now uid b t m why p"
| "exec (ESoftRate now uid b t why) p = CooldownSoftRate now uid b t why p"
| "exec (EBlock now uid m why) p = BlockModelBackoff now uid m why p"
| "exec (EBlockClear uid m) p = BlockModelClear uid m p"
| "exec (EDisable uid why) p = Disable uid why p"
| "exec (ESessionDead uid) p = fst (NoteSessionDead uid p)"
| "exec (EClearDead uid) p = ClearSessionDead uid p"
| "exec (ERevive uid) p = ReviveDisabled uid p"
| "exec (EReenable uid c) p = ReenableIfCredits uid c p"
| "exec (EError now uid) p = NoteError now uid p"
| "exec (ESuccess now uid) p = NoteSuccess now uid p"
| "exec (ECost now uid m c t) p = NoteModelCost now uid m c t p"
| "exec (EAcquire uid) p = fst (Acquire uid p)"
| "exec (ERelease uid) p = Release uid p"
| "exec (EPickUID now uid m) p = fst (PickByUIDForModel now uid m p)"
| "exec (EPick ch g now tried m r) p = fst (pick ch g now tried m r p)"
| "exec (EAdd d a) p = Add d a p"

text \<open>The one thing assumed of the randomness: a shuffle permutes.\<close>

definition fair :: "event \<Rightarrow> bool" where
  "fair ev = (case ev of EPick ch _ _ _ _ _ \<Rightarrow> \<forall>xs. mset (c_shuf ch xs) = mset xs | _ \<Rightarrow> True)"

inductive pool_step :: "pool \<Rightarrow> pool \<Rightarrow> bool" where
  "fair ev \<Longrightarrow> pool_step p (exec ev p)"

inductive pool_reachable :: "pool \<Rightarrow> pool \<Rightarrow> bool" for p0 where
  start: "pool_reachable p0 p0"
| step: "pool_reachable p0 p \<Longrightarrow> pool_step p q \<Longrightarrow> pool_reachable p0 q"

inductive_cases pool_stepE: "pool_step p q"

subsection \<open>Adding accounts and selecting\<close>

lemma put_intent_frame [simp]:
  "byUID (put_intent uid i p) = byUID p" "breakerThreshold (put_intent uid i p) = breakerThreshold p"
  "maxInFlight (put_intent uid i p) = maxInFlight p"
  by (simp_all add: put_intent_def)

lemma Add_byUID:
  "byUID (Add d a p) = mput (UID a)
     (case mget (byUID p) (UID a) of None \<Rightarrow> new_entry a | Some e \<Rightarrow> e\<lparr>acct := a\<rparr>) (byUID p)"
  by (simp add: Add_def upsert_byUID)

lemma Add_settings: "same_settings p (Add d a p)"
  by (auto simp: same_settings_def Add_def upsertLocked_def Let_def split: prod.split option.split)

lemma new_entry_inv: "0 < breakerThreshold p \<Longrightarrow> acct_inv p (new_entry a)"
  by (simp add: acct_inv_def new_entry_def sessionDeadThreshold_def)

lemma acct_inv_acct [simp]: "acct_inv p (e\<lparr>acct := a\<rparr>) = acct_inv p e"
  by (simp add: acct_inv_def)

lemma pool_inv_intro:
  assumes "pool_inv p" "same_settings p q" "wfmap (byUID q)"
    "\<And>uid e. mget (byUID q) uid = Some e \<Longrightarrow> UID (acct e) = uid \<and> acct_inv p e"
  shows "pool_inv q"
  unfolding pool_inv_def pool_wf_iff acct_inv_settings [OF assms(2)]
  using assms(1-3) assms(4) [THEN conjunct1] assms(4) [THEN conjunct2] acct_inv_wf
  by (simp add: pool_inv_def same_settings_def) blast

lemma Add_inv:
  assumes "pool_inv p"
  shows "pool_inv (Add d a p)"
proof (rule pool_inv_intro [OF assms Add_settings])
  have wf: "pool_wf p" "0 < breakerThreshold p"
    and inv: "mget (byUID p) uid = Some e \<Longrightarrow> acct_inv p e" for uid e
    using assms by (simp_all add: pool_inv_def)
  show "wfmap (byUID (Add d a p))" using wf by (simp add: Add_byUID pool_wf_def)
  show "UID (acct e) = uid \<and> acct_inv p e" if "mget (byUID (Add d a p)) uid = Some e" for uid e
    using that inv pool_wf_mget(1) [OF wf(1)] new_entry_inv [OF wf(2)]
    by (cases "mget (byUID p) (UID a)") (auto simp: Add_byUID new_entry_def split: if_splits)
qed

lemma same_but_use_inv:
  assumes "same_but_use now e e'" "acct_inv p e"
  shows "acct_inv p e'"
  using assms
  by (auto simp: same_but_use_def acct_inv_def prune_eq mget_filter_wf split: option.splits if_splits)

lemma explore_threshold [simp]:
  "breakerThreshold (fst (exploreUnknownLocked sha z us m r p)) = breakerThreshold p"
  by (auto simp: exploreUnknownLocked_def Let_def split: option.splits prod.splits)

lemma prune_all_threshold [simp]: "breakerThreshold (prune_all now p) = breakerThreshold p"
  by (simp add: prune_all_def)

lemma pick_settings: "same_settings p (fst (pick ch g now tried m r p))"
  by (auto simp: same_settings_def pick_def Let_def mark_used_def pickEarliestExpiryLocked_def
      split: prod.splits option.splits if_splits)
    (metis explore_threshold explore_frame(3) prune_all_threshold prune_all_frame(1) fst_conv)+

text \<open>Entry by entry, a selection changes no more than \<open>same_but_use\<close> says.\<close>

lemma pick_entries:
  assumes "pool_wf p" "\<And>xs. mset (c_shuf ch xs) = mset xs"
    and "mget (byUID (fst (pick ch g now tried m r p))) v = Some e'"
  shows "\<exists>e. mget (byUID p) v = Some e \<and> same_but_use now e e'"
  by (rule pick_shape [OF assms(1,2), of g now tried m r])
    (use assms(3) same_but_use_prune in \<open>auto simp: mget_prune_all split: if_splits\<close>)

lemma pick_wf_map:
  assumes "pool_wf p" "\<And>xs. mset (c_shuf ch xs) = mset xs"
  shows "wfmap (byUID (fst (pick ch g now tried m r p)))"
  using prune_all_wf [OF assms(1)]
  by (cases rule: pick_shape [OF assms, of g now tried m r]) (simp_all add: pool_wf_def)

lemma same_but_use_frame:
  assumes "same_but_use now e e'"
  shows "acct e' = acct e" "disabled e' = disabled e"
  using assms by (auto simp: same_but_use_def)

lemma pick_inv:
  assumes "pool_inv p" "\<And>xs. mset (c_shuf ch xs) = mset xs"
  shows "pool_inv (fst (pick ch g now tried m r p))"
proof (rule pool_inv_intro [OF assms(1) pick_settings])
  have wf: "pool_wf p" using assms(1) by (simp add: pool_inv_def)
  show "wfmap (byUID (fst (pick ch g now tried m r p)))" by (rule pick_wf_map [OF wf assms(2)])
  show "UID (acct e) = uid \<and> acct_inv p e"
    if "mget (byUID (fst (pick ch g now tried m r p))) uid = Some e" for uid e
    using pick_entries [OF wf assms(2) that] same_but_use_inv same_but_use_frame(1) assms(1)
      pool_wf_mget(1) [OF wf]
    by (metis pool_inv_def)
qed

subsection \<open>The invariant on every reachable pool\<close>

lemmas method_invs = set_credits.keeps_pool_inv set_credits_detailed.keeps_pool_inv
  cooldown.keeps_pool_inv cooldown_4am.keeps_pool_inv soft_model.keeps_pool_inv
  soft_rate.keeps_pool_inv block.keeps_pool_inv block_clear.keeps_pool_inv disable.keeps_pool_inv
  session_dead.keeps_pool_inv clear_dead.keeps_pool_inv revive.keeps_pool_inv
  reenable.keeps_pool_inv note_error.keeps_pool_inv note_success.keeps_pool_inv
  note_cost.keeps_pool_inv acquire.keeps_pool_inv release.keeps_pool_inv pick_uid.keeps_pool_inv

lemma exec_inv: "pool_inv p \<Longrightarrow> fair ev \<Longrightarrow> pool_inv (exec ev p)"
  by (cases ev) (simp_all add: method_invs Add_inv pick_inv fair_def)

lemma reachable_inv:
  assumes "pool_reachable p0 p" "pool_inv p0"
  shows "pool_inv p"
  using assms by (induction rule: pool_reachable.induct) (auto elim!: pool_stepE intro: exec_inv)

subsection \<open>Disabled accounts stay disabled\<close>

lemmas method_offs = set_credits.disabled_stays set_credits_detailed.disabled_stays
  cooldown.disabled_stays cooldown_4am.disabled_stays soft_model.disabled_stays
  soft_rate.disabled_stays block.disabled_stays block_clear.disabled_stays disable.disabled_stays
  session_dead.disabled_stays clear_dead.disabled_stays reenable.disabled_stays
  note_error.disabled_stays note_success.disabled_stays note_cost.disabled_stays
  acquire.disabled_stays release.disabled_stays pick_uid.disabled_stays

definition is_off :: "string \<Rightarrow> pool \<Rightarrow> bool" where
  "is_off uid p \<longleftrightarrow> (\<exists>e. mget (byUID p) uid = Some e \<and> disabled e)"

lemma is_off_Add: "is_off uid p \<Longrightarrow> is_off uid (Add d a p)"
  by (auto simp: is_off_def Add_byUID)

lemma is_off_revive: "is_off uid p \<Longrightarrow> v \<noteq> uid \<Longrightarrow> is_off uid (ReviveDisabled v p)"
  by (simp add: is_off_def revive.other_accounts)

lemma is_off_pick:
  assumes "is_off uid p" "pool_wf p" "\<And>xs. mset (c_shuf ch xs) = mset xs"
  shows "is_off uid (fst (pick ch g now tried m r p))"
proof -
  obtain e where e: "mget (byUID p) uid = Some e" "disabled e" using assms(1) by (auto simp: is_off_def)
  have "mget (byUID (fst (pick ch g now tried m r p))) uid \<noteq> None"
    using e(1)
    by (cases rule: pick_shape [OF assms(2,3), of g now tried m r]) (simp_all add: mget_prune_all)
  then show ?thesis
    using pick_entries [OF assms(2,3)] e same_but_use_frame(2) by (fastforce simp: is_off_def)
qed

lemma exec_off:
  assumes "is_off uid p" "pool_wf p" "fair ev" "ev \<noteq> ERevive uid"
  shows "is_off uid (exec ev p)"
proof (cases ev)
  case (EPick ch g now tried m r)
  with assms show ?thesis by (simp add: is_off_pick fair_def)
next
  case (ERevive v)
  with assms show ?thesis by (simp add: is_off_revive)
qed (use assms method_offs in \<open>simp_all add: is_off_def is_off_Add [unfolded is_off_def]\<close>, (blast intro: method_offs)+)

end
