(* ===== verification/PoolProps.thy ===== *)
theory PoolProps
  imports PoolRun
begin

text \<open>
  The properties of the pool: what a selection returns and when, the cooldown and breaker
  rules, disabling, and the invariant of every run.
\<close>

subsection \<open>Concrete pools for the witnesses\<close>

definition demo_chance :: chance where
  "demo_chance = \<lparr>c_sha = (\<lambda>s. s), c_zero = [], c_rnd = (\<lambda>n. 0), c_shuf = (\<lambda>ws. ws)\<rparr>"

definition demo_auth :: "string \<Rightarrow> auth" where
  "demo_auth u = empty_auth\<lparr>UID := u, AccessToken := ''t''\<rparr>"

definition demo_entry :: "string \<Rightarrow> entry" where
  "demo_entry u = (new_entry (demo_auth u))\<lparr>credits := 5\<rparr>"

text \<open>Three accounts: one cooling until 50, one disabled, one healthy.\<close>

definition demo_pool :: pool where
  "demo_pool = (New_pool ''state.json'')\<lparr>
     byUID := [(''a'', (demo_entry ''a'')\<lparr>until := 50, coolKind := CoolSoft\<rparr>),
               (''b'', (demo_entry ''b'')\<lparr>disabled := True\<rparr>),
               (''c'', demo_entry ''c'')],
     maxInFlight := 2\<rparr>"

lemmas demo_defs = demo_chance_def demo_auth_def demo_entry_def demo_pool_def New_pool_def
  new_entry_def empty_auth_def

lemma demo_wf: "pool_wf demo_pool"
  by (simp add: pool_wf_def demo_defs)

lemma demo_shuf: "mset (c_shuf demo_chance xs) = mset xs"
  by (simp add: demo_chance_def)

lemma demo_pool_inv: "pool_inv demo_pool"
  using demo_wf
  by (auto simp: pool_inv_def acct_inv_def demo_defs sessionDeadThreshold_def
      defaultBreakerThreshold_def split: if_splits)

lemma demo_pick: "snd (pick demo_chance True 10 {} ''m'' [] demo_pool) = Some (demo_auth ''c'')"
  by code_simp

lemma demo_pick_fallback:
  "snd (pick demo_chance True 10 {''c''} ''m'' [] demo_pool) = Some (demo_auth ''a'')"
  by code_simp

subsection \<open>What a selection returns\<close>

lemma candidates_prune_empty:
  "pool_wf p \<Longrightarrow> candidates g now tried m r (prune_all now p) = [] \<longleftrightarrow> candidates g now tried m r p = []"
proof -
  assume wf: "pool_wf p"
  have "(uid, e) \<in> set (candidates g now tried m r p) \<longleftrightarrow>
      (uid, pruneExpiredModelCooldowns now e) \<in> set (candidates g now tried m r (prune_all now p))"
    if "(uid, e) \<in> set (byUID p)" for uid e
    using that pool_wfD(3) [OF wf that]
    by (auto simp: candidates_iff prune_all_byUID realmOK_def inFlightFull_def healthyForModel_iff
        intro: rev_image_eqI)
  moreover have "\<exists>e0. (uid, e0) \<in> set (byUID p) \<and> e = pruneExpiredModelCooldowns now e0"
    if "(uid, e) \<in> set (candidates g now tried m r (prune_all now p))" for uid e
    using that by (auto simp: candidates_iff prune_all_byUID)
  moreover have "(uid, e) \<in> set (byUID p)" if "(uid, e) \<in> set (candidates g now tried m r p)" for uid e
    using that by (simp add: candidates_iff)
  ultimately have "set (candidates g now tried m r (prune_all now p)) = {}
      \<longleftrightarrow> set (candidates g now tried m r p) = {}"
    by (metis all_not_in_conv surj_pair)
  then show ?thesis by simp
qed

text \<open>
  C31: whatever the weights, the exploration state, the random draw and Go's map order, a
  selection only ever returns an account of the pool that was not tried, is in the requested
  realm, is not disabled, does not hold the requested model back and has a free slot; it is
  healthy, unless no account qualifies, and then it is at least not in a hard cooldown.
\<close>

theorem pick_returns_eligible:
  assumes "pool_wf p" "\<And>xs. mset (c_shuf ch xs) = mset xs"
    and "snd (pick ch g now tried m r p) = Some a"
  shows "\<exists>uid e. mget (byUID p) uid = Some e \<and> acct e = a \<and> uid \<notin> tried \<and> realmOK g r e
     \<and> \<not> disabled e \<and> \<not> modelCooled e now m \<and> \<not> inFlightFull p e
     \<and> (healthy e now \<or>
        candidates g now tried m r p = [] \<and> \<not> (coolKind e = CoolHard \<and> in_force now (until e)))"
  by (rule pick_shape [OF assms(1,2), of g now tried m r])
    (use assms(3) candidates_prune_empty [OF assms(1)] in auto)

lemma pick_returns_eligible_witness:
  "\<exists>uid e. mget (byUID demo_pool) uid = Some e \<and> acct e = demo_auth ''c'' \<and> uid \<notin> {} \<and> realmOK True [] e
     \<and> \<not> disabled e \<and> \<not> modelCooled e 10 ''m'' \<and> \<not> inFlightFull demo_pool e
     \<and> (healthy e 10 \<or>
        candidates True 10 {} ''m'' [] demo_pool = [] \<and> \<not> (coolKind e = CoolHard \<and> in_force 10 (until e)))"
  by (rule pick_returns_eligible [OF demo_wf demo_shuf demo_pick])

text \<open>
  C32: a selection comes back empty exactly when there is neither a candidate nor an account
  the fallback may probe.
\<close>

theorem pick_fails_iff:
  assumes "pool_wf p" "\<And>xs. mset (c_shuf ch xs) = mset xs"
  shows "snd (pick ch g now tried m r p) = None \<longleftrightarrow>
    candidates g now tried m r p = [] \<and> filter (fallback_ok g now tried m r p) (byUID p) = []"
proof (cases "candidates g now tried m r (prune_all now p) = []")
  case True
  have "fallback_ok g now tried m r (prune_all now p) (uid, pruneExpiredModelCooldowns now e)
      = fallback_ok g now tried m r p (uid, e)" if "(uid, e) \<in> set (byUID p)" for uid e
    using pool_wfD(3) [OF assms(1) that] by (simp add: fallback_ok_def inFlightFull_def)
  then have "filter (fallback_ok g now tried m r (prune_all now p)) (byUID (prune_all now p)) = []
      \<longleftrightarrow> filter (fallback_ok g now tried m r p) (byUID p) = []"
    by (force simp: prune_all_byUID filter_empty_conv)
  moreover have "snd (pick ch g now tried m r p) = None \<longleftrightarrow>
      earliest now None (filter (fallback_ok g now tried m r (prune_all now p)) (byUID (prune_all now p))) = None"
    by (auto simp: pick_no_candidates [OF True] pickEarliestExpiryLocked_def split: option.split prod.split)
  ultimately show ?thesis
    using True candidates_prune_empty [OF assms(1)] by (simp only: earliest_None simp_thms)
next
  case False
  have "snd (pick ch g now tried m r p) \<noteq> None"
    by (rule pick_cases [OF False assms(2)]) auto
  then show ?thesis using False candidates_prune_empty [OF assms(1)] by simp
qed

lemma pick_fails_iff_witness:
  "snd (pick demo_chance True 10 {''c''} ''m'' [] demo_pool) = None \<longleftrightarrow>
    candidates True 10 {''c''} ''m'' [] demo_pool = []
    \<and> filter (fallback_ok True 10 {''c''} ''m'' [] demo_pool) (byUID demo_pool) = []"
  by (rule pick_fails_iff [OF demo_wf demo_shuf])

text \<open>
  with candidates, the account returned is of the cheapest cost tier among them, except
  that an account of unknown cost may be explored while a free one is available.
\<close>

theorem pick_prefers_cheap:
  assumes "pool_wf p" "\<And>xs. mset (c_shuf ch xs) = mset xs"
    and "c \<in> set (candidates g now tried m r (prune_all now p))"
  shows "\<exists>uid e. mget (byUID (prune_all now p)) uid = Some e
     \<and> snd (pick ch g now tried m r p) = Some (acct e)
     \<and> (fst (costTier m now e) \<le> fst (costTier m now (snd c))
        \<or> fst (costTier m now e) = 1 \<and> bestTierOf m now (candidates g now tried m r (prune_all now p)) = 0)"
proof -
  let ?cs = "candidates g now tried m r (prune_all now p)"
  have mem: "mget (byUID (prune_all now p)) uid = Some e" if "(uid, e) \<in> set ?cs" for uid e
    using that wf_mget_iff pool_wfD(1) [OF prune_all_wf [OF assms(1)]] by (fastforce simp: candidates_iff)
  have ne: "?cs \<noteq> []" using assms(3) by auto
  show ?thesis
  proof (rule pick_cases [OF ne assms(2)])
    fix d p1
    assume "d \<in> set ?cs" "fst (costTier m now (snd d)) = 1" "bestTierOf m now ?cs = 0"
      "pick ch g now tried m r p = (mark_used now d p1, Some (acct (snd d)))"
    then show ?thesis using mem [of "fst d" "snd d"]
      by (intro exI [of _ "fst d"] exI [of _ "snd d"]) simp
  next
    fix d p1
    assume "d \<in> set ?cs" "fst (costTier m now (snd d)) = bestTierOf m now ?cs"
      "pick ch g now tried m r p = (mark_used now d p1, Some (acct (snd d)))"
    then show ?thesis using mem [of "fst d" "snd d"] bestTierOf_le [OF assms(3), of m now]
      by (intro exI [of _ "fst d"] exI [of _ "snd d"]) simp
  qed
qed

lemma pick_prefers_cheap_witness:
  "\<exists>uid e. mget (byUID (prune_all 10 demo_pool)) uid = Some e
     \<and> snd (pick demo_chance True 10 {} ''m'' [] demo_pool) = Some (acct e)
     \<and> (fst (costTier ''m'' 10 e) \<le> fst (costTier ''m'' 10 (demo_entry ''c''))
        \<or> fst (costTier ''m'' 10 e) = 1
          \<and> bestTierOf ''m'' 10 (candidates True 10 {} ''m'' [] (prune_all 10 demo_pool)) = 0)"
proof -
  have "(''c'', demo_entry ''c'') \<in> set (candidates True 10 {} ''m'' [] (prune_all 10 demo_pool))"
    by code_simp
  from pick_prefers_cheap [OF demo_wf demo_shuf this] show ?thesis by simp
qed

subsection \<open>Order and shuffle do not matter\<close>

text \<open>Weights read two settings of the pool only.\<close>

lemma weigh_cong:
  assumes "idleWeightMax q = idleWeightMax p" "idleWeightPerHour q = idleWeightPerHour p"
  shows "weigh q m now x = weigh p m now x"
proof (rule ext)
  fix c
  have "idle_weight q e now = idle_weight p e now" for e
    unfolding idle_weight_def assms ..
  then show "weigh q m now x c = weigh p m now x c" by (simp add: weigh_def weightOf_def)
qed

lemma weigh_explore [simp]:
  "weigh (fst (exploreUnknownLocked sha z us m r p)) m' now x = weigh p m' now x"
  by (rule weigh_cong) simp_all

lemma explore_order:
  assumes "set us' = set us" "inj_on cand_uid (set us)"
  shows "snd (exploreUnknownLocked sha z us' m r (p\<lparr>byUID := b\<rparr>)) = snd (exploreUnknownLocked sha z us m r p)"
proof (cases "us = []")
  case True
  then show ?thesis
    using assms(1) by (simp add: exploreUnknownLocked_def Let_def split: option.splits)
next
  case False
  then have ne: "us' \<noteq> []" using assms(1) by auto
  have st: "scope_state sha m r (p\<lparr>byUID := b\<rparr>) = scope_state sha m r p"
    by (simp add: scope_state_def)
  note x = explore_result [OF False, where p = p and sha = sha and z = z and m = m and r = r]
  note y = explore_result [OF ne, where p = "p\<lparr>byUID := b\<rparr>" and sha = sha and z = z and m = m and r = r,
    unfolded st assms(1)]
  show ?thesis
  proof (cases "snd (exploreUnknownLocked sha z us m r p)")
    case None
    then show ?thesis using x y by (auto split: option.splits)
  next
    case (Some c)
    note c = this
    show ?thesis
    proof (cases "snd (exploreUnknownLocked sha z us' m r (p\<lparr>byUID := b\<rparr>))")
      case None
      then show ?thesis using c x y by simp
    next
      case (Some d)
      then have "cyclic_next (cursor (scope_state sha m r p)) (set us) d" using y by simp
      moreover have "cyclic_next (cursor (scope_state sha m r p)) (set us) c" using c x by simp
      ultimately show ?thesis using cyclic_next_unique [OF assms(2)] c Some by simp
    qed
  qed
qed

lemma candidates_inj:
  assumes "pool_wf p"
  shows "inj_on cand_uid (set (candidates g now tried m r p))"
proof (rule inj_onI)
  fix x y
  assume "x \<in> set (candidates g now tried m r p)" "y \<in> set (candidates g now tried m r p)"
    and eq: "cand_uid x = cand_uid y"
  then have "(fst x, snd x) \<in> set (byUID p)" "(fst y, snd y) \<in> set (byUID p)"
    by (simp_all add: candidates_def)
  then have k: "fst x = fst y" "mget (byUID p) (fst x) = Some (snd x)" "mget (byUID p) (fst y) = Some (snd y)"
    using pool_wfD(1,2) [OF assms] wf_mget_iff eq by metis+
  then show "x = y" by (simp add: prod_eq_iff)
qed

lemma tier_list_order:
  assumes "mset cs' = mset cs" "cs \<noteq> []"
    "\<And>x. weigh q m now x = weigh p m now x"
  shows "mset (tier_list q m now cs') = mset (tier_list p m now cs)"
proof -
  have s: "set cs' = set cs" using assms(1) by (rule mset_eq_setD)
  then have "cs' \<noteq> []" using assms(2) by auto
  then show ?thesis
    using assms s by (simp add: tier_list_def bestTierOf_eq maxCreditsOf_eq)
qed

text \<open>
  with candidates the outcome of a selection depends neither on the order in which Go
  visits the map nor on the shuffle before the ranking: exploration takes the next uid in
  cyclic order and the ranking ends in the uid, so both are total orders. The shuffle
  therefore does not spread load among equal accounts.
\<close>

theorem pick_order_irrelevant:
  assumes "pool_wf p" "same_map (byUID p) b"
    and "\<And>xs. mset (c_shuf ch xs) = mset xs" "\<And>xs. mset (f xs) = mset xs"
    and "candidates g now tried m r (prune_all now p) \<noteq> []"
  shows "snd (pick (ch\<lparr>c_shuf := f\<rparr>) g now tried m r (p\<lparr>byUID := b\<rparr>)) = snd (pick ch g now tried m r p)"
proof -
  let ?p = "prune_all now p" and ?q = "prune_all now (p\<lparr>byUID := b\<rparr>)"
  let ?cs = "candidates g now tried m r ?p" and ?ds = "candidates g now tried m r ?q"
  let ?us = "\<lambda>cs. filter (\<lambda>c. fst (costTier m now (snd c)) = 1) (cs :: cand list)"
  have "mset b = mset (byUID p)"
    using assms(2) unfolding same_map_def
    by (metis distinct_map set_eq_iff_mset_eq_distinct)
  then have ms: "mset ?ds = mset ?cs"
    by (simp add: candidates_def prune_all_byUID realmOK_def inFlightFull_def del: mset_map flip: mset_map)
      (simp add: mset_map)
  have s: "set ?ds = set ?cs" using ms by (rule mset_eq_setD)
  have ne: "?ds \<noteq> []" using assms(5) s by auto
  have inj: "inj_on cand_uid (set ?cs)" by (rule candidates_inj [OF prune_all_wf [OF assms(1)]])
  have q: "?q = ?p\<lparr>byUID := byUID ?q\<rparr>" by (simp add: prune_all_def)
  have b: "bestTierOf m now ?ds = bestTierOf m now ?cs"
    by (simp add: bestTierOf_eq [OF ne] bestTierOf_eq [OF assms(5)] s)
  have us: "set (?us ?ds) = set (?us ?cs)" "?us ?ds = [] \<longleftrightarrow> ?us ?cs = []"
    using s by (auto simp: filter_empty_conv)
  have ex: "snd (exploreUnknownLocked (c_sha ch) (c_zero ch) (?us ?ds) m r ?q)
      = snd (exploreUnknownLocked (c_sha ch) (c_zero ch) (?us ?cs) m r ?p)"
    by (subst q, rule explore_order [OF us(1)]) (rule inj_on_subset [OF inj], auto)
  have w: "weigh ?q m now x = weigh ?p m now x" for x
    by (rule weigh_cong) (simp_all add: prune_all_def)
  have rank: "rank_cands f' (tier_list q2 m now cs) = sort_key sort_rank (tier_list ?p m now ?cs)"
    if "\<And>xs. mset (f' xs) = mset xs" "mset cs = mset ?cs" "\<And>x. weigh q2 m now x = weigh ?p m now x"
    for f' q2 cs
  proof -
    have t: "mset (tier_list q2 m now cs) = mset (tier_list ?p m now ?cs)"
      using that(2,3) assms(5) by (intro tier_list_order)
    have "distinct_uids (tier_list ?p m now ?cs)"
      unfolding distinct_uids_def
    proof (rule inj_onI)
      fix v w
      assume "v \<in> set (tier_list ?p m now ?cs)" "w \<in> set (tier_list ?p m now ?cs)"
        and eq: "cand_uid (we_c v) = cand_uid (we_c w)"
      then obtain c d where cd: "c \<in> set ?cs" "v = weigh ?p m now (maxCreditsOf ?cs) c"
          "d \<in> set ?cs" "w = weigh ?p m now (maxCreditsOf ?cs) d"
        unfolding tier_list_mem by blast
      then have "c = d" using inj_onD [OF inj] eq by (simp add: weigh_def)
      then show "v = w" using cd by simp
    qed
    moreover from this have "distinct_uids (tier_list q2 m now cs)"
      using mset_eq_setD [OF t] by (simp add: distinct_uids_def)
    ultimately show ?thesis
      using rank_cands_shuffle [OF _ that(1)] sort_key_perm [OF t] distinct_uids_rank by metis
  qed
  let ?x = "exploreUnknownLocked (c_sha ch) (c_zero ch) (?us ?cs) m r ?p"
  let ?y = "exploreUnknownLocked (c_sha ch) (c_zero ch) (?us ?ds) m r ?q"
  have "snd (pick ch g now tried m r p) =
      (case (if bestTierOf m now ?cs = 0 \<and> ?us ?cs \<noteq> [] then snd ?x else None) of
         Some c \<Rightarrow> Some (acct (snd c))
       | None \<Rightarrow> Some (acct (snd (choose_cand (c_rnd ch) now (sort_key sort_rank (tier_list ?p m now ?cs))))))"
    using assms(5) rank [OF assms(3), of ?cs ?p] rank [OF assms(3), of ?cs "fst ?x"]
    by (auto simp: pick_def Let_def tier_list_def [symmetric] split: option.split prod.split)
  moreover have "snd (pick (ch\<lparr>c_shuf := f\<rparr>) g now tried m r (p\<lparr>byUID := b\<rparr>)) =
      (case (if bestTierOf m now ?ds = 0 \<and> ?us ?ds \<noteq> [] then snd ?y else None) of
         Some c \<Rightarrow> Some (acct (snd c))
       | None \<Rightarrow> Some (acct (snd (choose_cand (c_rnd ch) now (sort_key sort_rank (tier_list ?p m now ?cs))))))"
    using ne rank [OF assms(4) ms, of ?q] rank [OF assms(4) ms, of "fst ?y"] w
    by (auto simp: pick_def Let_def tier_list_def [symmetric] split: option.split prod.split)
  ultimately show ?thesis using b us(2) ex by simp
qed

lemma pick_order_irrelevant_witness:
  "snd (pick (demo_chance\<lparr>c_shuf := rev\<rparr>) True 10 {} ''m'' [] (demo_pool\<lparr>byUID := rev (byUID demo_pool)\<rparr>))
     = snd (pick demo_chance True 10 {} ''m'' [] demo_pool)"
proof (rule pick_order_irrelevant [OF demo_wf _ demo_shuf])
  show "same_map (byUID demo_pool) (rev (byUID demo_pool))"
    using demo_wf by (simp add: same_map_def pool_wf_def rev_map [symmetric])
  show "candidates True 10 {} ''m'' [] (prune_all 10 demo_pool) \<noteq> []" by code_simp
qed simp

subsection \<open>Exploration\<close>

text \<open>
  in a scope that has just been explored, the next three selections with a free account at
  hand stay on it and the fourth takes the account of unknown cost that follows the last one
  explored, wrapping around; the counter then starts over with the cursor on that account.
\<close>

theorem explores_every_fourth:
  fixes sha z us m r
  defines "x \<equiv> exploreUnknownLocked sha z us m r"
  assumes "us \<noteq> []" "preferred (scope_state sha m r p) = 0"
  shows "snd (x p) = None \<and> snd (x (fst (x p))) = None \<and> snd (x (fst (x (fst (x p))))) = None
    \<and> (\<exists>c. snd (x (fst (x (fst (x (fst (x p))))))) = Some c
          \<and> cyclic_next (cursor (scope_state sha m r p)) (set us) c
          \<and> preferred (scope_state sha m r (fst (x (fst (x (fst (x (fst (x p))))))))) = 0
          \<and> cursor (scope_state sha m r (fst (x (fst (x (fst (x (fst (x p))))))))) = cand_uid c)"
proof -
  have r: "case snd (x q) of
        None \<Rightarrow> (preferred (scope_state sha m r q) + 1) mod 256 < 4
          \<and> preferred (scope_state sha m r (fst (x q))) = (preferred (scope_state sha m r q) + 1) mod 256
          \<and> cursor (scope_state sha m r (fst (x q))) = cursor (scope_state sha m r q)
      | Some c \<Rightarrow> 4 \<le> (preferred (scope_state sha m r q) + 1) mod 256
          \<and> cyclic_next (cursor (scope_state sha m r q)) (set us) c
          \<and> preferred (scope_state sha m r (fst (x q))) = 0
          \<and> cursor (scope_state sha m r (fst (x q))) = cand_uid c" for q
    unfolding x_def by (rule explore_result [OF assms(2)])
  have low: "snd (x q) = None \<and> preferred (scope_state sha m r (fst (x q))) = n + 1
      \<and> cursor (scope_state sha m r (fst (x q))) = cursor (scope_state sha m r q)"
    if "preferred (scope_state sha m r q) = n" "n < 3" for q n
    using r [of q] that by (auto split: option.splits)
  have high: "\<exists>c. snd (x q) = Some c \<and> cyclic_next (cursor (scope_state sha m r q)) (set us) c
      \<and> preferred (scope_state sha m r (fst (x q))) = 0
      \<and> cursor (scope_state sha m r (fst (x q))) = cand_uid c"
    if "preferred (scope_state sha m r q) = 3" for q
    using r [of q] that by (auto split: option.splits)
  note a = low [OF assms(3)]
  have b: "preferred (scope_state sha m r (fst (x p))) = 1" using a by simp
  note b' = low [OF b]
  have c: "preferred (scope_state sha m r (fst (x (fst (x p))))) = 2" using b' by simp
  note c' = low [OF c]
  have d: "preferred (scope_state sha m r (fst (x (fst (x (fst (x p))))))) = 3" using c' by simp
  show ?thesis using a b' c' high [OF d] by simp
qed

lemma explores_every_fourth_witness:
  "let x = exploreUnknownLocked (\<lambda>s. s) [] [(''c'', demo_entry ''c'')] ''m'' []
   in snd (x (fst (x (fst (x (fst (x demo_pool))))))) = Some (''c'', demo_entry ''c'')"
proof -
  have "preferred (scope_state (\<lambda>s. s) ''m'' [] demo_pool) = 0"
    by (simp add: scope_state_def demo_defs)
  from explores_every_fourth [OF _ this, of "[(''c'', demo_entry ''c'')]" "[]"]
  obtain c where "snd (exploreUnknownLocked (\<lambda>s. s) [] [(''c'', demo_entry ''c'')] ''m'' []
      (fst (exploreUnknownLocked (\<lambda>s. s) [] [(''c'', demo_entry ''c'')] ''m'' []
      (fst (exploreUnknownLocked (\<lambda>s. s) [] [(''c'', demo_entry ''c'')] ''m'' []
      (fst (exploreUnknownLocked (\<lambda>s. s) [] [(''c'', demo_entry ''c'')] ''m'' [] demo_pool))))))) = Some c"
      "cyclic_next (cursor (scope_state (\<lambda>s. s) ''m'' [] demo_pool)) (set [(''c'', demo_entry ''c'')]) c"
    by auto
  then show ?thesis by (simp add: cyclic_next_def)
qed

subsection \<open>The fallback\<close>

text \<open>
  with no candidate, the account handed out is one the fallback may probe, and its
  cooldown ends no later than that of any other such account.
\<close>

theorem fallback_earliest:
  assumes "candidates g now tried m r (prune_all now p) = []"
    and "snd (pick ch g now tried m r p) = Some a"
    and "d \<in> set (byUID (prune_all now p))" "fallback_ok g now tried m r (prune_all now p) d"
  shows "\<exists>c \<in> set (byUID (prune_all now p)). a = acct (snd c)
    \<and> fallback_ok g now tried m r (prune_all now p) c \<and> expiry (snd c) now \<le> expiry (snd d) now"
proof -
  obtain c where c: "earliest now None (filter (fallback_ok g now tried m r (prune_all now p))
      (byUID (prune_all now p))) = Some c" "a = acct (snd c)"
    using assms(2) by (auto simp: pick_no_candidates [OF assms(1)] pickEarliestExpiryLocked_def
        split: option.splits prod.splits)
  then show ?thesis
    using earliest_mem [OF c(1)] earliest_min [OF c(1), of d] assms(3,4) by (intro bexI [of _ c]) auto
qed

lemma fallback_earliest_witness:
  "\<exists>c \<in> set (byUID (prune_all 10 demo_pool)). demo_auth ''a'' = acct (snd c)
    \<and> fallback_ok True 10 {''c''} ''m'' [] (prune_all 10 demo_pool) c \<and> expiry (snd c) 10 \<le> 50"
proof -
  let ?d = "(''a'', pruneExpiredModelCooldowns 10 ((demo_entry ''a'')\<lparr>until := 50, coolKind := CoolSoft\<rparr>))"
  have a: "candidates True 10 {''c''} ''m'' [] (prune_all 10 demo_pool) = []" by code_simp
  have b: "?d \<in> set (byUID (prune_all 10 demo_pool))" by (simp add: prune_all_byUID demo_pool_def)
  have c: "fallback_ok True 10 {''c''} ''m'' [] (prune_all 10 demo_pool) ?d" by code_simp
  have d: "expiry (snd ?d) 10 = 50" by code_simp
  from fallback_earliest [OF a demo_pick_fallback b c] show ?thesis by (simp only: d)
qed

subsection \<open>Sticky selection and availability\<close>

lemma mem_availableUIDs:
  "uid \<in> set (availableUIDsLocked g r h p) \<longleftrightarrow>
     (\<exists>e. (uid, e) \<in> set (byUID p) \<and> (r = [] \<or> Realm g (acct e) = r) \<and> h e \<and> \<not> inFlightFull p e)"
  by (force simp: availableUIDsLocked_def)

text \<open>
  selecting an account by uid for a model succeeds exactly for the uids that
  \<open>AvailableUIDsForModel\<close> lists, which is what lets a session keep the account it is bound to.
\<close>

theorem sticky_pick_iff_available:
  assumes "pool_wf p"
  shows "snd (PickByUIDForModel now uid m p) \<noteq> None \<longleftrightarrow> uid \<in> set (AvailableUIDsForModel g now m p)"
proof -
  have "uid \<in> set (AvailableUIDsForModel g now m p) \<longleftrightarrow>
      (\<exists>e. mget (byUID p) uid = Some e \<and> healthyForModel e now m \<and> \<not> inFlightFull p e)"
    using wf_mget_iff [OF pool_wfD(1) [OF assms]]
    by (simp add: AvailableUIDsForModel_def mem_availableUIDs)
  then show ?thesis by (auto simp: PickByUIDForModel_def split: option.split)
qed

lemma sticky_pick_iff_available_witness:
  "snd (PickByUIDForModel 10 ''c'' ''m'' demo_pool) \<noteq> None \<longleftrightarrow>
   ''c'' \<in> set (AvailableUIDsForModel True 10 ''m'' demo_pool)"
  by (rule sticky_pick_iff_available [OF demo_wf])

text \<open>the counters of a realm add up, and the accounts without a free slot are healthy ones.\<close>

theorem counts_add_up:
  "cn_total (countsDetailedForRealm g now r p) =
     cn_healthy (countsDetailedForRealm g now r p) + cn_cooling (countsDetailedForRealm g now r p)
     + cn_disabled (countsDetailedForRealm g now r p)
   \<and> cn_full (countsDetailedForRealm g now r p) \<le> cn_healthy (countsDetailedForRealm g now r p)
   \<and> cn_total (countsDetailedForRealm g now r p) = length (filter (\<lambda>(uid, e). realmOK g r e) (byUID p))"
proof -
  have "cn_total (foldl (count_step g now r p) n es) + cn_healthy n + cn_cooling n + cn_disabled n =
       cn_total n + cn_healthy (foldl (count_step g now r p) n es)
       + cn_cooling (foldl (count_step g now r p) n es) + cn_disabled (foldl (count_step g now r p) n es)
     \<and> cn_full (foldl (count_step g now r p) n es) + cn_healthy n
         \<le> cn_healthy (foldl (count_step g now r p) n es) + cn_full n
     \<and> cn_total (foldl (count_step g now r p) n es)
         = cn_total n + length (filter (\<lambda>(uid, e). realmOK g r e) es)" for n es
  proof (induction es arbitrary: n)
    case Nil
    then show ?case by simp
  next
    case (Cons x es)
    show ?case
      using Cons.IH [of "count_step g now r p n x"]
      by (cases x) (auto simp: count_step_def realmOK_def Let_def split: if_splits)
  qed
  from this [of "\<lparr>cn_total = 0, cn_healthy = 0, cn_cooling = 0, cn_disabled = 0, cn_full = 0\<rparr>" "byUID p"]
  show ?thesis by (simp add: countsDetailedForRealm_def)
qed

subsection \<open>Cooldowns\<close>

text \<open>
  a model-level rate limit with a reset time holds back exactly that account for exactly
  that model: selection of the account for any other model, and of any other account, is as
  before, and the model comes back no later than the reset time (or the cap).
\<close>

theorem soft_model_isolates:
  assumes "mget (byUID p) uid = Some e" "\<not> is_zero t" "0 \<le> now" "m \<noteq> []"
  shows "\<exists>e'. mget (byUID (CooldownSoftForModel now uid b t m why p)) uid = Some e'
      \<and> modelCooled e' now m
      \<and> (\<forall>k x. k \<noteq> m \<longrightarrow> healthyForModel e' x k = healthyForModel e x k)
      \<and> (\<forall>x. x \<ge> max (now + millisecond) t \<longrightarrow> \<not> modelCooled e' x m)
      \<and> (\<forall>v x k. v \<noteq> uid \<longrightarrow> mget (byUID (CooldownSoftForModel now uid b t m why p)) v = mget (byUID p) v)"
proof -
  let ?u = "cappedSoftUntilLocked p now t"
  have "now < ?u" by (rule cappedSoftUntilLocked_future)
  moreover have "?u \<le> max (now + millisecond) t"
    by (auto simp: cappedSoftUntilLocked_def Let_def)
  ultimately show ?thesis
    using assms event_other(4) [of _ uid now b t m why p]
    unfolding mget_CooldownSoftForModel_reset [OF assms(1,2)]
    by (auto simp: healthyForModel_iff modelCooled_other modelCooled_def in_force_def is_zero_def zero_time_def)
qed

lemma soft_model_isolates_witness:
  "\<exists>e'. mget (byUID (CooldownSoftForModel 10 ''c'' 5 90 ''m'' ''6004'' demo_pool)) ''c'' = Some e'
     \<and> modelCooled e' 10 ''m''"
proof -
  have a: "mget (byUID demo_pool) ''c'' = Some (demo_entry ''c'')" "\<not> is_zero 90" "(0 :: int) \<le> 10"
    "''m'' \<noteq> []"
    by (simp_all add: demo_pool_def is_zero_def zero_time_def)
  from soft_model_isolates [OF a, of 5 "''6004''"] show ?thesis by blast
qed

text \<open>
  while a soft cooldown runs, further rate-limit reports without a reset time neither
  extend it nor raise the streak; the first report after it has run out raises the streak by
  one and cools for the doubled base, within the cap.
\<close>

theorem soft_rate_no_stacking:
  assumes "mget (byUID p) uid = Some e"
  shows "\<exists>e'. mget (byUID (CooldownSoftRate now uid b zero_time why p)) uid = Some e'
     \<and> (if coolKind e = CoolSoft \<and> now < until e
        then until e' = until e \<and> softStreak e' = softStreak e
        else softStreak e' = softStreak e + 1
          \<and> until e' = now + softDurationLocked p b (softStreak e + 1))
     \<and> coolKind e' = CoolSoft \<and> modelCooldowns e' = []"
  using assms by (simp add: CooldownSoftRate_def is_zero_def zero_time_def Let_def)

lemma soft_rate_no_stacking_witness:
  "\<exists>e'. mget (byUID (CooldownSoftRate 60 ''a'' 5 zero_time ''429'' demo_pool)) ''a'' = Some e'
     \<and> softStreak e' = 1 \<and> until e' = 65"
proof -
  let ?e = "(demo_entry ''a'')\<lparr>until := 50, coolKind := CoolSoft\<rparr>"
  have a: "mget (byUID demo_pool) ''a'' = Some ?e" by (simp add: demo_pool_def)
  have "softDurationLocked demo_pool 5 1 = 5" by (simp add: softDurationLocked_def)
  then show ?thesis
    using soft_rate_no_stacking [OF a, of 60 5 "''429''"] by (auto simp: demo_defs)
qed

text \<open>
  from a base of at most the cap, the soft cooldown of the n-th consecutive limit is the
  base doubled n-1 times (16 at most), cut at the cap; the 64-bit shift cannot overflow for any
  base up to 39 hours.
\<close>

theorem soft_duration_formula:
  assumes "0 < base" "base < 2 ^ 47" "base \<le> softRateMaxOr p" "0 \<le> streak"
  shows "softDurationLocked p base streak = min (base * 2 ^ nat (min 16 (max 0 (streak - 1)))) (softRateMaxOr p)"
proof (cases "1 < streak")
  case True
  then have "min (streak - 1) softStreakShiftMax = min 16 (max 0 (streak - 1))"
    by (simp add: softStreakShiftMax_def)
  then show ?thesis using softDurationLocked_exact [OF assms(1,2) True, of p] by simp
next
  case False
  then have "min 16 (max 0 (streak - 1)) = 0" by simp
  then show ?thesis using False assms(3) by (simp add: softDurationLocked_def)
qed

lemma soft_duration_formula_witness:
  "softDurationLocked demo_pool (30 * second) 4 = min (30 * second * 8) (softRateMaxOr demo_pool)"
  using soft_duration_formula [of "30 * second" demo_pool 4]
  by (simp add: softRateMaxOr_def demo_defs defaultSoftRateMax_def dur_defs)

text \<open>Errors at given times with nothing in between.\<close>

definition errors_at :: "string \<Rightarrow> instant list \<Rightarrow> pool \<Rightarrow> pool" where
  "errors_at uid ts p = foldl (\<lambda>q t. NoteError t uid q) p ts"

lemma errors_at_Cons: "errors_at uid (t # ts) p = errors_at uid ts (NoteError t uid p)"
  by (simp add: errors_at_def)

lemma NoteError_get:
  "mget (byUID p) uid = Some e \<Longrightarrow> mget (byUID (NoteError now uid p)) uid =
     Some (recordBreakerFailureLocked now p
       (e\<lparr>errTotal := errTotal e + 1, errorEMA := ema_up (errorEMA e), lastErr := now\<rparr>))"
  by (simp add: NoteError_def)

lemma NoteError_breaker_settings [simp]:
  "breakerThreshold (NoteError now uid p) = breakerThreshold p"
  "breakerCooldown (NoteError now uid p) = breakerCooldown p"
  "breakerCooldownMax (NoteError now uid p) = breakerCooldownMax p"
  by (simp_all add: NoteError_def set_entry_def split: option.split)

lemma errors_below:
  assumes "mget (byUID p) uid = Some e" "fails e + int (length ts) < breakerThreshold p"
  shows "\<exists>e'. mget (byUID (errors_at uid ts p)) uid = Some e' \<and> fails e' = fails e + int (length ts)
    \<and> retryCount e' = retryCount e \<and> breakerUntil e' = breakerUntil e
    \<and> breakerThreshold (errors_at uid ts p) = breakerThreshold p
    \<and> breakerCooldown (errors_at uid ts p) = breakerCooldown p
    \<and> breakerCooldownMax (errors_at uid ts p) = breakerCooldownMax p"
  using assms
proof (induction ts arbitrary: p e)
  case Nil
  then show ?case by (simp add: errors_at_def)
next
  case (Cons t ts)
  let ?e = "recordBreakerFailureLocked t p
       (e\<lparr>errTotal := errTotal e + 1, errorEMA := ema_up (errorEMA e), lastErr := t\<rparr>)"
  have e: "fails ?e = fails e + 1" "retryCount ?e = retryCount e" "breakerUntil ?e = breakerUntil e"
    using Cons.prems(2) by (simp_all add: recordBreakerFailureLocked_def)
  have "fails ?e + int (length ts) < breakerThreshold (NoteError t uid p)" using Cons.prems(2) e(1) by simp
  from Cons.IH [OF NoteError_get [OF Cons.prems(1)] this]
  show ?case unfolding errors_at_Cons using e by (simp add: add.assoc)
qed

text \<open>
  the breaker opens at the configured number of consecutive errors and not before: one
  error fewer leaves the deadline as it was, and the last one sets it to the cooldown doubled
  once per earlier opening, cut at the maximum.
\<close>

theorem breaker_opens_at_threshold:
  assumes "mget (byUID p) uid = Some e" "fails e = 0" "0 \<le> retryCount e"
    and "int (length ts) + 1 = breakerThreshold p"
    and "0 < breakerCooldown p" "breakerCooldown p \<le> breakerCooldownMax p" "breakerCooldownMax p < 2 ^ 62"
  shows "(\<exists>e1. mget (byUID (errors_at uid ts p)) uid = Some e1 \<and> breakerUntil e1 = breakerUntil e)
    \<and> (\<exists>e2. mget (byUID (errors_at uid (ts @ [t]) p)) uid = Some e2
         \<and> breakerUntil e2 = t + min (breakerCooldown p * 2 ^ nat (retryCount e)) (breakerCooldownMax p)
         \<and> retryCount e2 = retryCount e + 1 \<and> fails e2 = 0)"
proof -
  obtain e1 where e1: "mget (byUID (errors_at uid ts p)) uid = Some e1" "fails e1 = int (length ts)"
    "retryCount e1 = retryCount e" "breakerUntil e1 = breakerUntil e"
    "breakerThreshold (errors_at uid ts p) = breakerThreshold p"
    "breakerCooldown (errors_at uid ts p) = breakerCooldown p"
    "breakerCooldownMax (errors_at uid ts p) = breakerCooldownMax p"
    using errors_below [OF assms(1), of ts] assms(2,4) by auto
  have "errors_at uid (ts @ [t]) p = NoteError t uid (errors_at uid ts p)" by (simp add: errors_at_def)
  then show ?thesis
    using e1 assms breaker_backoff_exact [OF assms(5-7)]
    by (simp add: NoteError_get [OF e1(1)] recordBreakerFailureLocked_def Let_def)
qed

lemma breaker_opens_at_threshold_witness:
  "\<exists>e2. mget (byUID (errors_at ''c'' ([1, 2, 3, 4] @ [5]) (SetBreaker 5 10 40 demo_pool))) ''c'' = Some e2
     \<and> breakerUntil e2 = 15"
proof -
  let ?p = "SetBreaker 5 10 40 demo_pool"
  have a: "mget (byUID ?p) ''c'' = Some (demo_entry ''c'')" by (simp add: SetBreaker_def demo_pool_def)
  have "fails (demo_entry ''c'') = 0" "retryCount (demo_entry ''c'') = 0"
    "breakerThreshold ?p = 5" "breakerCooldown ?p = 10" "breakerCooldownMax ?p = 40"
    by (simp_all add: SetBreaker_def demo_defs)
  with breaker_opens_at_threshold [OF a, of "[1, 2, 3, 4]" 5] show ?thesis by auto
qed

text \<open>
  a success ends the breaker, whatever its history, and nothing else: afterwards the
  account is healthy at a time exactly if it is enabled and its cooldown is over.
\<close>

theorem success_closes_breaker:
  assumes "mget (byUID p) uid = Some e"
  shows "\<exists>e'. mget (byUID (NoteSuccess now uid p)) uid = Some e'
    \<and> fails e' = 0 \<and> retryCount e' = 0 \<and> softStreak e' = 0 \<and> sessionDeadFails e' = 0
    \<and> until e' = until e \<and> disabled e' = disabled e \<and> modelCooldowns e' = modelCooldowns e
    \<and> healthy e' t = (\<not> disabled e \<and> \<not> in_force t (until e))"
  using assms by (simp add: NoteSuccess_def healthy_iff in_force_def is_zero_def zero_time_def)

lemma success_closes_breaker_witness:
  "\<exists>e'. mget (byUID (NoteSuccess 7 ''a'' demo_pool)) ''a'' = Some e' \<and> until e' = 50"
proof -
  have "mget (byUID demo_pool) ''a'' = Some ((demo_entry ''a'')\<lparr>until := 50, coolKind := CoolSoft\<rparr>)"
    by (simp add: demo_pool_def)
  from success_closes_breaker [OF this, of 7] show ?thesis by auto
qed

text \<open>the hard cooldown ends at the next 04:00 local time: after now, within a day.\<close>

theorem hard_cooldown_until_4am:
  assumes "mget (byUID p) uid = Some e"
  shows "\<exists>e'. mget (byUID (CooldownUntilTomorrow4AM off now uid why p)) uid = Some e'
    \<and> coolKind e' = CoolHard \<and> now < until e' \<and> until e' \<le> now + day
    \<and> (until e' + off) mod day = 4 * hour"
proof -
  have "in64 (nextDay4AM off now - now)"
    using nextDay4AM_bounds [of now off] by (simp add: in64_def dur_defs)
  then have "time_sub (nextDay4AM off now) now = nextDay4AM off now - now"
    by (auto simp: time_sub_def in64_def)
  then show ?thesis
    using assms nextDay4AM_bounds [of now off] nextDay4AM_is_4AM [of off now]
    by (simp add: CooldownUntilTomorrow4AM_def Cooldown_def)
qed

lemma hard_cooldown_until_4am_witness:
  "\<exists>e'. mget (byUID (CooldownUntilTomorrow4AM (8 * hour) 1000 ''c'' ''x'' demo_pool)) ''c'' = Some e'
     \<and> coolKind e' = CoolHard"
proof -
  have "mget (byUID demo_pool) ''c'' = Some (demo_entry ''c'')" by (simp add: demo_pool_def)
  from hard_cooldown_until_4am [OF this, of "8 * hour" 1000 "''x''"] show ?thesis by blast
qed

subsection \<open>Disabling\<close>

text \<open>
  once an account is disabled, no sequence of pool events other than its own
  \<open>ReviveDisabled\<close> brings it back, and no selection along the way returns it.
\<close>

theorem disabled_never_picked:
  assumes "pool_inv p" "is_off uid p" "\<And>xs. mset (c_shuf ch xs) = mset xs"
    and "list_all (\<lambda>ev. fair ev \<and> ev \<noteq> ERevive uid) evs"
  shows "is_off uid (foldl (\<lambda>q ev. exec ev q) p evs)
    \<and> (\<forall>a. snd (pick ch g now tried m r (foldl (\<lambda>q ev. exec ev q) p evs)) = Some a \<longrightarrow> UID a \<noteq> uid)"
proof -
  have run: "pool_inv (foldl (\<lambda>q ev. exec ev q) p evs) \<and> is_off uid (foldl (\<lambda>q ev. exec ev q) p evs)"
    using assms(1,2,4)
  proof (induction evs arbitrary: p)
    case Nil
    then show ?case by simp
  next
    case (Cons ev evs)
    then have "pool_inv (exec ev p)" "is_off uid (exec ev p)"
      using exec_inv exec_off by (simp_all add: pool_inv_def)
    then show ?case using Cons by simp
  qed
  define q where "q = foldl (\<lambda>q ev. exec ev q) p evs"
  have wf: "pool_wf q" and off: "is_off uid q" using run by (simp_all add: q_def pool_inv_def)
  have "UID a \<noteq> uid" if "snd (pick ch g now tried m r q) = Some a" for a
    by (rule pick_shape [OF wf assms(3), of g now tried m r])
      (use that off pool_wf_mget(1) [OF wf] in \<open>auto simp: is_off_def\<close>)
  then show ?thesis using run by (simp add: q_def)
qed

lemma disabled_never_picked_witness:
  "is_off ''b'' (foldl (\<lambda>q ev. exec ev q) demo_pool [ESuccess 5 ''b'', EReenable ''b'' 9, ERevive ''a''])"
proof -
  have "is_off ''b'' demo_pool" by (simp add: is_off_def demo_pool_def)
  moreover have "list_all (\<lambda>ev. fair ev \<and> ev \<noteq> ERevive ''b'')
      [ESuccess 5 ''b'', EReenable ''b'' 9, ERevive ''a'']" by (simp add: fair_def)
  ultimately show ?thesis using disabled_never_picked [OF demo_pool_inv _ demo_shuf] by blast
qed



text \<open>
  a dead session is only believed the third time in a row: two reports leave an enabled
  account enabled, the third disables it and resets the count; a success in between starts the
  count over.
\<close>

theorem session_dead_three_strikes:
  assumes "mget (byUID p) uid = Some e" "sessionDeadFails e = 0" "\<not> disabled e"
  shows "\<not> snd (NoteSessionDead uid p)
    \<and> \<not> snd (NoteSessionDead uid (fst (NoteSessionDead uid p)))
    \<and> snd (NoteSessionDead uid (fst (NoteSessionDead uid (fst (NoteSessionDead uid p)))))
    \<and> \<not> is_off uid (fst (NoteSessionDead uid (fst (NoteSessionDead uid p))))
    \<and> is_off uid (fst (NoteSessionDead uid (fst (NoteSessionDead uid (fst (NoteSessionDead uid p))))))
    \<and> \<not> snd (NoteSessionDead uid (NoteSuccess t uid (fst (NoteSessionDead uid (fst (NoteSessionDead uid p))))))"
  using assms
  by (simp add: NoteSessionDead_def sessionDeadThreshold_def is_off_def NoteSuccess_def primitive_defs Let_def)

lemma session_dead_three_strikes_witness:
  "snd (NoteSessionDead ''c'' (fst (NoteSessionDead ''c'' (fst (NoteSessionDead ''c'' demo_pool)))))"
proof -
  have "mget (byUID demo_pool) ''c'' = Some (demo_entry ''c'')" by (simp add: demo_pool_def)
  from session_dead_three_strikes [OF this] show ?thesis by (simp add: demo_defs)
qed

text \<open>
  the dimensions are orthogonal: reviving a disabled account leaves its cooldown, breaker
  and balance alone, and a refilled balance ends the cooldown but neither enables a disabled
  account nor closes the breaker.
\<close>

theorem revive_and_refill_orthogonal:
  assumes "mget (byUID p) uid = Some e"
  shows "(\<exists>e1. mget (byUID (ReviveDisabled uid p)) uid = Some e1 \<and> \<not> disabled e1
       \<and> until e1 = until e \<and> breakerUntil e1 = breakerUntil e \<and> credits e1 = credits e
       \<and> modelCooldowns e1 = modelCooldowns e)
    \<and> (\<exists>e2. mget (byUID (ReenableIfCredits uid c p)) uid = Some e2 \<and> disabled e2 = disabled e
       \<and> breakerUntil e2 = breakerUntil e \<and> credits e2 = c
       \<and> until e2 = (if c > 0 \<and> \<not> disabled e then zero_time else until e))"
  using assms
  by (auto simp: ReviveDisabled_def ReenableIfCredits_def primitive_defs Let_def)

lemma revive_and_refill_orthogonal_witness:
  "\<exists>e2. mget (byUID (ReenableIfCredits ''a'' 3 demo_pool)) ''a'' = Some e2 \<and> until e2 = zero_time"
proof -
  have "mget (byUID demo_pool) ''a'' = Some ((demo_entry ''a'')\<lparr>until := 50, coolKind := CoolSoft\<rparr>)"
    by (simp add: demo_pool_def)
  from revive_and_refill_orthogonal [OF this, of 3] show ?thesis by (auto simp: demo_defs)
qed

subsection \<open>Balances\<close>

text \<open>
  charging a request never overdraws: the balance falls by what was consumed and stops at
  zero, the expiring part stays within bounds and never above the balance if it was not above
  before.
\<close>

theorem model_cost_never_overdraws:
  assumes "mget (byUID p) uid = Some e" "uid \<noteq> []" "m \<noteq> []" "0 < tokens" "0 < credit"
    and "0 \<le> creditsExpiring e" "creditsExpiring e \<le> credits e" "credits e \<le> max_int64"
    and "0 \<le> trunc64 (fl (credit + 1 / 2))"
  shows "\<exists>e'. mget (byUID (NoteModelCost now uid m credit tokens p)) uid = Some e'
    \<and> credits e' = max 0 (credits e - trunc64 (fl (credit + 1 / 2)))
    \<and> 0 \<le> creditsExpiring e' \<and> creditsExpiring e' \<le> creditsExpiring e
    \<and> creditsExpiring e' = max 0 (creditsExpiring e - trunc64 (fl (credit + 1 / 2)))
    \<and> creditsExpiring e' \<le> credits e'"
proof -
  define n where "n = trunc64 (fl (credit + 1 / 2))"
  let ?e = "debit_entry n e"
  have n: "0 \<le> n" using assms(9) by (simp add: n_def)
  have "in64 (credits e - min n (credits e))" "in64 (creditsExpiring e - min (min n (credits e)) (creditsExpiring e))"
    using n assms(6-8) by (auto simp: in64_def min_def)
  then have c: "credits ?e = max 0 (credits e - n)" "creditsExpiring ?e = max 0 (creditsExpiring e - n)"
    using n assms(6,7) by (auto simp: debit_entry_def Let_def min_def split: if_splits)
  have l: "credits (learn_cost now m x f) = credits f" "creditsExpiring (learn_cost now m x f) = creditsExpiring f"
    for x f by (simp_all add: learn_cost_def)
  have "mget (byUID (NoteModelCost now uid m credit tokens p)) uid
      = Some (learn_cost now m (cost_per_1k credit tokens) ?e)"
    using assms by (simp add: NoteModelCost_def Let_def n_def)
  then show ?thesis using c n assms(6,7) by (simp add: l flip: n_def)
qed

lemma model_cost_never_overdraws_witness:
  "\<exists>e'. mget (byUID (NoteModelCost 9 ''c'' ''m'' 7 1000 demo_pool)) ''c'' = Some e' \<and> credits e' = 0"
proof -
  have a: "mget (byUID demo_pool) ''c'' = Some (demo_entry ''c'')" by (simp add: demo_pool_def)
  have t: "trunc64 (fl (7 + 1 / 2)) = 7" by code_simp
  have "credits (demo_entry ''c'') = 5" "creditsExpiring (demo_entry ''c'') = 0" by (simp_all add: demo_defs)
  then show ?thesis
    using model_cost_never_overdraws [OF a, of "''m''" 1000 7 9] unfolding t by auto
qed

subsection \<open>The backoff of missing models\<close>

text \<open>
  after a selection handed out an account for a model, a report that the account's backend
  lacks the model always counts as the first one and blocks for the base time of six hours: the
  selection has removed the expired entry together with its hit count, so the documented doubling
  to twelve and twenty-four hours does not happen on this path.
\<close>

theorem block_backoff_restarts:
  assumes "pool_wf p" "\<And>xs. mset (c_shuf ch xs) = mset xs"
    and "pick ch g now tried m r p = (q, Some a)" "m \<noteq> []" "UID a \<noteq> []"
  shows "\<exists>e c. mget (byUID (BlockModelBackoff now' (UID a) m why q)) (UID a) = Some e
    \<and> mget (modelCooldowns e) m = Some c \<and> mc_Hits c = 1 \<and> mc_Until c = now' + modelBlockBaseTTL"
proof (rule pick_shape [OF assms(1,2), of g now tried m r])
  assume "snd (pick ch g now tried m r p) = None"
  then show ?thesis using assms(3) by simp
next
  fix v e e'
  assume one: "mget (byUID p) v = Some e" "same_but_use now e e'"
    "byUID (fst (pick ch g now tried m r p)) = mput v e' (byUID (prune_all now p))"
    "snd (pick ch g now tried m r p) = Some (acct e)" "\<not> modelCooled e now m"
  have v: "UID a = v" using one(1,4) assms(3) pool_wf_mget(1) [OF assms(1)] by simp
  have wf: "wfmap (modelCooldowns e)" using pool_wf_mget(2) [OF assms(1) one(1)] .
  have "mget (modelCooldowns (pruneExpiredModelCooldowns now e)) m = None"
    using one(5) assms(4)
    by (auto simp: prune_modelCooldowns mget_filter_wf [OF wf] modelCooled_def split: option.splits)
  then have none: "mget (modelCooldowns e') m = None" using one(2) by (auto simp: same_but_use_def)
  have "mget (byUID q) v = Some e'" using one(3) assms(3) by simp
  then show ?thesis
    using assms(4,5) none by (simp add: v BlockModelBackoff_def Let_def block_ttl_table modelBlockBaseTTL_def)
qed

lemma block_backoff_restarts_witness:
  "\<exists>e c. mget (byUID (BlockModelBackoff 99 ''c'' ''m'' ''11102''
        (fst (pick demo_chance True 10 {} ''m'' [] demo_pool)))) ''c'' = Some e
    \<and> mget (modelCooldowns e) ''m'' = Some c \<and> mc_Hits c = 1"
proof -
  obtain q where q: "pick demo_chance True 10 {} ''m'' [] demo_pool = (q, Some (demo_auth ''c''))"
    using demo_pick by (cases "pick demo_chance True 10 {} ''m'' [] demo_pool") auto
  from block_backoff_restarts [OF demo_wf demo_shuf q, of 99 "''11102''"]
  show ?thesis by (auto simp: q demo_auth_def)
qed

end
