(* ===== verification/Lease.thy ===== *)
theory Lease
  imports PoolState
begin

text \<open>
  The slots of an account under concurrency: \<open>Acquire\<close> and \<open>Release\<close> of \<open>pool.go\<close> run
  outside the pool's mutex, as loops that load the counter, decide, and try to swap. Here the
  loads and swaps of any number of requests interleave; the counter still equals the number of
  requests that hold a slot.
\<close>

datatype request =
    Idle
  | Acquiring
  | AcquireLoaded int
  | Holding
  | Releasing
  | ReleaseLoaded int

record lease =
  slots :: int
  requests :: "request list"

text \<open>
  \<open>acq\<close> and \<open>rel\<close> decide on a loaded value: \<open>None\<close> is the early return, \<open>Some n\<close> the value
  the swap is to store. A swap that finds another value than the one loaded starts over.
\<close>

inductive lease_step :: "(int \<Rightarrow> int option) \<Rightarrow> (int \<Rightarrow> int option) \<Rightarrow> lease \<Rightarrow> lease \<Rightarrow> bool"
  for acq rel where
  arrive: "i < length (requests s) \<Longrightarrow> requests s ! i = Idle \<Longrightarrow>
     lease_step acq rel s (s\<lparr>requests := (requests s)[i := Acquiring]\<rparr>)"
| acquire_load: "i < length (requests s) \<Longrightarrow> requests s ! i = Acquiring \<Longrightarrow> acq (slots s) = Some n \<Longrightarrow>
     lease_step acq rel s (s\<lparr>requests := (requests s)[i := AcquireLoaded (slots s)]\<rparr>)"
| acquire_full: "i < length (requests s) \<Longrightarrow> requests s ! i = Acquiring \<Longrightarrow> acq (slots s) = None \<Longrightarrow>
     lease_step acq rel s (s\<lparr>requests := (requests s)[i := Idle]\<rparr>)"
| acquire_swap: "i < length (requests s) \<Longrightarrow> requests s ! i = AcquireLoaded v \<Longrightarrow> slots s = v \<Longrightarrow>
     acq v = Some n \<Longrightarrow>
     lease_step acq rel s (s\<lparr>slots := n, requests := (requests s)[i := Holding]\<rparr>)"
| acquire_retry: "i < length (requests s) \<Longrightarrow> requests s ! i = AcquireLoaded v \<Longrightarrow> slots s \<noteq> v \<Longrightarrow>
     lease_step acq rel s (s\<lparr>requests := (requests s)[i := Acquiring]\<rparr>)"
| finish: "i < length (requests s) \<Longrightarrow> requests s ! i = Holding \<Longrightarrow>
     lease_step acq rel s (s\<lparr>requests := (requests s)[i := Releasing]\<rparr>)"
| release_load: "i < length (requests s) \<Longrightarrow> requests s ! i = Releasing \<Longrightarrow> rel (slots s) = Some n \<Longrightarrow>
     lease_step acq rel s (s\<lparr>requests := (requests s)[i := ReleaseLoaded (slots s)]\<rparr>)"
| release_zero: "i < length (requests s) \<Longrightarrow> requests s ! i = Releasing \<Longrightarrow> rel (slots s) = None \<Longrightarrow>
     lease_step acq rel s (s\<lparr>requests := (requests s)[i := Idle]\<rparr>)"
| release_swap: "i < length (requests s) \<Longrightarrow> requests s ! i = ReleaseLoaded v \<Longrightarrow> slots s = v \<Longrightarrow>
     rel v = Some n \<Longrightarrow>
     lease_step acq rel s (s\<lparr>slots := n, requests := (requests s)[i := Idle]\<rparr>)"
| release_retry: "i < length (requests s) \<Longrightarrow> requests s ! i = ReleaseLoaded v \<Longrightarrow> slots s \<noteq> v \<Longrightarrow>
     lease_step acq rel s (s\<lparr>requests := (requests s)[i := Releasing]\<rparr>)"

inductive_cases lease_stepE: "lease_step acq rel s t"

definition lease_start :: "nat \<Rightarrow> lease" where
  "lease_start n = \<lparr>slots = 0, requests = replicate n Idle\<rparr>"

inductive lease_reachable :: "(int \<Rightarrow> int option) \<Rightarrow> (int \<Rightarrow> int option) \<Rightarrow> nat \<Rightarrow> lease \<Rightarrow> bool"
  for acq rel n where
  start: "lease_reachable acq rel n (lease_start n)"
| step: "lease_reachable acq rel n s \<Longrightarrow> lease_step acq rel s t \<Longrightarrow> lease_reachable acq rel n t"

definition holds_slot :: "request \<Rightarrow> bool" where
  "holds_slot r = (case r of Holding \<Rightarrow> True | Releasing \<Rightarrow> True | ReleaseLoaded _ \<Rightarrow> True | _ \<Rightarrow> False)"

definition holders :: "lease \<Rightarrow> int" where
  "holders s = (\<Sum>r\<leftarrow>requests s. of_bool (holds_slot r))"

lemma holders_update:
  assumes "i < length (requests s)"
  shows "holders (s\<lparr>requests := (requests s)[i := r]\<rparr>)
      = holders s + of_bool (holds_slot r) - of_bool (holds_slot (requests s ! i))"
    "holders (s\<lparr>slots := n, requests := (requests s)[i := r]\<rparr>)
      = holders s + of_bool (holds_slot r) - of_bool (holds_slot (requests s ! i))"
  using assms by (simp_all add: holders_def sum_list_update_int)

lemma holders_slots [simp]: "holders (s\<lparr>slots := n\<rparr>) = holders s"
  by (simp add: holders_def)

lemma holders_pos:
  assumes "i < length (requests s)" "holds_slot (requests s ! i)"
  shows "1 \<le> holders s"
proof -
  have nonneg: "0 \<le> (\<Sum>r\<leftarrow>xs. of_bool (holds_slot r) :: int)" for xs by (rule sum_list_nonneg) auto
  have "(\<Sum>r\<leftarrow>xs. of_bool (holds_slot r) :: int) \<ge> 1" if "i < length xs" "holds_slot (xs ! i)" for xs i
    using that
  proof (induction xs arbitrary: i)
    case Nil
    then show ?case by simp
  next
    case (Cons x xs)
    then show ?case using nonneg [of xs] by (cases i) fastforce+
  qed
  then show ?thesis using assms by (simp add: holders_def)
qed

subsection \<open>The contract of the two decisions\<close>

locale slot_counter =
  fixes acq rel :: "int \<Rightarrow> int option" and limit :: int
  assumes acq_takes_one: "acq n = Some m \<Longrightarrow> m = n + 1"
    and acq_within: "0 < limit \<Longrightarrow> acq n = Some m \<Longrightarrow> m \<le> limit"
    and rel_gives_one: "rel n = Some m \<Longrightarrow> m = n - 1"
    and rel_possible: "0 < n \<Longrightarrow> rel n \<noteq> None"
begin

text \<open>The counter is the number of holders, step by step.\<close>

lemma step_counts:
  assumes "lease_step acq rel s t" "slots s = holders s"
  shows "slots t = holders t"
  using assms
proof cases
  case (release_zero i)
  then have "0 < slots s" using assms(2) holders_pos [of i s] by (simp add: holds_slot_def)
  then show ?thesis using rel_possible [of "slots s"] release_zero by simp
qed (auto simp: holders_update holds_slot_def assms(2) dest: acq_takes_one rel_gives_one)

lemma reachable_counts: "lease_reachable acq rel n s \<Longrightarrow> slots s = holders s"
proof (induction rule: lease_reachable.induct)
  case start
  show ?case by (simp add: lease_start_def holders_def holds_slot_def sum_list_replicate)
next
  case (step s t)
  then show ?case by (blast intro: step_counts)
qed

lemma reachable_bound:
  assumes "0 < limit"
  shows "lease_reachable acq rel n s \<Longrightarrow> slots s \<le> limit"
proof (induction rule: lease_reachable.induct)
  case start
  show ?case using assms by (simp add: lease_start_def)
next
  case (step s t)
  from step(2) show ?case
    by cases (use step(3) assms acq_within rel_gives_one in force)+
qed

text \<open>A step of the loops is an atomic acquisition, an atomic release, or leaves the counter alone.\<close>

lemma step_refines:
  assumes "lease_step acq rel s t"
  shows "slots t = slots s \<or> acq (slots s) = Some (slots t) \<or> rel (slots s) = Some (slots t)"
  using assms by cases auto

lemma holder_can_release:
  assumes "lease_reachable acq rel n s" "i < length (requests s)" "requests s ! i = Releasing"
  shows "rel (slots s) \<noteq> None"
  using rel_possible reachable_counts [OF assms(1)] holders_pos [OF assms(2)] assms(3)
  by (simp add: holds_slot_def)

end

text \<open>The decisions of the code meet the contract.\<close>

interpretation slots: slot_counter "acquire_inflight limit" release_inflight limit for limit
  by unfold_locales (auto simp: acquire_inflight_def release_inflight_def split: if_splits)

text \<open>
  C34: however the loads and swaps of concurrent requests interleave, the counter of an account
  is the number of requests holding a slot, never above the limit, and each change of the
  counter is one whole \<open>Acquire\<close> or \<open>Release\<close>.
\<close>

theorem lease_counter_exact:
  assumes "lease_reachable (acquire_inflight limit) release_inflight n s"
  shows "slots s = holders s \<and> (0 < limit \<longrightarrow> holders s \<le> limit)
    \<and> (\<forall>t. lease_step (acquire_inflight limit) release_inflight s t \<longrightarrow>
          slots t = slots s \<or> acquire_inflight limit (slots s) = Some (slots t)
          \<or> release_inflight (slots s) = Some (slots t))"
  using slots.reachable_counts [OF assms] slots.reachable_bound [OF _ assms]
    slots.step_refines [of limit s] by metis

lemma lease_counter_exact_witness:
  "let s = \<lparr>slots = 1, requests = [Holding, AcquireLoaded 0]\<rparr> in slots s = holders s \<and> holders s \<le> 2"
proof -
  let ?st = "lease_step (acquire_inflight 2) release_inflight"
  let ?r = "lease_reachable (acquire_inflight 2) release_inflight 2"
  have a: "acquire_inflight 2 0 = Some 1" by (simp add: acquire_inflight_def)
  have "?r \<lparr>slots = 0, requests = [Idle, Idle]\<rparr>"
    using lease_reachable.start [of "acquire_inflight 2" release_inflight 2]
    by (simp add: lease_start_def numeral_2_eq_2)
  then have "?r \<lparr>slots = 0, requests = [Acquiring, Idle]\<rparr>"
    by (rule lease_reachable.step)
      (use lease_step.arrive [of 0 "\<lparr>slots = 0, requests = [Idle, Idle]\<rparr>"] in simp)
  then have "?r \<lparr>slots = 0, requests = [Acquiring, Acquiring]\<rparr>"
    by (rule lease_reachable.step)
      (use lease_step.arrive [of 1 "\<lparr>slots = 0, requests = [Acquiring, Idle]\<rparr>"] in simp)
  then have "?r \<lparr>slots = 0, requests = [Acquiring, AcquireLoaded 0]\<rparr>"
    by (rule lease_reachable.step)
      (use lease_step.acquire_load [of 1 "\<lparr>slots = 0, requests = [Acquiring, Acquiring]\<rparr>"] a in simp)
  then have "?r \<lparr>slots = 0, requests = [AcquireLoaded 0, AcquireLoaded 0]\<rparr>"
    by (rule lease_reachable.step)
      (use lease_step.acquire_load [of 0 "\<lparr>slots = 0, requests = [Acquiring, AcquireLoaded 0]\<rparr>"] a in simp)
  then have "?r \<lparr>slots = 1, requests = [Holding, AcquireLoaded 0]\<rparr>"
    by (rule lease_reachable.step)
      (use lease_step.acquire_swap [of 0 "\<lparr>slots = 0, requests = [AcquireLoaded 0, AcquireLoaded 0]\<rparr>"] a in simp)
  from lease_counter_exact [OF this] show ?thesis by simp
qed

end
