(* ===== verification/AuthProps.thy ===== *)
theory AuthProps
  imports Auth
begin

text \<open>The properties of the credentials: single-flight refresh and realms.\<close>

text \<open>
  in every interleaving of callers of \<open>Refresh\<close> and other writers at most one caller
  refreshes at a time; whoever waits is waiting for the pending call or for one whose result is
  there; and every caller that joined a call returns exactly its leader's result.
\<close>

theorem refresh_single_flight:
  assumes "flight_reachable a s"
  shows "(\<forall>i j b c. callers s i = Leading b \<longrightarrow> callers s j = Leading c \<longrightarrow> i = j)
    \<and> (\<forall>i l. callers s i = Waiting l \<longrightarrow> refreshing s = Some l \<or> (\<exists>e. results s l = Some e))
    \<and> (\<forall>i l e. callers s i = Returned l e \<longrightarrow> callers s l = Returned l e)"
proof -
  have inv: "flight_inv s" by (rule flight_reachable_inv [OF assms])
  have "i = j" if "callers s i = Leading b" "callers s j = Leading c" for i j b c
    using flight_inv_leader(3) [OF inv that(2) that(1)] .
  moreover have "refreshing s = Some l \<or> (\<exists>e. results s l = Some e)" if "callers s i = Waiting l" for i l
    using inv that unfolding flight_inv_def by blast
  moreover have "callers s l = Returned l e" if "callers s i = Returned l e" for i l e
  proof -
    have r: "results s l = Some e" using inv that unfolding flight_inv_def by blast
    then obtain e' where e': "callers s l = Returned l e'" using inv unfolding flight_inv_def by blast
    then have "results s l = Some e'" using inv unfolding flight_inv_def by blast
    with r e' show ?thesis by simp
  qed
  ultimately show ?thesis by blast
qed

lemma refresh_single_flight_witness:
  "\<exists>s :: flight. refreshing s = Some 0 \<and> callers s 1 = Waiting 0
     \<and> (\<forall>i j b c. callers s i = Leading b \<longrightarrow> callers s j = Leading c \<longrightarrow> i = j)"
proof -
  let ?s0 = "flight_start empty_auth"
  let ?s1 = "?s0\<lparr>refreshing := Some 0, callers := (callers ?s0)(0 := Leading (creds ?s0))\<rparr>"
  let ?s2 = "?s1\<lparr>callers := (callers ?s1)(1 := Waiting 0)\<rparr>"
  have "flight_reachable empty_auth ?s0" by (rule flight_reachable.init)
  moreover have "refresh_step ?s0 ?s1" by (rule refresh_step.lead) (simp_all add: flight_start_def)
  moreover have "refresh_step ?s1 ?s2" by (rule refresh_step.join) (simp_all add: flight_start_def)
  ultimately have r: "flight_reachable empty_auth ?s2" using flight_reachable.step by blast
  from refresh_single_flight [OF r]
  have "\<forall>i j b c. callers ?s2 i = Leading b \<longrightarrow> callers ?s2 j = Leading c \<longrightarrow> i = j" by (rule conjunct1)
  moreover have "refreshing ?s2 = Some 0" "callers ?s2 1 = Waiting 0" by simp_all
  ultimately show ?thesis by blast
qed


definition demo_update :: token_update where
  "demo_update = \<lparr>tu_AccessToken = ''new'', tu_RefreshToken = [], tu_ExpiresAt = 0, tu_Domain = []\<rparr>"


text \<open>
  writing a missing realm back to the credentials never moves an account between realms,
  is idempotent, and leaves a file that names its realm alone.
\<close>

theorem backfill_keeps_realm:
  "Realm g (fst (BackfillRealm a)) = Realm g a
   \<and> IsGlobal g (fst (BackfillRealm a)) = IsGlobal g a
   \<and> BackfillRealm (fst (BackfillRealm a)) = (fst (BackfillRealm a), False, realm (fst (BackfillRealm a)))
   \<and> (trim_space (realm a) \<noteq> [] \<longrightarrow> fst (BackfillRealm a) = a)
   \<and> (Realm g a = ''cn'' \<or> Realm g a = ''global'')"
proof (intro conjI)
  show "IsGlobal g (fst (BackfillRealm a)) = IsGlobal g a"
    by (simp add: IsGlobal_def BackfillRealm_keeps_Realm)
  show "trim_space (realm a) \<noteq> [] \<longrightarrow> fst (BackfillRealm a) = a" by (simp add: BackfillRealm_def)
qed (rule BackfillRealm_keeps_Realm BackfillRealm_idempotent Realm_cases)+

lemma backfill_keeps_realm_witness:
  "fst (BackfillRealm (empty_auth\<lparr>realm := ''global''\<rparr>)) = empty_auth\<lparr>realm := ''global''\<rparr>"
  using backfill_keeps_realm [of True "empty_auth\<lparr>realm := ''global''\<rparr>"] by simp

end
