(* ===== verification/Json.thy ===== *)
theory Json
  imports Complex_Main GoStrings Prelude
begin

text \<open>
  JSON values as \<open>encoding/json\<close> sees them, and what the code uses of its decoding rules.
  An object keeps its pairs in document order, repetitions included: decoding into a Go map
  lets the last pair win, decoding into a struct feeds every pair to the field whose name
  matches, exactly or in another case. A number keeps whether it was written as an integer.
\<close>

datatype json =
    JNull
  | JBool bool
  | JInt int
  | JFloat rat
  | JStr string
  | JArr "json list"
  | JObj "(string \<times> json) list"

type_synonym obj = "(string \<times> json) list"

subsection \<open>Decoding into maps\<close>

text \<open>\<open>json.Unmarshal(body, &obj)\<close> into \<open>map[string]any\<close>; \<open>null\<close> leaves the nil map.\<close>

definition as_map :: "json \<Rightarrow> obj option" where
  "as_map j = (case j of JObj m \<Rightarrow> Some m | JNull \<Rightarrow> Some [] | _ \<Rightarrow> None)"

definition jget :: "obj \<Rightarrow> string \<Rightarrow> json option" where
  "jget m k = map_of (rev m) k"

text \<open>\<open>v.(string)\<close> with the zero value on failure, and \<open>v.(map[string]any)\<close>.\<close>

definition str_or_empty :: "json option \<Rightarrow> string" where
  "str_or_empty v = (case v of Some (JStr s) \<Rightarrow> s | _ \<Rightarrow> [])"

definition obj_of :: "json option \<Rightarrow> obj option" where
  "obj_of v = (case v of Some (JObj m) \<Rightarrow> Some m | _ \<Rightarrow> None)"

text \<open>The same read off a Go map, with the zero value on failure.\<close>

definition get_str :: "obj \<Rightarrow> string \<Rightarrow> string" where
  "get_str m k = str_or_empty (mget m k)"

definition nested_of :: "json option \<Rightarrow> obj" where
  "nested_of v = (case v of Some (JObj m) \<Rightarrow> m | _ \<Rightarrow> [])"

definition array_of :: "json option \<Rightarrow> json list" where
  "array_of v = (case v of Some (JArr vs) \<Rightarrow> vs | _ \<Rightarrow> [])"

lemma jget_Nil [simp]: "jget [] k = None"
  by (simp add: jget_def)

lemma jget_snoc: "jget (m @ [(k, v)]) k' = (if k' = k then Some v else jget m k')"
  by (simp add: jget_def)

lemma jget_distinct: "distinct (map fst m) \<Longrightarrow> jget m k = map_of m k"
  unfolding jget_def by (metis distinct_rev map_of_inject_set rev_map set_rev)

subsection \<open>Decoding into structs\<close>

text \<open>The case folding of field names: ASCII letters, the Kelvin sign and the long s.\<close>

definition long_s :: string where "long_s = [CHR 0xC5, CHR 0xBF]"

fun fold_name :: "string \<Rightarrow> string" where
  "fold_name [] = []"
| "fold_name (c # s) =
     (if has_prefix (c # s) kelvin_sign then CHR ''k'' # fold_name (drop 2 s)
      else if has_prefix (c # s) long_s then CHR ''s'' # fold_name (drop 1 s)
      else lower_byte c # fold_name s)"

definition names_field :: "string \<Rightarrow> string \<Rightarrow> bool" where
  "names_field f k \<longleftrightarrow> k = f \<or> fold_name k = fold_name f"

text \<open>The values met by a field, in order; \<open>null\<close> leaves a field as it is.\<close>

definition field_values :: "string \<Rightarrow> obj \<Rightarrow> json list" where
  "field_values f m = filter (\<lambda>v. v \<noteq> JNull) (map snd (filter (\<lambda>(k, v). names_field f k) m))"

definition all_some :: "'a option list \<Rightarrow> 'a list option" where
  "all_some xs = (if None \<in> set xs then None else Some (map the xs))"

definition last_or :: "'a \<Rightarrow> 'a list \<Rightarrow> 'a" where
  "last_or d xs = (if xs = [] then d else last xs)"

text \<open>A value of another type is an error of the whole decoding (\<open>None\<close>).\<close>

definition str_value :: "json \<Rightarrow> string option" where
  "str_value v = (case v of JStr s \<Rightarrow> Some s | _ \<Rightarrow> None)"

definition int64_value :: "json \<Rightarrow> int option" where
  "int64_value v = (case v of JInt i \<Rightarrow> if in64 i then Some i else None | _ \<Rightarrow> None)"

definition obj_value :: "json \<Rightarrow> obj option" where
  "obj_value v = (case v of JObj m \<Rightarrow> Some m | _ \<Rightarrow> None)"

definition str_field :: "string \<Rightarrow> obj \<Rightarrow> string option" where
  "str_field f m = map_option (last_or []) (all_some (map str_value (field_values f m)))"

definition int64_field :: "string \<Rightarrow> obj \<Rightarrow> int option" where
  "int64_field f m = map_option (last_or 0) (all_some (map int64_value (field_values f m)))"

text \<open>A nested struct met twice is decoded twice into the same value.\<close>

definition obj_field :: "string \<Rightarrow> obj \<Rightarrow> obj option" where
  "obj_field f m = map_option concat (all_some (map obj_value (field_values f m)))"

lemmas field_defs = str_field_def int64_field_def obj_field_def field_values_def all_some_def
  last_or_def str_value_def int64_value_def obj_value_def

end
