(* ===== verification/AuthFile.thy ===== *)
theory AuthFile
  imports Auth Json
begin

text \<open>
  The credential files: \<open>Parse\<close>, the document \<open>SaveAtomic\<close> writes, and \<open>LoadDir\<close>. Two
  shapes are read, the nested one of the plugin and a flat hand-written one; the nested one is
  written back.
\<close>

datatype parse_error = EmptyStorage | StorageParse | MissingAccessToken

text \<open>The bytes have been parsed: \<open>None\<close> stands for bytes that are not JSON.\<close>

definition parse_nested :: "obj \<Rightarrow> auth option" where
  "parse_nested m =
     (case (obj_field ''auth'' m, obj_field ''account'' m, str_field ''device_token'' m) of
        (Some a, Some c, Some dt) \<Rightarrow>
          (case (str_field ''accessToken'' a, str_field ''refreshToken'' a, int64_field ''expiresAt'' a,
                 str_field ''domain'' a, str_field ''realm'' a, str_field ''uid'' c,
                 str_field ''enterpriseId'' c, str_field ''nickname'' c) of
             (Some tok, Some rt, Some ex, Some d, Some r, Some u, Some e, Some n) \<Rightarrow>
               Some (empty_auth\<lparr>AccessToken := tok, RefreshToken := rt, ExpiresAt := ex, Domain := d,
                 realm := r, UID := u, EnterpriseID := e, Nickname := n, DeviceToken := dt\<rparr>)
           | _ \<Rightarrow> None)
      | _ \<Rightarrow> None)"

definition parse_flat :: "obj \<Rightarrow> auth option" where
  "parse_flat m =
     (case (str_field ''accessToken'' m, str_field ''refreshToken'' m, int64_field ''expiresAt'' m,
            str_field ''domain'' m, str_field ''realm'' m, str_field ''uid'' m,
            str_field ''enterpriseId'' m, str_field ''nickname'' m, str_field ''device_token'' m) of
        (Some tok, Some rt, Some ex, Some d, Some r, Some u, Some e, Some n, Some dt) \<Rightarrow>
          Some (empty_auth\<lparr>AccessToken := tok, RefreshToken := rt, ExpiresAt := ex, Domain := d,
            realm := r, UID := u, EnterpriseID := e, Nickname := n, DeviceToken := dt\<rparr>)
      | _ \<Rightarrow> None)"

definition Parse :: "bool \<Rightarrow> json option \<Rightarrow> parse_error + auth" where
  "Parse is_empty raw =
     (if is_empty then Inl EmptyStorage
      else case raw of
        None \<Rightarrow> Inl StorageParse
      | Some j \<Rightarrow>
          (case as_map j of
             None \<Rightarrow> Inl StorageParse
           | Some m \<Rightarrow>
               (case (if jget m ''auth'' \<noteq> None then parse_nested m else parse_flat m) of
                  None \<Rightarrow> Inl StorageParse
                | Some a \<Rightarrow>
                    if trim_space (AccessToken a) = [] then Inl MissingAccessToken else Inr a)))"

datatype save_error = EmptyAccess | NoFilePath

text \<open>The document written: the keys of a map are marshalled in order.\<close>

definition auth_doc :: "auth \<Rightarrow> json" where
  "auth_doc a = JObj ([(''account'', JObj [(''enterpriseId'', JStr (EnterpriseID a)),
        (''nickname'', JStr (Nickname a)), (''uid'', JStr (UID a))]),
      (''auth'', JObj [(''accessToken'', JStr (AccessToken a)), (''domain'', JStr (Domain a)),
        (''expiresAt'', JInt (ExpiresAt a)), (''realm'', JStr (realm a)),
        (''refreshToken'', JStr (RefreshToken a))])]
     @ (if DeviceToken a \<noteq> [] then [(''device_token'', JStr (DeviceToken a))] else []))"

definition SaveAtomic :: "auth \<Rightarrow> save_error + json" where
  "SaveAtomic a =
     (if trim_space (AccessToken a) = [] then Inl EmptyAccess
      else if FilePath a = [] then Inl NoFilePath
      else Inr (auth_doc a))"

text \<open>
  \<open>LoadDir\<close> over the files of the directory in sorted order: each is unreadable or holds
  bytes. The result is the credentials and what is written back: the migration of files that
  name no realm. A failed write is logged only.
\<close>

definition load_file :: "string \<times> (bool \<times> json option) option \<Rightarrow> (auth \<times> (string \<times> json) list) option" where
  "load_file f =
     (case f of (path, contents) \<Rightarrow>
        (case contents of
           None \<Rightarrow> None
         | Some (is_empty, raw) \<Rightarrow>
             (case Parse is_empty raw of
                Inl _ \<Rightarrow> None
              | Inr a0 \<Rightarrow>
                  let a = a0\<lparr>FilePath := path\<rparr>
                  in Some (if realm a = [] then
                             (case BackfillRealm a of (b, changed, r) \<Rightarrow>
                                (b, if changed
                                    then (case SaveAtomic b of Inl _ \<Rightarrow> [] | Inr doc \<Rightarrow> [(path, doc)])
                                    else []))
                           else (a, [])))))"

definition LoadDir :: "(string \<times> (bool \<times> json option) option) list \<Rightarrow> auth list \<times> (string \<times> json) list" where
  "LoadDir files =
     (let rs = concat (map (\<lambda>f. case load_file f of None \<Rightarrow> [] | Some r \<Rightarrow> [r]) files)
      in (map fst rs, concat (map snd rs)))"

subsection \<open>Round trips\<close>

lemma names_field_exact [simp]: "names_field f f"
  by (simp add: names_field_def)

lemma doc_fields:
  "parse_nested (case auth_doc a of JObj m \<Rightarrow> m | _ \<Rightarrow> [])
     = (if in64 (ExpiresAt a) then Some (a\<lparr>FilePath := []\<rparr>) else None)"
  by (cases "DeviceToken a = []")
    (simp_all add: parse_nested_def auth_doc_def field_defs names_field_def empty_auth_def has_prefix_def
      kelvin_sign_def long_s_def lower_byte_def)

lemma Parse_doc:
  assumes "trim_space (AccessToken a) \<noteq> []" "in64 (ExpiresAt a)"
  shows "Parse False (Some (auth_doc a)) = Inr (a\<lparr>FilePath := []\<rparr>)"
proof -
  obtain m where m: "auth_doc a = JObj m" "jget m ''auth'' \<noteq> None"
    by (simp add: auth_doc_def jget_def)
  have "parse_nested m = Some (a\<lparr>FilePath := []\<rparr>)" using doc_fields [of a] assms(2) m by simp
  then show ?thesis using assms m by (simp add: Parse_def as_map_def)
qed

lemma int64_field_in64: "int64_field f m = Some i \<Longrightarrow> in64 i"
proof -
  assume i: "int64_field f m = Some i"
  have "in64 (last_or 0 (map the (map int64_value vs)))" if "None \<notin> set (map int64_value vs)" for vs
    using that
    by (induction vs rule: rev_induct)
      (auto simp: last_or_def int64_value_def in64_def split: json.splits if_splits)
  with i show ?thesis by (auto simp: int64_field_def all_some_def split: if_splits)
qed

lemma Parse_InrD:
  assumes "Parse is_empty raw = Inr a"
  shows "trim_space (AccessToken a) \<noteq> []" "in64 (ExpiresAt a)"
  using assms int64_field_in64
  by (auto simp: Parse_def parse_nested_def parse_flat_def split: if_splits option.splits)

text \<open>
  reading back what \<open>SaveAtomic\<close> writes gives the credentials field by field, and loading
  a directory migrates a file without a realm once: the credentials then have a realm, and
  loading the file written gives the same credentials and writes nothing.
\<close>

theorem load_save_roundtrip:
  assumes "load_file (path, Some (is_empty, raw)) = Some (a, ws)" "path \<noteq> []"
  shows "realm a \<noteq> [] \<and> SaveAtomic a = Inr (auth_doc a)
    \<and> (ws = [] \<or> ws = [(path, auth_doc a)])
    \<and> load_file (path, Some (False, Some (auth_doc a))) = Some (a, [])"
proof -
  obtain a0 where a0: "Parse is_empty raw = Inr a0"
    using assms(1) by (auto simp: load_file_def split: sum.splits)
  let ?a = "a0\<lparr>FilePath := path\<rparr>"
  have save: "SaveAtomic b = Inr (auth_doc b)"
    if "AccessToken b = AccessToken a0" "FilePath b = path" for b
    using Parse_InrD(1) [OF a0] assms(2) that by (simp add: SaveAtomic_def)
  have bf: "BackfillRealm ?a = (?a\<lparr>realm := ResolveRealm [] (Domain a0)\<rparr>, True, ResolveRealm [] (Domain a0))"
    if "realm a0 = []" using that by (simp add: BackfillRealm_def Let_def)
  have r: "ResolveRealm [] d \<noteq> []" for d by (simp add: ResolveRealm_def)
  have ex: "a = (if realm a0 = [] then ?a\<lparr>realm := ResolveRealm [] (Domain a0)\<rparr> else ?a)"
      "ws = [] \<or> ws = [(path, auth_doc a)]"
    using assms(1) a0 bf save [of "?a\<lparr>realm := ResolveRealm [] (Domain a0)\<rparr>"]
    by (auto simp: load_file_def Let_def split: if_splits)
  have ne: "realm a \<noteq> []" "FilePath a = path" "AccessToken a = AccessToken a0" "ExpiresAt a = ExpiresAt a0"
    using ex(1) r by simp_all
  have "Parse False (Some (auth_doc a)) = Inr (a\<lparr>FilePath := []\<rparr>)"
    using Parse_InrD [OF a0] ne by (intro Parse_doc) simp_all
  then have "load_file (path, Some (False, Some (auth_doc a))) = Some (a, [])"
    using ne by (simp add: load_file_def flip: ne(2))
  then show ?thesis using ne ex(2) save [of a] by simp
qed

lemma load_save_roundtrip_witness:
  "load_file (''w.json'', Some (False, Some (auth_doc (empty_auth\<lparr>AccessToken := ''t'', realm := ''cn'', FilePath := ''w.json''\<rparr>))))
     = Some (empty_auth\<lparr>AccessToken := ''t'', realm := ''cn'', FilePath := ''w.json''\<rparr>, [])"
proof -
  have t: "trim_space ''t'' = ''t''" by (simp add: trim_space_printable printable_def)
  have d: "ResolveRealm [] [] = ''cn''"
    by (simp add: ResolveRealm_def is_global_domain_def Let_def has_suffix_def)
  have "load_file (''w.json'', Some (False, Some (JObj [(''accessToken'', JStr ''t'')])))
      = Some (empty_auth\<lparr>AccessToken := ''t'', realm := ''cn'', FilePath := ''w.json''\<rparr>,
          [(''w.json'', auth_doc (empty_auth\<lparr>AccessToken := ''t'', realm := ''cn'', FilePath := ''w.json''\<rparr>))])"
    by (simp add: load_file_def Parse_def as_map_def jget_def parse_flat_def field_defs names_field_def
        empty_auth_def has_prefix_def kelvin_sign_def long_s_def lower_byte_def t BackfillRealm_def d SaveAtomic_def Let_def)
  from load_save_roundtrip [OF this] show ?thesis by simp
qed

end
