(* ===== verification/PersistProps.thy ===== *)
theory PersistProps
  imports PersistFacts
begin

text \<open>The properties of the state file: merging, saving, restarting, membership and restoring.\<close>

subsection \<open>Merging\<close>

text \<open>
  C37: merging the maps of two writers is exactly the three-way merge: a key this process
  assigned explicitly takes its value (or goes), a key it did not change takes what is on disk,
  a key it removed goes unless the other side changed it, and a key it changed takes its value.
\<close>

theorem merge_is_three_way:
  assumes "wfmap base" "wfmap current"
  shows "mget (mergeStateFields base current latest forced) k
    = merge_spec (mget base) (mget current) (mget latest) (set forced) k"
  by (rule mget_mergeStateFields [OF assms])

lemma merge_is_three_way_witness:
  "mget (mergeStateFields [(''a'', 1), (''b'', 2)] [(''a'', 1), (''c'', 3)] [(''a'', 9), (''b'', 2)] []) ''a'' = Some (9 :: int)"
  using merge_is_three_way [of "[(''a'', 1), (''b'', 2)]" "[(''a'', 1), (''c'', 3 :: int)]" "[(''a'', 9), (''b'', 2)]" "[]" "''a''"]
  by (simp add: merge_spec_def)

text \<open>
  reading back the JSON object written for an account gives the account, up to the order
  of its model cooldowns, whatever the zero values left out by \<open>omitempty\<close>.
\<close>

theorem account_json_roundtrip:
  "of_fields (stateFields a) = a\<lparr>sa_ModelCooldowns := sort_models (sa_ModelCooldowns a)\<rparr>"
  by (rule of_fields_stateFields)

text \<open>
  the counters of two processes add up: what this process counted since its base is added
  to what is on disk, so no success and no error of either is lost.
\<close>

theorem merged_counters_add:
  assumes "mergeStateAccount base current latest intent = Inr r"
    and "intent = None \<or> (\<exists>i. intent = Some i \<and> \<not> importedCounters i)"
    and "0 \<le> sa_SuccessCount base" "sa_SuccessCount base \<le> sa_SuccessCount current"
    and "0 \<le> sa_SuccessCount latest"
    and "sa_SuccessCount latest + (sa_SuccessCount current - sa_SuccessCount base) \<le> max_int64"
    and "sa_ErrCount base = 0" "sa_ErrCount latest = 0"
    and "0 \<le> sa_ErrTotal base" "sa_ErrTotal base \<le> sa_ErrTotal current" "0 \<le> sa_ErrTotal latest"
    and "sa_ErrTotal latest + (sa_ErrTotal current - sa_ErrTotal base) \<le> max_int64"
  shows "sa_SuccessCount r = sa_SuccessCount latest + (sa_SuccessCount current - sa_SuccessCount base)
    \<and> sa_ErrTotal r = sa_ErrTotal latest + (sa_ErrTotal current - sa_ErrTotal base)
    \<and> sa_LastSuccess latest \<le> sa_LastSuccess r \<and> sa_LastErr latest \<le> sa_LastErr r"
proof -
  let ?i = "case intent of None \<Rightarrow> new_intent | Some x \<Rightarrow> x"
  have i: "\<not> importedCounters ?i" using assms(2) by (auto simp: new_intent_def)
  have s: "mergedCounter (sa_SuccessCount latest) (sa_SuccessCount current) (sa_SuccessCount base)
      = Inr (sa_SuccessCount latest + (sa_SuccessCount current - sa_SuccessCount base))"
    by (rule mergedCounter_adds [OF assms(3-6)])
  have e: "mergedCounter (sa_ErrTotal latest) (sa_ErrTotal current) (sa_ErrTotal base)
      = Inr (sa_ErrTotal latest + (sa_ErrTotal current - sa_ErrTotal base))"
    by (rule mergedCounter_adds [OF assms(9-12)])
  show ?thesis
    using assms(1) i s e assms(7-11) by (auto simp: mergeStateAccount_def Let_def)
qed

lemma demo_merge:
  "\<not> isl (mergeStateAccount (zero_stateAccount\<lparr>sa_SuccessCount := 3\<rparr>) (zero_stateAccount\<lparr>sa_SuccessCount := 5\<rparr>)
      (zero_stateAccount\<lparr>sa_SuccessCount := 10\<rparr>) None)"
  by code_simp

lemma merged_counters_add_witness:
  "\<exists>r. mergeStateAccount (zero_stateAccount\<lparr>sa_SuccessCount := 3\<rparr>) (zero_stateAccount\<lparr>sa_SuccessCount := 5\<rparr>)
      (zero_stateAccount\<lparr>sa_SuccessCount := 10\<rparr>) None = Inr r \<and> sa_SuccessCount r = 12"
proof -
  obtain r where r: "mergeStateAccount (zero_stateAccount\<lparr>sa_SuccessCount := 3\<rparr>) (zero_stateAccount\<lparr>sa_SuccessCount := 5\<rparr>)
      (zero_stateAccount\<lparr>sa_SuccessCount := 10\<rparr>) None = Inr r"
    using demo_merge by (metis isl_def sum.exhaust)
  from merged_counters_add [OF this] show ?thesis
    using r by (simp add: zero_stateAccount_def)
qed

subsection \<open>Saving\<close>

text \<open>
  a save never destroys what it cannot read: with an unreadable or corrupt file, or when
  any step of writing fails, the file stays as it is, the pool stays dirty and keeps its
  intents for the next attempt; only a completed write clears them.
\<close>

theorem failed_save_changes_nothing:
  assumes "stateFp p \<noteq> []"
  shows "(\<not> io_ok \<or> d = Unreadable \<or> d = Corrupt \<longrightarrow>
      snd (saveLocked io_ok now d p) = d \<and> dirty (fst (saveLocked io_ok now d p))
      \<and> stateIntents (fst (saveLocked io_ok now d p)) = stateIntents p
      \<and> persistFails (fst (saveLocked io_ok now d p)) = persistFails p + 1)
    \<and> byUID (fst (saveLocked io_ok now d p)) = byUID p
    \<and> (\<not> dirty (fst (saveLocked io_ok now d p)) \<longrightarrow>
        (\<exists>sf. snd (saveLocked io_ok now d p) = Present sf)
        \<and> stateIntents (fst (saveLocked io_ok now d p)) = [] \<and> persistFails (fst (saveLocked io_ok now d p)) = 0)"
  using assms
  by (auto simp: saveLocked_def notePersistFail_def mergedStateLocked_def Let_def split: sum.split)

lemma failed_save_changes_nothing_witness:
  "snd (saveLocked True 5 Corrupt (New_pool ''state.json'')) = Corrupt"
  using failed_save_changes_nothing [of "New_pool ''state.json''" True Corrupt 5]
  by (simp add: New_pool_def)

subsection \<open>Restarting\<close>

text \<open>
  a restart between saving and loading changes no decision: at any later time an account
  restored from the file is healthy, and holds a model back, exactly as the account saved.
\<close>

theorem restart_keeps_selection:
  assumes "wfmap (modelCooldowns e)" "now \<le> t"
  shows "healthyForModel (entry_of_state now uid (state_of_entry now e)) t m = healthyForModel e t m
    \<and> credits (entry_of_state now uid (state_of_entry now e)) = credits e
    \<and> disabled (entry_of_state now uid (state_of_entry now e)) = disabled e
    \<and> successCount (entry_of_state now uid (state_of_entry now e)) = successCount e"
  using restart_healthy [OF assms(2)] restart_models [OF assms]
  by (simp add: healthyForModel_iff entry_of_state_def state_of_entry_def Let_def)

lemma restart_keeps_selection_witness:
  "healthyForModel (entry_of_state 10 ''a'' (state_of_entry 10 ((new_entry empty_auth)\<lparr>until := 50\<rparr>))) 20 ''m''
     = healthyForModel ((new_entry empty_auth)\<lparr>until := 50\<rparr>) 20 ''m''"
  using restart_keeps_selection [of "(new_entry empty_auth)\<lparr>until := 50\<rparr>" 10 20]
  by (simp add: new_entry_def)

subsection \<open>Deletion epochs\<close>

text \<open>One round of the loop over the accounts of this process.\<close>

definition stale_creation :: "pool \<Rightarrow> stateFile \<Rightarrow> string \<Rightarrow> bool" where
  "stale_creation p f uid = (case mget (stateIntents p) uid of None \<Rightarrow> False
     | Some i \<Rightarrow> created i \<and> createdEpoch i \<noteq> epoch_of (AccountEpochs f) uid)"

lemma merge_accounts_step:
  assumes "merge_accounts p ((v, a) # as) f = Inr r"
  shows "\<exists>f'. merge_accounts p as f' = Inr r \<and> AccountEpochs f' = AccountEpochs f
    \<and> (\<forall>u. u \<noteq> v \<longrightarrow> mget (Accounts f') u = mget (Accounts f) u)
    \<and> (stale_creation p f v \<longrightarrow> f' = f)"
proof (cases "stale_creation p f v")
  case True
  then show ?thesis
    using assms by (intro exI [of _ f]) (simp add: stale_creation_def Let_def split: option.splits)
next
  case False
  then have ns: "\<not> (case mget (stateIntents p) v of None \<Rightarrow> False
           | Some i \<Rightarrow> created i \<and> createdEpoch i \<noteq> epoch_of (AccountEpochs f) v)"
    by (simp add: stale_creation_def)
  note run = assms [unfolded merge_accounts.simps Let_def if_not_P [OF ns]]
  show ?thesis
  proof (cases "mget (Accounts f) v")
    case None
    note run = run [unfolded None option.case]
    show ?thesis
    proof (cases "mget (Accounts (persistBase p)) v = None \<or>
        (case mget (stateIntents p) v of None \<Rightarrow> False | Some i \<Rightarrow> created i)")
      case True
      show ?thesis
        using run [unfolded if_P [OF True]] False
        by (intro exI [of _ "f\<lparr>Accounts := mput v a (Accounts f)\<rparr>"]) simp
    next
      case keep: False
      show ?thesis using run [unfolded if_not_P [OF keep]] False by (intro exI [of _ f]) simp
    qed
  next
    case (Some x)
    then obtain y where "merge_accounts p as (f\<lparr>Accounts := mput v y (Accounts f)\<rparr>) = Inr r"
      using run by (auto split: sum.splits)
    then show ?thesis using False by (intro exI [of _ "f\<lparr>Accounts := mput v y (Accounts f)\<rparr>"]) simp
  qed
qed

lemma merge_accounts_untouched:
  assumes "merge_accounts p as f = Inr r" "stale_creation p f uid \<or> uid \<notin> set (mkeys as)"
  shows "mget (Accounts r) uid = mget (Accounts f) uid \<and> AccountEpochs r = AccountEpochs f"
  using assms
proof (induction as arbitrary: f)
  case Nil
  then show ?case by simp
next
  case (Cons x as)
  obtain v a where x: "x = (v, a)" by fastforce
  obtain f' where f': "merge_accounts p as f' = Inr r" "AccountEpochs f' = AccountEpochs f"
      "\<And>u. u \<noteq> v \<Longrightarrow> mget (Accounts f') u = mget (Accounts f) u" "stale_creation p f v \<Longrightarrow> f' = f"
    using merge_accounts_step Cons.prems(1) x by metis
  have same: "mget (Accounts f') uid = mget (Accounts f) uid"
    using f'(3,4) Cons.prems(2) x by (cases "uid = v") auto
  have "stale_creation p f' uid \<or> uid \<notin> set (mkeys as)"
    using Cons.prems(2) f'(2) by (auto simp: stale_creation_def x split: option.splits)
  from Cons.IH [OF f'(1) this] show ?case using same f'(2) by simp
qed

lemma apply_deletions_other:
  assumes "apply_deletions is f = Inr r" "\<And>i. (uid, i) \<in> set is \<Longrightarrow> \<not> deleted i"
  shows "mget (Accounts r) uid = mget (Accounts f) uid
    \<and> epoch_of (AccountEpochs r) uid = epoch_of (AccountEpochs f) uid"
  using assms
proof (induction "is" arbitrary: f)
  case Nil
  then show ?case by simp
next
  case (Cons x as)
  obtain v i where x: "x = (v, i)" by fastforce
  have IH: "apply_deletions as g = Inr r \<Longrightarrow> mget (Accounts r) uid = mget (Accounts g) uid
    \<and> epoch_of (AccountEpochs r) uid = epoch_of (AccountEpochs g) uid" for g
    using Cons by simp
  have "deleted i \<Longrightarrow> v \<noteq> uid" using Cons.prems(2) x by auto
  then show ?case
    using Cons.prems(1) IH by (auto simp: x epoch_of_def split: if_splits)
qed

text \<open>A deletion by this process removes the account and raises its epoch by one.\<close>

lemma apply_deletions_deletes:
  assumes "apply_deletions is f = Inr r" "wfmap is" "mget is uid = Some i" "deleted i" "deletedEpoch i = 0"
  shows "mget (Accounts r) uid = None \<and> epoch_of (AccountEpochs r) uid = epoch_of (AccountEpochs f) uid + 1"
  using assms
proof (induction "is" arbitrary: f)
  case Nil
  then show ?case by simp
next
  case (Cons x as)
  obtain v j where x: "x = (v, j)" by fastforce
  show ?case
  proof (cases "v = uid")
    case True
    then have j: "j = i" using Cons.prems(3) x by simp
    let ?f = "f\<lparr>AccountEpochs := mput uid (epoch_of (AccountEpochs f) uid + 1) (AccountEpochs f),
                   Accounts := mdel uid (Accounts f)\<rparr>"
    have "apply_deletions as ?f = Inr r"
      using Cons.prems x True j by (auto split: if_splits)
    moreover have "(uid, k) \<notin> set as" for k using Cons.prems(2) x True by (force simp: image_iff)
    ultimately have "mget (Accounts r) uid = mget (Accounts ?f) uid
        \<and> epoch_of (AccountEpochs r) uid = epoch_of (AccountEpochs ?f) uid"
      using apply_deletions_other by blast
    then show ?thesis by (simp add: epoch_of_def)
  next
    case False
    then have i: "mget as uid = Some i" "wfmap as" using Cons.prems(2,3) x by simp_all
    have IH: "apply_deletions as g = Inr r \<Longrightarrow> mget (Accounts r) uid = None
        \<and> epoch_of (AccountEpochs r) uid = epoch_of (AccountEpochs g) uid + 1" for g
      using Cons.IH i Cons.prems(4,5) by blast
    show ?thesis using Cons.prems(1) IH False by (auto simp: x epoch_of_def split: if_splits)
  qed
qed

lemma raise_epochs_ge: "epoch_of latest uid \<le> epoch_of (raise_epochs current latest) uid"
proof (induction current arbitrary: latest)
  case Nil
  then show ?case by (simp add: raise_epochs_def)
next
  case (Cons x current)
  obtain v n where x: "x = (v, n)" by fastforce
  have "raise_epochs (x # current) latest
      = raise_epochs current (mput v (max (epoch_of latest v) n) latest)"
    by (simp add: raise_epochs_def x)
  moreover have "epoch_of latest uid \<le> epoch_of (mput v (max (epoch_of latest v) n) latest) uid"
    by (simp add: epoch_of_def)
  ultimately show ?case using Cons.IH order_trans by metis
qed

lemma stateOverview_frame [simp]: "mkeys (Accounts (stateOverviewLocked now p)) = mkeys (byUID p)"
  by (simp add: stateOverviewLocked_def comp_def case_prod_unfold)

text \<open>What a save leaves of an account that another process deleted meanwhile.\<close>

lemma stale_creation_not_saved:
  assumes "mget (stateIntents p) uid = Some i" "created i" "wfmap (stateIntents p)" "\<not> deleted i"
    and "createdEpoch i < epoch_of (AccountEpochs latest) uid" "mget (Accounts latest) uid = None"
  shows "\<exists>sf. snd (saveLocked io_ok now (Present latest) p) = Present sf \<and> mget (Accounts sf) uid = None"
proof (cases "stateFp p = [] \<or> \<not> io_ok \<or> (\<exists>e. mergedStateLocked (Present latest) p (stateOverviewLocked now p) = Inl e)")
  case True
  then have "snd (saveLocked io_ok now (Present latest) p) = Present latest"
    by (auto simp: saveLocked_def Let_def)
  then show ?thesis using assms(6) by simp
next
  case False
  then obtain sf where sf: "mergedStateLocked (Present latest) p (stateOverviewLocked now p) = Inr sf"
    by (meson old.sum.exhaust)
  let ?l = "latest\<lparr>AccountEpochs := raise_epochs (AccountEpochs (stateOverviewLocked now p)) (AccountEpochs latest)\<rparr>"
  obtain f where f: "apply_deletions (stateIntents p) ?l = Inr f"
      "merge_accounts p (Accounts (stateOverviewLocked now p)) f = Inr sf"
    using sf by (auto simp: mergedStateLocked_def split: sum.splits)
  have "\<not> deleted j" if "(uid, j) \<in> set (stateIntents p)" for j
    using that assms(1,3,4) wf_mget_iff [OF assms(3)] by fastforce
  then have d: "mget (Accounts f) uid = None"
      "epoch_of (AccountEpochs f) uid = epoch_of (AccountEpochs ?l) uid"
    using apply_deletions_other [OF f(1)] assms(6) by simp_all
  have "epoch_of (AccountEpochs latest) uid \<le> epoch_of (AccountEpochs f) uid"
    using d(2) raise_epochs_ge by simp
  then have "stale_creation p f uid" using assms(1,2,5) by (simp add: stale_creation_def)
  then have "mget (Accounts sf) uid = None" using merge_accounts_untouched [OF f(2)] d(1) by simp
  then show ?thesis using False sf by (simp add: saveLocked_def Let_def)
qed

text \<open>
  C36: a deletion wins over every creation that did not know of it. Process B deletes an
  account and saves; process A, which added the account while its deletion epoch was still the
  old one, saves afterwards. Neither file contains the account.
\<close>

theorem deletion_wins:
  assumes A: "mget (stateIntents pA) uid = Some i" "created i" "\<not> deleted i" "wfmap (stateIntents pA)"
      "createdEpoch i = epoch_of (AccountEpochs d0) uid"
    and B: "wfmap (stateIntents pB)" "stateFp pB \<noteq> []"
      "saveLocked True now (Present d0) (drop_account uid pB) = (qB, Present d1)" "\<not> dirty qB"
  shows "mget (Accounts d1) uid = None
    \<and> (\<exists>sf. snd (saveLocked io_ok now' (Present d1) pA) = Present sf \<and> mget (Accounts sf) uid = None)"
proof -
  let ?p = "drop_account uid pB"
  let ?c = "stateOverviewLocked now ?p"
  have p: "stateFp ?p \<noteq> []" "wfmap (stateIntents ?p)"
    "mget (stateIntents ?p) uid = Some ((intent_of pB uid)\<lparr>deleted := True, deletedEpoch := 0\<rparr>)"
    "uid \<notin> set (mkeys (byUID ?p))"
    using B(1,2) by (simp_all add: drop_account_def put_intent_def Let_def del: set_map)
  have m: "mergedStateLocked (Present d0) ?p ?c = Inr d1"
    using B(3,4) p(1) by (auto simp: saveLocked_def Let_def notePersistFail_def split: sum.splits)
  let ?l = "d0\<lparr>AccountEpochs := raise_epochs (AccountEpochs ?c) (AccountEpochs d0)\<rparr>"
  obtain f where f: "apply_deletions (stateIntents ?p) ?l = Inr f" "merge_accounts ?p (Accounts ?c) f = Inr d1"
    using m by (auto simp: mergedStateLocked_def split: sum.splits)
  have g: "mget (Accounts f) uid = None" "epoch_of (AccountEpochs f) uid = epoch_of (AccountEpochs ?l) uid + 1"
    using apply_deletions_deletes [OF f(1) p(2,3)] by simp_all
  have "uid \<notin> set (mkeys (Accounts ?c))" using p(4) by (simp only: stateOverview_frame not_False_eq_True)
  then have h: "mget (Accounts d1) uid = None" "epoch_of (AccountEpochs d1) uid = epoch_of (AccountEpochs f) uid"
    using merge_accounts_untouched [OF f(2), of uid] g(1) by simp_all
  have "createdEpoch i < epoch_of (AccountEpochs d1) uid"
    using A(5) h(2) g(2) raise_epochs_ge [of "AccountEpochs d0" uid "AccountEpochs ?c"] by simp
  from stale_creation_not_saved [OF A(1,2,4,3) this h(1)] h(1) show ?thesis by blast
qed

lemma deletion_wins_witness:
  defines "d0 \<equiv> \<lparr>Accounts = [(''u'', zero_stateAccount)], AccountEpochs = []\<rparr>"
    and "pA \<equiv> (New_pool ''s'')\<lparr>byUID := [(''u'', new_entry (empty_auth\<lparr>UID := ''u''\<rparr>))],
           stateIntents := [(''u'', new_intent\<lparr>created := True\<rparr>)]\<rparr>"
    and "pB \<equiv> (New_pool ''s'')\<lparr>byUID := [(''u'', new_entry (empty_auth\<lparr>UID := ''u''\<rparr>))]\<rparr>"
    and "d1 \<equiv> \<lparr>Accounts = [], AccountEpochs = [(''u'', 1 :: nat)]\<rparr>"
  shows "\<exists>sf. snd (saveLocked True 9 (Present d1) pA) = Present sf \<and> mget (Accounts sf) ''u'' = None"
proof -
  let ?i = "new_intent\<lparr>created := True\<rparr>"
  have i: "mget (stateIntents pA) ''u'' = Some ?i" by (simp add: pA_def)
  have a: "created ?i" "\<not> deleted ?i" "wfmap (stateIntents pA)" "createdEpoch ?i = epoch_of (AccountEpochs d0) ''u''"
    by (simp_all add: pA_def new_intent_def d0_def epoch_of_def)
  obtain qB where b: "saveLocked True 5 (Present d0) (drop_account ''u'' pB) = (qB, Present d1)" "\<not> dirty qB"
    by (simp add: saveLocked_def drop_account_def put_intent_def intent_of_def pB_def d0_def d1_def New_pool_def
        new_intent_def stateOverviewLocked_def mergedStateLocked_def raise_epochs_def epoch_of_def Let_def
        zero_stateFile_def max_uint64_def)
  have "wfmap (stateIntents pB)" "stateFp pB \<noteq> []" by (simp_all add: pB_def New_pool_def)
  from deletion_wins [OF i a this b, of True 9] show ?thesis by blast
qed

subsection \<open>Membership\<close>

lemma upsert_keys: "set (mkeys (byUID (upsertLocked d a p))) = insert (UID a) (set (mkeys (byUID p)))"
  by (simp only: upsert_byUID set_mkeys_mput)

lemma upserts_keys: "set (mkeys (byUID (foldl (\<lambda>q a. upsertLocked d a q) p as))) = UID ` set as \<union> set (mkeys (byUID p))"
  by (induction as arbitrary: p) (simp_all add: upsert_keys del: set_map)

lemma drops_keys: "set (mkeys (byUID (foldl (\<lambda>q uid. drop_account uid q) p us))) = set (mkeys (byUID p)) - set us"
  by (induction us arbitrary: p) (auto simp: drop_account_def put_intent_def Let_def simp del: set_map simp: set_mkeys_mdel)

lemma saveLocked_byUID: "byUID (fst (saveLocked io_ok now d p)) = byUID p"
  by (auto simp: saveLocked_def notePersistFail_def Let_def split: sum.split)

text \<open>
  aligning the pool with the credential directory leaves exactly the accounts of the
  directory in the pool, whatever happens to the state file.
\<close>

theorem sync_exact:
  "set (mkeys (byUID (fst (SyncToDir io_ok now d auths p)))) = UID ` set auths"
proof -
  define q where "q = foldl (\<lambda>q a. upsertLocked d a q) p auths"
  define gone where "gone = filter (\<lambda>uid. uid \<notin> UID ` set auths) (mkeys (byUID q))"
  define r where "r = foldl (\<lambda>q uid. drop_account uid q) q gone"
  have "SyncToDir io_ok now d auths p = (if gone \<noteq> [] then saveLocked io_ok now d r else (r, d))"
    by (simp only: SyncToDir_def Let_def gone_def r_def q_def)
  then have "byUID (fst (SyncToDir io_ok now d auths p)) = byUID r"
    by (simp add: saveLocked_byUID)
  moreover have "set (mkeys (byUID r)) = UID ` set auths"
    unfolding r_def drops_keys gone_def q_def upserts_keys by (auto simp: upserts_keys simp del: set_map)
  ultimately show ?thesis by simp
qed

end
