(* ===== verification/Session.thy ===== *)
theory Session
  imports PoolPick Json Decimal
begin

text \<open>
  Sticky sessions, \<open>internal/session\<close>: the router that keeps a conversation on one account,
  the session key and the identifiers derived from a request, and the closure of
  \<open>wiring.go\<close> that offers the router the accounts of the pool for a model name.
\<close>

subsection \<open>The router, \<open>session.go\<close>\<close>

record binding =
  b_uid :: string
  lastActive :: instant

text \<open>The writes mirrored to the store, in order.\<close>

datatype store_op = SetBind string string | DelBind string

record router =
  entries :: "(string, binding) gomap"
  mirrored :: "store_op list"
  TTL :: duration

definition New_router :: "duration \<Rightarrow> router" where
  "New_router ttl = \<lparr>entries = [], mirrored = [], TTL = (if ttl \<le> 0 then 30 * minute else ttl)\<rparr>"

definition expired :: "binding \<Rightarrow> instant \<Rightarrow> duration \<Rightarrow> bool" where
  "expired e now ttl \<longleftrightarrow> time_sub now (lastActive e) > ttl"

definition emit :: "store_op \<Rightarrow> router \<Rightarrow> router" where
  "emit op r = r\<lparr>mirrored := mirrored r @ [op]\<rparr>"

definition put_binding :: "string \<Rightarrow> string \<Rightarrow> instant \<Rightarrow> router \<Rightarrow> router" where
  "put_binding key uid now r = r\<lparr>entries := mput key \<lparr>b_uid = uid, lastActive = now\<rparr> (entries r)\<rparr>"

definition touch :: "string \<Rightarrow> string \<Rightarrow> instant \<Rightarrow> router \<Rightarrow> router" where
  "touch key uid now r = emit (SetBind key uid) (put_binding key uid now r)"

text \<open>FNV-1a on 32 bits.\<close>

definition fnv1a :: "string \<Rightarrow> 32 word" where
  "fnv1a key = foldl (\<lambda>h c. (xor h (of_char c)) * 16777619) 2166136261 key"

definition hashIndex :: "string \<Rightarrow> nat \<Rightarrow> nat" where
  "hashIndex key n = unat (fnv1a key mod of_nat n)"

text \<open>The fast path: what the read lock sees.\<close>

definition lookup_bound :: "instant \<Rightarrow> string \<Rightarrow> string list \<Rightarrow> router \<Rightarrow> string option" where
  "lookup_bound now key available r =
     (case mget (entries r) key of
        None \<Rightarrow> None
      | Some e \<Rightarrow> if \<not> expired e now (TTL r) \<and> b_uid e \<in> set available then Some (b_uid e) else None)"

text \<open>The slow path, under the write lock; \<open>uids\<close> is the list of accounts read again.\<close>

definition assign :: "instant \<Rightarrow> string \<Rightarrow> string list \<Rightarrow> router \<Rightarrow> router \<times> string option" where
  "assign now key uids r =
     (if uids = [] then (r, None)
      else
        let bound = (b_uid \<circ> snd) ` set (entries r);
            idle = filter (\<lambda>u. u \<notin> bound) uids;
            pool2 = (if idle = [] then uids else idle);
            uid = pool2 ! hashIndex key (length pool2);
            prev = mget (entries r) key;
            r1 = put_binding key uid now r;
            r2 = (case prev of
                    None \<Rightarrow> r1
                  | Some e \<Rightarrow> if b_uid e \<noteq> uid then emit (DelBind key) r1 else r1)
        in (emit (SetBind key uid) r2, Some uid))"

definition resolve_slow ::
  "instant \<Rightarrow> string \<Rightarrow> string list \<Rightarrow> string list \<Rightarrow> router \<Rightarrow> router \<times> string option" where
  "resolve_slow now key available uids r =
     (case mget (entries r) key of
        None \<Rightarrow> assign now key uids r
      | Some e \<Rightarrow>
          if expired e now (TTL r) then assign now key uids r
          else if b_uid e \<in> set available then (put_binding key (b_uid e) now r, Some (b_uid e))
          else assign now key uids (r\<lparr>entries := mdel key (entries r)\<rparr>))"

text \<open>
  A call without interference between the two paths: \<open>available\<close> and \<open>uids\<close> are the two
  readings of the account list.
\<close>

definition ResolveForModel ::
  "instant \<Rightarrow> string \<Rightarrow> string list \<Rightarrow> string list \<Rightarrow> router \<Rightarrow> router \<times> string option" where
  "ResolveForModel now key available uids r =
     (case lookup_bound now key available r of
        Some uid \<Rightarrow> (touch key uid now r, Some uid)
      | None \<Rightarrow> resolve_slow now key available uids r)"

definition Bind :: "instant \<Rightarrow> string \<Rightarrow> string \<Rightarrow> router \<Rightarrow> router" where
  "Bind now key uid r = (if key = [] \<or> uid = [] then r else touch key uid now r)"

definition Unbind :: "string \<Rightarrow> router \<Rightarrow> router \<times> bool" where
  "Unbind key r =
     (if mget (entries r) key = None then (r, False)
      else (emit (DelBind key) (r\<lparr>entries := mdel key (entries r)\<rparr>), True))"

definition gcOnce :: "instant \<Rightarrow> router \<Rightarrow> router \<times> nat" where
  "gcOnce now r =
     (let expiredKeys = map fst (filter (\<lambda>(k, e). time_sub now (lastActive e) > TTL r) (entries r));
          r1 = foldl (\<lambda>q k. q\<lparr>entries := mdel k (entries q)\<rparr>) r expiredKeys
      in (foldl (\<lambda>q k. emit (DelBind k) q) r1 expiredKeys, length expiredKeys))"

definition LoadFromStore :: "instant \<Rightarrow> (string \<times> string) list \<Rightarrow> router \<Rightarrow> router" where
  "LoadFromStore now binds r =
     foldl (\<lambda>q (key, uid). if mget (entries q) key \<noteq> None then q else put_binding key uid now q) r binds"

subsection \<open>Keys and identifiers, \<open>ids.go\<close>\<close>

fun first_nonempty :: "string list \<Rightarrow> string" where
  "first_nonempty [] = []"
| "first_nonempty (s # ss) = (if s \<noteq> [] then s else first_nonempty ss)"

text \<open>The body as decoded: \<open>None\<close> for an empty body or one that is not a JSON object.\<close>

definition ExtractKey :: "obj option \<Rightarrow> string" where
  "ExtractKey body =
     (case body of
        None \<Rightarrow> []
      | Some m \<Rightarrow>
          let meta = (\<lambda>k. case obj_of (jget m ''metadata'') of None \<Rightarrow> [] | Some o1 \<Rightarrow> str_or_empty (jget o1 k));
              cm = (\<lambda>k. case obj_of (jget m ''client_metadata'') of None \<Rightarrow> [] | Some o1 \<Rightarrow> str_or_empty (jget o1 k))
          in first_nonempty
               ([meta ''conversation_id'', meta ''conversationId'']
                @ map (\<lambda>k. str_or_empty (jget m k)) [''conversation_id'', ''conversationId'']
                @ map cm [''thread_id'', ''threadId'', ''session_id'', ''sessionId'',
                          ''conversation_id'', ''conversationId'']
                @ [str_or_empty (jget m ''prompt_cache_key''), meta ''user_id'']))"

definition ResolveConversationID :: "obj option \<Rightarrow> string" where
  "ResolveConversationID body =
     (case body of
        None \<Rightarrow> []
      | Some m \<Rightarrow>
          let meta = (\<lambda>k. case obj_of (jget m ''metadata'') of None \<Rightarrow> [] | Some o1 \<Rightarrow> str_or_empty (jget o1 k))
          in first_nonempty [meta ''conversation_id'', meta ''conversationId'',
               str_or_empty (jget m ''conversation_id''), str_or_empty (jget m ''conversationId'')])"

text \<open>\<open>sha16\<close>: the hexadecimal form of the first 16 bytes of SHA-256.\<close>

definition scope_payload :: "string \<Rightarrow> string \<Rightarrow> string" where
  "scope_payload caller key = ''wb2api-caller-v1:'' @ dec (length caller) @ '':'' @ caller @ key"

definition ScopeKey :: "(string \<Rightarrow> string) \<Rightarrow> string \<Rightarrow> string \<Rightarrow> string" where
  "ScopeKey sha16 caller key =
     (if caller = [] \<or> key = [] then key else sha16 (scope_payload caller key))"

text \<open>\<open>fresh\<close> is the random identifier that \<open>NewMessageID\<close> returns.\<close>

definition RequestIDForKey :: "(string \<Rightarrow> string) \<Rightarrow> string \<Rightarrow> string \<Rightarrow> string \<Rightarrow> string" where
  "RequestIDForKey sha16 salt fresh key =
     (if key = [] then fresh else sha16 (salt @ ''|'' @ key))"

definition TurnRequestID :: "(string \<Rightarrow> string) \<Rightarrow> string \<Rightarrow> string \<Rightarrow> string \<Rightarrow> string" where
  "TurnRequestID sha16 salt fresh turnKey =
     (if turnKey = [] then fresh else sha16 (salt @ ''|'' @ turnKey))"

text \<open>The text of a message: a string, or the texts of its parts one after the other.\<close>

definition part_text :: "json \<Rightarrow> string option" where
  "part_text p = (case p of JNull \<Rightarrow> Some [] | JObj m \<Rightarrow> str_field ''text'' m | _ \<Rightarrow> None)"

definition contentText :: "json option \<Rightarrow> string" where
  "contentText content =
     (case content of
        Some (JStr s) \<Rightarrow> s
      | Some (JArr ps) \<Rightarrow> (case all_some (map part_text ps) of None \<Rightarrow> [] | Some ts \<Rightarrow> concat ts)
      | _ \<Rightarrow> [])"

record message =
  Role :: string
  Content :: "json option"

text \<open>The last user message, with its index; no text means no key.\<close>

fun last_user :: "nat \<Rightarrow> message list \<Rightarrow> (nat \<times> message) option" where
  "last_user i [] = None"
| "last_user i (m # ms) =
     (case last_user (Suc i) ms of
        Some r \<Rightarrow> Some r
      | None \<Rightarrow> if Role m = ''user'' then Some (i, m) else None)"

definition TurnKey :: "message list option \<Rightarrow> string" where
  "TurnKey messages =
     (case messages of
        None \<Rightarrow> []
      | Some ms \<Rightarrow>
          (case last_user 0 ms of
             None \<Rightarrow> []
           | Some (i, m) \<Rightarrow>
               let text = contentText (Content m)
               in if text = [] then [] else ''u'' @ dec i @ '':'' @ text))"

subsection \<open>Accounts for a model name, \<open>resolve_model.go\<close> and \<open>wiring.go\<close>\<close>

definition resolveModel :: "string \<Rightarrow> string \<times> string" where
  "resolveModel model =
     (case cut_at (CHR '':'') model of
        None \<Rightarrow> (''cn'', model)
      | Some (prefix, bare) \<Rightarrow>
          if prefix \<noteq> ''cn'' \<and> prefix \<noteq> ''global'' then (''cn'', model) else (prefix, bare))"

definition realmAwareAvailableForModel :: "bool \<Rightarrow> instant \<Rightarrow> pool \<Rightarrow> string \<Rightarrow> string list" where
  "realmAwareAvailableForModel g now p model =
     (case resolveModel model of (rlm, bare) \<Rightarrow> AvailableUIDsForModelRealm g now bare rlm p)"

subsection \<open>The degrade gate, \<open>degrade.go\<close>\<close>

definition Active :: "instant \<Rightarrow> instant \<Rightarrow> bool" where
  "Active gate now \<longleftrightarrow> now < gate"

text \<open>The loop that advances by a day until the midnight lies ahead.\<close>

function after_now :: "instant \<Rightarrow> instant \<Rightarrow> instant" where
  "after_now midnight now = (if midnight > now then midnight else after_now (midnight + 24 * hour) now)"
  by auto
termination
  by (relation "measure (\<lambda>(m, n). nat (n - m + 1))") (auto simp: dur_defs)

declare after_now.simps [simp del]

definition nextMidnightCST :: "instant \<Rightarrow> instant" where
  "nextMidnightCST now = after_now (((now + 8 * hour) div day) * day - 8 * hour) now"

definition Trigger :: "instant \<Rightarrow> instant \<Rightarrow> instant" where
  "Trigger gate now = (if \<not> now < gate then nextMidnightCST now else gate)"

end
