(* ===== verification/SessionProps.thy ===== *)
theory SessionProps
  imports Session PickFacts
begin

text \<open>
  What the session router guarantees. The router knows accounts only through the list its
  configuration offers for a model; the locale states what it may rely on, the pool meets it.
\<close>

subsection \<open>The hash\<close>

lemma hashIndex_less:
  assumes "0 < n" "n < 2 ^ 32"
  shows "hashIndex key n < n"
proof -
  have "unat (of_nat n :: 32 word) = n" 
    using assms(2) by (simp add: unsigned_of_nat take_bit_nat_eq_self)
  then have "hashIndex key n = unat (fnv1a key) mod n" by (simp add: hashIndex_def unat_mod)
  then show ?thesis using assms(1) by simp
qed

lemma assign_SomeD:
  assumes "uids \<noteq> []" "length uids < 2 ^ 32" "assign now key uids r = (q, x)"
  shows "\<exists>uid. x = Some uid \<and> uid \<in> set uids \<and> mget (entries q) key = Some \<lparr>b_uid = uid, lastActive = now\<rparr>
    \<and> TTL q = TTL r
    \<and> ((\<exists>u \<in> set uids. u \<notin> (b_uid \<circ> snd) ` set (entries r)) \<longrightarrow> uid \<notin> (b_uid \<circ> snd) ` set (entries r))"
proof -
  let ?idle = "filter (\<lambda>u. u \<notin> (b_uid \<circ> snd) ` set (entries r)) uids"
  define pool2 where "pool2 = (if ?idle = [] then uids else ?idle)"
  define uid where "uid = pool2 ! hashIndex key (length pool2)"
  have ne: "pool2 \<noteq> []" using assms(1) by (simp add: pool2_def)
  have "length pool2 \<le> length uids" by (simp add: pool2_def)
  then have "hashIndex key (length pool2) < length pool2"
    using ne assms(2) by (intro hashIndex_less) simp_all
  then have mem: "uid \<in> set pool2" by (simp add: uid_def)
  have "(q, x) = (emit (SetBind key uid)
        (case mget (entries r) key of None \<Rightarrow> put_binding key uid now r
         | Some e \<Rightarrow> if b_uid e \<noteq> uid then emit (DelBind key) (put_binding key uid now r)
                     else put_binding key uid now r), Some uid)"
    unfolding assms(3) [symmetric] assign_def Let_def if_not_P [OF assms(1)]
      pool2_def [symmetric] uid_def [symmetric] ..
  then have "x = Some uid" "mget (entries q) key = Some \<lparr>b_uid = uid, lastActive = now\<rparr>" "TTL q = TTL r"
    by (auto simp: emit_def put_binding_def split: option.splits)
  moreover have "uid \<in> set uids" using mem by (auto simp: pool2_def split: if_splits)
  moreover have "uid \<notin> (b_uid \<circ> snd) ` set (entries r)" if "\<exists>u \<in> set uids. u \<notin> (b_uid \<circ> snd) ` set (entries r)"
  proof -
    have "?idle \<noteq> []" using that by (auto simp: filter_empty_conv)
    then show ?thesis using mem by (simp add: pool2_def)
  qed
  ultimately show ?thesis by blast
qed

lemma assign_None: "snd (assign now key uids r) = None \<longleftrightarrow> uids = []"
  by (simp add: assign_def Let_def)

lemma lookup_boundD:
  "lookup_bound now key av r = Some uid \<Longrightarrow> uid \<in> set av \<and> (\<exists>e. mget (entries r) key = Some e \<and> b_uid e = uid)"
  by (auto simp: lookup_bound_def split: option.splits if_splits)

text \<open>Without a usable binding a call ends in an assignment, the stale binding gone or expired.\<close>

lemma resolve_assigns:
  assumes "lookup_bound now key av r = None"
  shows "ResolveForModel now key av uids r =
     assign now key uids (if \<exists>e. mget (entries r) key = Some e \<and> \<not> expired e now (TTL r)
                          then r\<lparr>entries := mdel key (entries r)\<rparr> else r)"
  using assms
  by (auto simp: ResolveForModel_def resolve_slow_def lookup_bound_def split: option.splits if_splits)

subsection \<open>What the router relies on\<close>

locale account_source =
  fixes listed :: "'s \<Rightarrow> string \<Rightarrow> string list"
    and usable :: "'s \<Rightarrow> string \<Rightarrow> string \<Rightarrow> bool"
    and valid :: "'s \<Rightarrow> bool"
  assumes listed_iff: "valid s \<Longrightarrow> uid \<in> set (listed s m) \<longleftrightarrow> usable s m uid"
    and listed_bound: "valid s \<Longrightarrow> length (listed s m) < 2 ^ 32"
begin

lemma resolve_usable:
  assumes "valid s" "valid s'"
    and "ResolveForModel now key (listed s m) (listed s' m) r = (q, Some uid)"
  shows "usable s m uid \<or> usable s' m uid"
    and "mget (entries q) key = Some \<lparr>b_uid = uid, lastActive = now\<rparr>" "TTL q = TTL r"
proof -
  have "(usable s m uid \<or> usable s' m uid)
      \<and> mget (entries q) key = Some \<lparr>b_uid = uid, lastActive = now\<rparr> \<and> TTL q = TTL r"
  proof (cases "lookup_bound now key (listed s m) r")
    case None
    obtain r' where run: "assign now key (listed s' m) r' = (q, Some uid)" and r': "TTL r' = TTL r"
      using assms(3) unfolding resolve_assigns [OF None] by (auto split: if_splits)
    have "snd (assign now key (listed s' m) r') \<noteq> None" using run by simp
    then have "listed s' m \<noteq> []" by (simp only: assign_None simp_thms)
    from assign_SomeD [OF this listed_bound [OF assms(2)] run]
    show ?thesis using listed_iff [OF assms(2)] r' by auto
  next
    case (Some u)
    then show ?thesis
      using assms(3) lookup_boundD [OF Some] listed_iff [OF assms(1)]
      by (auto simp: ResolveForModel_def touch_def emit_def put_binding_def)
  qed
  then show "usable s m uid \<or> usable s' m uid"
    and "mget (entries q) key = Some \<lparr>b_uid = uid, lastActive = now\<rparr>" "TTL q = TTL r" by simp_all
qed

lemma resolve_None_iff:
  assumes "valid s"
  shows "snd (ResolveForModel now key (listed s m) (listed s m) r) = None \<longleftrightarrow> (\<forall>uid. \<not> usable s m uid)"
proof (cases "lookup_bound now key (listed s m) r")
  case None
  have "listed s m = [] \<longleftrightarrow> (\<forall>uid. \<not> usable s m uid)"
    using listed_iff [OF assms] by (metis all_not_in_conv set_empty)
  then show ?thesis by (simp add: resolve_assigns [OF None] assign_None)
next
  case (Some u)
  then show ?thesis
    using lookup_boundD [OF Some] listed_iff [OF assms] by (auto simp: ResolveForModel_def)
qed

text \<open>Within the lifetime of a binding, the conversation stays where it is while it can.\<close>

lemma resolve_sticky:
  assumes "valid s" "valid s1" "valid s2"
    and "ResolveForModel now key (listed s m) (listed s m) r = (q, Some uid)"
    and "time_sub now' now \<le> TTL r" "usable s1 m' uid"
  shows "snd (ResolveForModel now' key (listed s1 m') (listed s2 m') q) = Some uid"
proof -
  have "uid \<in> set (listed s1 m')" using assms(6) listed_iff [OF assms(2)] by simp
  then have "lookup_bound now' key (listed s1 m') q = Some uid"
    using resolve_usable(2,3) [OF assms(1,1,4)] assms(5) by (simp add: lookup_bound_def expired_def)
  then show ?thesis by (simp add: ResolveForModel_def)
qed

end

text \<open>The pool of accounts as the router sees it, with the realm a model name asks for.\<close>

definition usable_account :: "bool \<times> instant \<times> pool \<Rightarrow> string \<Rightarrow> string \<Rightarrow> bool" where
  "usable_account s m uid =
     (case s of (g, now, p) \<Rightarrow>
        case mget (byUID p) uid of
          None \<Rightarrow> False
        | Some e \<Rightarrow> Realm g (acct e) = fst (resolveModel m) \<and> healthyForModel e now (snd (resolveModel m))
                      \<and> \<not> inFlightFull p e)"

definition listed_accounts :: "bool \<times> instant \<times> pool \<Rightarrow> string \<Rightarrow> string list" where
  "listed_accounts s m = (case s of (g, now, p) \<Rightarrow> realmAwareAvailableForModel g now p m)"

definition usable_pool :: "bool \<times> instant \<times> pool \<Rightarrow> bool" where
  "usable_pool s = (case s of (g, now, p) \<Rightarrow> pool_wf p \<and> length (byUID p) < 2 ^ 32)"

lemma resolveModel_realm: "fst (resolveModel m) = ''cn'' \<or> fst (resolveModel m) = ''global''"
  by (auto simp: resolveModel_def split: option.split prod.split)

lemma listed_usable:
  assumes "usable_pool s"
  shows "uid \<in> set (listed_accounts s m) \<longleftrightarrow> usable_account s m uid"
proof -
  obtain g now p where s: "s = (g, now, p)" by (cases s) auto
  obtain rlm bare where m: "resolveModel m = (rlm, bare)" by fastforce
  have r: "rlm \<noteq> []" using resolveModel_realm [of m] m by auto
  have wf: "wfmap (byUID p)" using assms s by (simp add: usable_pool_def pool_wf_def)
  have "uid \<in> set (listed_accounts s m) \<longleftrightarrow>
      (\<exists>e. (uid, e) \<in> set (byUID p) \<and> Realm g (acct e) = rlm \<and> healthyForModel e now bare \<and> \<not> inFlightFull p e)"
    using r by (force simp: listed_accounts_def s realmAwareAvailableForModel_def m
        AvailableUIDsForModelRealm_def availableUIDsLocked_def)
  then show ?thesis
    by (auto simp: usable_account_def s m wf_mget_iff [OF wf, symmetric] split: option.splits)
qed

lemma listed_length: "usable_pool s \<Longrightarrow> length (listed_accounts s m) < 2 ^ 32"
  by (cases s, cases "resolveModel m")
    (auto simp: usable_pool_def listed_accounts_def realmAwareAvailableForModel_def
      AvailableUIDsForModelRealm_def availableUIDsLocked_def intro: le_less_trans [OF length_filter_le])

interpretation accounts: account_source listed_accounts usable_account usable_pool
  by unfold_locales (rule listed_usable listed_length; assumption)+

text \<open>
  C39: the account a session is given is usable for the model at that moment: enabled, not
  cooling, not holding the model back, with a free slot, and in the realm the model name asks
  for; a session gets one whenever there is one.
\<close>

theorem session_gets_usable_account:
  assumes "usable_pool s"
  shows "(\<forall>uid. snd (ResolveForModel now key (listed_accounts s m) (listed_accounts s m) r) = Some uid
            \<longrightarrow> usable_account s m uid)
    \<and> (snd (ResolveForModel now key (listed_accounts s m) (listed_accounts s m) r) = None
         \<longleftrightarrow> (\<forall>uid. \<not> usable_account s m uid))"
proof (intro conjI allI impI)
  fix uid
  assume "snd (ResolveForModel now key (listed_accounts s m) (listed_accounts s m) r) = Some uid"
  then show "usable_account s m uid"
    using accounts.resolve_usable(1) [OF assms assms]
    by (cases "ResolveForModel now key (listed_accounts s m) (listed_accounts s m) r") auto
qed (rule accounts.resolve_None_iff [OF assms])

text \<open>
  a conversation stays on its account: after it was given one, every call within the
  lifetime of the binding, for whatever model, returns the same account as long as that account
  is usable for the model, even if the pool has changed otherwise.
\<close>

theorem session_sticky:
  assumes "usable_pool s" "usable_pool s1" "usable_pool s2"
    and "ResolveForModel now key (listed_accounts s m) (listed_accounts s m) r = (q, Some uid)"
    and "time_sub now' now \<le> TTL r" "usable_account s1 m' uid"
  shows "snd (ResolveForModel now' key (listed_accounts s1 m') (listed_accounts s2 m') q) = Some uid"
  by (rule accounts.resolve_sticky [OF assms])

text \<open>
  a new conversation goes to an account that no conversation is bound to, as long as the
  list has one; so no account gets a second conversation while another has none.
\<close>

theorem new_session_idle_first:
  assumes "lookup_bound now key av r = None" "length uids < 2 ^ 32" "u \<in> set uids"
    and "\<And>k e. mget (entries r) k = Some e \<Longrightarrow> b_uid e \<noteq> u" "wfmap (entries r)"
  shows "\<exists>uid. snd (ResolveForModel now key av uids r) = Some uid \<and> uid \<in> set uids
    \<and> (\<forall>k e. k \<noteq> key \<longrightarrow> mget (entries r) k = Some e \<longrightarrow> b_uid e \<noteq> uid)"
proof -
  define r' where "r' = (if \<exists>e. mget (entries r) key = Some e \<and> \<not> expired e now (TTL r)
      then r\<lparr>entries := mdel key (entries r)\<rparr> else r)"
  have wf: "wfmap (entries r')" using assms(5) by (simp add: r'_def)
  have sub: "mget (entries r') k = Some e \<Longrightarrow> mget (entries r) k = Some e" for k e
    by (auto simp: r'_def split: if_splits)
  have keep: "mget (entries r) k = Some e \<Longrightarrow> k \<noteq> key \<Longrightarrow> mget (entries r') k = Some e" for k e
    by (simp add: r'_def)
  have bound: "x \<in> (b_uid \<circ> snd) ` set (entries r') \<longleftrightarrow> (\<exists>k e. mget (entries r') k = Some e \<and> b_uid e = x)" for x
    using wf_mget_iff [OF wf] by force
  have u: "u \<notin> (b_uid \<circ> snd) ` set (entries r')" using bound sub assms(4) by blast
  obtain q x where a: "assign now key uids r' = (q, x)" by fastforce
  have ne: "uids \<noteq> []" using assms(3) by auto
  obtain uid where uid: "x = Some uid" "uid \<in> set uids" "uid \<notin> (b_uid \<circ> snd) ` set (entries r')"
    using assign_SomeD [OF ne assms(2) a] u assms(3) by blast
  have "ResolveForModel now key av uids r = (q, x)"
    using resolve_assigns [OF assms(1)] a by (simp add: r'_def)
  moreover have "b_uid e \<noteq> uid" if "k \<noteq> key" "mget (entries r) k = Some e" for k e
    using uid(3) bound keep that by blast
  ultimately show ?thesis using uid(1,2) by auto
qed

subsection \<open>The mirror\<close>

fun replay :: "store_op list \<Rightarrow> string \<Rightarrow> string option" where
  "replay [] k = None"
| "replay (op # ops) k =
     (case op of SetBind k' u \<Rightarrow> (if k = k' then Some u else replay ops k)
               | DelBind k' \<Rightarrow> (if k = k' then None else replay ops k))"

text \<open>What the store holds after the writes so far.\<close>

definition mirror :: "router \<Rightarrow> string \<Rightarrow> string option" where
  "mirror r k = replay (rev (mirrored r)) k"

lemma mirror_emit:
  "mirror (emit op r) k =
     (case op of SetBind k' u \<Rightarrow> (if k = k' then Some u else mirror r k)
               | DelBind k' \<Rightarrow> (if k = k' then None else mirror r k))"
  by (cases op) (simp_all add: mirror_def emit_def)

lemma mirror_entries [simp]: "mirror (r\<lparr>entries := m\<rparr>) = mirror r" "mirror (put_binding k u t r) = mirror r"
  by (auto simp: mirror_def put_binding_def fun_eq_iff)

definition mirror_covers :: "router \<Rightarrow> bool" where
  "mirror_covers r \<longleftrightarrow> wfmap (entries r) \<and>
     (\<forall>k e. mget (entries r) k = Some e \<longrightarrow> mirror r k = Some (b_uid e))"

datatype router_op =
    RResolve instant string "string list" "string list"
  | RBind instant string string
  | RUnbind string
  | RCollect instant

fun router_exec :: "router_op \<Rightarrow> router \<Rightarrow> router" where
  "router_exec (RResolve now key av uids) r = fst (ResolveForModel now key av uids r)"
| "router_exec (RBind now key uid) r = Bind now key uid r"
| "router_exec (RUnbind key) r = fst (Unbind key r)"
| "router_exec (RCollect now) r = fst (gcOnce now r)"

lemma emit_fields [simp]: "entries (emit op r) = entries r" "TTL (emit op r) = TTL r"
  by (simp_all add: emit_def)

lemma put_binding_entries [simp]:
  "entries (put_binding k u t r) = mput k \<lparr>b_uid = u, lastActive = t\<rparr> (entries r)"
  by (simp add: put_binding_def)

lemma touch_covers: "mirror_covers r \<Longrightarrow> mirror_covers (touch k u t r)"
  by (auto simp: mirror_covers_def touch_def mirror_emit)

lemma drop_covers: "mirror_covers r \<Longrightarrow> mirror_covers (r\<lparr>entries := mdel k (entries r)\<rparr>)"
  by (auto simp: mirror_covers_def split: if_splits)

lemma assign_covers:
  assumes "mirror_covers r"
  shows "mirror_covers (fst (assign now key uids r))"
proof (cases "uids = []")
  case True
  then show ?thesis using assms by (simp add: assign_def)
next
  case False
  obtain uid where "fst (assign now key uids r) = emit (SetBind key uid)
      (case mget (entries r) key of None \<Rightarrow> put_binding key uid now r
       | Some e \<Rightarrow> if b_uid e \<noteq> uid then emit (DelBind key) (put_binding key uid now r)
                   else put_binding key uid now r)"
    using False by (simp only: assign_def Let_def if_False fst_conv)
  then show ?thesis
    using assms by (auto simp: mirror_covers_def mirror_emit split: option.splits simp del: map_of_eq_Some_iff)
qed

lemma resolve_covers:
  assumes "mirror_covers r"
  shows "mirror_covers (fst (ResolveForModel now key av uids r))"
proof (cases "lookup_bound now key av r")
  case None
  then show ?thesis using assign_covers drop_covers assms by (simp add: resolve_assigns)
next
  case (Some u)
  then show ?thesis using touch_covers [OF assms] by (simp add: ResolveForModel_def)
qed

lemma gc_entries: "foldl (\<lambda>q k. q\<lparr>entries := mdel k (entries q)\<rparr>) r ks
    = r\<lparr>entries := foldl (\<lambda>m k. mdel k m) (entries r) ks\<rparr>"
  by (induction ks arbitrary: r) simp_all

lemma mget_dels: "mget (foldl (\<lambda>m k. mdel k m) m ks) k = (if k \<in> set ks then None else mget m k)"
  by (induction ks arbitrary: m) auto

lemma wf_dels: "wfmap m \<Longrightarrow> wfmap (foldl (\<lambda>m k. mdel k m) m ks)"
  by (induction ks arbitrary: m) auto

lemma emits: "entries (foldl (\<lambda>q k. emit (DelBind k) q) r ks) = entries r
    \<and> mirror (foldl (\<lambda>q k. emit (DelBind k) q) r ks) k = (if k \<in> set ks then None else mirror r k)"
  by (induction ks arbitrary: r) (auto simp: mirror_emit)

lemma mget_gcOnce:
  assumes "wfmap (entries r)"
  shows "mget (entries (fst (gcOnce now r))) k =
    (case mget (entries r) k of None \<Rightarrow> None | Some e \<Rightarrow> if expired e now (TTL r) then None else Some e)"
proof -
  let ?ks = "map fst (filter (\<lambda>(k, e). time_sub now (lastActive e) > TTL r) (entries r))"
  have "k \<in> set ?ks \<longleftrightarrow> (\<exists>e. mget (entries r) k = Some e \<and> expired e now (TTL r))"
    using wf_mget_iff [OF assms] by (force simp: expired_def)
  then show ?thesis
    by (auto simp: gcOnce_def Let_def gc_entries emits mget_dels split: option.splits)
qed

lemma gc_covers:
  assumes "mirror_covers r"
  shows "mirror_covers (fst (gcOnce now r))"
  using assms
  by (auto simp: mirror_covers_def gcOnce_def Let_def gc_entries emits mget_dels wf_dels split: if_splits)

text \<open>
  after any sequence of resolutions, bindings, failures and collections, the store holds
  every binding the router holds, so that a restart restores all of them; and a collection
  drops exactly the bindings whose time is up.
\<close>

theorem router_mirror_covers:
  "mirror_covers (foldl (\<lambda>r op. router_exec op r) (New_router ttl) ops)
   \<and> (\<forall>now k. mget (entries (fst (gcOnce now (foldl (\<lambda>r op. router_exec op r) (New_router ttl) ops)))) k =
       (case mget (entries (foldl (\<lambda>r op. router_exec op r) (New_router ttl) ops)) k of
          None \<Rightarrow> None
        | Some e \<Rightarrow> if expired e now (TTL (foldl (\<lambda>r op. router_exec op r) (New_router ttl) ops))
                    then None else Some e))"
proof -
  have exec: "mirror_covers (router_exec op r)" if "mirror_covers r" for op r
  proof (cases op)
    case (RUnbind k)
    have "mirror_covers (emit (DelBind k) (r\<lparr>entries := mdel k (entries r)\<rparr>))"
      using that by (auto simp: mirror_covers_def mirror_emit split: if_splits)
    then show ?thesis using that RUnbind by (simp add: Unbind_def)
  qed (use that resolve_covers gc_covers touch_covers in \<open>simp_all add: Bind_def\<close>)
  have "mirror_covers (foldl (\<lambda>r op. router_exec op r) r ops)" if "mirror_covers r" for r
    using that by (induction ops arbitrary: r) (simp_all add: exec)
  then have m: "mirror_covers (foldl (\<lambda>r op. router_exec op r) (New_router ttl) ops)"
    by (simp add: mirror_covers_def New_router_def)
  then show ?thesis using mget_gcOnce by (simp add: mirror_covers_def)
qed

subsection \<open>Identifiers\<close>

text \<open>
  the identity a conversation is kept under mixes the caller's key id with the session key
  such that no two different pairs share it, unless SHA-256 itself collides on the payloads:
  length framing leaves no ambiguity. Without a caller or without a session the key stays as is.
\<close>

theorem scope_key_injective:
  assumes "ScopeKey sha16 c k = ScopeKey sha16 c' k'" "c \<noteq> []" "k \<noteq> []" "c' \<noteq> []" "k' \<noteq> []"
  shows "c = c' \<and> k = k' \<or>
    scope_payload c k \<noteq> scope_payload c' k' \<and> sha16 (scope_payload c k) = sha16 (scope_payload c' k')"
proof (cases "scope_payload c k = scope_payload c' k'")
  case True
  then have p: "dec (length c) @ CHR '':'' # c @ k = dec (length c') @ CHR '':'' # c' @ k'"
    by (simp add: scope_payload_def)
  have e: "dec (length c) = dec (length c')" "c @ k = c' @ k'"
    using arg_cong [OF p, of "cut_at (CHR '':'')"]
    by (simp_all only: cut_at_append [OF dec_no_colon] option.inject prod.inject)
  have "length c = length c'" using arg_cong [OF e(1), of dec_value] by (simp add: dec_value_dec)
  then show ?thesis using e(2) by simp
next
  case False
  then show ?thesis using assms by (simp add: ScopeKey_def)
qed

lemma scope_key_injective_witness: "ScopeKey (\<lambda>s. s) ''ab'' ''c'' \<noteq> ScopeKey (\<lambda>s. s) ''a'' ''bc''"
  using scope_key_injective [of "\<lambda>s. s" "''ab''" "''c''" "''a''" "''bc''"] by auto

subsection \<open>Witnesses on a concrete pool\<close>

definition two_accounts :: pool where
  "two_accounts = (New_pool [])\<lparr>byUID :=
     [(''u'', new_entry (empty_auth\<lparr>UID := ''u''\<rparr>)), (''v'', new_entry (empty_auth\<lparr>UID := ''v''\<rparr>))]\<rparr>"

lemma two_usable: "usable_pool (False, 10, two_accounts)"
  by (simp add: usable_pool_def two_accounts_def pool_wf_def new_entry_def empty_auth_def)

lemma two_usable_account: "usable_account (False, 10, two_accounts) ''glm'' ''u''"
  by (simp add: usable_account_def two_accounts_def resolveModel_def Realm_def new_entry_def
      healthyForModel_iff healthy_def in_force_def is_zero_def zero_time_def modelCooled_def
      inFlightFull_def New_pool_def)

lemma session_gets_usable_account_witness:
  "snd (ResolveForModel 10 ''k'' (listed_accounts (False, 10, two_accounts) ''glm'')
     (listed_accounts (False, 10, two_accounts) ''glm'') (New_router 0)) \<noteq> None"
  using session_gets_usable_account [OF two_usable] two_usable_account by blast

lemma session_sticky_witness:
  "\<exists>q uid. snd (ResolveForModel 20 ''k'' (listed_accounts (False, 10, two_accounts) ''glm'')
     (listed_accounts (False, 10, two_accounts) ''glm'') q) = Some uid"
proof -
  let ?l = "listed_accounts (False, 10, two_accounts) ''glm''"
  have "snd (ResolveForModel 10 ''k'' ?l ?l (New_router 0)) \<noteq> None"
    using accounts.resolve_None_iff [OF two_usable] two_usable_account by blast
  then obtain q uid where r: "ResolveForModel 10 ''k'' ?l ?l (New_router 0) = (q, Some uid)"
    by (cases "ResolveForModel 10 ''k'' ?l ?l (New_router 0)") auto
  have u: "usable_account (False, 10, two_accounts) ''glm'' uid"
    using accounts.resolve_usable(1) [OF two_usable two_usable r] by blast
  have "time_sub 20 10 \<le> TTL (New_router 0)"
    by (simp add: New_router_def time_sub_def dur_defs)
  from session_sticky [OF two_usable two_usable two_usable r this u] show ?thesis by blast
qed

lemma new_session_idle_first_witness:
  "\<exists>uid. snd (ResolveForModel 10 ''k'' [''u'', ''v''] [''u'', ''v'']
      ((New_router 0)\<lparr>entries := [(''j'', \<lparr>b_uid = ''u'', lastActive = 5\<rparr>)]\<rparr>)) = Some uid
    \<and> uid \<in> {''u'', ''v''} \<and> uid \<noteq> ''u''"
proof -
  let ?r = "(New_router 0)\<lparr>entries := [(''j'', \<lparr>b_uid = ''u'', lastActive = 5\<rparr>)]\<rparr>"
  have "lookup_bound 10 ''k'' [''u'', ''v''] ?r = None" by (simp add: lookup_bound_def)
  moreover have "\<And>k e. mget (entries ?r) k = Some e \<Longrightarrow> b_uid e \<noteq> ''v''"
    by (auto split: if_splits)
  ultimately
  obtain uid where "snd (ResolveForModel 10 ''k'' [''u'', ''v''] [''u'', ''v''] ?r) = Some uid"
      "uid \<in> {''u'', ''v''}" "\<forall>k e. k \<noteq> ''k'' \<longrightarrow> mget (entries ?r) k = Some e \<longrightarrow> b_uid e \<noteq> uid"
    using new_session_idle_first [of 10 "''k''" "[''u'', ''v'']" ?r "[''u'', ''v'']" "''v''"] by auto
  moreover from this(3) have "uid \<noteq> ''u''" by (auto dest!: spec [of _ "''j''"])
  ultimately show ?thesis by blast
qed

subsection \<open>The degrade gate\<close>

lemma after_now_spec:
  "midnight \<le> now \<Longrightarrow> now < after_now midnight now \<and> after_now midnight now \<le> now + day
    \<and> day dvd (after_now midnight now - midnight)"
proof (induction midnight now rule: after_now.induct)
  case (1 midnight now)
  have s: "after_now midnight now = after_now (midnight + 24 * hour) now"
    using "1.prems" by (simp add: after_now.simps [of midnight now])
  show ?case
  proof (cases "midnight + 24 * hour \<le> now")
    case True
    then have IH: "now < after_now (midnight + 24 * hour) now \<and> after_now (midnight + 24 * hour) now \<le> now + day
        \<and> day dvd (after_now (midnight + 24 * hour) now - (midnight + 24 * hour))"
      using "1.IH" "1.prems" by simp
    then have "day dvd (after_now (midnight + 24 * hour) now - (midnight + 24 * hour) + 24 * hour)"
      by (intro dvd_add) (auto simp: dur_defs)
    then show ?thesis using IH by (simp add: s)
  next
    case False
    then have "after_now (midnight + 24 * hour) now = midnight + 24 * hour"
      by (simp add: after_now.simps [of "midnight + 24 * hour" now])
    then show ?thesis using False "1.prems" by (simp add: s dur_defs)
  qed
qed

text \<open>
  the degrade gate is open until the next midnight in China: after now, at most a day
  ahead, at 00:00 of UTC+8; a second trigger while it is open does not extend it.
\<close>

theorem degrade_until_midnight:
  "now < nextMidnightCST now \<and> nextMidnightCST now \<le> now + day
   \<and> (nextMidnightCST now + 8 * hour) mod day = 0
   \<and> Active (Trigger gate now) now
   \<and> Trigger (Trigger gate now) now = Trigger gate now"
proof -
  let ?m = "((now + 8 * hour) div day) * day - 8 * hour"
  have d: "0 < day" by (simp add: dur_defs)
  have "?m \<le> now"
    using pos_mod_sign [OF d, of "now + 8 * hour"] div_mult_mod_eq [of "now + 8 * hour" day] by linarith
  from after_now_spec [OF this]
  have n: "now < nextMidnightCST now" "nextMidnightCST now \<le> now + day" "day dvd (nextMidnightCST now - ?m)"
    by (simp_all add: nextMidnightCST_def)
  then have "day dvd (nextMidnightCST now - ?m + ((now + 8 * hour) div day) * day)"
    by (intro dvd_add) auto
  then have "(nextMidnightCST now + 8 * hour) mod day = 0" by (simp add: dvd_eq_mod_eq_0)
  then show ?thesis using n by (auto simp: Trigger_def Active_def)
qed

end
