(* ===== verification/ErrorPolicy.thy ===== *)
theory ErrorPolicy
  imports PoolFacts Json "HOL-Library.Monad_Syntax"
begin

text \<open>
  Upstream errors: how a response is classified (\<open>Classify\<close> in \<open>upstream/client.go\<close>, its
  marker tables, the parser of the reset time) and what each class does to the account
  (\<open>applyErrorPolicy\<close> in \<open>server/handler.go\<close>). The tables contain Chinese text; its UTF-8
  bytes are spelled out.
\<close>

subsection \<open>Text matching\<close>

fun contains :: "string \<Rightarrow> string \<Rightarrow> bool" where
  "contains [] p \<longleftrightarrow> p = []"
| "contains (c # s) p \<longleftrightarrow> has_prefix (c # s) p \<or> contains s p"

datatype ErrKind =
    ErrNone | ErrHardCredit | ErrSoftRate | ErrSessionDead | ErrNotFound | ErrServer
  | ErrContentBlocked | ErrBadParams | ErrAccountFault | ErrModelBlocked | ErrClient
  | ErrContextTooLong | ErrChannelRejected | ErrUpstreamWAF

definition ErrKind_String :: "ErrKind \<Rightarrow> string" where
  "ErrKind_String k = (case k of
     ErrHardCredit \<Rightarrow> ''hard_credit'' | ErrSoftRate \<Rightarrow> ''soft_rate''
   | ErrSessionDead \<Rightarrow> ''session_dead'' | ErrNotFound \<Rightarrow> ''not_found'' | ErrServer \<Rightarrow> ''server''
   | ErrContentBlocked \<Rightarrow> ''content_blocked'' | ErrBadParams \<Rightarrow> ''bad_params''
   | ErrAccountFault \<Rightarrow> ''account_fault'' | ErrModelBlocked \<Rightarrow> ''model_blocked''
   | ErrClient \<Rightarrow> ''client'' | ErrContextTooLong \<Rightarrow> ''context_too_long''
   | ErrChannelRejected \<Rightarrow> ''channel_rejected'' | ErrUpstreamWAF \<Rightarrow> ''upstream_waf''
   | ErrNone \<Rightarrow> ''none'')"

datatype matchMode = matchFold | matchExact | matchLower

record errorRule =
  er_kind :: ErrKind
  er_mode :: matchMode
  er_patterns :: "string list"

definition matchPattern :: "string \<Rightarrow> matchMode \<Rightarrow> string \<Rightarrow> string \<Rightarrow> bool" where
  "matchPattern p mode body lower =
     (case mode of
        matchFold \<Rightarrow> contains lower (to_lower p) \<or> contains body p
      | matchExact \<Rightarrow> contains body p
      | matchLower \<Rightarrow> contains lower p)"

definition hit :: "errorRule \<Rightarrow> string \<Rightarrow> string \<Rightarrow> bool" where
  "hit r body lower = list_ex (\<lambda>p. matchPattern p (er_mode r) body lower) (er_patterns r)"

definition firstHit :: "errorRule \<Rightarrow> string \<Rightarrow> string \<Rightarrow> string" where
  "firstHit r body lower =
     (case find (\<lambda>p. matchPattern p (er_mode r) body lower) (er_patterns r) of None \<Rightarrow> [] | Some p \<Rightarrow> p)"

subsection \<open>The marker tables\<close>

definition credit_short :: string where
  "credit_short =
     [CHR 0xE7, CHR 0xA7, CHR 0xAF, CHR 0xE5, CHR 0x88, CHR 0x86, CHR 0xE4, CHR 0xB8, CHR 0x8D,
      CHR 0xE8, CHR 0xB6, CHR 0xB3]"

definition quota_short :: string where
  "quota_short =
     [CHR 0xE9, CHR 0xA2, CHR 0x9D, CHR 0xE5, CHR 0xBA, CHR 0xA6, CHR 0xE4, CHR 0xB8, CHR 0x8D,
      CHR 0xE8, CHR 0xB6, CHR 0xB3]"

definition balance_short :: string where
  "balance_short =
     [CHR 0xE4, CHR 0xBD, CHR 0x99, CHR 0xE9, CHR 0xA2, CHR 0x9D, CHR 0xE4, CHR 0xB8, CHR 0x8D,
      CHR 0xE8, CHR 0xB6, CHR 0xB3]"

definition credit_used_up :: string where
  "credit_used_up =
     [CHR 0xE7, CHR 0xA7, CHR 0xAF, CHR 0xE5, CHR 0x88, CHR 0x86, CHR 0xE7, CHR 0x94, CHR 0xA8,
      CHR 0xE5, CHR 0xAE, CHR 0x8C]"

definition quota_used_up :: string where
  "quota_used_up =
     [CHR 0xE9, CHR 0xA2, CHR 0x9D, CHR 0xE5, CHR 0xBA, CHR 0xA6, CHR 0xE7, CHR 0x94, CHR 0xA8,
      CHR 0xE5, CHR 0xB0, CHR 0xBD]"

definition no_credit_zh :: string where
  "no_credit_zh =
     [CHR 0xE6, CHR 0xB2, CHR 0xA1, CHR 0xE6, CHR 0x9C, CHR 0x89, CHR 0xE7, CHR 0xA7, CHR 0xAF,
      CHR 0xE5, CHR 0x88, CHR 0x86]"

definition too_frequent :: string where
  "too_frequent =
     [CHR 0xE8, CHR 0xAF, CHR 0xB7, CHR 0xE6, CHR 0xB1, CHR 0x82, CHR 0xE8, CHR 0xBF, CHR 0x87,
      CHR 0xE4, CHR 0xBA, CHR 0x8E, CHR 0xE9, CHR 0xA2, CHR 0x91, CHR 0xE7, CHR 0xB9, CHR 0x81]"

definition throttled_zh :: string where
  "throttled_zh =
     [CHR 0xE9, CHR 0x99, CHR 0x90, CHR 0xE6, CHR 0xB5, CHR 0x81]"

definition resets_at :: string where
  "resets_at =
     [CHR 0xE5, CHR 0xB0, CHR 0x86, CHR 0xE5, CHR 0x9C, CHR 0xA8, CHR '' '']"

definition resets_end :: string where
  "resets_end =
     [CHR '' '', CHR 0xE9, CHR 0x87, CHR 0x8D, CHR 0xE7, CHR 0xBD, CHR 0xAE]"

definition hardRule :: errorRule where
  "hardRule = \<lparr>er_kind = ErrHardCredit, er_mode = matchFold, er_patterns =
     [''insufficient credit'', ''no credit'', ''credit exhausted'', ''credits exhausted'',
      ''out of credit'', ''quota exceeded'', ''quota exhaust'', ''payment required'',
      ''credit not enough'', ''not enough credit'', credit_short, quota_short, balance_short,
      credit_used_up, quota_used_up, no_credit_zh]\<rparr>"

definition softRateRule :: errorRule where
  "softRateRule = \<lparr>er_kind = ErrSoftRate, er_mode = matchFold, er_patterns =
     [''rate limit'', ''rate-limiting'', ''rate-limited'', ''too many requests'', ''too many'',
      ''usage limit'', too_frequent, throttled_zh]\<rparr>"

definition sessionDeadRule :: errorRule where
  "sessionDeadRule = \<lparr>er_kind = ErrSessionDead, er_mode = matchExact, er_patterns =
     [''Offline user session not found'', ''12153'']\<rparr>"

definition contentBlockedRule :: errorRule where
  "contentBlockedRule = \<lparr>er_kind = ErrContentBlocked, er_mode = matchLower, er_patterns =
     [''blocked by security policy'']\<rparr>"

definition wafBlockRule :: errorRule where
  "wafBlockRule = \<lparr>er_kind = ErrUpstreamWAF, er_mode = matchLower, er_patterns =
     [''waf block page'', ''waf-intl.qq.com'']\<rparr>"

definition contextTooLongRule :: errorRule where
  "contextTooLongRule = \<lparr>er_kind = ErrContextTooLong, er_mode = matchExact, er_patterns =
     [''prompt is too long'', [CHR 0x22] @ ''code'' @ [CHR 0x22] @ '':11115'', ''context_length_exceeded'']\<rparr>"

definition badParamsRule :: errorRule where
  "badParamsRule = \<lparr>er_kind = ErrBadParams, er_mode = matchExact, er_patterns =
     [''Unmarshal chat params failed'', [CHR 0x22] @ ''code'' @ [CHR 0x22] @ '':11101'']\<rparr>"

definition accountFaultRule :: errorRule where
  "accountFaultRule = \<lparr>er_kind = ErrAccountFault, er_mode = matchFold, er_patterns =
     [''request illegal'', ''trial not activated'', ''trial version is not yet activated'']\<rparr>"

lemmas rule_defs = hardRule_def softRateRule_def sessionDeadRule_def contentBlockedRule_def
  wafBlockRule_def contextTooLongRule_def badParamsRule_def accountFaultRule_def

subsection \<open>The reset time of a rate limit\<close>

text \<open>The regular expression for the code 6004: blanks around the colon, quotes optional.\<close>

definition re_space :: "char \<Rightarrow> bool" where
  "re_space c \<longleftrightarrow> c \<in> {CHR 0x09, CHR 0x0A, CHR 0x0C, CHR 0x0D, CHR 0x20}"

definition rate_code_at :: "string \<Rightarrow> bool" where
  "rate_code_at s =
     (has_prefix s ([CHR 0x22] @ ''code'' @ [CHR 0x22]) \<and>
      (case dropWhile re_space (drop 6 s) of
         [] \<Rightarrow> False
       | c # t \<Rightarrow> c = CHR '':'' \<and>
           (let u = dropWhile re_space t
            in has_prefix u ''6004'' \<or> has_prefix u ([CHR 0x22] @ ''6004''))))"

fun IsModelRateLimit :: "string \<Rightarrow> bool" where
  "IsModelRateLimit [] = False"
| "IsModelRateLimit (c # s) = (rate_code_at (c # s) \<or> IsModelRateLimit s)"

text \<open>The shortest non-empty capture on one line before the closing words.\<close>

fun capture :: "string \<Rightarrow> string \<Rightarrow> string option" where
  "capture acc [] = None"
| "capture acc (c # s) =
     (if acc \<noteq> [] \<and> has_prefix (c # s) resets_end then Some acc
      else if c = CHR 0x0A then None else capture (acc @ [c]) s)"

fun reset_text :: "string \<Rightarrow> string option" where
  "reset_text [] = None"
| "reset_text (c # s) =
     (case (if has_prefix (c # s) resets_at then capture [] (drop (length resets_at) (c # s)) else None) of
        Some t \<Rightarrow> Some t
      | None \<Rightarrow> reset_text s)"

definition digit :: "char \<Rightarrow> bool" where
  "digit c \<longleftrightarrow> CHR ''0'' \<le> c \<and> c \<le> CHR ''9''"

definition digit_value :: "char \<Rightarrow> int" where
  "digit_value c = of_char c - 48"

text \<open>\<open>k\<close> digits, then the rest.\<close>

fun take_digits :: "nat \<Rightarrow> int \<Rightarrow> string \<Rightarrow> (int \<times> string) option" where
  "take_digits 0 acc s = Some (acc, s)"
| "take_digits (Suc k) acc [] = None"
| "take_digits (Suc k) acc (c # s) =
     (if digit c then take_digits k (acc * 10 + digit_value c) s else None)"

definition expect :: "char \<Rightarrow> string \<Rightarrow> string option" where
  "expect c s = (case s of [] \<Rightarrow> None | x # t \<Rightarrow> if x = c then Some t else None)"

text \<open>A blank of the layout stands for one or more blanks, or for the end of the text.\<close>

definition expect_blank :: "string \<Rightarrow> string option" where
  "expect_blank s = (if s \<noteq> [] \<and> hd s \<noteq> CHR '' '' then None else Some (dropWhile (\<lambda>c. c = CHR '' '') s))"

text \<open>The hour may have one digit; the seconds may carry a fraction.\<close>

definition take_hour :: "string \<Rightarrow> (int \<times> string) option" where
  "take_hour s =
     (case take_digits 2 0 s of
        Some r \<Rightarrow> Some r
      | None \<Rightarrow> take_digits 1 0 s)"

definition take_fraction :: "string \<Rightarrow> int \<times> string" where
  "take_fraction s =
     (case s of
        c # d # t \<Rightarrow>
          if (c = CHR ''.'' \<or> c = CHR '','') \<and> digit d
          then let ds = take 9 (takeWhile digit (d # t))
               in (foldl (\<lambda>n x. n * 10 + digit_value x) 0 ds * 10 ^ (9 - length ds), dropWhile digit (d # t))
          else (0, s)
      | _ \<Rightarrow> (0, s))"

definition leap_year :: "int \<Rightarrow> bool" where
  "leap_year y \<longleftrightarrow> y mod 4 = 0 \<and> (y mod 100 \<noteq> 0 \<or> y mod 400 = 0)"

definition month_lengths :: "int \<Rightarrow> int list" where
  "month_lengths y = [31, if leap_year y then 29 else 28, 31, 30, 31, 30, 31, 31, 30, 31, 30, 31]"

text \<open>Days from 1 January of year 1, the zero time.\<close>

definition days_before :: "int \<Rightarrow> int \<Rightarrow> int \<Rightarrow> int" where
  "days_before y m d =
     365 * (y - 1) + (y - 1) div 4 - (y - 1) div 100 + (y - 1) div 400
     + sum_list (take (nat (m - 1)) (month_lengths y)) + (d - 1)"

text \<open>\<open>time.ParseInLocation\<close> with the layout \<open>2006-01-02 15:04:05\<close> at UTC+8.\<close>

definition parse_wallclock :: "string \<Rightarrow> instant option" where
  "parse_wallclock s =
     do {
       (y, s) \<leftarrow> take_digits 4 0 s; s \<leftarrow> expect (CHR ''-'') s;
       (m, s) \<leftarrow> take_digits 2 0 s; s \<leftarrow> expect (CHR ''-'') s;
       (d, s) \<leftarrow> take_digits 2 0 s; s \<leftarrow> expect_blank s;
       (h, s) \<leftarrow> take_hour s; s \<leftarrow> expect (CHR '':'') s;
       (mi, s) \<leftarrow> take_digits 2 0 s; s \<leftarrow> expect (CHR '':'') s;
       (se, s) \<leftarrow> take_digits 2 0 s;
       (if 1 \<le> m \<and> m \<le> 12 \<and> 1 \<le> d \<and> d \<le> month_lengths y ! nat (m - 1) \<and> h < 24 \<and> mi < 60 \<and> se < 60
           \<and> snd (take_fraction s) = []
        then Some (days_before y m d * day + h * hour + mi * minute + se * second
                   + fst (take_fraction s) - 8 * hour)
        else None)
     }"

definition ParseRateReset :: "string \<Rightarrow> instant option" where
  "ParseRateReset body =
     (case reset_text body of
        None \<Rightarrow> None
      | Some m \<Rightarrow>
          let ts0 = trim_space m;
              ts = (if has_suffix ts0 '' UTC+8'' then take (length ts0 - 6) ts0 else ts0)
          in parse_wallclock ts)"

subsection \<open>Classification\<close>

text \<open>
  \<open>parse\<close> is \<open>json.Unmarshal\<close> into a generic value, \<open>sprint\<close> what \<open>fmt.Sprint\<close> prints of a
  value that is not a string.
\<close>

definition code_of :: "(json \<Rightarrow> string) \<Rightarrow> obj list \<Rightarrow> string" where
  "code_of sprint nodes =
     foldl (\<lambda>code (node, key).
         case jget node key of
           None \<Rightarrow> code
         | Some JNull \<Rightarrow> code
         | Some v \<Rightarrow> if code = [] then trim_space (case v of JStr s \<Rightarrow> s | _ \<Rightarrow> sprint v) else code)
       [] (concat (map (\<lambda>n. map (\<lambda>k. (n, k)) [''code'', ''errCode'', ''error_code'']) nodes))"

definition msg_of :: "obj list \<Rightarrow> string" where
  "msg_of nodes =
     foldl (\<lambda>msg (node, key).
         case jget node key of
           Some (JStr s) \<Rightarrow> if s \<noteq> [] \<and> msg = [] then trim_space s else msg
         | _ \<Rightarrow> msg)
       [] (concat (map (\<lambda>n. map (\<lambda>k. (n, k)) [''msg'', ''message'']) nodes))"

definition IsModelBlocked :: "(string \<Rightarrow> json option) \<Rightarrow> (json \<Rightarrow> string) \<Rightarrow> int \<Rightarrow> string \<Rightarrow> bool" where
  "IsModelBlocked parse sprint status body =
     (if (status \<noteq> 400 \<and> status \<noteq> 404) \<or> body = [] then False
      else if \<not> contains body ''11102'' \<and> \<not> contains (to_lower body) ''service info not found'' then False
      else case Option.bind (parse body) as_map of
        None \<Rightarrow> False
      | Some top1 \<Rightarrow>
          let nodes = top1 # (case obj_of (jget top1 ''error'') of None \<Rightarrow> [] | Some inner \<Rightarrow> [inner])
          in if code_of sprint nodes = ''11102'' then True
             else contains (to_lower (msg_of nodes)) ''service info not found'')"

definition channel_message :: "(string \<Rightarrow> json option) \<Rightarrow> string \<Rightarrow> string" where
  "channel_message parse body =
     (case parse body of
        Some (JObj m) \<Rightarrow>
          let msg = str_or_empty (jget m ''msg'')
          in if msg \<noteq> [] then msg
             else (case jget m ''error'' of
                     Some (JObj e) \<Rightarrow> (case str_field ''message'' e of None \<Rightarrow> [] | Some s \<Rightarrow> s)
                   | _ \<Rightarrow> [])
      | _ \<Rightarrow> body)"

definition isUnapprovedChannel :: "(string \<Rightarrow> json option) \<Rightarrow> string \<Rightarrow> bool" where
  "isUnapprovedChannel parse body =
     (let m0 = trim_space (channel_message parse body);
          m1 = (if has_suffix m0 ''.'' then butlast m0 else m0);
          message = trim_space m1
      in fold_name message = fold_name ''Illegal API invocation from an unapproved channel''
         \<or> fold_name message = fold_name ''unapproved channel'')"

definition Classify :: "(string \<Rightarrow> json option) \<Rightarrow> (json \<Rightarrow> string) \<Rightarrow> int \<Rightarrow> string \<Rightarrow> ErrKind" where
  "Classify parse sprint status body =
     (if IsModelBlocked parse sprint status body then ErrModelBlocked
      else if status = 402 then ErrHardCredit
      else if isUnapprovedChannel parse body then ErrChannelRejected
      else
        let lower = to_lower body
        in if hit wafBlockRule body lower then ErrUpstreamWAF
           else if hit hardRule body lower then ErrHardCredit
           else if hit sessionDeadRule body lower then ErrSessionDead
           else if hit accountFaultRule body lower then ErrAccountFault
           else if hit softRateRule body lower then ErrSoftRate
           else if status = 429 then ErrSoftRate
           else if status = 404 then ErrNotFound
           else if status \<ge> 500 then ErrServer
           else if status \<ge> 400 then
             (if hit contentBlockedRule body lower then ErrContentBlocked
              else if hit contextTooLongRule body lower then ErrContextTooLong
              else if hit badParamsRule body lower then ErrBadParams
              else ErrClient)
           else ErrNone)"

subsection \<open>What a class does to the account, \<open>handler.go\<close>\<close>

definition notFoundCooldown :: duration where "notFoundCooldown = 60 * second"
definition ModelBlockReason :: string where "ModelBlockReason = ''11102 model not available''"

definition applyErrorPolicy ::
  "instant \<Rightarrow> duration \<Rightarrow> duration \<Rightarrow> string \<Rightarrow> ErrKind \<Rightarrow> string \<Rightarrow> string \<Rightarrow> pool \<Rightarrow> pool" where
  "applyErrorPolicy now off softCooldown uid kind body model p =
     (case kind of
        ErrHardCredit \<Rightarrow> CooldownUntilTomorrow4AM off now uid balance_short p
      | ErrSoftRate \<Rightarrow>
          (case ParseRateReset body of
             Some resetAt \<Rightarrow>
               if IsModelRateLimit body
               then CooldownSoftForModel now uid softCooldown resetAt model ''6004 model rate limit'' p
               else CooldownSoftRate now uid softCooldown resetAt ''429 rate limit'' p
           | None \<Rightarrow> CooldownSoftRate now uid softCooldown zero_time ''429 rate limit'' p)
      | ErrSessionDead \<Rightarrow> Disable uid ''12153 session dead'' p
      | ErrNotFound \<Rightarrow> Cooldown now uid CoolSoft notFoundCooldown ''upstream 404'' p
      | ErrAccountFault \<Rightarrow>
          if contains (to_lower body) ''request illegal''
          then Disable uid ''account banned by upstream (11140 request illegal), re-login required'' p
          else Cooldown now uid CoolSoft softCooldown ''account fault (14017)'' p
      | ErrServer \<Rightarrow> NoteError now uid p
      | ErrModelBlocked \<Rightarrow> BlockModelBackoff now uid model ModelBlockReason p
      | _ \<Rightarrow> p)"

end
