(* ===== verification/ErrorPolicyProps.thy ===== *)
theory ErrorPolicyProps
  imports ErrorPolicy
begin

text \<open>What the error classes mean for the account, and for which responses.\<close>

text \<open>The classes that blame the request, not the account.\<close>

definition blames_request :: "ErrKind \<Rightarrow> bool" where
  "blames_request k \<longleftrightarrow> k \<in> {ErrNone, ErrContentBlocked, ErrBadParams, ErrClient, ErrContextTooLong,
     ErrChannelRejected, ErrUpstreamWAF}"

lemma not_healthy_until: "0 \<le> now \<Longrightarrow> now < until e \<Longrightarrow> \<not> healthyForModel e now m"
  by (auto simp: healthyForModel_iff healthy_iff in_force_def is_zero_def zero_time_def)

lemma not_healthy_disabled: "disabled e \<Longrightarrow> \<not> healthyForModel e now m"
  by (simp add: healthyForModel_iff healthy_iff)

lemma not_healthy_model:
  "mget (modelCooldowns e) m = Some c \<Longrightarrow> m \<noteq> [] \<Longrightarrow> 0 \<le> now \<Longrightarrow> now < mc_Until c \<Longrightarrow>
   \<not> healthyForModel e now m"
  by (auto simp: healthyForModel_iff modelCooled_def in_force_def is_zero_def zero_time_def)

lemma cooled_now:
  assumes "mget (byUID p) uid = Some e" "0 \<le> now"
  shows "0 < d \<Longrightarrow> \<exists>e'. mget (byUID (Cooldown now uid k d why p)) uid = Some e' \<and> \<not> healthyForModel e' now m"
    and "\<exists>e'. mget (byUID (CooldownUntilTomorrow4AM off now uid why p)) uid = Some e' \<and> \<not> healthyForModel e' now m"
proof -
  show *: "\<exists>e'. mget (byUID (Cooldown now uid k d why p)) uid = Some e' \<and> \<not> healthyForModel e' now m"
    if "0 < d" for d k why
    using assms that by (simp add: Cooldown_def not_healthy_until)
  have "in64 (nextDay4AM off now - now)"
    using nextDay4AM_bounds [of now off] by (simp add: in64_def dur_defs)
  then have "time_sub (nextDay4AM off now) now = nextDay4AM off now - now"
    by (auto simp: time_sub_def in64_def)
  then show "\<exists>e'. mget (byUID (CooldownUntilTomorrow4AM off now uid why p)) uid = Some e' \<and> \<not> healthyForModel e' now m"
    using * nextDay4AM_bounds [of now off] by (simp add: CooldownUntilTomorrow4AM_def)
qed

lemma soft_cooled_now:
  assumes "mget (byUID p) uid = Some e" "0 \<le> now" "0 < soft"
  shows "\<exists>e'. mget (byUID (CooldownSoftRate now uid soft t why p)) uid = Some e' \<and> \<not> healthyForModel e' now m"
proof -
  have pos: "0 < softDurationLocked p soft n" for n
    using softDurationLocked_bounds [OF assms(3)] by simp
  show ?thesis
    using assms cappedSoftUntilLocked_future [of now p t] pos
    by (simp add: CooldownSoftRate_def Let_def not_healthy_until)
qed

lemma soft_model_cooled_now:
  assumes "mget (byUID p) uid = Some e" "0 \<le> now" "0 < soft" "m \<noteq> []"
  shows "\<exists>e'. mget (byUID (CooldownSoftForModel now uid soft t m why p)) uid = Some e' \<and> \<not> healthyForModel e' now m"
proof (cases "is_zero t")
  case True
  have pos: "0 < softDurationLocked p soft n" for n
    using softDurationLocked_bounds [OF assms(3)] by simp
  show ?thesis
    using True assms pos by (simp add: CooldownSoftForModel_def Let_def not_healthy_until)
next
  case False
  show ?thesis
    unfolding mget_CooldownSoftForModel_reset [OF assms(1) False]
    using cappedSoftUntilLocked_future [of now p t] assms(2,4)
    by (simp add: not_healthy_model)
qed

text \<open>
  an error of the request (blocked content, bad parameters, too long a context, a rejected
  channel, a firewall page, any other client error) leaves every account as it was; a server
  error only counts towards the breaker; every other class takes the account out of the
  rotation for that model at once.
\<close>

theorem policy_verdict:
  assumes "mget (byUID p) uid = Some e" "uid \<noteq> []" "0 \<le> now" "0 < soft" "m \<noteq> []"
    and "\<And>c. mget (modelCooldowns e) m = Some c \<Longrightarrow> 0 \<le> mc_Hits c"
  shows "if blames_request k then applyErrorPolicy now off soft uid k body m p = p
    else if k = ErrServer then applyErrorPolicy now off soft uid k body m p = NoteError now uid p
    else \<exists>e'. mget (byUID (applyErrorPolicy now off soft uid k body m p)) uid = Some e'
           \<and> \<not> healthyForModel e' now m"
proof (cases k)
  case ErrModelBlocked
  have "0 < block_ttl h" if "1 \<le> h" for h
    using block_ttl_bounds [OF that] by (simp add: modelBlockBaseTTL_def dur_defs)
  then show ?thesis
    using ErrModelBlocked assms
    by (auto simp: blames_request_def applyErrorPolicy_def BlockModelBackoff_def Let_def
        not_healthy_model split: option.split)
next
  case ErrSoftRate
  then show ?thesis
    using soft_cooled_now [OF assms(1,3,4)] soft_model_cooled_now [OF assms(1,3,4,5)]
    by (auto simp: blames_request_def applyErrorPolicy_def split: option.split)
next
  case ErrAccountFault
  then show ?thesis
    using cooled_now(1) [OF assms(1,3,4)] assms(1)
    by (auto simp: blames_request_def applyErrorPolicy_def Disable_def disableLocked_def Let_def
        not_healthy_disabled)
next
  case ErrSessionDead
  then show ?thesis
    using assms(1)
    by (auto simp: blames_request_def applyErrorPolicy_def Disable_def disableLocked_def Let_def
        not_healthy_disabled)
next
  case ErrNotFound
  have "0 < notFoundCooldown" by (simp add: notFoundCooldown_def dur_defs)
  then show ?thesis
    using ErrNotFound cooled_now(1) [OF assms(1,3)] by (simp add: blames_request_def applyErrorPolicy_def)
next
  case ErrHardCredit
  then show ?thesis
    using cooled_now(2) [OF assms(1,3)] by (simp add: blames_request_def applyErrorPolicy_def)
qed (simp_all add: blames_request_def applyErrorPolicy_def)

lemma policy_verdict_witness:
  "\<exists>e'. mget (byUID (applyErrorPolicy 10 0 5 ''u'' ErrNotFound [] ''m''
      ((New_pool [])\<lparr>byUID := [(''u'', new_entry empty_auth)]\<rparr>))) ''u'' = Some e'
    \<and> \<not> healthyForModel e' 10 ''m''"
proof -
  let ?p = "(New_pool [])\<lparr>byUID := [(''u'', new_entry empty_auth)]\<rparr>"
  have "mget (byUID ?p) ''u'' = Some (new_entry empty_auth)" by simp
  from policy_verdict [OF this, of 10 5 "''m''" ErrNotFound 0 "[]"]
  show ?thesis by (simp add: blames_request_def new_entry_def)
qed

text \<open>
  C40: from status and text to the account: a client error of status 400 to 499 whose text
  carries none of the billing, session, account and rate-limit markers, and that is neither a
  402, a 404, a 429 nor a missing model, changes no account.
\<close>

theorem unmarked_client_error_changes_nothing:
  assumes "\<not> IsModelBlocked parse sprint status body" "400 \<le> status" "status < 500"
    and "status \<noteq> 402" "status \<noteq> 404" "status \<noteq> 429"
    and "\<not> hit hardRule body (to_lower body)" "\<not> hit sessionDeadRule body (to_lower body)"
    and "\<not> hit accountFaultRule body (to_lower body)" "\<not> hit softRateRule body (to_lower body)"
  shows "applyErrorPolicy now off soft uid (Classify parse sprint status body) body m p = p"
  using assms by (simp add: Classify_def applyErrorPolicy_def Let_def)

lemma unmarked_client_error_changes_nothing_witness:
  "applyErrorPolicy 10 0 5 ''u'' (Classify (\<lambda>_. None) (\<lambda>_. []) 400 ''oops'') ''oops'' ''m'' (New_pool []) = New_pool []"
proof (rule unmarked_client_error_changes_nothing)
  show "\<not> hit hardRule ''oops'' (to_lower ''oops'')" by code_simp
  show "\<not> hit sessionDeadRule ''oops'' (to_lower ''oops'')" by code_simp
  show "\<not> hit accountFaultRule ''oops'' (to_lower ''oops'')" by code_simp
  show "\<not> hit softRateRule ''oops'' (to_lower ''oops'')" by code_simp
  show "\<not> IsModelBlocked (\<lambda>_. None) (\<lambda>_. []) 400 ''oops''" by (simp add: IsModelBlocked_def)
qed simp_all

end
