(* ===== verification/Utf8.thy ===== *)
theory Utf8
  imports GoStrings
begin

text \<open>
  Runes: how Go ranges over a string. A byte that does not start a well-formed UTF-8 sequence
  is one rune, U+FFFD, of width one.
\<close>

definition byte :: "char \<Rightarrow> nat" where
  "byte c = of_char c"

definition cont :: "char \<Rightarrow> bool" where
  "cont c \<longleftrightarrow> 0x80 \<le> byte c \<and> byte c < 0xC0"

text \<open>The rune at the start of a non-empty string, and the number of its bytes.\<close>

definition rune_at :: "string \<Rightarrow> nat \<times> nat" where
  "rune_at s =
     (let b = map byte s; n = length s;
          c = (\<lambda>i. i < n \<and> cont (s ! i))
      in if b ! 0 < 0x80 then (b ! 0, 1)
         else if 0xC2 \<le> b ! 0 \<and> b ! 0 \<le> 0xDF \<and> c 1
         then ((b ! 0 - 0xC0) * 64 + (b ! 1 - 0x80), 2)
         else if 0xE0 \<le> b ! 0 \<and> b ! 0 \<le> 0xEF \<and> c 1 \<and> c 2
              \<and> (b ! 0 = 0xE0 \<longrightarrow> 0xA0 \<le> b ! 1) \<and> (b ! 0 = 0xED \<longrightarrow> b ! 1 < 0xA0)
         then ((b ! 0 - 0xE0) * 4096 + (b ! 1 - 0x80) * 64 + (b ! 2 - 0x80), 3)
         else if 0xF0 \<le> b ! 0 \<and> b ! 0 \<le> 0xF4 \<and> c 1 \<and> c 2 \<and> c 3
              \<and> (b ! 0 = 0xF0 \<longrightarrow> 0x90 \<le> b ! 1) \<and> (b ! 0 = 0xF4 \<longrightarrow> b ! 1 < 0x90)
         then ((b ! 0 - 0xF0) * 262144 + (b ! 1 - 0x80) * 4096 + (b ! 2 - 0x80) * 64 + (b ! 3 - 0x80), 4)
         else (0xFFFD, 1))"

lemma rune_width: "1 \<le> snd (rune_at s)"
  by (simp add: rune_at_def Let_def)

function runes :: "string \<Rightarrow> nat list" where
  "runes s = (if s = [] then [] else fst (rune_at s) # runes (drop (snd (rune_at s)) s))"
  by auto
termination
proof (relation "measure length")
  fix s :: string
  assume "s \<noteq> []"
  then show "(drop (snd (rune_at s)) s, s) \<in> measure length"
    using rune_width [of s] by (cases s) auto
qed simp

declare runes.simps [simp del]

definition rune_count :: "string \<Rightarrow> nat" where
  "rune_count s = length (runes s)"

text \<open>\<open>unicode.IsControl\<close> and \<open>unicode.IsSpace\<close>.\<close>

definition is_control :: "nat \<Rightarrow> bool" where
  "is_control r \<longleftrightarrow> r < 0x20 \<or> (0x7F \<le> r \<and> r < 0xA0)"

definition is_space_rune :: "nat \<Rightarrow> bool" where
  "is_space_rune r \<longleftrightarrow> (0x09 \<le> r \<and> r \<le> 0x0D) \<or> r = 0x20 \<or> r = 0x85 \<or> r = 0xA0 \<or> r = 0x1680
     \<or> (0x2000 \<le> r \<and> r \<le> 0x200A) \<or> r = 0x2028 \<or> r = 0x2029 \<or> r = 0x202F \<or> r = 0x205F \<or> r = 0x3000"

end
