(* ===== verification/ApiKeys.thy ===== *)
theory ApiKeys
  imports Session Utf8 ErrorPolicy
begin

text \<open>
  Calling keys, \<open>internal/apikeys\<close>: the key file shared by several processes, each with a
  cache of it that is refreshed when the file has another stamp, the operations of the panel,
  and the model whitelist that the server checks (\<open>modelAllowedByKey\<close> in \<open>handler.go\<close>).
\<close>

definition MaxKeys :: nat where "MaxKeys = 256"
definition MaxBoundModels :: nat where "MaxBoundModels = 64"

datatype key_error = KNotFound | KInvalid | KInvalidModels | KLimit | KFile

record key_info =
  k_ID :: string
  k_Name :: string
  k_Note :: string
  k_MaskedKey :: string
  k_Enabled :: bool
  k_CreatedAt :: instant
  k_Legacy :: bool
  k_Models :: "string list"

record key_record =
  k_Info :: key_info
  k_Digest :: string

record key_document =
  kd_Version :: int
  kd_Keys :: "key_record list"

subsection \<open>Validation\<close>

definition validLabel :: "string \<Rightarrow> string \<Rightarrow> bool" where
  "validLabel name note =
     (if name \<noteq> trim_space name \<or> name = [] \<or> rune_count name > 64 \<or> rune_count note > 256 then False
      else list_all (\<lambda>r. \<not> is_control r) (runes (name @ note)))"

fun valid_from :: "string list \<Rightarrow> string list \<Rightarrow> bool" where
  "valid_from seen [] = True"
| "valid_from seen (m # ms) =
     (if m \<noteq> trim_space m \<or> m = [] \<or> rune_count m > 64 then False
      else if list_ex (\<lambda>r. is_control r \<or> is_space_rune r) (runes m) then False
      else if m \<in> set seen then False
      else valid_from (m # seen) ms)"

definition validModels :: "string list \<Rightarrow> bool" where
  "validModels models = (if length models > MaxBoundModels then False else valid_from [] models)"

definition normalizeModels :: "string list \<Rightarrow> string list" where
  "normalizeModels models = map trim_space models"

definition bullet :: string where "bullet = [CHR 0xE2, CHR 0x80, CHR 0xA2]"
definition ellipsis :: string where "ellipsis = [CHR 0xE2, CHR 0x80, CHR 0xA6]"

definition mask :: "string \<Rightarrow> string" where
  "mask key =
     (if length key < 16 then concat (replicate 8 bullet)
      else take 8 key @ ellipsis @ drop (length key - 4) key)"

definition hex_digit :: "char \<Rightarrow> bool" where
  "hex_digit c \<longleftrightarrow> digit c \<or> (CHR ''a'' \<le> c \<and> c \<le> CHR ''f'') \<or> (CHR ''A'' \<le> c \<and> c \<le> CHR ''F'')"

text \<open>Decodes to the 32 bytes of a SHA-256.\<close>

definition digest_ok :: "string \<Rightarrow> bool" where
  "digest_ok d \<longleftrightarrow> length d = 64 \<and> list_all hex_digit d"

subsection \<open>The file\<close>

text \<open>
  The key file: missing, unreadable, or a document under a stamp, which stands for the identity,
  size and modification time that \<open>os.Stat\<close> reports; \<open>None\<close> is content that is too large or
  not a document. Every write installs a new file by a rename and so a new stamp.
\<close>

datatype key_file = KMissing | KUnreadable | KStored nat "key_document option"

record key_disk =
  kf_file :: key_file
  kf_clock :: nat

record key_store =
  ks_keys :: "key_record list"
  ks_stamp :: "nat option"

fun check_records :: "string list \<Rightarrow> string list \<Rightarrow> key_record list \<Rightarrow> bool" where
  "check_records ids digests [] = True"
| "check_records ids digests (k # ks) =
     (if \<not> digest_ok (k_Digest k) \<or> k_ID (k_Info k) = []
         \<or> list_ex (\<lambda>c. c = CHR ''/'' \<or> c = CHR 0x5C) (k_ID (k_Info k))
         \<or> k_ID (k_Info k) \<in> set ids \<or> k_Digest k \<in> set digests
         \<or> \<not> validLabel (k_Name (k_Info k)) (k_Note (k_Info k)) \<or> \<not> validModels (k_Models (k_Info k))
      then False
      else check_records (k_ID (k_Info k) # ids) (k_Digest k # digests) ks)"

datatype key_read = ReadMissing | ReadFailed | ReadKeys "key_record list" nat

definition readKeyRecords :: "key_file \<Rightarrow> key_read" where
  "readKeyRecords f =
     (case f of
        KMissing \<Rightarrow> ReadMissing
      | KUnreadable \<Rightarrow> ReadFailed
      | KStored stamp None \<Rightarrow> ReadFailed
      | KStored stamp (Some doc) \<Rightarrow>
          if kd_Version doc \<noteq> 1 \<or> length (kd_Keys doc) > MaxKeys then ReadFailed
          else if check_records [] [] (kd_Keys doc) then ReadKeys (kd_Keys doc) stamp
          else ReadFailed)"

text \<open>\<open>None\<close> is the error of \<open>os.Stat\<close> or of reading the changed file.\<close>

definition refreshLocked :: "key_disk \<Rightarrow> key_store \<Rightarrow> key_store option" where
  "refreshLocked d s =
     (case kf_file d of
        KMissing \<Rightarrow> None
      | KUnreadable \<Rightarrow> None
      | KStored stamp doc \<Rightarrow>
          if ks_stamp s = Some stamp then Some s
          else (case readKeyRecords (KStored stamp doc) of
                  ReadKeys keys loaded \<Rightarrow> Some (s\<lparr>ks_keys := keys, ks_stamp := Some loaded\<rparr>)
                | _ \<Rightarrow> None))"

text \<open>\<open>io_ok\<close>: the encoded document fits and every step of writing and renaming succeeds.\<close>

definition write_doc :: "bool \<Rightarrow> key_record list \<Rightarrow> key_disk \<Rightarrow> key_disk option" where
  "write_doc io_ok keys d =
     (if io_ok then Some \<lparr>kf_file = KStored (kf_clock d) (Some \<lparr>kd_Version = 1, kd_Keys = keys\<rparr>),
                          kf_clock = Suc (kf_clock d)\<rparr>
      else None)"

definition commit :: "bool \<Rightarrow> key_record list \<Rightarrow> key_disk \<Rightarrow> key_store \<Rightarrow> (key_disk \<times> key_store) option" where
  "commit io_ok keys d s =
     (case write_doc io_ok keys d of
        None \<Rightarrow> None
      | Some d' \<Rightarrow> Some (d', s\<lparr>ks_keys := keys, ks_stamp := Some (kf_clock d)\<rparr>))"

definition existing_name :: string where
  "existing_name = [CHR 0xE7, CHR 0x8E, CHR 0xB0, CHR 0xE6, CHR 0x9C, CHR 0x89,
     CHR 0xE5, CHR 0xAF, CHR 0x86, CHR 0xE9, CHR 0x92, CHR 0xA5]"

definition legacy_record :: "(string \<Rightarrow> string) \<Rightarrow> string \<Rightarrow> instant \<Rightarrow> string \<Rightarrow> key_record" where
  "legacy_record sha note now key =
     \<lparr>k_Info = \<lparr>k_ID = ''legacy'', k_Name = existing_name, k_Note = note, k_MaskedKey = mask key,
        k_Enabled = True, k_CreatedAt = now, k_Legacy = True, k_Models = []\<rparr>, k_Digest = sha key\<rparr>"

definition Open :: "(string \<Rightarrow> string) \<Rightarrow> string \<Rightarrow> instant \<Rightarrow> bool \<Rightarrow> string \<Rightarrow> string \<Rightarrow> key_disk
    \<Rightarrow> (key_disk \<times> key_store) option" where
  "Open sha note now io_ok path existingKey d =
     (if trim_space path = [] then None
      else case readKeyRecords (kf_file d) of
        ReadMissing \<Rightarrow>
          commit io_ok (if existingKey \<noteq> [] then [legacy_record sha note now existingKey] else []) d
            \<lparr>ks_keys = [], ks_stamp = None\<rparr>
      | ReadFailed \<Rightarrow> None
      | ReadKeys keys stamp \<Rightarrow> Some (d, \<lparr>ks_keys = keys, ks_stamp = Some stamp\<rparr>))"

subsection \<open>Operations\<close>

text \<open>Each returns the store, which a successful refresh has changed even if the rest fails.\<close>

definition refreshed :: "key_disk \<Rightarrow> key_store \<Rightarrow> key_store" where
  "refreshed d s = (case refreshLocked d s of None \<Rightarrow> s | Some s' \<Rightarrow> s')"

definition Resolve :: "(string \<Rightarrow> string) \<Rightarrow> string \<Rightarrow> key_disk \<Rightarrow> key_store \<Rightarrow> key_info option" where
  "Resolve sha key d s =
     (if key = [] \<or> length key > 512 then None
      else case refreshLocked d s of
        None \<Rightarrow> None
      | Some s' \<Rightarrow>
          map_option k_Info (find (\<lambda>r. k_Enabled (k_Info r) \<and> k_Digest r = sha key) (ks_keys s')))"

definition Authenticate :: "(string \<Rightarrow> string) \<Rightarrow> string \<Rightarrow> key_disk \<Rightarrow> key_store \<Rightarrow> bool" where
  "Authenticate sha key d s \<longleftrightarrow> Resolve sha key d s \<noteq> None"

definition List_keys :: "key_disk \<Rightarrow> key_store \<Rightarrow> key_info list option" where
  "List_keys d s = map_option (\<lambda>s'. map k_Info (ks_keys s')) (refreshLocked d s)"

text \<open>\<open>key\<close> and \<open>kid\<close> are the random key and kid already encoded.\<close>

definition new_record :: "(string \<Rightarrow> string) \<Rightarrow> instant \<Rightarrow> string \<Rightarrow> string \<Rightarrow> string \<Rightarrow> string \<Rightarrow> string list \<Rightarrow> key_record" where
  "new_record sha now kid key name note models =
     \<lparr>k_Info = \<lparr>k_ID = ''key_'' @ kid, k_Name = name, k_Note = note, k_MaskedKey = mask (''wbk_'' @ key),
        k_Enabled = True, k_CreatedAt = now, k_Legacy = False, k_Models = models\<rparr>,
      k_Digest = sha (''wbk_'' @ key)\<rparr>"

definition Create :: "(string \<Rightarrow> string) \<Rightarrow> instant \<Rightarrow> bool \<Rightarrow> string \<Rightarrow> string \<Rightarrow> string \<Rightarrow> string \<Rightarrow> string list
    \<Rightarrow> key_disk \<Rightarrow> key_store \<Rightarrow> key_disk \<times> key_store \<times> (key_error + key_info \<times> string)" where
  "Create sha now io_ok kid key name0 note0 models0 d s =
     (let name = trim_space name0; note = trim_space note0; models = normalizeModels models0
      in if \<not> validLabel name note then (d, s, Inl KInvalid)
         else if \<not> validModels models then (d, s, Inl KInvalidModels)
         else case refreshLocked d s of
           None \<Rightarrow> (d, s, Inl KFile)
         | Some s' \<Rightarrow>
             if length (ks_keys s') \<ge> MaxKeys then (d, s', Inl KLimit)
             else
               let entry = new_record sha now kid key name note models
               in case commit io_ok (ks_keys s' @ [entry]) d s' of
                    None \<Rightarrow> (d, s', Inl KFile)
                  | Some (d', s'') \<Rightarrow> (d', s'', Inr (k_Info entry, ''wbk_'' @ key)))"

definition edit :: "string option \<Rightarrow> string option \<Rightarrow> bool option \<Rightarrow> string list option \<Rightarrow> key_info \<Rightarrow> key_info" where
  "edit name note enabled models i = i\<lparr>
     k_Name := (case name of None \<Rightarrow> k_Name i | Some n \<Rightarrow> trim_space n),
     k_Note := (case note of None \<Rightarrow> k_Note i | Some n \<Rightarrow> trim_space n),
     k_Enabled := (case enabled of None \<Rightarrow> k_Enabled i | Some b \<Rightarrow> b),
     k_Models := (case models of None \<Rightarrow> k_Models i | Some ms \<Rightarrow> normalizeModels ms)\<rparr>"

fun split_id :: "string \<Rightarrow> key_record list \<Rightarrow> (key_record list \<times> key_record \<times> key_record list) option" where
  "split_id kid [] = None"
| "split_id kid (k # ks) =
     (if k_ID (k_Info k) = kid then Some ([], k, ks)
      else (case split_id kid ks of None \<Rightarrow> None | Some (as, x, bs) \<Rightarrow> Some (k # as, x, bs)))"

definition Update :: "bool \<Rightarrow> string \<Rightarrow> string option \<Rightarrow> string option \<Rightarrow> bool option \<Rightarrow> string list option
    \<Rightarrow> key_disk \<Rightarrow> key_store \<Rightarrow> key_disk \<times> key_store \<times> (key_error + key_info)" where
  "Update io_ok kid name note enabled models d s =
     (case refreshLocked d s of
        None \<Rightarrow> (d, s, Inl KFile)
      | Some s' \<Rightarrow>
          (case split_id kid (ks_keys s') of
             None \<Rightarrow> (d, s', Inl KNotFound)
           | Some (as, k, bs) \<Rightarrow>
               let i = edit name note enabled models (k_Info k)
               in if \<not> validLabel (k_Name i) (k_Note i) then (d, s', Inl KInvalid)
                  else if \<not> validModels (k_Models i) then (d, s', Inl KInvalidModels)
                  else case commit io_ok (as @ [k\<lparr>k_Info := i\<rparr>] @ bs) d s' of
                    None \<Rightarrow> (d, s', Inl KFile)
                  | Some (d', s'') \<Rightarrow> (d', s'', Inr i)))"

definition Delete_key :: "bool \<Rightarrow> string \<Rightarrow> key_disk \<Rightarrow> key_store \<Rightarrow> key_disk \<times> key_store \<times> key_error option" where
  "Delete_key io_ok kid d s =
     (case refreshLocked d s of
        None \<Rightarrow> (d, s, Some KFile)
      | Some s' \<Rightarrow>
          let next = filter (\<lambda>k. k_ID (k_Info k) \<noteq> kid) (ks_keys s')
          in if length next = length (ks_keys s') then (d, s', Some KNotFound)
             else case commit io_ok next d s' of
               None \<Rightarrow> (d, s', Some KFile)
             | Some (d', s'') \<Rightarrow> (d', s'', None))"

text \<open>The status codes of the panel's replies, \<open>admin.go\<close>.\<close>

definition replyError :: "key_error \<Rightarrow> int" where
  "replyError e = (case e of KNotFound \<Rightarrow> 404 | KInvalid \<Rightarrow> 400 | KInvalidModels \<Rightarrow> 400 | KLimit \<Rightarrow> 409 | KFile \<Rightarrow> 500)"

subsection \<open>The model whitelist\<close>

definition modelAllowedByKey :: "key_info \<Rightarrow> string \<Rightarrow> bool" where
  "modelAllowedByKey info requestModel =
     (if k_Models info = [] then True
      else case resolveModel requestModel of (rlm, bare) \<Rightarrow>
        list_ex (\<lambda>allowed. case resolveModel allowed of (allowedRealm, allowedBare) \<Rightarrow>
            if allowedBare \<noteq> bare then False
            else if allowedRealm \<noteq> rlm \<and> CHR '':'' \<in> set allowed then False
            else True) (k_Models info))"

end
