(* ===== verification/ApiKeysProps.thy ===== *)
theory ApiKeysProps
  imports ApiKeys
begin

text \<open>
  Several processes on one key file: the caches refine a single list of keys, the one in the
  file, so that a revocation takes effect everywhere at once and no update is lost; what is
  committed can be read back; and the whitelist matches realm and model.
\<close>

subsection \<open>Processes\<close>

record key_system =
  sys_disk :: key_disk
  stores :: "nat \<Rightarrow> key_store"

text \<open>
  Any process may run any operation; the last rule is somebody else replacing the file, with a
  stamp of its own.
\<close>

inductive key_step :: "(string \<Rightarrow> string) \<Rightarrow> key_system \<Rightarrow> key_system \<Rightarrow> bool" for sha where
  read: "key_step sha s (s\<lparr>stores := (stores s)(i := refreshed (sys_disk s) (stores s i))\<rparr>)"
| create: "Create sha now io_ok kid key name note models (sys_disk s) (stores s i) = (d, st, r) \<Longrightarrow>
     key_step sha s (s\<lparr>sys_disk := d, stores := (stores s)(i := st)\<rparr>)"
| update: "Update io_ok kid name note enabled models (sys_disk s) (stores s i) = (d, st, r) \<Longrightarrow>
     key_step sha s (s\<lparr>sys_disk := d, stores := (stores s)(i := st)\<rparr>)"
| delete: "Delete_key io_ok kid (sys_disk s) (stores s i) = (d, st, r) \<Longrightarrow>
     key_step sha s (s\<lparr>sys_disk := d, stores := (stores s)(i := st)\<rparr>)"
| replace: "f = KMissing \<or> f = KUnreadable \<or> (\<exists>doc. f = KStored (kf_clock (sys_disk s)) doc) \<Longrightarrow>
     key_step sha s (s\<lparr>sys_disk := \<lparr>kf_file = f, kf_clock = Suc (kf_clock (sys_disk s))\<rparr>\<rparr>)"

inductive key_reachable :: "(string \<Rightarrow> string) \<Rightarrow> key_disk \<Rightarrow> key_system \<Rightarrow> bool" for sha d0 where
  start: "key_reachable sha d0 \<lparr>sys_disk = d0, stores = (\<lambda>_. \<lparr>ks_keys = [], ks_stamp = None\<rparr>)\<rparr>"
| step: "key_reachable sha d0 s \<Longrightarrow> key_step sha s t \<Longrightarrow> key_reachable sha d0 t"

definition file_keys :: "key_disk \<Rightarrow> key_record list option" where
  "file_keys d = (case kf_file d of KStored stamp (Some doc) \<Rightarrow> Some (kd_Keys doc) | _ \<Rightarrow> None)"

definition disk_ok :: "key_disk \<Rightarrow> bool" where
  "disk_ok d = (case kf_file d of KStored stamp doc \<Rightarrow> stamp < kf_clock d | _ \<Rightarrow> True)"

text \<open>A cache whose stamp is that of the file holds the keys of the file.\<close>

definition cache_ok :: "key_disk \<Rightarrow> key_store \<Rightarrow> bool" where
  "cache_ok d s =
     (case ks_stamp s of
        None \<Rightarrow> True
      | Some st \<Rightarrow> st < kf_clock d \<and>
          (case kf_file d of
             KStored stamp doc \<Rightarrow> stamp = st \<longrightarrow> file_keys d = Some (ks_keys s)
           | _ \<Rightarrow> True))"

definition system_ok :: "key_system \<Rightarrow> bool" where
  "system_ok s \<longleftrightarrow> disk_ok (sys_disk s) \<and> (\<forall>i. cache_ok (sys_disk s) (stores s i))"

lemmas ok_defs = disk_ok_def cache_ok_def file_keys_def

lemma refreshLocked_keys:
  assumes "disk_ok d" "cache_ok d s" "refreshLocked d s = Some s'"
  shows "file_keys d = Some (ks_keys s')" "cache_ok d s'"
  using assms
  by (auto simp: refreshLocked_def readKeyRecords_def ok_defs split: key_file.splits option.splits if_splits)

lemma commit_spec:
  assumes "commit io_ok keys d s = Some (d', s')" "disk_ok d"
  shows "file_keys d' = Some keys" "disk_ok d'" "cache_ok d' s'" "\<And>t. cache_ok d t \<Longrightarrow> cache_ok d' t"
  using assms
  by (auto simp: commit_def write_doc_def ok_defs split: if_splits option.splits)

subsection \<open>Every operation acts on the file\<close>

text \<open>The effect of an operation in terms of the list in the file.\<close>

definition acts :: "key_disk \<Rightarrow> key_store \<Rightarrow> key_disk \<Rightarrow> key_store \<Rightarrow> (key_record list \<Rightarrow> key_record list) \<Rightarrow> bool \<Rightarrow> bool" where
  "acts d s d' s' f ok \<longleftrightarrow>
     (if ok then (\<exists>ks. file_keys d = Some ks \<and> file_keys d' = Some (f ks)) else d' = d)
     \<and> disk_ok d' \<and> cache_ok d' s' \<and> (\<forall>t. cache_ok d t \<longrightarrow> cache_ok d' t)"

lemma acts_none: "disk_ok d \<Longrightarrow> cache_ok d s' \<Longrightarrow> acts d s d s' f False"
  by (simp add: acts_def)

lemma acts_commit:
  assumes "disk_ok d" "cache_ok d s" "refreshLocked d s = Some s1"
    "commit io_ok (f (ks_keys s1)) d s1 = Some (d', s')"
  shows "acts d s d' s' f True"
  using refreshLocked_keys [OF assms(1-3)] commit_spec [OF assms(4,1)] by (simp add: acts_def)

definition edit_in :: "string \<Rightarrow> (key_info \<Rightarrow> key_info) \<Rightarrow> key_record list \<Rightarrow> key_record list" where
  "edit_in kid f ks =
     (case split_id kid ks of None \<Rightarrow> ks | Some (as, k, bs) \<Rightarrow> as @ [k\<lparr>k_Info := f (k_Info k)\<rparr>] @ bs)"

lemma Create_acts:
  assumes "disk_ok d" "cache_ok d s"
    "Create sha now io_ok kid key name note models d s = (d', s', r)"
  shows "acts d s d' s'
     (\<lambda>ks. ks @ [new_record sha now kid key (trim_space name) (trim_space note) (normalizeModels models)]) (\<not> isl r)"
proof -
  note run = assms(3) [unfolded Create_def Let_def]
  show ?thesis
  proof (cases "refreshLocked d s")
    case None
    then show ?thesis using run assms(1,2) by (auto simp: acts_none split: if_splits)
  next
    case (Some s1)
    have ok: "cache_ok d s1" by (rule refreshLocked_keys(2) [OF assms(1,2) Some])
    show ?thesis
      using run Some ok assms(1,2) acts_commit [OF assms(1,2) Some,
          where f = "\<lambda>ks. ks @ [new_record sha now kid key (trim_space name) (trim_space note) (normalizeModels models)]"]
      by (auto simp: acts_none split: if_splits option.splits)
  qed
qed

lemma Update_acts:
  assumes "disk_ok d" "cache_ok d s"
    "Update io_ok kid name note enabled models d s = (d', s', r)"
  shows "acts d s d' s' (edit_in kid (edit name note enabled models)) (\<not> isl r)"
proof (cases "refreshLocked d s")
  case None
  then show ?thesis using assms by (auto simp: Update_def acts_none)
next
  case (Some s1)
  have ok: "cache_ok d s1" by (rule refreshLocked_keys(2) [OF assms(1,2) Some])
  show ?thesis
  proof (cases "split_id kid (ks_keys s1)")
    case None
    then show ?thesis using assms Some ok by (auto simp: Update_def acts_none)
  next
    case s: (Some x)
    obtain as k bs where x: "x = (as, k, bs)" by (cases x) auto
    then have e: "edit_in kid (edit name note enabled models) (ks_keys s1)
        = as @ [k\<lparr>k_Info := edit name note enabled models (k_Info k)\<rparr>] @ bs"
      by (simp add: edit_in_def s)
    show ?thesis
      using assms(3) ok acts_commit [OF assms(1,2) Some, where f = "edit_in kid (edit name note enabled models)", unfolded e] assms(1)
      by (auto simp: Update_def Some s x Let_def acts_none split: if_splits option.splits)
  qed
qed

lemma Delete_acts:
  assumes "disk_ok d" "cache_ok d s" "Delete_key io_ok kid d s = (d', s', r)"
  shows "acts d s d' s' (filter (\<lambda>k. k_ID (k_Info k) \<noteq> kid)) (r = None)"
proof (cases "refreshLocked d s")
  case None
  then show ?thesis using assms by (auto simp: Delete_key_def acts_none)
next
  case (Some s1)
  have ok: "cache_ok d s1" by (rule refreshLocked_keys(2) [OF assms(1,2) Some])
  show ?thesis
    using assms(3) Some ok assms(1) acts_commit [OF assms(1,2) Some, where f = "filter (\<lambda>k. k_ID (k_Info k) \<noteq> kid)"]
    by (auto simp: Delete_key_def Let_def acts_none split: if_splits option.splits)
qed

lemma acts_system:
  assumes "system_ok s" "acts (sys_disk s) (stores s i) d st f ok"
  shows "system_ok (s\<lparr>sys_disk := d, stores := (stores s)(i := st)\<rparr>)"
  using assms by (simp add: system_ok_def acts_def)

lemma replaced_ok:
  assumes "f = KMissing \<or> f = KUnreadable \<or> (\<exists>doc. f = KStored (kf_clock d) doc)"
  shows "disk_ok \<lparr>kf_file = f, kf_clock = Suc (kf_clock d)\<rparr>"
    "cache_ok d t \<Longrightarrow> cache_ok \<lparr>kf_file = f, kf_clock = Suc (kf_clock d)\<rparr> t"
  using assms by (auto simp: ok_defs less_Suc_eq split: option.splits)

lemma key_step_ok: "key_step sha s t \<Longrightarrow> system_ok s \<Longrightarrow> system_ok t"
proof (induction rule: key_step.induct)
  case (read s i)
  then show ?case
    using refreshLocked_keys(2) [of "sys_disk s" "stores s i"]
    by (simp add: system_ok_def refreshed_def split: option.split)
next
  case (create now io_ok kid key name nt models s i d st r)
  then show ?case
    by (intro acts_system [OF _ Create_acts]) (auto simp: system_ok_def)
next
  case (update io_ok kid name nt enabled models s i d st r)
  then show ?case
    by (intro acts_system [OF _ Update_acts]) (auto simp: system_ok_def)
next
  case (delete io_ok kid s i d st r)
  then show ?case
    by (intro acts_system [OF _ Delete_acts]) (auto simp: system_ok_def)
next
  case (replace f s)
  then show ?case using replaced_ok by (simp add: system_ok_def)
qed

lemma key_reachable_ok: "key_reachable sha d0 s \<Longrightarrow> disk_ok d0 \<Longrightarrow> system_ok s"
proof (induction rule: key_reachable.induct)
  case start
  then show ?case by (simp add: system_ok_def cache_ok_def)
next
  case (step s t)
  then show ?case by (blast intro: key_step_ok)
qed

text \<open>
  C38: the caches of any number of processes behave as one list, the one in the file: creating
  appends to it, updating edits one entry, deleting removes the entry, each only if it reports
  success; a failed operation leaves the file as it is; and resolving a key looks it up among
  the enabled entries of the file, so a deletion or deactivation by any process is in force in
  every process at once.
\<close>

theorem key_file_is_the_truth:
  assumes "key_reachable sha d0 s" "disk_ok d0"
  shows "(\<forall>now io_ok kid key name nt models d st r.
      Create sha now io_ok kid key name nt models (sys_disk s) (stores s i) = (d, st, r) \<longrightarrow>
      (if isl r then d = sys_disk s
       else \<exists>ks. file_keys (sys_disk s) = Some ks \<and> file_keys d = Some (ks @
         [new_record sha now kid key (trim_space name) (trim_space nt) (normalizeModels models)])))
    \<and> (\<forall>io_ok kid name nt enabled models d st r.
      Update io_ok kid name nt enabled models (sys_disk s) (stores s i) = (d, st, r) \<longrightarrow>
      (if isl r then d = sys_disk s
       else \<exists>ks. file_keys (sys_disk s) = Some ks
         \<and> file_keys d = Some (edit_in kid (edit name nt enabled models) ks)))
    \<and> (\<forall>io_ok kid d st r. Delete_key io_ok kid (sys_disk s) (stores s i) = (d, st, r) \<longrightarrow>
      (if r \<noteq> None then d = sys_disk s
       else \<exists>ks. file_keys (sys_disk s) = Some ks
         \<and> file_keys d = Some (filter (\<lambda>k. k_ID (k_Info k) \<noteq> kid) ks)))
    \<and> (\<forall>key info. Resolve sha key (sys_disk s) (stores s i) = Some info \<longrightarrow>
      (\<exists>ks. file_keys (sys_disk s) = Some ks
        \<and> map_option k_Info (find (\<lambda>k. k_Enabled (k_Info k) \<and> k_Digest k = sha key) ks) = Some info))"
proof -
  have ok: "disk_ok (sys_disk s)" "cache_ok (sys_disk s) (stores s i)"
    using key_reachable_ok [OF assms] by (simp_all add: system_ok_def)
  show ?thesis
  proof (intro conjI allI impI)
    fix now io_ok kid key name nt models d st r
    assume "Create sha now io_ok kid key name nt models (sys_disk s) (stores s i) = (d, st, r)"
    from Create_acts [OF ok this] show "if isl r then d = sys_disk s
       else \<exists>ks. file_keys (sys_disk s) = Some ks \<and> file_keys d = Some (ks @
         [new_record sha now kid key (trim_space name) (trim_space nt) (normalizeModels models)])"
      by (simp add: acts_def)
  next
    fix io_ok kid name nt enabled models d st r
    assume "Update io_ok kid name nt enabled models (sys_disk s) (stores s i) = (d, st, r)"
    from Update_acts [OF ok this] show "if isl r then d = sys_disk s
       else \<exists>ks. file_keys (sys_disk s) = Some ks
         \<and> file_keys d = Some (edit_in kid (edit name nt enabled models) ks)"
      by (simp add: acts_def)
  next
    fix io_ok kid d st r
    assume "Delete_key io_ok kid (sys_disk s) (stores s i) = (d, st, r)"
    from Delete_acts [OF ok this] show "if r \<noteq> None then d = sys_disk s
       else \<exists>ks. file_keys (sys_disk s) = Some ks
         \<and> file_keys d = Some (filter (\<lambda>k. k_ID (k_Info k) \<noteq> kid) ks)"
      by (simp add: acts_def)
  next
    fix key info
    assume r: "Resolve sha key (sys_disk s) (stores s i) = Some info"
    then obtain s' where "refreshLocked (sys_disk s) (stores s i) = Some s'"
      "map_option k_Info (find (\<lambda>k. k_Enabled (k_Info k) \<and> k_Digest k = sha key) (ks_keys s')) = Some info"
      by (auto simp: Resolve_def split: if_splits option.splits)
    then show "\<exists>ks. file_keys (sys_disk s) = Some ks
        \<and> map_option k_Info (find (\<lambda>k. k_Enabled (k_Info k) \<and> k_Digest k = sha key) ks) = Some info"
      using refreshLocked_keys(1) [OF ok] by blast
  qed
qed

text \<open>Two processes on a file with one key: the second deletes it.\<close>

definition demo_key :: key_record where
  "demo_key = \<lparr>k_Info = \<lparr>k_ID = ''key_1'', k_Name = ''n'', k_Note = [], k_MaskedKey = [], k_Enabled = True,
     k_CreatedAt = 0, k_Legacy = False, k_Models = []\<rparr>, k_Digest = replicate 64 (CHR ''a'')\<rparr>"

definition demo_disk :: key_disk where
  "demo_disk = \<lparr>kf_file = KStored 0 (Some \<lparr>kd_Version = 1, kd_Keys = [demo_key]\<rparr>), kf_clock = 1\<rparr>"

lemma demo_resolves:
  "Resolve (\<lambda>_. replicate 64 (CHR ''a'')) ''wbk'' demo_disk \<lparr>ks_keys = [], ks_stamp = None\<rparr> = Some (k_Info demo_key)"
  by code_simp

lemma key_file_is_the_truth_witness:
  "\<exists>ks. file_keys demo_disk = Some ks
     \<and> map_option k_Info (find (\<lambda>k. k_Enabled (k_Info k) \<and> k_Digest k = replicate 64 (CHR ''a'')) ks)
         = Some (k_Info demo_key)"
proof -
  have "disk_ok demo_disk" by (simp add: demo_disk_def disk_ok_def)
  from key_file_is_the_truth [OF key_reachable.start this, of "\<lambda>_. replicate 64 (CHR ''a'')" 0]
  show ?thesis using demo_resolves by (simp only: key_system.simps)
qed

subsection \<open>Committed documents can be read back\<close>

lemma valid_from_iff:
  "valid_from seen ms \<longleftrightarrow> distinct ms \<and> set ms \<inter> set seen = {}
     \<and> list_all (\<lambda>m. m = trim_space m \<and> m \<noteq> [] \<and> rune_count m \<le> 64
          \<and> \<not> list_ex (\<lambda>r. is_control r \<or> is_space_rune r) (runes m)) ms"
  by (induction ms arbitrary: seen) auto

definition record_ok :: "key_record \<Rightarrow> bool" where
  "record_ok k \<longleftrightarrow> digest_ok (k_Digest k) \<and> k_ID (k_Info k) \<noteq> []
     \<and> \<not> list_ex (\<lambda>c. c = CHR ''/'' \<or> c = CHR 0x5C) (k_ID (k_Info k))
     \<and> validLabel (k_Name (k_Info k)) (k_Note (k_Info k)) \<and> validModels (k_Models (k_Info k))"

abbreviation rec_id :: "key_record \<Rightarrow> string" where "rec_id k \<equiv> k_ID (k_Info k)"

lemma check_records_iff:
  "check_records ids digests ks \<longleftrightarrow> list_all record_ok ks
     \<and> distinct (map rec_id ks) \<and> distinct (map k_Digest ks)
     \<and> (rec_id ` set ks) \<inter> set ids = {} \<and> (k_Digest ` set ks) \<inter> set digests = {}"
  by (induction ks arbitrary: ids digests) (auto simp: record_ok_def)

definition readable :: "key_record list \<Rightarrow> bool" where
  "readable ks \<longleftrightarrow> length ks \<le> MaxKeys \<and> check_records [] [] ks"

lemma readable_iff:
  "readable ks \<longleftrightarrow> length ks \<le> MaxKeys \<and> list_all record_ok ks
     \<and> distinct (map rec_id ks) \<and> distinct (map k_Digest ks)"
  by (simp add: readable_def check_records_iff)

lemma split_id_SomeD: "split_id kid ks = Some (as, k, bs) \<Longrightarrow> ks = as @ k # bs \<and> rec_id k = kid"
  by (induction ks arbitrary: as) (auto split: if_splits option.splits)

lemma Create_valid:
  assumes "Create sha now io_ok kid key name nt models d s = (d', s', Inr r)"
  shows "validLabel (trim_space name) (trim_space nt)" "validModels (normalizeModels models)"
    "\<exists>s1. refreshLocked d s = Some s1 \<and> length (ks_keys s1) < MaxKeys"
  using assms by (auto simp: Create_def Let_def split: if_splits option.splits)

lemma Update_valid:
  assumes "Update io_ok kid name nt enabled models d s = (d', s', Inr r)" "disk_ok d" "cache_ok d s"
    "file_keys d = Some ks"
  shows "\<exists>as k bs. split_id kid ks = Some (as, k, bs)
     \<and> validLabel (k_Name (edit name nt enabled models (k_Info k))) (k_Note (edit name nt enabled models (k_Info k)))
     \<and> validModels (k_Models (edit name nt enabled models (k_Info k)))"
proof -
  obtain s1 where s1: "refreshLocked d s = Some s1"
    using assms(1) by (auto simp: Update_def split: option.splits)
  have "ks_keys s1 = ks" using refreshLocked_keys(1) [OF assms(2,3) s1] assms(4) by simp
  then show ?thesis
    using assms(1) s1 by (auto simp: Update_def Let_def split: option.splits if_splits)
qed

lemma readable_edit:
  assumes "readable ks" "split_id kid ks = Some (as, k, bs)" "k_ID (f (k_Info k)) = kid"
    "validLabel (k_Name (f (k_Info k))) (k_Note (f (k_Info k)))" "validModels (k_Models (f (k_Info k)))"
  shows "readable (edit_in kid f ks)"
proof -
  have ks: "ks = as @ k # bs" "rec_id k = kid" using split_id_SomeD [OF assms(2)] by simp_all
  then show ?thesis
    using assms by (auto simp: readable_iff edit_in_def record_ok_def)
qed

lemma readable_append:
  assumes "readable ks" "length ks < MaxKeys" "record_ok k" "rec_id k \<notin> rec_id ` set ks"
    "k_Digest k \<notin> k_Digest ` set ks"
  shows "readable (ks @ [k])"
  using assms by (auto simp: readable_iff)

lemma readable_filter: "readable ks \<Longrightarrow> readable (filter P ks)"
  unfolding readable_iff
  by (auto simp: list_all_iff distinct_map intro: le_trans [OF length_filter_le] inj_on_subset)

lemma new_record_ok:
  assumes "digest_ok (sha (''wbk_'' @ key))" "list_all hex_digit kid" "validLabel name nt" "validModels models"
  shows "record_ok (new_record sha now kid key name nt models)"
proof -
  have "\<not> list_ex (\<lambda>c. c = CHR ''/'' \<or> c = CHR 0x5C) kid"
    using assms(2) by (auto simp: list_ex_iff list_all_iff hex_digit_def digit_def)
  then show ?thesis using assms by (simp add: record_ok_def new_record_def)
qed

lemma Create_file:
  assumes "disk_ok d" "cache_ok d s" "file_keys d = Some ks"
    "Create sha now io_ok kid key name nt models d s = (d', s', Inr r)"
  shows "file_keys d' = Some (ks @ [new_record sha now kid key (trim_space name) (trim_space nt) (normalizeModels models)])"
    "length ks < MaxKeys"
proof -
  show "file_keys d' = Some (ks @ [new_record sha now kid key (trim_space name) (trim_space nt) (normalizeModels models)])"
    using Create_acts [OF assms(1,2,4)] assms(3) by (simp add: acts_def)
  obtain s1 where "refreshLocked d s = Some s1" "length (ks_keys s1) < MaxKeys"
    using Create_valid(3) [OF assms(4)] by blast
  then show "length ks < MaxKeys" using refreshLocked_keys(1) [OF assms(1,2)] assms(3) by simp
qed

text \<open>
  an operation never writes a file that the next reader would reject: from a readable file
  a successful creation with a fresh id and digest, a successful update and a deletion all leave
  a readable file; in particular names, notes and whitelists are checked before they are written
  by the same rules as when they are read.
\<close>

theorem committed_file_readable:
  assumes "key_reachable sha d0 s" "disk_ok d0" "file_keys (sys_disk s) = Some ks" "readable ks"
  shows "(\<forall>now io_ok kid key name nt models d st r.
      Create sha now io_ok kid key name nt models (sys_disk s) (stores s i) = (d, st, Inr r)
      \<and> digest_ok (sha (''wbk_'' @ key)) \<and> list_all hex_digit kid
      \<and> (''key_'' @ kid) \<notin> rec_id ` set ks \<and> sha (''wbk_'' @ key) \<notin> k_Digest ` set ks \<longrightarrow>
      (\<exists>ks'. file_keys d = Some ks' \<and> readable ks'))
    \<and> (\<forall>io_ok kid name nt enabled models d st r.
      Update io_ok kid name nt enabled models (sys_disk s) (stores s i) = (d, st, Inr r) \<longrightarrow>
      (\<exists>ks'. file_keys d = Some ks' \<and> readable ks'))
    \<and> (\<forall>io_ok kid d st. Delete_key io_ok kid (sys_disk s) (stores s i) = (d, st, None) \<longrightarrow>
      (\<exists>ks'. file_keys d = Some ks' \<and> readable ks'))"
proof -
  have ok: "disk_ok (sys_disk s)" "cache_ok (sys_disk s) (stores s i)"
    using key_reachable_ok [OF assms(1,2)] by (simp_all add: system_ok_def)
  show ?thesis
  proof (intro conjI allI impI)
    fix now io_ok kid key name nt models d st r
    assume a: "Create sha now io_ok kid key name nt models (sys_disk s) (stores s i) = (d, st, Inr r)
      \<and> digest_ok (sha (''wbk_'' @ key)) \<and> list_all hex_digit kid
      \<and> (''key_'' @ kid) \<notin> rec_id ` set ks \<and> sha (''wbk_'' @ key) \<notin> k_Digest ` set ks"
    note c = conjunct1 [OF a]
    let ?new = "new_record sha now kid key (trim_space name) (trim_space nt) (normalizeModels models)"
    have "record_ok ?new" using a Create_valid(1,2) [OF c] by (simp add: new_record_ok)
    moreover have "rec_id ?new = ''key_'' @ kid" "k_Digest ?new = sha (''wbk_'' @ key)"
      by (simp_all add: new_record_def)
    ultimately show "\<exists>ks'. file_keys d = Some ks' \<and> readable ks'"
      using Create_file [OF ok assms(3) c] readable_append [OF assms(4), of ?new] a by simp
  next
    fix io_ok kid name nt enabled models d st r
    assume u: "Update io_ok kid name nt enabled models (sys_disk s) (stores s i) = (d, st, Inr r)"
    have f: "file_keys d = Some (edit_in kid (edit name nt enabled models) ks)"
      using Update_acts [OF ok u] assms(3) by (simp add: acts_def)
    obtain as k bs where k: "split_id kid ks = Some (as, k, bs)"
        "validLabel (k_Name (edit name nt enabled models (k_Info k))) (k_Note (edit name nt enabled models (k_Info k)))"
        "validModels (k_Models (edit name nt enabled models (k_Info k)))"
      using Update_valid [OF u ok assms(3)] by blast
    have "k_ID (edit name nt enabled models (k_Info k)) = kid"
      using split_id_SomeD [OF k(1)] by (simp add: edit_def)
    from readable_edit [where f = "edit name nt enabled models", OF assms(4) k(1) this k(2,3)] f
    show "\<exists>ks'. file_keys d = Some ks' \<and> readable ks'" by simp
  next
    fix io_ok kid d st
    assume "Delete_key io_ok kid (sys_disk s) (stores s i) = (d, st, None)"
    from Delete_acts [OF ok this] assms(3,4)
    show "\<exists>ks'. file_keys d = Some ks' \<and> readable ks'" by (simp add: acts_def readable_filter)
  qed
qed

text \<open>Renaming the key of the demonstration file.\<close>

lemma demo_update:
  "case Update True ''key_1'' (Some ''second'') None None None demo_disk \<lparr>ks_keys = [], ks_stamp = None\<rparr> of
     (d, st, r) \<Rightarrow> \<not> isl r"
  by code_simp

lemma committed_file_readable_witness:
  "\<exists>d st r ks'. Update True ''key_1'' (Some ''second'') None None None demo_disk
      \<lparr>ks_keys = [], ks_stamp = None\<rparr> = (d, st, Inr r) \<and> file_keys d = Some ks' \<and> readable ks'"
proof -
  have d: "disk_ok demo_disk" by (simp add: demo_disk_def disk_ok_def)
  have f: "file_keys demo_disk = Some [demo_key]" by (simp add: demo_disk_def file_keys_def)
  have r: "readable [demo_key]" by code_simp
  obtain d' st r' where u: "Update True ''key_1'' (Some ''second'') None None None demo_disk
      \<lparr>ks_keys = [], ks_stamp = None\<rparr> = (d', st, Inr r')"
    using demo_update by (auto split: prod.splits sum.splits simp: isl_def) (metis obj_sumE surj_pair)
  from committed_file_readable [OF key_reachable.start d, where ks = "[demo_key]" and sha = "\<lambda>_. []" and i = 0] f r
  show ?thesis using u by (fastforce simp only: key_system.simps)
qed

subsection \<open>The whitelist\<close>

text \<open>The realm an entry names, if it names one.\<close>

definition names_realm :: "string \<Rightarrow> bool" where
  "names_realm m \<longleftrightarrow> has_prefix m ''cn:'' \<or> has_prefix m ''global:''"

lemma resolveModel_bare: "\<not> names_realm m \<Longrightarrow> resolveModel m = (''cn'', m)"
  by (auto simp: resolveModel_def names_realm_def has_prefix_iff split: option.split dest!: cut_at_SomeD)

lemma resolveModel_prefix:
  "has_prefix m (r @ '':'') \<Longrightarrow> r = ''cn'' \<or> r = ''global'' \<Longrightarrow> resolveModel m = (r, drop (length r + 1) m)"
proof -
  assume a: "has_prefix m (r @ '':'')" "r = ''cn'' \<or> r = ''global''"
  then obtain t where "m = r @ CHR '':'' # t" by (auto simp: has_prefix_iff)
  moreover have "CHR '':'' \<notin> set r" using a(2) by auto
  ultimately show ?thesis using a(2) by (auto simp: resolveModel_def cut_at_append)
qed

text \<open>
  a key without a whitelist may call every model; with one, an entry that names a realm
  allows that model in that realm only, and an entry without a colon allows it in both realms.
\<close>

theorem whitelist_matches_realm_and_model:
  assumes "\<And>a. a \<in> set (k_Models info) \<Longrightarrow> names_realm a \<or> CHR '':'' \<notin> set a"
  shows "modelAllowedByKey info m \<longleftrightarrow> k_Models info = [] \<or>
    (\<exists>a \<in> set (k_Models info). if names_realm a then resolveModel a = resolveModel m
                               else a = snd (resolveModel m))"
proof -
  obtain r b where m: "resolveModel m = (r, b)" by (cases "resolveModel m")
  have colon: "CHR '':'' \<in> set a" if "names_realm a" for a
    using that by (auto simp: names_realm_def has_prefix_iff)
  have "(case resolveModel a of (r', b') \<Rightarrow>
            if b' \<noteq> b then False else if r' \<noteq> r \<and> CHR '':'' \<in> set a then False else True)
      \<longleftrightarrow> (if names_realm a then resolveModel a = resolveModel m else a = b)"
    if "a \<in> set (k_Models info)" for a
  proof (cases "names_realm a")
    case True
    then show ?thesis using colon [OF True] by (auto simp: m split: prod.splits)
  next
    case False
    then show ?thesis using assms [OF that] by (auto simp: resolveModel_bare)
  qed
  then show ?thesis
    by (simp add: modelAllowedByKey_def list_ex_iff m)
qed

lemma whitelist_matches_realm_and_model_witness:
  "modelAllowedByKey ((k_Info demo_key)\<lparr>k_Models := [''global:x'', ''y'']\<rparr>) ''cn:y''
   \<and> \<not> modelAllowedByKey ((k_Info demo_key)\<lparr>k_Models := [''global:x'', ''y'']\<rparr>) ''x''"
proof -
  let ?i = "(k_Info demo_key)\<lparr>k_Models := [''global:x'', ''y'']\<rparr>"
  have a: "names_realm a \<or> CHR '':'' \<notin> set a" if "a \<in> set (k_Models ?i)" for a
    using that by (auto simp: names_realm_def has_prefix_def)
  from whitelist_matches_realm_and_model [of ?i "''cn:y''"]
    whitelist_matches_realm_and_model [of ?i "''x''"] a
  show ?thesis
    by (simp add: names_realm_def has_prefix_def resolveModel_def)
qed

end
