(* ===== verification/Usage.thy ===== *)
theory Usage
  imports GoStrings GoFloat "HOL-Library.Product_Lexorder"
begin

text \<open>
  The usage ledger, \<open>internal/usage/store.go\<close>: what each calling key consumed, counted in the
  memory of every process and merged into one file. A process writes only what it added since
  its last write; the file lock makes each read-merge-write one step. A pointer value of a Go
  map is \<open>None\<close> when it is nil, which only a file that says \<open>null\<close> can contain.
\<close>

definition Version :: int where "Version = 1"
definition maxDayBuckets :: nat where "maxDayBuckets = 120"

record Totals =
  Requests :: int
  FailedRequests :: int
  UnreportedRequests :: int
  PromptTokens :: int
  CachedTokens :: int
  CompletionTokens :: int
  TotalTokens :: int
  Credit :: float64

definition zero_Totals :: Totals where
  "zero_Totals = \<lparr>Requests = 0, FailedRequests = 0, UnreportedRequests = 0, PromptTokens = 0,
     CachedTokens = 0, CompletionTokens = 0, TotalTokens = 0, Credit = 0\<rparr>"

record Outcome =
  Failed :: bool
  Unreported :: bool

text \<open>One finished request, the arguments of \<open>RecordOutcome\<close>.\<close>

record usage_event =
  ev_keyID :: string
  ev_name :: string
  ev_maskedKey :: string
  ev_model :: string
  ev_prompt :: int
  ev_completion :: int
  ev_cached :: int
  ev_credit :: float64
  ev_hasCredit :: bool
  ev_outcome :: Outcome
  ev_at :: instant

definition add_usage :: "usage_event \<Rightarrow> Totals \<Rightarrow> Totals" where
  "add_usage ev t =
     (let t1 = (if Failed (ev_outcome ev) then t\<lparr>FailedRequests := FailedRequests t + 1\<rparr> else t);
          t2 = (if Unreported (ev_outcome ev) \<or> ev_prompt ev < 0 \<or> ev_completion ev < 0
                then t1\<lparr>UnreportedRequests := UnreportedRequests t1 + 1\<rparr> else t1);
          prompt = (if ev_prompt ev < 0 then 0 else ev_prompt ev);
          completion = (if ev_completion ev < 0 then 0 else ev_completion ev);
          cached = (if ev_cached ev < 0 then 0 else ev_cached ev);
          t3 = t2\<lparr>Requests := Requests t2 + 1, PromptTokens := PromptTokens t2 + prompt,
                  CachedTokens := CachedTokens t2 + cached,
                  CompletionTokens := CompletionTokens t2 + completion,
                  TotalTokens := TotalTokens t2 + (prompt + completion)\<rparr>
      in if ev_hasCredit ev then t3\<lparr>Credit := fl (Credit t3 + ev_credit ev)\<rparr> else t3)"

definition positive :: "int \<Rightarrow> int" where "positive v = (if v < 0 then 0 else v)"
definition positiveFloat :: "float64 \<Rightarrow> float64" where "positiveFloat v = (if v < 0 then 0 else v)"

definition deltaTotals :: "Totals \<Rightarrow> Totals \<Rightarrow> Totals" where
  "deltaTotals now prev = \<lparr>
     Requests = positive (Requests now - Requests prev),
     FailedRequests = positive (FailedRequests now - FailedRequests prev),
     UnreportedRequests = positive (UnreportedRequests now - UnreportedRequests prev),
     PromptTokens = positive (PromptTokens now - PromptTokens prev),
     CachedTokens = positive (CachedTokens now - CachedTokens prev),
     CompletionTokens = positive (CompletionTokens now - CompletionTokens prev),
     TotalTokens = positive (TotalTokens now - TotalTokens prev),
     Credit = positiveFloat (fl (Credit now - Credit prev))\<rparr>"

definition addTotals :: "Totals \<Rightarrow> Totals \<Rightarrow> Totals" where
  "addTotals base delta = \<lparr>
     Requests = Requests base + Requests delta,
     FailedRequests = FailedRequests base + FailedRequests delta,
     UnreportedRequests = UnreportedRequests base + UnreportedRequests delta,
     PromptTokens = PromptTokens base + PromptTokens delta,
     CachedTokens = CachedTokens base + CachedTokens delta,
     CompletionTokens = CompletionTokens base + CompletionTokens delta,
     TotalTokens = TotalTokens base + TotalTokens delta,
     Credit = fl (Credit base + Credit delta)\<rparr>"

type_synonym buckets = "(string, Totals option) gomap"

record keyRecord =
  kr_Name :: string
  kr_MaskedKey :: string
  kr_Totals :: Totals
  kr_Models :: buckets
  kr_Days :: buckets
  kr_FirstUsedAt :: instant
  kr_LastUsedAt :: instant

definition zero_keyRecord :: keyRecord where
  "zero_keyRecord = \<lparr>kr_Name = [], kr_MaskedKey = [], kr_Totals = zero_Totals, kr_Models = [], kr_Days = [],
     kr_FirstUsedAt = 0, kr_LastUsedAt = 0\<rparr>"

record document =
  d_Version :: int
  d_Since :: instant
  d_UpdatedAt :: instant
  d_Totals :: Totals
  d_Keys :: "(string, keyRecord option) gomap"
  d_Days :: buckets

definition new_document :: "instant \<Rightarrow> document" where
  "new_document since = \<lparr>d_Version = Version, d_Since = since, d_UpdatedAt = 0, d_Totals = zero_Totals,
     d_Keys = [], d_Days = []\<rparr>"

text \<open>Looking up a pointer: nil when absent or nil.\<close>

definition pget :: "('k, 'v option) gomap \<Rightarrow> 'k \<Rightarrow> 'v option" where
  "pget m k = (case mget m k of Some (Some v) \<Rightarrow> Some v | _ \<Rightarrow> None)"

definition or_zero :: "Totals option \<Rightarrow> Totals" where
  "or_zero t = (case t of None \<Rightarrow> zero_Totals | Some t \<Rightarrow> t)"

subsection \<open>Days\<close>

text \<open>The calendar day of a day number counted from 1 January of the year 1.\<close>

definition civil :: "int \<Rightarrow> int \<times> int \<times> int" where
  "civil z =
     (let z' = z + 306; era = z' div 146097; doe = z' mod 146097;
          yoe = (doe - doe div 1460 + doe div 36524 - doe div 146096) div 365;
          doy = doe - (365 * yoe + yoe div 4 - yoe div 100);
          mp = (5 * doy + 2) div 153;
          d = doy - (153 * mp + 2) div 5 + 1;
          m = (if mp < 10 then mp + 3 else mp - 9)
      in (yoe + era * 400 + (if m \<le> 2 then 1 else 0), m, d))"

definition digit_char :: "int \<Rightarrow> char" where
  "digit_char n = char_of (48 + nat (n mod 10))"

text \<open>\<open>2006-01-02\<close>, for the years 0 to 9999, in a zone \<open>tz\<close> ahead of UTC.\<close>

definition dayKeyOf :: "duration \<Rightarrow> instant \<Rightarrow> string" where
  "dayKeyOf tz t =
     (case civil ((t + tz) div day) of (y, m, d) \<Rightarrow>
        [digit_char (y div 1000), digit_char (y div 100), digit_char (y div 10), digit_char y, CHR ''-'',
         digit_char (m div 10), digit_char m, CHR ''-'', digit_char (d div 10), digit_char d])"

definition trimDayBuckets :: "buckets \<Rightarrow> buckets" where
  "trimDayBuckets m =
     (if length m \<le> maxDayBuckets then m
      else let old = take (length m - maxDayBuckets) (sort (mkeys m))
           in filter (\<lambda>(k, _). k \<notin> set old) m)"

subsection \<open>Recording\<close>

definition unnamed :: string where
  "unnamed = [CHR 0xE6, CHR 0x9C, CHR 0xAA, CHR 0xE5, CHR 0x91, CHR 0xBD, CHR 0xE5, CHR 0x90, CHR 0x8D,
     CHR 0xE5, CHR 0xAF, CHR 0x86, CHR 0xE9, CHR 0x92, CHR 0xA5]"

definition bump :: "usage_event \<Rightarrow> string \<Rightarrow> buckets \<Rightarrow> buckets" where
  "bump ev k m = mput k (Some (add_usage ev (or_zero (pget m k)))) m"

definition ledger_key :: "usage_event \<Rightarrow> string" where
  "ledger_key ev = (if trim_space (ev_keyID ev) = [] then ''legacy'' else ev_keyID ev)"

definition record_key :: "string \<Rightarrow> instant \<Rightarrow> usage_event \<Rightarrow> keyRecord \<Rightarrow> keyRecord" where
  "record_key dy t ev r = r\<lparr>
     kr_Name := (if ev_name ev = [] then unnamed else ev_name ev),
     kr_MaskedKey := (if ev_maskedKey ev \<noteq> [] then ev_maskedKey ev else kr_MaskedKey r),
     kr_FirstUsedAt := (if is_zero (kr_FirstUsedAt r) then t else kr_FirstUsedAt r),
     kr_LastUsedAt := t,
     kr_Totals := add_usage ev (kr_Totals r),
     kr_Days := trimDayBuckets (bump ev dy (kr_Days r)),
     kr_Models := (if trim_space (ev_model ev) \<noteq> [] then bump ev (ev_model ev) (kr_Models r) else kr_Models r)\<rparr>"

definition record_doc :: "duration \<Rightarrow> instant \<Rightarrow> usage_event \<Rightarrow> document \<Rightarrow> document" where
  "record_doc tz now ev d =
     (let t = (if is_zero (ev_at ev) then now else ev_at ev);
          dy = dayKeyOf tz t;
          kid = ledger_key ev;
          r = (case pget (d_Keys d) kid of None \<Rightarrow> zero_keyRecord\<lparr>kr_FirstUsedAt := t\<rparr> | Some r \<Rightarrow> r)
      in d\<lparr>d_Keys := mput kid (Some (record_key dy t ev r)) (d_Keys d),
           d_Totals := add_usage ev (d_Totals d),
           d_UpdatedAt := t,
           d_Days := trimDayBuckets (bump ev dy (d_Days d))\<rparr>)"

record usage_store =
  us_doc :: document
  us_written :: document
  us_dirty :: bool
  us_closed :: bool

definition RecordOutcome :: "duration \<Rightarrow> instant \<Rightarrow> usage_event \<Rightarrow> usage_store \<Rightarrow> usage_store" where
  "RecordOutcome tz now ev s =
     (if us_closed s then s
      else s\<lparr>us_doc := record_doc tz now ev (us_doc s), us_dirty := True\<rparr>)"

subsection \<open>Differences and sums of ledgers\<close>

text \<open>
  The loops over a map of pointers: building a map of what each value has beyond another map,
  and merging a map into another one. Both skip nil.
\<close>

definition delta_map :: "('v \<Rightarrow> 'v option \<Rightarrow> 'v) \<Rightarrow> ('k, 'v option) gomap \<Rightarrow> ('k, 'v option) gomap \<Rightarrow> ('k, 'v option) gomap" where
  "delta_map f mine prev =
     List.map_filter (\<lambda>(k, v). case v of None \<Rightarrow> None | Some x \<Rightarrow> Some (k, Some (f x (pget prev k)))) mine"

definition merge_map :: "('v option \<Rightarrow> 'v \<Rightarrow> 'v) \<Rightarrow> ('k, 'v option) gomap \<Rightarrow> ('k, 'v option) gomap \<Rightarrow> ('k, 'v option) gomap" where
  "merge_map f base delta =
     fold (\<lambda>(k, v) b. case v of None \<Rightarrow> b | Some x \<Rightarrow> mput k (Some (f (pget b k) x)) b) delta base"

definition cloneModels :: "('k, 'v option) gomap \<Rightarrow> ('k, 'v option) gomap" where
  "cloneModels m = filter (\<lambda>(k, v). v \<noteq> None) m"

definition deltaDays :: "buckets \<Rightarrow> buckets \<Rightarrow> buckets" where
  "deltaDays = delta_map (\<lambda>t before. deltaTotals t (or_zero before))"

definition delta_key :: "keyRecord \<Rightarrow> keyRecord option \<Rightarrow> keyRecord" where
  "delta_key current old =
     (let before = (case old of None \<Rightarrow> zero_keyRecord | Some r \<Rightarrow> r)
      in \<lparr>kr_Name = kr_Name current, kr_MaskedKey = kr_MaskedKey current,
          kr_Totals = deltaTotals (kr_Totals current) (kr_Totals before),
          kr_Models = delta_map (\<lambda>t b. deltaTotals t (or_zero b)) (kr_Models current) (kr_Models before),
          kr_Days = deltaDays (kr_Days current) (kr_Days before),
          kr_FirstUsedAt = kr_FirstUsedAt current, kr_LastUsedAt = kr_LastUsedAt current\<rparr>)"

definition deltaDocument :: "document \<Rightarrow> document \<Rightarrow> document" where
  "deltaDocument mine prev =
     \<lparr>d_Version = Version, d_Since = d_Since mine, d_UpdatedAt = d_UpdatedAt mine,
      d_Totals = deltaTotals (d_Totals mine) (d_Totals prev),
      d_Keys = delta_map delta_key (d_Keys mine) (d_Keys prev),
      d_Days = deltaDays (d_Days mine) (d_Days prev)\<rparr>"

definition add_or_copy :: "Totals option \<Rightarrow> Totals \<Rightarrow> Totals" where
  "add_or_copy existing t = (case existing of None \<Rightarrow> t | Some e \<Rightarrow> addTotals e t)"

definition addDays :: "buckets \<Rightarrow> buckets \<Rightarrow> buckets" where
  "addDays = merge_map add_or_copy"

definition add_key :: "keyRecord option \<Rightarrow> keyRecord \<Rightarrow> keyRecord" where
  "add_key existing a =
     (case existing of
        None \<Rightarrow> a\<lparr>kr_Models := cloneModels (kr_Models a), kr_Days := cloneModels (kr_Days a)\<rparr>
      | Some c \<Rightarrow>
          c\<lparr>kr_Totals := addTotals (kr_Totals c) (kr_Totals a),
            kr_Name := (if kr_Name a \<noteq> [] \<and> (kr_Name c = [] \<or> \<not> kr_LastUsedAt a < kr_LastUsedAt c)
                        then kr_Name a else kr_Name c),
            kr_MaskedKey := (if kr_MaskedKey a \<noteq> [] \<and> (kr_MaskedKey c = [] \<or> \<not> kr_LastUsedAt a < kr_LastUsedAt c)
                             then kr_MaskedKey a else kr_MaskedKey c),
            kr_FirstUsedAt := (if \<not> is_zero (kr_FirstUsedAt a)
                                 \<and> (is_zero (kr_FirstUsedAt c) \<or> kr_FirstUsedAt a < kr_FirstUsedAt c)
                               then kr_FirstUsedAt a else kr_FirstUsedAt c),
            kr_LastUsedAt := (if kr_LastUsedAt c < kr_LastUsedAt a then kr_LastUsedAt a else kr_LastUsedAt c),
            kr_Models := merge_map add_or_copy (kr_Models c) (kr_Models a),
            kr_Days := trimDayBuckets (merge_map add_or_copy (kr_Days c) (kr_Days a))\<rparr>)"

definition addDocument :: "document \<Rightarrow> document \<Rightarrow> document" where
  "addDocument base delta = base\<lparr>
     d_Version := Version,
     d_Totals := addTotals (d_Totals base) (d_Totals delta),
     d_Since := (if \<not> is_zero (d_Since delta) \<and> (is_zero (d_Since base) \<or> d_Since delta < d_Since base)
                 then d_Since delta else d_Since base),
     d_UpdatedAt := (if d_UpdatedAt base < d_UpdatedAt delta then d_UpdatedAt delta else d_UpdatedAt base),
     d_Days := trimDayBuckets (addDays (d_Days base) (d_Days delta)),
     d_Keys := merge_map add_key (d_Keys base) (d_Keys delta)\<rparr>"

definition clone_key :: "keyRecord \<Rightarrow> keyRecord" where
  "clone_key r = r\<lparr>kr_Models := cloneModels (kr_Models r), kr_Days := cloneModels (kr_Days r)\<rparr>"

definition cloneDocument :: "document \<Rightarrow> document" where
  "cloneDocument d = d\<lparr>
     d_Keys := List.map_filter (\<lambda>(k, v). case v of None \<Rightarrow> None | Some r \<Rightarrow> Some (k, Some (clone_key r))) (d_Keys d),
     d_Days := cloneModels (d_Days d)\<rparr>"

subsection \<open>The file\<close>

text \<open>
  The ledger file as \<open>readLedger\<close> sees it. \<open>LBroken\<close> stands for every error but "not found":
  unreadable, too large, not JSON. A document is written as JSON and read back as it was.
\<close>

datatype ledger_file = LMissing | LBroken | LStored document

datatype ledger_read = NotExist | ReadError | Ledger document

definition readLedger :: "ledger_file \<Rightarrow> ledger_read" where
  "readLedger f =
     (case f of
        LMissing \<Rightarrow> NotExist
      | LBroken \<Rightarrow> ReadError
      | LStored d \<Rightarrow> if d_Version d \<noteq> Version then ReadError else Ledger d)"

text \<open>
  \<open>persistDocument\<close>, holding the file lock: the new file and the document written, or \<open>None\<close>
  after an error; \<open>io_ok\<close> says that the lock, the size limit, the temporary file and the rename
  raise none.
\<close>

definition persistDocument :: "bool \<Rightarrow> bool \<Rightarrow> document \<Rightarrow> usage_store \<Rightarrow> ledger_file \<Rightarrow> (ledger_file \<times> document) option" where
  "persistDocument io_ok merge snapshot s f =
     (let doc = (if merge
                 then (case readLedger f of
                         NotExist \<Rightarrow> Some (addDocument (cloneDocument (us_written s))
                                        (deltaDocument snapshot (cloneDocument (us_written s))))
                       | ReadError \<Rightarrow> None
                       | Ledger base \<Rightarrow> Some (addDocument base (deltaDocument snapshot (cloneDocument (us_written s)))))
                 else Some snapshot)
      in case doc of None \<Rightarrow> None | Some d \<Rightarrow> if io_ok then Some (LStored d, d) else None)"

definition commit_usage :: "document \<Rightarrow> document \<Rightarrow> bool \<Rightarrow> usage_store \<Rightarrow> usage_store" where
  "commit_usage mine snapshot adoptDisk s =
     (if \<not> adoptDisk then s\<lparr>us_written := cloneDocument mine\<rparr>
      else s\<lparr>us_doc := addDocument (cloneDocument mine) (deltaDocument (us_doc s) snapshot),
             us_written := cloneDocument mine\<rparr>)"

subsection \<open>Flush, in two steps\<close>

text \<open>
  \<open>Flush\<close> holds \<open>flushMu\<close> throughout but releases \<open>mu\<close> after taking the snapshot, so requests
  are recorded between \<open>flush_take\<close> and \<open>flush_put\<close>. No other flush, reset or snapshot of the
  same process comes between them.
\<close>

definition flush_take :: "instant \<Rightarrow> usage_store \<Rightarrow> (usage_store \<times> document) option" where
  "flush_take now s =
     (if \<not> us_dirty s then None
      else let snap = (cloneDocument (us_doc s))\<lparr>d_Version := Version\<rparr>
           in Some (s\<lparr>us_dirty := False\<rparr>,
                    snap\<lparr>d_UpdatedAt := (if is_zero (d_UpdatedAt snap) then now else d_UpdatedAt snap)\<rparr>))"

definition flush_put :: "bool \<Rightarrow> document \<Rightarrow> usage_store \<Rightarrow> ledger_file \<Rightarrow> usage_store \<times> ledger_file" where
  "flush_put io_ok snapshot s f =
     (case persistDocument io_ok True snapshot s f of
        None \<Rightarrow> (s\<lparr>us_dirty := True\<rparr>, f)
      | Some (f', doc) \<Rightarrow> (commit_usage doc snapshot True s, f'))"

definition Flush :: "bool \<Rightarrow> instant \<Rightarrow> usage_store \<Rightarrow> ledger_file \<Rightarrow> usage_store \<times> ledger_file" where
  "Flush io_ok now s f =
     (case flush_take now s of None \<Rightarrow> (s, f) | Some (s', snap) \<Rightarrow> flush_put io_ok snap s' f)"

text \<open>\<open>None\<close> is the error of \<open>Open\<close>; \<open>load\<close> writes the empty ledger when there is no file.\<close>

definition open_store :: "instant \<Rightarrow> usage_store" where
  "open_store now = \<lparr>us_doc = new_document now, us_written = (new_document 0)\<lparr>d_Version := 0\<rparr>,
     us_dirty = False, us_closed = False\<rparr>"

definition load_ledger :: "bool \<Rightarrow> instant \<Rightarrow> ledger_file \<Rightarrow> (usage_store \<times> ledger_file) option" where
  "load_ledger io_ok now f =
     (case readLedger f of
        NotExist \<Rightarrow>
          (case Flush io_ok now ((open_store now)\<lparr>us_dirty := True\<rparr>) f of
             (s, f') \<Rightarrow> if us_dirty s then None else Some (s, f'))
      | ReadError \<Rightarrow> None
      | Ledger d \<Rightarrow>
          let doc = d\<lparr>d_Since := (if is_zero (d_Since d) then now else d_Since d), d_Version := Version\<rparr>
          in Some ((open_store now)\<lparr>us_doc := doc, us_written := cloneDocument doc\<rparr>, f))"

definition OpenLedger :: "string \<Rightarrow> bool \<Rightarrow> instant \<Rightarrow> ledger_file \<Rightarrow> (usage_store \<times> ledger_file) option" where
  "OpenLedger path io_ok now f = (if trim_space path = [] then None else load_ledger io_ok now f)"

text \<open>\<open>Close\<close> refuses further records, then flushes once more.\<close>

definition close_store :: "usage_store \<Rightarrow> usage_store" where
  "close_store s = s\<lparr>us_closed := True\<rparr>"

definition CloseLedger :: "bool \<Rightarrow> instant \<Rightarrow> usage_store \<Rightarrow> ledger_file \<Rightarrow> usage_store \<times> ledger_file" where
  "CloseLedger io_ok now s f = Flush io_ok now (close_store s) f"

subsection \<open>Reset, in two steps\<close>

text \<open>\<open>reset_put\<close> gets what \<open>reset_take\<close> put aside for the case of an error.\<close>

definition reset_take :: "instant \<Rightarrow> usage_store \<Rightarrow> usage_store" where
  "reset_take t s = s\<lparr>us_doc := new_document t, us_written := cloneDocument (new_document t), us_dirty := False\<rparr>"

definition reset_put :: "bool \<Rightarrow> instant \<Rightarrow> usage_store \<Rightarrow> usage_store \<Rightarrow> ledger_file \<Rightarrow> usage_store \<times> ledger_file" where
  "reset_put io_ok t saved s f =
     (let snapshot = cloneDocument (new_document t)
      in case persistDocument io_ok False snapshot s f of
           None \<Rightarrow> (s\<lparr>us_doc := addDocument (us_doc saved) (us_doc s), us_written := us_written saved,
                     us_dirty := us_dirty saved \<or> us_dirty s\<rparr>, f)
         | Some (f', doc) \<Rightarrow> (commit_usage doc snapshot False s, f'))"

definition Reset_ledger :: "bool \<Rightarrow> instant \<Rightarrow> instant \<Rightarrow> usage_store \<Rightarrow> ledger_file \<Rightarrow> usage_store \<times> ledger_file" where
  "Reset_ledger io_ok now t0 s f =
     (if us_closed s then (s, f)
      else let t = (if is_zero t0 then now else t0) in reset_put io_ok t s (reset_take t s) f)"

subsection \<open>The panel's view\<close>

definition view_of :: "usage_store \<Rightarrow> ledger_file \<Rightarrow> document" where
  "view_of s f =
     (case readLedger f of
        Ledger d \<Rightarrow> addDocument d (deltaDocument (cloneDocument (us_doc s)) (cloneDocument (us_written s)))
      | _ \<Rightarrow> cloneDocument (us_doc s))"

definition pairs_of :: "('k, 'v option) gomap \<Rightarrow> ('k \<times> 'v) list" where
  "pairs_of m = List.map_filter (\<lambda>(k, v). map_option (\<lambda>x. (k, x)) v) m"

definition sortDays :: "buckets \<Rightarrow> (string \<times> Totals) list" where
  "sortDays m = rev (sort_key fst (pairs_of m))"

record KeyUsage =
  ku_KeyID :: string
  ku_Record :: keyRecord
  ku_Models :: "(string \<times> Totals) list"
  ku_Days :: "(string \<times> Totals) list"

record usage_snapshot =
  sn_Since :: instant
  sn_UpdatedAt :: instant
  sn_Totals :: Totals
  sn_Keys :: "KeyUsage list"
  sn_Days :: "(string \<times> Totals) list"

definition Snapshot :: "usage_store \<Rightarrow> ledger_file \<Rightarrow> usage_snapshot" where
  "Snapshot s f =
     (let view = view_of s f;
          entry = (\<lambda>(kid, r). \<lparr>ku_KeyID = kid, ku_Record = r,
             ku_Models = sort_key (\<lambda>(m, t). (- TotalTokens t, m)) (pairs_of (kr_Models r)),
             ku_Days = sortDays (kr_Days r)\<rparr>)
      in \<lparr>sn_Since = d_Since view, sn_UpdatedAt = d_UpdatedAt view, sn_Totals = d_Totals view,
          sn_Keys = sort_key (\<lambda>k. (- TotalTokens (kr_Totals (ku_Record k)), ku_KeyID k)) (map entry (pairs_of (d_Keys view))),
          sn_Days = sortDays (d_Days view)\<rparr>)"

end
