(* ===== verification/UsageFacts.thy ===== *)
theory UsageFacts
  imports Usage
begin

text \<open>
  The algebra of ledgers. A counter of a ledger (a field of the total, of a key or of a model of
  a key) turns differences and sums of ledgers into differences and sums of integers; what
  follows for any number of processes on one file is proved once, for every such counter.
\<close>

subsection \<open>Lookups\<close>

lemma pget_Nil [simp]: "pget [] k = None"
  by (simp add: pget_def)

lemma pget_Cons: "pget ((k, v) # m) k' = (if k' = k then v else pget m k')"
  by (simp add: pget_def split: option.split)

lemma pget_mput [simp]: "pget (mput k (Some v) m) k' = (if k' = k then Some v else pget m k')"
  by (simp add: pget_def)

lemma pget_absent: "k \<notin> set (mkeys m) \<Longrightarrow> pget m k = None"
  using mget_None_keys [of m k] by (simp add: pget_def)

lemma set_mkeys_map_filter:
  "set (mkeys (List.map_filter (\<lambda>(k, v). case v of None \<Rightarrow> None | Some x \<Rightarrow> Some (k, g k x)) m)) \<subseteq> set (mkeys m)"
  by (induction m) (auto simp: List.map_filter_simps split: option.splits)

lemma wfmap_map_filter:
  "wfmap m \<Longrightarrow> wfmap (List.map_filter (\<lambda>(k, v). case v of None \<Rightarrow> None | Some x \<Rightarrow> Some (k, g k x)) m)"
proof (induction m)
  case (Cons p m)
  then show ?case
    using set_mkeys_map_filter [of g m]
    by (cases p) (auto simp: List.map_filter_simps split: option.split)
qed (simp add: List.map_filter_simps)

lemma pget_map_filter:
  "wfmap m \<Longrightarrow> pget (List.map_filter (\<lambda>(k, v). case v of None \<Rightarrow> None | Some x \<Rightarrow> Some (k, Some (g k x))) m) k
     = map_option (g k) (pget m k)"
proof (induction m)
  case (Cons p m)
  then show ?case
    using pget_absent [of "fst p" m]
    by (cases p) (auto simp: List.map_filter_simps pget_Cons split: option.splits)
qed (simp add: List.map_filter_simps)

lemma wfmap_delta_map: "wfmap m \<Longrightarrow> wfmap (delta_map f m p)"
  unfolding delta_map_def by (rule wfmap_map_filter)

lemma pget_delta_map: "wfmap m \<Longrightarrow> pget (delta_map f m p) k = map_option (\<lambda>x. f x (pget p k)) (pget m k)"
  unfolding delta_map_def by (simp add: pget_map_filter [where g = "\<lambda>k x. f x (pget p k)"])

lemma merge_map_simps [simp]:
  "merge_map f b [] = b"
  "merge_map f b ((k, None) # d) = merge_map f b d"
  "merge_map f b ((k, Some x) # d) = merge_map f (mput k (Some (f (pget b k) x)) b) d"
  by (simp_all add: merge_map_def)

lemma wfmap_merge_map: "wfmap b \<Longrightarrow> wfmap (merge_map f b d)"
proof (induction d arbitrary: b)
  case (Cons p d)
  then show ?case by (cases p; cases "snd p") simp_all
qed simp

lemma pget_merge_map:
  "wfmap d \<Longrightarrow> pget (merge_map f b d) k
     = (case pget d k of None \<Rightarrow> pget b k | Some x \<Rightarrow> Some (f (pget b k) x))"
proof (induction d arbitrary: b)
  case (Cons p d)
  then show ?case
    using pget_absent [of "fst p" d]
    by (cases p; cases "snd p") (auto simp: pget_Cons split: option.split)
qed simp

lemma mkeys_filter: "mkeys (filter (\<lambda>(k, _). P k) m) = filter P (mkeys m)"
  by (induction m) auto

lemma wfmap_cloneModels: "wfmap m \<Longrightarrow> wfmap (cloneModels m)"
  by (simp add: cloneModels_def)

lemma pget_cloneModels: "wfmap m \<Longrightarrow> pget (cloneModels m) k = pget m k"
proof (induction m)
  case (Cons p m)
  then show ?case
    using pget_absent [of "fst p" m]
    by (cases p; cases "snd p") (auto simp: cloneModels_def pget_Cons pget_absent)
qed (simp add: cloneModels_def)

subsection \<open>Well-formed documents\<close>

definition wf_doc :: "document \<Rightarrow> bool" where
  "wf_doc d \<longleftrightarrow> wfmap (d_Keys d) \<and> (\<forall>k r. pget (d_Keys d) k = Some r \<longrightarrow> wfmap (kr_Models r))"

lemma wf_docD: "wf_doc d \<Longrightarrow> wfmap (d_Keys d)" "wf_doc d \<Longrightarrow> pget (d_Keys d) k = Some r \<Longrightarrow> wfmap (kr_Models r)"
  by (auto simp: wf_doc_def)

lemma wf_new [simp]: "wf_doc (new_document t)"
  by (simp add: wf_doc_def new_document_def)

lemma wf_meta: "d_Keys d = d_Keys d' \<Longrightarrow> wf_doc d = wf_doc d'"
  by (simp add: wf_doc_def)

lemma clone_Keys: "wf_doc d \<Longrightarrow> pget (d_Keys (cloneDocument d)) k = map_option clone_key (pget (d_Keys d) k)"
  unfolding cloneDocument_def by (simp add: pget_map_filter [where g = "\<lambda>k. clone_key"] wf_docD)

lemma delta_Keys:
  "wf_doc m \<Longrightarrow> pget (d_Keys (deltaDocument m p)) k = map_option (\<lambda>r. delta_key r (pget (d_Keys p) k)) (pget (d_Keys m) k)"
  by (simp add: deltaDocument_def pget_delta_map wf_docD)

lemma add_Keys:
  "wf_doc d \<Longrightarrow> pget (d_Keys (addDocument b d)) k
     = (case pget (d_Keys d) k of None \<Rightarrow> pget (d_Keys b) k | Some r \<Rightarrow> Some (add_key (pget (d_Keys b) k) r))"
  by (simp add: addDocument_def pget_merge_map wf_docD)

definition record_of :: "usage_event \<Rightarrow> instant \<Rightarrow> document \<Rightarrow> keyRecord" where
  "record_of ev t d = (case pget (d_Keys d) (ledger_key ev) of None \<Rightarrow> zero_keyRecord\<lparr>kr_FirstUsedAt := t\<rparr> | Some r \<Rightarrow> r)"

lemma record_Keys:
  "\<exists>dy t. pget (d_Keys (record_doc tz now ev d)) k
     = (if k = ledger_key ev then Some (record_key dy t ev (record_of ev t d)) else pget (d_Keys d) k)"
  unfolding record_doc_def record_of_def Let_def by auto

lemma wf_clone: "wf_doc d \<Longrightarrow> wf_doc (cloneDocument d)"
proof -
  assume d: "wf_doc d"
  have "wfmap (d_Keys (cloneDocument d))"
    using wfmap_map_filter [OF wf_docD(1) [OF d], where g = "\<lambda>k r. Some (clone_key r)"]
    by (simp add: cloneDocument_def)
  moreover have "wfmap (kr_Models r)" if "pget (d_Keys (cloneDocument d)) k = Some r" for k r
    using that wf_docD(2) [OF d] by (auto simp: clone_Keys [OF d] clone_key_def wfmap_cloneModels)
  ultimately show ?thesis by (simp add: wf_doc_def)
qed

lemma wf_delta: "wf_doc m \<Longrightarrow> wf_doc (deltaDocument m p)"
proof -
  assume m: "wf_doc m"
  have "wfmap (d_Keys (deltaDocument m p))"
    using m by (simp add: deltaDocument_def wfmap_delta_map wf_docD)
  moreover have "wfmap (kr_Models r)" if "pget (d_Keys (deltaDocument m p)) k = Some r" for k r
    using that wf_docD(2) [OF m] by (auto simp: delta_Keys [OF m] delta_key_def Let_def wfmap_delta_map)
  ultimately show ?thesis by (simp add: wf_doc_def)
qed

lemma wf_add: "wf_doc b \<Longrightarrow> wf_doc d \<Longrightarrow> wf_doc (addDocument b d)"
proof -
  assume b: "wf_doc b" and d: "wf_doc d"
  have "wfmap (d_Keys (addDocument b d))"
    using b by (simp add: addDocument_def wfmap_merge_map wf_docD)
  moreover have "wfmap (kr_Models r)" if "pget (d_Keys (addDocument b d)) k = Some r" for k r
    using that wf_docD(2) [OF b] wf_docD(2) [OF d]
    by (auto simp: add_Keys [OF d] add_key_def wfmap_cloneModels wfmap_merge_map split: option.splits)
  ultimately show ?thesis by (simp add: wf_doc_def)
qed

lemma wf_record: "wf_doc d \<Longrightarrow> wf_doc (record_doc tz now ev d)"
proof -
  assume d: "wf_doc d"
  have "wfmap (d_Keys (record_doc tz now ev d))"
    using d by (simp add: record_doc_def Let_def wf_docD)
  moreover have "wfmap (kr_Models r)" if r: "pget (d_Keys (record_doc tz now ev d)) k = Some r" for k r
  proof -
    obtain dy t where "pget (d_Keys (record_doc tz now ev d)) k
        = (if k = ledger_key ev then Some (record_key dy t ev (record_of ev t d)) else pget (d_Keys d) k)"
      using record_Keys by blast
    moreover have "wfmap (kr_Models (record_of ev t d))"
      using wf_docD(2) [OF d] by (simp add: record_of_def zero_keyRecord_def split: option.split)
    ultimately show ?thesis
      using r wf_docD(2) [OF d] by (auto simp: record_key_def bump_def split: if_splits)
  qed
  ultimately show ?thesis by (simp add: wf_doc_def)
qed

end
