(* ===== verification/UsageProps.thy ===== *)
theory UsageProps
  imports UsageFacts
begin

text \<open>
  The properties of the usage ledger.

  Any number of processes on one ledger file: what each of them counted and did not yet write,
  together with the file, is everything that was ever counted. The laws of a counter are
  stated as a locale, the run of the processes is analysed once inside it, and every counter
  of the ledger is an instance.
\<close>

subsection \<open>Processes\<close>

text \<open>A process is between flushes, or inside one with the snapshot it took.\<close>

datatype phase = Resting | Flushing document

record ledger_proc =
  lp_store :: usage_store
  lp_phase :: phase

record ledger_system =
  ls_file :: ledger_file
  ls_procs :: "ledger_proc list"

definition set_proc :: "nat \<Rightarrow> usage_store \<Rightarrow> phase \<Rightarrow> ledger_system \<Rightarrow> ledger_system" where
  "set_proc i st ph s = s\<lparr>ls_procs := (ls_procs s)[i := \<lparr>lp_store = st, lp_phase = ph\<rparr>]\<rparr>"

text \<open>
  The runs from a file \<open>d0\<close>, with the list of the requests recorded: processes start and stop
  at any time, and requests are recorded also while a flush is under way.
\<close>

inductive ledger_run :: "duration \<Rightarrow> document \<Rightarrow> usage_event list \<Rightarrow> ledger_system \<Rightarrow> bool" for tz d0 where
  init: "ledger_run tz d0 [] \<lparr>ls_file = LStored d0, ls_procs = []\<rparr>"
| opens: "ledger_run tz d0 evs s \<Longrightarrow> OpenLedger path io_ok now (ls_file s) = Some (st, f) \<Longrightarrow>
    ledger_run tz d0 evs (s\<lparr>ls_file := f, ls_procs := ls_procs s @ [\<lparr>lp_store = st, lp_phase = Resting\<rparr>]\<rparr>)"
| records: "ledger_run tz d0 evs s \<Longrightarrow> i < length (ls_procs s) \<Longrightarrow> ls_procs s ! i = \<lparr>lp_store = st, lp_phase = ph\<rparr> \<Longrightarrow>
    \<not> us_closed st \<Longrightarrow>
    ledger_run tz d0 (evs @ [ev]) (set_proc i (RecordOutcome tz now ev st) ph s)"
| takes: "ledger_run tz d0 evs s \<Longrightarrow> i < length (ls_procs s) \<Longrightarrow> ls_procs s ! i = \<lparr>lp_store = st, lp_phase = Resting\<rparr> \<Longrightarrow>
    flush_take now st = Some (st', snap) \<Longrightarrow>
    ledger_run tz d0 evs (set_proc i st' (Flushing snap) s)"
| puts: "ledger_run tz d0 evs s \<Longrightarrow> i < length (ls_procs s) \<Longrightarrow> ls_procs s ! i = \<lparr>lp_store = st, lp_phase = Flushing snap\<rparr> \<Longrightarrow>
    flush_put io_ok snap st (ls_file s) = (st', f) \<Longrightarrow>
    ledger_run tz d0 evs (set_proc i st' Resting (s\<lparr>ls_file := f\<rparr>))"
| closes: "ledger_run tz d0 evs s \<Longrightarrow> i < length (ls_procs s) \<Longrightarrow> ls_procs s ! i = \<lparr>lp_store = st, lp_phase = ph\<rparr> \<Longrightarrow>
    ledger_run tz d0 evs (set_proc i (close_store st) ph s)"

subsection \<open>The laws of a counter\<close>

locale ledger_counter =
  fixes c :: "document \<Rightarrow> int" and amount :: "usage_event \<Rightarrow> int"
  assumes c_new: "c (new_document t) = 0"
    and c_meta: "d_Totals d = d_Totals d' \<Longrightarrow> d_Keys d = d_Keys d' \<Longrightarrow> c d = c d'"
    and c_clone: "wf_doc d \<Longrightarrow> c (cloneDocument d) = c d"
    and c_delta: "wf_doc m \<Longrightarrow> 0 \<le> c p \<Longrightarrow> c p \<le> c m \<Longrightarrow> c (deltaDocument m p) = c m - c p"
    and c_add: "wf_doc b \<Longrightarrow> wf_doc d \<Longrightarrow> c (addDocument b d) = c b + c d"
    and c_record: "c (record_doc tz now ev d) = c d + amount ev"
    and amount_nonneg: "0 \<le> amount ev"
begin

text \<open>What a process has counted and not yet written.\<close>

definition owed :: "ledger_proc \<Rightarrow> int" where
  "owed p = c (us_doc (lp_store p)) - c (us_written (lp_store p))"

definition good :: "ledger_proc \<Rightarrow> bool" where
  "good p \<longleftrightarrow> wf_doc (us_doc (lp_store p)) \<and> wf_doc (us_written (lp_store p))
     \<and> 0 \<le> c (us_written (lp_store p)) \<and> c (us_written (lp_store p)) \<le> c (us_doc (lp_store p))
     \<and> (case lp_phase p of
          Resting \<Rightarrow> us_dirty (lp_store p) \<or> owed p = 0
        | Flushing snap \<Rightarrow> wf_doc snap \<and> c (us_written (lp_store p)) \<le> c snap \<and> c snap \<le> c (us_doc (lp_store p))
            \<and> (us_dirty (lp_store p) \<or> c snap = c (us_doc (lp_store p))))"

definition account :: "document \<Rightarrow> usage_event list \<Rightarrow> ledger_system \<Rightarrow> bool" where
  "account d0 evs s \<longleftrightarrow> (\<exists>d. ls_file s = LStored d \<and> d_Version d = Version \<and> wf_doc d \<and> 0 \<le> c d
     \<and> c d + (\<Sum>p\<leftarrow>ls_procs s. owed p) = c d0 + (\<Sum>ev\<leftarrow>evs. amount ev))
     \<and> (\<forall>p \<in> set (ls_procs s). good p)"

lemma owed_update:
  "i < length ps \<Longrightarrow> (\<Sum>p\<leftarrow>ps[i := q]. owed p) = (\<Sum>p\<leftarrow>ps. owed p) + owed q - owed (ps ! i)"
  by (rule sum_list_update_int)

lemma account_set_proc:
  assumes "account d0 evs s" "i < length (ls_procs s)"
    "good \<lparr>lp_store = st, lp_phase = ph\<rparr>"
    "f = LStored d'" "d_Version d' = Version" "wf_doc d'" "0 \<le> c d'"
    "\<And>d. ls_file s = LStored d \<Longrightarrow> c d' + owed \<lparr>lp_store = st, lp_phase = ph\<rparr> + (\<Sum>ev\<leftarrow>evs. amount ev)
       = c d + owed (ls_procs s ! i) + (\<Sum>ev\<leftarrow>evs'. amount ev)"
  shows "account d0 evs' (set_proc i st ph (s\<lparr>ls_file := f\<rparr>))"
proof -
  obtain d where d: "ls_file s = LStored d"
    "c d + (\<Sum>p\<leftarrow>ls_procs s. owed p) = c d0 + (\<Sum>ev\<leftarrow>evs. amount ev)"
    using assms(1) by (auto simp: account_def)
  have "\<forall>p \<in> set (ls_procs (set_proc i st ph (s\<lparr>ls_file := f\<rparr>))). good p"
    using assms(1,3) set_update_subset_insert [of "ls_procs s" i] by (auto simp: account_def set_proc_def)
  then show ?thesis
    using d assms(2,4-7) assms(8) [OF d(1)] by (simp add: account_def set_proc_def owed_update)
qed

lemma account_same_file:
  assumes "account d0 evs s" "i < length (ls_procs s)"
    "good \<lparr>lp_store = st, lp_phase = ph\<rparr>"
    "owed \<lparr>lp_store = st, lp_phase = ph\<rparr> + (\<Sum>ev\<leftarrow>evs. amount ev) = owed (ls_procs s ! i) + (\<Sum>ev\<leftarrow>evs'. amount ev)"
  shows "account d0 evs' (set_proc i st ph s)"
proof -
  obtain d where d: "ls_file s = LStored d" "d_Version d = Version" "wf_doc d" "0 \<le> c d"
    using assms(1) by (auto simp: account_def)
  have "s\<lparr>ls_file := LStored d\<rparr> = s" using d(1) by simp
  with account_set_proc [OF assms(1-3) refl d(2-4), of evs'] assms(4) d(1) show ?thesis by simp
qed

lemma good_at: "account d0 evs s \<Longrightarrow> i < length (ls_procs s) \<Longrightarrow> ls_procs s ! i = p \<Longrightarrow> good p"
  by (auto simp: account_def)

lemma account_puts:
  assumes a: "account d0 evs s" and i: "i < length (ls_procs s)"
    and p: "ls_procs s ! i = \<lparr>lp_store = st, lp_phase = Flushing snap\<rparr>"
    and put: "flush_put io_ok snap st (ls_file s) = (st', f)"
  shows "account d0 evs (set_proc i st' Resting (s\<lparr>ls_file := f\<rparr>))"
proof -
  obtain d where d: "ls_file s = LStored d" "d_Version d = Version" "wf_doc d" "0 \<le> c d"
    using a by (auto simp: account_def)
  have g: "wf_doc (us_doc st)" "wf_doc (us_written st)" "0 \<le> c (us_written st)" "wf_doc snap"
    "c (us_written st) \<le> c snap" "c snap \<le> c (us_doc st)" "us_dirty st \<or> c snap = c (us_doc st)"
    using good_at [OF a i p] by (simp_all add: good_def)
  let ?w = "cloneDocument (us_written st)"
  let ?d' = "addDocument d (deltaDocument snap ?w)"
  have w: "c (deltaDocument snap ?w) = c snap - c (us_written st)"
    using c_delta [OF g(4), of ?w] g by (simp add: c_clone)
  have d': "wf_doc ?d'" "c ?d' = c d + (c snap - c (us_written st))" "d_Version ?d' = Version"
    using d g w by (simp_all add: wf_add wf_delta c_add) (simp add: addDocument_def)
  show ?thesis
  proof (cases io_ok)
    case False
    then have "st' = st\<lparr>us_dirty := True\<rparr>" "f = ls_file s"
      using put d by (simp_all add: flush_put_def persistDocument_def readLedger_def)
    moreover have "account d0 evs (set_proc i (st\<lparr>us_dirty := True\<rparr>) Resting s)"
      using g p by (intro account_same_file [OF a i]) (simp_all add: good_def owed_def)
    ultimately show ?thesis by simp
  next
    case True
    let ?rest = "deltaDocument (us_doc st) snap"
    let ?st = "st\<lparr>us_doc := addDocument (cloneDocument ?d') ?rest, us_written := cloneDocument ?d'\<rparr>"
    have st': "st' = ?st" "f = LStored ?d'"
      using put d True by (simp_all add: flush_put_def persistDocument_def readLedger_def commit_usage_def)
    have r: "c ?rest = c (us_doc st) - c snap"
      using c_delta [OF g(1), of snap] g by simp
    have c': "c (us_doc ?st) = c ?d' + (c (us_doc st) - c snap)" "c (us_written ?st) = c ?d'"
      using d'(1) g(1) r by (simp_all add: c_add c_clone wf_clone wf_delta)
    have "good \<lparr>lp_store = ?st, lp_phase = Resting\<rparr>"
      using g d d' c' by (auto simp: good_def owed_def wf_clone wf_add wf_delta)
    then show ?thesis
      unfolding st'
      by (rule account_set_proc [OF a i _ refl d'(3) d'(1)]) (use d g d' c' p in \<open>auto simp: owed_def\<close>)
  qed
qed

lemma account_opens:
  assumes a: "account d0 evs s" and o: "OpenLedger path io_ok now (ls_file s) = Some (st, f)"
  shows "account d0 evs (s\<lparr>ls_file := f, ls_procs := ls_procs s @ [\<lparr>lp_store = st, lp_phase = Resting\<rparr>]\<rparr>)"
proof -
  obtain d where d: "ls_file s = LStored d" "d_Version d = Version" "wf_doc d" "0 \<le> c d"
    using a by (auto simp: account_def)
  let ?d = "d\<lparr>d_Since := (if is_zero (d_Since d) then now else d_Since d), d_Version := Version\<rparr>"
  have "wf_doc ?d" "c ?d = c d" using d(3) wf_meta [of ?d d] c_meta [of ?d d] by simp_all
  moreover have "f = LStored d" "us_doc st = ?d" "us_written st = cloneDocument ?d"
    using o d by (auto simp: OpenLedger_def load_ledger_def readLedger_def open_store_def Let_def split: if_splits)
  ultimately have "good \<lparr>lp_store = st, lp_phase = Resting\<rparr>" "owed \<lparr>lp_store = st, lp_phase = Resting\<rparr> = 0"
    using d by (simp_all add: good_def owed_def wf_clone c_clone)
  then show ?thesis using a d \<open>f = LStored d\<close> by (simp add: account_def)
qed

lemma account_run:
  assumes "ledger_run tz d0 evs s" "d_Version d0 = Version" "wf_doc d0" "0 \<le> c d0"
  shows "account d0 evs s"
  using assms
proof (induction rule: ledger_run.induct)
  case init
  then show ?case by (simp add: account_def)
next
  case (opens evs s path io_ok now st f)
  then show ?case by (simp add: account_opens)
next
  case (records evs s i st ph ev now)
  then have a: "account d0 evs s" by simp
  have g: "good \<lparr>lp_store = st, lp_phase = ph\<rparr>" using good_at [OF a records(2)] records(3) by simp
  have "good \<lparr>lp_store = RecordOutcome tz now ev st, lp_phase = ph\<rparr>"
    using g amount_nonneg [of ev] records(4)
    by (auto simp: good_def owed_def RecordOutcome_def c_record wf_record split: phase.splits)
  then show ?case
    by (rule account_same_file [OF a records(2)])
      (use records(3,4) in \<open>simp add: owed_def RecordOutcome_def c_record\<close>)
next
  case (takes evs s i st now st' snap)
  then have a: "account d0 evs s" by simp
  have g: "good \<lparr>lp_store = st, lp_phase = Resting\<rparr>" using good_at [OF a takes(2)] takes(3) by simp
  have s: "st' = st\<lparr>us_dirty := False\<rparr>" "wf_doc snap" "c snap = c (us_doc st)"
    using takes(4) g wf_clone [of "us_doc st"] wf_meta [of snap "cloneDocument (us_doc st)"]
      c_meta [of snap "cloneDocument (us_doc st)"] c_clone [of "us_doc st"]
    by (auto simp: flush_take_def Let_def good_def split: if_splits)
  have "good \<lparr>lp_store = st', lp_phase = Flushing snap\<rparr>" using g s by (simp add: good_def)
  then show ?case
    by (rule account_same_file [OF a takes(2)]) (use takes(3) s in \<open>simp add: owed_def\<close>)
next
  case (puts evs s i st snap io_ok st' f)
  then show ?case using account_puts by simp
next
  case (closes evs s i st ph)
  then have a: "account d0 evs s" by simp
  have g: "good \<lparr>lp_store = st, lp_phase = ph\<rparr>" using good_at [OF a closes(2)] closes(3) by simp
  then have "good \<lparr>lp_store = close_store st, lp_phase = ph\<rparr>"
    by (auto simp: good_def owed_def close_store_def split: phase.splits)
  then show ?case
    by (rule account_same_file [OF a closes(2)]) (use closes(3) in \<open>simp add: owed_def close_store_def\<close>)
qed

theorem conserved:
  assumes "ledger_run tz d0 evs s" "d_Version d0 = Version" "wf_doc d0" "0 \<le> c d0"
  shows "\<exists>d. ls_file s = LStored d
     \<and> c d + (\<Sum>p\<leftarrow>ls_procs s. c (us_doc (lp_store p)) - c (us_written (lp_store p))) = c d0 + (\<Sum>ev\<leftarrow>evs. amount ev)"
  using account_run [OF assms] by (auto simp: account_def owed_def)

text \<open>Once every process has flushed, the file has everything.\<close>

lemma settled:
  assumes "ledger_run tz d0 evs s" "d_Version d0 = Version" "wf_doc d0" "0 \<le> c d0"
    and "\<And>p. p \<in> set (ls_procs s) \<Longrightarrow> lp_phase p = Resting \<and> \<not> us_dirty (lp_store p)"
  shows "\<exists>d. ls_file s = LStored d \<and> c d = c d0 + (\<Sum>ev\<leftarrow>evs. amount ev)"
proof -
  obtain d where d: "ls_file s = LStored d" "c d + (\<Sum>p\<leftarrow>ls_procs s. owed p) = c d0 + (\<Sum>ev\<leftarrow>evs. amount ev)"
    and g: "\<forall>p \<in> set (ls_procs s). good p"
    using account_run [OF assms(1-4)] by (auto simp: account_def)
  have "owed p = 0" if "p \<in> set (ls_procs s)" for p
    using assms(5) [OF that] g that by (auto simp: good_def)
  then have "map owed (ls_procs s) = map (\<lambda>_. 0) (ls_procs s)" by simp
  then have "(\<Sum>p\<leftarrow>ls_procs s. owed p) = 0" by (simp only: sum_list_0)
  then show ?thesis using d by simp
qed

text \<open>The view of a process: the file and what the process itself has still to write.\<close>

lemma viewed:
  assumes "ledger_run tz d0 evs s" "d_Version d0 = Version" "wf_doc d0" "0 \<le> c d0" "p \<in> set (ls_procs s)"
  shows "\<exists>d. ls_file s = LStored d \<and>
    c (view_of (lp_store p) (ls_file s)) = c d + (c (us_doc (lp_store p)) - c (us_written (lp_store p)))"
proof -
  obtain d where d: "ls_file s = LStored d" "d_Version d = Version" "wf_doc d"
    using account_run [OF assms(1-4)] by (auto simp: account_def)
  have "good p" using account_run [OF assms(1-4)] assms(5) by (auto simp: account_def)
  then show ?thesis
    using d c_delta [of "cloneDocument (us_doc (lp_store p))" "cloneDocument (us_written (lp_store p))"]
    by (simp add: view_of_def readLedger_def good_def c_add wf_clone wf_delta c_clone)
qed

text \<open>A failed reset gives back what was put aside, with what was counted meanwhile.\<close>

lemma reset_undone:
  assumes "wf_doc (us_doc saved)" "wf_doc (us_doc st)"
  shows "c (us_doc (fst (reset_put False t saved st f))) - c (us_written (fst (reset_put False t saved st f)))
     = (c (us_doc saved) - c (us_written saved)) + c (us_doc st)"
  using assms by (simp add: reset_put_def persistDocument_def Let_def c_add)

lemma reset_done:
  "c (us_doc (fst (reset_put True t saved st f))) = c (us_doc st)"
  "c (us_written (fst (reset_put True t saved st f))) = 0"
  "snd (reset_put True t saved st f) = LStored (cloneDocument (new_document t))"
  using c_new [of t] c_clone [of "new_document t"] c_clone [of "cloneDocument (new_document t)"]
  by (simp_all add: reset_put_def persistDocument_def Let_def commit_usage_def wf_clone)

end

subsection \<open>Fields, keys and models\<close>

locale totals_field =
  fixes field :: "Totals \<Rightarrow> int" and amt :: "usage_event \<Rightarrow> int"
  assumes f_zero: "field zero_Totals = 0"
    and f_delta: "field (deltaTotals m p) = max 0 (field m - field p)"
    and f_add: "field (addTotals b d) = field b + field d"
    and f_record: "field (add_usage ev t) = field t + amt ev"
    and f_nonneg: "0 \<le> amt ev"

definition total_of :: "(Totals \<Rightarrow> int) \<Rightarrow> document \<Rightarrow> int" where
  "total_of f d = f (d_Totals d)"

definition key_of :: "(Totals \<Rightarrow> int) \<Rightarrow> string \<Rightarrow> document \<Rightarrow> int" where
  "key_of f kid d = (case pget (d_Keys d) kid of None \<Rightarrow> 0 | Some r \<Rightarrow> f (kr_Totals r))"

definition model_of :: "(Totals \<Rightarrow> int) \<Rightarrow> string \<Rightarrow> string \<Rightarrow> document \<Rightarrow> int" where
  "model_of f kid m d =
     (case pget (d_Keys d) kid of None \<Rightarrow> 0 | Some r \<Rightarrow> (case pget (kr_Models r) m of None \<Rightarrow> 0 | Some t \<Rightarrow> f t))"

sublocale totals_field \<subseteq> total: ledger_counter "total_of field" amt
proof
  show "total_of field (deltaDocument m p) = total_of field m - total_of field p"
    if "0 \<le> total_of field p" "total_of field p \<le> total_of field m" for m p
    using that by (simp add: total_of_def deltaDocument_def f_delta)
qed (simp_all add: total_of_def new_document_def cloneDocument_def addDocument_def record_doc_def Let_def
      f_zero f_add f_record f_nonneg)

sublocale totals_field \<subseteq> key: ledger_counter "key_of field kid" "\<lambda>ev. if ledger_key ev = kid then amt ev else 0"
  for kid
proof
  show "key_of field kid (deltaDocument m p) = key_of field kid m - key_of field kid p"
    if "wf_doc m" "0 \<le> key_of field kid p" "key_of field kid p \<le> key_of field kid m" for m p
    using that
    by (auto simp: key_of_def delta_Keys delta_key_def Let_def f_delta zero_keyRecord_def f_zero split: option.splits)
  show "key_of field kid (addDocument b d) = key_of field kid b + key_of field kid d"
    if "wf_doc b" "wf_doc d" for b d
    using that by (auto simp: key_of_def add_Keys add_key_def f_add split: option.splits)
  show "key_of field kid (record_doc tz now ev d) = key_of field kid d + (if ledger_key ev = kid then amt ev else 0)"
    for tz now ev d
  proof -
    obtain dy t where "pget (d_Keys (record_doc tz now ev d)) kid
        = (if kid = ledger_key ev then Some (record_key dy t ev (record_of ev t d)) else pget (d_Keys d) kid)"
      using record_Keys by blast
    then show ?thesis
      by (auto simp: key_of_def record_key_def record_of_def f_record zero_keyRecord_def f_zero split: option.split)
  qed
qed (auto simp: key_of_def new_document_def clone_Keys clone_key_def f_nonneg split: option.split)

sublocale totals_field \<subseteq> model: ledger_counter "model_of field kid m"
    "\<lambda>ev. if ledger_key ev = kid \<and> ev_model ev = m \<and> trim_space m \<noteq> [] then amt ev else 0"
  for kid m
proof
  show "model_of field kid m (deltaDocument d p) = model_of field kid m d - model_of field kid m p"
    if "wf_doc d" "0 \<le> model_of field kid m p" "model_of field kid m p \<le> model_of field kid m d" for d p
    using that wf_docD(2) [OF that(1), of kid]
    by (auto simp: model_of_def delta_Keys delta_key_def Let_def pget_delta_map f_delta zero_keyRecord_def f_zero
        or_zero_def split: option.splits)
  show "model_of field kid m (addDocument b d) = model_of field kid m b + model_of field kid m d"
    if "wf_doc b" "wf_doc d" for b d
    using that wf_docD(2) [OF that(2), of kid]
    by (auto simp: model_of_def add_Keys add_key_def pget_cloneModels pget_merge_map add_or_copy_def f_add split: option.splits)
  show "model_of field kid m (record_doc tz now ev d) = model_of field kid m d
      + (if ledger_key ev = kid \<and> ev_model ev = m \<and> trim_space m \<noteq> [] then amt ev else 0)" for tz now ev d
  proof -
    obtain dy t where "pget (d_Keys (record_doc tz now ev d)) kid
        = (if kid = ledger_key ev then Some (record_key dy t ev (record_of ev t d)) else pget (d_Keys d) kid)"
      using record_Keys by blast
    then show ?thesis
      by (auto simp: model_of_def record_key_def record_of_def bump_def or_zero_def f_record zero_keyRecord_def f_zero
          split: option.split)
  qed
  show "model_of field kid m (cloneDocument d) = model_of field kid m d" if "wf_doc d" for d
    using wf_docD(2) [OF that, of kid] that
    by (auto simp: model_of_def clone_Keys clone_key_def pget_cloneModels split: option.split)
qed (auto simp: model_of_def new_document_def f_nonneg split: option.split)

subsection \<open>The fields of the ledger\<close>

datatype field = FRequests | FFailed | FUnreported | FPrompt | FCached | FCompletion | FTotal

fun read_field :: "field \<Rightarrow> Totals \<Rightarrow> int" where
  "read_field FRequests = Requests"
| "read_field FFailed = FailedRequests"
| "read_field FUnreported = UnreportedRequests"
| "read_field FPrompt = PromptTokens"
| "read_field FCached = CachedTokens"
| "read_field FCompletion = CompletionTokens"
| "read_field FTotal = TotalTokens"

text \<open>What one request adds: missing observations count as nothing, never as a negative number.\<close>

fun amount_of :: "field \<Rightarrow> usage_event \<Rightarrow> int" where
  "amount_of FRequests ev = 1"
| "amount_of FFailed ev = (if Failed (ev_outcome ev) then 1 else 0)"
| "amount_of FUnreported ev = (if Unreported (ev_outcome ev) \<or> ev_prompt ev < 0 \<or> ev_completion ev < 0 then 1 else 0)"
| "amount_of FPrompt ev = max 0 (ev_prompt ev)"
| "amount_of FCached ev = max 0 (ev_cached ev)"
| "amount_of FCompletion ev = max 0 (ev_completion ev)"
| "amount_of FTotal ev = max 0 (ev_prompt ev) + max 0 (ev_completion ev)"

interpretation ledger: totals_field "read_field x" "amount_of x" for x
proof
  show "read_field x zero_Totals = 0" by (cases x) (simp_all add: zero_Totals_def)
  show "read_field x (deltaTotals m p) = max 0 (read_field x m - read_field x p)" for m p
    by (cases x) (simp_all add: deltaTotals_def positive_def)
  show "read_field x (addTotals b d) = read_field x b + read_field x d" for b d
    by (cases x) (simp_all add: addTotals_def)
  show "read_field x (add_usage ev t) = read_field x t + amount_of x ev" for ev t
    by (cases x) (simp_all add: add_usage_def Let_def)
  show "0 \<le> amount_of x ev" for ev by (cases x) simp_all
qed

subsection \<open>Nothing is lost and nothing is counted twice\<close>

text \<open>A run to look at: one process opens an empty ledger, records a request and starts to flush.\<close>

definition demo_event :: usage_event where
  "demo_event = \<lparr>ev_keyID = ''key_1'', ev_name = ''n'', ev_maskedKey = [], ev_model = ''m'', ev_prompt = 7,
     ev_completion = 3, ev_cached = -1, ev_credit = 0, ev_hasCredit = False,
     ev_outcome = \<lparr>Failed = False, Unreported = False\<rparr>, ev_at = 5\<rparr>"

definition demo_opened :: usage_store where
  "demo_opened = \<lparr>us_doc = new_document 1, us_written = cloneDocument (new_document 1), us_dirty = False, us_closed = False\<rparr>"

lemma demo_open: "OpenLedger ''usage.json'' True 1 (LStored (new_document 1)) = Some (demo_opened, LStored (new_document 1))"
  by code_simp

definition demo_system :: ledger_system where
  "demo_system = \<lparr>ls_file = LStored (new_document 1),
     ls_procs = [\<lparr>lp_store = RecordOutcome 0 1 demo_event demo_opened, lp_phase = Resting\<rparr>]\<rparr>"

lemma demo_run: "ledger_run 0 (new_document 1) [demo_event] demo_system"
proof -
  let ?s = "\<lparr>ls_file = LStored (new_document 1), ls_procs = [\<lparr>lp_store = demo_opened, lp_phase = Resting\<rparr>]\<rparr>"
  have o: "ledger_run 0 (new_document 1) [] ?s"
    using ledger_run.opens [OF ledger_run.init, of "''usage.json''" True 1 "new_document 1" demo_opened] demo_open by simp
  have "ledger_run 0 (new_document 1) ([] @ [demo_event]) (set_proc 0 (RecordOutcome 0 1 demo_event demo_opened) Resting ?s)"
    by (rule ledger_run.records [OF o]) (simp_all add: demo_opened_def)
  then show ?thesis by (simp add: set_proc_def demo_system_def)
qed

lemma demo_start: "d_Version (new_document 1) = Version" "wf_doc (new_document 1)"
  by (simp_all add: new_document_def Version_def wf_doc_def)




text \<open>The flush of the demonstration run completed.\<close>

definition demo_flushed :: "usage_store \<times> ledger_file" where
  "demo_flushed = (case flush_take 2 (RecordOutcome 0 1 demo_event demo_opened) of
     None \<Rightarrow> (demo_opened, LMissing)
   | Some (st, snap) \<Rightarrow> flush_put True snap st (LStored (new_document 1)))"

lemma demo_flush_run:
  "ledger_run 0 (new_document 1) [demo_event]
     \<lparr>ls_file = snd demo_flushed, ls_procs = [\<lparr>lp_store = fst demo_flushed, lp_phase = Resting\<rparr>]\<rparr>"
proof -
  let ?st = "RecordOutcome 0 1 demo_event demo_opened"
  obtain st snap where t: "flush_take 2 ?st = Some (st, snap)"
    by (auto simp: flush_take_def RecordOutcome_def demo_opened_def Let_def)
  have "ledger_run 0 (new_document 1) [demo_event] (set_proc 0 st (Flushing snap) demo_system)"
    by (rule ledger_run.takes [OF demo_run _ _ t]) (simp_all add: demo_system_def)
  then have r: "ledger_run 0 (new_document 1) [demo_event]
      \<lparr>ls_file = LStored (new_document 1), ls_procs = [\<lparr>lp_store = st, lp_phase = Flushing snap\<rparr>]\<rparr>"
    by (simp add: set_proc_def demo_system_def)
  obtain st' f where p: "flush_put True snap st (LStored (new_document 1)) = (st', f)"
    by (cases "flush_put True snap st (LStored (new_document 1))") auto
  have "ledger_run 0 (new_document 1) [demo_event] (set_proc 0 st' Resting
      (\<lparr>ls_file = LStored (new_document 1), ls_procs = [\<lparr>lp_store = st, lp_phase = Flushing snap\<rparr>]\<rparr>\<lparr>ls_file := f\<rparr>))"
    by (rule ledger_run.puts [where io_ok = True, OF r, where st = st and snap = snap]) (use p in simp_all)
  then show ?thesis using t p by (simp add: set_proc_def demo_flushed_def)
qed

lemma demo_flush_clean: "\<not> us_dirty (fst demo_flushed)"
  by (simp add: demo_flushed_def flush_take_def flush_put_def persistDocument_def readLedger_def commit_usage_def
      RecordOutcome_def demo_opened_def new_document_def Version_def Let_def)


subsection \<open>The panel's view\<close>

text \<open>
  what the panel of a process shows is the file, with what every other process has written
  to it, plus exactly what this process itself has not written yet.
\<close>

theorem panel_shows_file_and_own:
  assumes "ledger_run tz d0 evs s" "d_Version d0 = Version" "wf_doc d0"
    and "0 \<le> total_of (read_field x) d0" "0 \<le> key_of (read_field x) kid d0" "p \<in> set (ls_procs s)"
  shows "\<exists>d. ls_file s = LStored d
    \<and> read_field x (sn_Totals (Snapshot (lp_store p) (ls_file s)))
      = total_of (read_field x) d + (total_of (read_field x) (us_doc (lp_store p)) - total_of (read_field x) (us_written (lp_store p)))
    \<and> key_of (read_field x) kid (view_of (lp_store p) (ls_file s))
      = key_of (read_field x) kid d + (key_of (read_field x) kid (us_doc (lp_store p)) - key_of (read_field x) kid (us_written (lp_store p)))"
proof -
  have "read_field x (sn_Totals (Snapshot (lp_store p) (ls_file s))) = total_of (read_field x) (view_of (lp_store p) (ls_file s))"
    by (simp add: Snapshot_def Let_def total_of_def)
  then show ?thesis
    using ledger.total.viewed [OF assms(1-4,6)] ledger.key.viewed [OF assms(1-3,5,6)] by auto
qed

lemma panel_shows_file_and_own_witness:
  "Requests (sn_Totals (Snapshot (RecordOutcome 0 1 demo_event demo_opened) (ls_file demo_system))) = 1"
  using panel_shows_file_and_own [OF demo_run demo_start, of FRequests "''key_1''"
      "\<lparr>lp_store = RecordOutcome 0 1 demo_event demo_opened, lp_phase = Resting\<rparr>"]
  by (auto simp: demo_system_def total_of_def key_of_def new_document_def zero_Totals_def RecordOutcome_def demo_opened_def
      record_doc_def Let_def add_usage_def demo_event_def cloneDocument_def)

subsection \<open>Reset\<close>

text \<open>
  a reset that is written leaves an empty ledger in the file and only what was recorded
  since it began still to write; one that fails leaves the file alone and gives back every
  count that was put aside, together with what was recorded meanwhile.
\<close>

theorem reset_all_or_nothing:
  assumes "wf_doc (us_doc saved)" "wf_doc (us_doc st)"
  shows "snd (reset_put True t saved st f) = LStored (cloneDocument (new_document t))
    \<and> total_of (read_field x) (us_doc (fst (reset_put True t saved st f)))
        - total_of (read_field x) (us_written (fst (reset_put True t saved st f))) = total_of (read_field x) (us_doc st)
    \<and> snd (reset_put False t saved st f) = f
    \<and> total_of (read_field x) (us_doc (fst (reset_put False t saved st f)))
        - total_of (read_field x) (us_written (fst (reset_put False t saved st f)))
      = (total_of (read_field x) (us_doc saved) - total_of (read_field x) (us_written saved)) + total_of (read_field x) (us_doc st)
    \<and> (us_dirty saved \<or> us_dirty st \<longrightarrow> us_dirty (fst (reset_put False t saved st f)))"
  using ledger.total.reset_done(1,2) [where x = x and t = t and saved = saved and st = st and f = f]
    ledger.total.reset_done(3) [where t = t and saved = saved and st = st and f = f]
    ledger.total.reset_undone [OF assms, where x = x and t = t and f = f]
  by (auto simp: reset_put_def persistDocument_def Let_def)

lemma reset_all_or_nothing_witness:
  "snd (reset_put True 9 demo_opened (reset_take 9 demo_opened) LBroken) = LStored (cloneDocument (new_document 9))"
  using reset_all_or_nothing [of demo_opened "reset_take 9 demo_opened" 9 LBroken]
  by (simp add: demo_opened_def reset_take_def)

subsection \<open>The days kept\<close>

text \<open>
  the days are trimmed to the newest 120: no day that is kept is older than one that is
  dropped, and what is kept is unchanged.
\<close>

theorem trim_keeps_newest:
  assumes "wfmap m"
  shows "length (trimDayBuckets m) = min (length m) maxDayBuckets
    \<and> (\<forall>d v. (d, v) \<in> set (trimDayBuckets m) \<longrightarrow> (d, v) \<in> set m)
    \<and> (\<forall>d e. d \<in> set (mkeys (trimDayBuckets m)) \<and> e \<in> set (mkeys m) \<and> e \<notin> set (mkeys (trimDayBuckets m)) \<longrightarrow> e < d)"
proof (cases "length m \<le> maxDayBuckets")
  case True
  then show ?thesis by (simp add: trimDayBuckets_def)
next
  case False
  define n where "n = length m - maxDayBuckets"
  let ?ks = "sort (mkeys m)"
  let ?old = "take n ?ks"
  have t: "trimDayBuckets m = filter (\<lambda>(k, _). k \<notin> set ?old) m"
    using False by (simp add: trimDayBuckets_def n_def Let_def)
  have n: "n \<le> length m" "length m - n = maxDayBuckets" using False by (simp_all add: n_def)
  have d: "distinct ?ks" using assms by simp
  have split: "set ?ks = set ?old \<union> set (drop n ?ks)" "set ?old \<inter> set (drop n ?ks) = {}"
    using d set_append [of ?old "drop n ?ks"] distinct_append [of ?old "drop n ?ks"] by (simp_all del: set_append)
  have keys: "mkeys (trimDayBuckets m) = filter (\<lambda>k. k \<notin> set ?old) (mkeys m)"
    unfolding t by (rule mkeys_filter)
  then have sk: "set (mkeys (trimDayBuckets m)) = set (drop n ?ks)" using split by auto
  have "length (trimDayBuckets m) = length (mkeys (trimDayBuckets m))" by simp
  also have "\<dots> = card (set (drop n ?ks))"
    using distinct_card [of "mkeys (trimDayBuckets m)"] assms unfolding sk [symmetric] by (simp add: t)
  also have "\<dots> = maxDayBuckets" using d n by (simp add: distinct_card)
  finally have "length (trimDayBuckets m) = maxDayBuckets" .
  moreover have "e < d" if "d \<in> set (drop n ?ks)" "e \<in> set ?old" for d e
  proof -
    have "sorted (?old @ drop n ?ks)" by simp
    then have "e \<le> d" using that by (simp only: sorted_append)
    moreover have "e \<noteq> d" using that split(2) by blast
    ultimately show ?thesis by simp
  qed
  moreover have "set (mkeys m) = set ?ks" by simp
  ultimately show ?thesis
    using False sk split t by auto
qed

lemma trim_keeps_newest_witness: "trimDayBuckets [(''2026-01-01'', None)] = [(''2026-01-01'', None)]"
  using trim_keeps_newest [of "[(''2026-01-01'', None)]"] by (simp add: trimDayBuckets_def maxDayBuckets_def)

end
