(* ===== verification/JsonText.thy ===== *)
theory JsonText
  imports Json Utf8 GoFloat
begin

text \<open>
  JSON text as \<open>encoding/json\<close> reads it: a pushdown automaton over the bytes, one step per byte
  as in the library's scanner, which also builds the value. Strings are unquoted with the
  library's treatment of surrogates and of invalid UTF-8; numbers are exact until they are
  converted.
\<close>

subsection \<open>Unquoting strings\<close>

definition hex_value :: "char \<Rightarrow> nat option" where
  "hex_value c =
     (let n = byte c
      in if 48 \<le> n \<and> n \<le> 57 then Some (n - 48)
         else if 97 \<le> n \<and> n \<le> 102 then Some (n - 87)
         else if 65 \<le> n \<and> n \<le> 70 then Some (n - 55)
         else None)"

definition hex4 :: "string \<Rightarrow> nat option" where
  "hex4 s =
     (case s of
        a # b # c # d # _ \<Rightarrow>
          (case (hex_value a, hex_value b, hex_value c, hex_value d) of
             (Some w, Some x, Some y, Some z) \<Rightarrow> Some (((w * 16 + x) * 16 + y) * 16 + z)
           | _ \<Rightarrow> None)
      | _ \<Rightarrow> None)"

definition encode_rune :: "nat \<Rightarrow> string" where
  "encode_rune r =
     (if r < 0x80 then [char_of r]
      else if r < 0x800 then [char_of (0xC0 + r div 64), char_of (0x80 + r mod 64)]
      else if r < 0x10000
      then [char_of (0xE0 + r div 4096), char_of (0x80 + r div 64 mod 64), char_of (0x80 + r mod 64)]
      else [char_of (0xF0 + r div 262144), char_of (0x80 + r div 4096 mod 64),
            char_of (0x80 + r div 64 mod 64), char_of (0x80 + r mod 64)])"

definition replacement :: string where "replacement = [CHR 0xEF, CHR 0xBF, CHR 0xBD]"

text \<open>The rune of \<open>\u\<close> escapes at the start of the text after it, and how many bytes it takes.\<close>

definition unescape_u :: "string \<Rightarrow> string \<times> nat" where
  "unescape_u s =
     (case hex4 s of
        None \<Rightarrow> (replacement, 4)
      | Some r \<Rightarrow>
          if 0xD800 \<le> r \<and> r < 0xE000 then
            (case drop 4 s of
               c # d # t \<Rightarrow>
                 (if c = CHR 0x5C \<and> d = CHR ''u'' then
                    (case hex4 t of
                       Some r' \<Rightarrow>
                         if r < 0xDC00 \<and> 0xDC00 \<le> r' \<and> r' < 0xE000
                         then (encode_rune ((r - 0xD800) * 1024 + (r' - 0xDC00) + 0x10000), 10)
                         else (replacement, 4)
                     | None \<Rightarrow> (replacement, 4))
                  else (replacement, 4))
             | _ \<Rightarrow> (replacement, 4))
          else (encode_rune r, 4))"

definition escape_value :: "char \<Rightarrow> char" where
  "escape_value c =
     (if c = CHR ''b'' then CHR 0x08 else if c = CHR ''f'' then CHR 0x0C else if c = CHR ''n'' then CHR 0x0A
      else if c = CHR ''r'' then CHR 0x0D else if c = CHR ''t'' then CHR 0x09 else c)"

function unquote :: "string \<Rightarrow> string" where
  "unquote [] = []"
| "unquote (c # s) =
     (if c = CHR 0x5C then
        (case s of
           [] \<Rightarrow> []
         | e # t \<Rightarrow>
             if e = CHR ''u'' then fst (unescape_u t) @ unquote (drop (snd (unescape_u t)) t)
             else escape_value e # unquote t)
      else if byte c < 0x80 then c # unquote s
      else if rune_at (c # s) = (0xFFFD, 1) then replacement @ unquote s
      else take (snd (rune_at (c # s))) (c # s) @ unquote (drop (snd (rune_at (c # s))) (c # s)))"
  by pat_completeness auto
termination
proof (relation "measure length")
  fix c :: char and s :: string
  show "(drop (snd (rune_at (c # s))) (c # s), c # s) \<in> measure length"
    using rune_width [of "c # s"] by simp
qed auto

declare unquote.simps [simp del]

subsection \<open>Numbers\<close>

fun nat_of_digits :: "nat \<Rightarrow> string \<Rightarrow> nat" where
  "nat_of_digits n [] = n"
| "nat_of_digits n (c # s) = nat_of_digits (10 * n + (byte c - 48)) s"

definition is_digit :: "char \<Rightarrow> bool" where
  "is_digit c \<longleftrightarrow> 48 \<le> byte c \<and> byte c \<le> 57"

text \<open>The value of a well-formed number.\<close>

definition number_value :: "string \<Rightarrow> json" where
  "number_value s =
     (let neg = has_prefix s ''-'';
          u = (if neg then tl s else s);
          ip = takeWhile is_digit u;
          r1 = dropWhile is_digit u;
          fp = (if has_prefix r1 ''.'' then takeWhile is_digit (tl r1) else []);
          r2 = (if has_prefix r1 ''.'' then dropWhile is_digit (tl r1) else r1);
          sg = (if neg then - 1 else 1 :: int)
      in if r1 = [] then JInt (sg * int (nat_of_digits 0 ip))
         else
           let e = (if r2 = [] then 0
                    else if has_prefix (tl r2) ''-'' then - int (nat_of_digits 0 (tl (tl r2)))
                    else if has_prefix (tl r2) ''+'' then int (nat_of_digits 0 (tl (tl r2)))
                    else int (nat_of_digits 0 (tl r2)))
           in JFloat (of_int sg * of_nat (nat_of_digits 0 (ip @ fp)) * 10 powi (e - int (length fp))))"

subsection \<open>The automaton\<close>

text \<open>Open containers: an array, an object waiting for a key or for the value of a key.\<close>

datatype frame = FArr "json list" | FKey obj | FVal obj string

datatype number_phase = NNeg | NZero | NInt | NDot | NFrac | NExpSign | NExp | NExpDigits

text \<open>
  Where the scanner is: before a value (or the end of an array), before a key (or the end of an
  object), inside a string, an escape, a number or a literal, or after a value.
\<close>

datatype mode =
    MValue bool
  | MKey bool
  | MStr string
  | MEsc string
  | MHex nat string
  | MNum number_phase string
  | MLit string json
  | MEnd json

definition maxNestingDepth :: nat where "maxNestingDepth = 10000"

definition json_space :: "char \<Rightarrow> bool" where
  "json_space c \<longleftrightarrow> c = CHR '' '' \<or> c = CHR 0x09 \<or> c = CHR 0x0A \<or> c = CHR 0x0D"

type_synonym scan = "mode \<times> frame list"

definition push :: "frame \<Rightarrow> mode \<Rightarrow> frame list \<Rightarrow> scan option" where
  "push f m fs = (if length fs < maxNestingDepth then Some (m, f # fs) else None)"

definition begin_value :: "char \<Rightarrow> frame list \<Rightarrow> scan option" where
  "begin_value c fs =
     (if json_space c then Some (MValue False, fs)
      else if c = CHR ''{'' then push (FKey []) (MKey True) fs
      else if c = CHR ''['' then push (FArr []) (MValue True) fs
      else if c = CHR 0x22 then Some (MStr [], fs)
      else if c = CHR ''-'' then Some (MNum NNeg [c], fs)
      else if c = CHR ''0'' then Some (MNum NZero [c], fs)
      else if is_digit c then Some (MNum NInt [c], fs)
      else if c = CHR ''t'' then Some (MLit ''rue'' (JBool True), fs)
      else if c = CHR ''f'' then Some (MLit ''alse'' (JBool False), fs)
      else if c = CHR ''n'' then Some (MLit ''ull'' JNull, fs)
      else None)"

definition end_value :: "json \<Rightarrow> char \<Rightarrow> frame list \<Rightarrow> scan option" where
  "end_value v c fs =
     (if json_space c then Some (MEnd v, fs)
      else case fs of
        [] \<Rightarrow> None
      | FArr vs # gs \<Rightarrow>
          if c = CHR '','' then Some (MValue False, FArr (vs @ [v]) # gs)
          else if c = CHR '']'' then Some (MEnd (JArr (vs @ [v])), gs)
          else None
      | FKey ps # gs \<Rightarrow>
          (case v of
             JStr k \<Rightarrow> if c = CHR '':'' then Some (MValue False, FVal ps k # gs) else None
           | _ \<Rightarrow> None)
      | FVal ps k # gs \<Rightarrow>
          if c = CHR '','' then Some (MKey False, FKey (ps @ [(k, v)]) # gs)
          else if c = CHR ''}'' then Some (MEnd (JObj (ps @ [(k, v)])), gs)
          else None)"

definition number_step :: "number_phase \<Rightarrow> char \<Rightarrow> number_phase option" where
  "number_step ph c =
     (case ph of
        NNeg \<Rightarrow> if c = CHR ''0'' then Some NZero else if is_digit c then Some NInt else None
      | NZero \<Rightarrow> if c = CHR ''.'' then Some NDot else if c = CHR ''e'' \<or> c = CHR ''E'' then Some NExpSign else None
      | NInt \<Rightarrow> if is_digit c then Some NInt else if c = CHR ''.'' then Some NDot
               else if c = CHR ''e'' \<or> c = CHR ''E'' then Some NExpSign else None
      | NDot \<Rightarrow> if is_digit c then Some NFrac else None
      | NFrac \<Rightarrow> if is_digit c then Some NFrac else if c = CHR ''e'' \<or> c = CHR ''E'' then Some NExpSign else None
      | NExpSign \<Rightarrow> if c = CHR ''+'' \<or> c = CHR ''-'' then Some NExp else if is_digit c then Some NExpDigits else None
      | NExp \<Rightarrow> if is_digit c then Some NExpDigits else None
      | NExpDigits \<Rightarrow> if is_digit c then Some NExpDigits else None)"

text \<open>Where a number may stop.\<close>

definition number_final :: "number_phase \<Rightarrow> bool" where
  "number_final ph \<longleftrightarrow> ph \<in> {NZero, NInt, NFrac, NExpDigits}"

text \<open>Strings and numbers are accumulated in reverse.\<close>

fun scan_step :: "char \<Rightarrow> scan \<Rightarrow> scan option" where
  "scan_step c (MValue empty_ok, fs) =
     (if json_space c then Some (MValue empty_ok, fs)
      else if empty_ok \<and> c = CHR '']'' then Some (MEnd (JArr []), tl fs)
      else begin_value c fs)"
| "scan_step c (MKey empty_ok, fs) =
     (if json_space c then Some (MKey empty_ok, fs)
      else if empty_ok \<and> c = CHR ''}'' then Some (MEnd (JObj []), tl fs)
      else if c = CHR 0x22 then Some (MStr [], fs)
      else None)"
| "scan_step c (MStr acc, fs) =
     (if c = CHR 0x22 then Some (MEnd (JStr (unquote (rev acc))), fs)
      else if c = CHR 0x5C then Some (MEsc (c # acc), fs)
      else if byte c < 0x20 then None
      else Some (MStr (c # acc), fs))"
| "scan_step c (MEsc acc, fs) =
     (if c = CHR ''u'' then Some (MHex 4 (c # acc), fs)
      else if c \<in> {CHR ''b'', CHR ''f'', CHR ''n'', CHR ''r'', CHR ''t'', CHR 0x5C, CHR ''/'', CHR 0x22}
      then Some (MStr (c # acc), fs)
      else None)"
| "scan_step c (MHex n acc, fs) =
     (if hex_value c = None then None
      else if n \<le> 1 then Some (MStr (c # acc), fs)
      else Some (MHex (n - 1) (c # acc), fs))"
| "scan_step c (MNum ph acc, fs) =
     (case number_step ph c of
        Some ph' \<Rightarrow> Some (MNum ph' (c # acc), fs)
      | None \<Rightarrow> if number_final ph then end_value (number_value (rev acc)) c fs else None)"
| "scan_step c (MLit w v, fs) =
     (case w of
        [] \<Rightarrow> None
      | d # w' \<Rightarrow> if c = d then Some (if w' = [] then MEnd v else MLit w' v, fs) else None)"
| "scan_step c (MEnd v, fs) = end_value v c fs"

fun scan_all :: "string \<Rightarrow> scan \<Rightarrow> scan option" where
  "scan_all [] s = Some s"
| "scan_all (c # cs) s = (case scan_step c s of None \<Rightarrow> None | Some s' \<Rightarrow> scan_all cs s')"

definition scan_end :: "scan \<Rightarrow> json option" where
  "scan_end s =
     (case s of
        (MEnd v, []) \<Rightarrow> Some v
      | (MNum ph acc, []) \<Rightarrow> if number_final ph then Some (number_value (rev acc)) else None
      | _ \<Rightarrow> None)"

text \<open>The value of a JSON text; \<open>json.Valid\<close>.\<close>

definition parse_json :: "string \<Rightarrow> json option" where
  "parse_json s = (case scan_all s (MValue False, []) of None \<Rightarrow> None | Some st \<Rightarrow> scan_end st)"

definition json_valid :: "string \<Rightarrow> bool" where
  "json_valid s \<longleftrightarrow> parse_json s \<noteq> None"

lemma scan_all_append:
  "scan_all (s @ t) st = (case scan_all s st of None \<Rightarrow> None | Some st' \<Rightarrow> scan_all t st')"
  by (induction s arbitrary: st) (auto split: option.split)

subsection \<open>Decoding into \<open>any\<close>\<close>

text \<open>
  In a value of type \<open>any\<close> every number is a \<open>float64\<close>; one that is too large is an error. In a
  map the last of several equal keys wins. After decoding, \<open>JInt\<close> only stands for the integers
  the program itself puts into a map.
\<close>

definition max_float :: rat where "max_float = 2 ^ 1024"

definition float_of :: "rat \<Rightarrow> json option" where
  "float_of x = (let y = fl x in if max_float \<le> y \<or> y \<le> - max_float then None else Some (JFloat y))"

fun any_of :: "json \<Rightarrow> json option" and
  anys_of :: "json list \<Rightarrow> json list option" and
  pairs_any :: "(string \<times> json) list \<Rightarrow> obj \<Rightarrow> obj option" where
  "any_of (JInt n) = float_of (of_int n)"
| "any_of (JFloat x) = float_of x"
| "any_of (JArr vs) = map_option JArr (anys_of vs)"
| "any_of (JObj ps) = map_option JObj (pairs_any ps [])"
| "any_of v = Some v"
| "anys_of [] = Some []"
| "anys_of (v # vs) =
     (case (any_of v, anys_of vs) of (Some x, Some xs) \<Rightarrow> Some (x # xs) | _ \<Rightarrow> None)"
| "pairs_any [] m = Some m"
| "pairs_any ((k, v) # ps) m = (case any_of v of None \<Rightarrow> None | Some x \<Rightarrow> pairs_any ps (mput k x m))"

text \<open>
  \<open>json.Unmarshal\<close> into a \<open>map[string]any\<close>: \<open>None\<close> is an error, and the outcome of \<open>null\<close> is the
  nil map, \<open>Some None\<close>.
\<close>

definition unmarshal_map :: "string \<Rightarrow> obj option option" where
  "unmarshal_map s =
     (case parse_json s of
        Some (JObj ps) \<Rightarrow> map_option Some (pairs_any ps [])
      | Some JNull \<Rightarrow> Some None
      | _ \<Rightarrow> None)"

lemma wf_pairs_any: "pairs_any ps m = Some m' \<Longrightarrow> wfmap m \<Longrightarrow> wfmap m'"
  by (induction ps arbitrary: m) (auto split: option.splits prod.splits)

end
