(* ===== verification/SseEvents.thy ===== *)
theory SseEvents
  imports JsonText
begin

text \<open>
  Reading the event stream of the vendor, \<open>readSSE\<close> and \<open>decodeSSEEvent\<close> of
  \<open>internal/upstream/sse.go\<close>. The stream is its bytes followed by the end of the connection or
  by a read error; how the bytes arrive in pieces is not visible to the code.
\<close>

record stream_error =
  se_Code :: string
  se_Message :: string
  se_Upstream :: "obj option"
  se_rawFrame :: "string option"

definition plain_error :: "string \<Rightarrow> string \<Rightarrow> stream_error" where
  "plain_error code message = \<lparr>se_Code = code, se_Message = message, se_Upstream = None, se_rawFrame = None\<rparr>"

abbreviation parse_failure :: "string \<Rightarrow> stream_error" where
  "parse_failure \<equiv> plain_error ''upstream_parse''"

definition ErrorObject :: "stream_error \<Rightarrow> obj" where
  "ErrorObject e =
     (case se_Upstream e of
        Some o' \<Rightarrow> o'
      | None \<Rightarrow> [(''code'', JStr (se_Code e)), (''message'', JStr (se_Message e)), (''type'', JStr ''upstream_error'')])"

record sse_event =
  ev_name :: string
  ev_data :: string

subsection \<open>Lines\<close>

definition trim_suffix :: "string \<Rightarrow> string \<Rightarrow> string" where
  "trim_suffix s p = (if has_suffix s p then take (length s - length p) s else s)"

text \<open>The lines that a newline ends, and what is left.\<close>

fun split_lines :: "string \<Rightarrow> string list \<times> string" where
  "split_lines [] = ([], [])"
| "split_lines (c # s) =
     (case split_lines s of
        (ls, r) \<Rightarrow>
          if c = CHR 0x0A then ([] # ls, r)
          else (case ls of [] \<Rightarrow> ([], c # r) | l # ls' \<Rightarrow> ((c # l) # ls', r)))"

fun join_lines :: "string list \<Rightarrow> string" where
  "join_lines [] = []"
| "join_lines [d] = d"
| "join_lines (d # ds) = d @ CHR 0x0A # join_lines ds"

text \<open>A field of the event under construction.\<close>

definition sse_field :: "string \<Rightarrow> string list \<times> string \<Rightarrow> string list \<times> string" where
  "sse_field line dn =
     (case (case cut_at CHR '':'' line of
              Some (f, v) \<Rightarrow> (f, trim_prefix v '' '')
            | None \<Rightarrow> (line, [])) of
        (field, value) \<Rightarrow>
          if field = ''data'' then (fst dn @ [value], snd dn)
          else if field = ''event'' then (fst dn, value)
          else dn)"

datatype stream_end = AtEOF | ReadError

text \<open>
  The callbacks run in a state \<open>'s\<close>; an error may be one of this module (\<open>Inl\<close>) or one of the
  client's connection (\<open>Inr\<close>).
\<close>

type_synonym 'w failure = "stream_error + 'w"
type_synonym ('s, 'w) consumer = "sse_event \<Rightarrow> 's \<Rightarrow> 's \<times> bool \<times> 'w failure option"
type_synonym ('s, 'w) commenter = "string \<Rightarrow> 's \<Rightarrow> 's \<times> 'w failure option"

definition dispatch :: "('s, 'w) consumer \<Rightarrow> string list \<times> string \<Rightarrow> 's \<Rightarrow> 's \<times> bool \<times> 'w failure option" where
  "dispatch consume dn s =
     (if fst dn = [] then (s, False, None)
      else consume \<lparr>ev_name = snd dn, ev_data = join_lines (fst dn)\<rparr> s)"

text \<open>\<open>Inr\<close> is the return of \<open>readSSE\<close>, \<open>Inl\<close> the event under construction at the end.\<close>

fun read_lines :: "('s, 'w) consumer \<Rightarrow> ('s, 'w) commenter \<Rightarrow> string list \<Rightarrow> string list \<times> string \<Rightarrow> 's
    \<Rightarrow> 's \<times> (string list \<times> string + 'w failure option)" where
  "read_lines consume comment [] dn s = (s, Inl dn)"
| "read_lines consume comment (l # ls) dn s =
     (let line = trim_suffix l [CHR 0x0D]
      in if line = [] then
           (case dispatch consume dn s of
              (s', stop, e) \<Rightarrow>
                if e \<noteq> None \<or> stop then (s', Inr e) else read_lines consume comment ls ([], []) s')
         else if has_prefix line '':'' then
           (case comment line s of
              (s', Some e) \<Rightarrow> (s', Inr (Some e))
            | (s', None) \<Rightarrow> read_lines consume comment ls dn s')
         else read_lines consume comment ls (sse_field line dn) s)"

definition read_rest :: "('s, 'w) consumer \<Rightarrow> ('s, 'w) commenter \<Rightarrow> string \<Rightarrow> stream_end \<Rightarrow> string list \<times> string \<Rightarrow> 's
    \<Rightarrow> 's \<times> 'w failure option" where
  "read_rest consume comment r e dn s =
     (let line = trim_suffix r [CHR 0x0D];
          finish = (\<lambda>dn s. case e of
             AtEOF \<Rightarrow> (case dispatch consume dn s of (s', stop, err) \<Rightarrow> (s', err))
           | ReadError \<Rightarrow> (s, Some (Inl (plain_error ''upstream_read_error'' ''upstream stream read failed''))))
      in if has_prefix line '':'' then
           (case comment line s of
              (s', Some err) \<Rightarrow> (s', Some err)
            | (s', None) \<Rightarrow> finish dn s')
         else if line \<noteq> [] then finish (sse_field line dn) s
         else finish dn s)"

definition readSSE :: "('s, 'w) consumer \<Rightarrow> ('s, 'w) commenter \<Rightarrow> string \<Rightarrow> stream_end \<Rightarrow> 's \<Rightarrow> 's \<times> 'w failure option" where
  "readSSE consume comment bytes e s =
     (case split_lines bytes of
        (ls, r) \<Rightarrow>
          (case read_lines consume comment ls ([], []) s of
             (s', Inr err) \<Rightarrow> (s', err)
           | (s', Inl dn) \<Rightarrow> read_rest consume comment r e dn s'))"

subsection \<open>Events\<close>

definition unknown_error :: string where "unknown_error = ''upstream returned an error''"

definition upstreamEventError :: "json \<Rightarrow> stream_error" where
  "upstreamEventError value =
     (let ob = (case value of
                  JObj m \<Rightarrow> m
                | _ \<Rightarrow>
                    [(''message'', JStr (case value of JStr (c # t) \<Rightarrow> c # t | _ \<Rightarrow> unknown_error)),
                     (''type'', JStr ''upstream_error'')]);
          message = (case mget ob ''message'' of Some (JStr (c # t)) \<Rightarrow> c # t | _ \<Rightarrow> unknown_error)
      in \<lparr>se_Code = ''upstream_error'', se_Message = message, se_Upstream = Some ob, se_rawFrame = None\<rparr>)"

definition error_member :: "string \<Rightarrow> obj \<Rightarrow> stream_error option" where
  "error_member raw ob =
     (case mget ob ''error'' of
        None \<Rightarrow> None
      | Some JNull \<Rightarrow> None
      | Some value \<Rightarrow>
          Some ((upstreamEventError value)\<lparr>se_rawFrame := (case value of JObj _ \<Rightarrow> Some raw | _ \<Rightarrow> None)\<rparr>))"

datatype decoded = DDone | DFail stream_error | DChunk obj

definition decodeSSEEvent :: "sse_event \<Rightarrow> decoded" where
  "decodeSSEEvent ev =
     (if ev_name ev \<noteq> ''error'' \<and> trim_space (ev_data ev) = ''[DONE]'' then DDone
      else if ev_name ev = ''error'' then
        (case unmarshal_map (ev_data ev) of
           Some (Some ob) \<Rightarrow>
             (case error_member (ev_data ev) ob of
                Some f \<Rightarrow> DFail f
              | None \<Rightarrow> DFail (upstreamEventError (JObj ob)))
         | _ \<Rightarrow> DFail (upstreamEventError (JStr (ev_data ev))))
      else
        (case unmarshal_map (ev_data ev) of
           Some (Some ob) \<Rightarrow>
             (case error_member (ev_data ev) ob of
                Some f \<Rightarrow> DFail f
              | None \<Rightarrow> DChunk ob)
         | _ \<Rightarrow> DFail (parse_failure ''upstream stream contained invalid JSON data'')))"

end
