(* ===== verification/ReasoningLoop.thy ===== *)
theory ReasoningLoop
  imports SseEvents Session
begin

text \<open>
  The guard against repeated reasoning, \<open>internal/upstream/reasoning_loop.go\<close>: over the last 256
  non-empty lines of a choice's reasoning it keeps how often each occurs, and stops the stream
  when long reasoning consists of a few short lines repeated. SHA-256 of a line is a parameter.
\<close>

definition reasoningLoopMinChars :: nat where "reasoningLoopMinChars = 8000"
definition reasoningLoopWindow :: nat where "reasoningLoopWindow = 256"
definition reasoningLoopMaxUnique :: nat where "reasoningLoopMaxUnique = 12"
definition reasoningLoopCoveragePercent :: nat where "reasoningLoopCoveragePercent = 95"
definition reasoningLoopMaxRepeatedRunes :: nat where "reasoningLoopMaxRepeatedRunes = 32"
definition reasoningLoopLineBufferRunes :: nat where "reasoningLoopLineBufferRunes = 4096"

definition ReasoningLoopErrorCode :: string where "ReasoningLoopErrorCode = ''upstream_reasoning_loop''"

definition reasoningLoopModel :: "string \<Rightarrow> bool" where
  "reasoningLoopModel m0 =
     (let m = to_lower (trim_space m0)
      in case cut_at CHR '':'' m of
           Some (rlm, bare) \<Rightarrow> rlm \<in> {''cn'', ''global'', ''sg''} \<and> bare = ''deepseek-v4.1-flash''
         | None \<Rightarrow> m = ''deepseek-v4.1-flash'')"

definition IsReasoningLoopError :: "stream_error \<Rightarrow> bool" where
  "IsReasoningLoopError e \<longleftrightarrow> se_Code e = ReasoningLoopErrorCode"

text \<open>A key is a digest, or a serial number that no other line shares.\<close>

type_synonym line_key = "string \<times> nat"

record guard =
  g_characters :: nat
  g_line :: "nat list"
  g_overlong :: bool
  g_nonempty :: bool
  g_pendingCR :: bool
  g_serial :: nat
  g_window :: "line_key list"
  g_position :: nat
  g_size :: nat
  g_counts :: "(line_key, nat) gomap"

definition new_guard :: guard where
  "new_guard = \<lparr>g_characters = 0, g_line = [], g_overlong = False, g_nonempty = False, g_pendingCR = False,
     g_serial = 0, g_window = replicate reasoningLoopWindow ([], 0), g_position = 0, g_size = 0, g_counts = []\<rparr>"

definition reset_guard :: "guard \<Rightarrow> guard" where
  "reset_guard g = g\<lparr>g_characters := 0, g_position := 0, g_size := 0, g_line := [], g_overlong := False,
     g_nonempty := False, g_pendingCR := False, g_serial := 0, g_counts := []\<rparr>"

definition reasoningSpace :: "nat \<Rightarrow> bool" where
  "reasoningSpace r \<longleftrightarrow> is_space_rune r \<or> (0x1C \<le> r \<and> r \<le> 0x1F)"

definition reasoningLineBreak :: "nat \<Rightarrow> bool" where
  "reasoningLineBreak r \<longleftrightarrow> r \<in> {0x0A, 0x0B, 0x0C, 0x1C, 0x1D, 0x1E, 0x85, 0x2028, 0x2029}"

text \<open>\<open>strings.TrimFunc\<close> on runes.\<close>

definition trim_runes :: "(nat \<Rightarrow> bool) \<Rightarrow> nat list \<Rightarrow> nat list" where
  "trim_runes p rs = rev (dropWhile p (rev (dropWhile p rs)))"

definition loop_message_1 :: string where
  "loop_message_1 =
     [CHR 0xE6, CHR 0xA3, CHR 0x80, CHR 0xE6, CHR 0xB5, CHR 0x8B, CHR 0xE5, CHR 0x88, CHR 0xB0,
      CHR 0xE9, CHR 0x87, CHR 0x8D, CHR 0xE5, CHR 0xA4, CHR 0x8D, CHR 0xE6, CHR 0x8E, CHR 0xA8,
      CHR 0xE7, CHR 0x90, CHR 0x86, CHR 0xE5, CHR 0xBE, CHR 0xAA, CHR 0xE7, CHR 0x8E, CHR 0xAF,
      CHR 0xEF, CHR 0xBC, CHR 0x8C, CHR 0xE5, CHR 0xB7, CHR 0xB2, CHR 0xE5, CHR 0x81, CHR 0x9C,
      CHR 0xE6, CHR 0xAD, CHR 0xA2, CHR 0xE8, CHR 0xAF, CHR 0xA5, CHR 0xE6, CHR 0xAC, CHR 0xA1,
      CHR 0xE8, CHR 0xAF, CHR 0xB7, CHR 0xE6, CHR 0xB1, CHR 0x82, CHR 0xEF, CHR 0xBC, CHR 0x9B,
      CHR 0xE5, CHR 0x8F, CHR 0xAF, CHR 0xE6, CHR 0x95, CHR 0xB4, CHR 0xE7, CHR 0x90, CHR 0x86,
      CHR 0xE4, CHR 0xB8, CHR 0x8A, CHR 0xE4, CHR 0xB8, CHR 0x8B, CHR 0xE6, CHR 0x96, CHR 0x87,
      CHR 0xE5, CHR 0x90, CHR 0x8E, CHR 0xE9, CHR 0x87, CHR 0x8D, CHR 0xE8, CHR 0xAF, CHR 0x95,
      CHR 0xEF, CHR 0xBC, CHR 0x88, CHR 0xE6, CHR 0x9C, CHR 0xAC, CHR 0xE6, CHR 0xAE, CHR 0xB5,
      CHR 0xE6, CHR 0x8E, CHR 0xA8, CHR 0xE7, CHR 0x90, CHR 0x86]"

definition loop_message_2 :: string where
  "loop_message_2 =
     [CHR 0xE5, CHR 0xAD, CHR 0x97, CHR 0xE7, CHR 0xAC, CHR 0xA6, CHR 0xEF, CHR 0xBC, CHR 0x8C,
      CHR 0xE7, CHR 0xAA, CHR 0x97, CHR 0xE5, CHR 0x8F, CHR 0xA3]"

definition loop_message_3 :: string where
  "loop_message_3 =
     [CHR 0xE8, CHR 0xA1, CHR 0x8C, CHR 0xEF, CHR 0xBC, CHR 0x8C, CHR 0xE5, CHR 0x94, CHR 0xAF,
      CHR 0xE4, CHR 0xB8, CHR 0x80, CHR 0xE8, CHR 0xA1, CHR 0x8C]"

definition loop_message_4 :: string where
  "loop_message_4 =
     [CHR 0xEF, CHR 0xBC, CHR 0x8C, CHR 0xE9, CHR 0x87, CHR 0x8D, CHR 0xE5, CHR 0xA4, CHR 0x8D,
      CHR 0xE8, CHR 0xA6, CHR 0x86, CHR 0xE7, CHR 0x9B, CHR 0x96]"

definition loop_message_5 :: string where
  "loop_message_5 =
     [CHR 0xEF, CHR 0xBC, CHR 0x89, CHR 0xE3, CHR 0x80, CHR 0x82]"

definition loop_error :: "nat \<Rightarrow> nat \<Rightarrow> nat \<Rightarrow> nat \<Rightarrow> stream_error" where
  "loop_error characters lines unique repeated =
     (let message = loop_message_1 @ dec characters @ loop_message_2 @ dec lines @ loop_message_3 @ dec unique
            @ loop_message_4 @ dec repeated @ ''/'' @ dec reasoningLoopWindow @ loop_message_5
      in \<lparr>se_Code = ReasoningLoopErrorCode, se_Message = message,
          se_Upstream = Some [(''code'', JStr ReasoningLoopErrorCode), (''type'', JStr ''invalid_request_error''),
                              (''message'', JStr message)],
          se_rawFrame = None\<rparr>)"

text \<open>Taking a key into the window, which is a ring.\<close>

definition count_of :: "('k, nat) gomap \<Rightarrow> 'k \<Rightarrow> nat" where
  "count_of m k = (case mget m k of None \<Rightarrow> 0 | Some n \<Rightarrow> n)"

definition drop_count :: "'k \<Rightarrow> ('k, nat) gomap \<Rightarrow> ('k, nat) gomap" where
  "drop_count k m = (if count_of m k - 1 = 0 then mdel k m else mput k (count_of m k - 1) m)"

definition take_key :: "line_key \<Rightarrow> guard \<Rightarrow> guard" where
  "take_key key g =
     (let g1 = (if g_size g = reasoningLoopWindow
                then g\<lparr>g_counts := drop_count (g_window g ! g_position g) (g_counts g)\<rparr>
                else g\<lparr>g_size := g_size g + 1\<rparr>)
      in g1\<lparr>g_window := (g_window g1)[g_position g := key],
            g_position := (g_position g + 1) mod reasoningLoopWindow,
            g_counts := mput key (count_of (g_counts g1) key + 1) (g_counts g1)\<rparr>)"

definition repeated_lines :: "('k, nat) gomap \<Rightarrow> nat" where
  "repeated_lines m = sum_list (map (\<lambda>(_, n). if n \<ge> 2 then n else 0) m)"

definition verdict :: "guard \<Rightarrow> stream_error option" where
  "verdict g =
     (if g_characters g < reasoningLoopMinChars \<or> g_size g \<noteq> reasoningLoopWindow
         \<or> length (g_counts g) > reasoningLoopMaxUnique then None
      else if repeated_lines (g_counts g) * 100 < reasoningLoopCoveragePercent * reasoningLoopWindow then None
      else Some (loop_error (g_characters g) (g_size g) (length (g_counts g)) (repeated_lines (g_counts g))))"

definition line_key_of :: "(nat list \<Rightarrow> string) \<Rightarrow> guard \<Rightarrow> line_key \<times> nat" where
  "line_key_of sha g =
     (let text = (if g_overlong g then [] else trim_runes reasoningSpace (g_line g))
      in if g_overlong g \<or> length text > reasoningLoopMaxRepeatedRunes
         then (([], g_serial g + 1), g_serial g + 1)
         else ((sha text, 0), g_serial g))"

definition completeLine :: "(nat list \<Rightarrow> string) \<Rightarrow> guard \<Rightarrow> guard \<times> stream_error option" where
  "completeLine sha g =
     (if \<not> g_nonempty g then (g\<lparr>g_line := [], g_overlong := False\<rparr>, None)
      else
        case line_key_of sha g of
          (key, serial) \<Rightarrow>
            let g' = take_key key (g\<lparr>g_serial := serial, g_line := [], g_overlong := False, g_nonempty := False\<rparr>)
            in (g', verdict g'))"

definition countCharacter :: "guard \<Rightarrow> guard" where
  "countCharacter g = (if int (g_characters g) < max_int64 then g\<lparr>g_characters := g_characters g + 1\<rparr> else g)"

definition buffer_rune :: "nat \<Rightarrow> guard \<Rightarrow> guard" where
  "buffer_rune r g =
     (let g1 = g\<lparr>g_nonempty := g_nonempty g \<or> \<not> reasoningSpace r\<rparr>
      in if g_overlong g1 then g1
         else if length (g_line g1) = reasoningLoopLineBufferRunes then g1\<lparr>g_overlong := True, g_line := []\<rparr>
         else g1\<lparr>g_line := g_line g1 @ [r]\<rparr>)"

text \<open>A rune that does not follow a carriage return.\<close>

definition plain_rune :: "(nat list \<Rightarrow> string) \<Rightarrow> nat \<Rightarrow> guard \<Rightarrow> guard \<times> stream_error option" where
  "plain_rune sha r g0 =
     (let g = countCharacter g0
      in if r = 0x0D then (g\<lparr>g_pendingCR := True\<rparr>, None)
         else if reasoningLineBreak r then completeLine sha g
         else (buffer_rune r g, None))"

definition add_rune :: "(nat list \<Rightarrow> string) \<Rightarrow> nat \<Rightarrow> guard \<Rightarrow> guard \<times> stream_error option" where
  "add_rune sha r g =
     (if g_pendingCR g then
        let g1 = g\<lparr>g_pendingCR := False\<rparr>
        in if r = 0x0A then completeLine sha (countCharacter g1)
           else (case completeLine sha g1 of
                   (g2, Some e) \<Rightarrow> (g2, Some e)
                 | (g2, None) \<Rightarrow> plain_rune sha r g2)
      else plain_rune sha r g)"

fun add_runes :: "(nat list \<Rightarrow> string) \<Rightarrow> nat list \<Rightarrow> guard \<Rightarrow> guard \<times> stream_error option" where
  "add_runes sha [] g = (g, None)"
| "add_runes sha (r # rs) g =
     (case add_rune sha r g of
        (g', Some e) \<Rightarrow> (g', Some e)
      | (g', None) \<Rightarrow> add_runes sha rs g')"

definition add_reasoning :: "(nat list \<Rightarrow> string) \<Rightarrow> string \<Rightarrow> guard \<Rightarrow> guard \<times> stream_error option" where
  "add_reasoning sha text g = add_runes sha (runes text) g"

definition finish_guard :: "(nat list \<Rightarrow> string) \<Rightarrow> guard \<Rightarrow> guard \<times> stream_error option" where
  "finish_guard sha g = completeLine sha (g\<lparr>g_pendingCR := False\<rparr>)"

end
