(* ===== verification/SseDelta.thy ===== *)
theory SseDelta
  imports ReasoningLoop
begin

text \<open>
  What the deltas of a stream add up to: \<open>streamText\<close>, \<open>streamFunction\<close>, \<open>streamToolCall\<close> and
  \<open>streamChoice\<close> of \<open>internal/upstream/sse.go\<close>. An operation that fails ends the stream, so its
  result is the error alone.
\<close>

definition andthen :: "'e + 'a \<Rightarrow> ('a \<Rightarrow> 'e + 'b) \<Rightarrow> 'e + 'b" where
  "andthen r k = (case r of Inl e \<Rightarrow> Inl e | Inr x \<Rightarrow> k x)"

lemma andthen_simps [simp]: "andthen (Inl e) k = Inl e" "andthen (Inr x) k = k x"
  by (simp_all add: andthen_def)

lemma andthen_Inr: "andthen r k = Inr y \<longleftrightarrow> (\<exists>x. r = Inr x \<and> k x = Inr y)"
  by (cases r) simp_all

subsection \<open>Values of type \<open>any\<close>\<close>

text \<open>The index of a choice or call, a \<open>float64\<close> that is truncated.\<close>

definition get_index :: "int \<Rightarrow> obj \<Rightarrow> int" where
  "get_index dflt m = (case mget m ''index'' of Some (JFloat x) \<Rightarrow> trunc64 x | _ \<Rightarrow> dflt)"

subsection \<open>Texts and functions\<close>

record streamText =
  st_value :: string
  st_seen :: bool

definition empty_text :: streamText where "empty_text = \<lparr>st_value = [], st_seen = False\<rparr>"

definition append_text :: "string \<Rightarrow> bool \<Rightarrow> streamText \<Rightarrow> stream_error + streamText \<times> string" where
  "append_text value snapshot s =
     (if snapshot \<and> \<not> has_prefix value (st_value s)
      then Inl (parse_failure ''upstream message snapshot conflicts with streamed data'')
      else
        let addition = (if snapshot then drop (length (st_value s)) value else value)
        in Inr (\<lparr>st_value = st_value s @ addition, st_seen = True\<rparr>, addition))"

record streamFunction =
  fn_name :: string
  fn_arguments :: streamText

definition empty_function :: streamFunction where
  "empty_function = \<lparr>fn_name = [], fn_arguments = empty_text\<rparr>"

definition observe_name :: "obj \<Rightarrow> bool \<Rightarrow> streamFunction \<Rightarrow> stream_error + streamFunction \<times> obj" where
  "observe_name raw snapshot f =
     (let name = get_str raw ''name''
      in if name = [] then Inr (f, [])
         else if fn_name f \<noteq> [] \<and> name \<noteq> fn_name f
         then Inl (parse_failure ''upstream changed a streamed function name'')
         else Inr (f\<lparr>fn_name := name\<rparr>,
                   if \<not> snapshot \<or> fn_name f = [] then [(''name'', JStr name)] else []))"

definition observe_arguments :: "obj \<Rightarrow> bool \<Rightarrow> streamFunction \<Rightarrow> stream_error + streamFunction \<times> obj" where
  "observe_arguments raw snapshot f =
     (case mget raw ''arguments'' of
        None \<Rightarrow> Inr (f, [])
      | Some (JStr args) \<Rightarrow>
          andthen (append_text args snapshot (fn_arguments f)) (\<lambda>(t, addition).
            Inr (f\<lparr>fn_arguments := t\<rparr>,
                 if \<not> snapshot \<or> addition \<noteq> [] \<or> \<not> st_seen (fn_arguments f)
                 then [(''arguments'', JStr addition)] else []))
      | Some _ \<Rightarrow> Inl (plain_error ''invalid_tool_arguments'' ''upstream tool arguments must be a JSON string''))"

definition observe_function :: "obj \<Rightarrow> bool \<Rightarrow> streamFunction \<Rightarrow> stream_error + streamFunction \<times> obj" where
  "observe_function raw snapshot f =
     andthen (observe_name raw snapshot f) (\<lambda>(f1, out1).
       andthen (observe_arguments raw snapshot f1) (\<lambda>(f2, out2). Inr (f2, out1 @ out2)))"

definition function_progress :: "streamFunction \<Rightarrow> streamFunction \<Rightarrow> obj \<Rightarrow> bool" where
  "function_progress f f' out \<longleftrightarrow>
     fn_name f' \<noteq> fn_name f \<and> trim_space (fn_name f') \<noteq> [] \<or> get_str out ''arguments'' \<noteq> []"

subsection \<open>Tool calls\<close>

record streamToolCall =
  tc_id :: string
  tc_typ :: string
  tc_function :: streamFunction

definition empty_tool :: streamToolCall where
  "empty_tool = \<lparr>tc_id = [], tc_typ = [], tc_function = empty_function\<rparr>"

text \<open>The result of one of the fields \<open>id\<close> and \<open>type\<close>: its new value and what is sent on.\<close>

definition observe_identity :: "string \<Rightarrow> obj \<Rightarrow> bool \<Rightarrow> string \<Rightarrow> stream_error + string \<times> obj" where
  "observe_identity key call wholeMessage previous =
     (let value = get_str call key
      in if value = [] then Inr (previous, [])
         else if previous \<noteq> [] \<and> value \<noteq> previous
         then Inl (parse_failure ''upstream changed a streamed tool call identity'')
         else Inr (value, if \<not> wholeMessage \<or> previous = [] then [(key, JStr value)] else []))"

definition observe_tool_function :: "obj \<Rightarrow> bool \<Rightarrow> streamFunction \<Rightarrow> stream_error + streamFunction \<times> obj \<times> bool" where
  "observe_tool_function call wholeMessage f =
     (case mget call ''function'' of
        Some (JObj fn) \<Rightarrow>
          andthen (observe_function fn wholeMessage f) (\<lambda>(f', nextFn).
            Inr (f', if nextFn \<noteq> [] then [(''function'', JObj nextFn)] else [], function_progress f f' nextFn))
      | None \<Rightarrow> Inr (f, [], False)
      | Some JNull \<Rightarrow> Inr (f, [], False)
      | Some _ \<Rightarrow> Inl (parse_failure ''upstream stream contained an invalid tool function''))"

type_synonym tools = "(int, streamToolCall) gomap"

definition tool_index :: "obj \<Rightarrow> nat \<Rightarrow> bool \<Rightarrow> tools \<Rightarrow> int" where
  "tool_index call i wholeMessage ts =
     (let idx = get_index (if wholeMessage then int i else 0) call;
          cid = get_str call ''id''
      in if wholeMessage \<and> cid \<noteq> []
         then (case find (\<lambda>(candidate, previous). tc_id previous = cid) ts of
                 Some (candidate, _) \<Rightarrow> candidate
               | None \<Rightarrow> idx)
         else idx)"

text \<open>One call: the tools after it, what is sent on (if anything), and whether it is progress.\<close>

definition observe_call :: "json \<Rightarrow> nat \<Rightarrow> bool \<Rightarrow> tools \<Rightarrow> stream_error + tools \<times> json list \<times> bool" where
  "observe_call item i wholeMessage ts =
     (case item of
        JObj call \<Rightarrow>
          let idx = tool_index call i wholeMessage ts;
              st = (case mget ts idx of None \<Rightarrow> empty_tool | Some t \<Rightarrow> t)
          in andthen (observe_identity ''id'' call wholeMessage (tc_id st)) (\<lambda>(cid, out_id).
             andthen (observe_identity ''type'' call wholeMessage (tc_typ st)) (\<lambda>(typ, out_typ).
             andthen (observe_tool_function call wholeMessage (tc_function st)) (\<lambda>(f, out_fn, prog).
               let next = (''index'', JFloat (fl (of_int idx))) # out_id @ out_typ @ out_fn
               in Inr (mput idx \<lparr>tc_id = cid, tc_typ = typ, tc_function = f\<rparr> ts,
                       if length next > 1 then [JObj next] else [],
                       prog \<or> cid \<noteq> tc_id st \<and> trim_space cid \<noteq> []))))
      | _ \<Rightarrow> Inl (parse_failure ''upstream stream contained an invalid tool call''))"

fun observe_calls :: "json list \<Rightarrow> nat \<Rightarrow> bool \<Rightarrow> tools \<Rightarrow> stream_error + tools \<times> json list \<times> bool" where
  "observe_calls [] i wholeMessage ts = Inr (ts, [], False)"
| "observe_calls (item # items) i wholeMessage ts =
     andthen (observe_call item i wholeMessage ts) (\<lambda>(ts1, out1, p1).
     andthen (observe_calls items (Suc i) wholeMessage ts1) (\<lambda>(ts2, out2, p2).
       Inr (ts2, out1 @ out2, p1 \<or> p2)))"

subsection \<open>Choices\<close>

record streamChoice =
  ch_output :: bool
  ch_finishReason :: string
  ch_role :: string
  ch_text :: "(string, streamText) gomap"
  ch_tools :: tools
  ch_function :: "streamFunction option"
  ch_progress :: nat
  ch_loopProgress :: nat
  ch_loopGuard :: "guard option"

definition empty_choice :: streamChoice where
  "empty_choice = \<lparr>ch_output = False, ch_finishReason = [], ch_role = [], ch_text = [], ch_tools = [],
     ch_function = None, ch_progress = 0, ch_loopProgress = 0, ch_loopGuard = None\<rparr>"

definition validFinishReason :: "string \<Rightarrow> bool" where
  "validFinishReason r \<longleftrightarrow> r \<in> {''stop'', ''length'', ''tool_calls'', ''content_filter'', ''function_call''}"

definition text_keys :: "string list" where
  "text_keys = [''content'', ''reasoning_content'', ''refusal'']"

text \<open>The result of one text field of an output.\<close>

definition observe_text :: "string \<Rightarrow> obj \<Rightarrow> bool \<Rightarrow> streamChoice \<Rightarrow> stream_error + streamChoice \<times> obj \<times> bool" where
  "observe_text key out wholeMessage c =
     (case mget out key of
        None \<Rightarrow> Inr (c, [], False)
      | Some JNull \<Rightarrow> Inr (c, [], False)
      | Some (JStr value) \<Rightarrow>
          let previous = (case mget (ch_text c) key of None \<Rightarrow> empty_text | Some t \<Rightarrow> t)
          in andthen (append_text value wholeMessage previous) (\<lambda>(t, addition).
               Inr (c\<lparr>ch_text := mput key t (ch_text c), ch_output := ch_output c \<or> value \<noteq> []\<rparr>,
                    [(key, JStr addition)],
                    key \<noteq> ''reasoning_content'' \<and> trim_space addition \<noteq> []))
      | Some _ \<Rightarrow> Inl (parse_failure (''upstream '' @ key @ '' must be a string or null'')))"

fun observe_texts :: "string list \<Rightarrow> obj \<Rightarrow> bool \<Rightarrow> streamChoice \<Rightarrow> stream_error + streamChoice \<times> obj \<times> bool" where
  "observe_texts [] out wholeMessage c = Inr (c, [], False)"
| "observe_texts (k # ks) out wholeMessage c =
     andthen (observe_text k out wholeMessage c) (\<lambda>(c1, out1, p1).
     andthen (observe_texts ks out wholeMessage c1) (\<lambda>(c2, out2, p2).
       Inr (c2, out1 @ out2, p1 \<or> p2)))"

definition observe_tool_calls :: "obj \<Rightarrow> bool \<Rightarrow> streamChoice \<Rightarrow> stream_error + streamChoice \<times> obj \<times> bool" where
  "observe_tool_calls out wholeMessage c =
     (case mget out ''tool_calls'' of
        Some (JArr items) \<Rightarrow>
          andthen (observe_calls items 0 wholeMessage (ch_tools c)) (\<lambda>(ts, calls, p).
            Inr (c\<lparr>ch_tools := ts, ch_output := ch_output c \<or> items \<noteq> []\<rparr>,
                 if calls \<noteq> [] then [(''tool_calls'', JArr calls)] else [], p))
      | None \<Rightarrow> Inr (c, [], False)
      | Some JNull \<Rightarrow> Inr (c, [], False)
      | Some _ \<Rightarrow> Inl (parse_failure ''upstream tool_calls must be an array''))"

text \<open>An empty placeholder \<open>function_call\<close> is not a call.\<close>

definition observe_function_call :: "obj \<Rightarrow> bool \<Rightarrow> streamChoice \<Rightarrow> stream_error + streamChoice \<times> obj \<times> bool" where
  "observe_function_call out wholeMessage c =
     (case mget out ''function_call'' of
        Some (JObj fn) \<Rightarrow>
          if (case mget fn ''arguments'' of None \<Rightarrow> False | Some (JStr _) \<Rightarrow> False | Some _ \<Rightarrow> True)
          then Inl (plain_error ''invalid_tool_arguments'' ''upstream function arguments must be a JSON string'')
          else if ch_function c = None \<and> get_str fn ''name'' = [] \<and> get_str fn ''arguments'' = []
          then Inr (c, [], False)
          else
            let f = (case ch_function c of None \<Rightarrow> empty_function | Some f \<Rightarrow> f)
            in andthen (observe_function fn wholeMessage f) (\<lambda>(f', next).
                 Inr (c\<lparr>ch_function := Some f', ch_output := True\<rparr>,
                      if next \<noteq> [] then [(''function_call'', JObj next)] else [],
                      function_progress f f' next))
      | None \<Rightarrow> Inr (c, [], False)
      | Some JNull \<Rightarrow> Inr (c, [], False)
      | Some _ \<Rightarrow> Inl (parse_failure ''upstream stream contained an invalid function call''))"

definition observe_role :: "obj \<Rightarrow> bool \<Rightarrow> streamChoice \<Rightarrow> streamChoice \<times> obj" where
  "observe_role out wholeMessage c =
     (let role = get_str out ''role''
      in if role = [] then (c, [])
         else (c\<lparr>ch_role := role\<rparr>, if \<not> wholeMessage \<or> ch_role c = [] then [(''role'', JStr role)] else []))"

definition observeOutput :: "obj \<Rightarrow> bool \<Rightarrow> streamChoice \<Rightarrow> stream_error + streamChoice \<times> obj" where
  "observeOutput out wholeMessage c =
     (case observe_role out wholeMessage c of
        (c0, out0) \<Rightarrow>
          andthen (observe_texts text_keys out wholeMessage c0) (\<lambda>(c1, out1, p1).
          andthen (observe_tool_calls out wholeMessage c1) (\<lambda>(c2, out2, p2).
          andthen (observe_function_call out wholeMessage c2) (\<lambda>(c3, out3, p3).
            Inr (if p1 \<or> p2 \<or> p3 then c3\<lparr>ch_progress := ch_progress c3 + 1\<rparr> else c3,
                 out0 @ out1 @ out2 @ out3)))))"

subsection \<open>The end of a choice\<close>

definition isTruncatedArguments :: "string \<Rightarrow> bool" where
  "isTruncatedArguments raw =
     (let trimmed = trim_space raw in if trimmed = [] then False else \<not> json_valid trimmed)"

definition bad_arguments :: "streamFunction \<Rightarrow> bool" where
  "bad_arguments f \<longleftrightarrow> \<not> st_seen (fn_arguments f) \<or> isTruncatedArguments (st_value (fn_arguments f))"

definition incomplete :: "streamChoice \<Rightarrow> bool" where
  "incomplete c \<longleftrightarrow> ch_finishReason c = ''length'' \<or> ch_finishReason c = ''content_filter''"

definition validateArguments :: "streamChoice \<Rightarrow> stream_error option" where
  "validateArguments c =
     (if incomplete c then None
      else if list_ex (\<lambda>(_, call). bad_arguments (tc_function call)) (ch_tools c)
      then Some (plain_error ''invalid_tool_arguments'' ''upstream ended with incomplete or invalid tool arguments'')
      else case ch_function c of
        None \<Rightarrow> None
      | Some f \<Rightarrow>
          if bad_arguments f
          then Some (plain_error ''invalid_tool_arguments'' ''upstream ended with incomplete or invalid function arguments'')
          else None)"

definition function_out :: "bool \<Rightarrow> streamFunction \<Rightarrow> obj option" where
  "function_out inc f =
     (if inc \<and> bad_arguments f then None
      else Some ((if fn_name f \<noteq> [] then [(''name'', JStr (fn_name f))] else [])
                 @ (if st_seen (fn_arguments f) then [(''arguments'', JStr (st_value (fn_arguments f)))] else [])))"

definition call_out :: "bool \<Rightarrow> int \<times> streamToolCall \<Rightarrow> json option" where
  "call_out inc t =
     (case t of (idx, call) \<Rightarrow>
        (case function_out inc (tc_function call) of
           None \<Rightarrow> None
         | Some fn \<Rightarrow>
             Some (JObj ([(''index'', JInt idx), (''function'', JObj fn)]
                         @ (if tc_id call \<noteq> [] then [(''id'', JStr (tc_id call))] else [])
                         @ (if tc_typ call \<noteq> [] then [(''type'', JStr (tc_typ call))] else [])))))"

definition text_of :: "streamChoice \<Rightarrow> string \<Rightarrow> string" where
  "text_of c key = (case mget (ch_text c) key of None \<Rightarrow> [] | Some t \<Rightarrow> st_value t)"

definition aggregate_message :: "streamChoice \<Rightarrow> obj" where
  "aggregate_message c =
     (let calls = List.map_filter (call_out (incomplete c)) (sort_key fst (ch_tools c))
      in [(''role'', JStr (if ch_role c = [] then ''assistant'' else ch_role c)),
          (''content'', JStr (text_of c ''content''))]
         @ concat (map (\<lambda>k. if text_of c k \<noteq> [] then [(k, JStr (text_of c k))] else []) [''reasoning_content'', ''refusal''])
         @ (case ch_function c of
              None \<Rightarrow> []
            | Some f \<Rightarrow> (case function_out (incomplete c) f of None \<Rightarrow> [] | Some fn \<Rightarrow> [(''function_call'', JObj fn)]))
         @ (if calls \<noteq> [] then [(''tool_calls'', JArr calls)] else []))"

definition aggregate_choice :: "int \<Rightarrow> streamChoice \<Rightarrow> json" where
  "aggregate_choice index c =
     JObj [(''index'', JInt index), (''message'', JObj (aggregate_message c)),
           (''finish_reason'', JStr (if ch_finishReason c = [] then ''stop'' else ch_finishReason c))]"

end
