(* ===== verification/UsageJson.thy ===== *)
theory UsageJson
  imports SseDelta
begin

text \<open>
  Token counts inside a stream, \<open>internal/upstream/usage.go\<close>: cumulative snapshots are merged
  field by field, and what is not a count never replaces one.
\<close>

definition UsageCount :: "json option \<Rightarrow> int option" where
  "UsageCount v =
     (case v of
        Some (JInt n) \<Rightarrow> if 0 \<le> n then Some n else None
      | Some (JFloat x) \<Rightarrow> if 0 \<le> x \<and> x < 2 ^ 63 \<and> of_int (trunc64 x) = x then Some (trunc64 x) else None
      | _ \<Rightarrow> None)"

definition UsageCredit :: "json option \<Rightarrow> float64 option" where
  "UsageCredit v =
     (case v of
        Some (JFloat x) \<Rightarrow> if 0 \<le> x then Some x else None
      | Some (JInt n) \<Rightarrow> if 0 \<le> n then Some (fl (of_int n)) else None
      | _ \<Rightarrow> None)"

definition CachedInputTokens :: "obj \<Rightarrow> int option" where
  "CachedInputTokens values =
     (case UsageCount (mget values ''prompt_cache_hit_tokens'') of
        Some n \<Rightarrow> Some n
      | None \<Rightarrow>
          (case mget values ''prompt_tokens_details'' of
             Some (JObj details) \<Rightarrow> UsageCount (mget details ''cached_tokens'')
           | _ \<Rightarrow> None))"

definition count_keys :: "string list" where
  "count_keys = [''prompt_tokens'', ''completion_tokens'', ''total_tokens'', ''prompt_cache_hit_tokens'',
     ''prompt_cache_miss_tokens'', ''completion_thinking_tokens'', ''cached_tokens'', ''reasoning_tokens'']"

text \<open>Whether a value of the next snapshot replaces the one before.\<close>

definition accepted :: "string \<Rightarrow> json \<Rightarrow> bool" where
  "accepted k v \<longleftrightarrow> v \<noteq> JNull \<and> (k \<in> set count_keys \<longrightarrow> UsageCount (Some v) \<noteq> None)
     \<and> (k = ''credit'' \<longrightarrow> UsageCredit (Some v) \<noteq> None)"

text \<open>The two spellings of the cached tokens are kept together.\<close>

definition sync_cached :: "obj \<Rightarrow> obj \<Rightarrow> obj" where
  "sync_cached next m =
     (case CachedInputTokens next of
        None \<Rightarrow> m
      | Some cached \<Rightarrow>
          let m1 = (if mget m ''prompt_cache_hit_tokens'' \<noteq> None
                    then mput ''prompt_cache_hit_tokens'' (JInt cached) m else m)
          in (case mget m1 ''prompt_tokens_details'' of
                Some (JObj details) \<Rightarrow>
                  if mget details ''cached_tokens'' \<noteq> None
                  then mput ''prompt_tokens_details'' (JObj (mput ''cached_tokens'' (JInt cached) details)) m1
                  else m1
              | _ \<Rightarrow> m1))"

text \<open>Merging into nothing, which also copies: \<open>MergeUsage(nil, nested)\<close>.\<close>

fun copy_any :: "json \<Rightarrow> json" and
  copy_pairs :: "(string \<times> json) list \<Rightarrow> obj \<Rightarrow> obj" where
  "copy_any (JObj ps) = JObj (sync_cached ps (copy_pairs ps []))"
| "copy_any v = v"
| "copy_pairs [] m = m"
| "copy_pairs ((k, v) # ps) m = copy_pairs ps (if accepted k v then mput k (copy_any v) m else m)"

definition copy_previous :: "obj \<Rightarrow> obj" where
  "copy_previous m = map (\<lambda>(k, v). (k, copy_any v)) m"

fun merge_any :: "json option \<Rightarrow> json \<Rightarrow> json" and
  merge_pairs :: "(string \<times> json) list \<Rightarrow> obj \<Rightarrow> obj" where
  "merge_any current (JObj ps) = JObj (sync_cached ps (merge_pairs ps (copy_previous (nested_of current))))"
| "merge_any current v = v"
| "merge_pairs [] m = m"
| "merge_pairs ((k, v) # ps) m =
     merge_pairs ps (if accepted k v then mput k (merge_any (mget m k) v) m else m)"

definition merge_usage :: "obj \<Rightarrow> obj \<Rightarrow> obj" where
  "merge_usage previous next = sync_cached next (merge_pairs next (copy_previous previous))"

text \<open>\<open>None\<close> is the nil map.\<close>

definition or_nil :: "obj option \<Rightarrow> obj" where
  "or_nil m = (case m of None \<Rightarrow> [] | Some m \<Rightarrow> m)"

definition MergeUsage :: "obj option \<Rightarrow> obj option \<Rightarrow> obj option" where
  "MergeUsage previous next =
     (if previous = None \<and> next = None then None
      else Some (merge_usage (or_nil previous) (or_nil next)))"

end
