(* ===== verification/SseStream.thy ===== *)
theory SseStream
  imports UsageJson
begin

text \<open>
  The state of a whole stream and its two consumers in \<open>internal/upstream/sse.go\<close>: \<open>Aggregate\<close>
  collects one response, \<open>Stream\<close> passes normalized frames on to the client.
\<close>

subsection \<open>Merging deltas\<close>

definition mergeFunctionDelta :: "obj \<Rightarrow> obj \<Rightarrow> obj" where
  "mergeFunctionDelta merged delta =
     (let m1 = (if get_str delta ''name'' \<noteq> [] then mput ''name'' (JStr (get_str delta ''name'')) merged else merged)
      in case mget delta ''arguments'' of
           Some (JStr v) \<Rightarrow> mput ''arguments'' (JStr (get_str m1 ''arguments'' @ v)) m1
         | _ \<Rightarrow> m1)"

definition merge_entry :: "string \<times> json \<Rightarrow> obj \<Rightarrow> obj" where
  "merge_entry kv merged =
     (case kv of (key, value) \<Rightarrow>
        if key \<in> set text_keys then mput key (JStr (get_str merged key @ str_or_empty (Some value))) merged
        else if key = ''tool_calls'' then mput key (JArr (array_of (mget merged key) @ array_of (Some value))) merged
        else if key = ''function_call'' then
          mput key (JObj (mergeFunctionDelta (nested_of (mget merged key)) (nested_of (Some value)))) merged
        else mput key value merged)"

definition mergeOutputDelta :: "obj \<Rightarrow> obj \<Rightarrow> obj" where
  "mergeOutputDelta merged delta = fold merge_entry delta merged"

subsection \<open>The state of a stream\<close>

type_synonym choices = "(int, streamChoice) gomap"

record streamState =
  ss_choices :: choices
  ss_done :: bool
  ss_loopGuardEnabled :: bool

record StreamOptions =
  so_Model :: string
  so_ReasoningLoopGuard :: bool

definition newStreamState :: "StreamOptions option \<Rightarrow> streamState" where
  "newStreamState opts =
     \<lparr>ss_choices = [], ss_done = False,
      ss_loopGuardEnabled = (case opts of None \<Rightarrow> False
        | Some op \<Rightarrow> so_ReasoningLoopGuard op \<and> reasoningLoopModel (so_Model op))\<rparr>"

definition choice_at :: "int \<Rightarrow> choices \<Rightarrow> streamChoice" where
  "choice_at i cs = (case mget cs i of None \<Rightarrow> empty_choice | Some c \<Rightarrow> c)"

text \<open>One of \<open>delta\<close> and \<open>message\<close> of a choice.\<close>

definition observe_part :: "string \<Rightarrow> obj \<Rightarrow> streamChoice \<times> obj \<Rightarrow> stream_error + streamChoice \<times> obj" where
  "observe_part key choice cn =
     (case mget choice key of
        None \<Rightarrow> Inr cn
      | Some JNull \<Rightarrow> Inr cn
      | Some (JObj out) \<Rightarrow>
          andthen (observeOutput out (key = ''message'') (fst cn)) (\<lambda>(c, delta).
            Inr (c, mergeOutputDelta (snd cn) delta))
      | Some _ \<Rightarrow> Inl (parse_failure (''upstream '' @ key @ '' must be an object or null'')))"

definition observe_choice :: "json \<Rightarrow> choices \<Rightarrow> stream_error + choices \<times> json" where
  "observe_choice item cs =
     (case item of
        JObj choice \<Rightarrow>
          let idx = get_index 0 choice
          in andthen (observe_part ''delta'' choice (choice_at idx cs, [])) (\<lambda>cn1.
             andthen (observe_part ''message'' choice cn1) (\<lambda>(c, normalized).
               let choice' = mdel ''message'' (mput ''delta'' (JObj normalized) choice);
                   reason = get_str choice ''finish_reason''
               in if reason = [] then Inr (mput idx c cs, JObj choice')
                  else if \<not> validFinishReason reason
                  then Inl (parse_failure ''upstream stream contained an unknown finish_reason'')
                  else Inr (mput idx (c\<lparr>ch_finishReason := reason\<rparr>) cs, JObj choice')))
      | _ \<Rightarrow> Inl (parse_failure ''upstream stream contained an invalid choice''))"

fun observe_choices :: "json list \<Rightarrow> choices \<Rightarrow> stream_error + choices \<times> json list" where
  "observe_choices [] cs = Inr (cs, [])"
| "observe_choices (item # items) cs =
     andthen (observe_choice item cs) (\<lambda>(cs1, item').
     andthen (observe_choices items cs1) (\<lambda>(cs2, items'). Inr (cs2, item' # items')))"

text \<open>The frame is changed in place: each choice has one normalized delta afterwards.\<close>

definition observe :: "obj \<Rightarrow> streamState \<Rightarrow> stream_error + streamState \<times> obj" where
  "observe ob s =
     (case mget ob ''choices'' of
        None \<Rightarrow> Inr (s, ob)
      | Some JNull \<Rightarrow> Inr (s, ob)
      | Some (JArr items) \<Rightarrow>
          andthen (observe_choices items (ss_choices s)) (\<lambda>(cs, items').
            Inr (s\<lparr>ss_choices := cs\<rparr>, mput ''choices'' (JArr items') ob))
      | Some _ \<Rightarrow> Inl (parse_failure ''upstream choices must be an array''))"

subsection \<open>The end of a stream\<close>

definition end_choice :: "bool \<Rightarrow> streamChoice \<Rightarrow> stream_error option" where
  "end_choice fin c =
     (if ch_output c \<and> \<not> fin \<and> ch_finishReason c = []
      then Some (plain_error ''upstream_truncated'' ''upstream stream ended before a terminal marker'')
      else case validateArguments c of
        Some e \<Rightarrow> Some e
      | None \<Rightarrow>
          if (ch_finishReason c = ''tool_calls'' \<or> ch_finishReason c = ''function_call'')
             \<and> ch_tools c = [] \<and> ch_function c = None
          then Some (plain_error ''missing_tool_call'' ''upstream ended with a tool finish reason but no tool call'')
          else None)"

definition has_response :: "streamState \<Rightarrow> bool" where
  "has_response s \<longleftrightarrow> list_ex (\<lambda>(_, c). ch_output c \<or> ch_finishReason c \<noteq> []) (ss_choices s)"

text \<open>
  The order in which Go visits the keys of a map: any permutation of them. It decides which of
  several errors is reported.
\<close>

definition visit_order :: "(int list \<Rightarrow> int list) \<Rightarrow> int list \<Rightarrow> int list" where
  "visit_order ord ks = (if sort (ord ks) = sort ks then ord ks else ks)"

definition end_stream :: "(int list \<Rightarrow> int list) \<Rightarrow> streamState \<Rightarrow> stream_error option" where
  "end_stream ord s =
     (case List.map_filter (\<lambda>i. end_choice (ss_done s) (choice_at i (ss_choices s)))
             (visit_order ord (mkeys (ss_choices s))) of
        e # _ \<Rightarrow> Some e
      | [] \<Rightarrow>
          if has_response s then None
          else Some (plain_error ''empty_upstream'' ''upstream stream contained no valid data events''))"

subsection \<open>The reasoning guard of each choice\<close>

definition frame_choices :: "obj \<Rightarrow> obj list" where
  "frame_choices ob = map (\<lambda>v. nested_of (Some v)) (array_of (mget ob ''choices''))"

text \<open>Whether the choice made progress since the guard last looked, and then a fresh guard.\<close>

definition arm_guard :: "obj \<Rightarrow> choices \<times> int list \<Rightarrow> choices \<times> int list" where
  "arm_guard choice cp =
     (let idx = get_index 0 choice;
          c = choice_at idx (fst cp);
          g = (case ch_loopGuard c of None \<Rightarrow> new_guard | Some g \<Rightarrow> g)
      in if ch_loopProgress c \<noteq> ch_progress c
         then (mput idx (c\<lparr>ch_loopGuard := Some (reset_guard g), ch_loopProgress := ch_progress c\<rparr>) (fst cp), idx # snd cp)
         else (mput idx (c\<lparr>ch_loopGuard := Some g\<rparr>) (fst cp), snd cp))"

definition guard_choice :: "(nat list \<Rightarrow> string) \<Rightarrow> int list \<Rightarrow> obj \<Rightarrow> choices \<Rightarrow> choices \<times> stream_error option" where
  "guard_choice sha progressed choice cs =
     (let idx = get_index 0 choice;
          c = choice_at idx cs;
          g = (case ch_loopGuard c of None \<Rightarrow> new_guard | Some g \<Rightarrow> g);
          (g1, e1) = (if idx \<in> set progressed then (g, None)
                      else add_reasoning sha (get_str (nested_of (mget choice ''delta'')) ''reasoning_content'') g);
          (g2, e2) = (if e1 \<noteq> None \<or> get_str choice ''finish_reason'' = [] then (g1, e1) else finish_guard sha g1)
      in (mput idx (c\<lparr>ch_loopGuard := Some g2\<rparr>) cs, e2))"

fun guard_choices :: "(nat list \<Rightarrow> string) \<Rightarrow> int list \<Rightarrow> obj list \<Rightarrow> choices \<Rightarrow> choices \<times> stream_error option" where
  "guard_choices sha progressed [] cs = (cs, None)"
| "guard_choices sha progressed (choice # rest) cs =
     (case guard_choice sha progressed choice cs of
        (cs', Some e) \<Rightarrow> (cs', Some e)
      | (cs', None) \<Rightarrow> guard_choices sha progressed rest cs')"

definition observeReasoningLoops :: "(nat list \<Rightarrow> string) \<Rightarrow> obj \<Rightarrow> streamState \<Rightarrow> streamState \<times> stream_error option" where
  "observeReasoningLoops sha ob s =
     (if \<not> ss_loopGuardEnabled s then (s, None)
      else
        case fold arm_guard (frame_choices ob) (ss_choices s, []) of
          (cs, progressed) \<Rightarrow>
            (case guard_choices sha progressed (frame_choices ob) cs of
               (cs', e) \<Rightarrow> (s\<lparr>ss_choices := cs'\<rparr>, e)))"

fun finish_guards :: "(nat list \<Rightarrow> string) \<Rightarrow> int list \<Rightarrow> choices \<Rightarrow> choices \<times> stream_error option" where
  "finish_guards sha [] cs = (cs, None)"
| "finish_guards sha (i # ks) cs =
     (case ch_loopGuard (choice_at i cs) of
        None \<Rightarrow> finish_guards sha ks cs
      | Some g \<Rightarrow>
          (case finish_guard sha g of
             (g', e) \<Rightarrow>
               let cs' = mput i ((choice_at i cs)\<lparr>ch_loopGuard := Some g'\<rparr>) cs
               in if e \<noteq> None then (cs', e) else finish_guards sha ks cs'))"

definition finishReasoningLoops :: "(nat list \<Rightarrow> string) \<Rightarrow> (int list \<Rightarrow> int list) \<Rightarrow> streamState
    \<Rightarrow> streamState \<times> stream_error option" where
  "finishReasoningLoops sha ord s =
     (if \<not> ss_loopGuardEnabled s then (s, None)
      else case finish_guards sha (visit_order ord (mkeys (ss_choices s))) (ss_choices s) of
        (cs, e) \<Rightarrow> (s\<lparr>ss_choices := cs\<rparr>, e))"

subsection \<open>Aggregate\<close>

record aggregation =
  ag_state :: streamState
  ag_id :: string
  ag_model :: string
  ag_created :: float64
  ag_usage :: "obj option"

definition created_of :: "json option \<Rightarrow> float64 \<Rightarrow> float64" where
  "created_of v c = (case v of Some (JFloat x) \<Rightarrow> if c = 0 then x else c | _ \<Rightarrow> c)"

text \<open>The metadata of a frame after it was observed.\<close>

definition note_meta :: "obj \<Rightarrow> aggregation \<Rightarrow> aggregation" where
  "note_meta chunk a = a\<lparr>
     ag_id := (if ag_id a = [] then get_str chunk ''id'' else ag_id a),
     ag_model := (if ag_model a = [] then get_str chunk ''model'' else ag_model a),
     ag_created := created_of (mget chunk ''created'') (ag_created a),
     ag_usage := (case mget chunk ''usage'' of
        Some (JObj u) \<Rightarrow> MergeUsage (ag_usage a) (Some u) | _ \<Rightarrow> ag_usage a)\<rparr>"

definition aggregate_event :: "(nat list \<Rightarrow> string) \<Rightarrow> (int list \<Rightarrow> int list) \<Rightarrow> (aggregation, unit) consumer" where
  "aggregate_event sha ord ev a =
     (case decodeSSEEvent ev of
        DFail e \<Rightarrow> (a\<lparr>ag_state := (ag_state a)\<lparr>ss_done := False\<rparr>\<rparr>, True, Some (Inl e))
      | DDone \<Rightarrow>
          (case finishReasoningLoops sha ord ((ag_state a)\<lparr>ss_done := True\<rparr>) of
             (s, e) \<Rightarrow> (a\<lparr>ag_state := s\<rparr>, True, map_option Inl e))
      | DChunk chunk \<Rightarrow>
          (case observe chunk (ag_state a) of
             Inl e \<Rightarrow> (a, True, Some (Inl e))
           | Inr (s, chunk') \<Rightarrow>
               let a1 = note_meta chunk' (a\<lparr>ag_state := s\<rparr>)
               in case observeReasoningLoops sha chunk' (ag_state a1) of
                    (s', e) \<Rightarrow> (a1\<lparr>ag_state := s'\<rparr>, e \<noteq> None, map_option Inl e)))"

text \<open>\<open>clock_id\<close> and \<open>clock\<close>: the id and the time used when the vendor sent none.\<close>

definition aggregate_response :: "string \<Rightarrow> int \<Rightarrow> aggregation \<Rightarrow> obj" where
  "aggregate_response clock_id clock a =
     [(''id'', JStr (if ag_id a = [] then clock_id else ag_id a)),
      (''object'', JStr ''chat.completion''),
      (''created'', JInt (if ag_created a = 0 then clock else trunc64 (ag_created a))),
      (''model'', JStr (ag_model a)),
      (''choices'', JArr (map (\<lambda>(i, c). aggregate_choice i c) (sort_key fst (ss_choices (ag_state a)))))]
     @ (case ag_usage a of None \<Rightarrow> [] | Some u \<Rightarrow> [(''usage'', JObj u)])"

definition new_aggregation :: "StreamOptions option \<Rightarrow> aggregation" where
  "new_aggregation opts =
     \<lparr>ag_state = newStreamState opts, ag_id = [], ag_model = [], ag_created = 0, ag_usage = None\<rparr>"

definition Aggregate :: "(nat list \<Rightarrow> string) \<Rightarrow> (int list \<Rightarrow> int list) \<Rightarrow> string \<Rightarrow> int \<Rightarrow> StreamOptions option \<Rightarrow> string \<Rightarrow> stream_end
    \<Rightarrow> stream_error + obj" where
  "Aggregate sha ord clock_id clock opts bytes e =
     (case readSSE (aggregate_event sha ord) (\<lambda>_ a. (a, None)) bytes e (new_aggregation opts) of
        (a, Some (Inl err)) \<Rightarrow> Inl err
      | (a, Some (Inr _)) \<Rightarrow> Inl (plain_error [] [])
      | (a, None) \<Rightarrow>
          (case finishReasoningLoops sha ord (ag_state a) of
             (s, Some err) \<Rightarrow> Inl err
           | (s, None) \<Rightarrow>
               (case end_stream ord s of
                  Some err \<Rightarrow> Inl err
                | None \<Rightarrow> Inr (aggregate_response clock_id clock (a\<lparr>ag_state := s\<rparr>)))))"

end
