(* ===== verification/SseOut.thy ===== *)
theory SseOut
  imports SseStream
begin

text \<open>
  \<open>Stream\<close> of \<open>internal/upstream/sse.go\<close>: what the client receives, frame by frame. A frame is
  kept as the value that is encoded; the client's connection may fail at any write.
\<close>

subsection \<open>One name per tool call\<close>

definition strip_call :: "int \<Rightarrow> json \<Rightarrow> (int \<times> int) list \<Rightarrow> (int \<times> int) list \<times> json" where
  "strip_call choiceIndex tci seen =
     (case tci of
        JObj tc \<Rightarrow>
          let key = (choiceIndex, get_index 0 tc)
          in (case mget tc ''function'' of
                Some (JObj fn) \<Rightarrow>
                  if key \<in> set seen \<or> get_str fn ''name'' = []
                  then (seen, JObj (mput ''function'' (JObj (mdel ''name'' fn)) tc))
                  else (key # seen, JObj tc)
              | _ \<Rightarrow> (seen, JObj tc))
      | _ \<Rightarrow> (seen, tci))"

fun strip_calls :: "int \<Rightarrow> json list \<Rightarrow> (int \<times> int) list \<Rightarrow> (int \<times> int) list \<times> json list" where
  "strip_calls i [] seen = (seen, [])"
| "strip_calls i (c # cs) seen =
     (case strip_call i c seen of (s1, c') \<Rightarrow> (case strip_calls i cs s1 of (s2, cs') \<Rightarrow> (s2, c' # cs')))"

definition strip_choice :: "json \<Rightarrow> (int \<times> int) list \<Rightarrow> (int \<times> int) list \<times> json" where
  "strip_choice ci seen =
     (case ci of
        JObj c \<Rightarrow>
          (case mget c ''delta'' of
             Some (JObj delta) \<Rightarrow>
               (case mget delta ''tool_calls'' of
                  Some (JArr tcs) \<Rightarrow>
                    (case strip_calls (get_index 0 c) tcs seen of
                       (seen', tcs') \<Rightarrow>
                         (seen', JObj (mput ''delta'' (JObj (mput ''tool_calls'' (JArr tcs') delta)) c)))
                | _ \<Rightarrow> (seen, ci))
           | _ \<Rightarrow> (seen, ci))
      | _ \<Rightarrow> (seen, ci))"

fun strip_choices :: "json list \<Rightarrow> (int \<times> int) list \<Rightarrow> (int \<times> int) list \<times> json list" where
  "strip_choices [] seen = (seen, [])"
| "strip_choices (c # cs) seen =
     (case strip_choice c seen of (s1, c') \<Rightarrow> (case strip_choices cs s1 of (s2, cs') \<Rightarrow> (s2, c' # cs')))"

definition stripToolCallNames :: "obj \<Rightarrow> (int \<times> int) list \<Rightarrow> (int \<times> int) list \<times> obj" where
  "stripToolCallNames ob seen =
     (case mget ob ''choices'' of
        Some (JArr cs) \<Rightarrow> (case strip_choices cs seen of (seen', cs') \<Rightarrow> (seen', mput ''choices'' (JArr cs') ob))
      | _ \<Rightarrow> (seen, ob))"

subsection \<open>Normal frames\<close>

definition opt_field :: "string \<Rightarrow> obj \<Rightarrow> obj" where
  "opt_field k m = (case mget m k of None \<Rightarrow> [] | Some JNull \<Rightarrow> [] | Some v \<Rightarrow> [(k, v)])"

definition opt_str :: "string \<Rightarrow> obj \<Rightarrow> obj" where
  "opt_str k m = (if get_str m k \<noteq> [] then [(k, JStr (get_str m k))] else [])"

definition keep_function_call :: "json \<Rightarrow> bool" where
  "keep_function_call fc =
     (case fc of
        JNull \<Rightarrow> False
      | JObj m \<Rightarrow> get_str m ''name'' \<noteq> [] \<or> get_str m ''arguments'' \<noteq> []
      | _ \<Rightarrow> True)"

definition normalize_delta :: "obj \<Rightarrow> obj" where
  "normalize_delta d =
     concat (map (\<lambda>k. opt_str k d) [''role'', ''content'', ''reasoning_content'', ''refusal''])
     @ (case mget d ''tool_calls'' of Some (JArr (t # ts)) \<Rightarrow> [(''tool_calls'', JArr (t # ts))] | _ \<Rightarrow> [])
     @ (case mget d ''function_call'' of
          Some fc \<Rightarrow> if keep_function_call fc then [(''function_call'', fc)] else []
        | None \<Rightarrow> [])"

definition normalize_choice :: "json \<Rightarrow> json option" where
  "normalize_choice ci =
     (case ci of
        JObj c \<Rightarrow>
          let d = (case mget c ''delta'' of
                     Some (JObj d) \<Rightarrow> d
                   | _ \<Rightarrow> nested_of (mget c ''message''))
          in Some (JObj ((case mget c ''index'' of None \<Rightarrow> [] | Some i \<Rightarrow> [(''index'', i)])
               @ [(''delta'', JObj (normalize_delta d)),
                  (''finish_reason'', if get_str c ''finish_reason'' \<noteq> [] then JStr (get_str c ''finish_reason'') else JNull)]))
      | _ \<Rightarrow> None)"

definition meta_keys :: "string list" where
  "meta_keys = [''id'', ''object'', ''created'', ''model'', ''system_fingerprint'', ''service_tier'']"

definition or_field :: "string \<Rightarrow> json \<Rightarrow> obj \<Rightarrow> obj" where
  "or_field k v m = (if mget m k = None then m @ [(k, v)] else m)"

definition standard_frame :: "obj \<Rightarrow> obj" where
  "standard_frame ob =
     or_field ''id'' (JStr ''chatcmpl-wb2api'') (or_field ''object'' (JStr ''chat.completion.chunk'')
       (concat (map (\<lambda>k. opt_field k ob) meta_keys)))
     @ (case mget ob ''choices'' of
          Some (JArr cs) \<Rightarrow> [(''choices'', JArr (List.map_filter normalize_choice cs))] | _ \<Rightarrow> [])
     @ [(''usage'', case mget ob ''usage'' of Some u \<Rightarrow> u | None \<Rightarrow> JNull)]"

definition normalizeFrame :: "obj \<Rightarrow> obj" where
  "normalizeFrame ob =
     (case opt_field ''error'' ob of [] \<Rightarrow> standard_frame ob | err \<Rightarrow> err)"

subsection \<open>Writing\<close>

text \<open>
  \<open>json.Compact\<close>: the text without the white space between its tokens; the flags say whether the
  position is inside a string and after a backslash.
\<close>

fun compact :: "bool \<Rightarrow> bool \<Rightarrow> string \<Rightarrow> string" where
  "compact in_string esc [] = []"
| "compact in_string esc (c # s) =
     (if in_string then
        c # compact (esc \<or> c \<noteq> CHR 0x22) (\<not> esc \<and> c = CHR 0x5C) s
      else if json_space c then compact False False s
      else c # compact (c = CHR 0x22) False s)"

datatype sse_out = OFrame obj | ORaw string | OComment string | ODone

text \<open>The bytes of a write; \<open>marshal\<close> is \<open>json.Marshal\<close>.\<close>

definition writeRaw :: "string \<Rightarrow> string" where
  "writeRaw payload = ''data: '' @ payload @ [CHR 0x0A, CHR 0x0A]"

definition wire :: "(obj \<Rightarrow> string) \<Rightarrow> sse_out \<Rightarrow> string" where
  "wire marshal f =
     (case f of
        OFrame ob \<Rightarrow> writeRaw (marshal ob)
      | ORaw raw \<Rightarrow> writeRaw raw
      | OComment line \<Rightarrow> line @ [CHR 0x0A, CHR 0x0A]
      | ODone \<Rightarrow> writeRaw ''[DONE]'')"

text \<open>\<open>w_ok n\<close>: the write after \<open>n\<close> successful ones succeeds.\<close>

record streaming =
  sm_state :: streamState
  sm_seen :: "(int \<times> int) list"
  sm_firstID :: string
  sm_usage :: "obj option"
  sm_meta :: obj
  sm_out :: "sse_out list"

definition send :: "(nat \<Rightarrow> bool) \<Rightarrow> sse_out \<Rightarrow> streaming \<Rightarrow> streaming option" where
  "send w_ok f m = (if w_ok (length (sm_out m)) then Some (m\<lparr>sm_out := sm_out m @ [f]\<rparr>) else None)"

text \<open>The frame as it is sent: usage accumulated, no finish reason, one name per call, one id.\<close>

definition withhold_finish :: "obj \<Rightarrow> obj" where
  "withhold_finish ob =
     (case mget ob ''choices'' of
        Some (JArr cs) \<Rightarrow>
          mput ''choices'' (JArr (map (\<lambda>c. JObj (mput ''finish_reason'' JNull (nested_of (Some c)))) cs)) ob
      | _ \<Rightarrow> ob)"

definition fix_id :: "string \<Rightarrow> obj \<Rightarrow> string \<times> obj" where
  "fix_id firstID ob =
     (let i = get_str ob ''id''
      in if firstID = [] then (i, ob)
         else if i = [] then (firstID, mput ''id'' (JStr firstID) ob) else (firstID, ob))"

definition terminal_keys :: "string list" where
  "terminal_keys = [''id'', ''model'', ''created'', ''system_fingerprint'', ''service_tier'']"

definition note_terminal :: "obj \<Rightarrow> obj \<Rightarrow> obj" where
  "note_terminal ob meta =
     fold (\<lambda>k m. case mget ob k of None \<Rightarrow> m | Some JNull \<Rightarrow> m | Some v \<Rightarrow> mput k v m) terminal_keys meta"

definition accumulate_usage :: "obj \<Rightarrow> streaming \<Rightarrow> streaming \<times> obj" where
  "accumulate_usage ob m =
     (case mget ob ''usage'' of
        Some (JObj u) \<Rightarrow>
          let us = MergeUsage (sm_usage m) (Some u)
          in (m\<lparr>sm_usage := us\<rparr>, mput ''usage'' (JObj (or_nil us)) ob)
      | _ \<Rightarrow> (m, ob))"

text \<open>A client failure carries the error of the guard that came with it.\<close>

type_synonym client_failure = "stream_error option"

definition stream_chunk :: "(nat list \<Rightarrow> string) \<Rightarrow> (nat \<Rightarrow> bool) \<Rightarrow> obj \<Rightarrow> streaming
    \<Rightarrow> streaming \<times> bool \<times> client_failure failure option" where
  "stream_chunk sha w_ok chunk m =
     (case observe chunk (sm_state m) of
        Inl e \<Rightarrow> (m, True, Some (Inl e))
      | Inr (s, ob0) \<Rightarrow>
          (case accumulate_usage ob0 (m\<lparr>sm_state := s\<rparr>) of
             (m1, ob1) \<Rightarrow>
               (case observeReasoningLoops sha ob1 (sm_state m1) of
                  (s', guardErr) \<Rightarrow>
                    (case stripToolCallNames (withhold_finish ob1) (sm_seen m1) of
                       (seen', ob2) \<Rightarrow>
                         (case fix_id (sm_firstID m1) ob2 of
                            (fid, ob3) \<Rightarrow>
                              let m2 = m1\<lparr>sm_state := s', sm_seen := seen', sm_firstID := fid,
                                          sm_meta := note_terminal ob3 (sm_meta m1)\<rparr>
                              in case send w_ok (OFrame (normalizeFrame ob3)) m2 of
                                   None \<Rightarrow> (m2, True, Some (Inr guardErr))
                                 | Some m3 \<Rightarrow> (m3, guardErr \<noteq> None, map_option Inl guardErr))))))"

definition stream_event :: "(nat list \<Rightarrow> string) \<Rightarrow> (int list \<Rightarrow> int list) \<Rightarrow> (nat \<Rightarrow> bool) \<Rightarrow> (streaming, client_failure) consumer" where
  "stream_event sha ord w_ok ev m =
     (case decodeSSEEvent ev of
        DFail e \<Rightarrow> (m\<lparr>sm_state := (sm_state m)\<lparr>ss_done := False\<rparr>\<rparr>, True, Some (Inl e))
      | DDone \<Rightarrow>
          (case finishReasoningLoops sha ord ((sm_state m)\<lparr>ss_done := True\<rparr>) of
             (s, e) \<Rightarrow> (m\<lparr>sm_state := s\<rparr>, True, map_option Inl e))
      | DChunk chunk \<Rightarrow> stream_chunk sha w_ok chunk m)"

definition stream_comment :: "(nat \<Rightarrow> bool) \<Rightarrow> (streaming, client_failure) commenter" where
  "stream_comment w_ok line m =
     (case send w_ok (OComment line) m of None \<Rightarrow> (m, Some (Inr None)) | Some m' \<Rightarrow> (m', None))"

definition new_streaming :: "StreamOptions option \<Rightarrow> streaming" where
  "new_streaming opts =
     \<lparr>sm_state = newStreamState opts, sm_seen = [], sm_firstID = [], sm_usage = None, sm_meta = [], sm_out = []\<rparr>"

text \<open>The finish reasons, held back until the whole stream was accepted.\<close>

definition finish_entries :: "streamState \<Rightarrow> json list" where
  "finish_entries s =
     map (\<lambda>(i, c). JObj [(''index'', JInt i), (''delta'', JObj []), (''finish_reason'', JStr (ch_finishReason c))])
       (sort_key fst (filter (\<lambda>(i, c). ch_finishReason c \<noteq> []) (ss_choices s)))"

definition terminal_frame :: "streaming \<Rightarrow> obj option" where
  "terminal_frame m =
     (case finish_entries (sm_state m) of
        [] \<Rightarrow> None
      | es \<Rightarrow> Some (normalizeFrame (mput ''choices'' (JArr es) (sm_meta m))))"

definition error_frame :: "stream_error \<Rightarrow> sse_out" where
  "error_frame e =
     (case se_rawFrame e of
        Some (c # raw) \<Rightarrow> ORaw (compact False False (c # raw))
      | _ \<Rightarrow> OFrame [(''error'', JObj (ErrorObject e))])"

definition stream_error_of :: "client_failure failure \<Rightarrow> stream_error option" where
  "stream_error_of f = (case f of Inl e \<Rightarrow> Some e | Inr e \<Rightarrow> e)"

text \<open>The error frame, if there is an error to show, and \<open>[DONE]\<close>.\<close>

definition stream_close :: "(nat \<Rightarrow> bool) \<Rightarrow> client_failure failure option \<Rightarrow> streaming
    \<Rightarrow> streaming \<times> client_failure failure option" where
  "stream_close w_ok err m =
     (let finish = (\<lambda>m. case send w_ok ODone m of
           None \<Rightarrow> (m, Some (Inr (case err of None \<Rightarrow> None | Some f \<Rightarrow> stream_error_of f)))
         | Some m' \<Rightarrow> (m', err))
      in case err of
           None \<Rightarrow> finish m
         | Some f \<Rightarrow>
             (case stream_error_of f of
                None \<Rightarrow> (m, err)
              | Some e \<Rightarrow>
                  (case send w_ok (error_frame e) m of
                     None \<Rightarrow> (m, Some (Inr (Some e)))
                   | Some m' \<Rightarrow> finish m')))"

definition stream_finish :: "(nat list \<Rightarrow> string) \<Rightarrow> (int list \<Rightarrow> int list) \<Rightarrow> (nat \<Rightarrow> bool) \<Rightarrow> streaming \<Rightarrow> client_failure failure option
    \<Rightarrow> streaming \<times> client_failure failure option" where
  "stream_finish sha ord w_ok m err0 =
     (let (m1, err1) = (if err0 = None
            then (case finishReasoningLoops sha ord (sm_state m) of
                    (s, e) \<Rightarrow> (m\<lparr>sm_state := s\<rparr>, map_option Inl e))
            else (m, err0));
          err2 = (if err1 = None then map_option Inl (end_stream ord (sm_state m1)) else err1)
      in if err2 \<noteq> None then stream_close w_ok err2 m1
         else case terminal_frame m1 of
           None \<Rightarrow> stream_close w_ok None m1
         | Some fr \<Rightarrow>
             (case send w_ok (OFrame fr) m1 of
                None \<Rightarrow> (m1, Some (Inr None))
              | Some m2 \<Rightarrow> stream_close w_ok None m2))"

definition Stream :: "(nat list \<Rightarrow> string) \<Rightarrow> (int list \<Rightarrow> int list) \<Rightarrow> (nat \<Rightarrow> bool) \<Rightarrow> StreamOptions option \<Rightarrow> string \<Rightarrow> stream_end
    \<Rightarrow> sse_out list \<times> client_failure failure option" where
  "Stream sha ord w_ok opts bytes e =
     (case readSSE (stream_event sha ord w_ok) (stream_comment w_ok) bytes e (new_streaming opts) of
        (m, err) \<Rightarrow> (case stream_finish sha ord w_ok m err of (m', err') \<Rightarrow> (sm_out m', err')))"

end
