(* ===== verification/SseFacts.thy ===== *)
theory SseFacts
  imports SseOut
begin

text \<open>
  Reasoning about a whole stream: what every callback keeps, the reader keeps, and callbacks
  that answer alike are read alike. Both are stated once for any callbacks and interpreted on
  those of \<open>Stream\<close> and \<open>Aggregate\<close>.
\<close>

subsection \<open>Invariants of a reader\<close>

locale sse_reader =
  fixes consume :: "('s, 'w) consumer" and comment :: "('s, 'w) commenter"
    and I :: "'s \<Rightarrow> bool" and E :: "'w failure \<Rightarrow> bool"
  assumes consume_keeps: "I s \<Longrightarrow> consume ev s = (s', stop, err) \<Longrightarrow> I s' \<and> pred_option E err"
    and comment_keeps: "I s \<Longrightarrow> comment l s = (s', err) \<Longrightarrow> I s' \<and> pred_option E err"
    and read_error: "E (Inl (plain_error ''upstream_read_error'' ''upstream stream read failed''))"
begin

lemma dispatch_keeps: "I s \<Longrightarrow> dispatch consume dn s = (s', stop, err) \<Longrightarrow> I s' \<and> pred_option E err"
  using consume_keeps by (auto simp: dispatch_def split: if_splits)

lemma read_lines_keeps:
  "I s \<Longrightarrow> read_lines consume comment ls dn s = (s', r) \<Longrightarrow> I s' \<and> (case r of Inl _ \<Rightarrow> True | Inr err \<Rightarrow> pred_option E err)"
proof (induction ls arbitrary: dn s)
  case (Cons l ls)
  let ?line = "trim_suffix l [CHR 0x0D]"
  obtain s1 stop e where d: "dispatch consume dn s = (s1, stop, e)" by (cases "dispatch consume dn s")
  obtain s2 f where c: "comment ?line s = (s2, f)" by (cases "comment ?line s")
  consider (blank) "?line = []" | (comment) "?line \<noteq> []" "has_prefix ?line '':''"
    | (other) "?line \<noteq> []" "\<not> has_prefix ?line '':''" by blast
  then show ?case
  proof cases
    case blank
    show ?thesis
    proof (cases "e \<noteq> None \<or> stop")
      case True
      then show ?thesis using Cons.prems blank d dispatch_keeps [OF Cons.prems(1) d] by auto
    next
      case False
      then show ?thesis
        using Cons.prems blank d dispatch_keeps [OF Cons.prems(1) d] Cons.IH [of s1 "([], [])"] by simp
    qed
  next
    case comment
    then show ?thesis
      using Cons.prems c comment_keeps [OF Cons.prems(1) c] Cons.IH [of s2 dn] by (cases f) (auto simp: Let_def)
  next
    case other
    then show ?thesis using Cons.prems Cons.IH [of s "sse_field ?line dn"] by (simp add: Let_def)
  qed
qed auto

lemma read_rest_keeps:
  assumes "I s" "read_rest consume comment r e dn s = (s', err)"
  shows "I s' \<and> pred_option E err"
proof -
  have fin: "I t' \<and> pred_option E err'"
    if "I t" "(case e of AtEOF \<Rightarrow> (case dispatch consume dn' t of (s', stop, err) \<Rightarrow> (s', err))
        | ReadError \<Rightarrow> (t, Some (Inl (plain_error ''upstream_read_error'' ''upstream stream read failed'')))) = (t', err')"
    for dn' t t' err'
    using that dispatch_keeps [of t dn'] read_error by (auto split: stream_end.splits prod.splits)
  obtain s2 f where c: "comment (trim_suffix r [CHR 0x0D]) s = (s2, f)"
    by (cases "comment (trim_suffix r [CHR 0x0D]) s")
  consider (comment) "has_prefix (trim_suffix r [CHR 0x0D]) '':''"
    | (other) "\<not> has_prefix (trim_suffix r [CHR 0x0D]) '':''" by blast
  then show ?thesis
  proof cases
    case comment
    then show ?thesis
      using assms comment_keeps [OF assms(1) c] c fin [of s2 dn] by (cases f) (auto simp: read_rest_def Let_def)
  next
    case other
    then show ?thesis
      using assms fin [OF assms(1), of dn] fin [OF assms(1), of "sse_field (trim_suffix r [CHR 0x0D]) dn"]
      by (auto simp: read_rest_def Let_def split: if_splits)
  qed
qed

theorem readSSE_keeps:
  assumes "I s" "readSSE consume comment bytes e s = (s', err)"
  shows "I s' \<and> pred_option E err"
proof -
  obtain ls r where l: "split_lines bytes = (ls, r)" by (cases "split_lines bytes")
  obtain s1 x where x: "read_lines consume comment ls ([], []) s = (s1, x)"
    by (cases "read_lines consume comment ls ([], []) s")
  show ?thesis
    using assms read_lines_keeps [OF assms(1) x] read_rest_keeps [of s1 r e _ s' err]
    by (cases x) (auto simp: readSSE_def l x)
qed

end

subsection \<open>Readers that answer alike\<close>

definition alike :: "('v failure \<Rightarrow> 'w failure \<Rightarrow> bool) \<Rightarrow> 'v failure option \<Rightarrow> 'w failure option \<Rightarrow> bool" where
  "alike E f g \<longleftrightarrow> f = None \<and> g = None \<or> (\<exists>x y. f = Some x \<and> g = Some y \<and> E x y)"

text \<open>The same error of the stream.\<close>

definition same_error :: "'v failure \<Rightarrow> 'w failure \<Rightarrow> bool" where
  "same_error x y \<longleftrightarrow> (\<exists>e. x = Inl e \<and> y = Inl e)"

lemma alike_simps [simp]: "alike E None None" "alike E (Some x) (Some y) \<longleftrightarrow> E x y"
    "alike E f None \<longleftrightarrow> f = None" "alike E None g \<longleftrightarrow> g = None"
  by (auto simp: alike_def)

lemma same_error_simps [simp]: "same_error (Inl e) (Inl e') \<longleftrightarrow> e = e'" "alike same_error (map_option Inl x) (map_option Inl x)"
  by (cases x; auto simp: same_error_def)+

locale sse_simulation =
  fixes consume1 :: "('s, 'v) consumer" and comment1 :: "('s, 'v) commenter"
    and consume2 :: "('t, 'w) consumer" and comment2 :: "('t, 'w) commenter"
    and R :: "'s \<Rightarrow> 't \<Rightarrow> bool" and E :: "'v failure \<Rightarrow> 'w failure \<Rightarrow> bool"
  assumes consume_alike: "R s t \<Longrightarrow> consume1 ev s = (s', stop, f) \<Longrightarrow> consume2 ev t = (t', stop', g) \<Longrightarrow>
      alike E f g \<and> (f = None \<longrightarrow> R s' t' \<and> stop = stop')"
    and comment_alike: "R s t \<Longrightarrow> comment1 l s = (s', f) \<Longrightarrow> comment2 l t = (t', g) \<Longrightarrow>
      f = None \<and> g = None \<and> R s' t'"
    and error_alike: "E (Inl x) (Inl x)"
begin

lemma dispatch_alike:
  "R s t \<Longrightarrow> dispatch consume1 dn s = (s', stop, f) \<Longrightarrow> dispatch consume2 dn t = (t', stop', g) \<Longrightarrow>
   alike E f g \<and> (f = None \<longrightarrow> R s' t' \<and> stop = stop')"
  using consume_alike [of s t] by (cases "fst dn = []") (simp_all add: dispatch_def)

text \<open>After an error only the error counts.\<close>

definition results :: "'s \<times> (string list \<times> string + 'v failure option) \<Rightarrow> 't \<times> (string list \<times> string + 'w failure option) \<Rightarrow> bool" where
  "results x y \<longleftrightarrow>
     (case (snd x, snd y) of
        (Inl dn, Inl dn') \<Rightarrow> dn = dn' \<and> R (fst x) (fst y)
      | (Inr f, Inr g) \<Rightarrow> alike E f g \<and> (f = None \<longrightarrow> R (fst x) (fst y))
      | _ \<Rightarrow> False)"

lemma read_lines_alike:
  "R s t \<Longrightarrow> results (read_lines consume1 comment1 ls dn s) (read_lines consume2 comment2 ls dn t)"
proof (induction ls arbitrary: dn s t)
  case Nil
  then show ?case by (simp add: results_def)
next
  case (Cons l ls)
  let ?line = "trim_suffix l [CHR 0x0D]"
  obtain s1 stop f where d1: "dispatch consume1 dn s = (s1, stop, f)" by (cases "dispatch consume1 dn s")
  obtain t1 stop' g where d2: "dispatch consume2 dn t = (t1, stop', g)" by (cases "dispatch consume2 dn t")
  obtain s2 f2 where c1: "comment1 ?line s = (s2, f2)" by (cases "comment1 ?line s")
  obtain t2 g2 where c2: "comment2 ?line t = (t2, g2)" by (cases "comment2 ?line t")
  note d = dispatch_alike [OF Cons.prems d1 d2]
  note c = comment_alike [OF Cons.prems c1 c2]
  show ?case
  proof (cases "?line = []")
    case True
    show ?thesis
    proof (cases "f = None \<and> \<not> stop")
      case t: True
      then have "g = None" "\<not> stop'" "R s1 t1" using d by simp_all
      then show ?thesis using True t d1 d2 Cons.IH by simp
    next
      case False
      then show ?thesis using True d d1 d2 by (auto simp: results_def)
    qed
  next
    case False
    then show ?thesis using c c1 c2 Cons.IH Cons.prems by (simp add: Let_def)
  qed
qed

lemma finish_alike:
  assumes "R s t"
  shows "results (apsnd Inr (case e of AtEOF \<Rightarrow> (case dispatch consume1 dn s of (s', stop, err) \<Rightarrow> (s', err))
        | ReadError \<Rightarrow> (s, Some (Inl (plain_error c m)))))
      (apsnd Inr (case e of AtEOF \<Rightarrow> (case dispatch consume2 dn t of (s', stop, err) \<Rightarrow> (s', err))
        | ReadError \<Rightarrow> (t, Some (Inl (plain_error c m)))))"
proof (cases e)
  case AtEOF
  obtain s1 stop f where d1: "dispatch consume1 dn s = (s1, stop, f)" by (cases "dispatch consume1 dn s")
  obtain t1 stop' g where d2: "dispatch consume2 dn t = (t1, stop', g)" by (cases "dispatch consume2 dn t")
  show ?thesis using dispatch_alike [OF assms d1 d2] AtEOF d1 d2 by (auto simp: results_def)
qed (simp add: results_def error_alike)

lemma read_rest_alike:
  assumes "R s t"
  shows "results (apsnd Inr (read_rest consume1 comment1 r e dn s)) (apsnd Inr (read_rest consume2 comment2 r e dn t))"
proof -
  let ?line = "trim_suffix r [CHR 0x0D]"
  obtain s2 f2 where c1: "comment1 ?line s = (s2, f2)" by (cases "comment1 ?line s")
  obtain t2 g2 where c2: "comment2 ?line t = (t2, g2)" by (cases "comment2 ?line t")
  show ?thesis
    using comment_alike [OF assms c1 c2] c1 c2 finish_alike [OF assms] finish_alike [of s2 t2]
    by (simp add: read_rest_def Let_def)
qed

theorem readSSE_alike:
  assumes "R s t" "readSSE consume1 comment1 bytes e s = (s', f)" "readSSE consume2 comment2 bytes e t = (t', g)"
  shows "alike E f g \<and> (f = None \<longrightarrow> R s' t')"
proof -
  obtain ls r where l: "split_lines bytes = (ls, r)" by (cases "split_lines bytes")
  obtain s1 x where x: "read_lines consume1 comment1 ls ([], []) s = (s1, x)"
    by (cases "read_lines consume1 comment1 ls ([], []) s")
  obtain t1 y where y: "read_lines consume2 comment2 ls ([], []) t = (t1, y)"
    by (cases "read_lines consume2 comment2 ls ([], []) t")
  have r1: "results (s1, x) (t1, y)" using read_lines_alike [OF assms(1), of ls "([], [])"] x y by simp
  show ?thesis
  proof (cases x)
    case (Inl dn)
    with r1 have "y = Inl dn" "R s1 t1" by (cases y; simp add: results_def)+
    with read_rest_alike [of s1 t1 r e dn] Inl show ?thesis
      using assms(2,3) by (auto simp: readSSE_def l x y results_def)
  next
    case (Inr f')
    with r1 obtain g' where "y = Inr g'" "alike E f' g'" "f' = None \<longrightarrow> R s1 t1"
      by (cases y) (simp_all add: results_def)
    with Inr show ?thesis using assms(2,3) by (auto simp: readSSE_def l x y)
  qed
qed

end

subsection \<open>The two consumers\<close>

abbreviation good_client :: "nat \<Rightarrow> bool" where "good_client \<equiv> \<lambda>_. True"

lemma send_good [simp]: "send good_client f m = Some (m\<lparr>sm_out := sm_out m @ [f]\<rparr>)"
  by (simp add: send_def)

text \<open>The guard looks at the choices only.\<close>

lemma guard_choices_only:
  "mget ob ''choices'' = mget ob' ''choices'' \<Longrightarrow> observeReasoningLoops sha ob s = observeReasoningLoops sha ob' s"
  by (simp add: observeReasoningLoops_def frame_choices_def)

lemma accumulate_usage_frame:
  assumes "accumulate_usage ob m = (m', ob')"
  shows "sm_state m' = sm_state m" "sm_seen m' = sm_seen m" "sm_out m' = sm_out m" "sm_firstID m' = sm_firstID m"
    "sm_meta m' = sm_meta m" "\<And>k. k \<noteq> ''usage'' \<Longrightarrow> mget ob' k = mget ob k"
  using assms by (auto simp: accumulate_usage_def Let_def split: option.splits json.splits)

text \<open>A chunk under a client that takes everything: the frame sent and the state after it.\<close>

definition frame_of :: "obj \<Rightarrow> streaming \<Rightarrow> obj" where
  "frame_of ob m = snd (fix_id (sm_firstID m) (snd (stripToolCallNames (withhold_finish ob) (sm_seen m))))"

lemma stream_chunk_good:
  assumes "stream_chunk sha good_client chunk m = (m', stop, err)"
  obtains (failed) e where "observe chunk (sm_state m) = Inl e" "m' = m" "err = Some (Inl e)"
  | (sent) s ob0 m1 ob1 guardErr where "observe chunk (sm_state m) = Inr (s, ob0)"
      "accumulate_usage ob0 (m\<lparr>sm_state := s\<rparr>) = (m1, ob1)"
      "observeReasoningLoops sha ob1 s = (sm_state m', guardErr)"
      "sm_out m' = sm_out m @ [OFrame (normalizeFrame (frame_of ob1 m1))]"
      "sm_seen m' = fst (stripToolCallNames (withhold_finish ob1) (sm_seen m1))"
      "err = map_option Inl guardErr" "stop = (guardErr \<noteq> None)"
proof (cases "observe chunk (sm_state m)")
  case (Inl e)
  have "stream_chunk sha good_client chunk m = (m, True, Some (Inl e))"
    unfolding stream_chunk_def Inl by simp
  then show ?thesis using assms by (intro failed [OF Inl]) simp_all
next
  case (Inr so)
  obtain s ob0 where so: "so = (s, ob0)" by (cases so)
  obtain m1 ob1 where a: "accumulate_usage ob0 (m\<lparr>sm_state := s\<rparr>) = (m1, ob1)"
    by (cases "accumulate_usage ob0 (m\<lparr>sm_state := s\<rparr>)")
  obtain s' ge where g: "observeReasoningLoops sha ob1 (sm_state m1) = (s', ge)"
    by (cases "observeReasoningLoops sha ob1 (sm_state m1)")
  obtain seen' ob2 where n: "stripToolCallNames (withhold_finish ob1) (sm_seen m1) = (seen', ob2)"
    by (cases "stripToolCallNames (withhold_finish ob1) (sm_seen m1)")
  obtain fid ob3 where i: "fix_id (sm_firstID m1) ob2 = (fid, ob3)" by (cases "fix_id (sm_firstID m1) ob2")
  note keep = accumulate_usage_frame [OF a]
  have "stream_chunk sha good_client chunk m =
      (m1\<lparr>sm_state := s', sm_seen := seen', sm_firstID := fid, sm_meta := note_terminal ob3 (sm_meta m1),
          sm_out := sm_out m1 @ [OFrame (normalizeFrame ob3)]\<rparr>, ge \<noteq> None, map_option Inl ge)"
    unfolding stream_chunk_def Inr so sum.case prod.case a g n i Let_def send_good option.case by simp
  then have m': "sm_state m' = s'" "sm_out m' = sm_out m1 @ [OFrame (normalizeFrame ob3)]" "sm_seen m' = seen'"
      "err = map_option Inl ge" "stop = (ge \<noteq> None)"
    using assms by auto
  have fr: "frame_of ob1 m1 = ob3" by (simp add: frame_of_def n i)
  show ?thesis
  proof (rule sent)
    show "observe chunk (sm_state m) = Inr (s, ob0)" by (simp add: Inr so)
    show "accumulate_usage ob0 (m\<lparr>sm_state := s\<rparr>) = (m1, ob1)" by (rule a)
    show "observeReasoningLoops sha ob1 s = (sm_state m', ge)" using g keep m' by simp
    show "sm_out m' = sm_out m @ [OFrame (normalizeFrame (frame_of ob1 m1))]"
      using keep(3) m'(2) fr by simp
    show "sm_seen m' = fst (stripToolCallNames (withhold_finish ob1) (sm_seen m1))" using m' n by simp
  qed (use m' in simp_all)
qed

end
