(* ===== verification/SseShape.thy ===== *)
theory SseShape
  imports SseFacts
begin

text \<open>
  The shape of what \<open>Stream\<close> sends to a client that takes everything: frames, comments, then the
  terminal frame or the error, then \<open>[DONE]\<close>.
\<close>

subsection \<open>The two consumers as readers\<close>

definition closing :: "(nat list \<Rightarrow> string) \<Rightarrow> (int list \<Rightarrow> int list) \<Rightarrow> streamState \<Rightarrow> streamState \<times> stream_error option" where
  "closing sha ord s =
     (case finishReasoningLoops sha ord s of
        (s', Some e) \<Rightarrow> (s', Some e)
      | (s', None) \<Rightarrow> (s', end_stream ord s'))"

lemma stream_comment_good [simp]: "stream_comment good_client l m = (m\<lparr>sm_out := sm_out m @ [OComment l]\<rparr>, None)"
  by (simp add: stream_comment_def)

lemma isl_map_Inl [simp]: "pred_option isl (map_option Inl x)"
  by (cases x) simp_all

lemma stream_event_good:
  assumes "stream_event sha ord good_client ev m = (m', stop, err)"
  obtains (stopped) "sm_out m' = sm_out m" "sm_seen m' = sm_seen m" "sm_meta m' = sm_meta m" "pred_option isl err" "stop"
  | (sent) chunk where "decodeSSEEvent ev = DChunk chunk" "stream_chunk sha good_client chunk m = (m', stop, err)"
  using assms
  by (cases "decodeSSEEvent ev") (auto simp: stream_event_def split: prod.splits)

text \<open>An invariant of \<open>Stream\<close>'s reading is one of what it sent and of what it remembers.\<close>

locale stream_invariant =
  fixes sha :: "nat list \<Rightarrow> string" and ord :: "int list \<Rightarrow> int list" and J :: "streaming \<Rightarrow> bool"
  assumes chunk_keeps: "J m \<Longrightarrow> decodeSSEEvent ev = DChunk chunk \<Longrightarrow>
      stream_chunk sha good_client chunk m = (m', stop, err) \<Longrightarrow> J m'"
    and same_keeps: "J m \<Longrightarrow> sm_out m' = sm_out m \<Longrightarrow> sm_seen m' = sm_seen m \<Longrightarrow> sm_meta m' = sm_meta m \<Longrightarrow> J m'"
    and comment_keeps: "J m \<Longrightarrow> J (m\<lparr>sm_out := sm_out m @ [OComment l]\<rparr>)"
begin

lemma chunk_error: "stream_chunk sha good_client chunk m = (m', stop, err) \<Longrightarrow> pred_option isl err"
  by (erule stream_chunk_good) simp_all

lemma event_keeps:
  assumes "J m" "stream_event sha ord good_client ev m = (m', stop, err)"
  shows "J m' \<and> pred_option isl err"
  using assms(2)
proof (cases rule: stream_event_good)
  case stopped
  then show ?thesis using same_keeps [OF assms(1)] by simp
next
  case sent
  then show ?thesis using chunk_keeps [OF assms(1)] chunk_error by simp
qed

end

sublocale stream_invariant \<subseteq> reader: sse_reader "stream_event sha ord good_client" "stream_comment good_client" J isl
  by unfold_locales (use event_keeps comment_keeps in auto)

subsection \<open>The end of a stream\<close>

definition terminal_out :: "streaming \<Rightarrow> sse_out list" where
  "terminal_out m = (case terminal_frame m of None \<Rightarrow> [] | Some fr \<Rightarrow> [OFrame fr])"

lemma stream_close_good:
  "stream_close good_client None m = (m\<lparr>sm_out := sm_out m @ [ODone]\<rparr>, None)"
  "stream_close good_client (Some (Inl x)) m = (m\<lparr>sm_out := sm_out m @ [error_frame x, ODone]\<rparr>, Some (Inl x))"
  by (simp_all add: stream_close_def stream_error_of_def Let_def)

lemma stream_finish_good:
  "stream_finish sha ord good_client m (Some (Inl x)) = (m\<lparr>sm_out := sm_out m @ [error_frame x, ODone]\<rparr>, Some (Inl x))"
  "closing sha ord (sm_state m) = (s, Some x) \<Longrightarrow>
     stream_finish sha ord good_client m None = (m\<lparr>sm_state := s, sm_out := sm_out m @ [error_frame x, ODone]\<rparr>, Some (Inl x))"
  "closing sha ord (sm_state m) = (s, None) \<Longrightarrow>
     stream_finish sha ord good_client m None =
       (m\<lparr>sm_state := s, sm_out := sm_out m @ terminal_out (m\<lparr>sm_state := s\<rparr>) @ [ODone]\<rparr>, None)"
  by (auto simp: stream_finish_def closing_def stream_close_good terminal_out_def split: prod.splits option.splits)

text \<open>What was sent while reading, and how it ended.\<close>

lemma Stream_good:
  assumes "readSSE (stream_event sha ord good_client) (stream_comment good_client) bytes e (new_streaming opts) = (m, err0)"
    "pred_option isl err0"
  shows "Stream sha ord good_client opts bytes e =
     (case err0 of
        Some f \<Rightarrow> (sm_out m @ [error_frame (projl f), ODone], Some (Inl (projl f)))
      | None \<Rightarrow>
          (case closing sha ord (sm_state m) of
             (s, Some x) \<Rightarrow> (sm_out m @ [error_frame x, ODone], Some (Inl x))
           | (s, None) \<Rightarrow> (sm_out m @ terminal_out (m\<lparr>sm_state := s\<rparr>) @ [ODone], None)))"
proof (cases err0)
  case None
  obtain s x where c: "closing sha ord (sm_state m) = (s, x)" by (cases "closing sha ord (sm_state m)")
  show ?thesis
    using assms None c by (cases x) (simp_all add: Stream_def stream_finish_good)
next
  case (Some f)
  then obtain x where "f = Inl x" using assms(2) by (cases f) auto
  then show ?thesis using assms Some by (simp add: Stream_def stream_finish_good)
qed

lemma Aggregate_closing:
  "Aggregate sha ord clock_id clock opts bytes e =
     (case readSSE (aggregate_event sha ord) (\<lambda>_ a. (a, None)) bytes e (new_aggregation opts) of
        (a, Some f) \<Rightarrow> Inl (case f of Inl x \<Rightarrow> x | Inr _ \<Rightarrow> plain_error [] [])
      | (a, None) \<Rightarrow>
          (case closing sha ord (ag_state a) of
             (s, Some x) \<Rightarrow> Inl x
           | (s, None) \<Rightarrow> Inr (aggregate_response clock_id clock (a\<lparr>ag_state := s\<rparr>))))"
  by (auto simp: Aggregate_def closing_def split: prod.splits option.splits sum.splits)

subsection \<open>Choices of a frame\<close>

abbreviation choices_of :: "obj \<Rightarrow> json list" where
  "choices_of ob \<equiv> array_of (mget ob ''choices'')"

lemma mget_opt_field: "mget (opt_field k m) k' = (if k' = k \<and> mget m k \<noteq> Some JNull then mget m k else None)"
  by (auto simp: opt_field_def split: option.splits json.splits)

lemma mget_or_field: "mget (or_field k v m) k' = (if k' = k \<and> mget m k = None then Some v else mget m k')"
  by (auto simp: or_field_def map_add_def split: option.splits)

lemma choices_standard: "choices_of (standard_frame ob) = List.map_filter normalize_choice (choices_of ob)"
  by (auto simp: standard_frame_def map_add_def mget_or_field mget_opt_field meta_keys_def array_of_def
      map_filter_simps split: option.splits json.splits)

lemma choices_normalizeFrame:
  "choices_of (normalizeFrame ob) =
     (if opt_field ''error'' ob = [] then List.map_filter normalize_choice (choices_of ob) else [])"
proof (cases "opt_field ''error'' ob")
  case (Cons p ps)
  then have "mget (p # ps) ''choices'' = None" using mget_opt_field [of "''error''" ob "''choices''"] by simp
  then show ?thesis using Cons by (simp add: normalizeFrame_def array_of_def)
qed (simp add: normalizeFrame_def choices_standard)

definition withheld :: "json \<Rightarrow> json" where
  "withheld c = JObj (mput ''finish_reason'' JNull (nested_of (Some c)))"

lemma choices_withhold: "choices_of (withhold_finish ob) = map withheld (choices_of ob)"
  by (auto simp: withhold_finish_def withheld_def array_of_def split: option.splits json.splits)

lemma choices_strip:
  "choices_of (snd (stripToolCallNames ob seen)) = snd (strip_choices (choices_of ob) seen)"
  "fst (stripToolCallNames ob seen) = fst (strip_choices (choices_of ob) seen)"
  by (auto simp: stripToolCallNames_def array_of_def split: option.splits json.splits prod.splits)

lemma choices_fix_id: "choices_of (snd (fix_id i ob)) = choices_of ob"
  by (auto simp: fix_id_def Let_def)

lemma choices_frame_of: "choices_of (frame_of ob m) = snd (strip_choices (map withheld (choices_of ob)) (sm_seen m))"
  by (simp add: frame_of_def choices_fix_id choices_strip choices_withhold)

lemma mget_frame_of: "k \<notin> {''choices'', ''id''} \<Longrightarrow> mget (frame_of ob m) k = mget ob k"
  by (auto simp: frame_of_def fix_id_def Let_def stripToolCallNames_def withhold_finish_def
      split: option.splits json.splits prod.splits)

text \<open>What stripping leaves alone: every field of a choice but its delta.\<close>

lemma strip_choice_field:
  "k \<noteq> ''delta'' \<Longrightarrow> mget (nested_of (Some (snd (strip_choice c seen)))) k = mget (nested_of (Some c)) k"
  by (auto simp: strip_choice_def nested_of_def split: json.splits option.splits prod.splits)

lemma set_strip_choices:
  "c' \<in> set (snd (strip_choices cs seen)) \<Longrightarrow> \<exists>c \<in> set cs. \<exists>seen'. c' = snd (strip_choice c seen')"
proof (induction cs arbitrary: seen)
  case (Cons c cs)
  obtain s1 c1 where s: "strip_choice c seen = (s1, c1)" by (cases "strip_choice c seen")
  obtain s2 cs2 where t: "strip_choices cs s1 = (s2, cs2)" by (cases "strip_choices cs s1")
  have "c' = c1 \<or> c' \<in> set cs2" using Cons.prems s t by simp
  then show ?case
  proof
    assume "c' = c1"
    then show ?thesis using s by (intro bexI [of _ c] exI [of _ seen]) simp_all
  next
    assume "c' \<in> set cs2"
    then show ?thesis using Cons.IH [of s1] t by auto
  qed
qed simp

definition part_of :: "obj \<Rightarrow> obj" where
  "part_of c = (case mget c ''delta'' of Some (JObj d) \<Rightarrow> d | _ \<Rightarrow> nested_of (mget c ''message''))"

lemma normalize_choice_fields:
  assumes "normalize_choice (JObj m) = Some c'"
  obtains n where "c' = JObj n" "mget n ''index'' = mget m ''index''"
    "mget n ''delta'' = Some (JObj (normalize_delta (part_of m)))"
    "mget n ''finish_reason'' = Some (if get_str m ''finish_reason'' \<noteq> [] then JStr (get_str m ''finish_reason'') else JNull)"
proof (rule that)
  let ?n = "(case mget m ''index'' of None \<Rightarrow> [] | Some i \<Rightarrow> [(''index'', i)])
     @ [(''delta'', JObj (normalize_delta (part_of m))),
        (''finish_reason'', if get_str m ''finish_reason'' \<noteq> [] then JStr (get_str m ''finish_reason'') else JNull)]"
  show "c' = JObj ?n" using assms by (simp add: normalize_choice_def part_of_def)
  show "mget ?n ''index'' = mget m ''index''" by (cases "mget m ''index''") simp_all
  show "mget ?n ''delta'' = Some (JObj (normalize_delta (part_of m)))" by (cases "mget m ''index''") simp_all
  show "mget ?n ''finish_reason'' = Some (if get_str m ''finish_reason'' \<noteq> [] then JStr (get_str m ''finish_reason'') else JNull)"
    by (cases "mget m ''index''") simp_all
qed

text \<open>The terminal frame carries finish reasons only.\<close>

lemma terminal_deltas:
  assumes "terminal_frame m = Some fr" "c' \<in> set (choices_of fr)"
  shows "nested_of (mget (nested_of (Some c')) ''delta'') = []"
proof -
  have arr: "choices_of (mput ''choices'' (JArr es) meta) = es" for es meta by (simp add: array_of_def)
  have fr: "fr = normalizeFrame (mput ''choices'' (JArr (finish_entries (sm_state m))) (sm_meta m))"
    using assms(1) by (simp add: terminal_frame_def split: list.splits)
  then have "c' \<in> set (List.map_filter normalize_choice (finish_entries (sm_state m)))"
    using assms(2) unfolding fr choices_normalizeFrame arr by (simp split: if_splits)
  then obtain c where c: "c \<in> set (finish_entries (sm_state m))" "normalize_choice c = Some c'"
    by (auto simp: List.map_filter_def)
  obtain j r where j: "c = JObj [(''index'', JInt j), (''delta'', JObj []), (''finish_reason'', JStr r)]"
    using c(1) by (auto simp: finish_entries_def)
  show ?thesis
    using c(2) unfolding j
    by (rule normalize_choice_fields) (simp add: nested_of_def part_of_def normalize_delta_def opt_str_def get_str_def str_or_empty_def)
qed

subsection \<open>Finish reasons\<close>

definition reason_of :: "json \<Rightarrow> string" where
  "reason_of c = get_str (nested_of (Some c)) ''finish_reason''"

text \<open>A frame of the gateway without a finish reason; of the vendor's own words nothing is known.\<close>

definition finish_free :: "sse_out \<Rightarrow> bool" where
  "finish_free f =
     (case f of
        OFrame ob \<Rightarrow> list_all (\<lambda>c. reason_of c = []) (choices_of ob)
      | ORaw raw \<Rightarrow> False
      | OComment line \<Rightarrow> True
      | ODone \<Rightarrow> True)"

lemma reason_normalize:
  assumes "normalize_choice c = Some c'"
  shows "reason_of c' = reason_of c"
proof (cases c)
  case (JObj m)
  obtain n where n: "c' = JObj n"
      "mget n ''finish_reason'' = Some (if get_str m ''finish_reason'' \<noteq> [] then JStr (get_str m ''finish_reason'') else JNull)"
    using assms JObj by (auto elim: normalize_choice_fields)
  then show ?thesis by (simp add: JObj reason_of_def nested_of_def get_str_def str_or_empty_def)
qed (use assms in \<open>simp_all add: normalize_choice_def\<close>)

lemma chunk_frame_finish_free: "finish_free (OFrame (normalizeFrame (frame_of ob m)))"
proof -
  have "reason_of c = []" if "c \<in> set (snd (strip_choices (map withheld cs) seen))" for c cs seen
  proof -
    obtain d s where d: "c = snd (strip_choice (withheld d) s)" using set_strip_choices [OF \<open>c \<in> _\<close>] by auto
    then have "reason_of c = reason_of (withheld d)" by (simp add: reason_of_def get_str_def strip_choice_field)
    then show ?thesis by (simp add: reason_of_def withheld_def nested_of_def get_str_def str_or_empty_def)
  qed
  then show ?thesis
    by (auto simp: finish_free_def choices_normalizeFrame choices_frame_of list_all_iff List.map_filter_def reason_normalize)
qed

text \<open>An error is shown in the vendor's words, if it sent any, or as an error object without choices.\<close>

lemma error_frame_words:
  "finish_free (error_frame x) \<or> (\<exists>raw. se_rawFrame x = Some raw \<and> error_frame x = ORaw (compact False False raw))"
  by (auto simp: finish_free_def error_frame_def array_of_def split: option.splits list.splits)

lemma finish_free_simps [simp]: "finish_free ODone" "finish_free (OComment l)"
  by (simp_all add: finish_free_def)

text \<open>While reading, only frames without a finish reason and comments are sent.\<close>

definition reading_out :: "streaming \<Rightarrow> bool" where
  "reading_out m \<longleftrightarrow> list_all finish_free (sm_out m) \<and> ODone \<notin> set (sm_out m)"

interpretation reading: stream_invariant sha ord reading_out for sha ord
proof unfold_locales
  fix m ev chunk m' stop err
  assume *: "reading_out m" "stream_chunk sha good_client chunk m = (m', stop, err)"
  from *(2) show "reading_out m'"
    by (cases rule: stream_chunk_good) (use *(1) chunk_frame_finish_free in \<open>simp_all add: reading_out_def\<close>)
qed (simp_all add: reading_out_def)

lemma reading_start: "reading_out (new_streaming opts)"
  by (simp add: reading_out_def new_streaming_def)

end
