(* ===== verification/SseText.thy ===== *)
theory SseText
  imports SseShape
begin

text \<open>
  The text of an answer: what the deltas of the frames add up to is what the state of the
  stream has collected, choice by choice and field by field.
\<close>

named_theorems texts "how an operation of the stream changes the collected text"

subsection \<open>Text of a delta, a choice, a frame\<close>

definition delta_text :: "string \<Rightarrow> obj \<Rightarrow> string" where
  "delta_text k d = concat (map (\<lambda>(k', v). if k' = k then str_or_empty (Some v) else []) d)"

definition choice_text :: "int \<Rightarrow> string \<Rightarrow> json \<Rightarrow> string" where
  "choice_text i k v =
     (let c = nested_of (Some v) in if get_index 0 c = i then get_str (nested_of (mget c ''delta'')) k else [])"

definition frame_text :: "int \<Rightarrow> string \<Rightarrow> obj \<Rightarrow> string" where
  "frame_text i k ob = concat (map (choice_text i k) (choices_of ob))"

definition sent_text :: "int \<Rightarrow> string \<Rightarrow> sse_out list \<Rightarrow> string" where
  "sent_text i k out = concat (map (\<lambda>f. case f of OFrame ob \<Rightarrow> frame_text i k ob | _ \<Rightarrow> []) out)"

definition text_at :: "choices \<Rightarrow> int \<Rightarrow> string \<Rightarrow> string" where
  "text_at cs i k = text_of (choice_at i cs) k"

lemma delta_text_append [simp]: "delta_text k (d @ d') = delta_text k d @ delta_text k d'"
  by (simp add: delta_text_def)

lemma delta_text_Nil [simp]: "delta_text k [] = []"
  by (simp add: delta_text_def)

lemma delta_text_one [simp]: "delta_text k [(k', v)] = (if k' = k then str_or_empty (Some v) else [])"
  by (simp add: delta_text_def)

lemma str_or_empty_simps [simp]: "str_or_empty None = []" "str_or_empty (Some (JStr s)) = s"
  by (simp_all add: str_or_empty_def)

lemma sent_text_append [simp]: "sent_text i k (out @ out') = sent_text i k out @ sent_text i k out'"
  by (simp add: sent_text_def)

lemma sent_text_simps [simp]: "sent_text i k [] = []" "sent_text i k [OFrame ob] = frame_text i k ob"
    "sent_text i k [OComment l] = []" "sent_text i k [ODone] = []"
  by (simp_all add: sent_text_def)

text \<open>Tools, functions and roles have keys of their own.\<close>

lemma other_keys: "k \<in> set text_keys \<Longrightarrow> k \<noteq> ''role'' \<and> k \<noteq> ''tool_calls'' \<and> k \<noteq> ''function_call''
    \<and> k \<noteq> ''index'' \<and> k \<noteq> ''finish_reason''"
  by (auto simp: text_keys_def)

subsection \<open>Observing an output\<close>

lemma append_text_value: "append_text v snapshot t = Inr (t', a) \<Longrightarrow> st_value t' = st_value t @ a"
  by (auto simp: append_text_def Let_def split: if_splits)

lemma observe_text_value:
  assumes "observe_text key out w c = Inr (c', d, p)"
  shows "text_of c' k = text_of c k @ delta_text k d"
proof (cases "mget out key")
  case (Some v)
  show ?thesis
  proof (cases v)
    case (JStr s)
    let ?t = "case mget (ch_text c) key of None \<Rightarrow> empty_text | Some t \<Rightarrow> t"
    obtain t a where a: "append_text s w ?t = Inr (t, a)" "c' = c\<lparr>ch_text := mput key t (ch_text c), ch_output := ch_output c \<or> s \<noteq> []\<rparr>"
        "d = [(key, JStr a)]"
      using assms Some JStr by (auto simp: observe_text_def andthen_Inr Let_def)
    then have "st_value t = text_of c key @ a"
      using append_text_value [OF a(1)] by (simp add: text_of_def empty_text_def split: option.splits)
    then show ?thesis using a(2,3) by (auto simp: text_of_def)
  qed (use assms Some in \<open>simp_all add: observe_text_def\<close>)
qed (use assms in \<open>simp add: observe_text_def\<close>)

lemma observe_texts_value:
  "observe_texts ks out w c = Inr (c', d, p) \<Longrightarrow> text_of c' k = text_of c k @ delta_text k d"
proof (induction ks arbitrary: c c' d p)
  case (Cons key ks)
  then obtain c1 d1 p1 where one: "observe_text key out w c = Inr (c1, d1, p1)"
    by (cases "observe_text key out w c") auto
  with Cons.prems obtain d2 p2 where rest: "observe_texts ks out w c1 = Inr (c', d2, p2)" "d = d1 @ d2"
    by (cases "observe_texts ks out w c1") auto
  then show ?case using observe_text_value [OF one] Cons.IH [OF rest(1)] by simp
qed simp

lemma observe_role_value: "observe_role out w c = (c', d) \<Longrightarrow> k \<in> set text_keys \<Longrightarrow> text_of c' k = text_of c k \<and> delta_text k d = []"
  using other_keys [of k] by (auto simp: observe_role_def Let_def text_of_def split: if_splits)

lemma observe_tool_calls_value:
  "observe_tool_calls out w c = Inr (c', d, p) \<Longrightarrow> k \<in> set text_keys \<Longrightarrow> text_of c' k = text_of c k \<and> delta_text k d = []"
  using other_keys [of k]
  by (auto simp: observe_tool_calls_def andthen_Inr text_of_def split: option.splits json.splits)

lemma observe_function_call_value:
  "observe_function_call out w c = Inr (c', d, p) \<Longrightarrow> k \<in> set text_keys \<Longrightarrow> text_of c' k = text_of c k \<and> delta_text k d = []"
  using other_keys [of k]
  by (auto simp: observe_function_call_def andthen_Inr text_of_def Let_def split: option.splits json.splits if_splits)

lemma observeOutput_value:
  assumes "observeOutput out w c = Inr (c', d)" and k: "k \<in> set text_keys"
  shows "text_of c' k = text_of c k @ delta_text k d"
proof -
  obtain c0 d0 where r: "observe_role out w c = (c0, d0)" by (cases "observe_role out w c")
  obtain c1 d1 p1 c2 d2 p2 c3 d3 p3 where
      t: "observe_texts text_keys out w c0 = Inr (c1, d1, p1)" and
      u: "observe_tool_calls out w c1 = Inr (c2, d2, p2)" and
      f: "observe_function_call out w c2 = Inr (c3, d3, p3)" and
      e: "d = d0 @ d1 @ d2 @ d3" "ch_text c' = ch_text c3"
    using assms(1) r by (auto simp: observeOutput_def andthen_Inr split: if_splits)
  have "text_of c' k = text_of c3 k" using e(2) by (simp add: text_of_def)
  then show ?thesis
    using observe_role_value [OF r k] observe_texts_value [OF t, of k] observe_tool_calls_value [OF u k]
      observe_function_call_value [OF f k] e(1) by simp
qed

subsection \<open>Observing a frame\<close>

lemma get_str_merge_entry:
  "k \<in> set text_keys \<Longrightarrow> get_str (merge_entry (k', v) merged) k
     = get_str merged k @ (if k' = k then str_or_empty (Some v) else [])"
  using other_keys [of k] by (auto simp: merge_entry_def get_str_def)

lemma get_str_mergeOutputDelta:
  "k \<in> set text_keys \<Longrightarrow> get_str (mergeOutputDelta merged d) k = get_str merged k @ delta_text k d"
  unfolding mergeOutputDelta_def
  by (induction d arbitrary: merged) (auto simp: get_str_merge_entry delta_text_def)

lemma observe_part_value:
  assumes "observe_part key choice (c, n) = Inr (c', n')" "k \<in> set text_keys"
  shows "\<exists>x. text_of c' k = text_of c k @ x \<and> get_str n' k = get_str n k @ x"
proof -
  consider "(c', n') = (c, n)"
    | out d where "observeOutput out (key = ''message'') c = Inr (c', d)" "n' = mergeOutputDelta n d"
    using assms(1) by (auto simp: observe_part_def andthen_Inr split: option.splits json.splits)
  then show ?thesis
  proof cases
    case 2
    then show ?thesis using observeOutput_value [OF _ assms(2)] get_str_mergeOutputDelta [OF assms(2)] by auto
  qed auto
qed

lemma choice_at_mput: "choice_at i (mput j c cs) = (if i = j then c else choice_at i cs)"
  by (simp add: choice_at_def)

lemma text_of_finish [simp]: "text_of (c\<lparr>ch_finishReason := r\<rparr>) k = text_of c k"
  by (simp add: text_of_def)

lemma get_str_Nil [simp]: "get_str [] k = []"
  by (simp add: get_str_def)

lemma get_index_mput [simp]: "k \<noteq> ''index'' \<Longrightarrow> get_index d (mput k v m) = get_index d m"
  by (simp add: get_index_def)

lemma get_index_mdel [simp]: "k \<noteq> ''index'' \<Longrightarrow> get_index d (mdel k m) = get_index d m"
  by (simp add: get_index_def)

definition without_message :: "json \<Rightarrow> bool" where
  "without_message v \<longleftrightarrow> mget (nested_of (Some v)) ''message'' = None"

lemma observe_choice_value:
  assumes "observe_choice item cs = Inr (cs', item')" "k \<in> set text_keys"
  shows "text_at cs' i k = text_at cs i k @ choice_text i k item'" "without_message item'" "wfmap cs \<Longrightarrow> wfmap cs'"
proof -
  obtain choice where it: "item = JObj choice"
    using assms(1) by (auto simp: observe_choice_def split: json.splits)
  let ?idx = "get_index 0 choice"
  obtain c1 n1 c n where p: "observe_part ''delta'' choice (choice_at ?idx cs, []) = Inr (c1, n1)"
      "observe_part ''message'' choice (c1, n1) = Inr (c, n)"
      and e: "item' = JObj (mdel ''message'' (mput ''delta'' (JObj n) choice))"
        "cs' = mput ?idx c cs \<or> (\<exists>r. cs' = mput ?idx (c\<lparr>ch_finishReason := r\<rparr>) cs)"
    using assms(1) it by (auto simp: observe_choice_def andthen_Inr Let_def split: if_splits)
  have "text_of c k = text_at cs ?idx k @ get_str n k"
    using observe_part_value [OF p(1) assms(2)] observe_part_value [OF p(2) assms(2)] by (auto simp: text_at_def)
  then show "text_at cs' i k = text_at cs i k @ choice_text i k item'"
    using e by (auto simp: text_at_def choice_at_mput choice_text_def nested_of_def)
  show "without_message item'" using e(1) by (simp add: without_message_def nested_of_def)
  show "wfmap cs'" if "wfmap cs" using e(2) that by auto
qed

lemma observe_choices_value:
  assumes "k \<in> set text_keys"
  shows "observe_choices items cs = Inr (cs', items') \<Longrightarrow>
    text_at cs' i k = text_at cs i k @ concat (map (choice_text i k) items')
    \<and> list_all without_message items' \<and> (wfmap cs \<longrightarrow> wfmap cs')"
proof (induction items arbitrary: cs cs' items')
  case (Cons item items)
  then obtain cs1 item1 items1 where "observe_choice item cs = Inr (cs1, item1)"
      "observe_choices items cs1 = Inr (cs', items1)" "items' = item1 # items1"
    by (auto simp: andthen_Inr)
  then show ?case using observe_choice_value [OF _ assms, of item cs cs1 item1] Cons.IH [of cs1 cs' items1] by auto
qed simp

lemma observe_value:
  assumes "observe ob s = Inr (s', ob')" "k \<in> set text_keys"
  shows "text_at (ss_choices s') i k = text_at (ss_choices s) i k @ frame_text i k ob'"
    "list_all without_message (choices_of ob')" "wfmap (ss_choices s) \<Longrightarrow> wfmap (ss_choices s')"
    "mget ob' ''error'' = mget ob ''error''"
  using assms observe_choices_value [OF assms(2)]
  by (auto simp: observe_def frame_text_def array_of_def andthen_Inr split: option.splits json.splits)

end
