(* ===== verification/SseAnswer.thy ===== *)
theory SseAnswer
  imports SseText SseShape
begin

text \<open>
  What a client of \<open>Stream\<close> can put together from the frames is what \<open>Aggregate\<close> answers, and
  what \<open>Aggregate\<close> answers is complete.

  Properties of the translation of event streams (\<open>internal/upstream/sse.go\<close>).
\<close>

subsection \<open>How a stream ends\<close>


subsection \<open>One protocol for both consumers\<close>

text \<open>What the guard is told is the same in both: the choices of the observed frame.\<close>

lemma chunk_alike:
  assumes "sm_state m = ag_state a" "stream_chunk sha good_client chunk m = (m', stop, f)"
    "aggregate_event sha ord ev a = (a', stop', g)" "decodeSSEEvent ev = DChunk chunk"
  shows "alike same_error f g \<and> (f = None \<longrightarrow> sm_state m' = ag_state a' \<and> stop = stop')"
  using assms(2)
proof (cases rule: stream_chunk_good)
  case (failed x)
  then show ?thesis using assms(1,3,4) by (auto simp: aggregate_event_def)
next
  case (sent s ob0 m1 ob1 guardErr)
  have "mget ob1 ''choices'' = mget ob0 ''choices''" using accumulate_usage_frame(6) [OF sent(2)] by simp
  then have g: "observeReasoningLoops sha ob0 s = (sm_state m', guardErr)"
    using sent(3) guard_choices_only by metis
  have "a' = (note_meta ob0 (a\<lparr>ag_state := s\<rparr>))\<lparr>ag_state := sm_state m'\<rparr>" "stop' = (guardErr \<noteq> None)" "g = map_option Inl guardErr"
    using assms(1,3,4) sent(1) g by (auto simp: aggregate_event_def note_meta_def)
  then show ?thesis using sent(6,7) by simp
qed

lemma event_alike:
  assumes "sm_state m = ag_state a" "stream_event sha ord good_client ev m = (m', stop, f)"
    "aggregate_event sha ord ev a = (a', stop', g)"
  shows "alike same_error f g \<and> (f = None \<longrightarrow> sm_state m' = ag_state a' \<and> stop = stop')"
proof (cases "decodeSSEEvent ev")
  case DDone
  obtain s x where "finishReasoningLoops sha ord ((ag_state a)\<lparr>ss_done := True\<rparr>) = (s, x)"
    by (cases "finishReasoningLoops sha ord ((ag_state a)\<lparr>ss_done := True\<rparr>)")
  then show ?thesis using assms DDone by (auto simp: stream_event_def aggregate_event_def)
next
  case (DFail x)
  then show ?thesis using assms by (auto simp: stream_event_def aggregate_event_def)
next
  case (DChunk chunk)
  then show ?thesis using chunk_alike [OF assms(1) _ assms(3)] assms(2) by (simp add: stream_event_def)
qed

interpretation both: sse_simulation "stream_event sha ord good_client" "stream_comment good_client"
    "aggregate_event sha ord" "\<lambda>_ a. (a, None)" "\<lambda>m a. sm_state m = ag_state a" same_error for sha ord
  by unfold_locales (rule event_alike, assumption+, clarsimp+)

lemma both_read:
  assumes "readSSE (stream_event sha ord good_client) (stream_comment good_client) bytes e (new_streaming opts) = (m, f)"
    "readSSE (aggregate_event sha ord) (\<lambda>_ a. (a, None)) bytes e (new_aggregation opts) = (a, g)"
  shows "alike same_error f g" "f = None \<Longrightarrow> sm_state m = ag_state a" "pred_option isl f"
  using both.readSSE_alike [OF _ assms] reading.reader.readSSE_keeps [OF reading_start assms(1)]
  by (simp_all add: new_streaming_def new_aggregation_def)

lemma stream_and_aggregate_same_order:
  "snd (Stream sha ord (\<lambda>_. True) opts bytes e)
     = (case Aggregate sha ord clock_id clock opts bytes e of Inl x \<Rightarrow> Some (Inl x) | Inr _ \<Rightarrow> None)"
proof -
  obtain m f where r: "readSSE (stream_event sha ord good_client) (stream_comment good_client) bytes e (new_streaming opts) = (m, f)"
    by (cases "readSSE (stream_event sha ord good_client) (stream_comment good_client) bytes e (new_streaming opts)")
  obtain a g where q: "readSSE (aggregate_event sha ord) (\<lambda>_ a. (a, None)) bytes e (new_aggregation opts) = (a, g)"
    by (cases "readSSE (aggregate_event sha ord) (\<lambda>_ a. (a, None)) bytes e (new_aggregation opts)")
  note both = both_read [OF r q] and S = Stream_good [OF r both_read(3) [OF r q]]
  show ?thesis
  proof (cases f)
    case None
    then have "g = None" "sm_state m = ag_state a" using both by (simp_all add: alike_def)
    then show ?thesis
      using S None q by (cases "closing sha ord (ag_state a)") (simp add: Aggregate_closing split: option.splits)
  next
    case (Some y)
    then obtain x where "y = Inl x" "g = Some (Inl x)" using both(1) by (auto simp: alike_def same_error_def)
    then show ?thesis using S Some q by (simp add: Aggregate_closing)
  qed
qed

subsection \<open>From the observed frame to the sent one\<close>

lemma choice_text_withheld [simp]: "choice_text i k (withheld c) = choice_text i k c"
  by (simp add: choice_text_def withheld_def nested_of_def)

lemma without_message_withheld [simp]: "without_message (withheld c) = without_message c"
  by (simp add: without_message_def withheld_def nested_of_def)

lemma strip_choice_cases:
  obtains "snd (strip_choice v seen) = v"
  | c d x where "v = JObj c" "mget c ''delta'' = Some (JObj d)"
      "snd (strip_choice v seen) = JObj (mput ''delta'' (JObj (mput ''tool_calls'' x d)) c)"
proof -
  have "snd (strip_choice v seen) = v \<or> (\<exists>c d x. v = JObj c \<and> mget c ''delta'' = Some (JObj d) \<and>
      snd (strip_choice v seen) = JObj (mput ''delta'' (JObj (mput ''tool_calls'' x d)) c))"
    unfolding strip_choice_def by (simp split: json.split option.split prod.split) blast
  then show thesis using that by blast
qed

lemma strip_choice_text:
  assumes "k \<in> set text_keys"
  shows "choice_text i k (snd (strip_choice c seen)) = choice_text i k c"
    "without_message (snd (strip_choice c seen)) = without_message c"
  using other_keys [OF assms]
  by (cases rule: strip_choice_cases [of c seen]; simp add: choice_text_def without_message_def nested_of_def get_str_def)+

lemma strip_choices_text:
  assumes "k \<in> set text_keys"
  shows "map (choice_text i k) (snd (strip_choices cs seen)) = map (choice_text i k) cs"
    "list_all without_message (snd (strip_choices cs seen)) = list_all without_message cs"
  using strip_choice_text [OF assms]
  by (induction cs arbitrary: seen) (simp_all add: case_prod_beta)

lemma mget_opt_str: "mget (opt_str k d) k' = (if k' = k \<and> get_str d k \<noteq> [] then Some (JStr (get_str d k)) else None)"
  by (simp add: opt_str_def)

lemma get_str_normalize_delta:
  assumes "k \<in> set text_keys"
  shows "get_str (normalize_delta d) k = get_str d k"
proof -
  let ?B = "case mget d ''tool_calls'' of Some (JArr (t # ts)) \<Rightarrow> [(''tool_calls'', JArr (t # ts))] | _ \<Rightarrow> []"
  let ?C = "case mget d ''function_call'' of Some fc \<Rightarrow> if keep_function_call fc then [(''function_call'', fc)] else [] | None \<Rightarrow> []"
  have "mget ?B k = None" using other_keys [OF assms] by (simp split: option.split json.split list.split)
  moreover have "mget ?C k = None" using other_keys [OF assms] by (simp split: option.split)
  moreover have "k \<in> {''content'', ''reasoning_content'', ''refusal''}" using assms by (simp add: text_keys_def)
  ultimately have "mget (normalize_delta d) k = (if get_str d k \<noteq> [] then Some (JStr (get_str d k)) else None)"
    unfolding normalize_delta_def by (auto simp: map_add_def mget_opt_str split: option.split)
  then show ?thesis by (simp add: get_str_def [of "normalize_delta d"])
qed

lemma normalize_choice_text:
  assumes "normalize_choice c = Some c'" "without_message c" "k \<in> set text_keys"
  shows "choice_text i k c' = choice_text i k c"
proof (cases c)
  case (JObj m)
  obtain n where n: "c' = JObj n" "mget n ''index'' = mget m ''index''"
      "mget n ''delta'' = Some (JObj (normalize_delta (part_of m)))"
    using assms(1) JObj by (auto elim: normalize_choice_fields)
  have "part_of m = nested_of (mget m ''delta'')"
    using assms(2) JObj by (auto simp: part_of_def without_message_def nested_of_def split: option.splits json.splits)
  then show ?thesis
    using n JObj get_str_normalize_delta [OF assms(3)] by (simp add: choice_text_def nested_of_def get_index_def)
qed (use assms in \<open>simp_all add: normalize_choice_def\<close>)

lemma normalize_choice_none: "normalize_choice c = None \<Longrightarrow> choice_text i k c = []"
  by (auto simp: normalize_choice_def choice_text_def nested_of_def Let_def split: json.splits)

lemma frame_text_normalize:
  assumes "list_all without_message (choices_of ob)" "k \<in> set text_keys" "opt_field ''error'' ob = []"
  shows "frame_text i k (normalizeFrame ob) = frame_text i k ob"
proof -
  have "concat (map (choice_text i k) (List.map_filter normalize_choice cs)) = concat (map (choice_text i k) cs)"
    if "list_all without_message cs" for cs
    using that normalize_choice_text [OF _ _ assms(2)] normalize_choice_none
    by (induction cs) (auto simp: map_filter_simps split: option.splits)
  then show ?thesis using assms(1,3) by (simp add: frame_text_def choices_normalizeFrame)
qed

lemma sent_frame_text:
  assumes "list_all without_message (choices_of ob)" "k \<in> set text_keys" "opt_field ''error'' ob = []"
  shows "frame_text i k (normalizeFrame (frame_of ob m)) = frame_text i k ob"
proof -
  have "opt_field ''error'' (frame_of ob m) = opt_field ''error'' ob" by (simp add: opt_field_def mget_frame_of)
  moreover have "list_all without_message (choices_of (frame_of ob m))"
    using assms(1) by (simp add: choices_frame_of strip_choices_text(2) [OF assms(2)] list.pred_map comp_def)
  moreover have "frame_text i k (frame_of ob m) = frame_text i k ob"
    by (simp add: frame_text_def choices_frame_of strip_choices_text(1) [OF assms(2)] comp_def)
  ultimately show ?thesis using assms frame_text_normalize by simp
qed

lemma chunk_has_no_error: "decodeSSEEvent ev = DChunk ob \<Longrightarrow> opt_field ''error'' ob = []"
  by (auto simp: decodeSSEEvent_def error_member_def opt_field_def split: if_splits option.splits json.splits)

subsection \<open>The guard keeps the text\<close>

lemma text_at_guard: "text_at (mput j ((choice_at j cs)\<lparr>ch_loopGuard := g\<rparr>) cs) = text_at cs"
    "text_at (mput j ((choice_at j cs)\<lparr>ch_loopGuard := g, ch_loopProgress := n\<rparr>) cs) = text_at cs"
  by (auto simp: text_at_def choice_at_mput text_of_def fun_eq_iff)

lemma arm_guard_text: "text_at (fst (arm_guard ch cp)) = text_at (fst cp)" "wfmap (fst cp) \<Longrightarrow> wfmap (fst (arm_guard ch cp))"
  by (simp_all add: arm_guard_def Let_def text_at_guard)

lemma arm_guards_text:
  fixes cp :: "choices \<times> int list"
  shows "text_at (fst (fold arm_guard chs cp)) = text_at (fst cp)"
    and "wfmap (fst cp) \<Longrightarrow> wfmap (fst (fold arm_guard chs cp))"
  by (induction chs arbitrary: cp) (simp_all add: arm_guard_text)

lemma guard_choice_text:
  "guard_choice sha pr ch cs = (cs', e) \<Longrightarrow> text_at cs' = text_at cs \<and> (wfmap cs \<longrightarrow> wfmap cs')"
  by (auto simp: guard_choice_def Let_def text_at_guard split: prod.splits)

lemma guard_choices_text:
  "guard_choices sha pr chs cs = (cs', e) \<Longrightarrow> text_at cs' = text_at cs \<and> (wfmap cs \<longrightarrow> wfmap cs')"
proof (induction chs arbitrary: cs)
  case (Cons ch chs)
  obtain cs1 e1 where g: "guard_choice sha pr ch cs = (cs1, e1)" by (cases "guard_choice sha pr ch cs")
  show ?case using Cons.prems Cons.IH [of cs1] guard_choice_text [OF g] g by (cases e1) auto
qed simp

lemma observeReasoningLoops_text:
  assumes "observeReasoningLoops sha ob s = (s', e)"
  shows "text_at (ss_choices s') = text_at (ss_choices s) \<and> (wfmap (ss_choices s) \<longrightarrow> wfmap (ss_choices s'))"
proof (cases "ss_loopGuardEnabled s")
  case True
  obtain cs pr where f: "fold arm_guard (frame_choices ob) (ss_choices s, []) = (cs, pr)"
    by (cases "fold arm_guard (frame_choices ob) (ss_choices s, [])")
  obtain cs' e' where g: "guard_choices sha pr (frame_choices ob) cs = (cs', e')"
    by (cases "guard_choices sha pr (frame_choices ob) cs")
  have "s' = s\<lparr>ss_choices := cs'\<rparr>" using assms True f g by (simp add: observeReasoningLoops_def)
  then show ?thesis
    using arm_guards_text [where chs = "frame_choices ob" and cp = "(ss_choices s, [])"] guard_choices_text [OF g] f by simp
qed (use assms in \<open>simp add: observeReasoningLoops_def\<close>)

lemma mkeys_mput_known: "k \<in> set (mkeys m) \<Longrightarrow> mkeys (mput k v m) = mkeys m"
  by (induction m) auto

lemma visit_order_mset: "mset (visit_order ord ks) = mset ks"
proof (cases "sort (ord ks) = sort ks")
  case True
  then have "mset (ord ks) = mset ks" by (metis mset_sort)
  then show ?thesis by (simp add: visit_order_def)
qed (simp add: visit_order_def)

lemma visit_order_perm [simp]: "set (visit_order ord ks) = set ks" "distinct (visit_order ord ks) = distinct ks"
  using mset_eq_setD [OF visit_order_mset] mset_eq_imp_distinct_iff [OF visit_order_mset] by auto

lemma finish_guards_text:
  assumes "set ks \<subseteq> set (mkeys cs)" "finish_guards sha ks cs = (cs', e)"
  shows "text_at cs' = text_at cs \<and> mkeys cs' = mkeys cs"
  using assms
proof (induction ks arbitrary: cs)
  case (Cons i ks)
  have keys: "mkeys (mput i c cs) = mkeys cs" for c using Cons.prems(1) by (intro mkeys_mput_known) simp
  show ?case
  proof (cases "ch_loopGuard (choice_at i cs)")
    case (Some g)
    obtain g' x where g: "finish_guard sha g = (g', x)" by (cases "finish_guard sha g")
    let ?cs = "mput i ((choice_at i cs)\<lparr>ch_loopGuard := Some g'\<rparr>) cs"
    have "set ks \<subseteq> set (mkeys ?cs)" using Cons.prems(1) keys by simp
    moreover have "text_at ?cs = text_at cs" "mkeys ?cs = mkeys cs" using keys by (simp_all add: text_at_guard)
    moreover have "(x \<noteq> None \<and> cs' = ?cs) \<or> finish_guards sha ks ?cs = (cs', e)"
      using Cons.prems(2) Some g by (cases "x = None") (simp_all add: Let_def)
    ultimately show ?thesis using Cons.IH [of ?cs] by metis
  qed (use Cons in simp)
qed simp

lemma finishReasoningLoops_text:
  assumes "finishReasoningLoops sha ord s = (s', e)"
  shows "text_at (ss_choices s') = text_at (ss_choices s) \<and> mkeys (ss_choices s') = mkeys (ss_choices s)"
proof (cases "ss_loopGuardEnabled s")
  case True
  obtain cs where f: "finish_guards sha (visit_order ord (mkeys (ss_choices s))) (ss_choices s) = (cs, e)" "s' = s\<lparr>ss_choices := cs\<rparr>"
    using assms True by (auto simp: finishReasoningLoops_def split: prod.splits)
  show ?thesis using finish_guards_text [OF _ f(1)] f(2) by simp
qed (use assms in \<open>simp add: finishReasoningLoops_def\<close>)

subsection \<open>The order of the choices\<close>

text \<open>The end of a guard, and whether it finds nothing.\<close>

definition finished_guard :: "(nat list \<Rightarrow> string) \<Rightarrow> streamChoice \<Rightarrow> streamChoice" where
  "finished_guard sha c =
     (case ch_loopGuard c of None \<Rightarrow> c | Some g \<Rightarrow> c\<lparr>ch_loopGuard := Some (fst (finish_guard sha g))\<rparr>)"

definition quiet_guard :: "(nat list \<Rightarrow> string) \<Rightarrow> streamChoice \<Rightarrow> bool" where
  "quiet_guard sha c = (case ch_loopGuard c of None \<Rightarrow> True | Some g \<Rightarrow> snd (finish_guard sha g) = None)"

lemma finish_guards_visits:
  assumes "distinct ks" "set ks \<subseteq> set (mkeys cs)" "finish_guards sha ks cs = (cs', e)"
  shows "mkeys cs' = mkeys cs \<and> (e = None \<longleftrightarrow> (\<forall>i \<in> set ks. quiet_guard sha (choice_at i cs)))
    \<and> (e = None \<longrightarrow> (\<forall>j. choice_at j cs' = (if j \<in> set ks then finished_guard sha (choice_at j cs) else choice_at j cs)))"
  using assms
proof (induction ks arbitrary: cs)
  case (Cons i ks)
  show ?case
  proof (cases "ch_loopGuard (choice_at i cs)")
    case None
    then show ?thesis using Cons by (auto simp: quiet_guard_def finished_guard_def)
  next
    case (Some g)
    obtain g' x where g: "finish_guard sha g = (g', x)" by (cases "finish_guard sha g")
    let ?cs = "mput i ((choice_at i cs)\<lparr>ch_loopGuard := Some g'\<rparr>) cs"
    have keys: "mkeys ?cs = mkeys cs" using Cons.prems(2) by (intro mkeys_mput_known) simp
    show ?thesis
    proof (cases x)
      case None
      have "finish_guards sha ks ?cs = (cs', e)" using Cons.prems(3) Some g None by simp
      with Cons.IH [of ?cs] Cons.prems(1,2) keys
      have IH: "mkeys cs' = mkeys ?cs" "e = None \<longleftrightarrow> (\<forall>i \<in> set ks. quiet_guard sha (choice_at i ?cs))"
        "e = None \<longrightarrow> (\<forall>j. choice_at j cs' = (if j \<in> set ks then finished_guard sha (choice_at j ?cs) else choice_at j ?cs))"
        by simp_all
      have other: "choice_at j ?cs = choice_at j cs" if "j \<noteq> i" for j using that by (simp add: choice_at_mput)
      have here: "choice_at i ?cs = finished_guard sha (choice_at i cs)" "quiet_guard sha (choice_at i cs)"
        using Some g None by (simp_all add: choice_at_mput finished_guard_def quiet_guard_def)
      have "i \<notin> set ks" using Cons.prems(1) by simp
      then have rest: "(\<forall>i \<in> set ks. quiet_guard sha (choice_at i ?cs)) = (\<forall>i \<in> set ks. quiet_guard sha (choice_at i cs))"
        using other by (metis (no_types, lifting))
      have all: "(\<forall>i \<in> set (i # ks). quiet_guard sha (choice_at i cs)) = (\<forall>i \<in> set ks. quiet_guard sha (choice_at i cs))"
        using here(2) by simp
      have "choice_at j cs' = (if j \<in> set (i # ks) then finished_guard sha (choice_at j cs) else choice_at j cs)" if "e = None" for j
      proof (cases "j = i")
        case True
        then show ?thesis using IH(3) that here(1) \<open>i \<notin> set ks\<close> by simp
      next
        case False
        then show ?thesis using IH(3) that other [OF False] by simp
      qed
      then show ?thesis using IH(1) IH(2) keys all rest by simp
    next
      case (Some y)
      then show ?thesis using Cons.prems(3) \<open>ch_loopGuard _ = Some g\<close> g keys by (auto simp: quiet_guard_def)
    qed
  qed
qed simp

lemma wfmap_ext:
  fixes cs cs' :: choices
  assumes "mkeys cs = mkeys cs'" "wfmap cs" "\<And>i. choice_at i cs = choice_at i cs'"
  shows "cs = cs'"
proof -
  have rebuilt: "m = map (\<lambda>i. (i, choice_at i m)) (mkeys m)" if "wfmap m" for m :: choices
    using that
  proof (intro nth_equalityI, goal_cases)
    case (2 n)
    then have "m ! n \<in> set m" by simp
    then have "mget m (fst (m ! n)) = Some (snd (m ! n))" using 2(1) wf_mget_iff [of m "fst (m ! n)" "snd (m ! n)"] by simp
    then have "choice_at (fst (m ! n)) m = snd (m ! n)" by (simp add: choice_at_def)
    then show ?case using 2(2) by simp
  qed simp
  have "wfmap cs'" using assms(1,2) by simp
  have "cs = map (\<lambda>i. (i, choice_at i cs)) (mkeys cs)" by (rule rebuilt [OF assms(2)])
  also have "\<dots> = map (\<lambda>i. (i, choice_at i cs')) (mkeys cs')" by (simp only: assms(1,3))
  also have "\<dots> = cs'" by (rule rebuilt [OF \<open>wfmap cs'\<close>, symmetric])
  finally show ?thesis .
qed

text \<open>Whether there is an error does not depend on the order, nor does the state when there is none.\<close>

lemma finishing_any_order:
  assumes "wfmap (ss_choices s)" "finishReasoningLoops sha ord1 s = (s1, e1)" "finishReasoningLoops sha ord2 s = (s2, e2)"
  shows "(e1 = None \<longleftrightarrow> e2 = None) \<and> (e1 = None \<longrightarrow> s1 = s2) \<and> wfmap (ss_choices s1)"
proof (cases "ss_loopGuardEnabled s")
  case True
  let ?v = "\<lambda>ord. visit_order ord (mkeys (ss_choices s))"
  obtain c1 where c1: "finish_guards sha (?v ord1) (ss_choices s) = (c1, e1)" "s1 = s\<lparr>ss_choices := c1\<rparr>"
    using assms(2) True by (auto simp: finishReasoningLoops_def split: prod.splits)
  obtain c2 where c2: "finish_guards sha (?v ord2) (ss_choices s) = (c2, e2)" "s2 = s\<lparr>ss_choices := c2\<rparr>"
    using assms(3) True by (auto simp: finishReasoningLoops_def split: prod.splits)
  have visited: "distinct (?v ord)" "set (?v ord) \<subseteq> set (mkeys (ss_choices s))" for ord using assms(1) by simp_all
  note v1 = finish_guards_visits [OF visited c1(1)] and v2 = finish_guards_visits [OF visited c2(1)]
  have keys: "mkeys c1 = mkeys (ss_choices s)" "mkeys c2 = mkeys (ss_choices s)" using v1 v2 by simp_all
  then have wf: "wfmap c1" using assms(1) by simp
  have quiet: "e1 = None \<longleftrightarrow> (\<forall>i \<in> set (mkeys (ss_choices s)). quiet_guard sha (choice_at i (ss_choices s)))"
    "e2 = None \<longleftrightarrow> (\<forall>i \<in> set (mkeys (ss_choices s)). quiet_guard sha (choice_at i (ss_choices s)))"
    using v1 v2 by simp_all
  have "c1 = c2" if "e1 = None"
  proof (rule wfmap_ext [OF _ wf])
    show "choice_at j c1 = choice_at j c2" for j using that quiet v1 v2 by simp
  qed (simp add: keys)
  then show ?thesis using quiet wf c1(2) c2(2) by simp
qed (use assms in \<open>simp add: finishReasoningLoops_def\<close>)

lemma map_filter_none: "List.map_filter f xs = [] \<longleftrightarrow> (\<forall>x \<in> set xs. f x = None)"
  by (induction xs) (simp_all add: map_filter_simps split: option.splits)

lemma end_stream_none:
  "end_stream ord s = None \<longleftrightarrow>
   (\<forall>i \<in> set (mkeys (ss_choices s)). end_choice (ss_done s) (choice_at i (ss_choices s)) = None) \<and> has_response s"
proof -
  let ?es = "List.map_filter (\<lambda>i. end_choice (ss_done s) (choice_at i (ss_choices s))) (visit_order ord (mkeys (ss_choices s)))"
  have "?es = [] \<longleftrightarrow> (\<forall>i \<in> set (mkeys (ss_choices s)). end_choice (ss_done s) (choice_at i (ss_choices s)) = None)"
    by (simp only: map_filter_none visit_order_perm)
  moreover have "end_stream ord s = None \<longleftrightarrow> ?es = [] \<and> has_response s"
    by (cases ?es) (simp_all add: end_stream_def)
  ultimately show ?thesis by simp
qed

lemma end_any_order: "end_stream ord1 s = None \<longleftrightarrow> end_stream ord2 s = None"
  by (simp only: end_stream_none)

lemma closing_any_order:
  assumes "wfmap (ss_choices s)" "closing sha ord1 s = (s1, e1)" "closing sha ord2 s = (s2, e2)"
  shows "(e1 = None \<longleftrightarrow> e2 = None) \<and> (e1 = None \<longrightarrow> s1 = s2)"
proof -
  obtain t1 f1 where t1: "finishReasoningLoops sha ord1 s = (t1, f1)" by (cases "finishReasoningLoops sha ord1 s")
  obtain t2 f2 where t2: "finishReasoningLoops sha ord2 s = (t2, f2)" by (cases "finishReasoningLoops sha ord2 s")
  note t = finishing_any_order [OF assms(1) t1 t2]
  show ?thesis
    using assms(2,3) t t1 t2 end_any_order [of ord1 t1 ord2] by (cases f1; cases f2) (auto simp: closing_def)
qed

lemma event_any_order:
  assumes "wfmap (ss_choices (ag_state a))" "aggregate_event sha ord1 ev a = (a1, stop1, f)"
    "aggregate_event sha ord2 ev a = (a2, stop2, g)"
  shows "alike (\<lambda>_ _. True) f g \<and> (f = None \<longrightarrow> (a1 = a2 \<and> wfmap (ss_choices (ag_state a1))) \<and> stop1 = stop2)"
proof (cases "decodeSSEEvent ev")
  case DDone
  let ?s = "(ag_state a)\<lparr>ss_done := True\<rparr>"
  obtain s1 e1 where e1: "finishReasoningLoops sha ord1 ?s = (s1, e1)" by (cases "finishReasoningLoops sha ord1 ?s")
  obtain s2 e2 where e2: "finishReasoningLoops sha ord2 ?s = (s2, e2)" by (cases "finishReasoningLoops sha ord2 ?s")
  have "wfmap (ss_choices ?s)" using assms(1) by simp
  from finishing_any_order [OF this e1 e2] show ?thesis
    using assms(2,3) DDone e1 e2 by (cases e1; cases e2) (auto simp: aggregate_event_def)
next
  case (DFail x)
  then show ?thesis using assms by (auto simp: aggregate_event_def)
next
  case (DChunk chunk)
  show ?thesis
  proof (cases "observe chunk (ag_state a)")
    case (Inl x)
    then show ?thesis using assms(2,3) DChunk by (auto simp: aggregate_event_def)
  next
    case (Inr sc)
    obtain s0 chunk' where sc: "sc = (s0, chunk')" by (cases sc)
    obtain s' x where g: "observeReasoningLoops sha chunk' s0 = (s', x)" by (cases "observeReasoningLoops sha chunk' s0")
    have "wfmap (ss_choices s0)" using observe_value(3) [of chunk "ag_state a" s0 chunk' "''content''"] Inr sc assms(1) by (simp add: text_keys_def)
    then have "wfmap (ss_choices s')" using observeReasoningLoops_text [OF g] by simp
    then show ?thesis using assms(2,3) DChunk Inr sc g by (cases x) (auto simp: aggregate_event_def note_meta_def)
  qed
qed

interpretation any_order: sse_simulation "aggregate_event sha ord1" "\<lambda>_ a. (a, None)" "aggregate_event sha ord2" "\<lambda>_ a. (a, None)"
    "\<lambda>a a'. a = a' \<and> wfmap (ss_choices (ag_state a))" "\<lambda>_ _. True" for sha ord1 ord2
  by unfold_locales (use event_any_order in blast, auto)

lemma wfmap_start: "wfmap (ss_choices (ag_state (new_aggregation opts)))"
  by (simp add: new_aggregation_def newStreamState_def)

lemma Aggregate_any_order:
  "(\<exists>x y. Aggregate sha ord1 clock_id clock opts bytes e = Inl x \<and> Aggregate sha ord2 clock_id clock opts bytes e = Inl y)
   \<or> (\<exists>resp. Aggregate sha ord1 clock_id clock opts bytes e = Inr resp \<and> Aggregate sha ord2 clock_id clock opts bytes e = Inr resp)"
proof -
  let ?read = "\<lambda>ord. readSSE (aggregate_event sha ord) (\<lambda>_ a. (a, None)) bytes e (new_aggregation opts)"
  obtain a1 f1 where r1: "?read ord1 = (a1, f1)" by (cases "?read ord1")
  obtain a2 f2 where r2: "?read ord2 = (a2, f2)" by (cases "?read ord2")
  have same: "alike (\<lambda>_ _. True) f1 f2" "f1 = None \<longrightarrow> a1 = a2 \<and> wfmap (ss_choices (ag_state a1))"
    using any_order.readSSE_alike [OF _ r1 r2] wfmap_start by auto
  show ?thesis
  proof (cases f1)
    case None
    obtain s1 x1 where c1: "closing sha ord1 (ag_state a1) = (s1, x1)" by (cases "closing sha ord1 (ag_state a1)")
    obtain s2 x2 where c2: "closing sha ord2 (ag_state a2) = (s2, x2)" by (cases "closing sha ord2 (ag_state a2)")
    have "f2 = None" "a2 = a1" "wfmap (ss_choices (ag_state a1))" using same None by auto
    with closing_any_order [of "ag_state a1" sha ord1 s1 x1 ord2 s2 x2] c1 c2 r1 r2 None show ?thesis
      by (cases x1; cases x2) (auto simp: Aggregate_closing)
  next
    case (Some x)
    then show ?thesis using same(1) r1 r2 by (cases f2) (auto simp: Aggregate_closing)
  qed
qed


subsection \<open>What was sent so far\<close>

definition faithful :: "streaming \<Rightarrow> bool" where
  "faithful m \<longleftrightarrow> wfmap (ss_choices (sm_state m)) \<and>
     (\<forall>i. \<forall>k \<in> set text_keys. sent_text i k (sm_out m) = text_at (ss_choices (sm_state m)) i k)"

lemma faithful_same:
  "faithful m \<Longrightarrow> sm_out m' = sm_out m \<Longrightarrow> text_at (ss_choices (sm_state m')) = text_at (ss_choices (sm_state m)) \<Longrightarrow>
   (wfmap (ss_choices (sm_state m)) \<Longrightarrow> wfmap (ss_choices (sm_state m'))) \<Longrightarrow> faithful m'"
  by (simp add: faithful_def)

lemma chunk_faithful:
  assumes "faithful m" "decodeSSEEvent ev = DChunk chunk" "stream_chunk sha good_client chunk m = (m', stop, err)"
  shows "faithful m'"
  using assms(3)
proof (cases rule: stream_chunk_good)
  case (sent s ob0 m1 ob1 ge)
  note usage = accumulate_usage_frame [OF sent(2)]
  note guard = observeReasoningLoops_text [OF sent(3)]
  show ?thesis
    unfolding faithful_def
  proof (intro conjI allI ballI)
    show "wfmap (ss_choices (sm_state m'))"
      using guard observe_value(3) [OF sent(1), of "''content''"] assms(1) by (simp add: faithful_def text_keys_def)
  next
    fix i k assume k: "k \<in> set text_keys"
    note ob = observe_value [OF sent(1) k]
    have "choices_of ob1 = choices_of ob0" "mget ob1 ''error'' = mget ob0 ''error''" using usage(6) by simp_all
    then have "frame_text i k (normalizeFrame (frame_of ob1 m1)) = frame_text i k ob0"
      using sent_frame_text [OF _ k, of ob1] ob(2,4) chunk_has_no_error [OF assms(2)]
      by (simp add: opt_field_def frame_text_def)
    then show "sent_text i k (sm_out m') = text_at (ss_choices (sm_state m')) i k"
      using sent(4) guard ob(1) assms(1) k by (simp add: faithful_def)
  qed
qed (use assms in simp)

lemma event_faithful:
  assumes "faithful m" "stream_event sha ord good_client ev m = (m', stop, err)"
  shows "faithful m'"
proof (cases "decodeSSEEvent ev")
  case DDone
  obtain s x where f: "finishReasoningLoops sha ord ((sm_state m)\<lparr>ss_done := True\<rparr>) = (s, x)"
    by (cases "finishReasoningLoops sha ord ((sm_state m)\<lparr>ss_done := True\<rparr>)")
  then have "m' = m\<lparr>sm_state := s\<rparr>" using assms(2) DDone by (simp add: stream_event_def)
  then show ?thesis using finishReasoningLoops_text [OF f] by (intro faithful_same [OF assms(1)]) simp_all
next
  case (DFail x)
  then have "m' = m\<lparr>sm_state := (sm_state m)\<lparr>ss_done := False\<rparr>\<rparr>" using assms(2) by (auto simp: stream_event_def)
  then show ?thesis by (intro faithful_same [OF assms(1)]) simp_all
next
  case (DChunk chunk)
  then show ?thesis using chunk_faithful [OF assms(1)] assms(2) by (simp add: stream_event_def)
qed

lemma event_error: "stream_event sha ord good_client ev m = (m', stop, err) \<Longrightarrow> pred_option isl err"
  by (cases rule: stream_event_good, assumption) (auto dest: reading.chunk_error)

interpretation sending: sse_reader "stream_event sha ord good_client" "stream_comment good_client" faithful isl for sha ord
proof (unfold_locales, goal_cases)
  case 1
  then show ?case using event_faithful event_error by blast
qed (auto simp: faithful_def)

lemma faithful_start: "faithful (new_streaming opts)"
  by (simp add: faithful_def new_streaming_def newStreamState_def text_at_def choice_at_def text_of_def empty_choice_def)

subsection \<open>The answer\<close>

definition answer_choice :: "int \<Rightarrow> string \<Rightarrow> json \<Rightarrow> string" where
  "answer_choice i k v =
     (let c = nested_of (Some v)
      in if mget c ''index'' = Some (JInt i) then get_str (nested_of (mget c ''message'')) k else [])"

definition answer_text :: "int \<Rightarrow> string \<Rightarrow> obj \<Rightarrow> string" where
  "answer_text i k resp = concat (map (answer_choice i k) (choices_of resp))"

lemma choices_response:
  "choices_of (aggregate_response cid clk a) = map (\<lambda>(i, c). aggregate_choice i c) (sort_key fst (ss_choices (ag_state a)))"
  by (simp add: aggregate_response_def array_of_def)

lemma get_str_append: "mget b k = None \<Longrightarrow> get_str (a @ b) k = get_str a k"
  by (cases "mget a k") (simp_all add: get_str_def map_add_def)

lemma message_text:
  assumes "k \<in> set text_keys"
  shows "get_str (aggregate_message c) k = text_of c k"
proof -
  let ?T = "concat (map (\<lambda>k. if text_of c k \<noteq> [] then [(k, JStr (text_of c k))] else []) [''reasoning_content'', ''refusal''])"
  let ?F = "case ch_function c of None \<Rightarrow> []
      | Some f \<Rightarrow> (case function_out (incomplete c) f of None \<Rightarrow> [] | Some fn \<Rightarrow> [(''function_call'', JObj fn)])"
  let ?calls = "List.map_filter (call_out (incomplete c)) (sort_key fst (ch_tools c))"
  let ?C = "if ?calls \<noteq> [] then [(''tool_calls'', JArr ?calls)] else []"
  have m: "aggregate_message c = [(''role'', JStr (if ch_role c = [] then ''assistant'' else ch_role c)),
      (''content'', JStr (text_of c ''content''))] @ ?T @ ?F @ ?C"
    by (simp only: aggregate_message_def Let_def)
  have "mget ?F k = None" using other_keys [OF assms] by (simp split: option.split)
  moreover have "mget ?C k = None" using other_keys [OF assms] by simp
  moreover have "k = ''content'' \<or> k = ''reasoning_content'' \<or> k = ''refusal''" using assms by (simp add: text_keys_def)
  moreover have "get_str ([(''role'', r), (''content'', JStr (text_of c ''content''))] @ ?T) k = text_of c k" for r
    using \<open>k = _ \<or> _\<close> by (elim disjE) (simp_all add: get_str_def)
  ultimately show ?thesis unfolding m append_assoc [symmetric] by (simp only: get_str_append)
qed

lemma answer_aggregate_choice:
  "k \<in> set text_keys \<Longrightarrow> answer_choice i k (aggregate_choice j c) = (if j = i then text_of c k else [])"
  by (simp add: answer_choice_def aggregate_choice_def nested_of_def message_text)

lemma text_by_index:
  "distinct (map fst cs) \<Longrightarrow> concat (map (\<lambda>(j, c). if j = i then text_of c k else []) cs) = text_at cs i k"
proof (induction cs)
  case Nil
  then show ?case by (simp add: text_at_def choice_at_def text_of_def empty_choice_def)
next
  case (Cons jc cs)
  obtain j c where jc: "jc = (j, c)" by (cases jc)
  have "text_at cs j k = []" if "j \<notin> set (map fst cs)"
    using that by (simp add: text_at_def choice_at_def text_of_def empty_choice_def map_of_eq_None_iff [symmetric])
  then show ?case using Cons jc by (auto simp: text_at_def choice_at_def)
qed

lemma response_text:
  assumes "wfmap (ss_choices (ag_state a))" "k \<in> set text_keys"
  shows "answer_text i k (aggregate_response cid clk a) = text_at (ss_choices (ag_state a)) i k"
proof -
  let ?cs = "ss_choices (ag_state a)"
  have d: "distinct (map fst (sort_key fst ?cs))" using assms(1) by (simp add: distinct_map inj_on_def)
  have "map_of (sort_key fst ?cs) = map_of ?cs" by (rule map_of_inject_set [THEN iffD2]) (use d assms(1) in simp_all)
  then have "text_at (sort_key fst ?cs) i k = text_at ?cs i k" by (simp add: text_at_def choice_at_def)
  moreover have "map (answer_choice i k) (map (\<lambda>(i, c). aggregate_choice i c) xs) =
      map (\<lambda>(j, c). if j = i then text_of c k else []) xs" for xs
    by (induction xs) (auto simp: answer_aggregate_choice [OF assms(2)])
  ultimately show ?thesis
    unfolding answer_text_def choices_response by (simp only: text_by_index [OF d])
qed

lemma terminal_text: "sent_text i k (terminal_out m) = []"
proof (cases "terminal_frame m")
  case (Some fr)
  have "choice_text i k c = []" if "c \<in> set (choices_of fr)" for c
    using terminal_deltas [OF Some that] by (simp add: choice_text_def Let_def)
  then show ?thesis using Some by (simp add: terminal_out_def frame_text_def)
qed (simp add: terminal_out_def)

lemma deltas_add_up_same_order:
  "case Aggregate sha ord clock_id clock opts bytes e of
     Inl _ \<Rightarrow> True
   | Inr resp \<Rightarrow> list_all (\<lambda>k. sent_text i k (fst (Stream sha ord (\<lambda>_. True) opts bytes e)) = answer_text i k resp) text_keys"
proof -
  obtain m f where r: "readSSE (stream_event sha ord good_client) (stream_comment good_client) bytes e (new_streaming opts) = (m, f)"
    by (cases "readSSE (stream_event sha ord good_client) (stream_comment good_client) bytes e (new_streaming opts)")
  obtain a g where q: "readSSE (aggregate_event sha ord) (\<lambda>_ a. (a, None)) bytes e (new_aggregation opts) = (a, g)"
    by (cases "readSSE (aggregate_event sha ord) (\<lambda>_ a. (a, None)) bytes e (new_aggregation opts)")
  note both = both_read [OF r q] and S = Stream_good [OF r both_read(3) [OF r q]]
  have inv: "faithful m" using sending.readSSE_keeps [OF faithful_start r] by simp
  obtain s x where c: "closing sha ord (ag_state a) = (s, x)" by (cases "closing sha ord (ag_state a)")
  show ?thesis
  proof (cases "g = None \<and> x = None")
    case True
    then have f: "f = None" and st: "sm_state m = ag_state a" using both by (simp_all add: alike_def)
    have fin: "text_at (ss_choices s) = text_at (ss_choices (ag_state a))" "mkeys (ss_choices s) = mkeys (ss_choices (ag_state a))"
      using c True finishReasoningLoops_text [of sha ord "ag_state a"] by (auto simp: closing_def split: prod.splits option.splits)
    have "sent_text i k (fst (Stream sha ord good_client opts bytes e)) = answer_text i k (aggregate_response clock_id clock (a\<lparr>ag_state := s\<rparr>))"
      if "k \<in> set text_keys" for k
      using S f st c True inv fin that response_text [of "a\<lparr>ag_state := s\<rparr>" k i clock_id clock]
      by (simp add: faithful_def terminal_text)
    then show ?thesis using q c True by (simp add: Aggregate_closing list_all_iff)
  next
    case False
    then show ?thesis using q c by (auto simp: Aggregate_closing split: option.splits)
  qed
qed


end
