(* ===== verification/SseTools.thy ===== *)
theory SseTools
  imports SseAnswer
begin

text \<open>
  Tool calls: a name is sent once, and what \<open>Aggregate\<close> answers has whole arguments.
\<close>

subsection \<open>The names in a frame\<close>

definition call_names :: "int \<Rightarrow> json \<Rightarrow> string list" where
  "call_names j v =
     (let tc = nested_of (Some v); name = get_str (nested_of (mget tc ''function'')) ''name''
      in if get_index 0 tc = j \<and> name \<noteq> [] then [name] else [])"

definition delta_names :: "int \<Rightarrow> obj \<Rightarrow> string list" where
  "delta_names j d = concat (map (call_names j) (array_of (mget d ''tool_calls'')))"

definition choice_names :: "int \<Rightarrow> int \<Rightarrow> json \<Rightarrow> string list" where
  "choice_names i j v =
     (let c = nested_of (Some v) in if get_index 0 c = i then delta_names j (nested_of (mget c ''delta'')) else [])"

definition frame_names :: "int \<Rightarrow> int \<Rightarrow> obj \<Rightarrow> string list" where
  "frame_names i j ob = concat (map (choice_names i j) (choices_of ob))"

definition sent_names :: "int \<Rightarrow> int \<Rightarrow> sse_out list \<Rightarrow> string list" where
  "sent_names i j out = concat (map (\<lambda>f. case f of OFrame ob \<Rightarrow> frame_names i j ob | _ \<Rightarrow> []) out)"

lemma sent_names_append [simp]: "sent_names i j (out @ out') = sent_names i j out @ sent_names i j out'"
  by (simp add: sent_names_def)

lemma sent_names_simps [simp]: "sent_names i j [] = []" "sent_names i j [OFrame ob] = frame_names i j ob"
    "sent_names i j [OComment l] = []" "sent_names i j [ODone] = []"
  by (simp_all add: sent_names_def)

text \<open>A piece of the output that names call \<open>p\<close> at most once, and only if it was not named before.\<close>

definition named_once :: "int \<times> int \<Rightarrow> (int \<times> int) list \<Rightarrow> (int \<times> int) list \<Rightarrow> string list \<Rightarrow> bool" where
  "named_once p seen seen' names \<longleftrightarrow>
     set seen \<subseteq> set seen' \<and> length names \<le> 1 \<and> (names \<noteq> [] \<longrightarrow> p \<notin> set seen \<and> p \<in> set seen')"

lemma named_once_Nil [simp]: "named_once p s s []"
  by (simp add: named_once_def)

lemma named_once_trans:
  "named_once p s s1 n1 \<Longrightarrow> named_once p s1 s2 n2 \<Longrightarrow> named_once p s s2 (n1 @ n2)"
  unfolding named_once_def by (cases n1; cases n2) auto

lemma named_once_noted:
  "named_once p s s' n' \<Longrightarrow> length n \<le> 1 \<and> (n \<noteq> [] \<longrightarrow> p \<in> set s) \<Longrightarrow> length (n @ n') \<le> 1 \<and> (n @ n' \<noteq> [] \<longrightarrow> p \<in> set s')"
  unfolding named_once_def by (cases n; cases n') auto

lemma array_of_some: "array_of x \<noteq> [] \<Longrightarrow> x = Some (JArr (array_of x))"
  by (auto simp: array_of_def split: option.splits json.splits)

lemma nested_of_some: "nested_of x \<noteq> [] \<Longrightarrow> x = Some (JObj (nested_of x))"
  by (auto simp: nested_of_def split: option.splits json.splits)

lemma strip_call_once:
  assumes "strip_call i v seen = (seen', v')"
  shows "named_once (i', j) seen seen' (if i = i' then call_names j v' else [])"
proof (cases "\<exists>tc fn. v = JObj tc \<and> mget tc ''function'' = Some (JObj fn)")
  case True
  then obtain tc fn where "v = JObj tc" "mget tc ''function'' = Some (JObj fn)" by blast
  then show ?thesis
    using assms
    by (auto simp: strip_call_def Let_def named_once_def call_names_def nested_of_def get_str_def
        get_index_def str_or_empty_def split: if_splits)
next
  case False
  then have "strip_call i v seen = (seen, v)"
    by (auto simp: strip_call_def Let_def split: option.splits json.splits)
  moreover have "nested_of (mget (nested_of (Some v)) ''function'') = []"
  proof (rule ccontr)
    let ?c = "nested_of (Some v)"
    assume "nested_of (mget ?c ''function'') \<noteq> []"
    then have f: "mget ?c ''function'' = Some (JObj (nested_of (mget ?c ''function'')))" by (rule nested_of_some)
    then have "Some v = Some (JObj ?c)" by (intro nested_of_some) auto
    then show False using False f by blast
  qed
  then have "call_names j v = []" by (simp add: call_names_def Let_def)
  ultimately show ?thesis using assms by simp
qed

lemma strip_calls_once:
  "strip_calls i vs seen = (seen', vs') \<Longrightarrow>
     named_once (i', j) seen seen' (if i = i' then concat (map (call_names j) vs') else [])"
proof (induction vs arbitrary: seen seen' vs')
  case (Cons v vs)
  obtain s1 v1 where a: "strip_call i v seen = (s1, v1)" by (cases "strip_call i v seen")
  obtain s2 vs2 where b: "strip_calls i vs s1 = (s2, vs2)" by (cases "strip_calls i vs s1")
  have "seen' = s2" "vs' = v1 # vs2" using Cons.prems a b by simp_all
  then show ?case
    using named_once_trans [OF strip_call_once [OF a, of i' j] Cons.IH [OF b]] by (cases "i = i'") simp_all
qed simp

lemma strip_choice_once:
  assumes "strip_choice v seen = (seen', v')"
  shows "named_once (i, j) seen seen' (choice_names i j v')"
proof (cases "\<exists>c d tcs. v = JObj c \<and> mget c ''delta'' = Some (JObj d) \<and> mget d ''tool_calls'' = Some (JArr tcs)")
  case True
  then obtain c d tcs where v: "v = JObj c" "mget c ''delta'' = Some (JObj d)" "mget d ''tool_calls'' = Some (JArr tcs)"
    by blast
  obtain s1 tcs' where s: "strip_calls (get_index 0 c) tcs seen = (s1, tcs')" by (cases "strip_calls (get_index 0 c) tcs seen")
  have "seen' = s1" "v' = JObj (mput ''delta'' (JObj (mput ''tool_calls'' (JArr tcs') d)) c)"
    using assms v s by (simp_all add: strip_choice_def)
  then show ?thesis
    using strip_calls_once [OF s, of i j]
    by (cases "get_index 0 c = i") (simp_all add: choice_names_def delta_names_def nested_of_def array_of_def)
next
  case False
  then have "strip_choice v seen = (seen, v)" by (auto simp: strip_choice_def split: json.splits option.splits)
  moreover have "array_of (mget (nested_of (mget (nested_of (Some v)) ''delta'')) ''tool_calls'') = []"
  proof (rule ccontr)
    let ?c = "nested_of (Some v)" let ?d = "nested_of (mget ?c ''delta'')"
    assume "array_of (mget ?d ''tool_calls'') \<noteq> []"
    then have t: "mget ?d ''tool_calls'' = Some (JArr (array_of (mget ?d ''tool_calls'')))" by (rule array_of_some)
    then have d: "mget ?c ''delta'' = Some (JObj ?d)" by (intro nested_of_some) auto
    then have "Some v = Some (JObj ?c)" by (intro nested_of_some) auto
    then show False using False t d by blast
  qed
  then have "choice_names i j v = []" by (simp add: choice_names_def delta_names_def Let_def)
  ultimately show ?thesis using assms by simp
qed

lemma strip_choices_once:
  "strip_choices vs seen = (seen', vs') \<Longrightarrow> named_once (i, j) seen seen' (concat (map (choice_names i j) vs'))"
proof (induction vs arbitrary: seen seen' vs')
  case (Cons v vs)
  obtain s1 v1 where a: "strip_choice v seen = (s1, v1)" by (cases "strip_choice v seen")
  obtain s2 vs2 where b: "strip_choices vs s1 = (s2, vs2)" by (cases "strip_choices vs s1")
  have "seen' = s2" "vs' = v1 # vs2" using Cons.prems a b by simp_all
  then show ?case using named_once_trans [OF strip_choice_once [OF a] Cons.IH [OF b]] by simp
qed simp

subsection \<open>Normal frames keep the names\<close>

lemma delta_names_normalize: "delta_names j (normalize_delta d) = delta_names j d"
proof -
  have "array_of (mget (normalize_delta d) ''tool_calls'') = array_of (mget d ''tool_calls'')"
  proof -
    have c: "mget (case mget d ''function_call'' of Some fc \<Rightarrow> if keep_function_call fc then [(''function_call'', fc)] else [] | None \<Rightarrow> [])
        ''tool_calls'' = None" by (simp split: option.split)
    show ?thesis
      unfolding normalize_delta_def map_of_append map_add_def c
      by (simp add: mget_opt_str map_add_def array_of_def split: option.split json.split list.split)
  qed
  then show ?thesis by (simp add: delta_names_def)
qed

lemma normalize_choice_names:
  assumes "normalize_choice c = Some c'" "without_message c"
  shows "choice_names i j c' = choice_names i j c"
proof (cases c)
  case (JObj m)
  obtain n where n: "c' = JObj n" "mget n ''index'' = mget m ''index''"
      "mget n ''delta'' = Some (JObj (normalize_delta (part_of m)))"
    using assms(1) JObj by (auto elim: normalize_choice_fields)
  have "part_of m = nested_of (mget m ''delta'')"
    using assms(2) JObj by (auto simp: part_of_def without_message_def nested_of_def split: option.splits json.splits)
  then show ?thesis using n JObj by (simp add: choice_names_def nested_of_def get_index_def delta_names_normalize)
qed (use assms in \<open>simp_all add: normalize_choice_def\<close>)

lemma delta_names_Nil [simp]: "delta_names j [] = []"
  by (simp add: delta_names_def array_of_def)

lemma normalized_names:
  "list_all without_message cs \<Longrightarrow>
   concat (map (choice_names i j) (List.map_filter normalize_choice cs)) = concat (map (choice_names i j) cs)"
proof (induction cs)
  case (Cons c cs)
  have "choice_names i j c = []" if "normalize_choice c = None"
    using that by (auto simp: normalize_choice_def choice_names_def nested_of_def Let_def split: json.splits)
  then show ?case using Cons normalize_choice_names by (auto simp: map_filter_simps split: option.splits)
qed (simp add: map_filter_simps)

lemma sent_frame_names:
  assumes "list_all without_message (choices_of ob)" "strip_choices (map withheld (choices_of ob)) (sm_seen m) = (seen', cs)"
  shows "named_once (i, j) (sm_seen m) seen' (frame_names i j (normalizeFrame (frame_of ob m)))"
proof -
  have "list_all without_message cs"
    using assms strip_choices_text(2) [of "''content''" "map withheld (choices_of ob)" "sm_seen m"]
    by (simp add: text_keys_def list.pred_map comp_def)
  moreover have "named_once (i, j) (sm_seen m) seen' (concat (map (choice_names i j) cs))"
    by (rule strip_choices_once [OF assms(2)])
  moreover have "frame_names i j (normalizeFrame (frame_of ob m)) =
      (if opt_field ''error'' (frame_of ob m) = [] then concat (map (choice_names i j) (List.map_filter normalize_choice cs)) else [])"
    unfolding frame_names_def choices_normalizeFrame choices_frame_of assms(2) by simp
  ultimately show ?thesis using normalized_names [of cs i j] by (simp add: named_once_def split: if_split)
qed

subsection \<open>A name is sent once\<close>

definition names_noted :: "streaming \<Rightarrow> bool" where
  "names_noted m \<longleftrightarrow> (\<forall>i j. length (sent_names i j (sm_out m)) \<le> 1 \<and> (sent_names i j (sm_out m) \<noteq> [] \<longrightarrow> (i, j) \<in> set (sm_seen m)))"

lemma chunk_names:
  assumes "names_noted m" "stream_chunk sha good_client chunk m = (m', stop, err)"
  shows "names_noted m'"
  using assms(2)
proof (cases rule: stream_chunk_good)
  case (sent s ob0 m1 ob1 ge)
  note usage = accumulate_usage_frame [OF sent(2)]
  obtain seen' cs where st: "strip_choices (map withheld (choices_of ob1)) (sm_seen m1) = (seen', cs)"
    by (cases "strip_choices (map withheld (choices_of ob1)) (sm_seen m1)")
  have seen: "sm_seen m' = seen'" using sent(5) st by (simp add: choices_strip choices_withhold)
  have "choices_of ob1 = choices_of ob0" using usage(6) by simp
  then have "list_all without_message (choices_of ob1)" using observe_value(2) [OF sent(1), of "''content''"] by (simp add: text_keys_def)
  then have "named_once (i, j) (sm_seen m) seen' (frame_names i j (normalizeFrame (frame_of ob1 m1)))" for i j
    using sent_frame_names [OF _ st] usage(2) by simp
  moreover have "length (sent_names i j (sm_out m)) \<le> 1 \<and> (sent_names i j (sm_out m) \<noteq> [] \<longrightarrow> (i, j) \<in> set (sm_seen m))" for i j
    using assms(1) by (simp add: names_noted_def)
  ultimately have "length (sent_names i j (sm_out m')) \<le> 1 \<and> (sent_names i j (sm_out m') \<noteq> [] \<longrightarrow> (i, j) \<in> set (sm_seen m'))" for i j
    unfolding sent(4) sent_names_append sent_names_simps seen by (rule named_once_noted)
  then show ?thesis by (simp add: names_noted_def)
qed (use assms in simp)

interpretation naming: stream_invariant sha ord names_noted for sha ord
proof (unfold_locales, goal_cases)
  case 1
  then show ?case using chunk_names by blast
qed (simp_all add: names_noted_def)

lemma terminal_names: "sent_names i j (terminal_out m) = []"
proof (cases "terminal_frame m")
  case (Some fr)
  have "choice_names i j c = []" if "c \<in> set (choices_of fr)" for c
    using terminal_deltas [OF Some that] by (simp add: choice_names_def Let_def)
  then show ?thesis using Some by (simp add: terminal_out_def frame_names_def)
qed (simp add: terminal_out_def)

lemma error_names: "sent_names i j [error_frame x] = []"
  by (auto simp: sent_names_def error_frame_def frame_names_def array_of_def split: option.splits list.splits)


subsection \<open>Whole arguments\<close>

definition args_whole :: "obj \<Rightarrow> bool" where
  "args_whole f = (case mget f ''arguments'' of Some (JStr a) \<Rightarrow> \<not> isTruncatedArguments a | _ \<Rightarrow> False)"

definition message_functions :: "obj \<Rightarrow> obj list" where
  "message_functions msg =
     map (\<lambda>v. nested_of (mget (nested_of (Some v)) ''function'')) (array_of (mget msg ''tool_calls''))
     @ (case mget msg ''function_call'' of Some (JObj f) \<Rightarrow> [f] | _ \<Rightarrow> [])"

definition answer_whole :: "json \<Rightarrow> bool" where
  "answer_whole v =
     (let c = nested_of (Some v); fs = message_functions (nested_of (mget c ''message''))
      in list_all args_whole fs \<and>
         \<not> (get_str c ''finish_reason'' \<in> {''tool_calls'', ''function_call''} \<and> fs = []))"

lemma message_calls:
  "array_of (mget (aggregate_message c) ''tool_calls'') = List.map_filter (call_out (incomplete c)) (sort_key fst (ch_tools c))"
  "mget (aggregate_message c) ''function_call'' = map_option JObj (Option.bind (ch_function c) (function_out (incomplete c)))"
  by (auto simp: aggregate_message_def Let_def map_add_def array_of_def split: option.split)

lemma function_out_whole:
  "function_out inc f = Some out \<Longrightarrow> (\<not> inc \<Longrightarrow> \<not> bad_arguments f) \<Longrightarrow> args_whole out"
  by (auto simp: function_out_def bad_arguments_def args_whole_def split: if_splits)

lemma validated:
  assumes "validateArguments c = None" "\<not> incomplete c"
  shows "\<forall>t \<in> set (ch_tools c). \<not> bad_arguments (tc_function (snd t))" "\<forall>f. ch_function c = Some f \<longrightarrow> \<not> bad_arguments f"
  using assms by (auto simp: validateArguments_def list_ex_iff split: if_splits option.splits)

lemma choice_whole:
  assumes "end_choice fin c = None"
  shows "answer_whole (aggregate_choice i c)"
proof -
  have v: "validateArguments c = None" using assms by (simp add: end_choice_def split: if_splits option.splits)
  let ?msg = "aggregate_message c" let ?inc = "incomplete c"
  have fs: "message_functions ?msg =
      List.map_filter (\<lambda>t. function_out ?inc (tc_function (snd t))) (sort_key fst (ch_tools c))
      @ (case Option.bind (ch_function c) (function_out ?inc) of None \<Rightarrow> [] | Some f \<Rightarrow> [f])"
  proof -
    have "map (\<lambda>v. nested_of (mget (nested_of (Some v)) ''function'')) (List.map_filter (call_out ?inc) ts) =
        List.map_filter (\<lambda>t. function_out ?inc (tc_function (snd t))) ts" for ts
      by (induction ts) (auto simp: map_filter_simps call_out_def nested_of_def split: option.splits)
    then show ?thesis by (simp add: message_functions_def message_calls split: option.split)
  qed
  have "args_whole f" if "f \<in> set (message_functions ?msg)" for f
  proof -
    have "(\<exists>t \<in> set (ch_tools c). function_out ?inc (tc_function (snd t)) = Some f) \<or>
        (\<exists>g. ch_function c = Some g \<and> function_out ?inc g = Some f)"
      using that unfolding fs by (force simp: List.map_filter_def split: option.splits)
    then show ?thesis using validated [OF v] function_out_whole by blast
  qed
  moreover have "message_functions ?msg \<noteq> []" if "ch_finishReason c \<in> {''tool_calls'', ''function_call''}"
  proof -
    have inc: "\<not> ?inc" using that by (auto simp: incomplete_def)
    have "ch_tools c \<noteq> [] \<or> ch_function c \<noteq> None"
      using assms that by (auto simp: end_choice_def split: if_splits option.splits)
    moreover have "function_out ?inc f \<noteq> None" for f using inc by (simp add: function_out_def)
    ultimately show ?thesis
      unfolding fs by (cases "ch_tools c") (auto simp: List.map_filter_def split: option.splits)
  qed
  moreover have "get_str (nested_of (Some (aggregate_choice i c))) ''finish_reason'' =
      (if ch_finishReason c = [] then ''stop'' else ch_finishReason c)"
      "nested_of (mget (nested_of (Some (aggregate_choice i c))) ''message'') = ?msg"
    by (simp_all add: aggregate_choice_def nested_of_def get_str_def)
  ultimately show ?thesis by (auto simp: answer_whole_def list_all_iff Let_def)
qed

text \<open>
  C10: \<open>Aggregate\<close> never passes a damaged tool call off as a success: in every response it
  returns, the arguments of every tool and function call are present and not cut off, and a choice
  that finished to call a tool has a call.
\<close>

theorem answer_calls_whole:
  "case Aggregate sha ord clock_id clock opts bytes e of Inl _ \<Rightarrow> True | Inr resp \<Rightarrow> list_all answer_whole (choices_of resp)"
proof -
  obtain a g where q: "readSSE (aggregate_event sha ord) (\<lambda>_ a. (a, None)) bytes e (new_aggregation opts) = (a, g)"
    by (cases "readSSE (aggregate_event sha ord) (\<lambda>_ a. (a, None)) bytes e (new_aggregation opts)")
  obtain s x where c: "closing sha ord (ag_state a) = (s, x)" by (cases "closing sha ord (ag_state a)")
  show ?thesis
  proof (cases "g = None \<and> x = None")
    case True
    then obtain "end_stream ord s = None" and fin: "finishReasoningLoops sha ord (ag_state a) = (s, None)"
      using c by (auto simp: closing_def split: prod.splits option.splits)
    then have quiet: "\<forall>i \<in> set (mkeys (ss_choices s)). end_choice (ss_done s) (choice_at i (ss_choices s)) = None"
      by (blast dest: end_stream_none [THEN iffD1])
    have "wfmap (ss_choices (ag_state a))" using any_order.readSSE_alike [OF _ q q] wfmap_start True by auto
    then have "wfmap (ss_choices s)" using finishing_any_order [OF _ fin fin] by simp
    then have "choice_at i (ss_choices s) = c" if "(i, c) \<in> set (ss_choices s)" for i c
      using that wf_mget_iff [OF \<open>wfmap (ss_choices s)\<close>, of i c] by (simp add: choice_at_def)
    then have "\<forall>ic \<in> set (ss_choices s). end_choice (ss_done s) (snd ic) = None" using quiet by force
    then have "list_all answer_whole (choices_of (aggregate_response clock_id clock (a\<lparr>ag_state := s\<rparr>)))"
      by (auto simp: choices_response list_all_iff choice_whole)
    then show ?thesis using q c True by (simp add: Aggregate_closing)
  next
    case False
    then show ?thesis using q c by (auto simp: Aggregate_closing split: option.splits)
  qed
qed

end
