(* ===== verification/SseWire.thy ===== *)
theory SseWire
  imports SseOut
begin

text \<open>
  The bytes \<open>Stream\<close> writes are an event stream that the same reader takes apart again.
\<close>

text \<open>A line that a newline may follow: it contains none and does not end in a carriage return.\<close>

definition clean_line :: "string \<Rightarrow> bool" where
  "clean_line s \<longleftrightarrow> CHR 0x0A \<notin> set s \<and> (s = [] \<or> last s \<noteq> CHR 0x0D)"

lemma split_lines_line: "CHR 0x0A \<notin> set l \<Longrightarrow> split_lines (l @ CHR 0x0A # s) = (l # fst (split_lines s), snd (split_lines s))"
  by (induction l) (auto split: prod.splits)

lemma trim_clean: "clean_line l \<Longrightarrow> trim_suffix l [CHR 0x0D] = l"
  by (auto simp: clean_line_def trim_suffix_def has_suffix_iff)

lemma clean_data: "clean_line p \<Longrightarrow> clean_line (''data: '' @ p)"
  by (auto simp: clean_line_def)

definition payload :: "(obj \<Rightarrow> string) \<Rightarrow> sse_out \<Rightarrow> string option" where
  "payload marshal f =
     (case f of OFrame ob \<Rightarrow> Some (marshal ob) | ORaw raw \<Rightarrow> Some raw | OComment _ \<Rightarrow> None | ODone \<Rightarrow> Some ''[DONE]'')"

definition clean_out :: "(obj \<Rightarrow> string) \<Rightarrow> sse_out \<Rightarrow> bool" where
  "clean_out marshal f \<longleftrightarrow>
     (case f of OFrame ob \<Rightarrow> clean_line (marshal ob) | ORaw raw \<Rightarrow> clean_line raw
      | OComment l \<Rightarrow> clean_line l \<and> has_prefix l '':'' | ODone \<Rightarrow> True)"

text \<open>Collecting the data of the events.\<close>

definition collect :: "(string list, unit) consumer" where
  "collect ev ds = (ds @ [ev_data ev], False, None)"

definition first_line :: "(obj \<Rightarrow> string) \<Rightarrow> sse_out \<Rightarrow> string" where
  "first_line marshal f = (case f of OComment l \<Rightarrow> l | _ \<Rightarrow> ''data: '' @ the (payload marshal f))"

lemma wire_first_line: "wire marshal f = first_line marshal f @ [CHR 0x0A, CHR 0x0A]"
  by (cases f) (simp_all add: wire_def writeRaw_def first_line_def payload_def)

lemma first_line_clean: "clean_out marshal f \<Longrightarrow> clean_line (first_line marshal f)"
proof (cases f)
  case ODone
  then show ?thesis by (simp add: first_line_def payload_def clean_line_def)
qed (use clean_data in \<open>simp_all add: first_line_def payload_def clean_out_def\<close>)

lemma split_wire:
  "list_all (clean_out marshal) out \<Longrightarrow>
   split_lines (concat (map (wire marshal) out)) = (concat (map (\<lambda>f. [first_line marshal f, []]) out), [])"
proof (induction out)
  case (Cons f out)
  have "CHR 0x0A \<notin> set (first_line marshal f)" using first_line_clean Cons.prems by (auto simp: clean_line_def)
  then show ?case using Cons split_lines_line [of "[]"] by (simp add: wire_first_line split_lines_line)
qed simp

lemma read_one:
  assumes "clean_out marshal f"
  shows "read_lines collect (\<lambda>_ s. (s, None)) ([first_line marshal f, []] @ ls) ([], []) ds =
     read_lines collect (\<lambda>_ s. (s, None)) ls ([], []) (ds @ (case payload marshal f of None \<Rightarrow> [] | Some p \<Rightarrow> [p]))"
proof (cases "payload marshal f")
  case None
  then obtain l where "f = OComment l" by (cases f) (simp_all add: payload_def)
  then show ?thesis
    using assms None trim_clean [OF first_line_clean [OF assms]]
    by (auto simp: first_line_def clean_out_def dispatch_def trim_suffix_def has_prefix_def Let_def)
next
  case (Some p)
  then have l: "first_line marshal f = ''data: '' @ p" by (cases f) (simp_all add: payload_def first_line_def)
  moreover have "sse_field (''data: '' @ p) ([], []) = ([p], [])"
    by (simp add: sse_field_def trim_prefix_def has_prefix_def)
  ultimately show ?thesis
    using Some trim_clean [OF first_line_clean [OF assms]]
    by (simp add: l trim_suffix_def has_suffix_def has_prefix_def dispatch_def collect_def)
qed

lemma read_wire_lines:
  "list_all (clean_out marshal) out \<Longrightarrow>
   read_lines collect (\<lambda>_ s. (s, None)) (concat (map (\<lambda>f. [first_line marshal f, []]) out)) ([], []) ds =
     (ds @ List.map_filter (payload marshal) out, Inl ([], []))"
proof (induction out arbitrary: ds)
  case (Cons f out)
  then show ?case
    using read_one [of marshal f "concat (map (\<lambda>f. [first_line marshal f, []]) out)" ds]
    by (simp add: map_filter_simps split: option.split)
qed (simp add: map_filter_simps)

text \<open>
  C23: what \<open>Stream\<close> writes is a well-formed event stream: if no encoded frame contains a line
  break, reading the bytes back with \<open>readSSE\<close> yields exactly the frames' payloads in order,
  keep-alive comments left out, and no error.
\<close>

theorem written_stream_reads_back:
  assumes "list_all (clean_out marshal) out"
  shows "readSSE collect (\<lambda>_ s. (s, None)) (concat (map (wire marshal) out)) AtEOF []
     = (List.map_filter (payload marshal) out, None)"
  using read_wire_lines [OF assms, of "[]"] split_wire [OF assms]
  by (simp add: readSSE_def read_rest_def trim_suffix_def has_suffix_def has_prefix_def dispatch_def)

lemma written_stream_reads_back_witness:
  "readSSE collect (\<lambda>_ s. (s, None))
     (concat (map (wire (\<lambda>_. ''{}'')) [OComment '': ping'', OFrame [], ORaw ''{1}'', ODone])) AtEOF []
   = ([''{}'', ''{1}'', ''[DONE]''], None)"
  by (subst written_stream_reads_back) (simp_all add: clean_out_def clean_line_def has_prefix_def payload_def map_filter_simps)

end
