(* ===== verification/UsageJsonProps.thy ===== *)
theory UsageJsonProps
  imports UsageJson
begin

text \<open>
  What merging the usage snapshots of a stream (\<open>internal/upstream/usage.go\<close>) keeps.
\<close>

lemma merge_pairs_other: "k \<notin> set (mkeys ps) \<Longrightarrow> mget (merge_pairs ps m) k = mget m k"
  by (induction ps arbitrary: m) auto

lemma mget_merge_pairs:
  "wfmap ps \<Longrightarrow> mget (merge_pairs ps m) k =
     (case mget ps k of
        Some v \<Rightarrow> if accepted k v then Some (merge_any (mget m k) v) else mget m k
      | None \<Rightarrow> mget m k)"
proof (induction ps arbitrary: m)
  case (Cons kv ps)
  obtain k' v' where kv: "kv = (k', v')" by (cases kv)
  have "mget ps k' = None" using Cons.prems kv by (simp add: map_of_eq_None_iff)
  then show ?case using Cons kv by (auto split: option.splits)
qed simp

lemma merge_pairs_present: "mget m k \<noteq> None \<Longrightarrow> mget (merge_pairs ps m) k \<noteq> None"
  by (induction ps arbitrary: m) auto

lemma merge_pairs_accepted: "mget ps k = Some v \<Longrightarrow> accepted k v \<Longrightarrow> mget (merge_pairs ps m) k \<noteq> None"
proof (induction ps arbitrary: m)
  case (Cons kv ps)
  obtain k' v' where kv: "kv = (k', v')" by (cases kv)
  show ?case
  proof (cases "k' = k")
    case True
    then show ?thesis using Cons.prems kv merge_pairs_present by auto
  next
    case False
    then show ?thesis using Cons kv by simp
  qed
qed simp

lemma UsageCount_object [simp]: "UsageCount (Some (JObj ps)) = None" "UsageCount None = None"
  by (simp_all add: UsageCount_def)

lemma UsageCount_int [simp]: "0 \<le> n \<Longrightarrow> UsageCount (Some (JInt n)) = Some n"
  by (simp add: UsageCount_def)

lemma UsageCount_nonneg: "UsageCount v = Some n \<Longrightarrow> 0 \<le> n"
  by (auto simp: UsageCount_def trunc64_def zero_le_floor split: option.splits json.splits if_splits)

lemma CachedInputTokens_nonneg: "CachedInputTokens ob = Some n \<Longrightarrow> 0 \<le> n"
  using UsageCount_nonneg by (auto simp: CachedInputTokens_def split: option.splits json.splits)

lemma merge_any_count: "UsageCount (Some (merge_any cur v)) = UsageCount (Some v)"
  by (cases v) simp_all

lemma copy_any_count: "UsageCount (Some (copy_any v)) = UsageCount (Some v)"
  by (cases v) simp_all

lemma copied_count: "UsageCount (map_option copy_any x) = UsageCount x"
  by (cases x) (simp_all add: copy_any_count)

lemma copy_previous_count: "UsageCount (mget (copy_previous m) k) = UsageCount (mget m k)"
  by (simp add: copy_previous_def mget_map_snd copied_count)

lemma mget_copy_previous: "mget (copy_previous m) k = map_option copy_any (mget m k)"
  by (simp add: copy_previous_def mget_map_snd)

lemma sync_cached_other:
  "k \<noteq> ''prompt_cache_hit_tokens'' \<Longrightarrow> k \<noteq> ''prompt_tokens_details'' \<Longrightarrow> mget (sync_cached nx m) k = mget m k"
  by (auto simp: sync_cached_def Let_def split: option.splits json.splits)

lemma sync_cached_hit:
  "mget (sync_cached nx m) ''prompt_cache_hit_tokens'' =
     (case CachedInputTokens nx of
        Some n \<Rightarrow> if mget m ''prompt_cache_hit_tokens'' \<noteq> None then Some (JInt n) else None
      | None \<Rightarrow> mget m ''prompt_cache_hit_tokens'')"
  by (auto simp: sync_cached_def Let_def split: option.splits json.splits)

lemma sync_cached_details:
  "CachedInputTokens nx = Some n \<Longrightarrow> mget m ''prompt_tokens_details'' = Some (JObj d) \<Longrightarrow> mget d ''cached_tokens'' \<noteq> None \<Longrightarrow>
     \<exists>d'. mget (sync_cached nx m) ''prompt_tokens_details'' = Some (JObj d') \<and> mget d' ''cached_tokens'' = Some (JInt n)"
  by (auto simp: sync_cached_def Let_def)

lemma merge_any_present:
  assumes "mget d k = Some v" "accepted k v" "k \<noteq> ''prompt_cache_hit_tokens''" "k \<noteq> ''prompt_tokens_details''"
  shows "\<exists>d'. merge_any cur (JObj d) = JObj d' \<and> mget d' k \<noteq> None"
  using merge_pairs_accepted [OF assms(1,2)] assms(3,4) by (simp add: sync_cached_other)

text \<open>A counter after the fields of the next snapshot were taken, before the spellings are synchronized.\<close>

lemma accepted_count: "k \<in> set count_keys \<Longrightarrow> accepted k v \<longleftrightarrow> UsageCount (Some v) \<noteq> None"
  by (auto simp: accepted_def count_keys_def UsageCount_def)

lemma count_key_not_details: "k \<in> set count_keys \<Longrightarrow> k \<noteq> ''prompt_tokens_details''"
  by (auto simp: count_keys_def)

lemma merge_pairs_count:
  assumes wf: "wfmap nx" and k: "k \<in> set count_keys"
  shows "UsageCount (mget (merge_pairs nx (copy_previous pv)) k) =
      (case UsageCount (mget nx k) of Some n \<Rightarrow> Some n | None \<Rightarrow> UsageCount (mget pv k))"
    and "mget (merge_pairs nx (copy_previous pv)) k \<noteq> None \<longleftrightarrow> mget pv k \<noteq> None \<or> UsageCount (mget nx k) \<noteq> None"
proof -
  have "UsageCount (mget (merge_pairs nx (copy_previous pv)) k) =
      (case UsageCount (mget nx k) of Some n \<Rightarrow> Some n | None \<Rightarrow> UsageCount (mget pv k)) \<and>
    (mget (merge_pairs nx (copy_previous pv)) k \<noteq> None \<longleftrightarrow> mget pv k \<noteq> None \<or> UsageCount (mget nx k) \<noteq> None)"
  proof (cases "mget nx k")
    case (Some v)
    then show ?thesis
      by (cases "UsageCount (Some v)")
        (simp_all add: mget_merge_pairs [OF wf] accepted_count [OF k] merge_any_count copied_count mget_copy_previous)
  qed (simp add: mget_merge_pairs [OF wf] copied_count mget_copy_previous)
  then show "UsageCount (mget (merge_pairs nx (copy_previous pv)) k) =
      (case UsageCount (mget nx k) of Some n \<Rightarrow> Some n | None \<Rightarrow> UsageCount (mget pv k))"
    "mget (merge_pairs nx (copy_previous pv)) k \<noteq> None \<longleftrightarrow> mget pv k \<noteq> None \<or> UsageCount (mget nx k) \<noteq> None"
    by blast+
qed

lemma cached_merged:
  assumes wf: "wfmap nx" and n: "CachedInputTokens nx = Some n"
  shows "CachedInputTokens (sync_cached nx (merge_pairs nx m)) = Some n"
proof (cases "mget (merge_pairs nx m) ''prompt_cache_hit_tokens''")
  case (Some v)
  then have "mget (sync_cached nx (merge_pairs nx m)) ''prompt_cache_hit_tokens'' = Some (JInt n)"
    using n by (simp add: sync_cached_hit)
  then show ?thesis using CachedInputTokens_nonneg [OF n] by (simp add: CachedInputTokens_def [of "sync_cached nx _"])
next
  case None
  have "UsageCount (mget nx ''prompt_cache_hit_tokens'') = None"
  proof (rule ccontr)
    assume "\<not> ?thesis"
    then obtain v where "mget nx ''prompt_cache_hit_tokens'' = Some v" "accepted ''prompt_cache_hit_tokens'' v"
      by (cases "mget nx ''prompt_cache_hit_tokens''") (auto simp: accepted_count count_keys_def)
    then show False using None merge_pairs_accepted by blast
  qed
  then obtain d where d: "mget nx ''prompt_tokens_details'' = Some (JObj d)" "UsageCount (mget d ''cached_tokens'') = Some n"
    using n by (auto simp: CachedInputTokens_def split: option.splits json.splits)
  obtain v where v: "mget d ''cached_tokens'' = Some v" "accepted ''cached_tokens'' v"
    using d(2) by (cases "mget d ''cached_tokens''") (auto simp: accepted_count count_keys_def)
  have "accepted ''prompt_tokens_details'' (JObj d)" by (simp add: accepted_def count_keys_def)
  then obtain cur where "mget (merge_pairs nx m) ''prompt_tokens_details'' = Some (merge_any cur (JObj d))"
    using d(1) by (simp add: mget_merge_pairs [OF wf])
  then obtain d' where "mget (merge_pairs nx m) ''prompt_tokens_details'' = Some (JObj d')" "mget d' ''cached_tokens'' \<noteq> None"
    using merge_any_present [OF v] by auto
  then obtain d2 where "mget (sync_cached nx (merge_pairs nx m)) ''prompt_tokens_details'' = Some (JObj d2)"
      "mget d2 ''cached_tokens'' = Some (JInt n)"
    using sync_cached_details [OF n] by blast
  moreover have "mget (sync_cached nx (merge_pairs nx m)) ''prompt_cache_hit_tokens'' = None"
    using None n by (simp add: sync_cached_hit)
  ultimately show ?thesis using CachedInputTokens_nonneg [OF n] by (simp add: CachedInputTokens_def [of "sync_cached nx _"])
qed

text \<open>
  snapshots replace, never add and never erase. After a merge a token counter is the next
  snapshot's if that has a count for it, otherwise it is unchanged (a null, a missing field or a
  value that is not a count cannot remove it), the cached tokens following either of their two
  spellings; and the cached tokens read from the result are those of the next snapshot whenever it
  reports any.
\<close>

theorem usage_snapshots_merge:
  fixes previous :: "obj option" and nx :: obj
  defines "merged \<equiv> or_nil (MergeUsage previous (Some nx))"
  assumes wf: "wfmap nx" and k: "k \<in> set count_keys"
  shows "UsageCount (mget merged k) =
      (case UsageCount (mget nx k) of
         Some n \<Rightarrow> Some n
       | None \<Rightarrow>
           if k = ''prompt_cache_hit_tokens'' \<and> mget (or_nil previous) k \<noteq> None \<and> CachedInputTokens nx \<noteq> None
           then CachedInputTokens nx
           else UsageCount (mget (or_nil previous) k))
    \<and> CachedInputTokens nx \<in> {None, CachedInputTokens merged}"
proof -
  let ?m = "merge_pairs nx (copy_previous (or_nil previous))"
  have merged: "merged = sync_cached nx ?m" by (simp add: merged_def MergeUsage_def merge_usage_def or_nil_def)
  note m = merge_pairs_count [OF wf k, of "or_nil previous"]
  have "UsageCount (mget merged k) =
      (case UsageCount (mget nx k) of
         Some n \<Rightarrow> Some n
       | None \<Rightarrow>
           if k = ''prompt_cache_hit_tokens'' \<and> mget (or_nil previous) k \<noteq> None \<and> CachedInputTokens nx \<noteq> None
           then CachedInputTokens nx
           else UsageCount (mget (or_nil previous) k))"
  proof (cases "k = ''prompt_cache_hit_tokens''")
    case False
    then show ?thesis using m(1) count_key_not_details [OF k] by (simp add: merged sync_cached_other)
  next
    case True
    show ?thesis
    proof (cases "CachedInputTokens nx")
      case None
      then show ?thesis using m(1) True by (simp add: merged sync_cached_hit)
    next
      case (Some n)
      have "UsageCount (mget nx ''prompt_cache_hit_tokens'') = Some n \<or> UsageCount (mget nx ''prompt_cache_hit_tokens'') = None"
        using Some by (auto simp: CachedInputTokens_def split: option.splits)
      then show ?thesis
        using m True Some CachedInputTokens_nonneg [OF Some]
        by (auto simp: merged sync_cached_hit split: option.splits)
    qed
  qed
  moreover have "CachedInputTokens nx \<in> {None, CachedInputTokens merged}"
    using cached_merged [OF wf] by (cases "CachedInputTokens nx") (simp_all add: merged)
  ultimately show ?thesis by blast
qed

text \<open>A late frame that knows only the credit and the cached tokens.\<close>

lemma usage_snapshots_merge_witness:
  "UsageCount (mget (or_nil (MergeUsage
      (Some [(''prompt_tokens'', JInt 12), (''total_tokens'', JInt 20)])
      (Some [(''credit'', JFloat 1), (''total_tokens'', JNull)]))) ''total_tokens'') = Some 20"
  using usage_snapshots_merge [of "[(''credit'', JFloat 1), (''total_tokens'', JNull)]" "''total_tokens''"
      "Some [(''prompt_tokens'', JInt 12), (''total_tokens'', JInt 20)]"]
  by (simp add: count_keys_def or_nil_def UsageCount_def)

end
