(* ===== verification/ReasoningProps.thy ===== *)
theory ReasoningProps
  imports ReasoningLoop
begin

text \<open>
  The ring and the counters of the reasoning guard stand for the last 256 lines, and the guard
  decides by them alone.
\<close>

subsection \<open>Counting the lines of a window\<close>

definition counts_lines :: "'k list \<Rightarrow> ('k, nat) gomap \<Rightarrow> bool" where
  "counts_lines w m \<longleftrightarrow> wfmap m \<and> (\<forall>k. mget m k = (if k \<in> set w then Some (count_list w k) else None))"

lemma counts_linesD:
  "counts_lines w m \<Longrightarrow> wfmap m" "counts_lines w m \<Longrightarrow> mget m k = (if k \<in> set w then Some (count_list w k) else None)"
  by (simp_all add: counts_lines_def)

lemma counts_of: "counts_lines w m \<Longrightarrow> count_of m k = count_list w k"
  by (simp add: counts_linesD(2) count_of_def count_list_0_iff)

lemma counts_lines_Nil [simp]: "counts_lines [] []"
  by (simp add: counts_lines_def)

lemma counts_lines_add: "counts_lines w m \<Longrightarrow> counts_lines (w @ [k]) (mput k (count_of m k + 1) m)"
  by (auto simp: counts_of counts_lines_def [of "w @ [k]"] counts_linesD)

lemma counts_lines_drop: "counts_lines (x # w) m \<Longrightarrow> counts_lines w (drop_count x m)"
  by (auto simp: drop_count_def counts_of counts_lines_def [of w] counts_linesD count_list_0_iff)

lemma counts_lines_unique:
  assumes "counts_lines w m"
  shows "set (mkeys m) = set w" "length m = card (set w)"
proof -
  have "k \<in> set (mkeys m) \<longleftrightarrow> k \<in> set w" for k
    unfolding mget_None_keys [of m k, symmetric, THEN arg_cong [where f = Not], simplified not_not]
    using counts_linesD(2) [OF assms, of k] by (cases "k \<in> set w") simp_all
  then show keys: "set (mkeys m) = set w" by blast
  have "length (mkeys m) = card (set (mkeys m))" using distinct_card [of "mkeys m"] counts_linesD(1) [OF assms] by simp
  then show "length m = card (set w)" unfolding keys by simp
qed

text \<open>Lines that occur more than once.\<close>

definition repeats :: "'k list \<Rightarrow> nat" where
  "repeats w = length (filter (\<lambda>k. 2 \<le> count_list w k) w)"

lemma count_list_filter: "count_list (filter P w) k = (if P k then count_list w k else 0)"
  by (induction w) auto

lemma counts_lines_repeats:
  assumes "counts_lines w m"
  shows "repeated_lines m = repeats w"
proof -
  let ?f = "\<lambda>k. if 2 \<le> count_list w k then count_list w k else 0"
  have "n = count_list w k" if "(k, n) \<in> set m" for k n
    using that wf_mget_iff [OF counts_linesD(1) [OF assms], of k n] counts_linesD(2) [OF assms, of k]
    by (simp split: if_splits)
  then have eq: "map (\<lambda>(_, n). if 2 \<le> n then n else 0) m = map (\<lambda>kn. ?f (fst kn)) m" by fastforce
  have "repeated_lines m = sum_list (map ?f (mkeys m))" unfolding repeated_lines_def eq map_map comp_def ..
  also have "\<dots> = (\<Sum>k\<in>set (mkeys m). ?f k)"
    using counts_linesD(1) [OF assms] by (rule sum_list_distinct_conv_sum_set)
  also have "\<dots> = (\<Sum>k\<in>set w. count_list (filter (\<lambda>k. 2 \<le> count_list w k) w) k)"
    unfolding counts_lines_unique(1) [OF assms] by (rule sum.cong) (simp_all add: count_list_filter)
  also have "\<dots> = repeats w" unfolding repeats_def by (rule sum_count_set) auto
  finally show ?thesis .
qed

subsection \<open>The ring\<close>

definition recent :: "line_key list \<Rightarrow> line_key list" where
  "recent ks = drop (length ks - reasoningLoopWindow) ks"

definition holds_lines :: "guard \<Rightarrow> line_key list \<Rightarrow> bool" where
  "holds_lines g ks \<longleftrightarrow>
     length (g_window g) = reasoningLoopWindow
     \<and> g_size g = min (length ks) reasoningLoopWindow
     \<and> g_position g = length ks mod reasoningLoopWindow
     \<and> (\<forall>i < length ks. length ks - reasoningLoopWindow \<le> i \<longrightarrow> g_window g ! (i mod reasoningLoopWindow) = ks ! i)
     \<and> counts_lines (recent ks) (g_counts g)"

lemma holds_linesD:
  assumes "holds_lines g ks"
  shows "length (g_window g) = reasoningLoopWindow" "g_size g = min (length ks) reasoningLoopWindow"
    "g_position g = length ks mod reasoningLoopWindow"
    "i < length ks \<Longrightarrow> length ks - reasoningLoopWindow \<le> i \<Longrightarrow> g_window g ! (i mod reasoningLoopWindow) = ks ! i"
    "counts_lines (recent ks) (g_counts g)"
  using assms by (auto simp: holds_lines_def)

lemma window_pos [simp]: "0 < reasoningLoopWindow"
  by (simp add: reasoningLoopWindow_def)

lemma length_recent: "length (recent ks) = min (length ks) reasoningLoopWindow"
  by (simp add: recent_def min_def)

lemma recent_short: "length ks < reasoningLoopWindow \<Longrightarrow> recent (ks @ [k]) = recent ks @ [k]"
  by (simp add: recent_def)

lemma recent_full:
  assumes "reasoningLoopWindow \<le> length ks"
  shows "recent ks = ks ! (length ks - reasoningLoopWindow) # drop (Suc (length ks - reasoningLoopWindow)) ks"
    "recent (ks @ [k]) = drop (Suc (length ks - reasoningLoopWindow)) ks @ [k]"
proof -
  have "length ks - reasoningLoopWindow < length ks" using assms window_pos by linarith
  then show "recent ks = ks ! (length ks - reasoningLoopWindow) # drop (Suc (length ks - reasoningLoopWindow)) ks"
    by (simp add: recent_def Cons_nth_drop_Suc)
  show "recent (ks @ [k]) = drop (Suc (length ks - reasoningLoopWindow)) ks @ [k]"
    using assms \<open>_ < length ks\<close> by (simp add: recent_def Suc_diff_le)
qed

lemma near_mod_eq:
  fixes i j n :: nat
  assumes "i mod n = j mod n" "i < j" "j < i + n"
  shows "False"
proof -
  have "j mod n = i mod n" using assms(1) by simp
  then obtain q where "j = i + n * q" using mod_eq_nat1E [of j n i] assms(2) less_imp_le by metis
  then show False using assms(2,3) by (cases q) auto
qed

lemma take_key_counts:
  assumes "holds_lines g ks"
  shows "counts_lines (recent (ks @ [k])) (g_counts (take_key k g))"
proof (cases "reasoningLoopWindow \<le> length ks")
  case True
  let ?o = "length ks - reasoningLoopWindow"
  have sz: "g_size g = reasoningLoopWindow" using assms True by (simp add: holds_lines_def)
  have "?o mod reasoningLoopWindow = length ks mod reasoningLoopWindow" using True by (metis le_mod_geq)
  moreover have "?o < length ks" using True window_pos by linarith
  moreover have "g_window g ! (?o mod reasoningLoopWindow) = ks ! ?o"
    using holds_linesD(4) [OF assms, of ?o] \<open>?o < length ks\<close> by simp
  ultimately have o': "g_window g ! g_position g = ks ! ?o" using holds_linesD(3) [OF assms] by simp
  have "counts_lines (drop (Suc ?o) ks) (drop_count (ks ! ?o) (g_counts g))"
    using assms recent_full(1) [OF True] by (intro counts_lines_drop) (simp add: holds_lines_def)
  then have "counts_lines (drop (Suc ?o) ks @ [k])
      (mput k (count_of (drop_count (ks ! ?o) (g_counts g)) k + 1) (drop_count (ks ! ?o) (g_counts g)))"
    by (rule counts_lines_add)
  then show ?thesis using sz o' recent_full(2) [OF True] by (simp add: take_key_def Let_def)
next
  case False
  then have "g_size g \<noteq> reasoningLoopWindow" using assms by (simp add: holds_lines_def)
  then have "g_counts (take_key k g) = mput k (count_of (g_counts g) k + 1) (g_counts g)"
    by (simp add: take_key_def Let_def)
  then show ?thesis using counts_lines_add [OF holds_linesD(5) [OF assms], of k] False by (simp add: recent_short)
qed

lemma take_key_ring:
  assumes "holds_lines g ks" "i < Suc (length ks)" "Suc (length ks) - reasoningLoopWindow \<le> i"
  shows "g_window (take_key k g) ! (i mod reasoningLoopWindow) = (ks @ [k]) ! i"
proof -
  have w: "g_window (take_key k g) = (g_window g)[length ks mod reasoningLoopWindow := k]"
    using assms(1) by (simp add: take_key_def Let_def holds_lines_def)
  have l: "length (g_window g) = reasoningLoopWindow" using assms(1) by (simp add: holds_lines_def)
  show ?thesis
  proof (cases "i = length ks")
    case True
    then show ?thesis using w l by (simp add: nth_append)
  next
    case False
    then have "i < length ks" using assms(2) by simp
    moreover have "i mod reasoningLoopWindow \<noteq> length ks mod reasoningLoopWindow"
    proof
      assume "i mod reasoningLoopWindow = length ks mod reasoningLoopWindow"
      moreover have "length ks < i + reasoningLoopWindow" using assms(3) by linarith
      ultimately show False using near_mod_eq \<open>i < length ks\<close> by blast
    qed
    ultimately show ?thesis using w l assms(1,3) by (simp add: nth_append holds_lines_def)
  qed
qed

lemma take_key_holds: "holds_lines g ks \<Longrightarrow> holds_lines (take_key k g) (ks @ [k])"
  using take_key_ring [of g ks] take_key_counts [of g ks k]
  by (auto simp: holds_lines_def [of _ "ks @ [k]"])
    (auto simp: holds_lines_def take_key_def Let_def mod_Suc_eq)

lemma holds_lines_cong:
  "g_window g' = g_window g \<Longrightarrow> g_size g' = g_size g \<Longrightarrow> g_position g' = g_position g \<Longrightarrow> g_counts g' = g_counts g
   \<Longrightarrow> holds_lines g' ks = holds_lines g ks"
  by (simp add: holds_lines_def)

lemma holds_new: "holds_lines new_guard []"
  by (simp add: holds_lines_def new_guard_def recent_def)

lemma holds_reset: "holds_lines g ks \<Longrightarrow> holds_lines (reset_guard g) []"
  by (simp add: holds_lines_def reset_guard_def recent_def)

subsection \<open>The verdict\<close>

definition loop_verdict :: "nat \<Rightarrow> line_key list \<Rightarrow> stream_error option" where
  "loop_verdict characters ks =
     (if characters < reasoningLoopMinChars \<or> length ks < reasoningLoopWindow
         \<or> reasoningLoopMaxUnique < card (set (recent ks))
         \<or> repeats (recent ks) * 100 < reasoningLoopCoveragePercent * reasoningLoopWindow
      then None
      else Some (loop_error characters reasoningLoopWindow (card (set (recent ks))) (repeats (recent ks))))"

lemma verdict_by_lines: "holds_lines g ks \<Longrightarrow> verdict g = loop_verdict (g_characters g) ks"
  using counts_lines_unique(2) [of "recent ks" "g_counts g"] counts_lines_repeats [of "recent ks" "g_counts g"]
  by (auto simp: verdict_def loop_verdict_def holds_lines_def min_def)

lemma take_key_characters [simp]: "g_characters (take_key k g) = g_characters g"
  by (simp add: take_key_def Let_def)

text \<open>
  C21: completing a line refines the textbook check. If the ring holds the lines \<open>ks\<close>, an empty
  line changes nothing, and any other is appended, after which the stream is stopped exactly when
  at least 8000 characters were seen and, of the last 256 lines, at most 12 are different and at
  least 95 percent occur more than once.
\<close>

theorem guard_refines_recent_lines:
  assumes "holds_lines g ks"
  shows "case completeLine sha g of
      (g', e) \<Rightarrow>
        if g_nonempty g
        then holds_lines g' (ks @ [fst (line_key_of sha g)]) \<and> e = loop_verdict (g_characters g) (ks @ [fst (line_key_of sha g)])
        else holds_lines g' ks \<and> e = None"
proof (cases "g_nonempty g")
  case True
  obtain k n where k: "line_key_of sha g = (k, n)" by (cases "line_key_of sha g")
  let ?g = "g\<lparr>g_serial := n, g_line := [], g_overlong := False, g_nonempty := False\<rparr>"
  have "holds_lines ?g ks" using assms by (simp add: holds_lines_def)
  then have "holds_lines (take_key k ?g) (ks @ [k])" by (rule take_key_holds)
  then show ?thesis using True k verdict_by_lines by (simp add: completeLine_def Let_def)
qed (use assms in \<open>simp add: completeLine_def holds_lines_def\<close>)

lemma guard_refines_recent_lines_witness:
  "holds_lines (fst (completeLine (\<lambda>_. ''h'') (new_guard\<lparr>g_line := [0x61], g_nonempty := True\<rparr>))) [(''h'', 0)]
   \<and> snd (completeLine (\<lambda>_. ''h'') (new_guard\<lparr>g_line := [0x61], g_nonempty := True\<rparr>)) = None"
proof -
  have h: "holds_lines (new_guard\<lparr>g_line := [0x61], g_nonempty := True\<rparr>) []"
    using holds_new by (simp add: holds_lines_def)
  have k: "line_key_of (\<lambda>_. ''h'') (new_guard\<lparr>g_line := [0x61], g_nonempty := True\<rparr>) = ((''h'', 0), 0)"
    by (simp add: line_key_of_def new_guard_def trim_runes_def reasoningLoopMaxRepeatedRunes_def reasoningSpace_def)
  show ?thesis
    using guard_refines_recent_lines [OF h, of "\<lambda>_. ''h''"] k
    by (simp add: loop_verdict_def new_guard_def reasoningLoopMinChars_def split: prod.splits)
qed

end
