(* ===== verification/Rewrite.thy ===== *)
theory Rewrite
  imports Json
begin

text \<open>
  Fitting a chat request to the vendor's protocol: \<open>internal/upstream/payload.go\<close>,
  \<open>tool_pairing.go\<close>, \<open>thinking.go\<close>, \<open>effort_catalog.go\<close>, \<open>cache_key.go\<close> and \<open>prepareBody\<close> of
  \<open>client.go\<close>. A body is the value it decodes to, its numbers being kept as they are written,
  or a text that is passed on as it is.
\<close>

datatype body = Raw string | Doc json

text \<open>\<open>strings.EqualFold\<close> with an ASCII word.\<close>

definition equal_fold :: "string \<Rightarrow> string \<Rightarrow> bool" where
  "equal_fold s t \<longleftrightarrow> fold_name s = fold_name t"

text \<open>\<open>m[k] == s\<close> for an \<open>any\<close> value.\<close>

definition is_str :: "obj \<Rightarrow> string \<Rightarrow> string \<Rightarrow> bool" where
  "is_str m k s \<longleftrightarrow> mget m k = Some (JStr s)"

subsection \<open>Tool choice and roles\<close>

definition suppress_tools :: "obj \<Rightarrow> obj" where
  "suppress_tools ob = mdel ''functions'' (mdel ''tools'' ob)"

definition chosen_name :: "obj \<Rightarrow> string" where
  "chosen_name v =
     (let name = (case mget v ''function'' of Some (JObj fn) \<Rightarrow> get_str fn ''name'' | _ \<Rightarrow> [])
      in trim_space (if name = [] then get_str v ''name'' else name))"

definition normalizeToolChoice :: "obj \<Rightarrow> obj" where
  "normalizeToolChoice ob =
     (case mget ob ''tool_choice'' of
        None \<Rightarrow> ob
      | Some (JStr v) \<Rightarrow>
          if equal_fold (trim_space v) ''none'' then suppress_tools (mdel ''tool_choice'' ob) else ob
      | Some (JObj v) \<Rightarrow>
          let typ = to_lower (trim_space (get_str v ''type''))
          in if typ = ''none'' then suppress_tools (mdel ''tool_choice'' ob)
             else if typ = ''auto'' \<or> typ = ''required'' then mput ''tool_choice'' (JStr typ) ob
             else if typ = ''function''
             then mput ''tool_choice'' (JStr (if chosen_name v \<noteq> [] then chosen_name v else ''auto'')) ob
             else mdel ''tool_choice'' ob
      | Some _ \<Rightarrow> mdel ''tool_choice'' ob)"

definition normalize_role :: "json \<Rightarrow> json" where
  "normalize_role m =
     (case m of
        JObj msg \<Rightarrow>
          (case mget msg ''role'' of
             Some (JStr role) \<Rightarrow>
               if equal_fold (trim_space role) ''developer'' then JObj (mput ''role'' (JStr ''system'') msg) else m
           | _ \<Rightarrow> m)
      | _ \<Rightarrow> m)"

definition map_messages :: "(json list \<Rightarrow> json list) \<Rightarrow> obj \<Rightarrow> obj" where
  "map_messages f ob =
     (case mget ob ''messages'' of Some (JArr ms) \<Rightarrow> mput ''messages'' (JArr (f ms)) ob | _ \<Rightarrow> ob)"

definition normalizeRoles :: "obj \<Rightarrow> obj" where
  "normalizeRoles ob = map_messages (map normalize_role) ob"

subsection \<open>Pairing of tool calls and results\<close>

definition message_of :: "json \<Rightarrow> obj option" where
  "message_of m = (case m of JObj o' \<Rightarrow> Some o' | _ \<Rightarrow> None)"

definition calls_of :: "json \<Rightarrow> json list" where
  "calls_of m = array_of (mget (nested_of (Some m)) ''tool_calls'')"

definition is_tool :: "json \<Rightarrow> bool" where
  "is_tool m \<longleftrightarrow> is_str (nested_of (Some m)) ''role'' ''tool''"

text \<open>An assistant message with calls opens a group.\<close>

definition opens_group :: "json \<Rightarrow> bool" where
  "opens_group m \<longleftrightarrow> is_str (nested_of (Some m)) ''role'' ''assistant'' \<and> calls_of m \<noteq> []"

definition call_id :: "json \<Rightarrow> string" where
  "call_id c = get_str (nested_of (Some c)) ''id''"

definition result_id :: "json \<Rightarrow> string" where
  "result_id m = get_str (nested_of (Some m)) ''tool_call_id''"

text \<open>The ids of the calls, without the empty one; a set of which only membership and size count.\<close>

definition declared_ids :: "json \<Rightarrow> string list" where
  "declared_ids m = remdups (filter (\<lambda>i. i \<noteq> []) (map call_id (calls_of m)))"

record collected =
  co_results :: "json list"
  co_between :: "json list"
  co_changed :: bool
  co_rest :: "json list"

abbreviation stop_at :: "json list \<Rightarrow> collected" where
  "stop_at ms \<equiv> \<lparr>co_results = [], co_between = [], co_changed = False, co_rest = ms\<rparr>"

text \<open>
  The messages after an opening one: results of the group, and what stands between them. \<open>seen\<close>
  are the ids with a result so far; the collection ends when every id has one.
\<close>

fun collect_results :: "string list \<Rightarrow> string list \<Rightarrow> bool \<Rightarrow> json list \<Rightarrow> collected" where
  "collect_results want seen sawNonTool [] = stop_at []"
| "collect_results want seen sawNonTool (m # ms) =
     (case message_of m of
        None \<Rightarrow> stop_at (m # ms)
      | Some _ \<Rightarrow>
          if is_tool m then
            if result_id m \<notin> set want then stop_at (m # ms)
            else
              let seen' = (if result_id m \<in> set seen then seen else result_id m # seen);
                  c = (if length seen' = length want then stop_at ms else collect_results want seen' sawNonTool ms)
              in c\<lparr>co_results := m # co_results c, co_changed := sawNonTool \<or> co_changed c\<rparr>
          else if opens_group m then stop_at (m # ms)
          else
            let c = collect_results want seen True ms
            in c\<lparr>co_between := m # co_between c\<rparr>)"

lemma collect_rest_shorter: "length (co_rest (collect_results want seen saw ms)) \<le> length ms"
proof (induction ms arbitrary: seen saw)
  case (Cons m ms)
  have IH: "length (co_rest (collect_results want seen saw ms)) \<le> Suc (length ms)" for seen saw
    using Cons.IH [of seen saw] by linarith
  show ?case by (auto simp: Let_def IH split: option.split)
qed simp

function repack_loop :: "json list \<Rightarrow> json list \<times> bool" where
  "repack_loop [] = ([], False)"
| "repack_loop (m # ms) =
     (if opens_group m then
        let c = collect_results (declared_ids m) [] False ms
        in (case repack_loop (co_rest c) of
              (out, ch) \<Rightarrow> (m # co_results c @ co_between c @ out, co_changed c \<or> ch))
      else (case repack_loop ms of (out, ch) \<Rightarrow> (m # out, ch)))"
  by pat_completeness auto
termination
  by (relation "measure length") (auto intro: le_less_trans [OF collect_rest_shorter])

definition repackToolResultBlocks :: "json list \<Rightarrow> json list \<times> bool" where
  "repackToolResultBlocks ms =
     (if length ms < 3 then (ms, False)
      else case repack_loop ms of (out, ch) \<Rightarrow> if ch then (out, True) else (ms, False))"

text \<open>The block of results after an opening message: those that match, and whether any did not.\<close>

fun match_results :: "string list \<Rightarrow> string list \<Rightarrow> json list \<Rightarrow> json list \<times> bool" where
  "match_results declared matched [] = ([], False)"
| "match_results declared matched (m # ms) =
     (if result_id m \<in> set declared \<and> result_id m \<notin> set matched
      then (case match_results declared (result_id m # matched) ms of (rs, ch) \<Rightarrow> (m # rs, ch))
      else (case match_results declared matched ms of (rs, ch) \<Rightarrow> (rs, True)))"

text \<open>The calls that have a result, each id once.\<close>

fun keep_calls :: "string list \<Rightarrow> json list \<Rightarrow> json list" where
  "keep_calls matched [] = []"
| "keep_calls matched (c # cs) =
     (if message_of c \<noteq> None \<and> call_id c \<in> set matched then c # keep_calls (removeAll (call_id c) matched) cs
      else keep_calls matched cs)"

definition restrict_calls :: "json \<Rightarrow> json list \<Rightarrow> json" where
  "restrict_calls m kept =
     (if length kept = length (calls_of m) then m
      else let msg = nested_of (Some m)
           in JObj (if kept = [] then mdel ''tool_calls'' msg else mput ''tool_calls'' (JArr kept) msg))"

function cleanup_loop :: "json list \<Rightarrow> json list \<times> bool" where
  "cleanup_loop [] = ([], False)"
| "cleanup_loop (m # ms) =
     (if is_tool m then (fst (cleanup_loop ms), True)
      else if opens_group m then
        (case match_results (declared_ids m) [] (takeWhile is_tool ms) of
           (results, ch1) \<Rightarrow>
             let kept = keep_calls (map result_id results) (calls_of m)
             in (case cleanup_loop (dropWhile is_tool ms) of
                   (out, ch2) \<Rightarrow>
                     (restrict_calls m kept # results @ out,
                      ch1 \<or> length kept \<noteq> length (calls_of m) \<or> ch2)))
      else (case cleanup_loop ms of (out, ch) \<Rightarrow> (m # out, ch)))"
  by pat_completeness auto
termination
  by (relation "measure length") (auto intro: le_less_trans [OF length_dropWhile_le])

definition has_traffic :: "json list \<Rightarrow> bool" where
  "has_traffic ms \<longleftrightarrow> list_ex (\<lambda>m. is_tool m \<or> opens_group m) ms"

definition cleanupOrphanToolCalls :: "json list \<Rightarrow> json list \<times> bool" where
  "cleanupOrphanToolCalls ms =
     (if \<not> has_traffic ms then (ms, False)
      else case cleanup_loop ms of (out, ch) \<Rightarrow> if ch then (out, True) else (ms, False))"

subsection \<open>Reasoning effort\<close>

definition isDeepSeekModel :: "string \<Rightarrow> bool" where
  "isDeepSeekModel model \<longleftrightarrow> has_prefix (to_lower (trim_space model)) ''deepseek''"

definition ensureDeepSeekEffort :: "string \<Rightarrow> obj \<Rightarrow> obj" where
  "ensureDeepSeekEffort defaultEffort ob =
     (if mget ob ''reasoning_effort'' \<noteq> None \<or> mget ob ''reasoningEffort'' \<noteq> None then ob
      else mput ''reasoning_effort'' (JStr (if defaultEffort = [] then ''high'' else defaultEffort)) ob)"

definition injectThinking :: "string \<Rightarrow> obj \<Rightarrow> obj" where
  "injectThinking defaultEffort ob =
     (if \<not> isDeepSeekModel (get_str ob ''model'') then ob
      else
        let th = obj_of (mget ob ''thinking'');
            typ = (case th of Some t \<Rightarrow> trim_space (get_str t ''type'') | None \<Rightarrow> [])
        in if typ \<noteq> [] then
             if equal_fold typ ''disabled'' then mdel ''reasoningEffort'' (mdel ''reasoning_effort'' ob)
             else ensureDeepSeekEffort defaultEffort ob
           else ensureDeepSeekEffort defaultEffort
             (mput ''thinking'' (JObj (mput ''type'' (JStr ''enabled'') (case th of None \<Rightarrow> [] | Some t \<Rightarrow> t))) ob))"

type_synonym effort_table = "(string, string list) gomap"
type_synonym default_table = "(string, string) gomap"

definition lookupDefaultEffort :: "default_table \<Rightarrow> string \<Rightarrow> string" where
  "lookupDefaultEffort defs model =
     (if model = [] then [] else case mget defs model of None \<Rightarrow> [] | Some d \<Rightarrow> d)"

definition effortRank :: "string \<Rightarrow> nat option" where
  "effortRank e = mget [(''off'', 0), (''minimal'', 1), (''low'', 2), (''medium'', 3), (''high'', 4), (''xhigh'', 5), (''max'', 6)] e"

definition rank_of :: "string \<Rightarrow> nat option" where
  "rank_of e = effortRank (trim_space (to_lower e))"

text \<open>The highest supported effort up to the requested one, and the lowest of all; the first of equals.\<close>

definition better :: "nat \<Rightarrow> string \<Rightarrow> (string \<times> nat) option \<Rightarrow> (string \<times> nat) option" where
  "better req s best =
     (case rank_of s of
        None \<Rightarrow> best
      | Some i \<Rightarrow> if i \<le> req \<and> (case best of None \<Rightarrow> True | Some (_, j) \<Rightarrow> j < i) then Some (s, i) else best)"

definition lower :: "string \<Rightarrow> (string \<times> nat) option \<Rightarrow> (string \<times> nat) option" where
  "lower s lowest =
     (case rank_of s of
        None \<Rightarrow> lowest
      | Some i \<Rightarrow> if (case lowest of None \<Rightarrow> True | Some (_, j) \<Rightarrow> i < j) then Some (s, i) else lowest)"

definition effort_key :: "obj \<Rightarrow> string option" where
  "effort_key ob =
     (if mget ob ''reasoning_effort'' \<noteq> None then Some ''reasoning_effort''
      else if mget ob ''reasoningEffort'' \<noteq> None then Some ''reasoningEffort'' else None)"

definition fit_effort :: "string list \<Rightarrow> string \<Rightarrow> nat \<Rightarrow> string \<Rightarrow> obj \<Rightarrow> obj" where
  "fit_effort supported reqStr req key ob =
     (case fold (better req) supported None of
        Some (best, _) \<Rightarrow> if \<not> equal_fold best reqStr then mput key (JStr best) ob else ob
      | None \<Rightarrow>
          (case fold lower supported None of
             Some (lowest, _) \<Rightarrow> mput key (JStr lowest) ob
           | None \<Rightarrow> ob))"

definition normalizeReasoningEffort :: "effort_table \<Rightarrow> obj \<Rightarrow> obj" where
  "normalizeReasoningEffort efforts ob =
     (let model = get_str ob ''model''
      in if model = [] then ob
         else case mget efforts model of
           None \<Rightarrow> ob
         | Some supported \<Rightarrow>
             (case effort_key ob of
                None \<Rightarrow> ob
              | Some key \<Rightarrow>
                  (case mget ob key of
                     Some (JStr r) \<Rightarrow>
                       let reqStr = trim_space (to_lower r)
                       in (case effortRank reqStr of
                             None \<Rightarrow> ob
                           | Some req \<Rightarrow> fit_effort supported reqStr req key ob)
                   | _ \<Rightarrow> ob)))"

text \<open>The reasoning of earlier answers.\<close>

definition reasoning_trace :: "json \<Rightarrow> bool" where
  "reasoning_trace m \<longleftrightarrow>
     get_str (nested_of (Some m)) ''reasoning'' \<noteq> [] \<or> mget (nested_of (Some m)) ''reasoning_content'' \<noteq> None"

definition backfill :: "json \<Rightarrow> json" where
  "backfill m =
     (let msg = nested_of (Some m)
      in if is_str msg ''role'' ''assistant'' \<and> mget msg ''reasoning_content'' = None
         then JObj (mput ''reasoning_content'' (JStr (get_str msg ''reasoning'')) msg) else m)"

definition backfillReasoningContent :: "obj \<Rightarrow> obj" where
  "backfillReasoningContent ob =
     (if isDeepSeekModel (get_str ob ''model'')
      then map_messages (\<lambda>ms. if list_ex reasoning_trace ms then map backfill ms else ms) ob
      else ob)"

subsection \<open>The whole adaptation\<close>

definition with_stream :: "obj \<Rightarrow> obj" where
  "with_stream ob0 =
     (let ob = mput ''stream'' (JBool True) ob0
      in if mget ob ''stream_options'' = None
         then mput ''stream_options'' (JObj [(''include_usage'', JBool True)]) ob else ob)"

definition pair_tools :: "json list \<Rightarrow> json list" where
  "pair_tools ms = fst (cleanupOrphanToolCalls (fst (repackToolResultBlocks ms)))"

definition prepare_obj :: "effort_table \<Rightarrow> default_table \<Rightarrow> obj \<Rightarrow> obj" where
  "prepare_obj efforts defs ob0 =
     (let ob = map_messages pair_tools (normalizeRoles (normalizeToolChoice (with_stream ob0)))
      in backfillReasoningContent (normalizeReasoningEffort efforts
           (injectThinking (lookupDefaultEffort defs (get_str ob ''model'')) ob)))"

definition PrepareBodyOptWithEffortsAndDefault :: "effort_table \<Rightarrow> default_table \<Rightarrow> body \<Rightarrow> body" where
  "PrepareBodyOptWithEffortsAndDefault efforts defs b =
     (case b of Doc (JObj ob) \<Rightarrow> Doc (JObj (prepare_obj efforts defs ob)) | _ \<Rightarrow> b)"

definition system_message :: json where
  "system_message = JObj [(''role'', JStr ''system''), (''content'', JStr ''You are a helpful assistant.'')]"

definition ensureConsoleSystem :: "body \<Rightarrow> body" where
  "ensureConsoleSystem b =
     (case b of
        Doc (JObj ob) \<Rightarrow>
          (case mget ob ''messages'' of
             Some (JArr (m # ms)) \<Rightarrow>
               if equal_fold (trim_space (get_str (nested_of (Some m)) ''role'')) ''system'' then b
               else Doc (JObj (mput ''messages'' (JArr (system_message # m # ms)) ob))
           | _ \<Rightarrow> b)
      | _ \<Rightarrow> b)"

subsection \<open>Cache key\<close>

definition buildCacheKey :: "(string \<Rightarrow> string) \<Rightarrow> string \<Rightarrow> string \<Rightarrow> string" where
  "buildCacheKey sha16 uid conversation =
     (let uid8 = take 8 uid
      in ''wb2a-'' @ (if uid8 = [] then ''-'' else uid8) @ ''-'' @ sha16 (uid @ ''|'' @ conversation))"

definition strField :: "obj \<Rightarrow> string \<Rightarrow> string" where
  "strField ob key = trim_space (get_str ob key)"

definition conversation_of :: "obj \<Rightarrow> string \<Rightarrow> string" where
  "conversation_of ob conversationID =
     (if strField ob ''conversation_id'' \<noteq> [] then strField ob ''conversation_id''
      else if strField ob ''conversationId'' \<noteq> [] then strField ob ''conversationId''
      else conversationID)"

definition InjectPromptCacheKey :: "(string \<Rightarrow> string) \<Rightarrow> string \<Rightarrow> string \<Rightarrow> body \<Rightarrow> body" where
  "InjectPromptCacheKey sha16 uid conversationID b =
     (case b of
        Doc (JObj ob) \<Rightarrow>
          if get_str ob ''prompt_cache_key'' \<noteq> [] then b
          else Doc (JObj (mput ''prompt_cache_key'' (JStr (buildCacheKey sha16 uid (conversation_of ob conversationID))) ob))
      | _ \<Rightarrow> b)"

end
