(* ===== verification/PairingProps.thy ===== *)
theory PairingProps
  imports Rewrite "HOL-Library.Sublist"
begin

text \<open>
  Tool calls and their results in a prepared request (\<open>internal/upstream/tool_pairing.go\<close>): what the
  vendor demands of a conversation, and that the rewriting reaches it, changes nothing that is
  already right, and loses no message that is not a tool result.
\<close>

subsection \<open>What the vendor accepts\<close>

text \<open>Every opening message is followed by exactly one result for each of its calls; no other results.\<close>

function well_paired :: "json list \<Rightarrow> bool" where
  "well_paired [] = True"
| "well_paired (m # ms) =
     (if is_tool m then False
      else if opens_group m then
        (let ids = map call_id (calls_of m); rs = map result_id (takeWhile is_tool ms)
         in distinct ids \<and> [] \<notin> set ids \<and> distinct rs \<and> set rs = set ids) \<and> well_paired (dropWhile is_tool ms)
      else well_paired ms)"
  by pat_completeness auto
termination
  by (relation "measure length") (auto intro: le_less_trans [OF length_dropWhile_le])

lemma well_paired_head: "well_paired ms \<Longrightarrow> takeWhile is_tool ms = [] \<and> dropWhile is_tool ms = ms"
  by (cases ms) (auto split: if_splits)

lemma opens_not_tool: "opens_group m \<Longrightarrow> \<not> is_tool m"
  by (auto simp: opens_group_def is_tool_def is_str_def)

lemma opens_obj: "opens_group m \<Longrightarrow> m = JObj (nested_of (Some m))"
  by (cases m) (auto simp: opens_group_def is_str_def nested_of_def)

subsection \<open>Matching\<close>

lemma call_id_obj: "call_id c \<noteq> [] \<Longrightarrow> message_of c \<noteq> None"
  by (cases c) (auto simp: call_id_def message_of_def nested_of_def get_str_def str_or_empty_def)

lemma declared_ids_set: "set (declared_ids m) = {i \<in> set (map call_id (calls_of m)). i \<noteq> []}"
  by (auto simp: declared_ids_def)

lemma subseq_elements: "subseq xs ys \<Longrightarrow> x \<in> set xs \<Longrightarrow> x \<in> set ys"
  by (induction rule: list_emb.induct) auto

lemma match_results_spec:
  assumes "match_results declared matched ms = (rs, ch)"
  shows "distinct (map result_id rs) \<and> (\<forall>x \<in> set rs. result_id x \<in> set declared \<and> result_id x \<notin> set matched)
    \<and> subseq rs ms \<and> (\<not> ch \<longrightarrow> rs = ms)"
  using assms
proof (induction ms arbitrary: matched rs ch)
  case (Cons m ms)
  show ?case
  proof (cases "result_id m \<in> set declared \<and> result_id m \<notin> set matched")
    case True
    obtain rs1 ch1 where r: "match_results declared (result_id m # matched) ms = (rs1, ch1)"
      by (cases "match_results declared (result_id m # matched) ms")
    then have e: "rs = m # rs1" "ch = ch1" using Cons.prems True by simp_all
    show ?thesis using Cons.IH [OF r] True unfolding e by (force simp: image_iff)
  next
    case False
    obtain rs1 ch1 where r: "match_results declared matched ms = (rs1, ch1)"
      by (cases "match_results declared matched ms")
    then have e: "rs = rs1" "ch" using Cons.prems False by auto
    show ?thesis using Cons.IH [OF r] e by auto
  qed
qed simp

lemma match_results_all:
  "distinct (map result_id ms) \<Longrightarrow> set (map result_id ms) \<subseteq> set declared - set matched \<Longrightarrow>
   match_results declared matched ms = (ms, False)"
proof (induction ms arbitrary: matched)
  case (Cons m ms)
  have "set (map result_id ms) \<subseteq> set declared - set (result_id m # matched)" using Cons.prems by (force simp: image_iff)
  then have "match_results declared (result_id m # matched) ms = (ms, False)" using Cons.IH Cons.prems(1) by simp
  then show ?case using Cons.prems by simp
qed simp

lemma keep_calls_spec:
  "distinct (map call_id (keep_calls matched cs)) \<and> subseq (keep_calls matched cs) cs
   \<and> set (map call_id (keep_calls matched cs)) = set matched \<inter> {call_id c | c. c \<in> set cs \<and> message_of c \<noteq> None}"
proof (induction cs arbitrary: matched)
  case (Cons c cs)
  show ?case
  proof (cases "message_of c \<noteq> None \<and> call_id c \<in> set matched")
    case True
    then show ?thesis using Cons.IH [of "removeAll (call_id c) matched"] by auto
  next
    case False
    then show ?thesis using Cons.IH [of matched] by auto
  qed
qed simp

lemma keep_calls_all:
  "distinct (map call_id cs) \<Longrightarrow> [] \<notin> set (map call_id cs) \<Longrightarrow> set (map call_id cs) \<subseteq> set matched \<Longrightarrow>
   keep_calls matched cs = cs"
proof (induction cs arbitrary: matched)
  case (Cons c cs)
  then have "set (map call_id cs) \<subseteq> set (removeAll (call_id c) matched)" by (force simp: image_iff)
  then have "keep_calls (removeAll (call_id c) matched) cs = cs" using Cons.IH Cons.prems(1,2) by simp
  moreover have "message_of c \<noteq> None" using Cons.prems(2) by (intro call_id_obj) auto
  ultimately show ?case using Cons.prems(3) by simp
qed simp

lemma restrict_calls_facts:
  assumes "opens_group m" "kept = keep_calls matched (calls_of m)"
  shows "calls_of (restrict_calls m kept) = kept" "\<not> is_tool (restrict_calls m kept)"
    "opens_group (restrict_calls m kept) \<longleftrightarrow> kept \<noteq> []"
    "length kept = length (calls_of m) \<Longrightarrow> restrict_calls m kept = m"
proof -
  have same: "kept = calls_of m" if "length kept = length (calls_of m)"
    using keep_calls_spec [of matched "calls_of m"] assms(2) that subseq_same_length by blast
  show calls: "calls_of (restrict_calls m kept) = kept"
    using same by (auto simp: restrict_calls_def calls_of_def nested_of_def array_of_def Let_def)
  have role: "mget (nested_of (Some (restrict_calls m kept))) ''role'' = mget (nested_of (Some m)) ''role''"
    by (auto simp: restrict_calls_def nested_of_def Let_def)
  show "\<not> is_tool (restrict_calls m kept)" using opens_not_tool [OF assms(1)] role by (simp add: is_tool_def is_str_def)
  show "opens_group (restrict_calls m kept) \<longleftrightarrow> kept \<noteq> []"
    using assms(1) role calls by (simp add: opens_group_def is_str_def)
  show "restrict_calls m kept = m" if "length kept = length (calls_of m)" using that by (simp add: restrict_calls_def)
qed

subsection \<open>Cleaning up\<close>

text \<open>The step on a group, with its pieces named.\<close>

lemma cleanup_group:
  assumes "opens_group m" "match_results (declared_ids m) [] (takeWhile is_tool ms) = (rs, ch1)"
    "cleanup_loop (dropWhile is_tool ms) = (out, ch2)"
  shows "cleanup_loop (m # ms) =
    (restrict_calls m (keep_calls (map result_id rs) (calls_of m)) # rs @ out,
     ch1 \<or> length (keep_calls (map result_id rs) (calls_of m)) \<noteq> length (calls_of m) \<or> ch2)"
  using assms opens_not_tool [OF assms(1)] by (simp add: Let_def)

lemma takeWhile_block:
  "\<forall>x \<in> set rs. P x \<Longrightarrow> takeWhile P ys = [] \<Longrightarrow> takeWhile P (rs @ ys) = rs"
  "\<forall>x \<in> set rs. P x \<Longrightarrow> takeWhile P ys = [] \<Longrightarrow> dropWhile P (rs @ ys) = ys"
  by (induction rs) (auto simp: takeWhile_eq_Nil_iff dropWhile_eq_self_iff)

lemma cleanup_paired: "well_paired (fst (cleanup_loop ms))"
proof (induction ms rule: cleanup_loop.induct)
  case (2 m ms)
  show ?case
  proof (cases "opens_group m")
    case True
    obtain rs ch1 where r: "match_results (declared_ids m) [] (takeWhile is_tool ms) = (rs, ch1)"
      by (cases "match_results (declared_ids m) [] (takeWhile is_tool ms)")
    obtain out ch2 where o': "cleanup_loop (dropWhile is_tool ms) = (out, ch2)"
      by (cases "cleanup_loop (dropWhile is_tool ms)")
    have out: "well_paired out" using "2.IH"(2) True opens_not_tool [OF True] r o' by auto
    let ?kept = "keep_calls (map result_id rs) (calls_of m)" let ?m = "restrict_calls m ?kept"
    note rs = match_results_spec [OF r]
    note facts = restrict_calls_facts [OF True refl, of "map result_id rs"]
    have tools: "\<forall>x \<in> set rs. is_tool x" using rs subseq_elements set_takeWhileD by metis
    have ids: "set (map call_id ?kept) = set (map result_id rs)"
    proof -
      have "set (map result_id rs) \<subseteq> {call_id c |c. c \<in> set (calls_of m) \<and> message_of c \<noteq> None}"
      proof
        fix i assume "i \<in> set (map result_id rs)"
        then have "i \<in> set (declared_ids m)" using rs by auto
        then obtain c where "c \<in> set (calls_of m)" "i = call_id c" "i \<noteq> []" by (auto simp: declared_ids_set)
        then show "i \<in> {call_id c |c. c \<in> set (calls_of m) \<and> message_of c \<noteq> None}" using call_id_obj [of c] by blast
      qed
      then show ?thesis using keep_calls_spec [of "map result_id rs" "calls_of m"] by auto
    qed
    have nonempty: "[] \<notin> set (map call_id ?kept)" unfolding ids using rs by (auto simp: declared_ids_set)
    have "well_paired (?m # rs @ out)"
    proof (cases "?kept = []")
      case False
      then show ?thesis
        using facts(1-3) rs ids nonempty keep_calls_spec [of "map result_id rs" "calls_of m"] out
          takeWhile_block(1) [OF tools, of out] takeWhile_block(2) [OF tools, of out] well_paired_head [OF out]
        by (simp only: well_paired.simps Let_def if_True if_False) simp
    next
      case True
      then have "rs = []" using ids by simp
      then show ?thesis using facts True out by simp
    qed
    then show ?thesis using cleanup_group [OF True r o'] by simp
  next
    case False
    then show ?thesis using "2.IH" by (cases "is_tool m") (auto split: prod.splits)
  qed
qed simp

lemma cleanup_unchanged: "cleanup_loop ms = (out, False) \<Longrightarrow> out = ms"
proof (induction ms arbitrary: out rule: cleanup_loop.induct)
  case (2 m ms)
  show ?case
  proof (cases "opens_group m")
    case True
    obtain rs ch1 where r: "match_results (declared_ids m) [] (takeWhile is_tool ms) = (rs, ch1)"
      by (cases "match_results (declared_ids m) [] (takeWhile is_tool ms)")
    obtain out2 ch2 where o': "cleanup_loop (dropWhile is_tool ms) = (out2, ch2)"
      by (cases "cleanup_loop (dropWhile is_tool ms)")
    have "out = restrict_calls m (keep_calls (map result_id rs) (calls_of m)) # rs @ out2" "\<not> ch1"
        "length (keep_calls (map result_id rs) (calls_of m)) = length (calls_of m)" "\<not> ch2"
      using "2.prems" cleanup_group [OF True r o'] by simp_all
    moreover have "rs = takeWhile is_tool ms" using match_results_spec [OF r] \<open>\<not> ch1\<close> by blast
    moreover have "out2 = dropWhile is_tool ms"
      using "2.IH"(2) True opens_not_tool [OF True] r o' \<open>\<not> ch2\<close> by auto
    ultimately show ?thesis using restrict_calls_facts(4) [OF True refl] by simp
  next
    case False
    then show ?thesis using "2.prems" "2.IH" by (cases "is_tool m") (auto split: prod.splits)
  qed
qed simp

lemma no_traffic_paired: "\<not> has_traffic ms \<Longrightarrow> well_paired ms"
  by (induction ms) (auto simp: has_traffic_def)

lemma cleanupOrphan_paired: "well_paired (fst (cleanupOrphanToolCalls ms))"
proof (cases "has_traffic ms")
  case True
  obtain out ch where c: "cleanup_loop ms = (out, ch)" by (cases "cleanup_loop ms")
  have "well_paired out" using cleanup_paired [of ms] c by simp
  then show ?thesis using True c cleanup_unchanged [of ms] by (cases ch) (auto simp: cleanupOrphanToolCalls_def)
qed (simp add: cleanupOrphanToolCalls_def no_traffic_paired)

lemma cleanup_identity: "well_paired ms \<Longrightarrow> cleanup_loop ms = (ms, False)"
proof (induction ms rule: well_paired.induct)
  case (2 m ms)
  show ?case
  proof (cases "opens_group m")
    case True
    note nt = opens_not_tool [OF True]
    let ?ids = "map call_id (calls_of m)" let ?rs = "takeWhile is_tool ms"
    have ids: "distinct ?ids" "[] \<notin> set ?ids" "distinct (map result_id ?rs)" "set (map result_id ?rs) = set ?ids"
        and rest: "well_paired (dropWhile is_tool ms)"
      using "2.prems" True nt by (simp_all add: Let_def)
    have "set (declared_ids m) = set ?ids" using ids(2) by (force simp: declared_ids_set image_iff)
    then have r: "match_results (declared_ids m) [] ?rs = (?rs, False)" using ids by (intro match_results_all) auto
    have k: "keep_calls (map result_id ?rs) (calls_of m) = calls_of m" using ids by (intro keep_calls_all) auto
    have o': "cleanup_loop (dropWhile is_tool ms) = (dropWhile is_tool ms, False)"
      using "2.IH"(1) True nt rest by blast
    show ?thesis using cleanup_group [OF True r o'] k by (simp add: restrict_calls_def)
  next
    case False
    then show ?thesis using "2.prems" "2.IH"(2) by (auto split: if_splits)
  qed
qed simp

subsection \<open>Repacking\<close>

lemma tool_obj: "is_tool m \<Longrightarrow> message_of m \<noteq> None"
  by (cases m) (auto simp: is_tool_def is_str_def nested_of_def message_of_def)

lemma collect_pieces:
  assumes "collect_results want seen saw ms = c"
  shows "list_all is_tool (co_results c)" "list_all (\<lambda>m. \<not> is_tool m) (co_between c)"
    "filter is_tool ms = co_results c @ filter is_tool (co_rest c)"
    "filter (\<lambda>m. \<not> is_tool m) ms = co_between c @ filter (\<lambda>m. \<not> is_tool m) (co_rest c)"
    "\<not> co_changed c \<Longrightarrow> ms = co_results c @ co_between c @ co_rest c \<and> (saw \<longrightarrow> co_results c = [])"
proof -
  have "list_all is_tool (co_results c) \<and> list_all (\<lambda>m. \<not> is_tool m) (co_between c)
    \<and> filter is_tool ms = co_results c @ filter is_tool (co_rest c)
    \<and> filter (\<lambda>m. \<not> is_tool m) ms = co_between c @ filter (\<lambda>m. \<not> is_tool m) (co_rest c)
    \<and> (\<not> co_changed c \<longrightarrow> ms = co_results c @ co_between c @ co_rest c \<and> (saw \<longrightarrow> co_results c = []))"
    using assms
  proof (induction ms arbitrary: seen saw c)
    case (Cons m ms)
    consider (stop) "c = stop_at (m # ms)"
      | (last) "is_tool m" "c = \<lparr>co_results = [m], co_between = [], co_changed = saw, co_rest = ms\<rparr>"
      | (result) seen' where "is_tool m"
          "c = (collect_results want seen' saw ms)\<lparr>co_results := m # co_results (collect_results want seen' saw ms),
             co_changed := saw \<or> co_changed (collect_results want seen' saw ms)\<rparr>"
      | (between) "\<not> is_tool m"
          "c = (collect_results want seen True ms)\<lparr>co_between := m # co_between (collect_results want seen True ms)\<rparr>"
      using Cons.prems by (simp add: Let_def split: option.splits if_splits) (metis+)?
    then show ?case
    proof cases
      case result
      show ?thesis using Cons.IH [OF refl, of seen' saw] result by auto
    next
      case between
      show ?thesis using Cons.IH [OF refl, of seen True] between by auto
    qed auto
  qed auto
  then show "list_all is_tool (co_results c)" "list_all (\<lambda>m. \<not> is_tool m) (co_between c)"
    "filter is_tool ms = co_results c @ filter is_tool (co_rest c)"
    "filter (\<lambda>m. \<not> is_tool m) ms = co_between c @ filter (\<lambda>m. \<not> is_tool m) (co_rest c)"
    "\<not> co_changed c \<Longrightarrow> ms = co_results c @ co_between c @ co_rest c \<and> (saw \<longrightarrow> co_results c = [])"
    by blast+
qed

lemma repack_loop_keeps:
  "repack_loop ms = (out, ch) \<Longrightarrow>
     filter is_tool out = filter is_tool ms \<and> filter (\<lambda>m. \<not> is_tool m) out = filter (\<lambda>m. \<not> is_tool m) ms \<and> (\<not> ch \<longrightarrow> out = ms)"
proof (induction ms arbitrary: out ch rule: repack_loop.induct)
  case (2 m ms)
  show ?case
  proof (cases "opens_group m")
    case True
    let ?c = "collect_results (declared_ids m) [] False ms"
    note c = collect_pieces [OF refl, where want = "declared_ids m" and seen = "[]" and saw = False and ms = ms]
    obtain o2 ch2 where r: "repack_loop (co_rest ?c) = (o2, ch2)" by (cases "repack_loop (co_rest ?c)")
    have e: "out = m # co_results ?c @ co_between ?c @ o2" "ch = (co_changed ?c \<or> ch2)"
      using "2.prems" True r by (simp_all add: Let_def)
    have f: "filter is_tool (co_results ?c) = co_results ?c" "filter (\<lambda>m. \<not> is_tool m) (co_results ?c) = []"
        "filter is_tool (co_between ?c) = []" "filter (\<lambda>m. \<not> is_tool m) (co_between ?c) = co_between ?c"
      using c(1,2) by (auto simp: list_all_iff filter_empty_conv filter_id_conv)
    have IH: "filter is_tool o2 = filter is_tool (co_rest ?c)"
        "filter (\<lambda>m. \<not> is_tool m) o2 = filter (\<lambda>m. \<not> is_tool m) (co_rest ?c)" "\<not> ch2 \<longrightarrow> o2 = co_rest ?c"
      using "2.IH"(1) [OF True refl r] by auto
    show ?thesis using e f IH c(3-5) by auto
  next
    case False
    obtain o2 ch2 where r: "repack_loop ms = (o2, ch2)" by (cases "repack_loop ms")
    then show ?thesis using "2.prems" "2.IH"(2) [OF False r] False by auto
  qed
qed simp

lemma repack_keeps:
  "filter is_tool (fst (repackToolResultBlocks ms)) = filter is_tool ms"
  "filter (\<lambda>m. \<not> is_tool m) (fst (repackToolResultBlocks ms)) = filter (\<lambda>m. \<not> is_tool m) ms"
proof -
  obtain out ch where r: "repack_loop ms = (out, ch)" by (cases "repack_loop ms")
  then have "fst (repackToolResultBlocks ms) \<in> {ms, out}" by (simp add: repackToolResultBlocks_def)
  then show "filter is_tool (fst (repackToolResultBlocks ms)) = filter is_tool ms"
    "filter (\<lambda>m. \<not> is_tool m) (fst (repackToolResultBlocks ms)) = filter (\<lambda>m. \<not> is_tool m) ms"
    using repack_loop_keeps [OF r] by auto
qed

lemma collect_block:
  assumes "blk \<noteq> []" "\<forall>x \<in> set blk. is_tool x" "distinct (map result_id blk)"
    "distinct seen" "distinct want" "\<forall>x \<in> set blk. result_id x \<notin> set seen"
    "set seen \<union> set (map result_id blk) = set want"
  shows "collect_results want seen False (blk @ rest) = \<lparr>co_results = blk, co_between = [], co_changed = False, co_rest = rest\<rparr>"
  using assms
proof (induction blk arbitrary: seen)
  case (Cons m blk)
  let ?seen = "result_id m # seen"
  have m: "is_tool m" "message_of m \<noteq> None" "result_id m \<in> set want" "result_id m \<notin> set seen"
    using Cons.prems tool_obj [of m] by auto
  have len: "length want = length seen + length (m # blk)"
  proof -
    have "card (set want) = card (set seen \<union> set (map result_id (m # blk)))" using Cons.prems(7) by simp
    also have "\<dots> = card (set seen) + card (set (map result_id (m # blk)))"
      using Cons.prems(6) by (intro card_Un_disjoint) auto
    finally show ?thesis using Cons.prems(3-5) distinct_card [of want] distinct_card [of seen]
        distinct_card [of "map result_id (m # blk)"] by simp
  qed
  show ?case
  proof (cases "blk = []")
    case True
    then show ?thesis using m len by (auto simp: Let_def split: option.splits)
  next
    case False
    have "\<forall>x \<in> set blk. result_id x \<notin> set ?seen"
      using Cons.prems(3,6) by (force simp: image_iff)
    then have "collect_results want ?seen False (blk @ rest) = \<lparr>co_results = blk, co_between = [], co_changed = False, co_rest = rest\<rparr>"
      using Cons.prems False m(4) by (intro Cons.IH) auto
    then show ?thesis using m len False by (auto simp: Let_def split: option.splits)
  qed
qed simp

lemma repack_identity: "well_paired ms \<Longrightarrow> repack_loop ms = (ms, False)"
proof (induction ms rule: well_paired.induct)
  case (2 m ms)
  show ?case
  proof (cases "opens_group m")
    case True
    note nt = opens_not_tool [OF True]
    let ?ids = "map call_id (calls_of m)" let ?blk = "takeWhile is_tool ms"
    have ids: "distinct ?ids" "[] \<notin> set ?ids" "distinct (map result_id ?blk)" "set (map result_id ?blk) = set ?ids"
        and rest: "well_paired (dropWhile is_tool ms)"
      using "2.prems" True nt by (simp_all add: Let_def)
    have "calls_of m \<noteq> []" using True by (simp add: opens_group_def)
    then have "?blk \<noteq> []" using ids(4) by auto
    moreover have "set (declared_ids m) = set ?ids" using ids(2) by (force simp: declared_ids_set image_iff)
    moreover have "distinct (declared_ids m)" by (simp add: declared_ids_def)
    ultimately have "collect_results (declared_ids m) [] False (?blk @ dropWhile is_tool ms) =
        \<lparr>co_results = ?blk, co_between = [], co_changed = False, co_rest = dropWhile is_tool ms\<rparr>"
      using ids set_takeWhileD [of _ is_tool ms] by (intro collect_block) auto
    then have "collect_results (declared_ids m) [] False ms =
        \<lparr>co_results = ?blk, co_between = [], co_changed = False, co_rest = dropWhile is_tool ms\<rparr>" by simp
    then show ?thesis using True "2.IH"(1) [OF nt True rest] by (simp add: Let_def)
  next
    case False
    then show ?thesis using "2.prems" "2.IH"(2) by (auto split: if_splits)
  qed
qed simp

subsection \<open>The properties\<close>

text \<open>
  C25: whatever conversation a client sends, the vendor sees each assistant message with calls
  followed at once by exactly one result for each of its calls, and no other tool results.
\<close>

theorem tool_calls_paired: "well_paired (pair_tools ms)"
  unfolding pair_tools_def by (rule cleanupOrphan_paired)

text \<open>
  a conversation that is well paired is passed on as it is; in particular preparing a
  request twice changes nothing more.
\<close>

theorem paired_history_untouched:
  assumes "well_paired ms"
  shows "pair_tools ms = ms"
  using cleanup_identity [OF assms] repack_identity [OF assms]
  by (simp add: pair_tools_def repackToolResultBlocks_def cleanupOrphanToolCalls_def)

lemma paired_history_untouched_witness:
  "pair_tools [JObj [(''role'', JStr ''user'')],
      JObj [(''role'', JStr ''assistant''), (''tool_calls'', JArr [JObj [(''id'', JStr ''c1'')]])],
      JObj [(''role'', JStr ''tool''), (''tool_call_id'', JStr ''c1'')]]
   = [JObj [(''role'', JStr ''user'')],
      JObj [(''role'', JStr ''assistant''), (''tool_calls'', JArr [JObj [(''id'', JStr ''c1'')]])],
      JObj [(''role'', JStr ''tool''), (''tool_call_id'', JStr ''c1'')]]"
  by (rule paired_history_untouched)
    (simp add: is_tool_def opens_group_def is_str_def nested_of_def calls_of_def array_of_def call_id_def result_id_def get_str_def str_or_empty_def)

text \<open>A message apart from its calls.\<close>

definition without_calls :: "json \<Rightarrow> json" where
  "without_calls m = (case m of JObj msg \<Rightarrow> JObj (mdel ''tool_calls'' msg) | _ \<Rightarrow> m)"

lemma without_calls_restrict:
  assumes "opens_group m"
  shows "without_calls (restrict_calls m kept) = without_calls m"
proof -
  obtain msg where m: "m = JObj msg" by (rule that [OF opens_obj [OF assms]])
  have "mdel ''tool_calls'' (mdel ''tool_calls'' msg) = mdel ''tool_calls'' msg"
    "mdel ''tool_calls'' (mput ''tool_calls'' v msg) = mdel ''tool_calls'' msg" for v
    by (simp_all add: delete_idem delete_update_same)
  then show ?thesis by (simp add: m restrict_calls_def without_calls_def nested_of_def Let_def)
qed

lemma cleanup_keeps:
  "map without_calls (filter (\<lambda>m. \<not> is_tool m) (fst (cleanup_loop ms))) = map without_calls (filter (\<lambda>m. \<not> is_tool m) ms)
   \<and> subseq (filter is_tool (fst (cleanup_loop ms))) (filter is_tool ms)"
proof (induction ms rule: cleanup_loop.induct)
  case (2 m ms)
  show ?case
  proof (cases "opens_group m")
    case True
    note nt = opens_not_tool [OF True]
    obtain rs ch1 where r: "match_results (declared_ids m) [] (takeWhile is_tool ms) = (rs, ch1)"
      by (cases "match_results (declared_ids m) [] (takeWhile is_tool ms)")
    obtain out ch2 where o': "cleanup_loop (dropWhile is_tool ms) = (out, ch2)"
      by (cases "cleanup_loop (dropWhile is_tool ms)")
    have IH: "map without_calls (filter (\<lambda>m. \<not> is_tool m) out) = map without_calls (filter (\<lambda>m. \<not> is_tool m) (dropWhile is_tool ms))"
        "subseq (filter is_tool out) (filter is_tool (dropWhile is_tool ms))"
      using "2.IH"(2) True nt r o' by auto
    have sub: "subseq rs (takeWhile is_tool ms)" using match_results_spec [OF r] by blast
    then have tools: "\<forall>x \<in> set rs. is_tool x" using subseq_elements set_takeWhileD by metis
    have blk: "filter is_tool (takeWhile is_tool ms) = takeWhile is_tool ms"
        "filter (\<lambda>m. \<not> is_tool m) (takeWhile is_tool ms) = []"
      by (auto simp: filter_id_conv filter_empty_conv dest: set_takeWhileD)
    have parts: "filter P ms = filter P (takeWhile is_tool ms) @ filter P (dropWhile is_tool ms)" for P
      by (metis filter_append takeWhile_dropWhile_id)
    have rs: "filter is_tool rs = rs" "filter (\<lambda>m. \<not> is_tool m) rs = []" using tools by (auto simp: filter_id_conv filter_empty_conv)
    note m' = restrict_calls_facts(2) [OF True refl, of "map result_id rs"] without_calls_restrict [OF True]
    show ?thesis
      unfolding cleanup_group [OF True r o'] fst_conv
      using nt m' IH sub blk rs parts [of is_tool] parts [of "\<lambda>m. \<not> is_tool m"] by (simp add: list_emb_append_mono)
  next
    case False
    then show ?thesis using "2.IH" by (cases "is_tool m") (auto split: prod.splits)
  qed
qed simp

lemma pairing_pieces:
  "map without_calls (filter (\<lambda>m. \<not> is_tool m) (pair_tools ms)) = map without_calls (filter (\<lambda>m. \<not> is_tool m) ms)
   \<and> subseq (filter is_tool (pair_tools ms)) (filter is_tool ms)"
proof -
  let ?ms = "fst (repackToolResultBlocks ms)"
  have "map without_calls (filter (\<lambda>m. \<not> is_tool m) (fst (cleanupOrphanToolCalls ?ms))) = map without_calls (filter (\<lambda>m. \<not> is_tool m) ?ms)
      \<and> subseq (filter is_tool (fst (cleanupOrphanToolCalls ?ms))) (filter is_tool ?ms)"
    using cleanup_keeps [of ?ms] by (auto simp: cleanupOrphanToolCalls_def split: prod.splits)
  then show ?thesis by (simp add: pair_tools_def repack_keeps)
qed

text \<open>
  pairing loses nothing else. Every message that is not a tool result stays, in its order
  and with all its fields except the list of its calls; the tool results that stay keep theirs.
\<close>

theorem pairing_keeps_messages:
  "map without_calls (filter (\<lambda>m. \<not> is_tool m) (pair_tools ms)) = map without_calls (filter (\<lambda>m. \<not> is_tool m) ms)
   \<and> subseq (filter is_tool (pair_tools ms)) (filter is_tool ms)"
  by (rule pairing_pieces)

end
