(* ===== verification/EffortCatalog.thy ===== *)
theory EffortCatalog
  imports Rewrite Auth
begin

text \<open>
  What each model can be asked for (\<open>internal/upstream/effort_catalog.go\<close>), the budget for images
  (\<open>image_budget.go\<close>), and the composition of all rewritings, \<open>prepareBody\<close> of \<open>client.go\<close>.
\<close>

subsection \<open>Effort catalog\<close>

record effortCap =
  ec_efforts :: "string list"
  ec_default :: string

definition effort_cap :: "string list \<Rightarrow> string \<Rightarrow> effortCap" where
  "effort_cap efforts dflt = \<lparr>ec_efforts = efforts, ec_default = dflt\<rparr>"

definition cnEffortFallback :: "(string, effortCap) gomap" where
  "cnEffortFallback =
    [
     (''deepseek-v4-flash'', effort_cap [''low'', ''high'', ''max''] ''''),
     (''deepseek-v4.1-flash'', effort_cap [''low'', ''high'', ''max''] ''high''),
     (''deepseek-v4-pro'', effort_cap [''low'', ''high'', ''xhigh''] ''high''),
     (''hy4-preview'', effort_cap [''high''] ''high''),
     (''hy4-preview-x'', effort_cap [''high''] ''''),
     (''hy3'', effort_cap [''low'', ''high''] ''high''),
     (''hy3-x'', effort_cap [''low'', ''high''] ''high''),
     (''glm-5.3'', effort_cap [''low'', ''high'', ''max''] ''high''),
     (''glm-5.3-flash'', effort_cap [''low'', ''high'', ''max''] ''high''),
     (''glm-5.2'', effort_cap [''high'', ''xhigh''] ''high''),
     (''glm-5.1'', effort_cap [''medium''] ''''),
     (''glm-5v-turbo'', effort_cap [''medium''] ''''),
     (''kimi-k3-1'', effort_cap [''medium''] ''''),
     (''kimi-k2.7'', effort_cap [''medium''] ''''),
     (''kimi-k2.6'', effort_cap [''medium''] ''''),
     (''minimax-m3'', effort_cap [''medium''] '''')]"

definition globalEffortFallback :: "(string, effortCap) gomap" where
  "globalEffortFallback =
    [
     (''fast-model'', effort_cap [''medium''] ''''),
     (''balanced-model'', effort_cap [''medium''] ''''),
     (''primary-model'', effort_cap [''high''] ''''),
     (''hy4-preview-f'', effort_cap [''high''] ''high''),
     (''hy3'', effort_cap [''low'', ''high''] ''high''),
     (''deepseek-v4.1-flash'', effort_cap [''high''] ''''),
     (''gpt-6-astra'', effort_cap [''low'', ''medium'', ''high'', ''xhigh'', ''max''] ''high''),
     (''gpt-5.6-sol'', effort_cap [''low'', ''medium'', ''high'', ''xhigh'', ''max''] ''high''),
     (''gpt-5.6-terra'', effort_cap [''low'', ''medium'', ''high'', ''xhigh'', ''max''] ''high''),
     (''gpt-5.6-luna'', effort_cap [''low'', ''medium'', ''high'', ''xhigh'', ''max''] ''high''),
     (''gpt-5.5'', effort_cap [''low'', ''medium'', ''high'', ''xhigh''] ''high''),
     (''gpt-5.4'', effort_cap [''low'', ''medium'', ''high'', ''xhigh''] ''high''),
     (''gpt-5.3-codex'', effort_cap [''medium''] ''''),
     (''gemini-3.5-flash'', effort_cap [''medium''] ''''),
     (''glm-5.3'', effort_cap [''low'', ''high'', ''max''] ''high''),
     (''glm-5.2'', effort_cap [''high'', ''xhigh''] ''high''),
     (''kimi-k3'', effort_cap [''medium''] ''''),
     (''kimi-k2.6'', effort_cap [''medium''] '''')]"

definition realmKey :: "string \<Rightarrow> string" where
  "realmKey rlm = (if rlm = [] then ''cn'' else rlm)"

definition staticEffortCap :: "string \<Rightarrow> string \<Rightarrow> effortCap" where
  "staticEffortCap rlm model =
     (case mget (if realmKey rlm = ''global'' then globalEffortFallback else cnEffortFallback) model of
        Some c \<Rightarrow> c
      | None \<Rightarrow> effort_cap [] [])"

definition EffortListing :: "string \<Rightarrow> string \<Rightarrow> string list \<Rightarrow> string \<Rightarrow> string list \<times> string" where
  "EffortListing rlm model remoteEfforts remoteDefault =
     (let c = (if remoteEfforts \<noteq> [] then effort_cap remoteEfforts remoteDefault else staticEffortCap rlm model)
      in if ec_efforts c = [] then ([], [])
         else (ec_efforts c, if ec_default c \<noteq> [] \<and> ec_default c \<in> set (ec_efforts c) then ec_default c else []))"

definition overlay :: "('k, 'v list) gomap \<Rightarrow> ('k, 'v list) gomap \<Rightarrow> ('k, 'v list) gomap" where
  "overlay remote base = fold (\<lambda>(k, v) m. if v \<noteq> [] then mput k v m else m) remote base"

definition globalEffortMap :: "effort_table \<Rightarrow> default_table \<Rightarrow> effort_table \<times> default_table" where
  "globalEffortMap remoteEfforts remoteDefaults =
     (overlay remoteEfforts (map (\<lambda>(k, c). (k, ec_efforts c)) globalEffortFallback),
      overlay remoteDefaults (map (\<lambda>(k, c). (k, ec_default c)) (filter (\<lambda>(k, c). ec_default c \<noteq> []) globalEffortFallback)))"

text \<open>The buckets of one realm; a missing one is the empty map.\<close>

record effort_cache =
  cl_efforts :: "(string, effort_table) gomap"
  cl_defaultEfforts :: "(string, default_table) gomap"

definition bucket :: "string \<Rightarrow> (string, ('k, 'v) gomap) gomap \<Rightarrow> ('k, 'v) gomap" where
  "bucket rlm m = (case mget m (realmKey rlm) of None \<Rightarrow> [] | Some b \<Rightarrow> b)"

definition effortsSnapshot :: "string \<Rightarrow> effort_cache \<Rightarrow> effort_table" where
  "effortsSnapshot rlm c = bucket rlm (cl_efforts c)"

definition defaultEffortsSnapshot :: "string \<Rightarrow> effort_cache \<Rightarrow> default_table" where
  "defaultEffortsSnapshot rlm c = bucket rlm (cl_defaultEfforts c)"

definition storeEfforts :: "string \<Rightarrow> effort_table \<Rightarrow> default_table \<Rightarrow> effort_cache \<Rightarrow> effort_cache" where
  "storeEfforts rlm efforts defs c =
     (if efforts = [] \<and> defs = []
      then c\<lparr>cl_efforts := mdel (realmKey rlm) (cl_efforts c), cl_defaultEfforts := mdel (realmKey rlm) (cl_defaultEfforts c)\<rparr>
      else c\<lparr>cl_efforts := mput (realmKey rlm) efforts (cl_efforts c),
             cl_defaultEfforts := mput (realmKey rlm) defs (cl_defaultEfforts c)\<rparr>)"

subsection \<open>Image budget\<close>

text \<open>The text that stands for an omitted image, and the two forms of a text part.\<close>

definition imageOmittedPlaceholder :: string where
  "imageOmittedPlaceholder = map char_of ([91, 229, 142, 134, 229, 143, 178, 229, 155, 190, 231, 137, 135, 229, 183, 178, 231, 156, 129, 231, 149, 165, 239, 188, 154, 230, 156, 172,
      230, 172, 161, 232, 175, 183, 230, 177, 130, 228, 189, 147, 231, 167, 175, 232, 182, 133, 232, 191, 135, 228, 184, 173, 232, 189, 172, 228,
      184, 138, 233, 153, 144, 239, 188, 140, 232, 190, 131, 230, 151, 169, 231, 154, 132, 229, 155, 190, 231, 137, 135, 230, 156, 170, 233, 154,
      143, 232, 175, 183, 230, 177, 130, 229, 143, 145, 233, 128, 129, 227, 128, 130, 229, 166, 130, 228, 187, 141, 233, 156, 128, 232, 175, 165,
      229, 155, 190, 231, 137, 135, 229, 134, 133, 229, 174, 185, 239, 188, 140, 232, 175, 183, 229, 134, 141, 230, 172, 161, 232, 176, 131, 231,
      148, 168, 32, 118, 105, 101, 119, 95, 105, 109, 97, 103, 101, 32, 232, 175, 187, 229, 143, 150, 229, 175, 185, 229, 186, 148, 230, 150,
      135, 228, 187, 182, 227, 128, 130, 93] :: nat list)"

definition isImagePart :: "json \<Rightarrow> bool" where
  "isImagePart p \<longleftrightarrow> get_str (nested_of (Some p)) ''type'' \<in> {''image_url'', ''input_image''}"

definition placeholderPart :: "bool \<Rightarrow> json" where
  "placeholderPart chatFmt =
     JObj [(''type'', JStr (if chatFmt then ''text'' else ''input_text'')), (''text'', JStr imageOmittedPlaceholder)]"

text \<open>Where a part is: the array of the body, the message in it, the field of the message, the part.\<close>

record position =
  po_array :: string
  po_message :: nat
  po_field :: string
  po_part :: nat

definition chat_format :: "position \<Rightarrow> bool" where
  "chat_format p \<longleftrightarrow> po_array p = ''messages''"

definition part_list :: "obj \<Rightarrow> string \<Rightarrow> nat \<Rightarrow> string \<Rightarrow> json list" where
  "part_list ob arr i field =
     (let ms = array_of (mget ob arr)
      in if i < length ms then array_of (mget (nested_of (Some (ms ! i))) field) else [])"

text \<open>The field of a message that is scanned.\<close>

definition scan_field :: "string \<Rightarrow> json \<Rightarrow> string" where
  "scan_field arr m =
     (if arr = ''input'' \<and> get_str (nested_of (Some m)) ''type'' = ''function_call_output'' then ''output'' else ''content'')"

definition collect_array :: "string \<Rightarrow> obj \<Rightarrow> position list" where
  "collect_array arr ob =
     concat (map (\<lambda>i. let m = array_of (mget ob arr) ! i; field = scan_field arr m;
                        parts = array_of (mget (nested_of (Some m)) field)
          in map (\<lambda>j. \<lparr>po_array = arr, po_message = i, po_field = field, po_part = j\<rparr>)
               (filter (\<lambda>j. isImagePart (parts ! j)) [0..<length parts]))
       [0..<length (array_of (mget ob arr))])"

definition collectImageParts :: "obj \<Rightarrow> position list" where
  "collectImageParts ob = collect_array ''messages'' ob @ collect_array ''input'' ob"

definition part_at :: "position \<Rightarrow> obj \<Rightarrow> json" where
  "part_at p ob = part_list ob (po_array p) (po_message p) (po_field p) ! po_part p"

text \<open>\<open>p.parts[p.index] = placeholderPart(p.chatFmt)\<close>, in place.\<close>

definition omit_image :: "position \<Rightarrow> obj \<Rightarrow> obj" where
  "omit_image p ob =
     (let ms = array_of (mget ob (po_array p)); msg = nested_of (Some (ms ! po_message p));
          parts = array_of (mget msg (po_field p))
      in mput (po_array p)
           (JArr (ms[po_message p := JObj (mput (po_field p) (JArr (parts[po_part p := placeholderPart (chat_format p)])) msg)])) ob)"

text \<open>\<open>enc_size\<close> is the length of the encoded value.\<close>

fun estimate_drops :: "(json \<Rightarrow> nat) \<Rightarrow> int \<Rightarrow> int \<Rightarrow> position list \<Rightarrow> nat \<Rightarrow> obj \<Rightarrow> nat \<times> obj" where
  "estimate_drops enc_size maxBytes cur [] dropped ob = (dropped, ob)"
| "estimate_drops enc_size maxBytes cur (p # ps) dropped ob =
     (if cur \<le> maxBytes then (dropped, ob)
      else
        let delta = int (enc_size (part_at p ob)) - int (enc_size (placeholderPart (chat_format p)))
        in estimate_drops enc_size maxBytes (if 0 < delta then cur - delta else cur) ps (dropped + 1) (omit_image p ob))"

fun more_drops :: "(json \<Rightarrow> nat) \<Rightarrow> int \<Rightarrow> position list \<Rightarrow> nat \<Rightarrow> obj \<Rightarrow> nat \<times> obj" where
  "more_drops enc_size maxBytes [] dropped ob = (dropped, ob)"
| "more_drops enc_size maxBytes (p # ps) dropped ob =
     (if int (enc_size (JObj ob)) \<le> maxBytes then (dropped, ob)
      else more_drops enc_size maxBytes ps (dropped + 1) (omit_image p ob))"

definition body_size :: "(json \<Rightarrow> nat) \<Rightarrow> body \<Rightarrow> nat" where
  "body_size enc_size b = (case b of Raw s \<Rightarrow> length s | Doc j \<Rightarrow> enc_size j)"

definition ShrinkOutboundImages :: "(json \<Rightarrow> nat) \<Rightarrow> int \<Rightarrow> body \<Rightarrow> body" where
  "ShrinkOutboundImages enc_size maxBytes b =
     (if maxBytes \<le> 0 \<or> int (body_size enc_size b) \<le> maxBytes then b
      else case b of
        Doc (JObj ob) \<Rightarrow>
          let parts = collectImageParts ob
          in if parts = [] then b
             else (case estimate_drops enc_size maxBytes (int (body_size enc_size b)) parts 0 ob of
                     (n, ob1) \<Rightarrow> Doc (JObj (snd (more_drops enc_size maxBytes (drop n parts) n ob1))))
      | _ \<Rightarrow> b)"

subsection \<open>prepareBody\<close>

definition prepareBody :: "(string \<Rightarrow> string) \<Rightarrow> (json \<Rightarrow> nat) \<Rightarrow> int \<Rightarrow> effort_cache \<Rightarrow> string \<Rightarrow> string \<Rightarrow> string \<Rightarrow> body \<Rightarrow> body" where
  "prepareBody sha16 enc_size budget cache rlm uid conversationID b =
     (case (if realmKey rlm = ''global''
            then globalEffortMap (effortsSnapshot rlm cache) (defaultEffortsSnapshot rlm cache)
            else (effortsSnapshot rlm cache, defaultEffortsSnapshot rlm cache)) of
        (efforts, defs) \<Rightarrow>
          ShrinkOutboundImages enc_size budget (InjectPromptCacheKey sha16 uid conversationID
            (PrepareBodyOptWithEffortsAndDefault efforts defs b)))"

end
