(* ===== verification/PreparedProps.thy ===== *)
theory PreparedProps
  imports PairingProps EffortCatalog
begin

text \<open>
  What leaves \<open>prepareBody\<close> (\<open>internal/upstream/client.go\<close>): the properties of the composition of
  all rewritings, and of the budget for images (\<open>image_budget.go\<close>).

  What a prepared request is: the properties of \<open>prepareBody\<close> and of its parts.
\<close>

subsection \<open>Reasoning effort\<close>

lemma better_cases:
  "better req s b = b \<and> (\<forall>j. rank_of s = Some j \<longrightarrow> j \<le> req \<longrightarrow> (\<exists>s0 i0. b = Some (s0, i0) \<and> j \<le> i0))
   \<or> (\<exists>i. rank_of s = Some i \<and> i \<le> req \<and> better req s b = Some (s, i) \<and> (\<forall>s0 i0. b = Some (s0, i0) \<longrightarrow> i0 < i))"
  by (cases "rank_of s"; cases b) (auto simp: better_def)

lemma lower_cases:
  "lower s b = b \<and> (\<forall>j. rank_of s = Some j \<longrightarrow> (\<exists>s0 i0. b = Some (s0, i0) \<and> i0 \<le> j))
   \<or> (\<exists>i. rank_of s = Some i \<and> lower s b = Some (s, i) \<and> (\<forall>s0 i0. b = Some (s0, i0) \<longrightarrow> i < i0))"
  by (cases "rank_of s"; cases b) (auto simp: lower_def)

lemma fold_better:
  "case fold (better req) ss b of
     None \<Rightarrow> b = None \<and> (\<forall>s \<in> set ss. \<forall>j. rank_of s = Some j \<longrightarrow> req < j)
   | Some (s, i) \<Rightarrow> (b = Some (s, i) \<or> s \<in> set ss \<and> rank_of s = Some i \<and> i \<le> req)
       \<and> (\<forall>s' \<in> set ss. \<forall>j. rank_of s' = Some j \<longrightarrow> j \<le> req \<longrightarrow> j \<le> i)
       \<and> (\<forall>s0 i0. b = Some (s0, i0) \<longrightarrow> i0 \<le> i)"
proof (induction ss arbitrary: b)
  case (Cons s ss)
  consider "better req s b = b" "\<forall>j. rank_of s = Some j \<longrightarrow> j \<le> req \<longrightarrow> (\<exists>s0 i0. b = Some (s0, i0) \<and> j \<le> i0)"
    | i where "rank_of s = Some i" "i \<le> req" "better req s b = Some (s, i)" "\<forall>s0 i0. b = Some (s0, i0) \<longrightarrow> i0 < i"
    using better_cases [of req s b] by blast
  then show ?case
  proof cases
    case 1
    then show ?thesis using Cons.IH [of b] by (fastforce split: option.splits)
  next
    case 2
    then show ?thesis using Cons.IH [of "Some (s, i)"] by (fastforce split: option.splits)
  qed
qed (auto split: option.split)

lemma fold_lower:
  "case fold lower ss b of
     None \<Rightarrow> b = None \<and> (\<forall>s \<in> set ss. rank_of s = None)
   | Some (s, i) \<Rightarrow> (b = Some (s, i) \<or> s \<in> set ss \<and> rank_of s = Some i)
       \<and> (\<forall>s' \<in> set ss. \<forall>j. rank_of s' = Some j \<longrightarrow> i \<le> j)
       \<and> (\<forall>s0 i0. b = Some (s0, i0) \<longrightarrow> i \<le> i0)"
proof (induction ss arbitrary: b)
  case (Cons s ss)
  consider "lower s b = b" "\<forall>j. rank_of s = Some j \<longrightarrow> (\<exists>s0 i0. b = Some (s0, i0) \<and> i0 \<le> j)"
    | i where "rank_of s = Some i" "lower s b = Some (s, i)" "\<forall>s0 i0. b = Some (s0, i0) \<longrightarrow> i < i0"
    using lower_cases [of s b] by blast
  then show ?case
  proof cases
    case 1
    then show ?thesis using Cons.IH [of b] by (fastforce split: option.splits)
  next
    case 2
    then show ?thesis using Cons.IH [of "Some (s, i)"] by (fastforce split: option.splits)
  qed
qed (auto split: option.split)

text \<open>The best choice for a request of rank \<open>req\<close>.\<close>

definition best_choice :: "string list \<Rightarrow> nat \<Rightarrow> string \<Rightarrow> bool" where
  "best_choice supported req s \<longleftrightarrow> s \<in> set supported \<and>
     (\<exists>i. rank_of s = Some i \<and>
       (i \<le> req \<and> (\<forall>s' \<in> set supported. \<forall>j. rank_of s' = Some j \<longrightarrow> j \<le> req \<longrightarrow> j \<le> i)
        \<or> req < i \<and> (\<forall>s' \<in> set supported. \<forall>j. rank_of s' = Some j \<longrightarrow> i \<le> j)))"

text \<open>
  C28: a requested effort that the model does not support becomes the highest supported one
  below it, or the lowest of all if there is none; the requested spelling stays when it already
  is that choice.
\<close>

theorem effort_fits_model:
  assumes "get_str ob ''model'' \<noteq> []" "mget efforts (get_str ob ''model'') = Some supported"
    "effort_key ob = Some key" "mget ob key = Some (JStr r)" "rank_of r = Some req"
    "\<exists>s \<in> set supported. rank_of s \<noteq> None"
  shows "\<exists>s. best_choice supported req s \<and>
     (mget (normalizeReasoningEffort efforts ob) key = Some (JStr s)
      \<or> normalizeReasoningEffort efforts ob = ob \<and> equal_fold s (trim_space (to_lower r)))"
proof -
  have n: "normalizeReasoningEffort efforts ob = fit_effort supported (trim_space (to_lower r)) req key ob"
    using assms(1-5) by (simp add: normalizeReasoningEffort_def rank_of_def Let_def)
  show ?thesis
  proof (cases "fold (better req) supported None")
    case (Some si)
    obtain s i where si: "si = (s, i)" by (cases si)
    then have "best_choice supported req s"
      using fold_better [where req = req and ss = supported and b = None] Some by (auto simp: best_choice_def)
    then show ?thesis using Some si n by (auto simp: fit_effort_def)
  next
    case None
    then have high: "\<forall>s \<in> set supported. \<forall>j. rank_of s = Some j \<longrightarrow> req < j" using fold_better [where req = req and ss = supported and b = None] by simp
    obtain s i where l: "fold lower supported None = Some (s, i)"
      using fold_lower [where ss = supported and b = None] assms(6) by (cases "fold lower supported None") auto
    then have "best_choice supported req s" using fold_lower [where ss = supported and b = None] high by (auto simp: best_choice_def)
    then show ?thesis using None l n by (auto simp: fit_effort_def)
  qed
qed

lemma rank_high: "rank_of ''high'' = Some 4" "rank_of ''max'' = Some 6"
proof -
  have "trim_space ''high'' = ''high''" "trim_space ''max'' = ''max''"
    by (rule trim_space_printable; simp add: printable_def)+
  then show "rank_of ''high'' = Some 4" "rank_of ''max'' = Some 6"
    by (simp_all add: rank_of_def effortRank_def lower_byte_def has_prefix_def kelvin_sign_def dotted_capital_i_def)
qed

lemma effort_fits_model_witness:
  "\<exists>s. best_choice [''high''] 6 s \<and>
     (let ob = [(''model'', JStr ''m''), (''reasoning_effort'', JStr ''max'')] in
      mget (normalizeReasoningEffort [(''m'', [''high''])] ob) ''reasoning_effort'' = Some (JStr s)
      \<or> normalizeReasoningEffort [(''m'', [''high''])] ob = ob \<and> equal_fold s (trim_space (to_lower ''max'')))"
  unfolding Let_def
  by (rule effort_fits_model) (simp_all add: get_str_def str_or_empty_def effort_key_def rank_high)

lemma nested_of_object [simp]: "nested_of (Some (JObj m)) = m" "nested_of None = []"
  by (simp_all add: nested_of_def)

lemma nested_of_obj_of: "nested_of x = (case obj_of x of None \<Rightarrow> [] | Some t \<Rightarrow> t)"
  by (simp add: nested_of_def obj_of_def split: option.split json.split)

text \<open>
  DeepSeek models always think unless the client switched it off. For them a request that
  disables thinking leaves without an effort; any other leaves with thinking named and an effort,
  the client's own if it gave one. Requests for other models are not touched.
\<close>

theorem thinking_as_asked:
  "let out = injectThinking d ob; th = nested_of (mget ob ''thinking'') in
     if \<not> isDeepSeekModel (get_str ob ''model'') then out = ob
     else if trim_space (get_str th ''type'') \<noteq> [] \<and> equal_fold (trim_space (get_str th ''type'')) ''disabled''
     then effort_key out = None \<and> mget out ''thinking'' = mget ob ''thinking''
     else effort_key out \<noteq> None \<and> trim_space (get_str (nested_of (mget out ''thinking'')) ''type'') \<noteq> []
       \<and> (effort_key ob = None \<or> effort_key out = effort_key ob \<and> mget out (the (effort_key ob)) = mget ob (the (effort_key ob)))"
proof (cases "isDeepSeekModel (get_str ob ''model'')")
  case True
  define th where "th = nested_of (mget ob ''thinking'')"
  define kind where "kind = trim_space (get_str th ''type'')"
  have t: "(case obj_of (mget ob ''thinking'') of Some t \<Rightarrow> trim_space (get_str t ''type'') | None \<Rightarrow> []) = kind"
    "(case obj_of (mget ob ''thinking'') of None \<Rightarrow> [] | Some t \<Rightarrow> t) = th"
    unfolding kind_def th_def nested_of_obj_of by (cases "obj_of (mget ob ''thinking'')"; simp add: get_str_def str_or_empty_def)+
  have e: "trim_space ''enabled'' = ''enabled''" by (rule trim_space_printable) (simp_all add: printable_def)
  have k: "effort_key (ensureDeepSeekEffort d ob') \<noteq> None
      \<and> (effort_key ob' = None \<or> ensureDeepSeekEffort d ob' = ob')" for ob'
    by (simp add: effort_key_def ensureDeepSeekEffort_def)
  have th': "mget (ensureDeepSeekEffort d ob') ''thinking'' = mget ob' ''thinking''" for ob'
    by (simp add: ensureDeepSeekEffort_def)
  have ek: "effort_key (mput ''thinking'' v ob) = effort_key ob" for v by (simp add: effort_key_def)
  consider (off) "kind \<noteq> []" "equal_fold kind ''disabled''" | (named) "kind \<noteq> []" "\<not> equal_fold kind ''disabled''" | (none) "kind = []"
    by blast
  then show ?thesis
  proof cases
    case off
    then show ?thesis
      using True t by (simp add: injectThinking_def Let_def th_def [symmetric] kind_def [symmetric] effort_key_def)
  next
    case named
    then have "injectThinking d ob = ensureDeepSeekEffort d ob" using True t by (simp add: injectThinking_def Let_def)
    then show ?thesis
      using True named k [of ob] th' [of ob]
      by (auto simp: Let_def th_def [symmetric] kind_def [symmetric])
  next
    case none
    let ?ob = "mput ''thinking'' (JObj (mput ''type'' (JStr ''enabled'') th)) ob"
    have "injectThinking d ob = ensureDeepSeekEffort d ?ob" using True none t by (simp add: injectThinking_def Let_def)
    moreover have "mget ?ob (the (effort_key ob)) = mget ob (the (effort_key ob))" if "effort_key ob \<noteq> None"
      using that by (auto simp: effort_key_def split: if_splits)
    moreover have "trim_space (get_str (mput ''type'' (JStr ''enabled'') th) ''type'') = ''enabled''"
      using e by (simp add: get_str_def str_or_empty_def)
    ultimately show ?thesis
      using True none k [of ?ob] th' [of ?ob] ek by (auto simp: Let_def th_def [symmetric] kind_def [symmetric])
  qed
qed (simp add: injectThinking_def)

subsection \<open>Cache key\<close>

text \<open>
  two requests share a cache key only if they belong to the same conversation of the same
  account, as long as the hash does not collide and account names contain no bar.
\<close>

theorem cache_key_separates:
  assumes "buildCacheKey sha16 u1 c1 = buildCacheKey sha16 u2 c2"
    "CHR ''|'' \<notin> set u1" "CHR ''|'' \<notin> set u2"
    "length (sha16 (u1 @ ''|'' @ c1)) = length (sha16 (u2 @ ''|'' @ c2))"
    "sha16 (u1 @ ''|'' @ c1) = sha16 (u2 @ ''|'' @ c2) \<Longrightarrow> u1 @ ''|'' @ c1 = u2 @ ''|'' @ c2"
  shows "u1 = u2 \<and> c1 = c2"
proof -
  let ?p = "\<lambda>u. ''wb2a-'' @ (if take 8 u = [] then ''-'' else take 8 u) @ ''-''"
  have "?p u1 @ sha16 (u1 @ ''|'' @ c1) = ?p u2 @ sha16 (u2 @ ''|'' @ c2)"
    using assms(1) by (simp add: buildCacheKey_def Let_def)
  then have "sha16 (u1 @ ''|'' @ c1) = sha16 (u2 @ ''|'' @ c2)" using assms(4) append_eq_append_conv by blast
  then have "u1 @ CHR ''|'' # c1 = u2 @ CHR ''|'' # c2" using assms(5) by simp
  then have "cut_at CHR ''|'' (u1 @ CHR ''|'' # c1) = cut_at CHR ''|'' (u2 @ CHR ''|'' # c2)" by simp
  then show ?thesis using assms(2,3) by (simp add: cut_at_append)
qed

lemma cache_key_separates_witness:
  "''a'' = ''a'' \<and> ''c'' = ''c''"
  by (rule cache_key_separates [of "\<lambda>_. ''h''"]) simp_all

text \<open>A bar in an account name lets two accounts share a key.\<close>

lemma cache_key_bar:
  "buildCacheKey sha16 ''12345678|x'' ''y'' = buildCacheKey sha16 ''12345678'' ''x|y''"
  by (simp add: buildCacheKey_def)

subsection \<open>Changes that tools do not see\<close>

text \<open>Two messages of the same role, with the same calls and the same reference to a call.\<close>

definition same_tooling :: "json \<Rightarrow> json \<Rightarrow> bool" where
  "same_tooling m m' \<longleftrightarrow>
     (\<forall>k \<in> {''role'', ''tool_calls'', ''tool_call_id''}. mget (nested_of (Some m')) k = mget (nested_of (Some m)) k)"

lemma same_tooling_refl [simp]: "same_tooling m m"
  by (simp add: same_tooling_def)

lemma same_tooling_reads:
  assumes "same_tooling m m'"
  shows "is_tool m' = is_tool m" "calls_of m' = calls_of m" "opens_group m' = opens_group m" "result_id m' = result_id m"
    "get_str (nested_of (Some m')) ''role'' = get_str (nested_of (Some m)) ''role''"
  using assms by (simp_all add: same_tooling_def is_tool_def is_str_def calls_of_def opens_group_def result_id_def get_str_def)

lemma same_tooling_put: "k \<notin> {''role'', ''tool_calls'', ''tool_call_id''} \<Longrightarrow> same_tooling m (JObj (mput k v (nested_of (Some m))))"
  by (auto simp: same_tooling_def nested_of_def)

lemma same_tooling_block:
  "list_all2 same_tooling ms ms' \<Longrightarrow>
     list_all2 same_tooling (takeWhile is_tool ms) (takeWhile is_tool ms')
     \<and> list_all2 same_tooling (dropWhile is_tool ms) (dropWhile is_tool ms')"
  by (induction rule: list_all2_induct) (auto simp: same_tooling_reads)

lemma same_tooling_results: "list_all2 same_tooling ms ms' \<Longrightarrow> map result_id ms' = map result_id ms"
  by (induction rule: list_all2_induct) (auto simp: same_tooling_reads)

lemma well_paired_same: "list_all2 same_tooling ms ms' \<Longrightarrow> well_paired ms' = well_paired ms"
proof (induction ms arbitrary: ms' rule: well_paired.induct)
  case (2 m ms)
  obtain m' ns where ms': "ms' = m' # ns" and m: "same_tooling m m'" and ns: "list_all2 same_tooling ms ns"
    using "2.prems" by (auto simp: list_all2_Cons1)
  note r = same_tooling_reads [OF m]
  show ?case
  proof (cases "is_tool m \<or> \<not> opens_group m")
    case True
    then show ?thesis using "2.IH"(2) [OF _ _ ns] r by (auto simp: ms')
  next
    case False
    then have "well_paired (dropWhile is_tool ns) = well_paired (dropWhile is_tool ms)"
      using same_tooling_block [OF ns] by (intro "2.IH"(1)) auto
    moreover have "map result_id (takeWhile is_tool ns) = map result_id (takeWhile is_tool ms)"
      using same_tooling_block [OF ns] same_tooling_results by blast
    ultimately show ?thesis using r False by (simp add: ms' Let_def)
  qed
qed simp

subsection \<open>Changes of a document outside of its tools\<close>

definition same_request :: "obj \<Rightarrow> obj \<Rightarrow> bool" where
  "same_request ob ob' \<longleftrightarrow>
     (\<forall>k \<in> {''stream'', ''tool_choice'', ''tools'', ''prompt_cache_key'', ''model''}. mget ob' k = mget ob k)
     \<and> (\<forall>ms. mget ob ''messages'' = Some (JArr ms) \<longrightarrow>
          (\<exists>ms'. mget ob' ''messages'' = Some (JArr ms') \<and> list_all2 same_tooling ms ms'))"

lemma same_request_refl [simp]: "same_request ob ob"
  by (auto simp: same_request_def list_all2_same)

lemma same_request_trans: "same_request a b \<Longrightarrow> same_request b c \<Longrightarrow> same_request a c"
proof -
  have t: "list_all2 same_tooling x y \<Longrightarrow> list_all2 same_tooling y z \<Longrightarrow> list_all2 same_tooling x z" for x y z
    by (rule list_all2_trans [where ?P1.0 = same_tooling and ?P2.0 = same_tooling]) (simp_all add: same_tooling_def)
  assume "same_request a b" "same_request b c"
  then show ?thesis unfolding same_request_def by (auto intro: t) (metis t)
qed

lemma same_request_put:
  "k \<notin> {''stream'', ''tool_choice'', ''tools'', ''prompt_cache_key'', ''model'', ''messages''} \<Longrightarrow> same_request ob (mput k v ob)"
  "k \<notin> {''stream'', ''tool_choice'', ''tools'', ''prompt_cache_key'', ''model'', ''messages''} \<Longrightarrow> same_request ob (mdel k ob)"
  by (auto simp: same_request_def list_all2_same)

lemma same_request_backfill: "same_request ob (backfillReasoningContent ob)"
proof -
  have b: "same_tooling m (backfill m)" for m
    using same_tooling_put [of "''reasoning_content''" m] by (simp add: backfill_def Let_def)
  have "list_all2 same_tooling ms (map backfill ms)" for ms
    by (simp add: list_all2_conv_all_nth b)
  then show ?thesis
    by (auto simp: backfillReasoningContent_def map_messages_def same_request_def list_all2_same split: option.split json.split)
qed

lemma same_request_ensure: "same_request ob (ensureDeepSeekEffort d ob)"
  unfolding ensureDeepSeekEffort_def by (simp add: same_request_put)

lemma same_request_thinking: "same_request ob (injectThinking d ob)"
proof -
  have d: "same_request ob (mdel ''reasoningEffort'' (mdel ''reasoning_effort'' ob))"
    by (rule same_request_trans [OF same_request_put(2) same_request_put(2)]) simp_all
  have t: "same_request ob (ensureDeepSeekEffort d (mput ''thinking'' v ob))" for v
    by (rule same_request_trans [OF same_request_put(1) same_request_ensure]) simp
  show ?thesis unfolding injectThinking_def Let_def using d t same_request_ensure by simp
qed

lemma same_request_effort: "same_request ob (normalizeReasoningEffort efforts ob)"
proof -
  have key: "effort_key ob = Some key \<Longrightarrow> key \<in> {''reasoning_effort'', ''reasoningEffort''}" for key
    by (auto simp: effort_key_def split: if_splits)
  have "effort_key ob = Some key \<Longrightarrow> same_request ob (fit_effort supported reqStr req key ob)" for supported reqStr req key
    unfolding fit_effort_def using key [of key] by (auto intro: same_request_put(1) split: option.split)
  then show ?thesis unfolding normalizeReasoningEffort_def Let_def by (auto split: option.split json.split)
qed

subsection \<open>Roles\<close>

definition developer :: "json \<Rightarrow> bool" where
  "developer m \<longleftrightarrow> equal_fold (trim_space (get_str (nested_of (Some m)) ''role'')) ''developer''"

lemma system_word: "trim_space ''system'' = ''system''"
  by (rule trim_space_printable) (simp_all add: printable_def)

lemma not_developer: "\<not> equal_fold [] ''developer''" "\<not> equal_fold ''system'' ''developer''"
  by (simp_all add: equal_fold_def has_prefix_def kelvin_sign_def long_s_def lower_byte_def)

lemma normalize_role_developer: "\<not> developer (normalize_role m)"
proof (cases m)
  case (JObj msg)
  then show ?thesis
    using not_developer by (auto simp: normalize_role_def developer_def nested_of_def get_str_def str_or_empty_def system_word
        trim_space_Nil split: option.split json.split)
qed (simp_all add: normalize_role_def developer_def nested_of_def get_str_def str_or_empty_def trim_space_Nil not_developer)

lemma without_calls_role: "get_str (nested_of (Some (without_calls m))) ''role'' = get_str (nested_of (Some m)) ''role''"
  by (simp add: without_calls_def nested_of_def get_str_def split: json.split)

lemma pairing_developer:
  assumes "\<forall>m \<in> set ms. \<not> developer m" "m \<in> set (pair_tools ms)"
  shows "\<not> developer m"
proof (cases "is_tool m")
  case True
  then have "m \<in> set (filter is_tool ms)" using assms(2) pairing_pieces [of ms] subseq_elements by fastforce
  then show ?thesis using assms(1) by simp
next
  case False
  then have "without_calls m \<in> set (map without_calls (filter (\<lambda>m. \<not> is_tool m) (pair_tools ms)))" using assms(2) by simp
  then obtain m' where "m' \<in> set ms" "without_calls m = without_calls m'" unfolding pairing_pieces [THEN conjunct1] by auto
  then show ?thesis using assms(1) without_calls_role [of m] without_calls_role [of m'] by (auto simp: developer_def)
qed

lemma same_tooling_developer: "list_all2 same_tooling ms ms' \<Longrightarrow> (\<forall>m \<in> set ms'. \<not> developer m) = (\<forall>m \<in> set ms. \<not> developer m)"
  by (induction rule: list_all2_induct) (auto simp: same_tooling_reads developer_def)

subsection \<open>Images\<close>

lemma same_request_omit:
  assumes "po_field p \<notin> {''role'', ''tool_calls'', ''tool_call_id''}" "po_array p \<in> {''messages'', ''input''}"
  shows "same_request ob (omit_image p ob)"
proof (cases "po_array p = ''input''")
  case False
  then have a: "po_array p = ''messages''" using assms(2) by simp
  have "list_all2 same_tooling ms (ms[i := JObj (mput (po_field p) v (nested_of (Some (ms ! i))))])" for ms i v
    using same_tooling_put [OF assms(1)] by (cases "i < length ms") (auto simp: list_all2_conv_all_nth nth_list_update list_all2_same)
  then show ?thesis by (auto simp: same_request_def omit_image_def Let_def a array_of_def)
qed (auto simp: same_request_def omit_image_def Let_def list_all2_same)

lemma position_fields:
  "p \<in> set (collectImageParts ob) \<Longrightarrow> po_field p \<in> {''content'', ''output''} \<and> po_array p \<in> {''messages'', ''input''}"
  by (auto simp: collectImageParts_def collect_array_def scan_field_def Let_def)

lemma same_request_fold:
  "\<forall>p \<in> set ps. po_field p \<in> {''content'', ''output''} \<and> po_array p \<in> {''messages'', ''input''} \<Longrightarrow>
   same_request ob (fold omit_image ps ob)"
proof (induction ps arbitrary: ob)
  case (Cons p ps)
  then have "same_request ob (omit_image p ob)" by (intro same_request_omit) auto
  then show ?case using Cons same_request_trans by auto
qed simp

text \<open>The first \<open>n\<close> images are omitted, for some \<open>n\<close>.\<close>

lemma estimate_prefix:
  "estimate_drops es b cur ps n ob = (n', ob') \<Longrightarrow>
     \<exists>k \<le> length ps. n' = n + k \<and> ob' = fold omit_image (take k ps) ob"
proof (induction es b cur ps n ob arbitrary: n' ob' rule: estimate_drops.induct)
  case (2 es b cur p ps n ob)
  show ?case
  proof (cases "cur \<le> b")
    case False
    then obtain k where "k \<le> length ps" "n' = n + 1 + k" "ob' = fold omit_image (take k ps) (omit_image p ob)"
      using "2.IH" [OF _ refl] "2.prems" by (auto simp: Let_def split: if_splits)
    then show ?thesis by (intro exI [of _ "Suc k"]) simp
  qed (use "2.prems" in auto)
qed auto

lemma more_prefix:
  "more_drops es b ps n ob = (n', ob') \<Longrightarrow>
     \<exists>k \<le> length ps. n' = n + k \<and> ob' = fold omit_image (take k ps) ob \<and> (k = length ps \<or> int (es (JObj ob')) \<le> b)
       \<and> (\<forall>i < k. \<not> int (es (JObj (fold omit_image (take i ps) ob))) \<le> b)"
proof (induction es b ps n ob arbitrary: n' ob' rule: more_drops.induct)
  case (2 es b p ps n ob)
  show ?case
  proof (cases "int (es (JObj ob)) \<le> b")
    case False
    then obtain k where k: "k \<le> length ps" "n' = n + 1 + k" "ob' = fold omit_image (take k ps) (omit_image p ob)"
        "k = length ps \<or> int (es (JObj ob')) \<le> b"
        "\<forall>i < k. \<not> int (es (JObj (fold omit_image (take i ps) (omit_image p ob)))) \<le> b"
      using "2.IH" "2.prems" by force
    have "\<not> int (es (JObj (fold omit_image (take i (p # ps)) ob))) \<le> b" if "i < Suc k" for i
      using that k(5) False by (cases i) auto
    then show ?thesis using k by (intro exI [of _ "Suc k"]) auto
  qed (use "2.prems" in auto)
qed auto

lemma shrink_prefix:
  "\<exists>n \<le> length (collectImageParts ob).
     ShrinkOutboundImages es b (Doc (JObj ob)) = Doc (JObj (fold omit_image (take n (collectImageParts ob)) ob))
     \<and> (0 < b \<longrightarrow> n = length (collectImageParts ob) \<or> int (es (JObj (fold omit_image (take n (collectImageParts ob)) ob))) \<le> b)
     \<and> (b \<le> 0 \<or> int (es (JObj ob)) \<le> b \<longrightarrow> n = 0)"
proof (cases "b \<le> 0 \<or> int (es (JObj ob)) \<le> b \<or> collectImageParts ob = []")
  case True
  then show ?thesis by (intro exI [of _ 0]) (auto simp: ShrinkOutboundImages_def body_size_def)
next
  case False
  let ?ps = "collectImageParts ob"
  obtain n1 ob1 where e: "estimate_drops es b (int (es (JObj ob))) ?ps 0 ob = (n1, ob1)"
    by (cases "estimate_drops es b (int (es (JObj ob))) ?ps 0 ob")
  obtain n2 ob2 where m: "more_drops es b (drop n1 ?ps) n1 ob1 = (n2, ob2)"
    by (cases "more_drops es b (drop n1 ?ps) n1 ob1")
  have 1: "n1 \<le> length ?ps" "ob1 = fold omit_image (take n1 ?ps) ob" using estimate_prefix [OF e] by auto
  obtain k where k: "k \<le> length ?ps - n1" "ob2 = fold omit_image (take k (drop n1 ?ps)) ob1"
      "k = length ?ps - n1 \<or> int (es (JObj ob2)) \<le> b"
    using more_prefix [OF m] by auto
  have "take (n1 + k) ?ps = take n1 ?ps @ take k (drop n1 ?ps)" by (rule take_add)
  then have "ob2 = fold omit_image (take (n1 + k) ?ps) ob" using 1 k(2) by simp
  moreover have "ShrinkOutboundImages es b (Doc (JObj ob)) = Doc (JObj ob2)"
    using False e m by (simp add: ShrinkOutboundImages_def body_size_def Let_def)
  ultimately show ?thesis using False 1 k by (intro exI [of _ "n1 + k"]) auto
qed

lemma same_request_shrink: "\<exists>ob'. ShrinkOutboundImages es b (Doc (JObj ob)) = Doc (JObj ob') \<and> same_request ob ob'"
proof -
  obtain n where "ShrinkOutboundImages es b (Doc (JObj ob)) = Doc (JObj (fold omit_image (take n (collectImageParts ob)) ob))"
    using shrink_prefix [of ob es b] by blast
  moreover have "same_request ob (fold omit_image (take n (collectImageParts ob)) ob)"
    by (rule same_request_fold) (meson in_set_takeD position_fields)
  ultimately show ?thesis by blast
qed

subsection \<open>The prepared body\<close>

lemma normalizeToolChoice_keeps:
  assumes "k \<notin> {''tool_choice'', ''tools'', ''functions''}"
  shows "mget (normalizeToolChoice ob) k = mget ob k"
proof -
  have "mget (suppress_tools (mdel ''tool_choice'' ob)) k = mget ob k" using assms by (auto simp: suppress_tools_def)
  moreover have "mget (mput ''tool_choice'' v ob) k = mget ob k" "mget (mdel ''tool_choice'' ob) k = mget ob k" for v using assms by auto
  ultimately show ?thesis unfolding normalizeToolChoice_def Let_def by (auto split: option.split json.split)
qed

lemma with_stream_keeps:
  "k \<notin> {''stream'', ''stream_options''} \<Longrightarrow> mget (with_stream ob) k = mget ob k"
  "mget (with_stream ob) ''stream'' = Some (JBool True)"
  by (auto simp: with_stream_def Let_def)

lemma tool_choice_simple: "\<forall>v. mget (normalizeToolChoice ob) ''tool_choice'' = Some v \<longrightarrow> (\<exists>s. v = JStr s)"
  by (auto simp: normalizeToolChoice_def suppress_tools_def Let_def split: option.split json.split)

lemma prepare_stages:
  assumes "ob1 = normalizeToolChoice (with_stream ob)" "mget ob ''messages'' = Some (JArr ms)"
  shows "\<exists>ob2 ms2. same_request ob2 (prepare_obj efforts defs ob) \<and> mget ob2 ''messages'' = Some (JArr ms2)
    \<and> well_paired ms2 \<and> (\<forall>m \<in> set ms2. \<not> developer m)
    \<and> (\<forall>k. k \<noteq> ''messages'' \<longrightarrow> mget ob2 k = mget ob1 k)"
proof -
  let ?ob2 = "map_messages pair_tools (normalizeRoles ob1)"
  have "mget ob1 ''messages'' = Some (JArr ms)"
    using assms(2) by (simp add: assms(1) normalizeToolChoice_keeps with_stream_keeps)
  then have o2: "?ob2 = mput ''messages'' (JArr (pair_tools (map normalize_role ms))) (mput ''messages'' (JArr (map normalize_role ms)) ob1)"
    by (simp add: map_messages_def normalizeRoles_def)
  have "same_request ?ob2 (prepare_obj efforts defs ob)"
    unfolding prepare_obj_def Let_def assms(1) [symmetric]
    by (rule same_request_trans [OF same_request_trans [OF same_request_thinking same_request_effort] same_request_backfill])
  moreover have "well_paired (pair_tools (map normalize_role ms))" unfolding pair_tools_def by (rule cleanupOrphan_paired)
  moreover have "\<forall>m \<in> set (pair_tools (map normalize_role ms)). \<not> developer m"
    using pairing_developer [of "map normalize_role ms"] normalize_role_developer by auto
  moreover have "mget ?ob2 ''messages'' = Some (JArr (pair_tools (map normalize_role ms)))" "\<forall>k. k \<noteq> ''messages'' \<longrightarrow> mget ?ob2 k = mget ob1 k"
    using o2 by simp_all
  ultimately show ?thesis by blast
qed

text \<open>
  C24: whatever a client sends, the request the vendor gets streams, has each call followed at once by
  its results and no other results, no developer role, a tool choice that is a word, a cache key,
  and the model the client named.
\<close>

theorem prepared_request_ok:
  assumes "mget ob ''messages'' = Some (JArr ms)"
  shows "\<exists>out ms'. prepareBody sha16 es budget cache rlm uid conv (Doc (JObj ob)) = Doc (JObj out)
    \<and> mget out ''messages'' = Some (JArr ms') \<and> well_paired ms' \<and> (\<forall>m \<in> set ms'. \<not> developer m)
    \<and> mget out ''stream'' = Some (JBool True)
    \<and> (\<forall>v. mget out ''tool_choice'' = Some v \<longrightarrow> (\<exists>s. v = JStr s))
    \<and> get_str out ''prompt_cache_key'' \<noteq> [] \<and> mget out ''model'' = mget ob ''model''"
proof -
  obtain efforts defs where tables: "(if realmKey rlm = ''global''
        then globalEffortMap (effortsSnapshot rlm cache) (defaultEffortsSnapshot rlm cache)
        else (effortsSnapshot rlm cache, defaultEffortsSnapshot rlm cache)) = (efforts, defs)"
    by (rule prod.exhaust)
  have p: "prepareBody sha16 es budget cache rlm uid conv (Doc (JObj ob)) =
      ShrinkOutboundImages es budget (InjectPromptCacheKey sha16 uid conv (Doc (JObj (prepare_obj efforts defs ob))))"
    unfolding prepareBody_def tables PrepareBodyOptWithEffortsAndDefault_def by simp
  let ?ob1 = "normalizeToolChoice (with_stream ob)" let ?prep = "prepare_obj efforts defs ob"
  obtain ob2 ms2 where o2: "same_request ob2 ?prep" "mget ob2 ''messages'' = Some (JArr ms2)"
      "well_paired ms2" "\<forall>m \<in> set ms2. \<not> developer m" "\<forall>k. k \<noteq> ''messages'' \<longrightarrow> mget ob2 k = mget ?ob1 k"
    using prepare_stages [OF refl assms, of efforts defs] by auto
  obtain ob3 where o3: "InjectPromptCacheKey sha16 uid conv (Doc (JObj ?prep)) = Doc (JObj ob3)"
      "\<forall>k. k \<noteq> ''prompt_cache_key'' \<longrightarrow> mget ob3 k = mget ?prep k" "get_str ob3 ''prompt_cache_key'' \<noteq> []"
  proof (cases "get_str ?prep ''prompt_cache_key'' = []")
    case True
    then show ?thesis
      by (intro that [of "mput ''prompt_cache_key'' (JStr (buildCacheKey sha16 uid (conversation_of ?prep conv))) ?prep"])
        (simp_all add: InjectPromptCacheKey_def get_str_def str_or_empty_def buildCacheKey_def Let_def)
  qed (auto intro: that [of ?prep] simp: InjectPromptCacheKey_def)
  obtain out where out: "prepareBody sha16 es budget cache rlm uid conv (Doc (JObj ob)) = Doc (JObj out)" "same_request ob3 out"
    using same_request_shrink [of es budget ob3] p o3(1) by auto
  obtain ms3 where m3: "mget ?prep ''messages'' = Some (JArr ms3)" "list_all2 same_tooling ms2 ms3"
    using o2(1,2) by (auto simp: same_request_def)
  then obtain ms4 where m4: "mget out ''messages'' = Some (JArr ms4)" "list_all2 same_tooling ms3 ms4"
    using out(2) o3(2) by (fastforce simp: same_request_def)
  have keep: "mget out k = mget ?ob1 k" if "k \<in> {''stream'', ''tool_choice'', ''model''}" for k
    using that o2(1,5) o3(2) out(2) by (auto simp: same_request_def)
  have "well_paired ms4" "\<forall>m \<in> set ms4. \<not> developer m"
    using o2(3,4) well_paired_same [OF m3(2)] well_paired_same [OF m4(2)]
      same_tooling_developer [OF m3(2)] same_tooling_developer [OF m4(2)] by simp_all
  moreover have "mget out ''stream'' = Some (JBool True)" "mget out ''model'' = mget ob ''model''"
    using keep [of "''stream''"] keep [of "''model''"] by (simp_all add: normalizeToolChoice_keeps with_stream_keeps)
  moreover have "\<forall>v. mget out ''tool_choice'' = Some v \<longrightarrow> (\<exists>s. v = JStr s)"
    using keep [of "''tool_choice''"] tool_choice_simple by simp
  moreover have "get_str out ''prompt_cache_key'' \<noteq> []"
    using o3(3) out(2) by (simp add: same_request_def get_str_def)
  ultimately show ?thesis using out(1) m4(1) by blast
qed

lemma prepared_request_ok_witness:
  "\<exists>out ms'. prepareBody (\<lambda>_. ''h'') (\<lambda>_. 0) 0 \<lparr>cl_efforts = [], cl_defaultEfforts = []\<rparr> ''cn'' ''u'' ''c''
       (Doc (JObj [(''messages'', JArr [JObj [(''role'', JStr ''developer'')]])])) = Doc (JObj out)
    \<and> mget out ''messages'' = Some (JArr ms') \<and> well_paired ms' \<and> (\<forall>m \<in> set ms'. \<not> developer m)
    \<and> mget out ''stream'' = Some (JBool True)
    \<and> (\<forall>v. mget out ''tool_choice'' = Some v \<longrightarrow> (\<exists>s. v = JStr s))
    \<and> get_str out ''prompt_cache_key'' \<noteq> []
    \<and> mget out ''model'' = mget [(''messages'', JArr [JObj [(''role'', JStr ''developer'')]])] ''model''"
  by (rule prepared_request_ok) simp

subsection \<open>The budget for images\<close>

text \<open>What the code relies on: the size of an array or object is the sum of its members' and of the punctuation.\<close>

definition sizes_add :: "(json \<Rightarrow> nat) \<Rightarrow> (string \<Rightarrow> nat) \<Rightarrow> bool" where
  "sizes_add es key_size \<longleftrightarrow>
     (\<forall>v vs. es (JArr (v # vs)) = length vs + 2 + sum_list (map es (v # vs)))
     \<and> (\<forall>kv m. es (JObj (kv # m)) = length m + 2 + sum_list (map (\<lambda>kv. key_size (fst kv) + 1 + es (snd kv)) (kv # m)))"

lemma size_of_update:
  assumes "sizes_add es ks" "i < length vs"
  shows "int (es (JArr (vs[i := v]))) = int (es (JArr vs)) + int (es v) - int (es (vs ! i))"
proof -
  have s: "es (JArr us) = length us + 1 + sum_list (map es us)" if "us \<noteq> []" for us
    using assms(1) that by (cases us) (simp_all add: sizes_add_def)
  have i: "int (sum_list (map es us)) = (\<Sum>u\<leftarrow>us. int (es u))" for us by (induction us) auto
  have "vs \<noteq> []" "vs[i := v] \<noteq> []" using assms(2) by auto
  then show ?thesis using s [of vs] s [of "vs[i := v]"] i sum_list_update_int [OF assms(2), of "\<lambda>u. int (es u)" v] by simp
qed

lemma size_of_mput:
  assumes "sizes_add es ks" "mget m k = Some v0"
  shows "int (es (JObj (mput k v m))) = int (es (JObj m)) + int (es v) - int (es v0)"
proof -
  let ?w = "\<lambda>kv. ks (fst kv) + 1 + es (snd kv)"
  have s: "es (JObj m) = length m + 1 + sum_list (map ?w m)" if "m \<noteq> []" for m
    using assms(1) that by (cases m) (auto simp: sizes_add_def)
  have len: "mget m k = Some v0 \<Longrightarrow> length (mput k v m) = length m \<and>
      int (sum_list (map ?w (mput k v m))) = int (sum_list (map ?w m)) + int (es v) - int (es v0)"
    by (induction m) (auto split: if_splits)
  have "m \<noteq> []" "mput k v m \<noteq> []" using assms(2) len by auto
  then show ?thesis using s [of m] s [of "mput k v m"] len [OF assms(2)] by simp
qed

definition image_at :: "position \<Rightarrow> obj \<Rightarrow> bool" where
  "image_at p ob \<longleftrightarrow>
     (\<exists>ms msg parts. mget ob (po_array p) = Some (JArr ms) \<and> po_message p < length ms \<and> ms ! po_message p = JObj msg
        \<and> mget msg (po_field p) = Some (JArr parts) \<and> po_part p < length parts)"

lemma array_nonempty: "i < length (array_of v) \<Longrightarrow> v = Some (JArr (array_of v))"
  by (auto simp: array_of_def split: option.splits json.splits)

lemma collected_at: "p \<in> set (collectImageParts ob) \<Longrightarrow> image_at p ob"
proof -
  have "image_at p ob" if p: "p \<in> set (collect_array arr ob)" for arr
  proof -
    let ?ms = "array_of (mget ob arr)"
    obtain i j where i: "i < length ?ms" and j: "j < length (array_of (mget (nested_of (Some (?ms ! i))) (scan_field arr (?ms ! i))))"
        and e: "p = \<lparr>po_array = arr, po_message = i, po_field = scan_field arr (?ms ! i), po_part = j\<rparr>"
      using p by (auto simp: collect_array_def Let_def)
    have "mget ob arr = Some (JArr ?ms)" using array_nonempty [OF i] by simp
    moreover obtain msg where "?ms ! i = JObj msg" using j by (cases "?ms ! i") (auto simp: nested_of_def array_of_def)
    ultimately show ?thesis using i j array_nonempty [OF j] by (auto simp: image_at_def e nested_of_def)
  qed
  then show "p \<in> set (collectImageParts ob) \<Longrightarrow> image_at p ob" by (auto simp: collectImageParts_def)
qed

lemma image_at_omit: "image_at p ob \<Longrightarrow> image_at q ob \<Longrightarrow> image_at q (omit_image p ob)"
  by (auto simp: image_at_def omit_image_def Let_def array_of_def nested_of_def nth_list_update)

lemma size_of_omit:
  assumes "sizes_add es ks" "image_at p ob"
  shows "int (es (JObj (omit_image p ob))) = int (es (JObj ob)) - (int (es (part_at p ob)) - int (es (placeholderPart (chat_format p))))"
proof -
  obtain ms msg parts where m: "mget ob (po_array p) = Some (JArr ms)" "po_message p < length ms" "ms ! po_message p = JObj msg"
      "mget msg (po_field p) = Some (JArr parts)" "po_part p < length parts"
    using assms(2) by (auto simp: image_at_def)
  have "omit_image p ob = mput (po_array p) (JArr (ms[po_message p := JObj (mput (po_field p)
      (JArr (parts[po_part p := placeholderPart (chat_format p)])) msg)])) ob" "part_at p ob = parts ! po_part p"
    using m by (simp_all add: omit_image_def part_at_def part_list_def Let_def array_of_def nested_of_def)
  then show ?thesis
    using size_of_mput [OF assms(1) m(1)] size_of_update [OF assms(1) m(2)] size_of_mput [OF assms(1) m(4)] size_of_update [OF assms(1) m(5)] m(3)
    by simp
qed

lemma estimate_needed:
  "estimate_drops es b cur ps n ob = (n', ob') \<Longrightarrow> sizes_add es ks \<Longrightarrow> cur \<le> int (es (JObj ob)) \<Longrightarrow>
     \<forall>p \<in> set ps. image_at p ob \<Longrightarrow>
     \<exists>k \<le> length ps. n' = n + k \<and> ob' = fold omit_image (take k ps) ob
       \<and> (\<forall>i < k. \<not> int (es (JObj (fold omit_image (take i ps) ob))) \<le> b)"
proof (induction es b cur ps n ob arbitrary: n' ob' rule: estimate_drops.induct)
  case (2 es b cur p ps n ob)
  show ?case
  proof (cases "cur \<le> b")
    case False
    let ?d = "int (es (part_at p ob)) - int (es (placeholderPart (chat_format p)))"
    let ?cur = "if 0 < ?d then cur - ?d else cur"
    have size: "int (es (JObj (omit_image p ob))) = int (es (JObj ob)) - ?d"
      using size_of_omit [OF "2.prems"(2)] "2.prems"(4) by simp
    have next_cur: "?cur \<le> int (es (JObj (omit_image p ob)))" using size "2.prems"(3) by simp
    have images: "\<forall>q \<in> set ps. image_at q (omit_image p ob)" using "2.prems"(4) image_at_omit by simp
    have "estimate_drops es b ?cur ps (n + 1) (omit_image p ob) = (n', ob')" using "2.prems"(1) False by (simp add: Let_def)
    then obtain k where k: "k \<le> length ps" "n' = n + 1 + k" "ob' = fold omit_image (take k ps) (omit_image p ob)"
        "\<forall>i < k. \<not> int (es (JObj (fold omit_image (take i ps) (omit_image p ob)))) \<le> b"
      using "2.IH" [OF False refl _ "2.prems"(2) next_cur images] by auto
    have "\<not> int (es (JObj (fold omit_image (take i (p # ps)) ob))) \<le> b" if "i < Suc k" for i
      using that k(4) False "2.prems"(3) by (cases i) auto
    then show ?thesis using k by (intro exI [of _ "Suc k"]) auto
  qed (use "2.prems" in auto)
qed auto

text \<open>
  an oversized request loses its oldest images first, and no more of them than needed: after
  \<open>n\<close> omissions it fits or no image is left, and with fewer it did not fit. A request within the
  budget loses none.
\<close>

theorem images_within_budget:
  assumes "sizes_add es ks" "0 < budget"
  shows "\<exists>n \<le> length (collectImageParts ob).
    let after = (\<lambda>i. fold omit_image (take i (collectImageParts ob)) ob) in
      ShrinkOutboundImages es budget (Doc (JObj ob)) = Doc (JObj (after n))
      \<and> (n = length (collectImageParts ob) \<or> int (es (JObj (after n))) \<le> budget)
      \<and> (\<forall>i < n. budget < int (es (JObj (after i))))"
proof (cases "int (es (JObj ob)) \<le> budget \<or> collectImageParts ob = []")
  case True
  then show ?thesis by (intro exI [of _ 0]) (auto simp: ShrinkOutboundImages_def body_size_def Let_def)
next
  case False
  let ?ps = "collectImageParts ob" let ?after = "\<lambda>i. fold omit_image (take i ?ps) ob"
  obtain n1 ob1 where e: "estimate_drops es budget (int (es (JObj ob))) ?ps 0 ob = (n1, ob1)"
    by (cases "estimate_drops es budget (int (es (JObj ob))) ?ps 0 ob")
  obtain n2 ob2 where m: "more_drops es budget (drop n1 ?ps) n1 ob1 = (n2, ob2)"
    by (cases "more_drops es budget (drop n1 ?ps) n1 ob1")
  have 1: "n1 \<le> length ?ps" "ob1 = ?after n1" "\<forall>i < n1. budget < int (es (JObj (?after i)))"
    using estimate_needed [OF e assms(1)] collected_at by auto
  obtain k where k: "k \<le> length ?ps - n1" "ob2 = fold omit_image (take k (drop n1 ?ps)) ob1"
      "k = length ?ps - n1 \<or> int (es (JObj ob2)) \<le> budget"
      "\<forall>i < k. budget < int (es (JObj (fold omit_image (take i (drop n1 ?ps)) ob1)))"
    using more_prefix [OF m] by (auto simp: not_le)
  have add: "fold omit_image (take i (drop n1 ?ps)) ob1 = ?after (n1 + i)" for i by (simp add: 1(2) take_add)
  have "budget < int (es (JObj (?after i)))" if "i < n1 + k" for i
  proof (cases "i < n1")
    case False
    then show ?thesis using k(4) add [of "i - n1"] that by (metis add.commute less_diff_conv2 le_add_diff_inverse not_less)
  qed (use 1(3) in simp)
  moreover have "ShrinkOutboundImages es budget (Doc (JObj ob)) = Doc (JObj ob2)"
    using False assms(2) e m by (simp add: ShrinkOutboundImages_def body_size_def Let_def)
  ultimately show ?thesis using 1(1) k add [of k] by (intro exI [of _ "n1 + k"]) (auto simp: Let_def)
qed

fun plain_size :: "json \<Rightarrow> nat" where
  "plain_size (JStr s) = length s + 2"
| "plain_size (JArr vs) = length vs + 1 + sum_list (map plain_size vs)"
| "plain_size (JObj m) = length m + 1 + sum_list (map (\<lambda>kv. length (fst kv) + 3 + plain_size (snd kv)) m)"
| "plain_size _ = 4"

definition one_image :: obj where
  "one_image = [(''messages'', JArr [JObj [(''content'', JArr [JObj [(''type'', JStr ''image_url'')]])]])]"

lemma images_within_budget_witness:
  "\<exists>n \<le> length (collectImageParts one_image).
    let after = (\<lambda>i. fold omit_image (take i (collectImageParts one_image)) one_image) in
      ShrinkOutboundImages plain_size 20 (Doc (JObj one_image)) = Doc (JObj (after n))
      \<and> (n = length (collectImageParts one_image) \<or> int (plain_size (JObj (after n))) \<le> 20)
      \<and> (\<forall>i < n. 20 < int (plain_size (JObj (after i))))"
  by (rule images_within_budget [where ks = "\<lambda>k. length k + 2"]) (simp_all add: sizes_add_def numeral_3_eq_3)

end
