(* ===== verification/Neutralize.thy ===== *)
theory Neutralize
  imports Rewrite Utf8
begin

text \<open>
  Breaking the words that the vendor's filters trigger on, \<open>internal/upstream/waf_neutralize.go\<close>
  and \<open>channel_neutralize.go\<close>: a zero width space is inserted, nothing else changes.
\<close>

subsection \<open>Text as it is encoded\<close>

text \<open>\<open>json.Marshal\<close> writes U+FFFD for each byte that is not well-formed UTF-8.\<close>

function valid_text :: "string \<Rightarrow> string" where
  "valid_text s =
     (if s = [] then []
      else if rune_at s = (0xFFFD, 1) then [CHR 0xEF, CHR 0xBF, CHR 0xBD] @ valid_text (tl s)
      else take (snd (rune_at s)) s @ valid_text (drop (snd (rune_at s)) s))"
  by auto
termination
proof (relation "measure length")
  fix s :: string
  assume "s \<noteq> []"
  then show "(drop (snd (rune_at s)) s, s) \<in> measure length"
    using rune_width [of s] by (cases s) auto
qed auto

declare valid_text.simps [simp del]

text \<open>A function on every string value; keys and numbers are left alone.\<close>

fun map_strings :: "(string \<Rightarrow> string) \<Rightarrow> json \<Rightarrow> json" where
  "map_strings f (JStr s) = JStr (f s)"
| "map_strings f (JArr vs) = JArr (map (map_strings f) vs)"
| "map_strings f (JObj ps) = JObj (map (\<lambda>kv. (fst kv, map_strings f (snd kv))) ps)"
| "map_strings f v = v"

fun strings_of :: "json \<Rightarrow> string list" where
  "strings_of (JStr s) = [s]"
| "strings_of (JArr vs) = concat (map strings_of vs)"
| "strings_of (JObj ps) = concat (map (\<lambda>kv. strings_of (snd kv)) ps)"
| "strings_of v = []"

definition encoded :: "json \<Rightarrow> body" where
  "encoded j = Doc (map_strings valid_text j)"

subsection \<open>Regular expressions\<close>

text \<open>
  The expressions used here, all case-insensitive: a letter, one of some bytes, the border of an
  ASCII word, and their combinations. \<open>ends r t i\<close> are the ends of the matches of \<open>r\<close> in \<open>t\<close>
  at \<open>i\<close>, the preferred one first.
\<close>

datatype re = Letter char | OneOf "char list" | Border | Then re re | Or re re | Many re | Maybe re

definition folds_of :: "char \<Rightarrow> string list" where
  "folds_of c =
     (let up = (if CHR ''a'' \<le> c \<and> c \<le> CHR ''z'' then char_of (of_char c - (32::nat)) else c)
      in remdups [[c], [up]] @ (if c = CHR ''s'' then [long_s] else []) @ (if c = CHR ''k'' then [kelvin_sign] else []))"

text \<open>ASCII letters, digits, and the bytes of words.\<close>

definition letter_byte :: "char \<Rightarrow> bool" where
  "letter_byte c \<longleftrightarrow> byte c \<in> {0x41..0x5A} \<union> {0x61..0x7A}"

definition alnum_byte :: "char \<Rightarrow> bool" where
  "alnum_byte c \<longleftrightarrow> letter_byte c \<or> byte c \<in> {0x30..0x39}"

definition word_byte :: "char \<Rightarrow> bool" where
  "word_byte c \<longleftrightarrow> alnum_byte c \<or> c = CHR ''_''"

definition word_at :: "string \<Rightarrow> nat \<Rightarrow> bool" where
  "word_at t i \<longleftrightarrow> i < length t \<and> word_byte (t ! i)"

primrec many_ends :: "(nat \<Rightarrow> nat list) \<Rightarrow> nat \<Rightarrow> nat \<Rightarrow> nat list" where
  "many_ends f 0 i = [i]"
| "many_ends f (Suc n) i = concat (map (\<lambda>j. if i < j then many_ends f n j else []) (f i)) @ [i]"

fun ends :: "re \<Rightarrow> string \<Rightarrow> nat \<Rightarrow> nat list" where
  "ends (Letter c) t i = map (\<lambda>f. i + length f) (filter (has_prefix (drop i t)) (folds_of c))"
| "ends (OneOf cs) t i = (if i < length t \<and> t ! i \<in> set cs then [i + 1] else [])"
| "ends Border t i = (if (0 < i \<and> word_at t (i - 1)) \<noteq> word_at t i then [i] else [])"
| "ends (Then r1 r2) t i = concat (map (ends r2 t) (ends r1 t i))"
| "ends (Or r1 r2) t i = ends r1 t i @ ends r2 t i"
| "ends (Many r) t i = many_ends (ends r t) (length t) i"
| "ends (Maybe r) t i = ends r t i @ [i]"

function find_match :: "re \<Rightarrow> string \<Rightarrow> nat \<Rightarrow> (nat \<times> nat) option" where
  "find_match r t i =
     (if length t < i then None
      else case ends r t i of e # _ \<Rightarrow> Some (i, e) | [] \<Rightarrow> find_match r t (i + 1))"
  by pat_completeness auto
termination by (relation "measure (\<lambda>(r, t, i). Suc (length t) - i)") auto

lemma find_match_from: "find_match r t i = Some (j, e) \<Longrightarrow> i \<le> j \<and> j \<le> length t"
proof (induction r t i rule: find_match.induct)
  case (1 r t i)
  then show ?case by (auto simp: find_match.simps [of r t i] split: if_splits list.splits)
qed

declare find_match.simps [simp del]

text \<open>\<open>FindAllStringIndex\<close> for expressions that do not match the empty text.\<close>

function all_matches :: "re \<Rightarrow> string \<Rightarrow> nat \<Rightarrow> (nat \<times> nat) list" where
  "all_matches r t i =
     (case find_match r t i of
        None \<Rightarrow> []
      | Some (j, e) \<Rightarrow> (j, e) # all_matches r t (if j < e then e else j + 1))"
  by pat_completeness auto
termination
  by (relation "measure (\<lambda>(r, t, i). Suc (length t) - i)") (auto dest: find_match_from split: if_splits)

declare all_matches.simps [simp del]

primrec lits :: "char \<Rightarrow> string \<Rightarrow> re" where
  "lits c [] = Letter c"
| "lits c (d # ds) = Then (Letter c) (lits d ds)"

definition word :: "string \<Rightarrow> re" where
  "word w = (case w of [] \<Rightarrow> Border | c # cs \<Rightarrow> lits c cs)"

definition whole_word :: "string \<Rightarrow> re" where
  "whole_word w = Then Border (Then (word w) Border)"

definition any_word :: "string list \<Rightarrow> re" where
  "any_word ws = foldr (\<lambda>w r. Or (word w) r) (butlast ws) (word (last ws))"

abbreviation spaces :: re where "spaces \<equiv> Many (OneOf [CHR 0x09, CHR 0x0A, CHR 0x0C, CHR 0x0D, CHR 0x20])"
abbreviation one_space :: re where "one_space \<equiv> OneOf [CHR 0x09, CHR 0x0A, CHR 0x0C, CHR 0x0D, CHR 0x20]"
abbreviation digit :: re where "digit \<equiv> OneOf ''0123456789''"
abbreviation quote :: re where "quote \<equiv> Maybe (OneOf [CHR 0x27, CHR 0x22])"
abbreviation some_spaces :: re where "some_spaces \<equiv> Then one_space spaces"
abbreviation digits :: re where "digits \<equiv> Then digit (Many digit)"

definition closing_script :: re where
  "closing_script = Then spaces (Then (Maybe (OneOf ''/'')) (Then spaces (word ''script'')))"

definition wafTextPatterns :: "re list" where
  "wafTextPatterns =
     [whole_word ''script'',
      Then (word ''%3c'') closing_script,
      Then (word (CHR 0x5C # ''x3c'')) closing_script,
      whole_word ''alert'',
      whole_word ''javascript'',
      Then Border (Then (word ''on'') (Then (any_word [''error'', ''load'', ''focus'', ''click'', ''submit'', ''mouseover'']) Border)),
      whole_word ''eval'',
      whole_word ''union'',
      whole_word ''jndi'',
      whole_word ''xp_cmdshell'',
      whole_word ''benchmark'',
      whole_word ''sleep'',
      whole_word ''exec'',
      Then Border (Then (word ''curl'') (Then some_spaces (Then (word ''http'') (Then (Maybe (Letter CHR ''s'')) (word ''://''))))),
      Then Border (Then (word ''drop'') (Then some_spaces (Then (any_word [''table'', ''procedure'']) Border))),
      Then Border (Then (any_word [''or'', ''and'']) (Then some_spaces (Then quote (Then digits (Then spaces
        (Then quote (Then spaces (Then (OneOf ''='') (Then spaces (Then quote digits)))))))))),
      Then (OneOf ''<'') (Then spaces (Then (OneOf ''?'') (Then spaces (word ''php''))))]"

subsection \<open>Inserting breaks\<close>

definition wafBreakMarker :: string where
  "wafBreakMarker = [CHR 0xE2, CHR 0x80, CHR 0x8B]"

fun firstLetterOffset :: "string \<Rightarrow> nat option" where
  "firstLetterOffset [] = None"
| "firstLetterOffset (c # s) = (if letter_byte c then Some 0 else map_option Suc (firstLetterOffset s))"

fun insert_breaks :: "string \<Rightarrow> nat \<Rightarrow> nat list \<Rightarrow> string" where
  "insert_breaks t prev [] = drop prev t"
| "insert_breaks t prev (p # ps) =
     (if p \<le> prev \<or> length t \<le> p then insert_breaks t prev ps
      else take (p - prev) (drop prev t) @ wafBreakMarker @ insert_breaks t p ps)"

text \<open>The result, and whether anything was found.\<close>

definition break_at :: "string \<Rightarrow> nat list \<Rightarrow> string \<times> bool" where
  "break_at t points =
     (if points = [] then (t, False) else (insert_breaks t 0 (sort (remdups points)), True))"

definition waf_points :: "string \<Rightarrow> nat list" where
  "waf_points t =
     concat (map (\<lambda>r. List.map_filter (\<lambda>(i, e). map_option (\<lambda>off. i + off + 1) (firstLetterOffset (take (e - i) (drop i t))))
       (all_matches r t 0)) wafTextPatterns)"

definition neutralizeWAFText :: "string \<Rightarrow> string \<times> bool" where
  "neutralizeWAFText t = (if t = [] then (t, False) else break_at t (waf_points t))"

text \<open>A change of every string of a document.\<close>

definition neutralize_values :: "(string \<Rightarrow> string \<times> bool) \<Rightarrow> body \<Rightarrow> body \<times> bool" where
  "neutralize_values f b =
     (case b of
        Raw _ \<Rightarrow> (b, False)
      | Doc JNull \<Rightarrow> (b, False)
      | Doc j \<Rightarrow>
          if list_ex (\<lambda>s. snd (f s)) (strings_of j) then (encoded (map_strings (\<lambda>s. fst (f s)) j), True)
          else (b, False))"

definition NeutralizeWAFTriggers :: "body \<Rightarrow> body \<times> bool" where
  "NeutralizeWAFTriggers b = neutralize_values neutralizeWAFText b"

subsection \<open>Tokens of messages\<close>

fun split_spaces :: "string \<Rightarrow> string list" where
  "split_spaces [] = [[]]"
| "split_spaces (c # s) =
     (if c = CHR 0x20 then [] # split_spaces s
      else (case split_spaces s of [] \<Rightarrow> [[c]] | t # ts \<Rightarrow> (c # t) # ts))"

fun join_spaces :: "string list \<Rightarrow> string" where
  "join_spaces [] = []"
| "join_spaces [t] = t"
| "join_spaces (t # ts) = t @ CHR 0x20 # join_spaces ts"

definition wafRiskyChars :: string where
  "wafRiskyChars = ''$'' @ [CHR 0x60, CHR 0x27, CHR 0x22] @ ''()/'' @ [CHR 0x5C] @ '';|&<>=%{}[]*?~:@''"

definition risky_token :: "string \<Rightarrow> bool" where
  "risky_token token \<longleftrightarrow> list_ex (\<lambda>c. c \<in> set wafRiskyChars) token"

definition break_token :: "string \<Rightarrow> string" where
  "break_token token =
     (let pos = (case firstLetterOffset token of None \<Rightarrow> 0 | Some p \<Rightarrow> p)
      in take (pos + 1) token @ wafBreakMarker @ drop (pos + 1) token)"

definition breakRiskyTokens :: "string \<Rightarrow> string \<times> bool" where
  "breakRiskyTokens text =
     (if list_ex risky_token (split_spaces text)
      then (join_spaces (map (\<lambda>t. if risky_token t then break_token t else t) (split_spaces text)), True)
      else (text, False))"

definition break_all :: "string \<Rightarrow> string" where
  "break_all token =
     (case token of
        c # d # s \<Rightarrow> c # wafBreakMarker @ concat (map (\<lambda>c. if alnum_byte c then [c] else c # wafBreakMarker) (d # s))
      | _ \<Rightarrow> token)"

definition breakEveryToken :: "string \<Rightarrow> string \<times> bool" where
  "breakEveryToken text =
     (if length text < 2 then (text, False) else (join_spaces (map break_all (split_spaces text)), True))"

text \<open>The texts of a message: its content, the texts of its parts, the arguments of its calls.\<close>

definition map_field :: "string \<Rightarrow> (json \<Rightarrow> json) \<Rightarrow> json \<Rightarrow> json" where
  "map_field k f v =
     (case v of
        JObj m \<Rightarrow> (case mget m k of Some x \<Rightarrow> JObj (mput k (f x) m) | None \<Rightarrow> v)
      | _ \<Rightarrow> v)"

definition map_str :: "(string \<Rightarrow> string) \<Rightarrow> json \<Rightarrow> json" where
  "map_str f v = (case v of JStr s \<Rightarrow> JStr (f s) | _ \<Rightarrow> v)"

definition map_items :: "(json \<Rightarrow> json) \<Rightarrow> json \<Rightarrow> json" where
  "map_items f v = (case v of JArr vs \<Rightarrow> JArr (map f vs) | _ \<Rightarrow> v)"

definition map_content :: "(string \<Rightarrow> string) \<Rightarrow> json \<Rightarrow> json" where
  "map_content f v =
     (case v of JStr s \<Rightarrow> JStr (f s) | JArr ps \<Rightarrow> JArr (map (map_field ''text'' (map_str f)) ps) | _ \<Rightarrow> v)"

definition map_message :: "(string \<Rightarrow> string) \<Rightarrow> json \<Rightarrow> json" where
  "map_message f m =
     map_field ''function_call'' (map_field ''arguments'' (map_str f))
       (map_field ''tool_calls'' (map_items (map_field ''function'' (map_field ''arguments'' (map_str f))))
         (map_field ''content'' (map_content f) m))"

definition str_in :: "json option \<Rightarrow> string list" where
  "str_in v = (case v of Some (JStr s) \<Rightarrow> [s] | _ \<Rightarrow> [])"

definition field_of :: "json \<Rightarrow> string \<Rightarrow> json option" where
  "field_of v k = mget (nested_of (Some v)) k"

definition message_texts :: "json \<Rightarrow> string list" where
  "message_texts m =
     str_in (field_of m ''content'')
     @ concat (map (\<lambda>p. str_in (field_of p ''text'')) (array_of (field_of m ''content'')))
     @ concat (map (\<lambda>c. str_in (mget (nested_of (field_of c ''function'')) ''arguments'')) (calls_of m))
     @ str_in (mget (nested_of (field_of m ''function_call'')) ''arguments'')"

definition neutralizeMessages :: "(string \<Rightarrow> string \<times> bool) \<Rightarrow> body \<Rightarrow> body \<times> bool" where
  "neutralizeMessages f b =
     (case b of
        Doc (JObj ob) \<Rightarrow>
          (case mget ob ''messages'' of
             Some (JArr ms) \<Rightarrow>
               if list_ex (\<lambda>m. list_ex (\<lambda>s. snd (f s)) (message_texts m)) ms
               then (encoded (JObj (mput ''messages'' (JArr (map (map_message (\<lambda>s. fst (f s))) ms)) ob)), True)
               else (b, False)
           | _ \<Rightarrow> (b, False))
      | _ \<Rightarrow> (b, False))"

definition NeutralizeWAFTokens :: "body \<Rightarrow> body \<times> bool" where
  "NeutralizeWAFTokens b = neutralizeMessages breakRiskyTokens b"

definition NeutralizeWAFTokensDeep :: "body \<Rightarrow> body \<times> bool" where
  "NeutralizeWAFTokensDeep b = neutralizeMessages breakEveryToken b"

subsection \<open>The sentence about the channel\<close>

definition channelTriggerSentence :: string where
  "channelTriggerSentence = ''Codex CLI is an open source project led by OpenAI''"

function indexFrom :: "string \<Rightarrow> string \<Rightarrow> nat \<Rightarrow> nat option" where
  "indexFrom text needle i =
     (if length text \<le> i \<or> length text < i + length needle then None
      else if has_prefix (drop i text) needle then Some i else indexFrom text needle (i + 1))"
  by pat_completeness auto
termination by (relation "measure (\<lambda>(t, n, i). length t - i)") auto

declare indexFrom.simps [simp del]

lemma indexFrom_from: "indexFrom t n i = Some j \<Longrightarrow> i \<le> j \<and> j < length t"
proof (induction t n i rule: indexFrom.induct)
  case (1 t n i)
  then show ?case by (auto simp: indexFrom.simps [of t n i] split: if_splits)
qed

text \<open>The positions after the first byte of each word of a piece that starts at \<open>i\<close>.\<close>

fun word_breaks :: "bool \<Rightarrow> nat \<Rightarrow> string \<Rightarrow> nat list" where
  "word_breaks atWordStart i [] = []"
| "word_breaks atWordStart i (c # s) =
     (if alnum_byte c then (if atWordStart then (i + 1) # word_breaks False (i + 1) s else word_breaks False (i + 1) s)
      else word_breaks True (i + 1) s)"

definition wordBreakPoints :: "string \<Rightarrow> nat \<Rightarrow> nat \<Rightarrow> nat list" where
  "wordBreakPoints text start stop = word_breaks True start (take (stop - start) (drop start text))"

function sentence_points :: "string \<Rightarrow> nat \<Rightarrow> nat list" where
  "sentence_points text start =
     (case indexFrom text channelTriggerSentence start of
        None \<Rightarrow> []
      | Some i \<Rightarrow>
          let stop = i + length channelTriggerSentence
          in wordBreakPoints text i stop @ sentence_points text stop)"
  by pat_completeness auto
termination
  by (relation "measure (\<lambda>(t, i). length t - i)") (auto dest: indexFrom_from simp: channelTriggerSentence_def)

declare sentence_points.simps [simp del]

definition neutralizeChannelText :: "string \<Rightarrow> string \<times> bool" where
  "neutralizeChannelText t = (if t = [] then (t, False) else break_at t (sentence_points t 0))"

definition NeutralizeChannelTrigger :: "body \<Rightarrow> body \<times> bool" where
  "NeutralizeChannelTrigger b = neutralize_values neutralizeChannelText b"

end
