(* ===== verification/NeutralizeProps.thy ===== *)
theory NeutralizeProps
  imports Neutralize
begin

text \<open>
  Breaking trigger words (\<open>waf_neutralize.go\<close>, \<open>channel_neutralize.go\<close>): the text that a reader sees
  stays, and the sentence about the channel is gone.
\<close>

subsection \<open>Text without breaks\<close>

fun unmark :: "string \<Rightarrow> string" where
  "unmark [] = []"
| "unmark (c # s) = (if has_prefix (c # s) wafBreakMarker then unmark (drop 2 s) else c # unmark s)"

lemma prefix_before: "c \<notin> set m \<Longrightarrow> has_prefix (x @ c # y) m \<longleftrightarrow> has_prefix x m"
proof (induction m arbitrary: x)
  case (Cons a m)
  then show ?case by (cases x) (auto simp: has_prefix_def)
qed (simp add: has_prefix_def)

lemma unmark_at: "c \<notin> set wafBreakMarker \<Longrightarrow> unmark (x @ c # y) = unmark x @ c # unmark y"
proof (induction x rule: unmark.induct)
  case 1
  then have "\<not> has_prefix (c # y) wafBreakMarker" by (auto simp: has_prefix_def wafBreakMarker_def)
  then show ?case by simp
next
  case (2 a s)
  note p = prefix_before [OF "2.prems", of "a # s" y]
  show ?case
  proof (cases "has_prefix (a # s) wafBreakMarker")
    case True
    then have "2 \<le> length s" by (cases s; cases "tl s") (auto simp: has_prefix_def wafBreakMarker_def)
    then have "drop 2 (s @ c # y) = drop 2 s @ c # y" by simp
    then show ?thesis using True "2.IH"(1) [OF True "2.prems"] p by simp
  next
    case False
    then show ?thesis using "2.IH"(2) [OF False "2.prems"] p by simp
  qed
qed

lemma unmark_marker: "unmark (wafBreakMarker @ y) = unmark y"
  by (simp add: wafBreakMarker_def has_prefix_def)

lemma unmark_insert: "c \<notin> set wafBreakMarker \<Longrightarrow> unmark (x @ c # wafBreakMarker @ y) = unmark (x @ c # y)"
  by (simp add: unmark_at unmark_marker)

lemma ascii_not_marker: "byte c < 0x80 \<Longrightarrow> c \<notin> set wafBreakMarker"
  by (auto simp: wafBreakMarker_def byte_def)

lemma unmark_ascii: "\<forall>c \<in> set s. byte c < 0x80 \<Longrightarrow> unmark s = s"
proof (induction s)
  case (Cons c s)
  then show ?case using unmark_at [OF ascii_not_marker, of c "[]" s] by simp
qed simp

lemma letter_ascii: "letter_byte c \<Longrightarrow> byte c < 0x80"
  by (auto simp: letter_byte_def)

lemma alnum_ascii: "alnum_byte c \<Longrightarrow> byte c < 0x80"
  using letter_ascii by (auto simp: alnum_byte_def)

subsection \<open>Breaks after ASCII bytes\<close>

definition after_ascii :: "string \<Rightarrow> nat list \<Rightarrow> bool" where
  "after_ascii t ps \<longleftrightarrow> (\<forall>p \<in> set ps. 0 < p \<and> (p < length t \<longrightarrow> byte (t ! (p - 1)) < 0x80))"

lemma piece_before:
  assumes "prev < p" "p < length t"
  shows "take (p - prev) (drop prev t) = take (p - 1 - prev) (drop prev t) @ [t ! (p - 1)]"
    "drop prev t = take (p - 1 - prev) (drop prev t) @ t ! (p - 1) # drop p t"
proof -
  have "take (Suc (p - 1 - prev)) (drop prev t) = take (p - 1 - prev) (drop prev t) @ [drop prev t ! (p - 1 - prev)]"
    using assms by (intro take_Suc_conv_app_nth) simp
  moreover have "Suc (p - 1 - prev) = p - prev" "drop prev t ! (p - 1 - prev) = t ! (p - 1)" using assms by auto
  ultimately show 1: "take (p - prev) (drop prev t) = take (p - 1 - prev) (drop prev t) @ [t ! (p - 1)]" by simp
  have "drop prev t = take (p - prev) (drop prev t) @ drop (p - prev) (drop prev t)" by (metis append_take_drop_id)
  then show "drop prev t = take (p - 1 - prev) (drop prev t) @ t ! (p - 1) # drop p t" using 1 assms by simp
qed

lemma insert_breaks_unmark:
  "after_ascii t ps \<Longrightarrow> unmark (insert_breaks t prev ps) = unmark (drop prev t)"
proof (induction ps arbitrary: prev)
  case (Cons p ps)
  have ps: "after_ascii t ps" using Cons.prems by (simp add: after_ascii_def)
  show ?case
  proof (cases "p \<le> prev \<or> length t \<le> p")
    case False
    let ?x = "take (p - 1 - prev) (drop prev t)" let ?c = "t ! (p - 1)"
    have c: "?c \<notin> set wafBreakMarker" using Cons.prems False by (intro ascii_not_marker) (simp add: after_ascii_def)
    have "insert_breaks t prev (p # ps) = ?x @ ?c # wafBreakMarker @ insert_breaks t p ps"
      using False piece_before(1) [of prev p t] by simp
    then have "unmark (insert_breaks t prev (p # ps)) = unmark ?x @ ?c # unmark (drop p t)"
      using c Cons.IH [OF ps] by (simp add: unmark_at unmark_marker)
    also have "\<dots> = unmark (drop prev t)" using piece_before(2) [of prev p t] False c unmark_at by (metis not_le)
    finally show ?thesis .
  qed (use Cons.IH [OF ps] in auto)
qed simp

lemma break_at_unmark: "after_ascii t ps \<Longrightarrow> unmark (fst (break_at t ps)) = unmark t"
  using insert_breaks_unmark [of t "sort (remdups ps)" 0] by (simp add: break_at_def after_ascii_def)

lemma first_letter: "firstLetterOffset s = Some off \<Longrightarrow> off < length s \<and> letter_byte (s ! off)"
  by (induction s arbitrary: off) (auto split: if_splits)

lemma waf_after_ascii: "after_ascii t (waf_points t)"
proof -
  have "0 < p \<and> byte (t ! (p - 1)) < 0x80" if p: "p \<in> set (waf_points t)" for p
  proof -
    obtain i e off where f: "firstLetterOffset (take (e - i) (drop i t)) = Some off" and e: "p = i + off + 1"
      using p by (auto simp: waf_points_def List.map_filter_def split: prod.splits option.splits)
    have "off < length (take (e - i) (drop i t))" "letter_byte (take (e - i) (drop i t) ! off)" using first_letter [OF f] by auto
    then show ?thesis using e letter_ascii by auto
  qed
  then show ?thesis by (auto simp: after_ascii_def)
qed

lemma word_breaks_after: "q \<in> set (word_breaks b i s) \<Longrightarrow> i < q \<and> q \<le> i + length s \<and> alnum_byte (s ! (q - 1 - i))"
proof (induction b i s rule: word_breaks.induct)
  case (2 b i c s)
  have step: "i + 1 < q \<and> q \<le> i + 1 + length s \<and> alnum_byte (s ! (q - 1 - (i + 1))) \<Longrightarrow>
      i < q \<and> q \<le> i + length (c # s) \<and> alnum_byte ((c # s) ! (q - 1 - i))"
    by (auto simp: nth_Cons' )
  show ?case
  proof (cases "alnum_byte c \<and> q = i + 1")
    case False
    then have "q \<in> set (word_breaks False (i + 1) s) \<or> q \<in> set (word_breaks True (i + 1) s)"
      using "2.prems" by (auto split: if_splits)
    then show ?thesis using "2.IH" "2.prems" step False by (auto split: if_splits)
  qed simp
qed simp

lemma sentence_after_ascii: "after_ascii t (sentence_points t start)"
proof (induction t start rule: sentence_points.induct)
  case (1 t start)
  show ?case
  proof (cases "indexFrom t channelTriggerSentence start")
    case None
    then show ?thesis by (simp add: sentence_points.simps [of t start] after_ascii_def)
  next
    case (Some i)
    let ?stop = "i + length channelTriggerSentence"
    have "0 < q \<and> (q < length t \<longrightarrow> byte (t ! (q - 1)) < 0x80)" if "q \<in> set (wordBreakPoints t i ?stop)" for q
      using that word_breaks_after [of q True i "take (?stop - i) (drop i t)"]
      by (auto simp: wordBreakPoints_def dest!: alnum_ascii)
    then show ?thesis using "1.IH" [OF Some refl] Some
      by (auto simp: sentence_points.simps [of t start] after_ascii_def Let_def)
  qed
qed

lemma neutral_text_unmark:
  "unmark (fst (neutralizeWAFText t)) = unmark t" "unmark (fst (neutralizeChannelText t)) = unmark t"
  by (simp_all add: neutralizeWAFText_def neutralizeChannelText_def break_at_unmark waf_after_ascii sentence_after_ascii)

subsection \<open>Well-formed UTF-8\<close>

lemma rune_before_ascii:
  assumes "byte c < 0x80" "x \<noteq> []"
  shows "rune_at (x @ c # y) = rune_at x"
proof -
  have nc: "\<not> cont c" using assms(1) by (simp add: cont_def)
  consider (1) a where "x = [a]" | (2) a b where "x = [a, b]" | (3) a b d where "x = [a, b, d]" | (4) a b d e z where "x = a # b # d # e # z"
    using assms(2) by (metis neq_Nil_conv)
  then show ?thesis by cases (simp_all add: rune_at_def Let_def nc)
qed

lemma rune_within:
  assumes "x \<noteq> []"
  shows "snd (rune_at x) \<le> length x"
proof -
  consider (1) a where "x = [a]" | (2) a b where "x = [a, b]" | (3) a b d where "x = [a, b, d]" | (4) a b d e z where "x = a # b # d # e # z"
    using assms by (metis neq_Nil_conv)
  then show ?thesis by cases (simp_all add: rune_at_def Let_def)
qed

lemma valid_Nil [simp]: "valid_text [] = []"
  by (simp add: valid_text.simps [of "[]"])

lemma valid_ascii: "byte c < 0x80 \<Longrightarrow> valid_text (c # y) = c # valid_text y"
  by (simp add: valid_text.simps [of "c # y"] rune_at_def Let_def)

lemma valid_at: "byte c < 0x80 \<Longrightarrow> valid_text (x @ c # y) = valid_text x @ c # valid_text y"
proof (induction x rule: valid_text.induct)
  case (1 x)
  show ?case
  proof (cases "x = []")
    case False
    note r = rune_before_ascii [OF "1.prems" False, of y] and w = rune_within [OF False]
    show ?thesis
    proof (cases "rune_at x = (0xFFFD, 1)")
      case True
      have "valid_text (tl x @ c # y) = valid_text (tl x) @ c # valid_text y"
        using "1.IH"(1) [OF False True "1.prems"] .
      then show ?thesis using False True r by (simp add: valid_text.simps [of "x @ c # y"] valid_text.simps [of x])
    next
      case nf: False
      have "valid_text (drop (snd (rune_at x)) x @ c # y) = valid_text (drop (snd (rune_at x)) x) @ c # valid_text y"
        using "1.IH"(2) [OF False nf "1.prems"] .
      then show ?thesis using False nf r w by (simp add: valid_text.simps [of "x @ c # y"] valid_text.simps [of x])
    qed
  qed (simp add: valid_ascii "1.prems")
qed

lemma valid_marker: "valid_text (wafBreakMarker @ y) = wafBreakMarker @ valid_text y"
  by (simp add: valid_text.simps [of "wafBreakMarker @ y"]) (simp add: wafBreakMarker_def rune_at_def Let_def byte_def cont_def)

lemma valid_length: "length s \<le> length (valid_text s)"
proof (induction s rule: valid_text.induct)
  case (1 s)
  show ?case
  proof (cases "s = [] \<or> rune_at s = (0xFFFD, 1)")
    case True
    then show ?thesis using "1.IH"(1) by (cases "s = []") (simp_all add: valid_text.simps [of s])
  next
    case False
    then show ?thesis using "1.IH"(2) rune_within [of s] by (simp add: valid_text.simps [of s])
  qed
qed

lemma insert_breaks_valid:
  "after_ascii t ps \<Longrightarrow> valid_text (drop prev t) = drop prev t \<Longrightarrow> valid_text (insert_breaks t prev ps) = insert_breaks t prev ps"
proof (induction ps arbitrary: prev)
  case (Cons p ps)
  have ps: "after_ascii t ps" using Cons.prems by (simp add: after_ascii_def)
  show ?case
  proof (cases "p \<le> prev \<or> length t \<le> p")
    case False
    let ?x = "take (p - 1 - prev) (drop prev t)" let ?c = "t ! (p - 1)"
    have c: "byte ?c < 0x80" using Cons.prems(1) False by (simp add: after_ascii_def)
    have d: "drop prev t = ?x @ ?c # drop p t" using piece_before(2) [of prev p t] False by simp
    then have v: "valid_text ?x @ ?c # valid_text (drop p t) = ?x @ ?c # drop p t"
      using Cons.prems(2) valid_at [OF c, of ?x "drop p t"] by simp
    then have "length (valid_text ?x) + length (valid_text (drop p t)) = length ?x + length (drop p t)"
      by (metis add_Suc_right add_right_imp_eq length_Cons length_append nat.inject)
    then have "length (valid_text ?x) = length ?x" using valid_length [of ?x] valid_length [of "drop p t"] by linarith
    then have parts: "valid_text ?x = ?x" "valid_text (drop p t) = drop p t" using v by auto
    have "insert_breaks t prev (p # ps) = ?x @ ?c # wafBreakMarker @ insert_breaks t p ps"
      using False piece_before(1) [of prev p t] by simp
    then show ?thesis using valid_at [OF c] parts Cons.IH [OF ps parts(2)] by (simp add: valid_marker)
  qed (use Cons.IH [OF ps] Cons.prems(2) in auto)
qed simp

lemma break_at_valid: "after_ascii t ps \<Longrightarrow> valid_text t = t \<Longrightarrow> valid_text (fst (break_at t ps)) = fst (break_at t ps)"
  using insert_breaks_valid [of t "sort (remdups ps)" 0] by (simp add: break_at_def after_ascii_def)

lemma neutral_text_valid:
  assumes "valid_text t = t"
  shows "valid_text (fst (neutralizeWAFText t)) = fst (neutralizeWAFText t)"
    "valid_text (fst (neutralizeChannelText t)) = fst (neutralizeChannelText t)"
  using assms by (simp_all add: neutralizeWAFText_def neutralizeChannelText_def break_at_valid waf_after_ascii sentence_after_ascii)

subsection \<open>The sentence is gone\<close>

abbreviation occurs_at :: "string \<Rightarrow> string \<Rightarrow> nat \<Rightarrow> bool" where
  "occurs_at s t i \<equiv> has_prefix (drop i t) s"

lemma occurs_length:
  assumes "occurs_at s t i" "s \<noteq> []"
  shows "i + length s \<le> length t"
proof -
  have "length (take (length s) (drop i t)) = length s" using assms(1) by (simp add: has_prefix_def)
  then have "length s \<le> length t - i" by simp
  moreover have "0 < length s" using assms(2) by simp
  ultimately show ?thesis by linarith
qed

lemma occurs_nth: "occurs_at s t i \<Longrightarrow> k < length s \<Longrightarrow> t ! (i + k) = s ! k"
proof -
  assume "occurs_at s t i" "k < length s"
  then have "s ! k = take (length s) (drop i t) ! k" by (simp add: has_prefix_def)
  also have "\<dots> = drop i t ! k" using \<open>k < length s\<close> by simp
  also have "\<dots> = t ! (i + k)"
    using occurs_length [OF \<open>occurs_at s t i\<close>] \<open>k < length s\<close> by (intro nth_drop) (cases s; simp)
  finally show ?thesis by simp
qed

lemma occurs_in_piece:
  "occurs_at s (take n (drop prev t)) i \<Longrightarrow> s \<noteq> [] \<Longrightarrow> occurs_at s t (prev + i) \<and> i + length s \<le> n"
proof -
  assume a: "occurs_at s (take n (drop prev t)) i" "s \<noteq> []"
  note l = occurs_length [OF a]
  have "take (length s) (drop i (take n (drop prev t))) = take (length s) (drop (prev + i) t)"
    using l by (auto simp: drop_take min_def add.commute split: if_splits)
  then show ?thesis using a l by (simp add: has_prefix_def)
qed

lemma occurs_split:
  assumes "c \<notin> set s" "s \<noteq> []" "occurs_at s (x @ c # y) i"
  shows "occurs_at s x i \<and> i + length s \<le> length x \<or> (\<exists>j. occurs_at s y j)"
proof (cases "i \<le> length x")
  case True
  then have "has_prefix (drop i x @ c # y) s" using assms(3) by simp
  then have "occurs_at s x i" using prefix_before [OF assms(1)] by blast
  then show ?thesis using occurs_length assms(2) by blast
next
  case False
  then have "drop i (x @ c # y) = drop (i - length x - 1) y" by (cases "i - length x") auto
  then show ?thesis using assms(3) by auto
qed

lemma occurs_in_broken:
  assumes "\<forall>c \<in> set s. byte c < 0x80" "s \<noteq> []" "occurs_at s (x @ wafBreakMarker @ y) i"
  shows "occurs_at s x i \<and> i + length s \<le> length x \<or> (\<exists>j. occurs_at s y j)"
proof -
  have out: "CHR 0xE2 \<notin> set s" "CHR 0x80 \<notin> set s" "CHR 0x8B \<notin> set s" using assms(1) by (force simp: byte_def)+
  have two: "\<exists>j. occurs_at s y j" if "occurs_at s (CHR 0x80 # CHR 0x8B # y) j" for j
  proof -
    from that have "\<exists>j. occurs_at s (CHR 0x8B # y) j"
      using occurs_split [OF out(2) assms(2), where x = "[]" and y = "CHR 0x8B # y" and i = j] assms(2) by auto
    then show ?thesis using occurs_split [OF out(3) assms(2), where x = "[]" and y = y] assms(2) by fastforce
  qed
  show ?thesis
    using occurs_split [OF out(1) assms(2), where x = x and y = "CHR 0x80 # CHR 0x8B # y" and i = i] assms(3) two
    by (auto simp: wafBreakMarker_def)
qed

text \<open>Breaks that hit every occurrence leave none.\<close>

lemma broken_everywhere:
  assumes "\<forall>c \<in> set s. byte c < 0x80" "s \<noteq> []"
  shows "sorted_wrt (<) ps \<Longrightarrow> \<forall>i \<ge> prev. occurs_at s t i \<longrightarrow> (\<exists>p \<in> set ps. i < p \<and> p < i + length s) \<Longrightarrow>
    \<not> occurs_at s (insert_breaks t prev ps) i"
proof (induction ps arbitrary: prev i)
  case Nil
  show ?case
  proof
    assume "occurs_at s (insert_breaks t prev []) i"
    then have "occurs_at s t (prev + i)" by (simp add: add.commute)
    then show False using Nil by auto
  qed
next
  case (Cons p ps)
  have sorted: "sorted_wrt (<) ps" "\<forall>q \<in> set ps. p < q" using Cons.prems(1) by auto
  show ?case
  proof (cases "p \<le> prev \<or> length t \<le> p")
    case True
    have "\<exists>q \<in> set ps. i < q \<and> q < i + length s" if "prev \<le> i" "occurs_at s t i" for i
    proof -
      obtain q where q: "q \<in> set (p # ps)" "i < q" "q < i + length s" using Cons.prems(2) \<open>prev \<le> i\<close> \<open>occurs_at s t i\<close> by blast
      have "q \<noteq> p" using True q that occurs_length [OF that(2) assms(2)] by linarith
      then show ?thesis using q by auto
    qed
    then show ?thesis using Cons.IH [OF sorted(1)] True by simp
  next
    case False
    have rest: "\<not> occurs_at s (insert_breaks t p ps) j" for j
    proof (rule Cons.IH [OF sorted(1)], intro allI impI)
      fix i assume "p \<le> i" "occurs_at s t i"
      then obtain q where "q \<in> set (p # ps)" "i < q" "q < i + length s"
        using Cons.prems(2) False by (metis (no_types, lifting) le_trans nat_le_linear)
      then show "\<exists>q \<in> set ps. i < q \<and> q < i + length s" using \<open>p \<le> i\<close> by auto
    qed
    show ?thesis
    proof
      assume "occurs_at s (insert_breaks t prev (p # ps)) i"
      then have "occurs_at s (take (p - prev) (drop prev t)) i"
        using occurs_in_broken [OF assms, where x = "take (p - prev) (drop prev t)" and y = "insert_breaks t p ps" and i = i] rest False by auto
      then have o': "occurs_at s t (prev + i)" "i + length s \<le> p - prev" using occurs_in_piece assms(2) by blast+
      then have "\<exists>q \<in> set (p # ps). prev + i < q \<and> q < prev + i + length s" using Cons.prems(2) by (meson le_add1)
      then obtain q where "q \<in> set (p # ps)" "q < prev + i + length s" by blast
      then show False using sorted(2) o'(2) False by auto
    qed
  qed
qed

lemma sentence_bytes: "\<forall>c \<in> set channelTriggerSentence. byte c < 0x80" "channelTriggerSentence \<noteq> []"
  "length channelTriggerSentence = 49" "channelTriggerSentence ! 0 = CHR ''C''" "channelTriggerSentence ! 1 = CHR ''o''"
  by (simp_all add: channelTriggerSentence_def byte_def)

lemma sentence_no_overlap: "0 < d \<Longrightarrow> d < 48 \<Longrightarrow> channelTriggerSentence ! d = CHR ''C'' \<Longrightarrow> channelTriggerSentence ! (d + 1) \<noteq> CHR ''o''"
proof -
  have "list_all (\<lambda>d. channelTriggerSentence ! d = CHR ''C'' \<longrightarrow> channelTriggerSentence ! (d + 1) \<noteq> CHR ''o'') [1..<48]"
    by code_simp
  then show "0 < d \<Longrightarrow> d < 48 \<Longrightarrow> channelTriggerSentence ! d = CHR ''C'' \<Longrightarrow> channelTriggerSentence ! (d + 1) \<noteq> CHR ''o''"
    by (auto simp: list_all_iff)
qed

lemma sentences_apart:
  assumes "occurs_at channelTriggerSentence t i" "occurs_at channelTriggerSentence t j" "i < j"
  shows "i + length channelTriggerSentence \<le> j"
proof (rule ccontr)
  let ?s = channelTriggerSentence
  assume "\<not> i + length ?s \<le> j"
  then have d: "0 < j - i" "j - i < 49" using assms(3) sentence_bytes(3) by auto
  have "?s ! (j - i) = CHR ''C''"
    using occurs_nth [OF assms(1), of "j - i"] occurs_nth [OF assms(2), of 0] d assms(3) sentence_bytes by simp
  moreover have "?s ! 48 = CHR ''I''" by (simp add: channelTriggerSentence_def)
  ultimately have d48: "j - i < 48" using d by (cases "j - i = 48") auto
  have "?s ! (j - i + 1) = CHR ''o''"
    using occurs_nth [OF assms(1), of "j - i + 1"] occurs_nth [OF assms(2), of 1] d48 assms(3) sentence_bytes by simp
  then show False using sentence_no_overlap d(1) d48 \<open>?s ! (j - i) = CHR ''C''\<close> by blast
qed

lemma indexFrom_first:
  "case indexFrom t s i of
     None \<Rightarrow> \<forall>j \<ge> i. s \<noteq> [] \<longrightarrow> \<not> occurs_at s t j
   | Some k \<Rightarrow> occurs_at s t k \<and> (\<forall>j. i \<le> j \<and> j < k \<longrightarrow> \<not> occurs_at s t j)"
proof (induction t s i rule: indexFrom.induct)
  case (1 t s i)
  consider (out) "length t \<le> i \<or> length t < i + length s" | (here) "\<not> (length t \<le> i \<or> length t < i + length s)" "occurs_at s t i"
    | (later) "\<not> (length t \<le> i \<or> length t < i + length s)" "\<not> occurs_at s t i" by blast
  then show ?case
  proof cases
    case out
    have "\<not> occurs_at s t j" if "i \<le> j" "s \<noteq> []" for j
    proof
      assume "occurs_at s t j"
      then have "j + length s \<le> length t" using that(2) by (rule occurs_length)
      moreover have "0 < length s" using that(2) by simp
      ultimately show False using out that(1) by linarith
    qed
    then show ?thesis using out by (simp add: indexFrom.simps [of t s i])
  next
    case here
    then show ?thesis by (auto simp: indexFrom.simps [of t s i])
  next
    case later
    have "j = i \<or> i + 1 \<le> j" if "i \<le> j" for j using that by linarith
    then show ?thesis using "1.IH" [OF later] later by (simp add: indexFrom.simps [of t s i] split: option.splits) metis+
  qed
qed

lemma sentence_points_hit:
  "start \<le> i \<Longrightarrow> occurs_at channelTriggerSentence t i \<Longrightarrow> i + 1 \<in> set (sentence_points t start)"
proof (induction t start rule: sentence_points.induct)
  case (1 t start)
  let ?s = channelTriggerSentence
  obtain k where k: "indexFrom t ?s start = Some k" "occurs_at ?s t k" "\<forall>j. start \<le> j \<and> j < k \<longrightarrow> \<not> occurs_at ?s t j"
    using indexFrom_first [where t = t and s = ?s and i = start] "1.prems" sentence_bytes(2) by (cases "indexFrom t ?s start") auto
  have eq: "sentence_points t start = wordBreakPoints t k (k + length ?s) @ sentence_points t (k + length ?s)"
    using k(1) by (simp add: sentence_points.simps [of t start] Let_def)
  consider (same) "i = k" | (after) "k < i" using k(3) "1.prems" by (meson linorder_neqE_nat)
  then show ?case
  proof cases
    case same
    have "take (length ?s) (drop i t) = ?s" using "1.prems"(2) by (simp add: has_prefix_def)
    then have "wordBreakPoints t k (k + length ?s) = word_breaks True i ?s" by (simp add: wordBreakPoints_def same)
    then show ?thesis using eq by (simp add: channelTriggerSentence_def alnum_byte_def letter_byte_def byte_def)
  next
    case after
    then have "k + length ?s \<le> i" using sentences_apart k(2) "1.prems"(2) by blast
    then show ?thesis using "1.IH" [OF k(1) refl] "1.prems"(2) eq by simp
  qed
qed

lemma channel_text_clean: "\<not> occurs_at channelTriggerSentence (fst (neutralizeChannelText t)) i"
proof (cases "sentence_points t 0 = []")
  case True
  then have "\<not> occurs_at channelTriggerSentence t i" using sentence_points_hit [where start = 0 and i = i and t = t] by auto
  then show ?thesis using True sentence_bytes(2) by (cases "t = []") (auto simp: neutralizeChannelText_def break_at_def has_prefix_def)
next
  case False
  let ?ps = "sort (remdups (sentence_points t 0))"
  have "sorted_wrt (<) ?ps" by (simp add: strict_sorted_iff)
  moreover have "\<forall>i \<ge> 0. occurs_at channelTriggerSentence t i \<longrightarrow> (\<exists>p \<in> set ?ps. i < p \<and> p < i + length channelTriggerSentence)"
    using sentence_points_hit [where start = 0] sentence_bytes(3) by (intro allI impI bexI [of _ "_ + 1"]) auto
  ultimately have "\<not> occurs_at channelTriggerSentence (insert_breaks t 0 ?ps) i"
    using broken_everywhere [OF sentence_bytes(1,2)] by blast
  then show ?thesis using False sentence_bytes(2) by (auto simp: neutralizeChannelText_def break_at_def has_prefix_def)
qed

subsection \<open>Documents\<close>

lemma map_strings_map: "map_strings g (map_strings h j) = map_strings (\<lambda>s. g (h s)) j"
proof (induction j)
  case (JObj m)
  then show ?case by (auto intro!: map_cong)
qed auto

lemma map_strings_cong: "(\<And>s. s \<in> set (strings_of j) \<Longrightarrow> g s = h s) \<Longrightarrow> map_strings g j = map_strings h j"
proof (induction j)
  case (JArr vs)
  then show ?case by (auto intro!: map_cong)
next
  case (JObj m)
  have "map_strings g (snd kv) = map_strings h (snd kv)" if "kv \<in> set m" for kv
    using JObj.IH [of kv "snd kv"] JObj.prems that by (cases kv) (force simp: snds.simps)
  then show ?case by (auto intro!: map_cong)
qed auto

lemma strings_of_map: "strings_of (map_strings f j) = map f (strings_of j)"
proof (induction j)
  case (JArr vs)
  then show ?case by (induction vs) auto
next
  case (JObj m)
  then show ?case by (induction m) (auto simp: snds.simps)
qed auto

definition utf8 :: "json \<Rightarrow> bool" where
  "utf8 j \<longleftrightarrow> (\<forall>s \<in> set (strings_of j). valid_text s = s)"

text \<open>A rewriting of texts that only inserts breaks after ASCII bytes, and says whether it did.\<close>

definition inserts_breaks :: "(string \<Rightarrow> string \<times> bool) \<Rightarrow> bool" where
  "inserts_breaks f \<longleftrightarrow> (\<forall>t. unmark (fst (f t)) = unmark t \<and> (valid_text t = t \<longrightarrow> valid_text (fst (f t)) = fst (f t))
     \<and> (snd (f t) \<or> fst (f t) = t))"

lemma neutral_texts: "inserts_breaks neutralizeWAFText" "inserts_breaks neutralizeChannelText"
  using neutral_text_unmark neutral_text_valid
  by (auto simp: inserts_breaks_def) (auto simp: neutralizeWAFText_def neutralizeChannelText_def break_at_def split: if_splits)

lemma neutralize_values_result:
  assumes "utf8 j" "inserts_breaks f"
  shows "fst (neutralize_values f (Doc j)) = Doc (map_strings (\<lambda>s. fst (f s)) j)"
proof (cases "j = JNull \<or> \<not> list_ex (\<lambda>s. snd (f s)) (strings_of j)")
  case True
  have "fst (f s) = s" if "s \<in> set (strings_of j)" for s
    using True that assms(2) by (auto simp: inserts_breaks_def list_ex_iff)
  then have "map_strings (\<lambda>s. fst (f s)) j = map_strings (\<lambda>s. s) j" by (rule map_strings_cong)
  moreover have "map_strings (\<lambda>s. s) j = j" by (induction j) (auto intro: map_idI)
  ultimately have "map_strings (\<lambda>s. fst (f s)) j = j" by simp
  moreover have "fst (neutralize_values f (Doc j)) = Doc j"
    using True unfolding neutralize_values_def by (auto split: json.split)
  ultimately show ?thesis by simp
next
  case False
  have "map_strings valid_text (map_strings (\<lambda>s. fst (f s)) j) = map_strings (\<lambda>s. fst (f s)) j"
    unfolding map_strings_map using assms by (intro map_strings_cong) (simp add: utf8_def inserts_breaks_def)
  then show ?thesis using False by (cases j) (auto simp: neutralize_values_def encoded_def)
qed

text \<open>
  breaking trigger words changes nothing that a reader sees. In a document of well-formed
  UTF-8 the keys, numbers and structure stay, and every text is the same once the inserted zero
  width spaces are left out.
\<close>

theorem neutralizing_keeps_text:
  assumes "utf8 j" "neutral = NeutralizeWAFTriggers \<or> neutral = NeutralizeChannelTrigger"
  shows "\<exists>j'. fst (neutral (Doc j)) = Doc j' \<and> utf8 j' \<and> map_strings unmark j' = map_strings unmark j"
proof -
  obtain f where f: "inserts_breaks f" "neutral (Doc j) = neutralize_values f (Doc j)"
    using assms(2) neutral_texts by (auto simp: NeutralizeWAFTriggers_def NeutralizeChannelTrigger_def)
  have "utf8 (map_strings (\<lambda>s. fst (f s)) j)"
    using assms(1) f(1) by (auto simp: utf8_def strings_of_map inserts_breaks_def)
  moreover have "map_strings unmark (map_strings (\<lambda>s. fst (f s)) j) = map_strings unmark j"
    unfolding map_strings_map using f(1) by (intro map_strings_cong) (simp add: inserts_breaks_def)
  ultimately show ?thesis using neutralize_values_result [OF assms(1) f(1)] f(2) by auto
qed

lemma neutralizing_keeps_text_witness:
  "\<exists>j'. fst (NeutralizeWAFTriggers (Doc (JObj [(''a'', JStr ''eval'')]))) = Doc j' \<and> utf8 j'
     \<and> map_strings unmark j' = map_strings unmark (JObj [(''a'', JStr ''eval'')])"
  by (rule neutralizing_keeps_text) (simp_all add: utf8_def valid_ascii byte_def)

text \<open>
  after the sentence about the channel was broken, no text of the document contains it.
\<close>

theorem channel_sentence_gone:
  assumes "utf8 j"
  shows "\<exists>j'. fst (NeutralizeChannelTrigger (Doc j)) = Doc j'
    \<and> (\<forall>s \<in> set (strings_of j'). \<forall>i. \<not> has_prefix (drop i s) channelTriggerSentence)"
  using neutralize_values_result [OF assms neutral_texts(2)] channel_text_clean
  by (auto simp: NeutralizeChannelTrigger_def strings_of_map)

lemma channel_sentence_gone_witness:
  "\<exists>j'. fst (NeutralizeChannelTrigger (Doc (JStr channelTriggerSentence))) = Doc j'
    \<and> (\<forall>s \<in> set (strings_of j'). \<forall>i. \<not> has_prefix (drop i s) channelTriggerSentence)"
  by (rule channel_sentence_gone) (simp add: utf8_def channelTriggerSentence_def valid_ascii byte_def)

subsection \<open>The deeper levels\<close>

text \<open>The deeper levels count bytes: they tear a character of several bytes apart, and break JSON.\<close>

lemma deep_break_tears_characters:
  "fst (breakEveryToken [CHR 0xC3, CHR 0xA9]) = [CHR 0xC3] @ wafBreakMarker @ [CHR 0xA9] @ wafBreakMarker"
  "valid_text (fst (breakEveryToken [CHR 0xC3, CHR 0xA9])) \<noteq> fst (breakEveryToken [CHR 0xC3, CHR 0xA9])"
  by (simp_all add: breakEveryToken_def break_all_def alnum_byte_def letter_byte_def wafBreakMarker_def
      valid_text.simps rune_at_def Let_def byte_def cont_def)

lemma risky_break_spoils_arguments: "fst (breakRiskyTokens ''{}'') = ''{'' @ wafBreakMarker @ ''}''"
  by (simp add: breakRiskyTokens_def risky_token_def wafRiskyChars_def break_token_def letter_byte_def byte_def)

end
