(* ===== verification/ChatRetry.thy ===== *)
theory ChatRetry
  imports Neutralize EffortCatalog ErrorPolicy
begin

text \<open>
  Sending a chat request, \<open>ChatStreamContext\<close> of \<open>internal/upstream/client.go\<close>: the prepared body
  first, then with broken trigger words as far as the vendor's filters object, then on the other
  path. The vendor is a function from the number of requests sent before to its reply.
\<close>

datatype reply =
    NoReply
  | BrokenReply int
  | Refused int string
  | Accepted int

datatype chat_result = TransportError | Returned int string | Streaming int

type_synonym sent = "(string \<times> body) list"

text \<open>One level of breaking words, by the number of levels tried before.\<close>

definition neutralize :: "nat \<Rightarrow> body \<Rightarrow> body" where
  "neutralize wafLevel b =
     (if wafLevel = 0 then fst (NeutralizeWAFTriggers b)
      else if wafLevel = 1 then fst (NeutralizeWAFTokens b)
      else fst (NeutralizeWAFTokensDeep b))"

function escalate :: "nat \<Rightarrow> body \<Rightarrow> nat \<times> body" where
  "escalate wafLevel b =
     (if 3 \<le> wafLevel then (wafLevel, b)
      else if neutralize wafLevel b = b then escalate (wafLevel + 1) b
      else (wafLevel + 1, neutralize wafLevel b))"
  by pat_completeness auto
termination by (relation "measure (\<lambda>(l, b). 3 - l)") auto

declare escalate.simps [simp del]

lemma escalate_progress: "snd (escalate l b) \<noteq> b \<Longrightarrow> l < fst (escalate l b) \<and> fst (escalate l b) \<le> 3"
proof (induction l b rule: escalate.induct)
  case (1 l b)
  then show ?case by (auto simp: escalate.simps [of l b] split: if_splits)
qed

datatype path_result = Done chat_result | Next body

definition chatFallbackHTTPStatus :: "int \<Rightarrow> bool" where
  "chatFallbackHTTPStatus status \<longleftrightarrow> status = 404 \<or> status = 405"

text \<open>
  The loop on one path. At its top the body about to be sent is the one sent last, so
  \<open>lastSent\<close> needs no variable of its own.
\<close>

function retry_path :: "(int \<Rightarrow> string \<Rightarrow> ErrKind) \<Rightarrow> (nat \<Rightarrow> reply) \<Rightarrow> string \<Rightarrow> bool \<Rightarrow> nat \<Rightarrow> bool \<Rightarrow> body \<Rightarrow> sent \<Rightarrow> path_result \<times> sent" where
  "retry_path classify vendor path hasNext wafLevel channelNeutralized prepared sent =
     (let sent' = sent @ [(path, prepared)]
      in case vendor (length sent) of
           NoReply \<Rightarrow> (Done TransportError, sent')
         | BrokenReply _ \<Rightarrow> (Done TransportError, sent')
         | Accepted status \<Rightarrow> (Done (Streaming status), sent')
         | Refused status raw \<Rightarrow>
             let kind = classify status raw;
                 next = escalate wafLevel prepared;
                 candidate = NeutralizeChannelTrigger prepared;
                 fallback = (if hasNext \<and> chatFallbackHTTPStatus status then Next prepared else Done (Returned status raw))
             in if kind = ErrUpstreamWAF \<and> snd next \<noteq> prepared
                then retry_path classify vendor path hasNext (fst next) channelNeutralized (snd next) sent'
                else if kind = ErrChannelRejected \<and> \<not> channelNeutralized \<and> snd candidate
                then retry_path classify vendor path hasNext wafLevel True (fst candidate) sent'
                else (fallback, sent'))"
  by pat_completeness auto
termination
  by (relation "measure (\<lambda>(_, _, _, _, l, c, _, _). (3 - l) + (if c then 0 else 1))")
    (use escalate_progress in fastforce)+

declare retry_path.simps [simp del]

fun try_paths :: "(int \<Rightarrow> string \<Rightarrow> ErrKind) \<Rightarrow> (nat \<Rightarrow> reply) \<Rightarrow> string list \<Rightarrow> body \<Rightarrow> sent \<Rightarrow> chat_result \<times> sent" where
  "try_paths classify vendor [] prepared sent = (TransportError, sent)"
| "try_paths classify vendor (path # paths) prepared sent =
     (case retry_path classify vendor path (paths \<noteq> []) 0 False prepared sent of
        (Done r, sent') \<Rightarrow> (r, sent')
      | (Next prepared', sent') \<Rightarrow> try_paths classify vendor paths prepared' sent')"

definition chatCompletionsPath :: string where "chatCompletionsPath = ''/v2/chat/completions''"
definition globalChatConsolePath :: string where "globalChatConsolePath = ''/console/chat/completions''"

definition chatPaths :: "bool \<Rightarrow> string list" where
  "chatPaths globalOn =
     (if globalOn then [chatCompletionsPath, globalChatConsolePath] else [chatCompletionsPath])"

text \<open>The whole call; \<open>prepare\<close> is \<open>prepareBody\<close> with the client's settings.\<close>

definition ChatStreamContext :: "(string \<Rightarrow> json option) \<Rightarrow> (json \<Rightarrow> string) \<Rightarrow> (nat \<Rightarrow> reply) \<Rightarrow> (body \<Rightarrow> body) \<Rightarrow> bool \<Rightarrow> body \<Rightarrow> chat_result \<times> sent" where
  "ChatStreamContext parse sprint vendor prepare globalOn b =
     (let prepared = (if globalOn then ensureConsoleSystem (prepare b) else prepare b)
      in try_paths (Classify parse sprint) vendor (chatPaths globalOn) prepared [])"

end
