(* ===== verification/ChatRetryProps.thy ===== *)
theory ChatRetryProps
  imports ChatRetry
begin

text \<open>
  How often a chat request is sent, what is sent each time, and what the caller learns
  (\<open>ChatStreamContext\<close> of \<open>internal/upstream/client.go\<close>).
\<close>

subsection \<open>One request after another\<close>

text \<open>What may follow a request: its words broken, or the same body on another path.\<close>

definition follows :: "(int \<Rightarrow> string \<Rightarrow> ErrKind) \<Rightarrow> reply \<Rightarrow> string \<times> body \<Rightarrow> string \<times> body \<Rightarrow> bool" where
  "follows classify r before after \<longleftrightarrow>
     (\<exists>status raw. r = Refused status raw \<and>
       (fst after = fst before \<and> classify status raw = ErrUpstreamWAF
          \<and> snd after \<noteq> snd before \<and> (\<exists>l < 3. snd after = neutralize l (snd before))
        \<or> fst after = fst before \<and> classify status raw = ErrChannelRejected
          \<and> NeutralizeChannelTrigger (snd before) = (snd after, True)
        \<or> fst after \<noteq> fst before \<and> chatFallbackHTTPStatus status \<and> snd after = snd before))"

text \<open>A sequence of requests, each following the one before it, that goes on with \<open>x\<close>.\<close>

definition follows_all :: "(int \<Rightarrow> string \<Rightarrow> ErrKind) \<Rightarrow> (nat \<Rightarrow> reply) \<Rightarrow> sent \<Rightarrow> bool" where
  "follows_all classify vendor sent \<longleftrightarrow>
     (\<forall>i. Suc i < length sent \<longrightarrow> follows classify (vendor i) (sent ! i) (sent ! Suc i))"

definition goes_on :: "(int \<Rightarrow> string \<Rightarrow> ErrKind) \<Rightarrow> (nat \<Rightarrow> reply) \<Rightarrow> sent \<Rightarrow> string \<times> body \<Rightarrow> bool" where
  "goes_on classify vendor sent x \<longleftrightarrow>
     sent = [] \<or> follows classify (vendor (length sent - 1)) (last sent) x"

lemma follows_all_snoc:
  "follows_all classify vendor sent \<Longrightarrow> goes_on classify vendor sent x \<Longrightarrow> follows_all classify vendor (sent @ [x])"
proof -
  assume a: "follows_all classify vendor sent" "goes_on classify vendor sent x"
  have "follows classify (vendor i) ((sent @ [x]) ! i) ((sent @ [x]) ! Suc i)" if i: "Suc i < length (sent @ [x])" for i
  proof (cases "Suc i < length sent")
    case False
    then have "i = length sent - 1" "sent \<noteq> []" "Suc i = length sent" using i by auto
    then show ?thesis using a(2) by (simp add: goes_on_def nth_append last_conv_nth)
  qed (use a(1) in \<open>simp add: follows_all_def nth_append\<close>)
  then show "follows_all classify vendor (sent @ [x])" by (simp add: follows_all_def)
qed

definition outcome_of :: "reply \<Rightarrow> chat_result" where
  "outcome_of r =
     (case r of Accepted status \<Rightarrow> Streaming status | Refused status raw \<Rightarrow> Returned status raw | _ \<Rightarrow> TransportError)"

lemma escalate_neutralizes: "snd (escalate l b) \<noteq> b \<Longrightarrow> \<exists>l' < 3. snd (escalate l b) = neutralize l' b"
proof (induction l b rule: escalate.induct)
  case (1 l b)
  then show ?case by (auto simp: escalate.simps [of l b] split: if_splits intro: exI [of _ l])
qed

text \<open>The requests that the loop on one path can still send.\<close>

definition sends_left :: "nat \<Rightarrow> bool \<Rightarrow> nat" where
  "sends_left wafLevel channelNeutralized = 1 + (3 - wafLevel) + (if channelNeutralized then 0 else 1)"

definition path_done :: "(nat \<Rightarrow> reply) \<Rightarrow> string \<Rightarrow> bool \<Rightarrow> path_result \<Rightarrow> sent \<Rightarrow> bool" where
  "path_done vendor path hasNext r sent \<longleftrightarrow> sent \<noteq> [] \<and> fst (last sent) = path \<and>
     (case r of
        Done x \<Rightarrow> x = outcome_of (vendor (length sent - 1))
      | Next b \<Rightarrow> hasNext \<and> b = snd (last sent)
          \<and> (\<exists>status raw. vendor (length sent - 1) = Refused status raw \<and> chatFallbackHTTPStatus status))"

lemma retry_path_spec:
  assumes "follows_all classify vendor sent" "goes_on classify vendor sent (path, b)"
    "retry_path classify vendor path hasNext l c b sent = (r, sent')"
  shows "follows_all classify vendor sent' \<and> path_done vendor path hasNext r sent'
    \<and> length sent' \<le> length sent + sends_left l c \<and> (\<exists>more. sent' = sent @ (path, b) # more)"
  using assms
proof (induction classify vendor path hasNext l c b sent rule: retry_path.induct)
  case (1 classify vendor path hasNext l c b sent)
  let ?sent = "sent @ [(path, b)]"
  have fa: "follows_all classify vendor ?sent" using "1.prems"(1,2) by (rule follows_all_snoc)
  note eq = "1.prems"(3) [unfolded retry_path.simps [of classify vendor path hasNext l c b sent] Let_def]
  show ?case
  proof (cases "vendor (length sent)")
    case (Refused status raw)
    let ?next = "escalate l b" let ?cand = "NeutralizeChannelTrigger b"
    have go: "goes_on classify vendor ?sent (path, b')" if "follows classify (Refused status raw) (path, b) (path, b')" for b'
      using that Refused by (simp add: goes_on_def)
    consider (waf) "classify status raw = ErrUpstreamWAF" "snd ?next \<noteq> b"
      | (channel) "\<not> (classify status raw = ErrUpstreamWAF \<and> snd ?next \<noteq> b)" "classify status raw = ErrChannelRejected" "\<not> c" "snd ?cand"
      | (stop) "\<not> (classify status raw = ErrUpstreamWAF \<and> snd ?next \<noteq> b)" "\<not> (classify status raw = ErrChannelRejected \<and> \<not> c \<and> snd ?cand)"
      by blast
    then show ?thesis
    proof cases
      case waf
      have "follows classify (Refused status raw) (path, b) (path, snd ?next)"
        using waf escalate_neutralizes [OF waf(2)] by (auto simp: follows_def)
      then have "follows_all classify vendor sent' \<and> path_done vendor path hasNext r sent'
          \<and> length sent' \<le> length ?sent + sends_left (fst ?next) c \<and> (\<exists>more. sent' = ?sent @ (path, snd ?next) # more)"
        using eq Refused waf fa by (intro "1.IH"(1) [OF refl Refused refl refl refl refl] go) simp_all
      moreover have "1 + sends_left (fst ?next) c \<le> sends_left l c"
        using escalate_progress [OF waf(2)] unfolding sends_left_def by linarith
      ultimately show ?thesis by auto
    next
      case channel
      have "follows classify (Refused status raw) (path, b) (path, fst ?cand)"
        using channel by (cases ?cand) (auto simp: follows_def)
      then have "follows_all classify vendor sent' \<and> path_done vendor path hasNext r sent'
          \<and> length sent' \<le> length ?sent + sends_left l True \<and> (\<exists>more. sent' = ?sent @ (path, fst ?cand) # more)"
        using eq Refused channel fa by (intro "1.IH"(2) [OF refl Refused refl refl refl refl] go) simp_all
      moreover have "1 + sends_left l True \<le> sends_left l c" using channel(3) by (simp add: sends_left_def)
      ultimately show ?thesis by auto
    next
      case stop
      then have "r = (if hasNext \<and> chatFallbackHTTPStatus status then Next b else Done (Returned status raw))" "sent' = ?sent"
        using eq Refused by auto
      then show ?thesis using fa Refused by (simp add: path_done_def sends_left_def outcome_of_def)
    qed
  qed (use eq fa in \<open>auto simp: path_done_def sends_left_def outcome_of_def\<close>)
qed

lemma try_paths_spec:
  assumes "paths \<noteq> []" "distinct paths" "follows_all classify vendor sent"
    "sent = [] \<or> snd (last sent) = b \<and> fst (last sent) \<notin> set paths
       \<and> (\<exists>status raw. vendor (length sent - 1) = Refused status raw \<and> chatFallbackHTTPStatus status)"
    "try_paths classify vendor paths b sent = (x, sent')"
  shows "follows_all classify vendor sent' \<and> sent' \<noteq> [] \<and> x = outcome_of (vendor (length sent' - 1))
    \<and> length sent' \<le> length sent + 5 * length paths \<and> (\<exists>more. sent' = sent @ (hd paths, b) # more)"
  using assms
proof (induction paths arbitrary: b sent)
  case (Cons path paths)
  obtain r s1 where r: "retry_path classify vendor path (paths \<noteq> []) 0 False b sent = (r, s1)"
    by (cases "retry_path classify vendor path (paths \<noteq> []) 0 False b sent")
  have "goes_on classify vendor sent (path, b)" using Cons.prems(4) by (auto simp: goes_on_def follows_def)
  note s = retry_path_spec [OF Cons.prems(3) this r]
  then have len: "length s1 \<le> length sent + 5" by (simp add: sends_left_def)
  show ?case
  proof (cases r)
    case (Done y)
    then show ?thesis using s len r Cons.prems(5) by (auto simp: path_done_def)
  next
    case (Next b')
    have d: "paths \<noteq> []" "b' = snd (last s1)" "fst (last s1) = path"
        "\<exists>status raw. vendor (length s1 - 1) = Refused status raw \<and> chatFallbackHTTPStatus status"
      using s Next by (auto simp: path_done_def)
    have "follows_all classify vendor sent' \<and> sent' \<noteq> [] \<and> x = outcome_of (vendor (length sent' - 1))
        \<and> length sent' \<le> length s1 + 5 * length paths \<and> (\<exists>more. sent' = s1 @ (hd paths, b') # more)"
      using s d Cons.prems(2,5) r Next by (intro Cons.IH) auto
    then show ?thesis using s len by auto
  qed
qed simp

subsection \<open>The properties\<close>

text \<open>
  C29: a chat request is sent at least once and at most five times on each path (as prepared, with
  three levels of broken words, and with the channel sentence broken), the prepared body first,
  and the caller gets the vendor's answer to the last one.
\<close>

theorem chat_sends_bounded:
  "case ChatStreamContext parse sprint vendor prepare globalOn b of
     (result, sent) \<Rightarrow>
       1 \<le> length sent \<and> length sent \<le> (if globalOn then 10 else 5)
       \<and> hd sent = (chatCompletionsPath, if globalOn then ensureConsoleSystem (prepare b) else prepare b)
       \<and> result = outcome_of (vendor (length sent - 1))"
proof -
  let ?b = "if globalOn then ensureConsoleSystem (prepare b) else prepare b"
  obtain x s where c: "try_paths (Classify parse sprint) vendor (chatPaths globalOn) ?b [] = (x, s)"
    by (cases "try_paths (Classify parse sprint) vendor (chatPaths globalOn) ?b []")
  have p: "chatPaths globalOn \<noteq> []" "distinct (chatPaths globalOn)" "hd (chatPaths globalOn) = chatCompletionsPath"
    "length (chatPaths globalOn) = (if globalOn then 2 else 1)"
    by (simp_all add: chatPaths_def chatCompletionsPath_def globalChatConsolePath_def)
  have "s \<noteq> [] \<and> x = outcome_of (vendor (length s - 1)) \<and> length s \<le> 5 * length (chatPaths globalOn)
      \<and> (\<exists>more. s = (hd (chatPaths globalOn), ?b) # more)"
    using try_paths_spec [OF p(1,2) _ _ c] by (simp add: follows_all_def)
  then show ?thesis
    using c p(3,4) by (auto simp: ChatStreamContext_def Let_def Suc_le_eq split: if_splits)
qed

text \<open>
  C30: a body is never changed without need. Each request after the first follows a refusal: words
  are broken only after a refusal of the filters or of the channel, and the other path is tried
  with the body unchanged, only after 404 or 405.
\<close>

theorem chat_body_changed_only_after_refusal:
  assumes "ChatStreamContext parse sprint vendor prepare globalOn b = (result, sent)" "Suc i < length sent"
  shows "follows (Classify parse sprint) (vendor i) (sent ! i) (sent ! Suc i)"
proof -
  let ?b = "if globalOn then ensureConsoleSystem (prepare b) else prepare b"
  have c: "try_paths (Classify parse sprint) vendor (chatPaths globalOn) ?b [] = (result, sent)"
    using assms(1) by (simp add: ChatStreamContext_def Let_def)
  have p: "chatPaths globalOn \<noteq> []" "distinct (chatPaths globalOn)"
    by (simp_all add: chatPaths_def chatCompletionsPath_def globalChatConsolePath_def)
  have "follows_all (Classify parse sprint) vendor sent"
    using try_paths_spec [OF p _ _ c] by (simp add: follows_all_def)
  then show ?thesis using assms(2) by (simp add: follows_all_def)
qed

lemma chat_body_changed_only_after_refusal_witness:
  "follows (Classify (\<lambda>_. None) (\<lambda>_. [])) (Refused 404 []) (chatCompletionsPath, Raw []) (globalChatConsolePath, Raw [])"
proof -
  let ?vendor = "\<lambda>i::nat. if i = 0 then Refused 404 [] else Accepted 200"
  have n: "neutralize l (Raw []) = Raw []" for l
    by (simp add: neutralize_def NeutralizeWAFTriggers_def NeutralizeWAFTokens_def NeutralizeWAFTokensDeep_def
        neutralize_values_def neutralizeMessages_def)
  have e: "snd (escalate l (Raw [])) = Raw []" for l
    by (induction l "Raw []" rule: escalate.induct) (simp add: escalate.simps [of _ "Raw []"] n)
  have r: "retry_path (Classify (\<lambda>_. None) (\<lambda>_. [])) ?vendor chatCompletionsPath True 0 False (Raw []) [] = (Next (Raw []), [(chatCompletionsPath, Raw [])])"
    "retry_path (Classify (\<lambda>_. None) (\<lambda>_. [])) ?vendor globalChatConsolePath False 0 False (Raw []) [(chatCompletionsPath, Raw [])]
       = (Done (Streaming 200), [(chatCompletionsPath, Raw []), (globalChatConsolePath, Raw [])])"
    by (simp_all add: retry_path.simps Let_def e NeutralizeChannelTrigger_def neutralize_values_def chatFallbackHTTPStatus_def)
  have "ChatStreamContext (\<lambda>_. None) (\<lambda>_. []) ?vendor id True (Raw []) =
      (Streaming 200, [(chatCompletionsPath, Raw []), (globalChatConsolePath, Raw [])])"
    using r by (simp add: ChatStreamContext_def Let_def ensureConsoleSystem_def chatPaths_def)
  then show ?thesis
    using chat_body_changed_only_after_refusal [of "\<lambda>_. None" "\<lambda>_. []" ?vendor id True "Raw []" _ _ 0] by simp
qed

end
