(* ===== verification/ToolNames.thy ===== *)
theory ToolNames
  imports Rewrite Utf8 Decimal
begin

text \<open>
  The tools of a Responses request as the vendor sees them, \<open>internal/server/responses.go\<close>: groups
  (namespaces) are flattened, long names shortened and custom tools turned into functions; tables
  kept beside the request lead back.
\<close>

subsection \<open>Names of at most 64 bytes\<close>

text \<open>\<open>utf8.ValidString\<close>.\<close>

function valid_string :: "string \<Rightarrow> bool" where
  "valid_string s =
     (if s = [] then True else if rune_at s = (0xFFFD, 1) then False else valid_string (drop (snd (rune_at s)) s))"
  by auto
termination
proof (relation "measure length")
  fix s :: string
  assume "s \<noteq> []"
  then show "(drop (snd (rune_at s)) s, s) \<in> measure length"
    using rune_width [of s] by (cases s) auto
qed simp

declare valid_string.simps [simp del]

lemma valid_string_Nil [simp]: "valid_string []"
  by (simp add: valid_string.simps [of "[]"])

function cut_valid :: "string \<Rightarrow> string" where
  "cut_valid s = (if valid_string s then s else cut_valid (butlast s))"
  by auto
termination
proof (relation "measure length")
  fix s :: string
  assume "\<not> valid_string s"
  then have "s \<noteq> []" by auto
  then show "(butlast s, s) \<in> measure length" by simp
qed simp

declare cut_valid.simps [simp del]

definition toolNamePrefix :: "string \<Rightarrow> nat \<Rightarrow> string" where
  "toolNamePrefix name limit = (if length name \<le> limit then name else cut_valid (take limit name))"

definition namespaceSeparator :: string where
  "namespaceSeparator = ''__''"

text \<open>\<open>digest\<close>: the first 6 bytes of SHA-256 in hexadecimal.\<close>

definition boundedChatToolName :: "(string \<Rightarrow> string) \<Rightarrow> string \<Rightarrow> string" where
  "boundedChatToolName digest name =
     (if length name \<le> 64 then name
      else let suffix = namespaceSeparator @ digest name in toolNamePrefix name (64 - length suffix) @ suffix)"

definition numbered :: "string \<Rightarrow> nat \<Rightarrow> string" where
  "numbered base index =
     (let suffix = namespaceSeparator @ dec index in toolNamePrefix base (64 - length suffix) @ suffix)"

text \<open>The search for a free number ends because the candidates differ and \<open>taken\<close> is finite.\<close>

lemma takeWhile_snoc: "takeWhile P (xs @ [x]) = (if (\<forall>y \<in> set xs. P y) then xs @ (if P x then [x] else []) else takeWhile P xs)"
  by (induction xs) auto

lemma dec_after_separator:
  "rev (takeWhile (\<lambda>c. c \<noteq> CHR ''_'') (rev (numbered base index))) = dec index"
proof -
  have "CHR ''_'' \<notin> set (dec index)" using dec_digits [of index] by (auto simp: digits_def)
  then have "takeWhile (\<lambda>c. c \<noteq> CHR ''_'') (rev (dec index) @ CHR ''_'' # ys) = rev (dec index)" for ys
    by (subst takeWhile_append2) auto
  then show ?thesis by (simp add: numbered_def Let_def namespaceSeparator_def)
qed

lemma numbered_inj: "inj (numbered base)"
  by (rule injI) (metis dec_after_separator dec_inj)

lemma finite_numbered: "finite {j. i \<le> j \<and> numbered base j \<in> set taken}"
proof -
  have "finite (numbered base -` set taken)" using numbered_inj by (intro finite_vimageI) auto
  then show ?thesis by (rule rev_finite_subset) auto
qed

function free_number :: "string \<Rightarrow> string list \<Rightarrow> nat \<Rightarrow> string" where
  "free_number base taken index =
     (if numbered base index \<notin> set taken then numbered base index else free_number base taken (index + 1))"
  by pat_completeness auto
termination
proof (relation "measure (\<lambda>(base, taken, i). card {j. i \<le> j \<and> numbered base j \<in> set taken})")
  fix base :: string and taken i
  assume "\<not> numbered base i \<notin> set taken"
  then have "{j. i + 1 \<le> j \<and> numbered base j \<in> set taken} \<subset> {j. i \<le> j \<and> numbered base j \<in> set taken}"
    by (intro psubsetI) (auto dest: arg_cong [where f = "\<lambda>A. i \<in> A"])
  then show "((base, taken, i + 1), base, taken, i) \<in> measure (\<lambda>(base, taken, i). card {j. i \<le> j \<and> numbered base j \<in> set taken})"
    using psubset_card_mono [OF finite_numbered] by auto
qed simp

declare free_number.simps [simp del]

definition uniqueChatToolName :: "(string \<Rightarrow> string) \<Rightarrow> string \<Rightarrow> string list \<Rightarrow> string" where
  "uniqueChatToolName digest name taken =
     (let base = boundedChatToolName digest name in if base \<notin> set taken then base else free_number base taken 2)"

definition flatToolName :: "(string \<Rightarrow> string) \<Rightarrow> string \<Rightarrow> string \<Rightarrow> string list \<Rightarrow> string" where
  "flatToolName digest namespace name taken = uniqueChatToolName digest (namespace @ namespaceSeparator @ name) taken"

subsection \<open>The shapes of tools\<close>

definition chatToolName :: "obj \<Rightarrow> string" where
  "chatToolName tm =
     (if is_str tm ''type'' ''custom'' then get_str tm ''name''
      else let name = get_str (nested_of (mget tm ''function'')) ''name''
           in if name \<noteq> [] then name else get_str tm ''name'')"

text \<open>A change of the function object of a tool, in place.\<close>

definition map_function :: "(obj \<Rightarrow> obj) \<Rightarrow> obj \<Rightarrow> obj" where
  "map_function f tool =
     (case mget tool ''function'' of Some (JObj fn) \<Rightarrow> mput ''function'' (JObj (f fn)) tool | _ \<Rightarrow> tool)"

definition setChatToolName :: "string \<Rightarrow> obj \<Rightarrow> obj" where
  "setChatToolName name tool = map_function (mput ''name'' (JStr name)) tool"

definition blank_line :: string where
  "blank_line = [CHR 0x0A, CHR 0x0A]"

definition after_description :: "string \<Rightarrow> obj \<Rightarrow> obj" where
  "after_description text fn =
     (let d = get_str fn ''description''
      in mput ''description'' (JStr (if d \<noteq> [] then d @ blank_line @ text else text)) fn)"

definition describeToolAlias :: "string \<Rightarrow> obj \<Rightarrow> obj" where
  "describeToolAlias original fn =
     after_description (''Client tool identity: '' @ original @ ''. Use the declared function name for calls.'') fn"

definition kept_fields :: "string list" where
  "kept_fields = [''name'', ''description'', ''parameters'', ''strict'']"

definition responsesFunctionTool :: "obj \<Rightarrow> obj" where
  "responsesFunctionTool tm =
     (case mget tm ''function'' of
        Some (JObj _) \<Rightarrow> tm
      | _ \<Rightarrow> [(''type'', JStr ''function''),
              (''function'', JObj (List.map_filter
                 (\<lambda>k. case mget tm k of Some v \<Rightarrow> if v \<noteq> JNull then Some (k, v) else None | None \<Rightarrow> None) kept_fields))])"

definition input_parameters :: json where
  "input_parameters =
     JObj [(''type'', JStr ''object''), (''additionalProperties'', JBool False),
       (''properties'', JObj [(''input'', JObj [(''type'', JStr ''string''), (''description'', JStr ''Raw custom tool input.'')])]),
       (''required'', JArr [JStr ''input''])]"

definition grammar_note :: "obj \<Rightarrow> string" where
  "grammar_note tm =
     (case mget tm ''format'' of
        Some (JObj format) \<Rightarrow>
          if is_str format ''type'' ''grammar'' \<and> get_str format ''definition'' \<noteq> []
          then blank_line @ ''Follow this '' @ get_str format ''syntax'' @ '' grammar for the raw input:'' @ [CHR 0x0A]
            @ get_str format ''definition''
          else []
      | _ \<Rightarrow> [])"

definition customToolToFunction :: "obj \<Rightarrow> obj option" where
  "customToolToFunction tm =
     (let name = get_str tm ''name''
      in if name = [] then None
         else Some [(''type'', JStr ''function''),
           (''function'', JObj [(''name'', JStr name),
              (''description'', JStr (get_str tm ''description'' @ grammar_note tm)), (''parameters'', input_parameters)])])"

subsection \<open>The tables\<close>

record toolAlias =
  al_namespace :: string
  al_name :: string
  al_custom :: bool

record tool_tables =
  tt_out :: "json list"
  tt_taken :: "string list"
  tt_custom :: "string list"
  tt_aliases :: "(string, toolAlias) gomap"

definition public_tool :: "obj \<Rightarrow> bool" where
  "public_tool tm \<longleftrightarrow> is_str tm ''type'' ''function'' \<or> is_str tm ''type'' ''custom''"

text \<open>Short public names are reserved first, then every public name gets its alias.\<close>

definition reserved_names :: "json list \<Rightarrow> string list" where
  "reserved_names tools =
     filter (\<lambda>n. n \<noteq> [] \<and> length n \<le> 64)
       (map chatToolName (filter public_tool (map (\<lambda>t. nested_of (Some t)) tools)))"

definition public_alias :: "(string \<Rightarrow> string) \<Rightarrow> obj \<Rightarrow> (string, string) gomap \<times> string list \<Rightarrow> (string, string) gomap \<times> string list" where
  "public_alias digest tool st =
     (case st of (topNames, taken) \<Rightarrow>
        let name = chatToolName tool
        in if \<not> public_tool tool \<or> name = [] then st
           else let alias = (if 64 < length name then uniqueChatToolName digest name taken else name)
                in (mput name alias topNames, alias # taken))"

definition public_aliases :: "(string \<Rightarrow> string) \<Rightarrow> json list \<Rightarrow> (string, string) gomap \<times> string list" where
  "public_aliases digest tools = fold (\<lambda>t. public_alias digest (nested_of (Some t))) tools ([], reserved_names tools)"

text \<open>One tool of a namespace.\<close>

definition namespace_note :: "obj \<Rightarrow> obj \<Rightarrow> obj" where
  "namespace_note grp fn =
     (let d = get_str grp ''description''
      in if trim_space d \<noteq> [] then after_description (''Namespace '' @ get_str grp ''name'' @ '': '' @ d) fn else fn)"

definition child_tool :: "obj \<Rightarrow> obj option" where
  "child_tool child =
     (if is_str child ''type'' ''custom'' then customToolToFunction child else Some (responsesFunctionTool child))"

definition add_child :: "(string \<Rightarrow> string) \<Rightarrow> obj \<Rightarrow> json \<Rightarrow> tool_tables \<Rightarrow> tool_tables" where
  "add_child digest grp rawChild s =
     (case rawChild of
        JObj child \<Rightarrow>
          let namespace = get_str grp ''name''; inner = chatToolName child; custom = is_str child ''type'' ''custom''
          in if trim_space namespace = [] \<or> inner = [] then s
             else (case child_tool child of
                None \<Rightarrow> s
              | Some fn0 \<Rightarrow>
                  let fn1 = map_function (namespace_note grp) fn0;
                      whole = namespace @ namespaceSeparator @ inner;
                      flat = flatToolName digest namespace inner (tt_taken s);
                      fn2 = setChatToolName flat fn1;
                      fn3 = (if flat \<noteq> whole then map_function (describeToolAlias whole) fn2 else fn2)
                  in s\<lparr>tt_taken := flat # tt_taken s, tt_out := tt_out s @ [JObj fn3],
                       tt_custom := (if custom then flat # tt_custom s else tt_custom s),
                       tt_aliases := mput flat \<lparr>al_namespace = namespace, al_name = inner, al_custom = custom\<rparr> (tt_aliases s)\<rparr>)
      | _ \<Rightarrow> s)"

definition add_custom :: "(string, string) gomap \<Rightarrow> obj \<Rightarrow> tool_tables \<Rightarrow> tool_tables" where
  "add_custom topNames tm s =
     (case customToolToFunction tm of
        None \<Rightarrow> s
      | Some fn0 \<Rightarrow>
          let name = chatToolName tm; alias = (case mget topNames name of None \<Rightarrow> [] | Some a \<Rightarrow> a);
              fn1 = setChatToolName alias fn0
          in if alias \<noteq> name
             then s\<lparr>tt_custom := alias # tt_custom s,
                    tt_aliases := mput alias \<lparr>al_namespace = [], al_name = name, al_custom = True\<rparr> (tt_aliases s),
                    tt_out := tt_out s @ [JObj (map_function (describeToolAlias name) fn1)]\<rparr>
             else s\<lparr>tt_custom := alias # tt_custom s, tt_out := tt_out s @ [JObj fn1]\<rparr>)"

definition add_function :: "(string, string) gomap \<Rightarrow> obj \<Rightarrow> tool_tables \<Rightarrow> tool_tables" where
  "add_function topNames tm s =
     (let name = chatToolName tm; alias = (case mget topNames name of None \<Rightarrow> [] | Some a \<Rightarrow> a)
      in if name = [] then s
         else if (case mget tm ''function'' of Some (JObj _) \<Rightarrow> alias = name | _ \<Rightarrow> False)
         then s\<lparr>tt_out := tt_out s @ [JObj tm]\<rparr>
         else let fn1 = setChatToolName alias (responsesFunctionTool tm)
              in if alias \<noteq> name
                 then s\<lparr>tt_aliases := mput alias \<lparr>al_namespace = [], al_name = name, al_custom = False\<rparr> (tt_aliases s),
                        tt_out := tt_out s @ [JObj (map_function (describeToolAlias name) fn1)]\<rparr>
                 else s\<lparr>tt_out := tt_out s @ [JObj fn1]\<rparr>)"

definition add_tool :: "(string \<Rightarrow> string) \<Rightarrow> (string, string) gomap \<Rightarrow> json \<Rightarrow> tool_tables \<Rightarrow> tool_tables" where
  "add_tool digest topNames raw s =
     (case raw of
        JObj tm \<Rightarrow>
          if is_str tm ''type'' ''namespace'' then fold (add_child digest tm) (array_of (mget tm ''tools'')) s
          else if is_str tm ''type'' ''custom'' then add_custom topNames tm s
          else if is_str tm ''type'' ''function'' then add_function topNames tm s
          else s
      | _ \<Rightarrow> s)"

definition responsesTools :: "(string \<Rightarrow> string) \<Rightarrow> json list \<Rightarrow> tool_tables" where
  "responsesTools digest tools =
     (case public_aliases digest tools of
        (topNames, taken) \<Rightarrow>
          fold (add_tool digest topNames) tools \<lparr>tt_out = [], tt_taken = taken, tt_custom = [], tt_aliases = []\<rparr>)"

subsection \<open>There and back\<close>

text \<open>\<open>namespace + "\x00" + name\<close>.\<close>

definition identity :: "string \<Rightarrow> string \<Rightarrow> string" where
  "identity namespace name = namespace @ CHR 0x00 # name"

definition toolAliasIndex :: "(string, toolAlias) gomap \<Rightarrow> (string, string) gomap" where
  "toolAliasIndex aliases = fold (\<lambda>(flat, a). mput (identity (al_namespace a) (al_name a)) flat) aliases []"

definition upstreamToolName :: "(string \<Rightarrow> string) \<Rightarrow> (string, string) gomap \<Rightarrow> string \<Rightarrow> string \<Rightarrow> string" where
  "upstreamToolName digest toolNames namespace name =
     (case mget toolNames (identity namespace name) of
        Some flat \<Rightarrow> flat
      | None \<Rightarrow>
          if namespace = [] then boundedChatToolName digest name
          else boundedChatToolName digest (namespace @ namespaceSeparator @ name))"

definition namespaceOf :: "obj \<Rightarrow> string" where
  "namespaceOf item = get_str item ''namespace''"

definition responsesToolName :: "tool_tables \<Rightarrow> string \<Rightarrow> string \<times> string \<times> bool" where
  "responsesToolName tables upstream =
     (case mget (tt_aliases tables) upstream of
        Some a \<Rightarrow> (al_name a, al_namespace a, al_custom a)
      | None \<Rightarrow> (upstream, [], upstream \<in> set (tt_custom tables)))"

end
