(* ===== verification/RequestValidation.thy ===== *)
theory RequestValidation
  imports ToolNames
begin

text \<open>
  What is refused before an account is chosen, \<open>internal/server/request_validation.go\<close>. A check
  returns nothing or the first complaint: where it is in the request, and what is wrong there.
\<close>

datatype problem =
    NotAnObject
  | NotAString
  | NotANonemptyString
  | NotABoolean
  | NotANumber
  | NotACount
  | NotFinite
  | NotAnArray
  | NotContent
  | NotInput
  | NotState
  | NotAMode
  | NeedsTools
  | Duplicate string string
  | Unsupported

type_synonym verdict = "(string \<times> problem) option"

text \<open>The checks of a list in order; those of the items of an array, with their index.\<close>

fun first_error :: "verdict list \<Rightarrow> verdict" where
  "first_error [] = None"
| "first_error (v # vs) = (case v of None \<Rightarrow> first_error vs | Some e \<Rightarrow> Some e)"

definition item_path :: "string \<Rightarrow> nat \<Rightarrow> string" where
  "item_path path i = path @ ''['' @ dec i @ '']''"

definition field_path :: "string \<Rightarrow> string \<Rightarrow> string" where
  "field_path path key = path @ ''.'' @ key"

fun each_from :: "nat \<Rightarrow> string \<Rightarrow> (string \<Rightarrow> json \<Rightarrow> verdict) \<Rightarrow> json list \<Rightarrow> verdict list" where
  "each_from i path f [] = []"
| "each_from i path f (x # xs) = f (item_path path i) x # each_from (i + 1) path f xs"

definition each :: "string \<Rightarrow> (string \<Rightarrow> json \<Rightarrow> verdict) \<Rightarrow> json list \<Rightarrow> verdict" where
  "each path f xs = first_error (each_from 0 path f xs)"

text \<open>A field that is absent, or \<open>null\<close>.\<close>

definition given :: "json option \<Rightarrow> json option" where
  "given v = (if v = Some JNull then None else v)"

subsection \<open>Types\<close>

definition requestValidationObject :: "json option \<Rightarrow> string \<Rightarrow> (obj \<Rightarrow> verdict) \<Rightarrow> verdict" where
  "requestValidationObject v path k = (case v of Some (JObj m) \<Rightarrow> k m | _ \<Rightarrow> Some (path, NotAnObject))"

definition requestValidationString :: "json option \<Rightarrow> string \<Rightarrow> bool \<Rightarrow> verdict" where
  "requestValidationString v path nonempty =
     (case v of
        Some (JStr text) \<Rightarrow> if nonempty \<and> trim_space text = [] then Some (path, NotANonemptyString) else None
      | _ \<Rightarrow> Some (path, if nonempty then NotANonemptyString else NotAString))"

definition requestValidationOptionalStrings :: "obj \<Rightarrow> string \<Rightarrow> string list \<Rightarrow> verdict" where
  "requestValidationOptionalStrings ob path keys =
     first_error (map (\<lambda>key. case given (mget ob key) of
        None \<Rightarrow> None | Some v \<Rightarrow> requestValidationString (Some v) (field_path path key) False) keys)"

definition requestValidationOptionalBools :: "obj \<Rightarrow> string \<Rightarrow> string list \<Rightarrow> verdict" where
  "requestValidationOptionalBools ob path keys =
     first_error (map (\<lambda>key. case given (mget ob key) of
        None \<Rightarrow> None | Some (JBool _) \<Rightarrow> None | Some _ \<Rightarrow> Some (field_path path key, NotABoolean)) keys)"

text \<open>\<open>Float64\<close> fails for what rounds to an infinity.\<close>

definition finite_number :: "rat \<Rightarrow> bool" where
  "finite_number x \<longleftrightarrow> \<bar>x\<bar> < 2 ^ 1024 - 2 ^ 970"

definition check_number :: "bool \<Rightarrow> string \<Rightarrow> json \<Rightarrow> verdict" where
  "check_number integers path v =
     (case v of
        JInt n \<Rightarrow>
          if integers then (if 0 \<le> n \<and> in64 n then None else Some (path, NotACount))
          else if finite_number (of_int n) then None else Some (path, NotFinite)
      | JFloat x \<Rightarrow>
          if integers then Some (path, NotACount)
          else if finite_number x then None else Some (path, NotFinite)
      | _ \<Rightarrow> Some (path, NotANumber))"

definition requestValidationOptionalNumbers :: "obj \<Rightarrow> string \<Rightarrow> bool \<Rightarrow> string list \<Rightarrow> verdict" where
  "requestValidationOptionalNumbers ob path integers keys =
     first_error (map (\<lambda>key. case given (mget ob key) of
        None \<Rightarrow> None | Some v \<Rightarrow> check_number integers (field_path path key) v) keys)"

definition requestValidationStringArray :: "json \<Rightarrow> string \<Rightarrow> verdict" where
  "requestValidationStringArray v path =
     (case v of
        JArr items \<Rightarrow> each path (\<lambda>p x. requestValidationString (Some x) p False) items
      | _ \<Rightarrow> Some (path, NotAnArray))"

definition check_object_if_given :: "json option \<Rightarrow> string \<Rightarrow> verdict" where
  "check_object_if_given v path =
     (case given v of None \<Rightarrow> None | Some x \<Rightarrow> requestValidationObject (Some x) path (\<lambda>_. None))"

subsection \<open>Tools\<close>

definition requestValidationFunction :: "obj \<Rightarrow> string \<Rightarrow> verdict" where
  "requestValidationFunction fn path = first_error
     [requestValidationString (mget fn ''name'') (field_path path ''name'') True,
      requestValidationOptionalStrings fn path [''description''],
      requestValidationOptionalBools fn path [''strict''],
      check_object_if_given (mget fn ''parameters'') (field_path path ''parameters'')]"

definition unimplementedBuiltinTools :: "string list" where
  "unimplementedBuiltinTools = [''web_search'', ''web_search_preview'', ''tool_search'']"

definition builtinToolPrefixes :: "string list" where
  "builtinToolPrefixes = [''web_search'', ''tool_search'']"

definition isUnimplementedBuiltinTool :: "string \<Rightarrow> bool" where
  "isUnimplementedBuiltinTool kind \<longleftrightarrow> kind \<noteq> [] \<and>
     (kind \<in> set unimplementedBuiltinTools
      \<or> list_ex (\<lambda>p. has_prefix kind (p @ ''_'') \<or> has_prefix kind (p @ ''-'')) builtinToolPrefixes)"

definition check_format :: "json option \<Rightarrow> string \<Rightarrow> verdict" where
  "check_format v path =
     (case given v of
        None \<Rightarrow> None
      | Some x \<Rightarrow> requestValidationObject (Some x) path
          (\<lambda>format. requestValidationOptionalStrings format path [''type'', ''syntax'', ''definition'']))"

text \<open>The children of a namespace are checked with \<open>allowNamespace\<close> off.\<close>

function requestValidationToolSpec :: "obj \<Rightarrow> string \<Rightarrow> bool \<Rightarrow> bool \<Rightarrow> verdict" where
  "requestValidationToolSpec tool path responses allowNamespace =
     (case requestValidationString (mget tool ''type'') (field_path path ''type'') True of
        Some e \<Rightarrow> Some e
      | None \<Rightarrow>
          if isUnimplementedBuiltinTool (get_str tool ''type'')
          then (if allowNamespace then None else Some (field_path path ''type'', Unsupported))
          else if is_str tool ''type'' ''function'' then
            (case mget tool ''function'' of
               Some v \<Rightarrow> requestValidationObject (Some v) (field_path path ''function'')
                  (\<lambda>fn. requestValidationFunction fn (field_path path ''function''))
             | None \<Rightarrow> if responses then requestValidationFunction tool path else Some (field_path path ''function'', NotAnObject))
          else if is_str tool ''type'' ''custom'' then
            (if \<not> responses then Some (field_path path ''type'', Unsupported)
             else first_error
               [requestValidationString (mget tool ''name'') (field_path path ''name'') True,
                requestValidationOptionalStrings tool path [''description''],
                check_format (mget tool ''format'') (field_path path ''format'')])
          else if is_str tool ''type'' ''namespace'' then
            (if \<not> responses \<or> \<not> allowNamespace then Some (field_path path ''type'', Unsupported)
             else first_error
               [requestValidationString (mget tool ''name'') (field_path path ''name'') True,
                requestValidationOptionalStrings tool path [''description''],
                if array_of (mget tool ''tools'') = [] then Some (field_path path ''tools'', NeedsTools)
                else each (field_path path ''tools'')
                  (\<lambda>p x. requestValidationObject (Some x) p
                     (\<lambda>child. requestValidationToolSpec child p responses False))
                  (array_of (mget tool ''tools''))])
          else Some (field_path path ''type'', Unsupported))"
  by pat_completeness auto
termination
  by (relation "measure (\<lambda>(_, _, _, allow). if allow then 1 else 0)") auto

declare requestValidationToolSpec.simps [simp del]

text \<open>\<open>register\<close>: one identity per tool.\<close>

fun register_tools :: "string \<Rightarrow> (string \<times> obj) list \<Rightarrow> string list \<Rightarrow> verdict \<times> string list" where
  "register_tools namespace [] ids = (None, ids)"
| "register_tools namespace ((path, tool) # ts) ids =
     (let name = chatToolName tool; key = identity namespace name
      in if key \<in> set ids then (Some (path, Duplicate name namespace), ids)
         else register_tools namespace ts (key # ids))"

fun with_paths :: "string \<Rightarrow> nat \<Rightarrow> json list \<Rightarrow> (string \<times> obj) list" where
  "with_paths path i [] = []"
| "with_paths path i (x # xs) = (item_path path i, nested_of (Some x)) # with_paths path (i + 1) xs"

definition register_tool :: "string \<Rightarrow> obj \<Rightarrow> string list \<Rightarrow> verdict \<times> string list" where
  "register_tool path tool ids =
     (if public_tool tool then register_tools [] [(path, tool)] ids
      else if is_str tool ''type'' ''namespace''
      then register_tools (get_str tool ''name'') (with_paths (field_path path ''tools'') 0 (array_of (mget tool ''tools''))) ids
      else (None, ids))"

fun check_tools :: "string \<Rightarrow> bool \<Rightarrow> nat \<Rightarrow> string list \<Rightarrow> json list \<Rightarrow> verdict" where
  "check_tools path responses i ids [] = None"
| "check_tools path responses i ids (raw # tools) =
     requestValidationObject (Some raw) (item_path path i)
       (\<lambda>tool. case requestValidationToolSpec tool (item_path path i) responses True of
          Some e \<Rightarrow> Some e
        | None \<Rightarrow>
            (case register_tool (item_path path i) tool ids of
               (Some e, _) \<Rightarrow> Some e
             | (None, ids') \<Rightarrow> check_tools path responses (i + 1) ids' tools))"

definition requestValidationTools :: "json option \<Rightarrow> string \<Rightarrow> bool \<Rightarrow> verdict" where
  "requestValidationTools v path responses =
     (case given v of
        None \<Rightarrow> None
      | Some (JArr tools) \<Rightarrow> check_tools path responses 0 [] tools
      | Some _ \<Rightarrow> Some (path, NotAnArray))"

subsection \<open>Content and history\<close>

definition check_image :: "json option \<Rightarrow> string \<Rightarrow> verdict" where
  "check_image v path =
     (case v of
        Some (JObj img) \<Rightarrow> first_error
          [requestValidationOptionalStrings img path [''detail''],
           requestValidationString (mget img ''url'') path True]
      | _ \<Rightarrow> requestValidationString v path True)"

definition check_part :: "bool \<Rightarrow> string \<Rightarrow> json \<Rightarrow> verdict" where
  "check_part responses path raw = requestValidationObject (Some raw) path
     (\<lambda>part. first_error
        [requestValidationOptionalStrings part path [''type'', ''text'', ''refusal'', ''detail''],
         let kind = get_str part ''type''
         in if kind \<in> {'''', ''text'', ''input_text'', ''output_text'', ''summary_text''}
            then requestValidationString (mget part ''text'') (field_path path ''text'') False
            else if kind = ''refusal''
            then requestValidationString (mget part ''refusal'') (field_path path ''refusal'') False
            else if kind = ''image_url'' \<or> kind = ''input_image''
            then check_image (mget part ''image_url'') (field_path path ''image_url'')
            else if responses then Some (field_path path ''type'', Unsupported) else None])"

definition requestValidationContent :: "json option \<Rightarrow> string \<Rightarrow> bool \<Rightarrow> verdict" where
  "requestValidationContent v path responses =
     (case given v of
        None \<Rightarrow> None
      | Some (JStr _) \<Rightarrow> None
      | Some (JArr parts) \<Rightarrow> each path (check_part responses) parts
      | Some _ \<Rightarrow> Some (path, NotContent))"

definition check_named_call :: "json option \<Rightarrow> string \<Rightarrow> verdict" where
  "check_named_call v path = requestValidationObject v path
     (\<lambda>fn. first_error
        [requestValidationString (mget fn ''name'') (field_path path ''name'') True,
         requestValidationOptionalStrings fn path [''arguments'']])"

definition check_history_call :: "string \<Rightarrow> json \<Rightarrow> verdict" where
  "check_history_call path raw = requestValidationObject (Some raw) path
     (\<lambda>call. first_error
        [requestValidationOptionalStrings call path [''id'', ''type''],
         if get_str call ''type'' \<noteq> [] \<and> get_str call ''type'' \<noteq> ''function''
         then Some (field_path path ''type'', Unsupported) else None,
         check_named_call (mget call ''function'') (field_path path ''function'')])"

definition requestValidationHistoryCalls :: "json option \<Rightarrow> string \<Rightarrow> verdict" where
  "requestValidationHistoryCalls v path =
     (case given v of
        None \<Rightarrow> None
      | Some (JArr calls) \<Rightarrow> each path check_history_call calls
      | Some _ \<Rightarrow> Some (path, NotAnArray))"

subsection \<open>Tool choice\<close>

definition check_allowed_tool :: "string \<Rightarrow> json \<Rightarrow> verdict" where
  "check_allowed_tool path raw = requestValidationObject (Some raw) path
     (\<lambda>tool. first_error
        [if public_tool tool then None else Some (field_path path ''type'', Unsupported),
         requestValidationString (mget tool ''name'') (field_path path ''name'') True,
         requestValidationOptionalStrings tool path [''namespace'']])"

definition check_allowed_tools :: "obj \<Rightarrow> string \<Rightarrow> verdict" where
  "check_allowed_tools choice path =
     (let mode = (case given (mget choice ''mode'') of None \<Rightarrow> Some ''auto'' | Some (JStr m) \<Rightarrow> Some m | Some _ \<Rightarrow> None)
      in if mode \<noteq> Some ''auto'' \<and> mode \<noteq> Some ''required'' then Some (field_path path ''mode'', NotAMode)
         else case mget choice ''tools'' of
           Some (JArr tools) \<Rightarrow>
             if mode = Some ''required'' \<and> tools = [] then Some (field_path path ''tools'', NeedsTools)
             else each (field_path path ''tools'') check_allowed_tool tools
         | _ \<Rightarrow> Some (field_path path ''tools'', NeedsTools))"

definition requestValidationToolChoice :: "json option \<Rightarrow> string \<Rightarrow> bool \<Rightarrow> verdict" where
  "requestValidationToolChoice v path responses =
     (case given v of
        None \<Rightarrow> None
      | Some (JStr s) \<Rightarrow> requestValidationString (Some (JStr s)) path True
      | Some x \<Rightarrow> requestValidationObject (Some x) path
          (\<lambda>choice. case requestValidationString (mget choice ''type'') (field_path path ''type'') True of
             Some e \<Rightarrow> Some e
           | None \<Rightarrow>
               let kind = get_str choice ''type''
               in if responses then
                    (if kind = ''allowed_tools'' then check_allowed_tools choice path
                     else if kind \<noteq> ''function'' \<and> kind \<noteq> ''custom'' then Some (field_path path ''type'', Unsupported)
                     else first_error
                       [requestValidationOptionalStrings choice path [''namespace''],
                        requestValidationString (mget choice ''name'') (field_path path ''name'') True])
                  else if kind \<in> {''auto'', ''none'', ''required''} then None
                  else if kind = ''function'' then
                    (case mget choice ''function'' of
                       Some f \<Rightarrow> requestValidationObject (Some f) (field_path path ''function'')
                         (\<lambda>fn. requestValidationString (mget fn ''name'') (field_path (field_path path ''function'') ''name'') True)
                     | None \<Rightarrow> requestValidationString (mget choice ''name'') (field_path path ''name'') True)
                  else Some (field_path path ''type'', Unsupported)))"

subsection \<open>A chat request\<close>

definition check_message :: "string \<Rightarrow> json \<Rightarrow> verdict" where
  "check_message path raw = requestValidationObject (Some raw) path
     (\<lambda>message. first_error
        [requestValidationString (mget message ''role'') (field_path path ''role'') True,
         requestValidationOptionalStrings message path
           [''name'', ''tool_call_id'', ''reasoning'', ''reasoning_content'', ''refusal''],
         requestValidationContent (mget message ''content'') (field_path path ''content'') False,
         requestValidationHistoryCalls (mget message ''tool_calls'') (field_path path ''tool_calls''),
         (case given (mget message ''function_call'') of
            None \<Rightarrow> None
          | Some v \<Rightarrow> check_named_call (Some v) (field_path path ''function_call''))])"

definition check_functions :: "json option \<Rightarrow> verdict" where
  "check_functions v =
     (case given v of
        None \<Rightarrow> None
      | Some (JArr fns) \<Rightarrow> each ''functions''
          (\<lambda>path raw. requestValidationObject (Some raw) path (\<lambda>fn. requestValidationFunction fn path)) fns
      | Some _ \<Rightarrow> Some (''functions'', NotAnArray))"

definition chat_bools :: "string list" where
  "chat_bools = [''stream'', ''parallel_tool_calls'', ''logprobs'']"

definition chat_numbers :: "string list" where
  "chat_numbers = [''temperature'', ''top_p'', ''frequency_penalty'', ''presence_penalty'']"

definition chat_counts :: "string list" where
  "chat_counts = [''max_tokens'', ''max_completion_tokens'', ''n'', ''top_logprobs'']"

text \<open>The argument is what \<open>jsonutil.Decode\<close> makes of the body; \<open>None\<close> when it is not JSON.\<close>

definition validateChatRequest :: "json option \<Rightarrow> verdict" where
  "validateChatRequest body = requestValidationObject body ''request body''
     (\<lambda>ob. first_error
        [requestValidationString (mget ob ''model'') ''model'' True,
         (case mget ob ''messages'' of
            Some (JArr messages) \<Rightarrow> each ''messages'' check_message messages
          | _ \<Rightarrow> Some (''messages'', NotAnArray)),
         requestValidationOptionalBools ob ''request'' chat_bools,
         requestValidationOptionalNumbers ob ''request'' False chat_numbers,
         requestValidationOptionalNumbers ob ''request'' True chat_counts,
         requestValidationTools (mget ob ''tools'') ''tools'' False,
         requestValidationToolChoice (mget ob ''tool_choice'') ''tool_choice'' False,
         check_functions (mget ob ''functions'')])"

subsection \<open>A Responses request\<close>

definition check_item :: "string \<Rightarrow> json \<Rightarrow> verdict" where
  "check_item path raw = requestValidationObject (Some raw) path
     (\<lambda>item. first_error
        [requestValidationOptionalStrings item path [''type'', ''id'', ''call_id'', ''status'', ''role''],
         let kind = get_str item ''type''
         in if kind = [] \<or> kind = ''message''
            then requestValidationContent (mget item ''content'') (field_path path ''content'') True
            else if kind = ''function_call'' \<or> kind = ''custom_tool_call''
            then first_error
              [requestValidationString (mget item ''name'') (field_path path ''name'') True,
               requestValidationOptionalStrings item path [''arguments'', ''input''],
               requestValidationOptionalStrings item path [''namespace'']]
            else if kind = ''function_call_output'' \<or> kind = ''custom_tool_call_output''
            then (case mget item ''output'' of
                    Some (JArr output) \<Rightarrow> requestValidationContent (Some (JArr output)) (field_path path ''output'') True
                  | _ \<Rightarrow> None)
            else if kind = ''item_reference'' then Some (field_path path ''type'', Unsupported)
            else None])"

definition requestValidationResponsesInput :: "json option \<Rightarrow> verdict" where
  "requestValidationResponsesInput v =
     (case given v of
        None \<Rightarrow> None
      | Some (JStr _) \<Rightarrow> None
      | Some (JArr items) \<Rightarrow> each ''input'' check_item items
      | Some _ \<Rightarrow> Some (''input'', NotInput))"

definition requestValidationStateOption :: "json option \<Rightarrow> string \<Rightarrow> verdict" where
  "requestValidationStateOption v path =
     (case given v of
        None \<Rightarrow> None
      | Some (JStr state) \<Rightarrow> if trim_space state = [] then None else Some (path, Unsupported)
      | Some (JObj state) \<Rightarrow> if state = [] then None else Some (path, Unsupported)
      | Some _ \<Rightarrow> Some (path, NotState))"

definition check_true :: "obj \<Rightarrow> string \<Rightarrow> verdict" where
  "check_true ob key = (if mget ob key = Some (JBool True) then Some (key, Unsupported) else None)"

definition check_reasoning :: "json option \<Rightarrow> verdict" where
  "check_reasoning v =
     (case v of
        Some (JObj r) \<Rightarrow> first_error (map (\<lambda>key. case mget r key of
            None \<Rightarrow> None | Some x \<Rightarrow> requestValidationString (Some x) (field_path ''reasoning'' key) True)
          [''effort'', ''summary''])
      | _ \<Rightarrow> None)"

definition check_text_format :: "json \<Rightarrow> verdict" where
  "check_text_format f = requestValidationObject (Some f) ''text.format''
     (\<lambda>format. first_error
        [requestValidationString (mget format ''type'') ''text.format.type'' True,
         requestValidationOptionalStrings format ''text.format'' [''name'', ''description''],
         requestValidationOptionalBools format ''text.format'' [''strict''],
         (case mget format ''schema'' of
            None \<Rightarrow> None
          | Some x \<Rightarrow> requestValidationObject (Some x) ''text.format.schema'' (\<lambda>_. None))])"

definition check_text :: "json option \<Rightarrow> verdict" where
  "check_text v =
     (case v of
        Some (JObj t) \<Rightarrow> first_error
          [requestValidationOptionalStrings t ''text'' [''verbosity''],
           (case given (mget t ''format'') of None \<Rightarrow> None | Some f \<Rightarrow> check_text_format f)]
      | _ \<Rightarrow> None)"

definition check_include :: "json option \<Rightarrow> verdict" where
  "check_include v = (case given v of None \<Rightarrow> None | Some x \<Rightarrow> requestValidationStringArray x ''include'')"

definition response_strings :: "string list" where
  "response_strings = [''instructions'', ''prompt_cache_key'', ''conversation_id'', ''conversationId'',
     ''previous_response_id'', ''truncation'']"

text \<open>The fields of the body, each decoded on its own; \<open>None\<close> when it is no object.\<close>

definition validateResponsesOptions :: "obj option \<Rightarrow> verdict" where
  "validateResponsesOptions given_opts =
     (case given_opts of None \<Rightarrow> Some (''request body'', NotAnObject) | Some ob \<Rightarrow> first_error
       [requestValidationString (mget ob ''model'') ''model'' True,
        requestValidationOptionalBools ob ''request'' [''stream'', ''parallel_tool_calls'', ''background'', ''store''],
        check_true ob ''background'',
        check_true ob ''store'',
        requestValidationOptionalStrings ob ''request'' response_strings,
        if trim_space (get_str ob ''previous_response_id'') \<noteq> []
        then Some (''previous_response_id'', Unsupported) else None,
        requestValidationStateOption (mget ob ''conversation'') ''conversation'',
        requestValidationStateOption (mget ob ''prompt'') ''prompt'',
        first_error (map (\<lambda>key. check_object_if_given (mget ob key) key)
          [''metadata'', ''client_metadata'', ''reasoning'', ''text'']),
        check_reasoning (mget ob ''reasoning''),
        check_text (mget ob ''text''),
        check_include (mget ob ''include''),
        requestValidationOptionalNumbers ob ''request'' True [''max_output_tokens''],
        requestValidationOptionalNumbers ob ''request'' False [''temperature'', ''top_p''],
        requestValidationTools (mget ob ''tools'') ''tools'' True,
        requestValidationToolChoice (mget ob ''tool_choice'') ''tool_choice'' True,
        requestValidationResponsesInput (mget ob ''input'')])"

end
