(* ===== verification/ValidationFacts.thy ===== *)
theory ValidationFacts
  imports RequestValidation
begin

text \<open>
  What it means that a check has no complaint, as rewrite rules: one for each kind of check, and
  those of the tools, from which the shape of an accepted request is read off.
\<close>

named_theorems accepted "when a check has no complaint"

declare first_error.simps [simp del]

lemma first_error_Nil [accepted]: "first_error [] = None"
  by (simp add: first_error.simps)

lemma first_error_Cons [accepted]: "first_error (v # vs) = None \<longleftrightarrow> v = None \<and> first_error vs = None"
  by (auto simp: first_error.simps split: option.splits)

lemma or_else_None [accepted]: "(case v of None \<Rightarrow> w | Some e \<Rightarrow> Some e) = None \<longleftrightarrow> v = None \<and> w = None"
  by (cases v) auto

lemma first_error_map [accepted]: "first_error (map f xs) = None \<longleftrightarrow> (\<forall>x \<in> set xs. f x = None)"
  by (induction xs) (auto simp: accepted)

lemma each_from_None:
  "first_error (each_from i path f xs) = None \<longleftrightarrow> (\<forall>j < length xs. f (item_path path (i + j)) (xs ! j) = None)"
  by (induction xs arbitrary: i) (auto simp: accepted less_Suc_eq_0_disj)

lemma each_None [accepted]: "each path f xs = None \<longleftrightarrow> (\<forall>j < length xs. f (item_path path j) (xs ! j) = None)"
  using each_from_None [of 0 path f xs] by (simp add: each_def)

lemma object_None [accepted]: "requestValidationObject v path k = None \<longleftrightarrow> (\<exists>m. v = Some (JObj m) \<and> k m = None)"
  by (auto simp: requestValidationObject_def split: option.splits json.splits)

lemma string_None [accepted]:
  "requestValidationString v path nonempty = None \<longleftrightarrow> (\<exists>s. v = Some (JStr s) \<and> (nonempty \<longrightarrow> trim_space s \<noteq> []))"
  by (auto simp: requestValidationString_def split: option.splits json.splits)

lemma given_None [accepted]: "given v = None \<longleftrightarrow> v = None \<or> v = Some JNull"
  by (simp add: given_def)

lemma given_Some [accepted]: "given v = Some x \<longleftrightarrow> v = Some x \<and> x \<noteq> JNull"
  by (auto simp: given_def)

text \<open>An optional field: absent, \<open>null\<close>, or of the right type.\<close>

definition opt_ok :: "(json \<Rightarrow> bool) \<Rightarrow> obj \<Rightarrow> string \<Rightarrow> bool" where
  "opt_ok P ob key \<longleftrightarrow> (case mget ob key of None \<Rightarrow> True | Some v \<Rightarrow> v = JNull \<or> P v)"

fun is_string :: "json \<Rightarrow> bool" where
  "is_string (JStr s) = True"
| "is_string _ = False"

fun is_bool :: "json \<Rightarrow> bool" where
  "is_bool (JBool b) = True"
| "is_bool _ = False"

fun is_object :: "json \<Rightarrow> bool" where
  "is_object (JObj m) = True"
| "is_object _ = False"

fun is_count :: "json \<Rightarrow> bool" where
  "is_count (JInt n) = (0 \<le> n \<and> in64 n)"
| "is_count _ = False"

fun is_number :: "json \<Rightarrow> bool" where
  "is_number (JInt n) = finite_number (of_int n)"
| "is_number (JFloat x) = finite_number x"
| "is_number _ = False"

fun is_array :: "(json \<Rightarrow> bool) \<Rightarrow> json \<Rightarrow> bool" where
  "is_array P (JArr xs) = list_all P xs"
| "is_array P _ = False"

lemma opt_case [accepted]:
  "(case given (mget ob key) of None \<Rightarrow> None | Some v \<Rightarrow> f v) = None \<longleftrightarrow> opt_ok (\<lambda>v. f v = None) ob key"
  by (auto simp: opt_ok_def given_def split: option.split)

lemma opt_ok_cong: "(\<And>v. P v = Q v) \<Longrightarrow> opt_ok P ob key = opt_ok Q ob key"
  by (simp add: opt_ok_def split: option.split)

lemma is_string_iff: "is_string v \<longleftrightarrow> (\<exists>s. v = JStr s)"
  by (cases v) auto

lemma is_object_iff: "is_object v \<longleftrightarrow> (\<exists>m. v = JObj m)"
  by (cases v) auto

lemma is_string_fun: "is_string = (\<lambda>v. \<exists>s. v = JStr s)" "is_object = (\<lambda>v. \<exists>m. v = JObj m)"
  by (rule ext, simp add: is_string_iff is_object_iff)+

lemma string_check: "requestValidationString (Some v) path False = None \<longleftrightarrow> is_string v"
  by (cases v) (auto simp: accepted)

lemma object_check: "requestValidationObject (Some v) path (\<lambda>_. None) = None \<longleftrightarrow> is_object v"
  by (cases v) (auto simp: accepted)

lemma number_check: "check_number False path v = None \<longleftrightarrow> is_number v" "check_number True path v = None \<longleftrightarrow> is_count v"
  by (cases v; simp add: check_number_def)+

lemma optional_strings_None [accepted]:
  "requestValidationOptionalStrings ob path keys = None \<longleftrightarrow> list_all (opt_ok is_string ob) keys"
  by (simp add: requestValidationOptionalStrings_def accepted list_all_iff is_string_fun)

lemma optional_bools_None [accepted]:
  "requestValidationOptionalBools ob path keys = None \<longleftrightarrow> list_all (opt_ok is_bool ob) keys"
proof -
  have "(case given (mget ob key) of None \<Rightarrow> None | Some (JBool _) \<Rightarrow> None | Some _ \<Rightarrow> Some (field_path path key, NotABoolean)) = None
      \<longleftrightarrow> opt_ok is_bool ob key" for key
    unfolding opt_ok_def given_def by (cases "mget ob key") (auto split: json.split)
  then show ?thesis by (simp add: requestValidationOptionalBools_def accepted list_all_iff)
qed

lemma optional_numbers_None [accepted]:
  "requestValidationOptionalNumbers ob path False keys = None \<longleftrightarrow> list_all (opt_ok is_number ob) keys"
  "requestValidationOptionalNumbers ob path True keys = None \<longleftrightarrow> list_all (opt_ok is_count ob) keys"
  by (simp_all add: requestValidationOptionalNumbers_def accepted list_all_iff number_check)

lemma object_if_given_None [accepted]:
  "check_object_if_given (mget ob key) path = None \<longleftrightarrow> opt_ok is_object ob key"
  by (simp add: check_object_if_given_def accepted is_string_fun)

end
