(* ===== verification/ToolNamesProps.thy ===== *)
theory ToolNamesProps
  imports ToolNames ValidationFacts
begin

text \<open>
  The tools of a Responses request that passed \<open>validateResponsesOptions\<close>: each has a name the
  vendor takes, no two share one, and every name leads back to the tool the client declared.
\<close>

subsection \<open>Length\<close>

lemma cut_valid_length: "length (cut_valid s) \<le> length s"
proof (induction s rule: cut_valid.induct)
  case (1 s)
  then show ?case by (cases "valid_string s") (auto simp: cut_valid.simps [of s] intro: order.trans)
qed

lemma toolNamePrefix_length: "length (toolNamePrefix s n) \<le> n"
  using cut_valid_length [of "take n s"] by (auto simp: toolNamePrefix_def min_def)

lemma bounded_length:
  assumes "length (digest name) \<le> 62"
  shows "length (boundedChatToolName digest name) \<le> 64"
  using toolNamePrefix_length [of name "64 - (2 + length (digest name))"] assms
  by (auto simp: boundedChatToolName_def Let_def namespaceSeparator_def)

lemma bounded_nonempty: "name \<noteq> [] \<Longrightarrow> boundedChatToolName digest name \<noteq> []"
  by (auto simp: boundedChatToolName_def Let_def namespaceSeparator_def)

lemma bounded_short: "length name \<le> 64 \<Longrightarrow> boundedChatToolName digest name = name"
  by (simp add: boundedChatToolName_def)

lemma numbered_length:
  assumes "length (dec index) \<le> 62"
  shows "length (numbered base index) \<le> 64"
  using toolNamePrefix_length [of base "64 - (2 + length (dec index))"] assms
  by (auto simp: numbered_def Let_def namespaceSeparator_def)

lemma numbered_nonempty: "numbered base index \<noteq> []"
  by (simp add: numbered_def Let_def namespaceSeparator_def)

lemma free_number_free: "free_number base taken index \<notin> set taken"
proof (induction base taken index rule: free_number.induct)
  case (1 base taken index)
  then show ?case by (subst free_number.simps) auto
qed

text \<open>The number that is found is at most the number of names taken further on.\<close>

lemma free_number_form:
  "\<exists>j. free_number base taken index = numbered base j \<and> index \<le> j \<and> (\<forall>k. index \<le> k \<and> k < j \<longrightarrow> numbered base k \<in> set taken)"
proof (induction base taken index rule: free_number.induct)
  case (1 base taken index)
  show ?case
  proof (cases "numbered base index \<in> set taken")
    case True
    with 1 obtain j where j: "free_number base taken (index + 1) = numbered base j" "index + 1 \<le> j"
      "\<forall>k. index + 1 \<le> k \<and> k < j \<longrightarrow> numbered base k \<in> set taken" by auto
    have "numbered base k \<in> set taken" if "index \<le> k" "k < j" for k
      using that True j(3) by (cases "k = index") auto
    with True j show ?thesis by (subst free_number.simps) (auto intro!: exI [of _ j])
  next
    case False
    then show ?thesis by (subst free_number.simps) (auto intro!: exI [of _ index])
  qed
qed

lemma free_number_length:
  assumes "index + length taken < 10 ^ 60"
  shows "length (free_number base taken index) \<le> 64"
proof -
  obtain j where j: "free_number base taken index = numbered base j" "index \<le> j"
    and below: "\<forall>k. index \<le> k \<and> k < j \<longrightarrow> numbered base k \<in> set taken"
    using free_number_form by blast
  have "card {index..<j} \<le> card (set taken)"
  proof (rule card_inj_on_le)
    show "inj_on (numbered base) {index..<j}" using numbered_inj by (rule inj_on_subset) simp
    show "numbered base ` {index..<j} \<subseteq> set taken" using below by auto
  qed simp
  then have "j \<le> index + length taken" using card_length [of taken] by simp
  with assms have "j < 10 ^ 60" by simp
  then have "length (dec j) \<le> 60" by (rule dec_length) simp
  then show ?thesis unfolding j(1) by (intro numbered_length) simp
qed

lemma unique_free: "uniqueChatToolName digest name taken \<notin> set taken"
  by (auto simp: uniqueChatToolName_def Let_def free_number_free)

lemma free_number_nonempty: "free_number base taken index \<noteq> []"
  using free_number_form [of base taken index] numbered_nonempty by metis

lemma unique_nonempty: "name \<noteq> [] \<Longrightarrow> uniqueChatToolName digest name taken \<noteq> []"
  by (auto simp: uniqueChatToolName_def Let_def bounded_nonempty free_number_nonempty)

lemma unique_length:
  assumes "length (digest name) \<le> 62" and "2 + length taken < 10 ^ 60"
  shows "length (uniqueChatToolName digest name taken) \<le> 64"
  using bounded_length [of digest name] free_number_length [OF assms(2)] assms(1) by (auto simp: uniqueChatToolName_def Let_def)

subsection \<open>The declared tools\<close>

datatype declared_tool = Top obj | Child obj obj

fun is_top :: "declared_tool \<Rightarrow> bool" where
  "is_top (Top tm) = True"
| "is_top (Child g c) = False"

fun decl_space :: "declared_tool \<Rightarrow> string" where
  "decl_space (Top tm) = []"
| "decl_space (Child g c) = get_str g ''name''"

fun decl_tool :: "declared_tool \<Rightarrow> obj" where
  "decl_tool (Top tm) = tm"
| "decl_tool (Child g c) = c"

abbreviation decl_name :: "declared_tool \<Rightarrow> string" where
  "decl_name d \<equiv> chatToolName (decl_tool d)"

abbreviation decl_custom :: "declared_tool \<Rightarrow> bool" where
  "decl_custom d \<equiv> is_str (decl_tool d) ''type'' ''custom''"

abbreviation decl_id :: "declared_tool \<Rightarrow> string" where
  "decl_id d \<equiv> identity (decl_space d) (decl_name d)"

definition declared_in :: "obj \<Rightarrow> declared_tool list" where
  "declared_in tm =
     (if public_tool tm then [Top tm]
      else if is_str tm ''type'' ''namespace''
      then map (\<lambda>c. Child tm (nested_of (Some c))) (array_of (mget tm ''tools''))
      else [])"

definition declared_tools :: "json list \<Rightarrow> declared_tool list" where
  "declared_tools tools = concat (map (\<lambda>t. declared_in (nested_of (Some t))) tools)"

definition sound_decl :: "declared_tool \<Rightarrow> bool" where
  "sound_decl d \<longleftrightarrow> decl_name d \<noteq> [] \<and> public_tool (decl_tool d) \<and> (is_top d \<or> trim_space (decl_space d) \<noteq> [])"

text \<open>What acceptance gives.\<close>

lemma function_name: "requestValidationFunction fn path = None \<Longrightarrow> get_str fn ''name'' \<noteq> []"
  by (auto simp: requestValidationFunction_def accepted get_str_def str_or_empty_def)

lemma builtin_not_public:
  "isUnimplementedBuiltinTool kind \<Longrightarrow> kind \<noteq> ''function'' \<and> kind \<noteq> ''custom'' \<and> kind \<noteq> ''namespace''"
  by (auto simp: isUnimplementedBuiltinTool_def unimplementedBuiltinTools_def builtinToolPrefixes_def has_prefix_def)

lemma get_str_is: "mget m k = Some (JStr s) \<Longrightarrow> get_str m k = s"
  by (simp add: get_str_def str_or_empty_def)

lemma accepted_public:
  assumes "requestValidationToolSpec tool path True allow = None" "public_tool tool"
  shows "chatToolName tool \<noteq> []"
proof -
  from assms(2) consider (f) "mget tool ''type'' = Some (JStr ''function'')" | (c) "mget tool ''type'' = Some (JStr ''custom'')"
    by (auto simp: public_tool_def is_str_def)
  then show ?thesis
  proof cases
    case f
    then have nb: "\<not> isUnimplementedBuiltinTool (get_str tool ''type'')"
      using builtin_not_public by (auto simp: get_str_is)
    have "(\<exists>fn. mget tool ''function'' = Some (JObj fn) \<and> get_str fn ''name'' \<noteq> [])
        \<or> (mget tool ''function'' = None \<and> get_str tool ''name'' \<noteq> [])"
      using assms(1) f nb
      by (subst (asm) requestValidationToolSpec.simps)
        (auto simp: accepted is_str_def get_str_is split: option.splits if_splits dest: function_name)
    then show ?thesis using f by (auto simp: chatToolName_def is_str_def Let_def nested_of_def)
  next
    case c
    then have nb: "\<not> isUnimplementedBuiltinTool (get_str tool ''type'')"
      using builtin_not_public by (auto simp: get_str_is)
    show ?thesis
      using assms(1) c nb
      by (subst (asm) requestValidationToolSpec.simps)
        (auto simp: accepted is_str_def chatToolName_def Let_def get_str_def str_or_empty_def
           split: option.splits if_splits)
  qed
qed


lemma accepted_child:
  assumes "requestValidationToolSpec tool path True False = None"
  shows "public_tool tool"
  using assms by (subst (asm) requestValidationToolSpec.simps)
    (auto simp: accepted is_str_def public_tool_def get_str_is split: if_splits option.splits)

lemma accepted_namespace:
  assumes "requestValidationToolSpec tool path True True = None" "is_str tool ''type'' ''namespace''"
  shows "trim_space (get_str tool ''name'') \<noteq> []"
    and "\<And>raw. raw \<in> set (array_of (mget tool ''tools'')) \<Longrightarrow>
      \<exists>c p. raw = JObj c \<and> requestValidationToolSpec c p True False = None"
proof -
  have t: "mget tool ''type'' = Some (JStr ''namespace'')" using assms(2) by (simp add: is_str_def)
  then have "\<not> isUnimplementedBuiltinTool (get_str tool ''type'')"
    using builtin_not_public by (auto simp: get_str_is)
  then have "requestValidationString (mget tool ''name'') (field_path path ''name'') True = None
    \<and> each (field_path path ''tools'')
        (\<lambda>p x. requestValidationObject (Some x) p (\<lambda>child. requestValidationToolSpec child p True False))
        (array_of (mget tool ''tools'')) = None"
    using assms(1) t by (subst (asm) requestValidationToolSpec.simps)
      (auto simp: accepted is_str_def get_str_is split: if_splits)
  note checks = this
  from checks have n: "\<exists>s. mget tool ''name'' = Some (JStr s) \<and> trim_space s \<noteq> []" by (auto simp: accepted)
  have e: "\<And>j. j < length (array_of (mget tool ''tools'')) \<Longrightarrow> \<exists>c p. array_of (mget tool ''tools'') ! j = JObj c
        \<and> requestValidationToolSpec c p True False = None"
    using checks unfolding accepted by blast
  from n show "trim_space (get_str tool ''name'') \<noteq> []" by (auto simp: get_str_is)
  fix raw assume "raw \<in> set (array_of (mget tool ''tools''))"
  then show "\<exists>c p. raw = JObj c \<and> requestValidationToolSpec c p True False = None"
    using e by (auto simp: in_set_conv_nth)
qed

lemma accepted_declared:
  assumes "requestValidationToolSpec tool path True True = None" "d \<in> set (declared_in tool)"
  shows "sound_decl d"
proof (cases "public_tool tool")
  case True
  then show ?thesis using assms accepted_public by (auto simp: declared_in_def sound_decl_def)
next
  case False
  then obtain raw where ns: "is_str tool ''type'' ''namespace''" and raw: "raw \<in> set (array_of (mget tool ''tools''))"
    and d: "d = Child tool (nested_of (Some raw))"
    using assms(2) by (auto simp: declared_in_def split: if_splits)
  obtain c p where "raw = JObj c" "requestValidationToolSpec c p True False = None"
    using accepted_namespace(2) [OF assms(1) ns raw] by blast
  then show ?thesis
    using d accepted_namespace(1) [OF assms(1) ns] accepted_child accepted_public
    by (auto simp: sound_decl_def nested_of_def)
qed

text \<open>Registration: the identities are distinct.\<close>

lemma register_tools_ids:
  "register_tools ns ts ids = (None, ids') \<Longrightarrow>
     distinct (map (\<lambda>(p, t). identity ns (chatToolName t)) ts)
     \<and> set (map (\<lambda>(p, t). identity ns (chatToolName t)) ts) \<inter> set ids = {}
     \<and> set ids' = set ids \<union> set (map (\<lambda>(p, t). identity ns (chatToolName t)) ts)"
proof (induction ns ts ids rule: register_tools.induct)
  case (2 ns path tool ts ids)
  then have "identity ns (chatToolName tool) \<notin> set ids" by (auto simp: Let_def split: if_splits)
  with 2 show ?case by (auto simp: Let_def)
qed auto

lemma with_paths_tools: "map snd (with_paths path i xs) = map (\<lambda>x. nested_of (Some x)) xs"
  by (induction xs arbitrary: i) auto

lemma register_tool_ids:
  assumes "register_tool path tool ids = (None, ids')"
  shows "distinct (map decl_id (declared_in tool)) \<and> set (map decl_id (declared_in tool)) \<inter> set ids = {}
    \<and> set ids' = set ids \<union> set (map decl_id (declared_in tool))"
proof -
  have names: "map (\<lambda>(p, t). identity ns (chatToolName t)) (with_paths q i xs)
      = map (\<lambda>x. identity ns (chatToolName (nested_of (Some x)))) xs" for ns q i xs
    by (induction xs arbitrary: i) auto
  consider (top) "public_tool tool" | (space) "\<not> public_tool tool" "is_str tool ''type'' ''namespace''"
    | (other) "\<not> public_tool tool" "\<not> is_str tool ''type'' ''namespace''" by blast
  then show ?thesis
  proof cases
    case top
    then have "register_tools [] [(path, tool)] ids = (None, ids')" using assms by (simp add: register_tool_def)
    from register_tools_ids [OF this] show ?thesis using top by (simp add: declared_in_def)
  next
    case space
    then have "register_tools (get_str tool ''name'')
        (with_paths (field_path path ''tools'') 0 (array_of (mget tool ''tools''))) ids = (None, ids')"
      using assms by (simp add: register_tool_def)
    from register_tools_ids [OF this] show ?thesis using space by (simp add: declared_in_def names comp_def)
  next
    case other
    then show ?thesis using assms by (simp add: register_tool_def declared_in_def)
  qed
qed

lemma check_tools_ids:
  "check_tools path True i ids tools = None \<Longrightarrow>
     distinct (map decl_id (declared_tools tools)) \<and> set (map decl_id (declared_tools tools)) \<inter> set ids = {}
     \<and> list_all sound_decl (declared_tools tools) \<and> list_all is_object tools"
proof (induction tools arbitrary: i ids)
  case (Cons raw tools)
  then obtain tool where raw: "raw = JObj tool"
    and spec: "requestValidationToolSpec tool (item_path path i) True True = None"
    and reg': "(case register_tool (item_path path i) tool ids of (Some e, _) \<Rightarrow> Some e
      | (None, ids') \<Rightarrow> check_tools path True (i + 1) ids' tools) = None"
    by (auto simp: accepted)
  obtain ids' where reg: "register_tool (item_path path i) tool ids = (None, ids')"
    and rest: "check_tools path True (i + 1) ids' tools = None"
    using reg' by (cases "register_tool (item_path path i) tool ids") (auto split: option.splits)
  have "list_all sound_decl (declared_in tool)" using accepted_declared [OF spec] by (auto simp: list_all_iff)
  then show ?case using Cons.IH [OF rest] register_tool_ids [OF reg] raw
    by (auto simp: declared_tools_def nested_of_def)
qed (simp add: declared_tools_def)

lemma accepted_tools:
  assumes "requestValidationTools (Some (JArr tools)) path True = None"
  shows "distinct (map decl_id (declared_tools tools))" "list_all sound_decl (declared_tools tools)" "list_all is_object tools"
  using assms check_tools_ids [of path 0 "[]" tools] by (auto simp: requestValidationTools_def given_def)


subsection \<open>The tables, one declared tool at a time\<close>

definition out_name :: "json \<Rightarrow> string" where
  "out_name j = chatToolName (nested_of (Some j))"

definition function_tool :: "obj \<Rightarrow> bool" where
  "function_tool tool \<longleftrightarrow> \<not> is_str tool ''type'' ''custom'' \<and> (\<exists>fn. mget tool ''function'' = Some (JObj fn))"

lemma function_tool_map [simp]: "function_tool (map_function f tool) = function_tool tool"
  by (auto simp: function_tool_def map_function_def is_str_def split: option.splits json.splits)

lemma function_tool_set [simp]: "function_tool (setChatToolName w tool) = function_tool tool"
  by (simp add: setChatToolName_def)

lemma get_str_mput: "get_str (mput k v m) k' = (if k' = k then str_or_empty (Some v) else get_str m k')"
  by (simp add: get_str_def)

lemma name_set:
  assumes "function_tool tool" "w \<noteq> []"
  shows "chatToolName (setChatToolName w tool) = w"
  using assms by (auto simp: function_tool_def setChatToolName_def map_function_def chatToolName_def is_str_def
      nested_of_def get_str_mput str_or_empty_def)

lemma name_described [simp]: "chatToolName (map_function (describeToolAlias t) tool) = chatToolName tool"
  by (auto simp: map_function_def chatToolName_def is_str_def nested_of_def get_str_mput
      describeToolAlias_def after_description_def Let_def split: option.splits json.splits)

lemma function_tool_custom: "customToolToFunction tm = Some fn \<Longrightarrow> function_tool fn"
  by (auto simp: customToolToFunction_def function_tool_def is_str_def Let_def split: if_splits)

lemma function_tool_responses: "is_str tm ''type'' ''function'' \<Longrightarrow> function_tool (responsesFunctionTool tm)"
  by (auto simp: responsesFunctionTool_def function_tool_def is_str_def split: option.splits json.splits)

fun add_declared :: "(string \<Rightarrow> string) \<Rightarrow> (string, string) gomap \<Rightarrow> declared_tool \<Rightarrow> tool_tables \<Rightarrow> tool_tables" where
  "add_declared digest topNames (Top tm) s = add_tool digest topNames (JObj tm) s"
| "add_declared digest topNames (Child g c) s = add_child digest g (JObj c) s"

lemma add_child_object: "add_child digest g raw s = add_child digest g (JObj (nested_of (Some raw))) s"
  by (cases raw) (simp_all add: add_child_def nested_of_def chatToolName_def is_str_def get_str_def str_or_empty_def)

lemma fold_fold_map: "fold f (map g xs) = fold (\<lambda>x. f (g x)) xs"
  by (simp add: fold_map comp_def)

lemma add_tool_declared:
  "add_tool digest topNames raw s = fold (add_declared digest topNames) (declared_in (nested_of (Some raw))) s"
proof (cases raw)
  case (JObj tm)
  have "fold (\<lambda>x. add_declared digest topNames (Child tm (nested_of (Some x)))) cs s = fold (add_child digest tm) cs s" for cs s
    by (induction cs arbitrary: s) (simp_all add: add_child_object [symmetric])
  then show ?thesis using JObj
    by (simp add: add_tool_def declared_in_def fold_fold_map public_tool_def is_str_def)
      (simp add: nested_of_def fold_fold_map)
qed (simp_all add: add_tool_def declared_in_def nested_of_def public_tool_def is_str_def)

lemma add_tools_declared:
  "fold (add_tool digest topNames) tools s = fold (add_declared digest topNames) (declared_tools tools) s"
  by (induction tools arbitrary: s) (simp_all add: declared_tools_def add_tool_declared)

definition wire_name :: "(string \<Rightarrow> string) \<Rightarrow> (string, string) gomap \<Rightarrow> declared_tool \<Rightarrow> tool_tables \<Rightarrow> string" where
  "wire_name digest topNames d s =
     (if is_top d then the (mget topNames (decl_name d))
      else flatToolName digest (decl_space d) (decl_name d) (tt_taken s))"

definition alias_of :: "declared_tool \<Rightarrow> toolAlias" where
  "alias_of d = \<lparr>al_namespace = decl_space d, al_name = decl_name d, al_custom = decl_custom d\<rparr>"

definition advances :: "declared_tool \<Rightarrow> string \<Rightarrow> tool_tables \<Rightarrow> tool_tables \<Rightarrow> bool" where
  "advances d w s s' \<longleftrightarrow>
     tt_taken s' = (if is_top d then tt_taken s else w # tt_taken s)
     \<and> map out_name (tt_out s') = map out_name (tt_out s) @ [w]
     \<and> set (tt_custom s') = set (tt_custom s) \<union> (if decl_custom d then {w} else {})
     \<and> tt_aliases s' = (if is_top d \<and> w = decl_name d then tt_aliases s else mput w (alias_of d) (tt_aliases s))"

lemma add_top_advances:
  assumes "sound_decl (Top tm)" "mget topNames (chatToolName tm) = Some w" "w \<noteq> []"
  shows "advances (Top tm) w s (add_tool digest topNames (JObj tm) s)"
proof (cases "is_str tm ''type'' ''custom''")
  case True
  then obtain fn where fn: "customToolToFunction tm = Some fn"
    using assms(1) by (auto simp: sound_decl_def chatToolName_def customToolToFunction_def Let_def)
  have name: "chatToolName (setChatToolName w fn) = w" by (intro name_set function_tool_custom [OF fn] assms(3))
  have "\<not> is_str tm ''type'' ''namespace''" using True by (simp add: is_str_def)
  then show ?thesis using True fn name assms
    by (auto simp: advances_def add_tool_def add_custom_def Let_def out_name_def nested_of_def alias_of_def)
next
  case False
  then have f: "is_str tm ''type'' ''function''" using assms(1) by (auto simp: sound_decl_def public_tool_def)
  have name: "chatToolName (setChatToolName w (responsesFunctionTool tm)) = w"
    by (intro name_set function_tool_responses f assms(3))
  have "\<not> is_str tm ''type'' ''namespace''" using f by (simp add: is_str_def)
  then show ?thesis using False f name assms
    by (auto simp: advances_def add_tool_def add_function_def Let_def out_name_def nested_of_def alias_of_def sound_decl_def
        split: option.splits json.splits)
qed

lemma flat_nonempty: "flatToolName digest ns name taken \<noteq> []"
  unfolding flatToolName_def by (rule unique_nonempty) (simp add: namespaceSeparator_def)

lemma add_child_advances:
  assumes "sound_decl (Child g c)"
  shows "advances (Child g c) (flatToolName digest (get_str g ''name'') (chatToolName c) (tt_taken s)) s
    (add_child digest g (JObj c) s)"
proof -
  have sp: "trim_space (get_str g ''name'') \<noteq> []" "chatToolName c \<noteq> []" using assms by (auto simp: sound_decl_def)
  obtain fn where fn: "child_tool c = Some fn" "function_tool fn"
  proof (cases "is_str c ''type'' ''custom''")
    case True
    then obtain fn where "customToolToFunction c = Some fn"
      using assms by (auto simp: sound_decl_def chatToolName_def customToolToFunction_def Let_def)
    then show ?thesis using True function_tool_custom that by (simp add: child_tool_def)
  next
    case False
    then have "is_str c ''type'' ''function''" using assms by (auto simp: sound_decl_def public_tool_def)
    then show ?thesis using False function_tool_responses that by (simp add: child_tool_def)
  qed
  show ?thesis using sp fn name_set [of "map_function (namespace_note g) fn"] flat_nonempty
    by (simp add: advances_def add_child_def Let_def out_name_def nested_of_def alias_of_def)
qed

lemma add_declared_advances:
  assumes "sound_decl d" "is_top d \<Longrightarrow> \<exists>w. mget topNames (decl_name d) = Some w \<and> w \<noteq> []"
  shows "advances d (wire_name digest topNames d s) s (add_declared digest topNames d s)"
proof (cases d)
  case (Top tm)
  then obtain w where w: "mget topNames (chatToolName tm) = Some w" "w \<noteq> []" using assms(2) by auto
  show ?thesis using Top add_top_advances [OF _ w] assms(1) w by (simp add: wire_name_def)
next
  case (Child g c)
  then show ?thesis using add_child_advances assms(1) by (simp add: wire_name_def)
qed


subsection \<open>Public names\<close>

definition top_names :: "json list \<Rightarrow> string list" where
  "top_names tools = map decl_name (filter is_top (declared_tools tools))"

definition assign_alias :: "(string \<Rightarrow> string) \<Rightarrow> string \<Rightarrow> (string, string) gomap \<times> string list \<Rightarrow> (string, string) gomap \<times> string list" where
  "assign_alias digest name st =
     (case st of (topNames, taken) \<Rightarrow>
        let alias = (if 64 < length name then uniqueChatToolName digest name taken else name)
        in (mput name alias topNames, alias # taken))"

lemma top_names_Cons:
  "top_names (t # tools) = (if public_tool (nested_of (Some t)) then [chatToolName (nested_of (Some t))] else []) @ top_names tools"
  by (auto simp: top_names_def declared_tools_def declared_in_def)

lemma reserved_top: "reserved_names tools = filter (\<lambda>n. n \<noteq> [] \<and> length n \<le> 64) (top_names tools)"
  unfolding reserved_names_def
  by (induction tools) (auto simp: top_names_Cons top_names_def [of "[]"] declared_tools_def [of "[]"])

lemma fold_public_alias:
  "[] \<notin> set (top_names tools) \<Longrightarrow>
     fold (\<lambda>t. public_alias digest (nested_of (Some t))) tools st = fold (assign_alias digest) (top_names tools) st"
proof (induction tools arbitrary: st)
  case (Cons t tools)
  let ?tool = "nested_of (Some t)"
  have "public_alias digest ?tool st = (if public_tool ?tool then assign_alias digest (chatToolName ?tool) st else st)"
    using Cons.prems by (cases st) (auto simp: public_alias_def assign_alias_def Let_def top_names_Cons)
  with Cons show ?case by (simp add: top_names_Cons split: if_splits)
qed (simp add: top_names_def declared_tools_def)

definition aliases_ok :: "bool \<Rightarrow> string list \<Rightarrow> string list \<Rightarrow> (string, string) gomap \<times> string list \<Rightarrow> bool" where
  "aliases_ok lens reserved ns st \<longleftrightarrow>
     (case st of (topNames, taken) \<Rightarrow>
        (\<forall>n. n \<in> set ns \<longleftrightarrow> mget topNames n \<noteq> None)
        \<and> (\<forall>n a. mget topNames n = Some a \<longrightarrow>
             a \<noteq> [] \<and> a \<in> set taken \<and> (length n \<le> 64 \<longrightarrow> a = n) \<and> (64 < length n \<longrightarrow> a \<notin> set reserved) \<and> (lens \<longrightarrow> length a \<le> 64))
        \<and> (\<forall>m n a. mget topNames m = Some a \<longrightarrow> mget topNames n = Some a \<longrightarrow> m = n)
        \<and> set reserved \<subseteq> set taken
        \<and> length taken = length reserved + length ns)"

lemma assign_alias_ok:
  assumes ok: "aliases_ok lens reserved ns st" and new: "n \<notin> set ns" "n \<noteq> []"
    and short: "length n \<le> 64 \<Longrightarrow> n \<in> set reserved"
    and lens: "lens \<Longrightarrow> length (digest n) \<le> 62 \<and> 2 + length reserved + length ns < 10 ^ 60"
  shows "aliases_ok lens reserved (ns @ [n]) (assign_alias digest n st)"
proof -
  obtain topNames taken where st: "st = (topNames, taken)" by fastforce
  define a where "a = (if 64 < length n then uniqueChatToolName digest n taken else n)"
  have inv: "\<forall>n. n \<in> set ns \<longleftrightarrow> mget topNames n \<noteq> None" "set reserved \<subseteq> set taken"
    "length taken = length reserved + length ns"
    and used: "\<forall>n a. mget topNames n = Some a \<longrightarrow>
             a \<noteq> [] \<and> a \<in> set taken \<and> (length n \<le> 64 \<longrightarrow> a = n) \<and> (64 < length n \<longrightarrow> a \<notin> set reserved) \<and> (lens \<longrightarrow> length a \<le> 64)"
    and inj: "\<forall>m n a. mget topNames m = Some a \<longrightarrow> mget topNames n = Some a \<longrightarrow> m = n"
    using ok by (auto simp: aliases_ok_def st)
  have "a \<noteq> []" using new(2) unique_nonempty by (auto simp: a_def)
  moreover have "length a \<le> 64" if lens
    using unique_length [of digest n taken] lens [OF that] inv(3) by (auto simp: a_def)
  moreover have "a \<notin> set reserved" if "64 < length n"
    using unique_free [of digest n taken] inv(2) that by (auto simp: a_def)
  moreover have fresh: "mget topNames m \<noteq> Some a" for m
  proof
    assume m: "mget topNames m = Some a"
    show False
    proof (cases "64 < length n")
      case True
      then show False using used m unique_free [of digest n taken] by (auto simp: a_def)
    next
      case False
      then have "a = n" "n \<in> set reserved" using short by (auto simp: a_def)
      moreover have "m \<noteq> n" using m inv(1) new(1) by fastforce
      ultimately show False using used m by (cases "length m \<le> 64") fastforce+
    qed
  qed
  moreover have "length n \<le> 64 \<longrightarrow> a = n" by (simp add: a_def)
  moreover have "assign_alias digest n st = (mput n a topNames, a # taken)"
    by (simp add: assign_alias_def st a_def Let_def)
  ultimately show ?thesis
    unfolding aliases_ok_def using inv used inj by (auto split: if_splits)
qed

lemma assign_aliases_ok:
  assumes "aliases_ok lens reserved ns st" "distinct (ns @ ms)" "[] \<notin> set ms"
    and "\<forall>n \<in> set ms. length n \<le> 64 \<longrightarrow> n \<in> set reserved"
    and "lens \<longrightarrow> (\<forall>n. length (digest n) \<le> 62) \<and> 2 + length reserved + length ns + length ms < 10 ^ 60"
  shows "aliases_ok lens reserved (ns @ ms) (fold (assign_alias digest) ms st)"
  using assms
proof (induction ms arbitrary: ns st)
  case (Cons m ms)
  have "aliases_ok lens reserved (ns @ [m]) (assign_alias digest m st)"
    using Cons.prems by (intro assign_alias_ok) auto
  then show ?case using Cons.IH [of "ns @ [m]" "assign_alias digest m st"] Cons.prems by simp
qed simp

lemma public_aliases_ok:
  assumes "distinct (top_names tools)" "[] \<notin> set (top_names tools)"
    and "lens \<longrightarrow> (\<forall>n. length (digest n) \<le> 62) \<and> 2 + 2 * length (top_names tools) < 10 ^ 60"
  shows "aliases_ok lens (reserved_names tools) (top_names tools) (public_aliases digest tools)"
proof -
  have "aliases_ok lens (reserved_names tools) ([] @ top_names tools)
      (fold (assign_alias digest) (top_names tools) ([], reserved_names tools))"
  proof (rule assign_aliases_ok)
    have "length (reserved_names tools) \<le> length (top_names tools)" by (simp add: reserved_top)
    then show "lens \<longrightarrow> (\<forall>n. length (digest n) \<le> 62)
        \<and> 2 + length (reserved_names tools) + length ([] :: string list) + length (top_names tools) < 10 ^ 60"
      using assms(3) by auto
  qed (use assms in \<open>auto simp: aliases_ok_def reserved_top\<close>)
  then show ?thesis using fold_public_alias [OF assms(2)] by (simp add: public_aliases_def)
qed


subsection \<open>All tools\<close>

text \<open>The tables after the tools \<open>map fst ps\<close>, which got the names \<open>map snd ps\<close>.\<close>

definition entry_ok :: "bool \<Rightarrow> (string, string) gomap \<Rightarrow> tool_tables \<Rightarrow> declared_tool \<Rightarrow> string \<Rightarrow> bool" where
  "entry_ok lens topNames s d w \<longleftrightarrow>
     w \<in> set (tt_taken s) \<and> w \<noteq> [] \<and> (lens \<longrightarrow> length w \<le> 64)
     \<and> mget (tt_aliases s) w = (if is_top d \<and> w = decl_name d then None else Some (alias_of d))
     \<and> (if is_top d then mget topNames (decl_name d) = Some w else \<forall>n. mget topNames n \<noteq> Some w)"

definition tables_ok :: "bool \<Rightarrow> (string, string) gomap \<Rightarrow> nat \<Rightarrow> (declared_tool \<times> string) list \<Rightarrow> tool_tables \<Rightarrow> bool" where
  "tables_ok lens topNames n0 ps s \<longleftrightarrow>
     map out_name (tt_out s) = map snd ps \<and> distinct (map snd ps)
     \<and> (\<forall>(d, w) \<in> set ps. entry_ok lens topNames s d w)
     \<and> set (tt_custom s) = snd ` set (filter (\<lambda>(d, w). decl_custom d) ps)
     \<and> (\<forall>w a. mget (tt_aliases s) w = Some a \<longrightarrow> (\<exists>d. (d, w) \<in> set ps \<and> a = alias_of d))
     \<and> (\<forall>n w. mget topNames n = Some w \<longrightarrow> w \<in> set (tt_taken s))
     \<and> wfmap (tt_aliases s) \<and> length (tt_taken s) \<le> n0 + length ps"

lemma tables_alias: "tables_ok lens topNames n0 ps s \<Longrightarrow> mget (tt_aliases s) w = Some a \<Longrightarrow> \<exists>d. (d, w) \<in> set ps \<and> a = alias_of d"
  unfolding tables_ok_def by blast

lemma tables_custom: "tables_ok lens topNames n0 ps s \<Longrightarrow> w \<in> set (tt_custom s) \<longleftrightarrow> (\<exists>d. (d, w) \<in> set ps \<and> decl_custom d)"
proof -
  assume "tables_ok lens topNames n0 ps s"
  then have "set (tt_custom s) = snd ` set (filter (\<lambda>(d, w). decl_custom d) ps)" unfolding tables_ok_def by blast
  then show ?thesis by (auto simp: image_iff)
qed

lemma tables_out: "tables_ok lens topNames n0 ps s \<Longrightarrow> map out_name (tt_out s) = map snd ps"
  unfolding tables_ok_def by blast

lemma tables_wf: "tables_ok lens topNames n0 ps s \<Longrightarrow> wfmap (tt_aliases s)"
  unfolding tables_ok_def by blast

lemma tables_taken: "tables_ok lens topNames n0 ps s \<Longrightarrow> mget topNames n = Some w \<Longrightarrow> w \<in> set (tt_taken s)"
  unfolding tables_ok_def by blast

lemma entry_ok_keeps:
  assumes "entry_ok lens topNames s d w" "advances d' w' s s'" "w' \<noteq> w"
  shows "entry_ok lens topNames s' d w"
  using assms by (auto simp: entry_ok_def advances_def)

lemma tables_ok_snoc:
  assumes ok: "tables_ok lens topNames n0 ps s" and adv: "advances d w s s'" and fresh: "w \<notin> snd ` set ps"
    and entry: "entry_ok lens topNames s' d w"
  shows "tables_ok lens topNames n0 (ps @ [(d, w)]) s'"
proof -
  have "\<forall>(d', w') \<in> set (ps @ [(d, w)]). entry_ok lens topNames s' d' w'"
  proof clarify
    fix d' w' assume "(d', w') \<in> set (ps @ [(d, w)])"
    then consider "(d', w') \<in> set ps" | "d' = d" "w' = w" by auto
    then show "entry_ok lens topNames s' d' w'"
    proof cases
      case 1
      then have "w \<noteq> w'" using fresh by (metis image_eqI snd_conv)
      moreover have "entry_ok lens topNames s d' w'" using 1 ok by (auto simp: tables_ok_def)
      ultimately show ?thesis using entry_ok_keeps adv by blast
    qed (simp add: entry)
  qed
  moreover have "\<forall>w' a. mget (tt_aliases s') w' = Some a \<longrightarrow> (\<exists>d'. (d', w') \<in> set (ps @ [(d, w)]) \<and> a = alias_of d')"
    using tables_alias [OF ok] adv by (auto simp: advances_def split: if_splits)
  moreover have "\<forall>n w. mget topNames n = Some w \<longrightarrow> w \<in> set (tt_taken s')"
    using tables_taken [OF ok] adv by (auto simp: advances_def)
  moreover have "wfmap (tt_aliases s')"
    using tables_wf [OF ok] adv by (auto simp: advances_def)
  moreover have "length (tt_taken s') \<le> n0 + length (ps @ [(d, w)])"
    using ok adv by (auto simp: tables_ok_def advances_def)
  moreover have "set (tt_custom s') = snd ` set (filter (\<lambda>(d, w). decl_custom d) (ps @ [(d, w)]))"
    using ok adv by (auto simp: tables_ok_def advances_def)
  moreover have "map out_name (tt_out s') = map snd (ps @ [(d, w)]) \<and> distinct (map snd (ps @ [(d, w)]))"
    using ok adv fresh by (auto simp: tables_ok_def advances_def)
  ultimately show ?thesis unfolding tables_ok_def by blast
qed

lemma add_declared_ok:
  assumes ok: "tables_ok lens topNames n0 ps s" and sound: "sound_decl d"
    and new: "decl_id d \<notin> set (map (decl_id \<circ> fst) ps)"
    and tops: "aliases_ok lens reserved names (topNames, taken0)" "is_top d \<Longrightarrow> decl_name d \<in> set names"
    and lens: "lens \<Longrightarrow> (\<forall>n. length (digest n) \<le> 62) \<and> 2 + n0 + length ps < 10 ^ 60"
  shows "\<exists>w. tables_ok lens topNames n0 (ps @ [(d, w)]) (add_declared digest topNames d s)"
proof -
  let ?w = "wire_name digest topNames d s" and ?s' = "add_declared digest topNames d s"
  have top: "mget topNames (decl_name d) = Some ?w \<and> ?w \<noteq> [] \<and> (lens \<longrightarrow> length ?w \<le> 64)" if "is_top d"
    using tops that by (auto simp: aliases_ok_def wire_name_def)
  have child: "?w = flatToolName digest (decl_space d) (decl_name d) (tt_taken s)" if "\<not> is_top d"
    using that by (simp add: wire_name_def)
  have old: "\<And>d w. (d, w) \<in> set ps \<Longrightarrow> w \<in> set (tt_taken s)"
    and old_top: "\<And>d w. (d, w) \<in> set ps \<Longrightarrow> if is_top d then mget topNames (decl_name d) = Some w else \<forall>n. mget topNames n \<noteq> Some w"
    and names: "\<And>n w. mget topNames n = Some w \<Longrightarrow> w \<in> set (tt_taken s)" and len: "length (tt_taken s) \<le> n0 + length ps"
    using ok by (auto simp: tables_ok_def entry_ok_def)
  have adv: "advances d ?w s ?s'" using add_declared_advances [OF sound] top by auto
  have inj: "m = n" if "mget topNames m = Some a" "mget topNames n = Some a" for m n a
    using tops(1) that by (auto simp: aliases_ok_def)
  have fresh: "?w \<notin> snd ` set ps"
  proof
    assume "?w \<in> snd ` set ps"
    then obtain d' where d': "(d', ?w) \<in> set ps" by force
    show False
    proof (cases "is_top d")
      case True
      then have "is_top d'" using old_top [OF d'] top by (auto split: if_splits)
      then have "decl_name d' = decl_name d" using old_top [OF d'] top [OF True] inj by simp
      moreover have "decl_space d = []" "decl_space d' = []"
        using True \<open>is_top d'\<close> by (cases d; cases d'; simp)+
      moreover have "decl_id d' \<in> set (map (decl_id \<circ> fst) ps)" using d' by force
      ultimately show False using new by simp
    next
      case False
      then show False using old [OF d'] child unique_free by (simp add: flatToolName_def)
    qed
  qed
  have nonempty: "?w \<noteq> []" using top child flat_nonempty by (cases "is_top d") auto
  have "length ?w \<le> 64" if lens
    using top child that lens [OF that] len by (cases "is_top d") (auto simp: flatToolName_def intro!: unique_length)
  moreover have "\<forall>n. mget topNames n \<noteq> Some ?w" if "\<not> is_top d"
    using child [OF that] names unfolding flatToolName_def by (metis unique_free)
  moreover have "?w \<in> set (tt_taken ?s')" "set (tt_taken s) \<subseteq> set (tt_taken ?s')"
    using adv top names by (auto simp: advances_def)
  moreover have "mget (tt_aliases s) ?w = None"
  proof (rule ccontr)
    assume "mget (tt_aliases s) ?w \<noteq> None"
    then obtain d' where "(d', ?w) \<in> set ps" using tables_alias [OF ok] by blast
    then show False using fresh by (metis image_eqI snd_conv)
  qed
  ultimately have "entry_ok lens topNames ?s' d ?w"
    using adv top nonempty by (auto simp: entry_ok_def advances_def)
  with tables_ok_snoc [OF ok adv fresh] show ?thesis by blast
qed


lemma add_all_ok:
  assumes "tables_ok lens topNames n0 ps s" "list_all sound_decl ds" "distinct (map decl_id (map fst ps @ ds))"
    and "aliases_ok lens reserved names (topNames, taken0)" "\<forall>d \<in> set ds. is_top d \<longrightarrow> decl_name d \<in> set names"
    and "lens \<longrightarrow> (\<forall>n. length (digest n) \<le> 62) \<and> 2 + n0 + length ps + length ds < 10 ^ 60"
  shows "\<exists>qs. map fst qs = ds \<and> tables_ok lens topNames n0 (ps @ qs) (fold (add_declared digest topNames) ds s)"
  using assms
proof (induction ds arbitrary: ps s)
  case Nil
  then show ?case by simp
next
  case (Cons d ds)
  obtain w where "tables_ok lens topNames n0 (ps @ [(d, w)]) (add_declared digest topNames d s)"
    using add_declared_ok [OF Cons.prems(1) _ _ Cons.prems(4), of d digest] Cons.prems by (auto simp: comp_def)
  from Cons.IH [OF this] Cons.prems obtain qs where "map fst qs = ds"
    "tables_ok lens topNames n0 ((ps @ [(d, w)]) @ qs) (fold (add_declared digest topNames) ds (add_declared digest topNames d s))"
    by auto
  then show ?case by (auto intro!: exI [of _ "(d, w) # qs"])
qed

lemma declared_top_names: "distinct (map decl_id ds) \<Longrightarrow> distinct (map decl_name (filter is_top ds))"
proof (induction ds)
  case (Cons d ds)
  have "decl_id d = decl_id e" if "is_top d" "is_top e" "decl_name d = decl_name e" for e
    using that by (cases d; cases e; simp)
  with Cons show ?case by (auto simp: image_iff)
qed simp

lemma accepted_tables:
  assumes accepted: "requestValidationTools (Some (JArr tools)) path True = None"
    and lens: "lens \<longrightarrow> (\<forall>n. length (digest n) \<le> 62) \<and> length (declared_tools tools) < 10 ^ 50"
  shows "\<exists>topNames n0 ps. map fst ps = declared_tools tools \<and> tables_ok lens topNames n0 ps (responsesTools digest tools)"
proof -
  obtain topNames taken where st: "public_aliases digest tools = (topNames, taken)" by fastforce
  have sound: "\<And>d. d \<in> set (declared_tools tools) \<Longrightarrow> decl_name d \<noteq> []"
    using accepted_tools(2) [OF accepted] by (auto simp: list_all_iff sound_decl_def)
  have top_len: "length (top_names tools) \<le> length (declared_tools tools)" by (simp add: top_names_def)
  have ok: "aliases_ok lens (reserved_names tools) (top_names tools) (topNames, taken)"
    unfolding st [symmetric]
  proof (rule public_aliases_ok)
    show "distinct (top_names tools)"
      using declared_top_names accepted_tools(1) [OF accepted] by (simp add: top_names_def)
    show "[] \<notin> set (top_names tools)"
    proof
      assume "[] \<in> set (top_names tools)"
      then obtain d where "d \<in> set (declared_tools tools)" "decl_name d = []" by (auto simp: top_names_def)
      then show False using sound by blast
    qed
    show "lens \<longrightarrow> (\<forall>n. length (digest n) \<le> 62) \<and> 2 + 2 * length (top_names tools) < 10 ^ 60"
      using lens top_len by auto
  qed
  have "length taken \<le> 2 * length (declared_tools tools)"
  proof -
    have "length (reserved_names tools) \<le> length (top_names tools)" by (simp add: reserved_top)
    moreover have "length taken = length (reserved_names tools) + length (top_names tools)" using ok by (simp add: aliases_ok_def)
    ultimately show ?thesis using top_len by linarith
  qed
  then have bound: "lens \<longrightarrow> (\<forall>n. length (digest n) \<le> 62) \<and> 2 + length taken + length ([] :: (declared_tool \<times> string) list)
      + length (declared_tools tools) < 10 ^ 60" using lens by auto
  let ?s0 = "\<lparr>tt_out = [], tt_taken = taken, tt_custom = [], tt_aliases = []\<rparr> :: tool_tables"
  have "tables_ok lens topNames (length taken) [] ?s0" using ok by (auto simp: tables_ok_def aliases_ok_def)
  from add_all_ok [OF this _ _ ok _ bound] accepted_tools [OF accepted]
  obtain qs where "map fst qs = declared_tools tools"
    "tables_ok lens topNames (length taken) ([] @ qs) (fold (add_declared digest topNames) (declared_tools tools) ?s0)"
    by (auto simp: top_names_def)
  then show ?thesis by (auto simp: responsesTools_def st add_tools_declared)
qed

subsection \<open>The properties\<close>

text \<open>Three tools, one in a namespace and one custom.\<close>

definition plain_tool :: "string \<Rightarrow> json" where
  "plain_tool name = JObj [(''type'', JStr ''function''), (''name'', JStr name), (''parameters'', JObj [(''type'', JStr ''object'')])]"

definition sample_tools :: "json list" where
  "sample_tools = [plain_tool ''read'', JObj [(''type'', JStr ''namespace''), (''name'', JStr ''fs''),
     (''tools'', JArr [plain_tool ''read''])], JObj [(''type'', JStr ''custom''), (''name'', JStr ''patch'')]]"

lemma sample_accepted: "requestValidationTools (Some (JArr sample_tools)) ''tools'' True = None"
  by code_simp
lemma sample_declared: "length (declared_tools sample_tools) = 3"
  by code_simp



lemma alias_index:
  assumes "wfmap aliases"
    and "\<And>f a f' a'. (f, a) \<in> set aliases \<Longrightarrow> (f', a') \<in> set aliases \<Longrightarrow>
      identity (al_namespace a) (al_name a) = identity (al_namespace a') (al_name a') \<Longrightarrow> f = f'"
  shows "mget (toolAliasIndex aliases) k = Some f \<longleftrightarrow> (\<exists>a. (f, a) \<in> set aliases \<and> k = identity (al_namespace a) (al_name a))"
  using assms
proof (induction aliases rule: rev_induct)
  case Nil
  then show ?case by (simp add: toolAliasIndex_def)
next
  case (snoc x xs)
  obtain g b where x: "x = (g, b)" by fastforce
  have "mget (toolAliasIndex (xs @ [x])) k = (if k = identity (al_namespace b) (al_name b) then Some g else mget (toolAliasIndex xs) k)"
    by (simp add: toolAliasIndex_def x)
  moreover have "mget (toolAliasIndex xs) k = Some f \<longleftrightarrow> (\<exists>a. (f, a) \<in> set xs \<and> k = identity (al_namespace a) (al_name a))"
  proof (rule snoc.IH)
    show "wfmap xs" using snoc.prems(1) by simp
    fix f a f' a' assume "(f, a) \<in> set xs" "(f', a') \<in> set xs" "identity (al_namespace a) (al_name a) = identity (al_namespace a') (al_name a')"
    then show "f = f'" using snoc.prems(2) [of f a f' a'] by simp
  qed
  moreover have "g = f" if "k = identity (al_namespace b) (al_name b)" "(f, a) \<in> set xs" "k = identity (al_namespace a) (al_name a)" for a
    using snoc.prems(2) [of g b f a] that x by simp
  ultimately show ?case using x by auto
qed

lemma upstream_wire:
  assumes ok: "tables_ok True topNames n0 ps t" and ids: "distinct (map decl_id (map fst ps))" and d: "(d, w) \<in> set ps"
  shows "upstreamToolName digest (toolAliasIndex (tt_aliases t)) (decl_space d) (decl_name d) = w"
proof -
  let ?al = "tt_aliases t"
  have same: "d1 = d2 \<and> w1 = w2" if "(d1, w1) \<in> set ps" "(d2, w2) \<in> set ps" "decl_id d1 = decl_id d2" for d1 d2 w1 w2
  proof -
    have "inj_on (decl_id \<circ> fst) (set ps)" using ids by (simp add: distinct_map comp_inj_on)
    from inj_onD [OF this, of "(d1, w1)" "(d2, w2)"] that show ?thesis by simp
  qed
  have entry_of: "\<exists>d'. (d', f) \<in> set ps \<and> a = alias_of d'" if "(f, a) \<in> set ?al" for f a
    using tables_alias [OF ok] tables_wf [OF ok] that by simp
  have ids_of: "identity (al_namespace (alias_of d')) (al_name (alias_of d')) = decl_id d'" for d'
    by (simp add: alias_of_def)
  have index: "mget (toolAliasIndex ?al) k = Some f \<longleftrightarrow> (\<exists>a. (f, a) \<in> set ?al \<and> k = identity (al_namespace a) (al_name a))" for k f
  proof (rule alias_index [OF tables_wf [OF ok]])
    fix f a f' a'
    assume fa: "(f, a) \<in> set ?al" "(f', a') \<in> set ?al"
      and id: "identity (al_namespace a) (al_name a) = identity (al_namespace a') (al_name a')"
    obtain d1 d2 where "(d1, f) \<in> set ps" "a = alias_of d1" "(d2, f') \<in> set ps" "a' = alias_of d2"
      using entry_of [OF fa(1)] entry_of [OF fa(2)] by blast
    then show "f = f'" using same id ids_of by metis
  qed
  have entry: "entry_ok True topNames t d w" using ok d by (auto simp: tables_ok_def)
  show ?thesis
  proof (cases "is_top d \<and> w = decl_name d")
    case True
    then have "decl_space d = []" "length (decl_name d) \<le> 64" "mget ?al w = None"
      using entry by (cases d, auto simp: entry_ok_def)
    moreover have "mget (toolAliasIndex ?al) (decl_id d) = None"
    proof (rule ccontr)
      assume "mget (toolAliasIndex ?al) (decl_id d) \<noteq> None"
      then obtain f a where fa: "(f, a) \<in> set ?al" "decl_id d = identity (al_namespace a) (al_name a)"
        using index by blast
      obtain d' where d': "(d', f) \<in> set ps" "a = alias_of d'" using entry_of [OF fa(1)] by blast
      then have "f = w" using same [OF d'(1) d] fa(2) ids_of by simp
      then have "w \<in> set (mkeys ?al)" using fa(1) by force
      then show False using \<open>mget ?al w = None\<close> by (simp add: map_of_eq_None_iff)
    qed
    ultimately show ?thesis using True by (simp add: upstreamToolName_def bounded_short)
  next
    case False
    then have "mget ?al w = Some (alias_of d)" using entry by (simp add: entry_ok_def)
    then have "mget (toolAliasIndex ?al) (decl_id d) = Some w"
      unfolding index using ids_of by (metis map_of_SomeD)
    then show ?thesis by (simp add: upstreamToolName_def)
  qed
qed

lemma wire_returns:
  assumes ok: "tables_ok lens topNames n0 ps t" and d: "(d, w) \<in> set ps"
  shows "responsesToolName t w = (decl_name d, decl_space d, decl_custom d)"
proof -
  have "inj_on snd (set ps)" using ok by (simp add: tables_ok_def distinct_map)
  then have "d' = d" if "(d', w) \<in> set ps" for d' using inj_onD [of snd "set ps" "(d', w)" "(d, w)"] d that by simp
  then have custom: "w \<in> set (tt_custom t) \<longleftrightarrow> decl_custom d" using tables_custom [OF ok, of w] d by blast
  have "entry_ok lens topNames t d w" using ok d by (auto simp: tables_ok_def)
  then show ?thesis using custom
    by (cases d) (auto simp: entry_ok_def responsesToolName_def alias_of_def split: if_splits)
qed

text \<open>
  C18: The name a declared tool got on the way to the vendor is the one its earlier calls in the history
  are given, and a call the vendor makes under it comes back to the client under the tool's own
  name, namespace and kind.
\<close>

theorem tool_names_return:
  fixes digest :: "string \<Rightarrow> string"
  assumes "requestValidationTools (Some (JArr tools)) ''tools'' True = None"
    and "\<And>name. length (digest name) = 12" and "length (declared_tools tools) < 10 ^ 50"
    and "d \<in> set (declared_tools tools)"
  defines "t \<equiv> responsesTools digest tools"
  shows "\<exists>w \<in> set (map out_name (tt_out t)).
      upstreamToolName digest (toolAliasIndex (tt_aliases t)) (decl_space d) (decl_name d) = w
      \<and> responsesToolName t w = (decl_name d, decl_space d, decl_custom d)"
proof -
  obtain topNames n0 ps where ps: "map fst ps = declared_tools tools" and ok: "tables_ok True topNames n0 ps t"
    using accepted_tables [OF assms(1), of True digest] assms(2,3) by (auto simp: t_def)
  have ids: "distinct (map decl_id (map fst ps))" using accepted_tools(1) [OF assms(1)] ps by simp
  obtain w where w: "(d, w) \<in> set ps" using assms(4) ps by (metis fst_conv imageE list.set_map prod.collapse)
  then have "w \<in> set (map out_name (tt_out t))" unfolding tables_out [OF ok] by force
  then show ?thesis using upstream_wire [OF ok ids w] wire_returns [OF ok w] by blast
qed

definition sample_child :: declared_tool where
  "sample_child = Child [(''type'', JStr ''namespace''), (''name'', JStr ''fs''), (''tools'', JArr [plain_tool ''read''])]
     [(''type'', JStr ''function''), (''name'', JStr ''read''), (''parameters'', JObj [(''type'', JStr ''object'')])]"

theorem tool_names_return_witness:
  "\<exists>w. responsesToolName (responsesTools (\<lambda>_. ''0123456789ab'') sample_tools) w = (''read'', ''fs'', False)"
proof -
  have "sample_child \<in> set (declared_tools sample_tools)" by code_simp
  moreover have "decl_name sample_child = ''read''" "decl_space sample_child = ''fs''" "\<not> decl_custom sample_child" by code_simp+
  ultimately show ?thesis
    using tool_names_return [OF sample_accepted, of "\<lambda>_. ''0123456789ab''" sample_child] by (auto simp: sample_declared)
qed

end
