(* ===== verification/ValidationProps.thy ===== *)
theory ValidationProps
  imports ToolNamesProps
begin

text \<open>
  What an accepted request is: the type of an accepted chat request, no state on the server for an
  accepted Responses request, and no opinion on fields the gateway does not know.
\<close>

subsection \<open>The type of a chat request\<close>

fun is_word :: "json \<Rightarrow> bool" where
  "is_word (JStr s) = (trim_space s \<noteq> [])"
| "is_word _ = False"

definition has_word :: "obj \<Rightarrow> string \<Rightarrow> bool" where
  "has_word ob key \<longleftrightarrow> (\<exists>s. mget ob key = Some (JStr s) \<and> trim_space s \<noteq> [])"

definition has_string :: "obj \<Rightarrow> string \<Rightarrow> bool" where
  "has_string ob key \<longleftrightarrow> (\<exists>s. mget ob key = Some (JStr s))"

definition fits :: "(obj \<Rightarrow> bool) \<Rightarrow> json \<Rightarrow> bool" where
  "fits P v \<longleftrightarrow> (case v of JObj m \<Rightarrow> P m | _ \<Rightarrow> False)"

definition typed_function :: "obj \<Rightarrow> bool" where
  "typed_function fn \<longleftrightarrow> has_word fn ''name'' \<and> opt_ok is_string fn ''description'' \<and> opt_ok is_bool fn ''strict''
     \<and> opt_ok is_object fn ''parameters''"

definition typed_image :: "json option \<Rightarrow> bool" where
  "typed_image v \<longleftrightarrow> (case v of
      Some (JObj img) \<Rightarrow> opt_ok is_string img ''detail'' \<and> has_word img ''url''
    | Some (JStr s) \<Rightarrow> trim_space s \<noteq> []
    | _ \<Rightarrow> False)"

definition typed_part :: "obj \<Rightarrow> bool" where
  "typed_part part \<longleftrightarrow> list_all (opt_ok is_string part) [''type'', ''text'', ''refusal'', ''detail'']
     \<and> (get_str part ''type'' \<in> {[], ''text'', ''input_text'', ''output_text'', ''summary_text''} \<longrightarrow> has_string part ''text'')
     \<and> (get_str part ''type'' = ''refusal'' \<longrightarrow> has_string part ''refusal'')
     \<and> (get_str part ''type'' \<in> {''image_url'', ''input_image''} \<longrightarrow> typed_image (mget part ''image_url''))"

definition typed_content :: "json \<Rightarrow> bool" where
  "typed_content v \<longleftrightarrow> is_string v \<or> is_array (fits typed_part) v"

definition typed_named_call :: "obj \<Rightarrow> bool" where
  "typed_named_call fn \<longleftrightarrow> has_word fn ''name'' \<and> opt_ok is_string fn ''arguments''"

definition typed_call :: "obj \<Rightarrow> bool" where
  "typed_call call \<longleftrightarrow> opt_ok is_string call ''id'' \<and> opt_ok is_string call ''type''
     \<and> get_str call ''type'' \<in> {[], ''function''} \<and> (\<exists>fn. mget call ''function'' = Some (JObj fn) \<and> typed_named_call fn)"

definition typed_message :: "obj \<Rightarrow> bool" where
  "typed_message m \<longleftrightarrow> has_word m ''role''
     \<and> list_all (opt_ok is_string m) [''name'', ''tool_call_id'', ''reasoning'', ''reasoning_content'', ''refusal'']
     \<and> opt_ok typed_content m ''content''
     \<and> opt_ok (is_array (fits typed_call)) m ''tool_calls''
     \<and> opt_ok (fits typed_named_call) m ''function_call''"

definition typed_chat :: "obj \<Rightarrow> bool" where
  "typed_chat ob \<longleftrightarrow> has_word ob ''model''
     \<and> (\<exists>ms. mget ob ''messages'' = Some (JArr ms) \<and> list_all (fits typed_message) ms)
     \<and> list_all (opt_ok is_bool ob) chat_bools \<and> list_all (opt_ok is_number ob) chat_numbers \<and> list_all (opt_ok is_count ob) chat_counts
     \<and> opt_ok (is_array (fits typed_function)) ob ''functions''"

lemma object_fits: "requestValidationObject (Some v) path k = None \<longleftrightarrow> fits (\<lambda>m. k m = None) v"
  by (cases v) (simp_all add: requestValidationObject_def fits_def)

lemma fits_cong: "(\<And>m. P m \<longleftrightarrow> Q m) \<Longrightarrow> fits P v \<longleftrightarrow> fits Q v"
  by (cases v) (simp_all add: fits_def)

lemma array_each: "each path f xs = None \<longleftrightarrow> list_all P xs"
  if "\<And>p v. f p v = None \<longleftrightarrow> P v" for f P
  unfolding each_None by (auto simp: that list_all_length)

lemma function_typed: "requestValidationFunction fn path = None \<longleftrightarrow> typed_function fn"
  by (auto simp: requestValidationFunction_def accepted typed_function_def has_word_def)

lemma image_typed: "check_image v path = None \<longleftrightarrow> typed_image v"
  by (cases v; cases "the v"; simp add: check_image_def typed_image_def accepted has_word_def)

lemma part_typed: "check_part False path v = None \<longleftrightarrow> fits typed_part v"
proof -
  have "first_error [requestValidationOptionalStrings part path [''type'', ''text'', ''refusal'', ''detail''],
      let kind = get_str part ''type''
      in if kind \<in> {'''', ''text'', ''input_text'', ''output_text'', ''summary_text''}
         then requestValidationString (mget part ''text'') (field_path path ''text'') False
         else if kind = ''refusal'' then requestValidationString (mget part ''refusal'') (field_path path ''refusal'') False
         else if kind = ''image_url'' \<or> kind = ''input_image'' then check_image (mget part ''image_url'') (field_path path ''image_url'')
         else if False then Some (field_path path ''type'', Unsupported) else None] = None
      \<longleftrightarrow> typed_part part" for part
    by (simp add: accepted typed_part_def Let_def has_string_def image_typed)
  then show ?thesis unfolding check_part_def object_fits by simp
qed

lemma content_typed:
  "requestValidationContent (mget m key) path False = None \<longleftrightarrow> opt_ok typed_content m key"
  by (cases "mget m key"; cases "the (mget m key)")
    (simp_all add: requestValidationContent_def given_def opt_ok_def typed_content_def array_each [OF part_typed])

lemma named_call_typed: "check_named_call (Some v) path = None \<longleftrightarrow> fits typed_named_call v"
  unfolding check_named_call_def object_fits
  by (rule fits_cong) (simp add: accepted typed_named_call_def has_word_def)

lemma history_call_typed: "check_history_call path v = None \<longleftrightarrow> fits typed_call v"
proof -
  have "check_named_call f p = None \<longleftrightarrow> (\<exists>fn. f = Some (JObj fn) \<and> typed_named_call fn)" for f p
    by (auto simp: check_named_call_def accepted typed_named_call_def has_word_def)
  then show ?thesis unfolding check_history_call_def object_fits
    by (intro fits_cong) (auto simp: accepted typed_call_def)
qed

lemma history_calls_typed:
  "requestValidationHistoryCalls (mget m key) path = None \<longleftrightarrow> opt_ok (is_array (fits typed_call)) m key"
  by (cases "mget m key"; cases "the (mget m key)")
    (simp_all add: requestValidationHistoryCalls_def given_def opt_ok_def array_each [OF history_call_typed])

lemma message_typed: "check_message path v = None \<longleftrightarrow> fits typed_message v"
  unfolding check_message_def object_fits
  by (rule fits_cong) (simp add: accepted typed_message_def has_word_def content_typed history_calls_typed named_call_typed)

lemma functions_typed: "check_functions (mget m key) = None \<longleftrightarrow> opt_ok (is_array (fits typed_function)) m key"
proof -
  have "each ''functions'' (\<lambda>path raw. requestValidationObject (Some raw) path (\<lambda>fn. requestValidationFunction fn path)) fns = None
      \<longleftrightarrow> list_all (fits typed_function) fns" for fns
    by (rule array_each) (simp add: object_fits function_typed)
  then show ?thesis
    by (cases "mget m key"; cases "the (mget m key)") (simp_all add: check_functions_def given_def opt_ok_def)
qed



subsection \<open>No state on the server\<close>

definition stateless :: "obj \<Rightarrow> bool" where
  "stateless ob \<longleftrightarrow>
     mget ob ''background'' \<noteq> Some (JBool True) \<and> mget ob ''store'' \<noteq> Some (JBool True)
     \<and> trim_space (get_str ob ''previous_response_id'') = []
     \<and> (\<forall>key \<in> {''conversation'', ''prompt''}. case mget ob key of
          Some (JStr s) \<Rightarrow> trim_space s = [] | Some (JObj m) \<Rightarrow> m = [] | None \<Rightarrow> True | Some v \<Rightarrow> v = JNull)
     \<and> (\<forall>item \<in> set (array_of (mget ob ''input'')). \<not> is_str (nested_of (Some item)) ''type'' ''item_reference'')"

text \<open>
  C27: An accepted Responses request asks for nothing the gateway would have to remember: it is not run
  in the background, not stored, and refers to no earlier response, conversation, prompt or item.
\<close>

theorem accepted_responses_stateless:
  assumes "validateResponsesOptions (Some ob) = None"
  shows "stateless ob"
proof -
  have state: "case mget ob key of Some (JStr s) \<Rightarrow> trim_space s = [] | Some (JObj m) \<Rightarrow> m = [] | None \<Rightarrow> True | Some v \<Rightarrow> v = JNull"
    if "requestValidationStateOption (mget ob key) key = None" for key
    using that by (cases "mget ob key"; cases "the (mget ob key)")
      (simp_all add: requestValidationStateOption_def given_def split: if_splits)
  have item: "\<not> is_str (nested_of (Some item)) ''type'' ''item_reference''" if "check_item path item = None" for path item
    using that by (cases item) (auto simp: check_item_def accepted nested_of_def is_str_def get_str_def str_or_empty_def)
  have "\<not> is_str (nested_of (Some item)) ''type'' ''item_reference''"
    if "requestValidationResponsesInput (mget ob ''input'') = None" "item \<in> set (array_of (mget ob ''input''))" for item
  proof -
    note given_item = that
    obtain items where "mget ob ''input'' = Some (JArr items)" "item \<in> set items"
      using given_item(2) by (force simp: array_of_def split: option.splits json.splits)
    then show ?thesis using given_item(1) item
      by (fastforce simp: requestValidationResponsesInput_def given_def accepted in_set_conv_nth)
  qed
  moreover note assms
  ultimately show ?thesis using state
    by (simp add: validateResponsesOptions_def stateless_def accepted check_true_def split: if_splits)
qed

theorem accepted_responses_stateless_witness:
  "stateless [(''model'', JStr ''m''), (''input'', JStr ''hi''), (''store'', JBool False)]"
  by (rule accepted_responses_stateless) code_simp

definition responses_fields :: "string list" where
  "responses_fields = [''model'', ''stream'', ''parallel_tool_calls'', ''background'', ''store'', ''previous_response_id'',
     ''conversation'', ''prompt'', ''metadata'', ''client_metadata'', ''reasoning'', ''text'', ''include'',
     ''max_output_tokens'', ''temperature'', ''top_p'', ''tools'', ''tool_choice'', ''input''] @ response_strings"

text \<open>A field the checks do not know changes nothing.\<close>

theorem extension_fields_ignored:
  assumes "key \<notin> set responses_fields"
  shows "validateResponsesOptions (Some (mput key v ob)) = validateResponsesOptions (Some ob)"
proof -
  have "list_all (\<lambda>k. mget (mput key v ob) k = mget ob k) responses_fields"
    using assms by (auto simp: list_all_iff)
  then show ?thesis
    by (simp add: validateResponsesOptions_def responses_fields_def response_strings_def check_true_def get_str_def
        requestValidationOptionalBools_def requestValidationOptionalStrings_def requestValidationOptionalNumbers_def
        del: mget_mput)
qed

theorem extension_fields_ignored_witness:
  "validateResponsesOptions (Some (mput ''x-extra'' (JBool True) [(''model'', JStr ''m''), (''input'', JStr ''hi'')])) = None"
proof -
  have "validateResponsesOptions (Some [(''model'', JStr ''m''), (''input'', JStr ''hi'')]) = None" by code_simp
  then show ?thesis
    by (subst extension_fields_ignored) (simp_all add: responses_fields_def response_strings_def)
qed

end
