(* ===== verification/StructuredOutput.thy ===== *)
theory StructuredOutput
  imports ToolNames JsonText
begin

text \<open>
  What a client may demand of the answer, \<open>internal/server/structured_output.go\<close>: which tools may
  be called and with what arguments, and the format of the text. The JSON Schema library is a
  parameter: \<open>compile\<close> makes a schema of an object or refuses it, \<open>fits\<close> is \<open>Validate\<close>.
\<close>

subsection \<open>Decoding one value after the other\<close>

text \<open>\<open>Decoder.Decode\<close>: the first value of a text and what follows it.\<close>

fun first_from :: "string \<Rightarrow> scan \<Rightarrow> (json \<times> string) option" where
  "first_from s (MEnd v, []) = Some (v, s)"
| "first_from [] st = map_option (\<lambda>v. (v, [])) (scan_end st)"
| "first_from (c # s) (MNum ph acc, []) =
     (case number_step ph c of
        Some ph' \<Rightarrow> first_from s (MNum ph' (c # acc), [])
      | None \<Rightarrow> if number_final ph then Some (number_value (rev acc), c # s) else None)"
| "first_from (c # s) st = (case scan_step c st of None \<Rightarrow> None | Some st' \<Rightarrow> first_from s st')"

definition first_value :: "string \<Rightarrow> (json \<times> string) option" where
  "first_value s = first_from s (MValue False, [])"

text \<open>A decoded value with \<open>UseNumber\<close>: the last of several equal keys wins.\<close>

fun exact_of :: "json \<Rightarrow> json" and
  exact_pairs :: "(string \<times> json) list \<Rightarrow> obj \<Rightarrow> obj" where
  "exact_of (JArr vs) = JArr (map exact_of vs)"
| "exact_of (JObj ps) = JObj (exact_pairs ps [])"
| "exact_of v = v"
| "exact_pairs [] m = m"
| "exact_pairs ((k, v) # ps) m = exact_pairs ps (mput k (exact_of v) m)"

subsection \<open>The tools that may be called\<close>

record 's responseToolPolicy =
  po_mode :: string
  po_exact :: bool
  po_allowed :: "string list option"
  po_schemas :: "(string, 's) gomap"

datatype policy_error =
    BadSchema string
  | UndeclaredTool string
  | WrongToolType string
  | NoTools

definition function_name :: "json \<Rightarrow> string" where
  "function_name raw = get_str (nested_of (mget (nested_of (Some raw)) ''function'')) ''name''"

definition empty_parameters :: obj where
  "empty_parameters = [(''type'', JStr ''object''), (''additionalProperties'', JBool False)]"

definition strict_parameters :: "json \<Rightarrow> obj option" where
  "strict_parameters raw =
     (let fn = nested_of (mget (nested_of (Some raw)) ''function'')
      in if mget fn ''strict'' = Some (JBool True)
         then Some (case mget fn ''parameters'' of Some (JObj p) \<Rightarrow> p | _ \<Rightarrow> empty_parameters)
         else None)"

fun strict_schemas :: "(obj \<Rightarrow> 's option) \<Rightarrow> json list \<Rightarrow> (string, 's) gomap \<Rightarrow> policy_error + (string, 's) gomap" where
  "strict_schemas compile [] m = Inr m"
| "strict_schemas compile (raw # tools) m =
     (case strict_parameters raw of
        None \<Rightarrow> strict_schemas compile tools m
      | Some p \<Rightarrow>
          (case compile p of
             None \<Rightarrow> Inl (BadSchema (function_name raw))
           | Some s \<Rightarrow> strict_schemas compile tools (mput (function_name raw) s m)))"

text \<open>A tool named in \<open>tool_choice\<close>, as the vendor knows it.\<close>

definition resolve :: "(string \<Rightarrow> string) \<Rightarrow> tool_tables \<Rightarrow> string list \<Rightarrow> obj \<Rightarrow> policy_error + string" where
  "resolve digest tables available reference =
     (let name = upstreamToolName digest (toolAliasIndex (tt_aliases tables)) (namespaceOf reference) (get_str reference ''name'')
      in if name \<notin> set available then Inl (UndeclaredTool name)
         else if is_str reference ''type'' ''custom'' \<noteq> (name \<in> set (tt_custom tables)) then Inl (WrongToolType name)
         else Inr name)"

fun resolve_all :: "(string \<Rightarrow> string) \<Rightarrow> tool_tables \<Rightarrow> string list \<Rightarrow> json list \<Rightarrow> policy_error + string list" where
  "resolve_all digest tables available [] = Inr []"
| "resolve_all digest tables available (raw # refs) =
     (case resolve digest tables available (nested_of (Some raw)) of
        Inl e \<Rightarrow> Inl e
      | Inr name \<Rightarrow>
          (case resolve_all digest tables available refs of Inl e \<Rightarrow> Inl e | Inr names \<Rightarrow> Inr (name # names)))"

definition named_policy :: "'s responseToolPolicy \<Rightarrow> string \<Rightarrow> 's responseToolPolicy" where
  "named_policy policy name = policy\<lparr>po_mode := ''required'', po_exact := True, po_allowed := Some [name]\<rparr>"

type_synonym 's prepared = "json list \<times> json option \<times> 's responseToolPolicy"

definition choose_string :: "(string \<Rightarrow> string) \<Rightarrow> tool_tables \<Rightarrow> string list \<Rightarrow> json list \<Rightarrow> 's responseToolPolicy \<Rightarrow> string
    \<Rightarrow> policy_error + 's prepared" where
  "choose_string digest tables available tools policy mode =
     (if mode \<in> {''auto'', ''none'', ''required''} then Inr (tools, Some (JStr mode), policy\<lparr>po_mode := mode\<rparr>)
      else let name = upstreamToolName digest (toolAliasIndex (tt_aliases tables)) [] mode
           in if name \<notin> set available then Inl (UndeclaredTool mode)
              else Inr (tools, Some (JStr name), named_policy policy name))"

definition choose_allowed :: "(string \<Rightarrow> string) \<Rightarrow> tool_tables \<Rightarrow> string list \<Rightarrow> json list \<Rightarrow> 's responseToolPolicy \<Rightarrow> obj
    \<Rightarrow> policy_error + 's prepared" where
  "choose_allowed digest tables available tools policy choice =
     (let mode = (case mget choice ''mode'' of Some (JStr m) \<Rightarrow> m | _ \<Rightarrow> po_mode policy)
      in case resolve_all digest tables available (array_of (mget choice ''tools'')) of
           Inl e \<Rightarrow> Inl e
         | Inr names \<Rightarrow>
             Inr (filter (\<lambda>raw. chatToolName (nested_of (Some raw)) \<in> set names) tools, Some (JStr mode),
                  policy\<lparr>po_mode := mode, po_allowed := Some names\<rparr>))"

definition choose_named :: "(string \<Rightarrow> string) \<Rightarrow> tool_tables \<Rightarrow> string list \<Rightarrow> json list \<Rightarrow> 's responseToolPolicy \<Rightarrow> obj
    \<Rightarrow> policy_error + 's prepared" where
  "choose_named digest tables available tools policy choice =
     (case resolve digest tables available choice of
        Inl e \<Rightarrow> Inl e
      | Inr name \<Rightarrow>
          Inr (tools, Some (JObj [(''type'', JStr ''function''), (''function'', JObj [(''name'', JStr name)])]),
               named_policy policy name))"

definition prepareToolPolicy :: "(string \<Rightarrow> string) \<Rightarrow> (obj \<Rightarrow> 's option) \<Rightarrow> tool_tables \<Rightarrow> json list \<Rightarrow> json option
    \<Rightarrow> policy_error + 's prepared" where
  "prepareToolPolicy digest compile tables tools choice =
     (case strict_schemas compile tools [] of
        Inl e \<Rightarrow> Inl e
      | Inr schemas \<Rightarrow>
          let policy = \<lparr>po_mode = ''auto'', po_exact = False, po_allowed = None, po_schemas = schemas\<rparr>;
              available = map function_name tools;
              chosen = (case choice of
                  Some (JStr mode) \<Rightarrow> choose_string digest tables available tools policy mode
                | Some (JObj ob) \<Rightarrow>
                    if is_str ob ''type'' ''allowed_tools'' then choose_allowed digest tables available tools policy ob
                    else choose_named digest tables available tools policy ob
                | _ \<Rightarrow> Inr (tools, None, policy))
          in case chosen of
               Inl e \<Rightarrow> Inl e
             | Inr (kept, wire, policy') \<Rightarrow>
                 if po_mode policy' = ''required'' \<and> kept = [] then Inl NoTools else Inr (kept, wire, policy'))"

subsection \<open>Checking the calls of an answer\<close>

record responseToolInvocation =
  iv_name :: string
  iv_arguments :: string

datatype policy_violation =
    CallDespiteNone
  | NoRequiredCall
  | NotExactlyOne
  | OutsideChoice string
  | ArgumentsNotJson string
  | ArgumentsOutsideSchema string

definition check_invocation :: "('s \<Rightarrow> json \<Rightarrow> bool) \<Rightarrow> 's responseToolPolicy \<Rightarrow> responseToolInvocation \<Rightarrow> policy_violation option" where
  "check_invocation fits policy call =
     (if (case po_allowed policy of None \<Rightarrow> False | Some names \<Rightarrow> iv_name call \<notin> set names) then Some (OutsideChoice (iv_name call))
      else case mget (po_schemas policy) (iv_name call) of
        None \<Rightarrow> None
      | Some schema \<Rightarrow>
          (case first_value (iv_arguments call) of
             None \<Rightarrow> Some (ArgumentsNotJson (iv_name call))
           | Some (v, _) \<Rightarrow> if fits schema (exact_of v) then None else Some (ArgumentsOutsideSchema (iv_name call))))"

fun check_invocations :: "('s \<Rightarrow> json \<Rightarrow> bool) \<Rightarrow> 's responseToolPolicy \<Rightarrow> responseToolInvocation list \<Rightarrow> policy_violation option" where
  "check_invocations fits policy [] = None"
| "check_invocations fits policy (call # calls) =
     (case check_invocation fits policy call of Some e \<Rightarrow> Some e | None \<Rightarrow> check_invocations fits policy calls)"

definition validate_policy :: "('s \<Rightarrow> json \<Rightarrow> bool) \<Rightarrow> 's responseToolPolicy option \<Rightarrow> responseToolInvocation list \<Rightarrow> bool
    \<Rightarrow> policy_violation option" where
  "validate_policy fits policy calls refusal =
     (case policy of
        None \<Rightarrow> None
      | Some p \<Rightarrow>
          if refusal \<and> calls = [] then None
          else if po_mode p = ''none'' \<and> calls \<noteq> [] then Some CallDespiteNone
          else if po_mode p = ''required'' \<and> calls = [] then Some NoRequiredCall
          else if po_exact p \<and> length calls \<noteq> 1 then Some NotExactlyOne
          else check_invocations fits p calls)"

subsection \<open>The format of the text\<close>

record 's outputContract =
  oc_format :: obj
  oc_chatFormat :: "obj option"
  oc_schema :: "'s option"
  oc_jsonObject :: bool

datatype format_error =
    BadTextOptions
  | FormatTooLong
  | FormatNotObject
  | FormatNameMissing
  | StrictNotBoolean
  | SchemaNotObject
  | SchemaRefused
  | UnknownFormat string

definition schema_contract :: "(obj \<Rightarrow> 's option) \<Rightarrow> obj \<Rightarrow> format_error + 's outputContract" where
  "schema_contract compile format =
     (if trim_space (get_str format ''name'') = [] then Inl FormatNameMissing
      else if (case mget format ''strict'' of None \<Rightarrow> False | Some (JBool _) \<Rightarrow> False | Some _ \<Rightarrow> True) then Inl StrictNotBoolean
      else case mget format ''schema'' of
        Some (JObj schema) \<Rightarrow>
          (case compile schema of
             None \<Rightarrow> Inl SchemaRefused
           | Some s \<Rightarrow>
               let spec = [(''name'', JStr (get_str format ''name'')), (''schema'', JObj schema)]
                     @ List.map_filter (\<lambda>k. map_option (Pair k) (mget format k)) [''description'', ''strict'']
               in Inr \<lparr>oc_format = format, oc_chatFormat = Some [(''type'', JStr ''json_schema''), (''json_schema'', JObj spec)],
                       oc_schema = Some s, oc_jsonObject = False\<rparr>)
      | _ \<Rightarrow> Inl SchemaNotObject)"

definition format_contract :: "(obj \<Rightarrow> 's option) \<Rightarrow> obj \<Rightarrow> format_error + 's outputContract" where
  "format_contract compile format =
     (let kind = get_str format ''type''
      in if kind = ''text''
         then Inr \<lparr>oc_format = format, oc_chatFormat = None, oc_schema = None, oc_jsonObject = False\<rparr>
         else if kind = ''json_object''
         then Inr \<lparr>oc_format = format, oc_chatFormat = Some [(''type'', JStr ''json_object'')], oc_schema = None, oc_jsonObject = True\<rparr>
         else if kind = ''json_schema'' then schema_contract compile format
         else Inl (UnknownFormat kind))"

text \<open>
  The struct with the fields \<open>format\<close> (kept as text, also when it is \<open>null\<close>) and \<open>verbosity\<close>;
  \<open>raw_length\<close> is the length of that text.
\<close>

definition format_field :: "obj \<Rightarrow> json option" where
  "format_field m = (case map snd (filter (\<lambda>(k, v). names_field ''format'' k) m) of [] \<Rightarrow> None | vs \<Rightarrow> Some (last vs))"

definition parseOutputContract :: "(json \<Rightarrow> nat) \<Rightarrow> (obj \<Rightarrow> 's option) \<Rightarrow> json option \<Rightarrow> format_error + 's outputContract option" where
  "parseOutputContract raw_length compile raw =
     (case raw of
        None \<Rightarrow> Inr None
      | Some JNull \<Rightarrow> Inr None
      | Some (JObj text) \<Rightarrow>
          if str_field ''verbosity'' text = None then Inl BadTextOptions
          else (case format_field text of
             None \<Rightarrow> Inr None
           | Some f \<Rightarrow>
               if 65536 < raw_length f then Inl FormatTooLong
               else (case exact_of f of
                  JObj format \<Rightarrow> (case format_contract compile format of Inl e \<Rightarrow> Inl e | Inr c \<Rightarrow> Inr (Some c))
                | _ \<Rightarrow> Inl FormatNotObject))
      | Some _ \<Rightarrow> Inl BadTextOptions)"

definition object_instruction :: string where
  "object_instruction = ''For the final assistant answer, return a JSON object without Markdown fences or surrounding text. Tool calls may be used to complete the task before the final answer.''"

definition schema_instruction :: string where
  "schema_instruction = ''For the final assistant answer, return only a JSON value matching the following JSON Schema, without Markdown fences or surrounding text. Tool calls may be used to complete the task before the final answer. JSON Schema: ''"

definition instruction :: "(json \<Rightarrow> string) \<Rightarrow> 's outputContract option \<Rightarrow> string" where
  "instruction marshal contract =
     (case contract of
        None \<Rightarrow> []
      | Some c \<Rightarrow>
          if oc_chatFormat c = None then []
          else if oc_schema c = None then object_instruction
          else schema_instruction @ marshal (case mget (oc_format c) ''schema'' of None \<Rightarrow> JNull | Some v \<Rightarrow> v))"

datatype format_violation = OutputNotJson | OutputHasMore | OutputNotObject | OutputOutsideSchema

definition validate_output :: "('s \<Rightarrow> json \<Rightarrow> bool) \<Rightarrow> 's outputContract option \<Rightarrow> string \<Rightarrow> format_violation option" where
  "validate_output fits contract text =
     (case contract of
        None \<Rightarrow> None
      | Some c \<Rightarrow>
          if oc_chatFormat c = None then None
          else case first_value text of
            None \<Rightarrow> Some OutputNotJson
          | Some (raw, rest) \<Rightarrow>
              let v = exact_of raw
              in if list_ex (\<lambda>ch. \<not> json_space ch) rest then Some OutputHasMore
                 else if oc_jsonObject c \<and> (case v of JObj _ \<Rightarrow> False | _ \<Rightarrow> True) then Some OutputNotObject
                 else (case oc_schema c of
                   None \<Rightarrow> None | Some s \<Rightarrow> if fits s v then None else Some OutputOutsideSchema))"

subsection \<open>The request beside its answer\<close>

record 's responsesRequest =
  rq_model :: string
  rq_instructions :: string
  rq_stream :: bool
  rq_maxOutputTokens :: "int option"
  rq_temperature :: "rat option"
  rq_topP :: "rat option"
  rq_tools :: "json list option"
  rq_toolChoice :: "json option"
  rq_metadata :: "json option"
  rq_reasoning :: "obj option"
  rq_parallel :: "bool option"
  rq_promptCacheKey :: string
  rq_conversationID :: string
  rq_conversationCamel :: string
  rq_output :: "'s outputContract option"
  rq_toolPolicy :: "'s responseToolPolicy option"
  rq_tables :: tool_tables

definition echo_field :: "string \<Rightarrow> json option \<Rightarrow> obj \<Rightarrow> obj" where
  "echo_field key v ob = (case v of None \<Rightarrow> ob | Some x \<Rightarrow> mput key x ob)"

definition if_text :: "string \<Rightarrow> json option" where
  "if_text s = (if s = [] then None else Some (JStr s))"

definition applyEcho :: "'s responsesRequest \<Rightarrow> obj \<Rightarrow> obj" where
  "applyEcho req ob = fold (\<lambda>(k, v). echo_field k v)
     [(''parallel_tool_calls'', map_option JBool (rq_parallel req)),
      (''reasoning'', map_option JObj (rq_reasoning req)),
      (''text'', map_option (\<lambda>c. JObj [(''format'', JObj (oc_format c))]) (rq_output req)),
      (''prompt_cache_key'', if_text (rq_promptCacheKey req)),
      (''tools'', map_option JArr (rq_tools req)),
      (''tool_choice'', rq_toolChoice req),
      (''metadata'', rq_metadata req),
      (''instructions'', if_text (rq_instructions req)),
      (''max_output_tokens'', map_option JInt (rq_maxOutputTokens req)),
      (''temperature'', map_option JFloat (rq_temperature req)),
      (''top_p'', map_option JFloat (rq_topP req))] ob"

end
