(* ===== verification/ResponsesOut.thy ===== *)
theory ResponsesOut
  imports StructuredOutput UsageJson
begin

text \<open>
  The answer in the Responses protocol, \<open>internal/server/responses.go\<close>: \<open>responsesWriter\<close> stands
  between the chat handler and the client, reads the chat answer and writes a stream of events or
  one object.
\<close>

subsection \<open>Events\<close>

text \<open>
  What is emitted: the response as a whole, items added and done, and the parts and deltas of an
  item, each with the item's id and output index. \<open>payload\<close> is the map that is encoded.
\<close>

datatype event =
    EvCreated obj
  | EvInProgress obj
  | EvItemAdded nat obj
  | EvItemDone nat obj
  | EvPartAdded string nat nat obj
  | EvPartDone string nat nat obj
  | EvTextDelta string nat nat string
  | EvTextDone string nat nat string
  | EvRefusalDelta string nat nat string
  | EvRefusalDone string nat nat string
  | EvRsPartAdded string nat
  | EvRsPartDone string nat string
  | EvRsDelta string nat string
  | EvRsDone string nat string
  | EvArgsDelta string nat string
  | EvArgsDone string nat string
  | EvTerminal string obj

fun event_type :: "event \<Rightarrow> string" where
  "event_type (EvCreated _) = ''response.created''"
| "event_type (EvInProgress _) = ''response.in_progress''"
| "event_type (EvItemAdded _ _) = ''response.output_item.added''"
| "event_type (EvItemDone _ _) = ''response.output_item.done''"
| "event_type (EvPartAdded _ _ _ _) = ''response.content_part.added''"
| "event_type (EvPartDone _ _ _ _) = ''response.content_part.done''"
| "event_type (EvTextDelta _ _ _ _) = ''response.output_text.delta''"
| "event_type (EvTextDone _ _ _ _) = ''response.output_text.done''"
| "event_type (EvRefusalDelta _ _ _ _) = ''response.refusal.delta''"
| "event_type (EvRefusalDone _ _ _ _) = ''response.refusal.done''"
| "event_type (EvRsPartAdded _ _) = ''response.reasoning_summary_part.added''"
| "event_type (EvRsPartDone _ _ _) = ''response.reasoning_summary_part.done''"
| "event_type (EvRsDelta _ _ _) = ''response.reasoning_summary_text.delta''"
| "event_type (EvRsDone _ _ _) = ''response.reasoning_summary_text.done''"
| "event_type (EvArgsDelta _ _ _) = ''response.function_call_arguments.delta''"
| "event_type (EvArgsDone _ _ _) = ''response.function_call_arguments.done''"
| "event_type (EvTerminal status _) =
     (if status = ''failed'' then ''response.failed'' else if status = ''incomplete'' then ''response.incomplete''
      else ''response.completed'')"

definition jnat :: "nat \<Rightarrow> json" where
  "jnat n = JInt (int n)"

definition of_item :: "string \<Rightarrow> nat \<Rightarrow> obj" where
  "of_item i idx = [(''item_id'', JStr i), (''output_index'', jnat idx)]"

definition of_part :: "string \<Rightarrow> nat \<Rightarrow> nat \<Rightarrow> obj" where
  "of_part i idx c = of_item i idx @ [(''content_index'', jnat c)]"

definition of_summary :: "string \<Rightarrow> nat \<Rightarrow> obj" where
  "of_summary i idx = of_item i idx @ [(''summary_index'', jnat 0)]"

definition summary_part :: "string \<Rightarrow> json" where
  "summary_part t = JObj [(''type'', JStr ''summary_text''), (''text'', JStr t)]"

fun payload :: "event \<Rightarrow> obj" where
  "payload (EvCreated r) = [(''response'', JObj r)]"
| "payload (EvInProgress r) = [(''response'', JObj r)]"
| "payload (EvItemAdded idx item) = [(''output_index'', jnat idx), (''item'', JObj item)]"
| "payload (EvItemDone idx item) = [(''output_index'', jnat idx), (''item'', JObj item)]"
| "payload (EvPartAdded i idx c part) = of_part i idx c @ [(''part'', JObj part)]"
| "payload (EvPartDone i idx c part) = of_part i idx c @ [(''part'', JObj part)]"
| "payload (EvTextDelta i idx c s) = of_part i idx c @ [(''delta'', JStr s)]"
| "payload (EvTextDone i idx c s) = of_part i idx c @ [(''text'', JStr s)]"
| "payload (EvRefusalDelta i idx c s) = of_part i idx c @ [(''delta'', JStr s)]"
| "payload (EvRefusalDone i idx c s) = of_part i idx c @ [(''refusal'', JStr s)]"
| "payload (EvRsPartAdded i idx) = of_summary i idx @ [(''part'', summary_part [])]"
| "payload (EvRsPartDone i idx t) = of_summary i idx @ [(''part'', summary_part t)]"
| "payload (EvRsDelta i idx s) = of_summary i idx @ [(''delta'', JStr s)]"
| "payload (EvRsDone i idx t) = of_summary i idx @ [(''text'', JStr t)]"
| "payload (EvArgsDelta i idx s) = of_item i idx @ [(''delta'', JStr s)]"
| "payload (EvArgsDone i idx s) = of_item i idx @ [(''arguments'', JStr s)]"
| "payload (EvTerminal _ r) = [(''response'', JObj r)]"

definition event_frame :: "(obj \<Rightarrow> string) \<Rightarrow> nat \<times> event \<Rightarrow> string" where
  "event_frame marshal e =
     ''event: '' @ event_type (snd e) @ [CHR 0x0A] @ ''data: ''
     @ marshal (mput ''sequence_number'' (jnat (fst e)) (mput ''type'' (JStr (event_type (snd e))) (payload (snd e))))
     @ [CHR 0x0A, CHR 0x0A]"

subsection \<open>State\<close>

record respToolCall =
  ca_outIdx :: nat
  ca_id :: string
  ca_callID :: string
  ca_name :: string
  ca_args :: string
  ca_sentArgs :: nat
  ca_argumentsSeen :: bool
  ca_opened :: bool
  ca_custom :: bool

definition new_call :: "nat \<Rightarrow> respToolCall" where
  "new_call idx = \<lparr>ca_outIdx = idx, ca_id = [], ca_callID = [], ca_name = [], ca_args = [], ca_sentArgs = 0,
     ca_argumentsSeen = False, ca_opened = False, ca_custom = False\<rparr>"

text \<open>Where the answer goes: a stream, one object, or (\<open>Passing\<close>) through unchanged.\<close>

datatype out_mode = Streaming | OneObject | Passing

datatype reply = PassedOn int string string | Answer obj | Refused string string

text \<open>
  Everything emitted is kept; the first \<open>rw_sent\<close> events were written, and after a failed write
  (\<open>rw_writeErr\<close>) nothing is.
\<close>

record responsesWriter =
  rw_ctype :: string
  rw_status :: int
  rw_mode :: out_mode
  rw_buf :: string
  rw_begun :: bool
  rw_closed :: bool
  rw_respID :: string
  rw_msgID :: string
  rw_rsID :: string
  rw_modelName :: string
  rw_created :: int
  rw_seq :: nat
  rw_nextIdx :: nat
  rw_rsOutIdx :: nat
  rw_msgOutIdx :: nat
  rw_text :: string
  rw_refusal :: string
  rw_messageParts :: "string list"
  rw_legacyCallID :: string
  rw_reason :: string
  rw_calls :: "(int, respToolCall) gomap"
  rw_order :: "int list"
  rw_usage :: "obj option"
  rw_finishReason :: string
  rw_msgOpen :: bool
  rw_rsOpen :: bool
  rw_rsPart :: bool
  rw_streamErr :: "obj option"
  rw_writeErr :: bool
  rw_terminalStatus :: string
  rw_sawDone :: bool
  rw_drawn :: nat
  rw_events :: "(nat \<times> event) list"
  rw_sent :: nat
  rw_reply :: "reply option"

text \<open>
  The request, the schema library, the random ids, the clock, the client's connection (\<open>en_ok n\<close>:
  the write after \<open>n\<close> successful ones succeeds), and \<open>strconv.Quote\<close> for the texts of errors.
\<close>

record 's surroundings =
  en_req :: "'s responsesRequest"
  en_fits :: "'s \<Rightarrow> json \<Rightarrow> bool"
  en_ids :: "nat \<Rightarrow> string"
  en_clock :: int
  en_ok :: "nat \<Rightarrow> bool"
  en_quote :: "string \<Rightarrow> string"

definition newResponsesWriter :: "'s responsesRequest \<Rightarrow> responsesWriter" where
  "newResponsesWriter req =
     \<lparr>rw_ctype = [], rw_status = 200, rw_mode = (if rq_stream req then Streaming else OneObject), rw_buf = [], rw_begun = False,
      rw_closed = False, rw_respID = [], rw_msgID = [], rw_rsID = [], rw_modelName = [], rw_created = 0, rw_seq = 0,
      rw_nextIdx = 0, rw_rsOutIdx = 0, rw_msgOutIdx = 0, rw_text = [], rw_refusal = [], rw_messageParts = [],
      rw_legacyCallID = [], rw_reason = [], rw_calls = [], rw_order = [], rw_usage = None, rw_finishReason = [],
      rw_msgOpen = False, rw_rsOpen = False, rw_rsPart = False, rw_streamErr = None, rw_writeErr = False,
      rw_terminalStatus = [], rw_sawDone = False, rw_drawn = 0, rw_events = [], rw_sent = 0, rw_reply = None\<rparr>"

definition newRespID :: "'s surroundings \<Rightarrow> string \<Rightarrow> nat \<Rightarrow> string" where
  "newRespID e prefix n = prefix @ en_ids e n"

definition emit_event :: "'s surroundings \<Rightarrow> event \<Rightarrow> responsesWriter \<Rightarrow> responsesWriter" where
  "emit_event e ev rw =
     (let ok = (\<not> rw_writeErr rw \<and> en_ok e (rw_sent rw))
      in rw\<lparr>rw_seq := rw_seq rw + 1, rw_events := rw_events rw @ [(rw_seq rw, ev)],
            rw_sent := (if ok then rw_sent rw + 1 else rw_sent rw), rw_writeErr := \<not> ok\<rparr>)"

text \<open>What reached the client.\<close>

definition received :: "responsesWriter \<Rightarrow> (nat \<times> event) list" where
  "received rw = take (rw_sent rw) (rw_events rw)"

subsection \<open>Objects\<close>

definition customInputFromArgs :: "(json \<Rightarrow> string) \<Rightarrow> string \<Rightarrow> string" where
  "customInputFromArgs marshal args =
     (let trimmed = trim_space args
      in if trimmed = [] then []
         else case map_option exact_of (parse_json trimmed) of
           Some (JObj m) \<Rightarrow>
             (case mget m ''input'' of
                None \<Rightarrow> args
              | Some JNull \<Rightarrow> args
              | Some (JStr s) \<Rightarrow> s
              | Some v \<Rightarrow> marshal v)
         | _ \<Rightarrow> args)"

definition itemStatus :: "responsesWriter \<Rightarrow> string" where
  "itemStatus rw = (if rw_terminalStatus rw = ''failed'' \<or> rw_terminalStatus rw = ''incomplete'' then ''incomplete'' else ''completed'')"

definition reasoningItem :: "responsesWriter \<Rightarrow> string \<Rightarrow> obj" where
  "reasoningItem rw status =
     [(''id'', JStr (rw_rsID rw)), (''type'', JStr ''reasoning''),
      (''summary'', JArr (if rw_reason rw = [] then [] else [summary_part (rw_reason rw)])), (''status'', JStr status)]"

definition text_part :: "string \<Rightarrow> obj" where
  "text_part t = [(''type'', JStr ''output_text''), (''text'', JStr t), (''annotations'', JArr [])]"

definition refusal_part :: "string \<Rightarrow> obj" where
  "refusal_part t = [(''type'', JStr ''refusal''), (''refusal'', JStr t)]"

definition message_part :: "responsesWriter \<Rightarrow> string \<Rightarrow> obj" where
  "message_part rw kind = (if kind = ''refusal'' then refusal_part (rw_refusal rw) else text_part (rw_text rw))"

definition messageContent :: "responsesWriter \<Rightarrow> obj list" where
  "messageContent rw = map (message_part rw) (rw_messageParts rw)"

definition messageItem :: "responsesWriter \<Rightarrow> string \<Rightarrow> obj" where
  "messageItem rw status =
     [(''id'', JStr (rw_msgID rw)), (''type'', JStr ''message''), (''status'', JStr status), (''role'', JStr ''assistant''),
      (''content'', JArr (if status = ''in_progress'' then [] else map JObj (messageContent rw)))]"

text \<open>A call under the name the client declared; \<open>marshal\<close> only serves an input that is no string.\<close>

definition call_object :: "(json \<Rightarrow> string) \<Rightarrow> tool_tables \<Rightarrow> string \<Rightarrow> string \<Rightarrow> string \<Rightarrow> string \<Rightarrow> string \<Rightarrow> obj" where
  "call_object marshal tables i status callID upstream args =
     (case responsesToolName tables upstream of
        (name, namespace, custom) \<Rightarrow>
          [(''id'', JStr i), (''type'', JStr (if custom then ''custom_tool_call'' else ''function_call'')), (''status'', JStr status),
           (''call_id'', JStr callID), (''name'', JStr name),
           (if custom then (''input'', JStr (if status = ''in_progress'' then [] else customInputFromArgs marshal args))
            else (''arguments'', JStr (if status = ''in_progress'' then [] else args)))]
          @ (if namespace = [] then [] else [(''namespace'', JStr namespace)]))"

definition callItem :: "(json \<Rightarrow> string) \<Rightarrow> 's surroundings \<Rightarrow> respToolCall \<Rightarrow> string \<Rightarrow> obj" where
  "callItem marshal e call status =
     call_object marshal (rq_tables (en_req e)) (ca_id call) status (ca_callID call) (ca_name call) (ca_args call)"

definition the_call :: "responsesWriter \<Rightarrow> int \<Rightarrow> respToolCall" where
  "the_call rw index = (case mget (rw_calls rw) index of Some c \<Rightarrow> c | None \<Rightarrow> new_call 0)"

definition set_call :: "int \<Rightarrow> respToolCall \<Rightarrow> responsesWriter \<Rightarrow> responsesWriter" where
  "set_call index call rw = rw\<lparr>rw_calls := mput index call (rw_calls rw)\<rparr>"

text \<open>The items of the response in the order of their index.\<close>

definition indexed_items :: "(json \<Rightarrow> string) \<Rightarrow> 's surroundings \<Rightarrow> responsesWriter \<Rightarrow> (nat \<times> obj) list" where
  "indexed_items marshal e rw =
     (if rw_rsOpen rw \<or> rw_reason rw \<noteq> [] then [(rw_rsOutIdx rw, reasoningItem rw (itemStatus rw))] else [])
     @ (if rw_msgOpen rw \<or> rw_text rw \<noteq> [] \<or> rw_refusal rw \<noteq> [] then [(rw_msgOutIdx rw, messageItem rw (itemStatus rw))] else [])
     @ map (\<lambda>index. (ca_outIdx (the_call rw index), callItem marshal e (the_call rw index) (itemStatus rw)))
         (filter (\<lambda>index. ca_id (the_call rw index) \<noteq> []) (rw_order rw))"

definition outputItems :: "(json \<Rightarrow> string) \<Rightarrow> 's surroundings \<Rightarrow> responsesWriter \<Rightarrow> obj list" where
  "outputItems marshal e rw = map snd (sort_key fst (indexed_items marshal e rw))"

definition intOf :: "json option \<Rightarrow> int" where
  "intOf v = (case v of Some (JFloat x) \<Rightarrow> trunc64 x | Some (JInt n) \<Rightarrow> n | _ \<Rightarrow> 0)"

definition usage_counts :: "int \<Rightarrow> int \<Rightarrow> int \<Rightarrow> int \<Rightarrow> int \<Rightarrow> obj" where
  "usage_counts inp out whole cached thought =
     [(''input_tokens'', JInt inp), (''output_tokens'', JInt out), (''total_tokens'', JInt whole),
      (''input_tokens_details'', JObj [(''cached_tokens'', JInt cached)]),
      (''output_tokens_details'', JObj [(''reasoning_tokens'', JInt thought)])]"

definition usage_of :: "obj \<Rightarrow> obj" where
  "usage_of u =
     (let inp = intOf (mget u ''prompt_tokens''); out = intOf (mget u ''completion_tokens'');
          whole = intOf (mget u ''total_tokens'');
          cached = (case CachedInputTokens u of None \<Rightarrow> 0 | Some n \<Rightarrow> n);
          thought0 = intOf (mget u ''completion_thinking_tokens'');
          thought = (if thought0 = 0
                    then (case mget u ''completion_tokens_details'' of
                            Some (JObj d) \<Rightarrow> intOf (mget d ''reasoning_tokens'') | _ \<Rightarrow> 0)
                    else thought0)
      in usage_counts inp out (if whole = 0 then wrap64 (inp + out) else whole) cached thought)"

definition usageObject :: "obj option \<Rightarrow> obj" where
  "usageObject u = (case u of None \<Rightarrow> usage_counts 0 0 0 0 0 | Some u \<Rightarrow> usage_of u)"

definition resolvedModel :: "'s surroundings \<Rightarrow> responsesWriter \<Rightarrow> string" where
  "resolvedModel e rw =
     (if rw_modelName rw \<noteq> [] then rw_modelName rw
      else if rq_model (en_req e) \<noteq> [] then rq_model (en_req e) else ''unknown'')"

definition response_fields :: "string \<Rightarrow> int \<Rightarrow> string \<Rightarrow> string \<Rightarrow> obj list \<Rightarrow> json \<Rightarrow> json \<Rightarrow> obj \<Rightarrow> obj" where
  "response_fields i ctime status model items err why usage =
     [(''id'', JStr i), (''object'', JStr ''response''), (''created_at'', JInt ctime), (''status'', JStr status),
      (''model'', JStr model), (''output'', JArr (map JObj items)), (''parallel_tool_calls'', JBool True),
      (''tool_choice'', JStr ''auto''), (''tools'', JArr []), (''error'', err), (''incomplete_details'', why),
      (''instructions'', JNull), (''max_output_tokens'', JNull), (''metadata'', JObj []), (''previous_response_id'', JNull),
      (''reasoning'', JNull), (''store'', JBool False), (''temperature'', JNull),
      (''text'', JObj [(''format'', JObj [(''type'', JStr ''text'')])]), (''top_p'', JNull), (''truncation'', JStr ''disabled''),
      (''user'', JNull), (''usage'', JObj usage)]"

definition or_null :: "json option \<Rightarrow> json" where
  "or_null v = (case v of None \<Rightarrow> JNull | Some x \<Rightarrow> x)"

definition responseObject :: "(json \<Rightarrow> string) \<Rightarrow> 's surroundings \<Rightarrow> responsesWriter \<Rightarrow> string \<Rightarrow> obj" where
  "responseObject marshal e rw status =
     (let err = (case rw_streamErr rw of
            Some m \<Rightarrow> if status = ''failed''
                     then JObj [(''code'', or_null (mget m ''code'')), (''message'', or_null (mget m ''message''))] else JNull
          | None \<Rightarrow> JNull);
          why = (if status = ''incomplete''
            then JObj [(''reason'', JStr (if rw_finishReason rw = ''content_filter'' then ''content_filter'' else ''max_output_tokens''))]
            else JNull)
      in applyEcho (en_req e)
           (response_fields (rw_respID rw) (rw_created rw) status (resolvedModel e rw) (outputItems marshal e rw) err why
              (usageObject (rw_usage rw))))"

subsection \<open>Reading deltas\<close>

definition beginStream :: "(json \<Rightarrow> string) \<Rightarrow> 's surroundings \<Rightarrow> responsesWriter \<Rightarrow> responsesWriter" where
  "beginStream marshal e rw =
     (let n = rw_drawn rw;
          rw1 = rw\<lparr>rw_begun := True, rw_created := en_clock e, rw_respID := newRespID e ''resp_'' n,
                   rw_msgID := newRespID e ''msg_'' (n + 1), rw_rsID := newRespID e ''rs_'' (n + 2), rw_drawn := n + 3\<rparr>;
          rw2 = emit_event e (EvCreated (responseObject marshal e rw1 ''in_progress'')) rw1
      in emit_event e (EvInProgress (responseObject marshal e rw2 ''in_progress'')) rw2)"

definition openReasoning :: "'s surroundings \<Rightarrow> responsesWriter \<Rightarrow> responsesWriter" where
  "openReasoning e rw =
     (if rw_rsOpen rw then rw
      else let r = rw\<lparr>rw_rsOutIdx := rw_nextIdx rw, rw_nextIdx := rw_nextIdx rw + 1\<rparr>
           in (emit_event e (EvItemAdded (rw_rsOutIdx r) (reasoningItem r ''in_progress'')) r)\<lparr>rw_rsOpen := True\<rparr>)"

definition openSummary :: "'s surroundings \<Rightarrow> responsesWriter \<Rightarrow> responsesWriter" where
  "openSummary e rw =
     (if rw_rsPart rw then rw
      else (emit_event e (EvRsPartAdded (rw_rsID rw) (rw_rsOutIdx rw)) rw)\<lparr>rw_rsPart := True\<rparr>)"

definition reasoningDelta :: "'s surroundings \<Rightarrow> string \<Rightarrow> responsesWriter \<Rightarrow> responsesWriter" where
  "reasoningDelta e s rw =
     (let rw1 = openSummary e (openReasoning e rw); rw2 = rw1\<lparr>rw_reason := rw_reason rw1 @ s\<rparr>
      in emit_event e (EvRsDelta (rw_rsID rw2) (rw_rsOutIdx rw2) s) rw2)"

definition openMessage :: "'s surroundings \<Rightarrow> responsesWriter \<Rightarrow> responsesWriter" where
  "openMessage e rw =
     (if rw_msgOpen rw then rw
      else let r = rw\<lparr>rw_msgOutIdx := rw_nextIdx rw, rw_nextIdx := rw_nextIdx rw + 1\<rparr>
           in (emit_event e (EvItemAdded (rw_msgOutIdx r) (messageItem r ''in_progress'')) r)\<lparr>rw_msgOpen := True\<rparr>)"

fun position_of :: "string \<Rightarrow> string list \<Rightarrow> nat option" where
  "position_of k [] = None"
| "position_of k (x # xs) = (if x = k then Some 0 else map_option Suc (position_of k xs))"

definition ensureMessagePart :: "'s surroundings \<Rightarrow> string \<Rightarrow> responsesWriter \<Rightarrow> responsesWriter \<times> nat" where
  "ensureMessagePart e kind rw =
     (let rw1 = openMessage e rw
      in case position_of kind (rw_messageParts rw1) of
           Some i \<Rightarrow> (rw1, i)
         | None \<Rightarrow>
             let i = length (rw_messageParts rw1);
                 rw2 = rw1\<lparr>rw_messageParts := rw_messageParts rw1 @ [kind]\<rparr>
             in (emit_event e (EvPartAdded (rw_msgID rw2) (rw_msgOutIdx rw2) i
                   (if kind = ''output_text'' then text_part [] else refusal_part [])) rw2, i))"

definition textDelta :: "'s surroundings \<Rightarrow> string \<Rightarrow> responsesWriter \<Rightarrow> responsesWriter" where
  "textDelta e s rw =
     (case ensureMessagePart e ''output_text'' rw of
        (rw1, i) \<Rightarrow>
          let rw2 = rw1\<lparr>rw_text := rw_text rw1 @ s\<rparr> in emit_event e (EvTextDelta (rw_msgID rw2) (rw_msgOutIdx rw2) i s) rw2)"

definition refusalDelta :: "'s surroundings \<Rightarrow> string \<Rightarrow> responsesWriter \<Rightarrow> responsesWriter" where
  "refusalDelta e s rw =
     (case ensureMessagePart e ''refusal'' rw of
        (rw1, i) \<Rightarrow>
          let rw2 = rw1\<lparr>rw_refusal := rw_refusal rw1 @ s\<rparr> in emit_event e (EvRefusalDelta (rw_msgID rw2) (rw_msgOutIdx rw2) i s) rw2)"

definition failOutput :: "string \<Rightarrow> string \<Rightarrow> responsesWriter \<Rightarrow> responsesWriter" where
  "failOutput code message rw =
     (if rw_streamErr rw = None
      then rw\<lparr>rw_streamErr := Some [(''code'', JStr code), (''message'', JStr message)]\<rparr> else rw)"

definition openCall :: "(json \<Rightarrow> string) \<Rightarrow> 's surroundings \<Rightarrow> int \<Rightarrow> responsesWriter \<Rightarrow> responsesWriter" where
  "openCall marshal e index rw =
     (let call = the_call rw index
      in if ca_opened call \<or> ca_name call = [] \<or> ca_callID call = [] then rw
         else let call' = call\<lparr>ca_opened := True,
                    ca_id := newRespID e (if ca_custom call then ''ctc_'' else ''fc_'') (rw_drawn rw)\<rparr>;
                  rw1 = (set_call index call' rw)\<lparr>rw_drawn := rw_drawn rw + 1\<rparr>
              in emit_event e (EvItemAdded (ca_outIdx call') (callItem marshal e call' ''in_progress'')) rw1)"

definition sendArguments :: "'s surroundings \<Rightarrow> int \<Rightarrow> responsesWriter \<Rightarrow> responsesWriter" where
  "sendArguments e index rw =
     (let call = the_call rw index
      in if ca_custom call then rw
         else if ca_sentArgs call < length (ca_args call)
         then set_call index (call\<lparr>ca_sentArgs := length (ca_args call)\<rparr>)
                (emit_event e (EvArgsDelta (ca_id call) (ca_outIdx call) (drop (ca_sentArgs call) (ca_args call))) rw)
         else rw)"

fun flush_calls :: "(json \<Rightarrow> string) \<Rightarrow> 's surroundings \<Rightarrow> int list \<Rightarrow> responsesWriter \<Rightarrow> responsesWriter" where
  "flush_calls marshal e [] rw = rw"
| "flush_calls marshal e (index # rest) rw =
     (let call = the_call rw index
      in if \<not> ca_opened call \<and> (ca_name call = [] \<or> ca_callID call = []) then rw
         else flush_calls marshal e rest (sendArguments e index (openCall marshal e index rw)))"

definition flushReadyCalls :: "(json \<Rightarrow> string) \<Rightarrow> 's surroundings \<Rightarrow> responsesWriter \<Rightarrow> responsesWriter" where
  "flushReadyCalls marshal e rw = (if rw_streamErr rw \<noteq> None then rw else flush_calls marshal e (rw_order rw) rw)"

text \<open>One entry of \<open>tool_calls\<close>; \<open>Inl\<close> ends the reading of the others.\<close>

definition register_call :: "int \<Rightarrow> responsesWriter \<Rightarrow> responsesWriter" where
  "register_call index rw =
     (if mget (rw_calls rw) index \<noteq> None then rw
      else (set_call index (new_call (rw_nextIdx rw)) rw)\<lparr>rw_nextIdx := rw_nextIdx rw + 1, rw_order := rw_order rw @ [index]\<rparr>)"

definition delta_id :: "obj \<Rightarrow> int \<Rightarrow> responsesWriter \<Rightarrow> responsesWriter + responsesWriter" where
  "delta_id tm index rw =
     (let call = the_call rw index; value = get_str tm ''id''
      in if value = [] then Inr rw
         else if ca_callID call \<noteq> [] \<and> ca_callID call \<noteq> value
         then Inl (failOutput ''upstream_parse'' ''upstream changed a streamed tool call identity'' rw)
         else Inr (set_call index (call\<lparr>ca_callID := value\<rparr>) rw))"

definition delta_name :: "'s surroundings \<Rightarrow> obj \<Rightarrow> int \<Rightarrow> responsesWriter \<Rightarrow> responsesWriter + responsesWriter" where
  "delta_name e fn index rw =
     (let call = the_call rw index; value = get_str fn ''name''
      in if value = [] then Inr rw
         else if ca_name call \<noteq> [] \<and> ca_name call \<noteq> value
         then Inl (failOutput ''upstream_parse'' ''upstream changed a streamed tool name'' rw)
         else Inr (set_call index (call\<lparr>ca_name := value, ca_custom := value \<in> set (tt_custom (rq_tables (en_req e)))\<rparr>) rw))"

definition delta_arguments :: "obj \<Rightarrow> int \<Rightarrow> responsesWriter \<Rightarrow> responsesWriter + responsesWriter" where
  "delta_arguments fn index rw =
     (case mget fn ''arguments'' of
        None \<Rightarrow> Inr rw
      | Some (JStr args) \<Rightarrow>
          let call = the_call rw index
          in Inr (set_call index (call\<lparr>ca_argumentsSeen := True, ca_args := ca_args call @ args\<rparr>) rw)
      | Some _ \<Rightarrow> Inl (failOutput ''invalid_tool_arguments'' ''upstream tool arguments must be a JSON string'' rw))"

definition toolCallEntry :: "'s surroundings \<Rightarrow> json \<Rightarrow> responsesWriter \<Rightarrow> responsesWriter + responsesWriter" where
  "toolCallEntry e item rw =
     (case item of
        JObj tm \<Rightarrow>
          let index = get_index 0 tm
          in andthen (delta_id tm index (register_call index rw)) (\<lambda>rw1.
               case mget tm ''function'' of
                 Some (JObj fn) \<Rightarrow> andthen (delta_name e fn index rw1) (delta_arguments fn index)
               | _ \<Rightarrow> Inr rw1)
      | _ \<Rightarrow> Inl (failOutput ''upstream_parse'' ''upstream contained an invalid tool call'' rw))"

fun toolCallEntries :: "(json \<Rightarrow> string) \<Rightarrow> 's surroundings \<Rightarrow> json list \<Rightarrow> responsesWriter \<Rightarrow> responsesWriter" where
  "toolCallEntries marshal e [] rw = flushReadyCalls marshal e rw"
| "toolCallEntries marshal e (item # items) rw =
     (case toolCallEntry e item rw of Inl rw' \<Rightarrow> rw' | Inr rw' \<Rightarrow> toolCallEntries marshal e items rw')"

definition toolCallDelta :: "(json \<Rightarrow> string) \<Rightarrow> 's surroundings \<Rightarrow> json list \<Rightarrow> responsesWriter \<Rightarrow> responsesWriter" where
  "toolCallDelta marshal e tcs rw = (if rw_streamErr rw \<noteq> None then rw else toolCallEntries marshal e tcs rw)"

definition legacyFunctionDelta :: "(json \<Rightarrow> string) \<Rightarrow> 's surroundings \<Rightarrow> obj \<Rightarrow> responsesWriter \<Rightarrow> responsesWriter" where
  "legacyFunctionDelta marshal e fn rw =
     (let call = (\<lambda>rw. toolCallDelta marshal e
            [JObj [(''index'', JFloat (- 1)), (''id'', JStr (rw_legacyCallID rw)), (''type'', JStr ''function''), (''function'', JObj fn)]] rw)
      in if rw_legacyCallID rw \<noteq> [] then call rw
         else if get_str fn ''name'' = [] \<and> get_str fn ''arguments'' = []
              \<and> (mget fn ''arguments'' = None \<or> mget fn ''arguments'' = Some (JStr [])) then rw
         else if rw_order rw \<noteq> [] then failOutput ''upstream_parse'' ''upstream mixed legacy and modern tool calls'' rw
         else call (rw\<lparr>rw_legacyCallID := newRespID e ''call_'' (rw_drawn rw), rw_drawn := rw_drawn rw + 1\<rparr>))"

subsection \<open>Closing\<close>

definition closeSummary :: "'s surroundings \<Rightarrow> responsesWriter \<Rightarrow> responsesWriter" where
  "closeSummary e rw =
     (if \<not> rw_rsPart rw then rw
      else (emit_event e (EvRsPartDone (rw_rsID rw) (rw_rsOutIdx rw) (rw_reason rw))
             (emit_event e (EvRsDone (rw_rsID rw) (rw_rsOutIdx rw) (rw_reason rw)) rw))\<lparr>rw_rsPart := False\<rparr>)"

definition closeReasoning :: "'s surroundings \<Rightarrow> responsesWriter \<Rightarrow> responsesWriter" where
  "closeReasoning e rw =
     (if \<not> rw_rsOpen rw then rw
      else let rw1 = closeSummary e rw
           in (emit_event e (EvItemDone (rw_rsOutIdx rw1) (reasoningItem rw1 (itemStatus rw1))) rw1)\<lparr>rw_rsOpen := False\<rparr>)"

fun close_parts :: "'s surroundings \<Rightarrow> nat \<Rightarrow> string list \<Rightarrow> responsesWriter \<Rightarrow> responsesWriter" where
  "close_parts e i [] rw = rw"
| "close_parts e i (kind # kinds) rw =
     (let part_done = (if kind = ''refusal'' then EvRefusalDone (rw_msgID rw) (rw_msgOutIdx rw) i (rw_refusal rw)
            else EvTextDone (rw_msgID rw) (rw_msgOutIdx rw) i (rw_text rw));
          rw1 = emit_event e part_done rw
      in close_parts e (i + 1) kinds (emit_event e (EvPartDone (rw_msgID rw) (rw_msgOutIdx rw) i (message_part rw kind)) rw1))"

definition closeMessage :: "'s surroundings \<Rightarrow> responsesWriter \<Rightarrow> responsesWriter" where
  "closeMessage e rw =
     (if \<not> rw_msgOpen rw then rw
      else let rw1 = close_parts e 0 (rw_messageParts rw) rw
           in (emit_event e (EvItemDone (rw_msgOutIdx rw1) (messageItem rw1 (itemStatus rw1))) rw1)\<lparr>rw_msgOpen := False\<rparr>)"

definition closeCall :: "(json \<Rightarrow> string) \<Rightarrow> 's surroundings \<Rightarrow> int \<Rightarrow> responsesWriter \<Rightarrow> responsesWriter" where
  "closeCall marshal e index rw =
     (let call = the_call rw index; shut = set_call index (call\<lparr>ca_opened := False\<rparr>)
      in if \<not> ca_opened call then rw
         else if itemStatus rw \<noteq> ''completed'' then shut rw
         else let rw1 = (if ca_custom call then rw else emit_event e (EvArgsDone (ca_id call) (ca_outIdx call) (ca_args call)) rw)
              in shut (emit_event e (EvItemDone (ca_outIdx call) (callItem marshal e call (itemStatus rw))) rw1))"

definition closeCalls :: "(json \<Rightarrow> string) \<Rightarrow> 's surroundings \<Rightarrow> responsesWriter \<Rightarrow> responsesWriter" where
  "closeCalls marshal e rw = fold (closeCall marshal e) (rw_order rw) (closeMessage e (closeReasoning e rw))"

subsection \<open>Judging the answer\<close>

datatype call_error = CallWithoutName | ArgumentsNotString | ArgumentsIncomplete

definition validateResponseToolCall :: "string \<Rightarrow> string \<Rightarrow> bool \<Rightarrow> call_error option" where
  "validateResponseToolCall name args argumentsSeen =
     (if trim_space name = [] then Some CallWithoutName
      else if \<not> argumentsSeen then Some ArgumentsNotString
      else if trim_space args \<noteq> [] \<and> \<not> json_valid args then Some ArgumentsIncomplete
      else None)"

fun call_error_text :: "call_error \<Rightarrow> string" where
  "call_error_text CallWithoutName = ''upstream ended with a tool call without a name''"
| "call_error_text ArgumentsNotString = ''upstream tool arguments must be a JSON string''"
| "call_error_text ArgumentsIncomplete = ''upstream ended with incomplete or invalid tool arguments''"

fun violation_text :: "(string \<Rightarrow> string) \<Rightarrow> policy_violation \<Rightarrow> string" where
  "violation_text quote CallDespiteNone = ''model returned a tool call despite tool_choice=none''"
| "violation_text quote NoRequiredCall = ''model returned no tool call despite a required tool choice''"
| "violation_text quote NotExactlyOne = ''model must return exactly one call for a named tool choice''"
| "violation_text quote (OutsideChoice n) = ''model called tool '' @ quote n @ '' outside tool_choice''"
| "violation_text quote (ArgumentsNotJson n) = ''model returned invalid JSON arguments for strict tool '' @ quote n"
| "violation_text quote (ArgumentsOutsideSchema n) = ''model arguments do not match strict tool '' @ quote n @ '' schema''"

fun format_text :: "format_violation \<Rightarrow> string" where
  "format_text OutputNotJson = ''model output is not valid JSON''"
| "format_text OutputHasMore = ''model output contains content after the JSON value''"
| "format_text OutputNotObject = ''model output must be a JSON object''"
| "format_text OutputOutsideSchema = ''model output does not match the requested JSON schema''"

definition call_errors :: "responsesWriter \<Rightarrow> call_error list" where
  "call_errors rw = List.map_filter (\<lambda>index. let c = the_call rw index
     in validateResponseToolCall (ca_name c) (ca_args c) (ca_argumentsSeen c)) (rw_order rw)"

definition invocations :: "responsesWriter \<Rightarrow> responseToolInvocation list" where
  "invocations rw = map (\<lambda>index. let c = the_call rw index in \<lparr>iv_name = ca_name c, iv_arguments = ca_args c\<rparr>) (rw_order rw)"

text \<open>An error that was found, unless there is one already.\<close>

definition fail_with :: "string \<Rightarrow> string option \<Rightarrow> responsesWriter \<Rightarrow> responsesWriter" where
  "fail_with code text rw = (case text of None \<Rightarrow> rw | Some t \<Rightarrow> failOutput code t rw)"

definition fail_if :: "bool \<Rightarrow> string \<Rightarrow> string \<Rightarrow> responsesWriter \<Rightarrow> responsesWriter" where
  "fail_if b code message rw = fail_with code (if b then Some message else None) rw"

fun name_calls :: "'s surroundings \<Rightarrow> int list \<Rightarrow> responsesWriter \<Rightarrow> responsesWriter" where
  "name_calls e [] rw = rw"
| "name_calls e (index # rest) rw =
     (let call = the_call rw index
      in name_calls e rest
           (if ca_callID call = []
            then (set_call index (call\<lparr>ca_callID := newRespID e ''call_'' (rw_drawn rw)\<rparr>) rw)\<lparr>rw_drawn := rw_drawn rw + 1\<rparr>
            else rw))"

definition finishing_normally :: "responsesWriter \<Rightarrow> bool" where
  "finishing_normally rw \<longleftrightarrow> rw_finishReason rw \<noteq> ''length'' \<and> rw_finishReason rw \<noteq> ''content_filter''"

text \<open>The checks of a normally finished answer, the first violation counts.\<close>

definition check_contract :: "'s surroundings \<Rightarrow> responsesWriter \<Rightarrow> responsesWriter" where
  "check_contract e rw =
     (let rw1 = fail_if (rq_parallel (en_req e) = Some False \<and> 1 < length (rw_order rw)) ''parallel_tool_calls_violation''
            ''model returned parallel tool calls despite parallel_tool_calls=false'' rw;
          rw2 = fail_with ''invalid_tool_call'' (case call_errors rw1 of [] \<Rightarrow> None | p # _ \<Rightarrow> Some (call_error_text p)) rw1;
          rw3 = fail_with ''tool_contract_violation'' (map_option (violation_text (en_quote e))
            (validate_policy (en_fits e) (rq_toolPolicy (en_req e)) (invocations rw2) (rw_refusal rw2 \<noteq> []))) rw2
      in fail_with ''response_format_violation'' (if rw_order rw3 = [] \<and> rw_refusal rw3 = []
            then map_option format_text (validate_output (en_fits e) (rq_output (en_req e)) (rw_text rw3)) else None) rw3)"

definition CompletionError :: "(json \<Rightarrow> string) \<Rightarrow> 's surroundings \<Rightarrow> responsesWriter \<Rightarrow> responsesWriter" where
  "CompletionError marshal e rw =
     (if rw_writeErr rw then rw
      else let rw1 = fail_if (\<not> rw_sawDone rw \<and> rw_finishReason rw = []) ''upstream_truncated''
                  ''upstream stream ended without a completion marker'' rw;
               rw2 = fail_if ((rw_finishReason rw1 = ''tool_calls'' \<or> rw_finishReason rw1 = ''function_call'') \<and> rw_order rw1 = [])
                  ''missing_tool_call'' ''upstream ended with a tool finish reason but no tool call'' rw1
           in if rw_streamErr rw2 \<noteq> None \<or> \<not> finishing_normally rw2 then rw2
              else let rw3 = check_contract e rw2
                   in if rw_streamErr rw3 \<noteq> None then rw3 else flushReadyCalls marshal e (name_calls e (rw_order rw3) rw3))"

text \<open>Whether \<open>CompletionError\<close> returned an error.\<close>

definition completion_failed :: "responsesWriter \<Rightarrow> bool" where
  "completion_failed rw \<longleftrightarrow> rw_writeErr rw \<or> rw_streamErr rw \<noteq> None"

definition final_status :: "responsesWriter \<Rightarrow> string" where
  "final_status rw =
     (if rw_streamErr rw \<noteq> None then ''failed''
      else if rw_finishReason rw = ''length'' \<or> rw_finishReason rw = ''content_filter'' then ''incomplete'' else ''completed'')"

definition finishStream :: "(json \<Rightarrow> string) \<Rightarrow> 's surroundings \<Rightarrow> responsesWriter \<Rightarrow> responsesWriter" where
  "finishStream marshal e rw =
     (let rw1 = CompletionError marshal e rw; status = final_status rw1;
          rw2 = closeCalls marshal e (rw1\<lparr>rw_terminalStatus := status\<rparr>)
      in emit_event e (EvTerminal status (responseObject marshal e rw2 status)) rw2)"

subsection \<open>Reading the chat stream\<close>

text \<open>One choice; the flag says that the rest of the chunk is not read.\<close>

definition choice_tools :: "(json \<Rightarrow> string) \<Rightarrow> 's surroundings \<Rightarrow> obj \<Rightarrow> responsesWriter \<Rightarrow> responsesWriter \<times> bool" where
  "choice_tools marshal e delta rw =
     (case mget delta ''tool_calls'' of
        None \<Rightarrow> (rw, False)
      | Some JNull \<Rightarrow> (rw, False)
      | Some (JArr tcs) \<Rightarrow>
          if tcs = [] then (rw, False)
          else if rw_legacyCallID rw \<noteq> []
          then (failOutput ''upstream_parse'' ''upstream mixed legacy and modern tool calls'' rw, True)
          else (toolCallDelta marshal e tcs rw, False)
      | Some _ \<Rightarrow> (failOutput ''upstream_parse'' ''upstream tool_calls must be an array'' rw, True))"

definition choice_function :: "(json \<Rightarrow> string) \<Rightarrow> 's surroundings \<Rightarrow> obj \<Rightarrow> responsesWriter \<Rightarrow> responsesWriter \<times> bool" where
  "choice_function marshal e delta rw =
     (case mget delta ''function_call'' of
        None \<Rightarrow> (rw, False)
      | Some JNull \<Rightarrow> (rw, False)
      | Some (JObj fn) \<Rightarrow> (legacyFunctionDelta marshal e fn rw, False)
      | Some _ \<Rightarrow> (failOutput ''upstream_parse'' ''upstream function_call must be an object'' rw, True))"

definition if_delta :: "string \<Rightarrow> (string \<Rightarrow> responsesWriter \<Rightarrow> responsesWriter) \<Rightarrow> obj \<Rightarrow> responsesWriter \<Rightarrow> responsesWriter" where
  "if_delta key f delta rw = (if get_str delta key = [] then rw else f (get_str delta key) rw)"

definition handle_delta :: "(json \<Rightarrow> string) \<Rightarrow> 's surroundings \<Rightarrow> obj \<Rightarrow> responsesWriter \<Rightarrow> responsesWriter \<times> bool" where
  "handle_delta marshal e delta rw =
     (let rw1 = if_delta ''refusal'' (refusalDelta e) delta
            (if_delta ''content'' (textDelta e) delta (if_delta ''reasoning_content'' (reasoningDelta e) delta rw))
      in case choice_tools marshal e delta rw1 of
           (rw2, True) \<Rightarrow> (rw2, True)
         | (rw2, False) \<Rightarrow> choice_function marshal e delta rw2)"

definition handle_choice :: "(json \<Rightarrow> string) \<Rightarrow> 's surroundings \<Rightarrow> json \<Rightarrow> responsesWriter \<Rightarrow> responsesWriter \<times> bool" where
  "handle_choice marshal e ci rw =
     (case ci of
        JObj c \<Rightarrow>
          if (case mget c ''index'' of Some (JFloat x) \<Rightarrow> x \<noteq> 0 | _ \<Rightarrow> False) then (rw, False)
          else let rw1 = (if get_str c ''finish_reason'' \<noteq> [] then rw\<lparr>rw_finishReason := get_str c ''finish_reason''\<rparr> else rw)
               in (case mget c ''delta'' of Some (JObj delta) \<Rightarrow> handle_delta marshal e delta rw1 | _ \<Rightarrow> (rw1, False))
      | _ \<Rightarrow> (rw, False))"

fun handle_choices :: "(json \<Rightarrow> string) \<Rightarrow> 's surroundings \<Rightarrow> json list \<Rightarrow> responsesWriter \<Rightarrow> responsesWriter" where
  "handle_choices marshal e [] rw = rw"
| "handle_choices marshal e (c # cs) rw =
     (case handle_choice marshal e c rw of (rw', stop) \<Rightarrow> if stop then rw' else handle_choices marshal e cs rw')"

definition handle_meta :: "obj \<Rightarrow> responsesWriter \<Rightarrow> responsesWriter" where
  "handle_meta chunk rw =
     (let i = get_str chunk ''id''; m = get_str chunk ''model''
      in rw\<lparr>rw_respID := (if i \<noteq> [] \<and> rw_respID rw = [] then ''resp_'' @ i else rw_respID rw),
            rw_modelName := (if m \<noteq> [] \<and> rw_modelName rw = [] then m else rw_modelName rw),
            rw_usage := (case mget chunk ''usage'' of Some (JObj u) \<Rightarrow> MergeUsage (rw_usage rw) (Some u) | _ \<Rightarrow> rw_usage rw)\<rparr>)"

definition handleChunk :: "(json \<Rightarrow> string) \<Rightarrow> 's surroundings \<Rightarrow> obj \<Rightarrow> responsesWriter \<Rightarrow> responsesWriter" where
  "handleChunk marshal e chunk rw =
     (if rw_streamErr rw \<noteq> None then rw
      else handle_choices marshal e (array_of (mget chunk ''choices'')) (handle_meta chunk rw))"

definition chunk_error :: "string \<Rightarrow> string \<Rightarrow> obj" where
  "chunk_error code message = [(''code'', JStr code), (''message'', JStr message)]"

definition data_prefix :: string where "data_prefix = ''data: ''"

fun handle_lines :: "(json \<Rightarrow> string) \<Rightarrow> 's surroundings \<Rightarrow> string list \<Rightarrow> responsesWriter \<Rightarrow> responsesWriter" where
  "handle_lines marshal e [] rw = rw"
| "handle_lines marshal e (raw # lines) rw =
     (let line = rev (dropWhile (\<lambda>c. c = CHR 0x0D) (rev raw)); payload = drop (length data_prefix) line
      in if \<not> has_prefix line data_prefix then handle_lines marshal e lines rw
         else if payload = ''[DONE]'' then rw\<lparr>rw_sawDone := True\<rparr>
         else handle_lines marshal e lines
           (case unmarshal_map payload of
              None \<Rightarrow> rw\<lparr>rw_streamErr := Some (chunk_error ''upstream_parse'' ''invalid upstream event'')\<rparr>
            | Some chunk \<Rightarrow>
                (case mget (or_nil chunk) ''error'' of
                   Some (JObj err) \<Rightarrow> rw\<lparr>rw_streamErr := Some err\<rparr>
                 | _ \<Rightarrow> handleChunk marshal e (or_nil chunk) rw)))"

fun frame_lines :: "string \<Rightarrow> string list" where
  "frame_lines [] = [[]]"
| "frame_lines (c # s) =
     (if c = CHR 0x0A then [] # frame_lines s
      else (case frame_lines s of l # ls \<Rightarrow> (c # l) # ls | [] \<Rightarrow> [[c]]))"

definition handleFrame :: "(json \<Rightarrow> string) \<Rightarrow> 's surroundings \<Rightarrow> string \<Rightarrow> responsesWriter \<Rightarrow> responsesWriter" where
  "handleFrame marshal e frame rw = (if rw_sawDone rw then rw else handle_lines marshal e (frame_lines frame) rw)"

text \<open>The text up to the first empty line, and what follows it.\<close>

fun cut_frame :: "string \<Rightarrow> (string \<times> string) option" where
  "cut_frame (c # d # s) =
     (if c = CHR 0x0A \<and> d = CHR 0x0A then Some ([], s)
      else map_option (\<lambda>(f, r). (c # f, r)) (cut_frame (d # s)))"
| "cut_frame _ = None"

lemma cut_frame_shorter: "cut_frame s = Some (f, r) \<Longrightarrow> length r < length s"
  by (induction s arbitrary: f r rule: cut_frame.induct) (auto split: if_splits)

function read_frames :: "(json \<Rightarrow> string) \<Rightarrow> 's surroundings \<Rightarrow> string \<Rightarrow> responsesWriter \<Rightarrow> responsesWriter" where
  "read_frames marshal e buf rw =
     (case cut_frame buf of
        None \<Rightarrow> rw\<lparr>rw_buf := buf\<rparr>
      | Some (frame, rest) \<Rightarrow> read_frames marshal e rest (handleFrame marshal e frame rw))"
  by pat_completeness auto
termination
  by (relation "measure (\<lambda>(_, _, buf, _). length buf)") (auto dest: cut_frame_shorter)

declare read_frames.simps [simp del]

definition feed :: "(json \<Rightarrow> string) \<Rightarrow> 's surroundings \<Rightarrow> string \<Rightarrow> responsesWriter \<Rightarrow> responsesWriter" where
  "feed marshal e p rw = read_frames marshal e (rw_buf rw @ p) rw"

subsection \<open>The writer the chat handler sees\<close>

definition event_stream :: string where "event_stream = ''text/event-stream''"

definition WriteHeader :: "int \<Rightarrow> responsesWriter \<Rightarrow> responsesWriter" where
  "WriteHeader code rw = rw\<lparr>rw_status := code, rw_mode := (if 400 \<le> code then Passing else rw_mode rw)\<rparr>"

definition begin_and_feed :: "(json \<Rightarrow> string) \<Rightarrow> 's surroundings \<Rightarrow> string \<Rightarrow> responsesWriter \<Rightarrow> responsesWriter" where
  "begin_and_feed marshal e p rw = feed marshal e p (if rw_begun rw then rw else beginStream marshal e rw)"

definition Write :: "(json \<Rightarrow> string) \<Rightarrow> 's surroundings \<Rightarrow> string \<Rightarrow> responsesWriter \<Rightarrow> responsesWriter" where
  "Write marshal e p rw =
     (if rw_writeErr rw then rw
      else case rw_mode rw of
        Passing \<Rightarrow> rw\<lparr>rw_buf := rw_buf rw @ p\<rparr>
      | Streaming \<Rightarrow>
          if \<not> has_prefix (rw_ctype rw) event_stream then rw\<lparr>rw_mode := Passing, rw_buf := rw_buf rw @ p\<rparr>
          else begin_and_feed marshal e p rw
      | OneObject \<Rightarrow>
          if has_prefix (rw_ctype rw) event_stream then begin_and_feed marshal e p (rw\<lparr>rw_mode := Streaming\<rparr>)
          else rw\<lparr>rw_buf := rw_buf rw @ p\<rparr>)"

subsection \<open>One object\<close>

definition legacyResponseFunction :: "obj \<Rightarrow> obj option" where
  "legacyResponseFunction message =
     (case mget message ''function_call'' of
        Some (JObj fn) \<Rightarrow> if get_str fn ''name'' = [] \<and> get_str fn ''arguments'' = [] then None else Some fn
      | _ \<Rightarrow> None)"

definition responseToolCalls :: "obj \<Rightarrow> json list" where
  "responseToolCalls message =
     (if array_of (mget message ''tool_calls'') \<noteq> [] then array_of (mget message ''tool_calls'')
      else case legacyResponseFunction message of
        Some fn \<Rightarrow> [JObj [(''type'', JStr ''function''), (''function'', JObj fn)]]
      | None \<Rightarrow> [])"

text \<open>The items of the calls, each drawing its ids in order from the \<open>n\<close>-th on.\<close>

fun call_items :: "(json \<Rightarrow> string) \<Rightarrow> 's surroundings \<Rightarrow> string \<Rightarrow> nat \<Rightarrow> json list \<Rightarrow> obj list" where
  "call_items marshal e status n [] = []"
| "call_items marshal e status n (JObj tm # calls) =
     (let given = get_str tm ''id''; fn = nested_of (mget tm ''function'');
          (callID, m) = (if given = [] then (newRespID e ''call_'' n, n + 1) else (given, n));
          tables = rq_tables (en_req e);
          (_, _, custom) = responsesToolName tables (get_str fn ''name'')
      in call_object marshal tables (newRespID e (if custom then ''ctc_'' else ''fc_'') m) status callID
           (get_str fn ''name'') (get_str fn ''arguments'')
         # call_items marshal e status (m + 1) calls)"
| "call_items marshal e status n (_ # calls) = call_items marshal e status n calls"

definition message_items :: "(json \<Rightarrow> string) \<Rightarrow> 's surroundings \<Rightarrow> string \<Rightarrow> nat \<Rightarrow> obj \<Rightarrow> obj list" where
  "message_items marshal e status n msg =
     (let r = get_str msg ''reasoning_content''; txt = get_str msg ''content''; refusal = get_str msg ''refusal'';
          reasoning = (if r = [] then [] else [[(''id'', JStr (newRespID e ''rs_'' n)), (''type'', JStr ''reasoning''),
            (''status'', JStr status), (''summary'', JArr [summary_part r])]]);
          n1 = n + length reasoning;
          content = (if txt \<noteq> [] \<or> refusal = [] then [JObj (text_part txt)] else [])
            @ (if refusal \<noteq> [] then [JObj (refusal_part refusal)] else [])
      in reasoning @ [[(''id'', JStr (newRespID e ''msg_'' n1)), (''type'', JStr ''message''), (''status'', JStr status),
           (''role'', JStr ''assistant''), (''content'', JArr content)]]
         @ call_items marshal e status (n1 + 1) (responseToolCalls msg))"

definition first_choice :: "obj \<Rightarrow> obj" where
  "first_choice chat = (case array_of (mget chat ''choices'') of c # _ \<Rightarrow> nested_of (Some c) | [] \<Rightarrow> [])"

definition chat_status :: "obj \<Rightarrow> string" where
  "chat_status chat =
     (let fr = mget (first_choice chat) ''finish_reason''
      in if fr = Some (JStr ''length'') \<or> fr = Some (JStr ''content_filter'') then ''incomplete'' else ''completed'')"

definition chatToResponses :: "(json \<Rightarrow> string) \<Rightarrow> 's surroundings \<Rightarrow> obj \<Rightarrow> string \<Rightarrow> nat \<Rightarrow> obj" where
  "chatToResponses marshal e chat model n =
     (let i = get_str chat ''id''; m = get_str chat ''model''; status = chat_status chat;
          ctime = (case mget chat ''created'' of Some (JFloat x) \<Rightarrow> if 0 < x then trunc64 x else en_clock e | _ \<Rightarrow> en_clock e);
          why = (if status = ''completed'' then JNull
            else JObj [(''reason'', JStr (if is_str (first_choice chat) ''finish_reason'' ''length'' then ''max_output_tokens'' else ''content_filter''))]);
          items = (case mget (first_choice chat) ''message'' of
            Some (JObj msg) \<Rightarrow> message_items marshal e status (n + 1) msg | _ \<Rightarrow> []);
          usage = (case mget chat ''usage'' of Some (JObj u) \<Rightarrow> usage_of u | _ \<Rightarrow> usage_counts 0 0 0 0 0)
      in response_fields (if i = [] then newRespID e ''resp_'' n else ''resp_'' @ i) ctime status (if m = [] then model else m)
           items JNull why usage)"

datatype answer_error =
    NoChoices
  | CallsNotArray
  | CallNotObject
  | MixedCalls
  | MissingCall
  | ParallelCalls
  | BadCall call_error
  | PolicyViolated policy_violation
  | FormatViolated format_violation

definition call_function :: "json \<Rightarrow> obj" where
  "call_function raw = nested_of (mget (nested_of (Some raw)) ''function'')"

definition is_string_value :: "json option \<Rightarrow> bool" where
  "is_string_value v = (case v of Some (JStr _) \<Rightarrow> True | _ \<Rightarrow> False)"

definition call_problem :: "json \<Rightarrow> call_error option" where
  "call_problem raw =
     (let fn = call_function raw
      in validateResponseToolCall (get_str fn ''name'') (get_str fn ''arguments'') (is_string_value (mget fn ''arguments'')))"

definition invocation_of :: "json \<Rightarrow> responseToolInvocation" where
  "invocation_of raw =
     \<lparr>iv_name = get_str (call_function raw) ''name'', iv_arguments = get_str (call_function raw) ''arguments''\<rparr>"

definition present :: "json option \<Rightarrow> bool" where
  "present v = (case v of None \<Rightarrow> False | Some x \<Rightarrow> x \<noteq> JNull)"

definition validate_calls :: "'s surroundings \<Rightarrow> obj \<Rightarrow> obj \<Rightarrow> answer_error option" where
  "validate_calls e choice message =
     (let calls = responseToolCalls message; refusal = get_str message ''refusal''
      in if (is_str choice ''finish_reason'' ''tool_calls'' \<or> is_str choice ''finish_reason'' ''function_call'') \<and> calls = []
         then Some MissingCall
         else if rq_parallel (en_req e) = Some False \<and> 1 < length calls then Some ParallelCalls
         else case List.map_filter call_problem calls of
           p # _ \<Rightarrow> Some (BadCall p)
         | [] \<Rightarrow>
             (case validate_policy (en_fits e) (rq_toolPolicy (en_req e)) (map invocation_of calls) (refusal \<noteq> []) of
                Some v \<Rightarrow> Some (PolicyViolated v)
              | None \<Rightarrow>
                  if calls \<noteq> [] \<or> refusal \<noteq> [] then None
                  else map_option FormatViolated (validate_output (en_fits e) (rq_output (en_req e)) (get_str message ''content''))))"

definition validateJSONCompletion :: "'s surroundings \<Rightarrow> obj \<Rightarrow> answer_error option" where
  "validateJSONCompletion e chat =
     (if chat_status chat \<noteq> ''completed'' then None
      else if array_of (mget chat ''choices'') = [] then Some NoChoices
      else let choice = first_choice chat; message = nested_of (mget choice ''message'');
               tc = mget message ''tool_calls''; fc = mget message ''function_call''
           in if present tc \<and> (case tc of Some (JArr _) \<Rightarrow> False | _ \<Rightarrow> True) then Some CallsNotArray
              else if present fc \<and> (case fc of Some (JObj _) \<Rightarrow> False | _ \<Rightarrow> True) then Some CallNotObject
              else if array_of tc \<noteq> [] \<and> legacyResponseFunction message \<noteq> None then Some MixedCalls
              else validate_calls e choice message)"

fun answer_error_text :: "(string \<Rightarrow> string) \<Rightarrow> answer_error \<Rightarrow> string" where
  "answer_error_text quote NoChoices = ''upstream response contains no choices''"
| "answer_error_text quote CallsNotArray = ''upstream tool_calls must be an array''"
| "answer_error_text quote CallNotObject = ''upstream function_call must be an object''"
| "answer_error_text quote MixedCalls = ''upstream mixed legacy and modern tool calls''"
| "answer_error_text quote MissingCall = ''upstream ended with a tool finish reason but no tool call''"
| "answer_error_text quote ParallelCalls = ''model returned parallel tool calls despite parallel_tool_calls=false''"
| "answer_error_text quote (BadCall p) = call_error_text p"
| "answer_error_text quote (PolicyViolated v) = violation_text quote v"
| "answer_error_text quote (FormatViolated f) = format_text f"

definition finishJSON :: "(json \<Rightarrow> string) \<Rightarrow> 's surroundings \<Rightarrow> responsesWriter \<Rightarrow> responsesWriter" where
  "finishJSON marshal e rw =
     (case unmarshal_map (rw_buf rw) of
        None \<Rightarrow> rw\<lparr>rw_status := 502, rw_reply := Some (Refused ''upstream_parse'' ''upstream response is not valid JSON'')\<rparr>
      | Some chat \<Rightarrow>
          (case validateJSONCompletion e (or_nil chat) of
             Some p \<Rightarrow> rw\<lparr>rw_status := 502,
               rw_reply := Some (Refused ''response_contract_violation'' (answer_error_text (en_quote e) p))\<rparr>
           | None \<Rightarrow> rw\<lparr>rw_reply := Some (Answer (applyEcho (en_req e)
               (chatToResponses marshal e (or_nil chat) (resolvedModel e rw) (rw_drawn rw))))\<rparr>))"

definition finish :: "(json \<Rightarrow> string) \<Rightarrow> 's surroundings \<Rightarrow> responsesWriter \<Rightarrow> responsesWriter" where
  "finish marshal e rw =
     (if rw_closed rw then rw
      else let rw1 = rw\<lparr>rw_closed := True\<rparr>
           in case rw_mode rw1 of
             Passing \<Rightarrow> rw1\<lparr>rw_reply := Some (PassedOn (rw_status rw1)
               (if rw_ctype rw1 = [] then ''application/json'' else rw_ctype rw1) (rw_buf rw1))\<rparr>
           | OneObject \<Rightarrow> finishJSON marshal e rw1
           | Streaming \<Rightarrow> finishStream marshal e (if rw_begun rw1 then rw1 else beginStream marshal e rw1))"

end
