(* ===== verification/ResponsesView.thy ===== *)
theory ResponsesView
  imports ResponsesOut
begin

text \<open>
  The Responses protocol from the client's side: what a client may assume about the order of the
  events, as a machine that follows the stream and refuses a violation. From the deltas it puts
  together the items; a \<open>done\<close> event has to agree with them, and the last event has to list
  exactly the items that were done.
\<close>

subsection \<open>The client\<close>

text \<open>A text: no part yet, deltas may come, the whole was announced, the part is closed.\<close>

datatype part_state = PNone | POpen string | PWhole string | PClosed string

datatype view_item =
    VReasoning string part_state
  | VMessage string "(string \<times> part_state) list"
  | VCall string part_state
  | VCustom string

datatype view_phase = Silent | Created | InProgress | Ended

record view =
  vw_phase :: view_phase
  vw_items :: "(nat, view_item) gomap"
  vw_done :: "(nat \<times> obj) list"

definition empty_view :: view where
  "empty_view = \<lparr>vw_phase = Silent, vw_items = [], vw_done = []\<rparr>"

definition item_of :: "obj \<Rightarrow> view_item option" where
  "item_of item =
     (let i = get_str item ''id''; kind = get_str item ''type''
      in if get_str item ''status'' \<noteq> ''in_progress'' \<or> i = [] then None
         else if kind = ''reasoning'' then Some (VReasoning i PNone)
         else if kind = ''message'' then Some (VMessage i [])
         else if kind = ''function_call'' then Some (VCall i (POpen []))
         else if kind = ''custom_tool_call'' then Some (VCustom i)
         else None)"

text \<open>A change of the item of an event, which has to exist, have the same id and not be done.\<close>

fun view_id :: "view_item \<Rightarrow> string" where
  "view_id (VReasoning i _) = i"
| "view_id (VMessage i _) = i"
| "view_id (VCall i _) = i"
| "view_id (VCustom i) = i"

definition change :: "nat \<Rightarrow> string \<Rightarrow> (view_item \<Rightarrow> view_item option) \<Rightarrow> view \<Rightarrow> view option" where
  "change idx i f v =
     (case mget (vw_items v) idx of
        Some item \<Rightarrow>
          if view_id item = i \<and> idx \<notin> set (map fst (vw_done v))
          then map_option (\<lambda>item'. v\<lparr>vw_items := mput idx item' (vw_items v)\<rparr>) (f item) else None
      | None \<Rightarrow> None)"

fun add_delta :: "string \<Rightarrow> part_state \<Rightarrow> part_state option" where
  "add_delta s (POpen t) = Some (POpen (t @ s))"
| "add_delta s _ = None"

fun announce :: "string \<Rightarrow> part_state \<Rightarrow> part_state option" where
  "announce s (POpen t) = (if s = t then Some (PWhole t) else None)"
| "announce s _ = None"

fun on_summary :: "(part_state \<Rightarrow> part_state option) \<Rightarrow> view_item \<Rightarrow> view_item option" where
  "on_summary f (VReasoning i p) = map_option (VReasoning i) (f p)"
| "on_summary f _ = None"

fun on_arguments :: "(part_state \<Rightarrow> part_state option) \<Rightarrow> view_item \<Rightarrow> view_item option" where
  "on_arguments f (VCall i p) = map_option (VCall i) (f p)"
| "on_arguments f _ = None"

fun on_part :: "string \<Rightarrow> nat \<Rightarrow> (part_state \<Rightarrow> part_state option) \<Rightarrow> view_item \<Rightarrow> view_item option" where
  "on_part kind c f (VMessage i ps) =
     (if c < length ps \<and> fst (ps ! c) = kind
      then map_option (\<lambda>p. VMessage i (ps[c := (kind, p)])) (f (snd (ps ! c))) else None)"
| "on_part kind c f _ = None"

fun add_part :: "nat \<Rightarrow> obj \<Rightarrow> view_item \<Rightarrow> view_item option" where
  "add_part c part (VMessage i ps) =
     (if c = length ps \<and> get_str part ''type'' \<notin> set (map fst ps)
      then Some (VMessage i (ps @ [(get_str part ''type'', POpen [])])) else None)"
| "add_part c part _ = None"

definition part_object :: "string \<Rightarrow> string \<Rightarrow> obj" where
  "part_object kind t = (if kind = ''refusal'' then refusal_part t else text_part t)"

fun close_part :: "obj \<Rightarrow> string \<Rightarrow> part_state \<Rightarrow> part_state option" where
  "close_part part kind (PWhole t) = (if part = part_object kind t then Some (PClosed t) else None)"
| "close_part part kind _ = None"

fun open_summary :: "part_state \<Rightarrow> part_state option" where
  "open_summary PNone = Some (POpen [])"
| "open_summary _ = None"

fun close_text :: "string \<Rightarrow> part_state \<Rightarrow> part_state option" where
  "close_text s (PWhole t) = (if s = t then Some (PClosed t) else None)"
| "close_text s _ = None"

fun part_text :: "part_state \<Rightarrow> string option" where
  "part_text (PClosed t) = Some t"
| "part_text _ = None"

fun closed_part :: "string \<times> part_state \<Rightarrow> json option" where
  "closed_part (kind, PClosed t) = Some (JObj (part_object kind t))"
| "closed_part _ = None"

text \<open>Whether an item that is announced as done is what its events added up to.\<close>

definition agrees :: "view_item \<Rightarrow> obj \<Rightarrow> bool" where
  "agrees vi item \<longleftrightarrow> get_str item ''id'' = view_id vi \<and> get_str item ''status'' \<in> {''completed'', ''incomplete''} \<and>
     (case vi of
        VReasoning i p \<Rightarrow> is_str item ''type'' ''reasoning'' \<and>
          (case part_text p of Some t \<Rightarrow> mget item ''summary'' = Some (JArr [summary_part t]) | None \<Rightarrow> False)
      | VMessage i ps \<Rightarrow> is_str item ''type'' ''message'' \<and>
          list_all (\<lambda>p. closed_part p \<noteq> None) ps \<and> mget item ''content'' = Some (JArr (List.map_filter closed_part ps))
      | VCall i p \<Rightarrow> is_str item ''type'' ''function_call'' \<and> get_str item ''status'' = ''completed'' \<and>
          (case p of PWhole t \<Rightarrow> mget item ''arguments'' = Some (JStr t) | _ \<Rightarrow> False)
      | VCustom i \<Rightarrow> is_str item ''type'' ''custom_tool_call'' \<and> get_str item ''status'' = ''completed'')"

fun is_call :: "view_item \<Rightarrow> bool" where
  "is_call (VCall _ _) = True"
| "is_call (VCustom _) = True"
| "is_call _ = False"

definition may_end :: "string \<Rightarrow> obj \<Rightarrow> view \<Rightarrow> bool" where
  "may_end status response v \<longleftrightarrow>
     get_str response ''status'' = status \<and> status \<in> {''completed'', ''incomplete'', ''failed''}
     \<and> (\<forall>idx \<in> set (mkeys (vw_items v)). idx \<in> set (map fst (vw_done v)) \<longleftrightarrow>
          status = ''completed'' \<or> (case mget (vw_items v) idx of Some vi \<Rightarrow> \<not> is_call vi | None \<Rightarrow> False))
     \<and> (status = ''completed'' \<longrightarrow> mget response ''output'' = Some (JArr (map JObj (map snd (sort_key fst (vw_done v))))))"

definition in_progress :: "(view \<Rightarrow> view option) \<Rightarrow> view \<Rightarrow> view option" where
  "in_progress f v = (if vw_phase v = InProgress then f v else None)"

fun client_step :: "event \<Rightarrow> view \<Rightarrow> view option" where
  "client_step (EvCreated r) v = (if vw_phase v = Silent then Some (v\<lparr>vw_phase := Created\<rparr>) else None)"
| "client_step (EvInProgress r) v = (if vw_phase v = Created then Some (v\<lparr>vw_phase := InProgress\<rparr>) else None)"
| "client_step (EvItemAdded idx item) v = in_progress (\<lambda>v.
     if mget (vw_items v) idx \<noteq> None then None
     else map_option (\<lambda>vi. v\<lparr>vw_items := mput idx vi (vw_items v)\<rparr>) (item_of item)) v"
| "client_step (EvItemDone idx item) v = in_progress (\<lambda>v.
     case mget (vw_items v) idx of
       Some vi \<Rightarrow> if agrees vi item \<and> idx \<notin> set (map fst (vw_done v)) then Some (v\<lparr>vw_done := vw_done v @ [(idx, item)]\<rparr>) else None
     | None \<Rightarrow> None) v"
| "client_step (EvPartAdded i idx c part) v = in_progress (change idx i (add_part c part)) v"
| "client_step (EvPartDone i idx c part) v = in_progress
     (change idx i (on_part (get_str part ''type'') c (close_part part (get_str part ''type'')))) v"
| "client_step (EvTextDelta i idx c s) v = in_progress (change idx i (on_part ''output_text'' c (add_delta s))) v"
| "client_step (EvTextDone i idx c s) v = in_progress (change idx i (on_part ''output_text'' c (announce s))) v"
| "client_step (EvRefusalDelta i idx c s) v = in_progress (change idx i (on_part ''refusal'' c (add_delta s))) v"
| "client_step (EvRefusalDone i idx c s) v = in_progress (change idx i (on_part ''refusal'' c (announce s))) v"
| "client_step (EvRsPartAdded i idx) v = in_progress (change idx i (on_summary open_summary)) v"
| "client_step (EvRsPartDone i idx t) v = in_progress (change idx i (on_summary (close_text t))) v"
| "client_step (EvRsDelta i idx s) v = in_progress (change idx i (on_summary (add_delta s))) v"
| "client_step (EvRsDone i idx t) v = in_progress (change idx i (on_summary (announce t))) v"
| "client_step (EvArgsDelta i idx s) v = in_progress (change idx i (on_arguments (add_delta s))) v"
| "client_step (EvArgsDone i idx s) v = in_progress (change idx i (on_arguments (announce s))) v"
| "client_step (EvTerminal status r) v = in_progress (\<lambda>v. if may_end status r v then Some (v\<lparr>vw_phase := Ended\<rparr>) else None) v"

fun follow :: "event list \<Rightarrow> view \<Rightarrow> view option" where
  "follow [] v = Some v"
| "follow (ev # evs) v = (case client_step ev v of None \<Rightarrow> None | Some v' \<Rightarrow> follow evs v')"

definition view_of :: "event list \<Rightarrow> view option" where
  "view_of evs = follow evs empty_view"

lemma follow_append: "follow (xs @ ys) v = (case follow xs v of None \<Rightarrow> None | Some v' \<Rightarrow> follow ys v')"
  by (induction xs arbitrary: v) (auto split: option.splits)

lemma view_of_snoc: "view_of evs = Some v \<Longrightarrow> view_of (evs @ [ev]) = client_step ev v"
  by (simp add: view_of_def follow_append split: option.splits)

lemma view_of_take: "view_of evs \<noteq> None \<Longrightarrow> view_of (take n evs) \<noteq> None"
  unfolding view_of_def by (metis append_take_drop_id follow_append option.case_eq_if)

lemma step_ended: "vw_phase v = Ended \<Longrightarrow> client_step ev v = None"
  by (cases ev) (simp_all add: in_progress_def)


end
