(* ===== verification/ResponsesWrites.thy ===== *)
theory ResponsesWrites
  imports ResponsesView
begin

text \<open>
  What every operation of the writer writes: some events, numbered in order, of which the client
  receives those up to the first failed write.
\<close>

subsection \<open>What an operation writes\<close>

text \<open>An operation is a number of emissions; between them the output is left alone.\<close>

definition same_out :: "responsesWriter \<Rightarrow> responsesWriter \<Rightarrow> bool" where
  "same_out rw rw' \<longleftrightarrow> rw_seq rw' = rw_seq rw \<and> rw_events rw' = rw_events rw \<and> rw_sent rw' = rw_sent rw
     \<and> rw_writeErr rw' = rw_writeErr rw"

inductive writes :: "'s surroundings \<Rightarrow> responsesWriter \<Rightarrow> responsesWriter \<Rightarrow> bool" for e where
  quiet: "same_out rw rw' \<Longrightarrow> writes e rw rw'"
| emitted: "writes e rw rw1 \<Longrightarrow> same_out (emit_event e ev rw1) rw' \<Longrightarrow> writes e rw rw'"

lemma same_out_refl [simp]: "same_out rw rw"
  by (simp add: same_out_def)

lemma same_out_trans: "same_out a b \<Longrightarrow> same_out b c \<Longrightarrow> same_out a c"
  by (simp add: same_out_def)

lemma same_out_emit: "same_out a b \<Longrightarrow> same_out (emit_event e ev a) (emit_event e ev b)"
  by (simp add: same_out_def emit_event_def Let_def)

lemma writes_refl [simp]: "writes e rw rw"
  by (simp add: quiet)

lemma writes_emit [simp]: "writes e rw (emit_event e ev rw)"
  by (rule emitted [where ev = ev, OF writes_refl]) simp

lemma writes_quiet: "writes e a b \<Longrightarrow> same_out b c \<Longrightarrow> writes e a c"
  by (induction rule: writes.induct) (auto intro: writes.intros same_out_trans)

lemma writes_trans [trans]: "writes e b c \<Longrightarrow> writes e a b \<Longrightarrow> writes e a c"
  by (induction rule: writes.induct) (auto intro: writes_quiet emitted)

lemma writes_emit_after: "writes e a b \<Longrightarrow> writes e a (emit_event e ev b)"
  by (erule emitted [where ev = ev]) simp

text \<open>The numbers of the events count up from 0, and after a failed write nothing arrives.\<close>

definition numbered_events :: "responsesWriter \<Rightarrow> bool" where
  "numbered_events rw \<longleftrightarrow> map fst (rw_events rw) = [0..<rw_seq rw] \<and> rw_sent rw \<le> length (rw_events rw)
     \<and> (\<not> rw_writeErr rw \<longrightarrow> rw_sent rw = length (rw_events rw))"

lemma writes_numbered: "writes e rw rw' \<Longrightarrow> numbered_events rw \<Longrightarrow> numbered_events rw'"
proof (induction rule: writes.induct)
  case (emitted rw rw1 ev rw')
  then show ?case by (auto simp: numbered_events_def same_out_def emit_event_def Let_def)
qed (simp add: numbered_events_def same_out_def)

lemma writes_after_failure:
  "writes e rw rw' \<Longrightarrow> numbered_events rw \<Longrightarrow> rw_writeErr rw \<Longrightarrow> rw_writeErr rw' \<and> received rw' = received rw"
proof (induction rule: writes.induct)
  case (emitted rw rw1 ev rw')
  then have "numbered_events rw1" using writes_numbered by blast
  with emitted show ?case by (auto simp: same_out_def emit_event_def Let_def received_def numbered_events_def)
qed (simp add: same_out_def received_def)

lemma writes_grows: "writes e rw rw' \<Longrightarrow> \<exists>xs. rw_events rw' = rw_events rw @ xs"
  by (induction rule: writes.induct) (auto simp: same_out_def emit_event_def Let_def)

subsection \<open>Every operation\<close>

text \<open>
  \<open>writes_step\<close> goes backwards through an operation: a change that leaves the output alone, or an
  emission, after an operation that is known.
\<close>

lemma writes_update:
  "writes e a b \<Longrightarrow> writes e a (set_call i c b)" "writes e a b \<Longrightarrow> writes e a (failOutput code m b)"
  "writes e a b \<Longrightarrow> writes e a (register_call i b)"
  "writes e a b \<Longrightarrow> writes e a (b\<lparr>rw_rsOpen := o1\<rparr>)" "writes e a b \<Longrightarrow> writes e a (b\<lparr>rw_rsPart := o1\<rparr>)"
  "writes e a b \<Longrightarrow> writes e a (b\<lparr>rw_msgOpen := o1\<rparr>)" "writes e a b \<Longrightarrow> writes e a (b\<lparr>rw_reason := t\<rparr>)"
  "writes e a b \<Longrightarrow> writes e a (b\<lparr>rw_text := t\<rparr>)" "writes e a b \<Longrightarrow> writes e a (b\<lparr>rw_refusal := t\<rparr>)"
  "writes e a b \<Longrightarrow> writes e a (b\<lparr>rw_messageParts := ps\<rparr>)" "writes e a b \<Longrightarrow> writes e a (b\<lparr>rw_drawn := n\<rparr>)"
  "writes e a b \<Longrightarrow> writes e a (b\<lparr>rw_nextIdx := n\<rparr>)" "writes e a b \<Longrightarrow> writes e a (b\<lparr>rw_rsOutIdx := n\<rparr>)"
  "writes e a b \<Longrightarrow> writes e a (b\<lparr>rw_msgOutIdx := n\<rparr>)" "writes e a b \<Longrightarrow> writes e a (b\<lparr>rw_legacyCallID := t\<rparr>)"
  "writes e a b \<Longrightarrow> writes e a (b\<lparr>rw_finishReason := t\<rparr>)" "writes e a b \<Longrightarrow> writes e a (b\<lparr>rw_sawDone := o1\<rparr>)"
  "writes e a b \<Longrightarrow> writes e a (b\<lparr>rw_streamErr := er\<rparr>)" "writes e a b \<Longrightarrow> writes e a (b\<lparr>rw_buf := t\<rparr>)"
  "writes e a b \<Longrightarrow> writes e a (b\<lparr>rw_terminalStatus := t\<rparr>)" "writes e a b \<Longrightarrow> writes e a (b\<lparr>rw_mode := md\<rparr>)"
  "writes e a b \<Longrightarrow> writes e a (b\<lparr>rw_closed := o1\<rparr>)" "writes e a b \<Longrightarrow> writes e a (handle_meta ch b)"
  by (erule writes_quiet, simp add: same_out_def set_call_def failOutput_def register_call_def handle_meta_def Let_def)+

lemmas writes_step = writes_emit_after writes_update writes_refl

lemma writes_begin: "writes e rw (beginStream marshal e rw)"
  unfolding beginStream_def Let_def by (intro writes_emit_after quiet) (simp add: same_out_def)

lemma writes_reasoning: "writes e a b \<Longrightarrow> writes e a (reasoningDelta e s b)"
  by (auto simp: reasoningDelta_def openSummary_def openReasoning_def Let_def intro!: writes_step)

lemma writes_open_message: "writes e a b \<Longrightarrow> writes e a (openMessage e b)"
  by (auto simp: openMessage_def Let_def intro!: writes_step)

lemma writes_part: "writes e a b \<Longrightarrow> writes e a (fst (ensureMessagePart e k b))"
  using writes_open_message by (auto simp: ensureMessagePart_def Let_def split: option.split intro!: writes_step)

lemma writes_text:
  assumes "writes e a b"
  shows "writes e a (textDelta e s b)" "writes e a (refusalDelta e s b)"
  using writes_part [OF assms, of "''output_text''"] writes_part [OF assms, of "''refusal''"]
  by (simp_all add: textDelta_def refusalDelta_def Let_def case_prod_beta writes_step)

lemma writes_open_call: "writes e a b \<Longrightarrow> writes e a (openCall marshal e i b)"
  by (auto simp: openCall_def Let_def intro!: writes_step)

lemma writes_arguments: "writes e a b \<Longrightarrow> writes e a (sendArguments e i b)"
  by (auto simp: sendArguments_def Let_def intro!: writes_step)


subsection \<open>Invariants of reading\<close>

text \<open>
  What holds of the writer while it reads the chat stream: it is enough to look at the deltas, the
  calls and the changes of single fields.
\<close>

locale writer_invariant =
  fixes marshal :: "json \<Rightarrow> string" and e :: "'s surroundings" and I :: "responsesWriter \<Rightarrow> bool"
  assumes reasoning: "\<And>rw s. I rw \<Longrightarrow> s \<noteq> [] \<Longrightarrow> I (reasoningDelta e s rw)"
    and text_delta: "\<And>rw s. I rw \<Longrightarrow> s \<noteq> [] \<Longrightarrow> I (textDelta e s rw)"
    and refusal: "\<And>rw s. I rw \<Longrightarrow> s \<noteq> [] \<Longrightarrow> I (refusalDelta e s rw)"
    and tools: "\<And>rw items. I rw \<Longrightarrow> I (toolCallDelta marshal e items rw)"
    and flush: "\<And>rw. I rw \<Longrightarrow> I (flushReadyCalls marshal e rw)"
    and names: "\<And>rw. I rw \<Longrightarrow> I (name_calls e (rw_order rw) rw)"
    and fail: "\<And>rw code m. I rw \<Longrightarrow> I (failOutput code m rw)"
    and legacy_id: "\<And>rw i n. I rw \<Longrightarrow> I (rw\<lparr>rw_legacyCallID := i, rw_drawn := n\<rparr>)"
    and meta: "\<And>rw chunk. I rw \<Longrightarrow> I (handle_meta chunk rw)"
    and finish_reason: "\<And>rw t. I rw \<Longrightarrow> I (rw\<lparr>rw_finishReason := t\<rparr>)"
    and saw_done: "\<And>rw b. I rw \<Longrightarrow> I (rw\<lparr>rw_sawDone := b\<rparr>)"
    and stream_error: "\<And>rw err. I rw \<Longrightarrow> I (rw\<lparr>rw_streamErr := err\<rparr>)"
    and buffer: "\<And>rw t. I rw \<Longrightarrow> I (rw\<lparr>rw_buf := t\<rparr>)"
begin

lemma legacy: "I rw \<Longrightarrow> I (legacyFunctionDelta marshal e fn rw)"
  by (auto simp: legacyFunctionDelta_def Let_def intro!: tools fail legacy_id)

lemma delta: "I rw \<Longrightarrow> I (fst (handle_delta marshal e d rw))"
proof -
  assume rw: "I rw"
  have ct: "I (fst (choice_tools marshal e d b))" if "I b" for b
    using that by (auto simp: choice_tools_def split: option.split json.split intro!: tools fail)
  have fn: "I (fst (choice_function marshal e d b))" if "I b" for b
    using that by (auto simp: choice_function_def split: option.split json.split intro!: legacy fail)
  define b1 where "b1 = if_delta ''refusal'' (refusalDelta e) d
            (if_delta ''content'' (textDelta e) d (if_delta ''reasoning_content'' (reasoningDelta e) d rw))"
  have "I b1" using rw by (simp add: b1_def if_delta_def reasoning text_delta refusal)
  from ct [OF this] show ?thesis
    by (auto simp: handle_delta_def b1_def [symmetric] split: prod.split bool.split intro: fn)
qed

lemma choice: "I rw \<Longrightarrow> I (fst (handle_choice marshal e c rw))"
  by (auto simp: handle_choice_def Let_def split: json.split option.split intro!: delta finish_reason)

lemma choices: "I rw \<Longrightarrow> I (handle_choices marshal e cs rw)"
proof (induction cs arbitrary: rw)
  case (Cons c cs)
  have "I (fst (handle_choice marshal e c rw))" by (rule choice [OF Cons.prems])
  then show ?case using Cons.IH by (cases "handle_choice marshal e c rw") auto
qed simp

lemma chunk: "I rw \<Longrightarrow> I (handleChunk marshal e ch rw)"
  by (simp add: handleChunk_def choices meta)

lemma lines: "I rw \<Longrightarrow> I (handle_lines marshal e ls rw)"
  by (induction ls arbitrary: rw) (auto simp: Let_def split: option.split json.split intro: chunk saw_done stream_error)

lemma frames: "I rw \<Longrightarrow> I (read_frames marshal e buf rw)"
proof (induction buf arbitrary: rw rule: length_induct)
  case (1 buf)
  have "I (handleFrame marshal e f rw)" for f using 1 by (simp add: handleFrame_def lines)
  with 1 show ?case
    by (subst read_frames.simps) (auto split: option.split intro: buffer dest: cut_frame_shorter)
qed

lemma feeding: "I rw \<Longrightarrow> I (feed marshal e p rw)"
  by (simp add: feed_def frames)

lemma fail_cases: "I rw \<Longrightarrow> I (fail_with code t rw)" "I rw \<Longrightarrow> I (fail_if b code m rw)"
  by (auto simp: fail_with_def fail_if_def fail split: option.split)

lemma contract: "I rw \<Longrightarrow> I (check_contract e rw)"
  unfolding check_contract_def Let_def by (intro fail_cases)

lemma completion: "I rw \<Longrightarrow> I (CompletionError marshal e rw)"
proof -
  assume rw: "I rw"
  then have "I (fail_if x code m (fail_if y code' m' rw))" for x y code code' m m' by (intro fail_cases)
  with rw show ?thesis by (simp add: CompletionError_def Let_def flush names contract)
qed

end

text \<open>When any change of a call is harmless, the single steps of the calls are enough.\<close>

locale call_blind =
  fixes marshal :: "json \<Rightarrow> string" and e :: "'s surroundings" and I :: "responsesWriter \<Rightarrow> bool"
  assumes reasoning: "\<And>rw s. I rw \<Longrightarrow> s \<noteq> [] \<Longrightarrow> I (reasoningDelta e s rw)"
    and text_delta: "\<And>rw s. I rw \<Longrightarrow> s \<noteq> [] \<Longrightarrow> I (textDelta e s rw)"
    and refusal: "\<And>rw s. I rw \<Longrightarrow> s \<noteq> [] \<Longrightarrow> I (refusalDelta e s rw)"
    and call: "\<And>rw i c. I rw \<Longrightarrow> I (set_call i c rw)"
    and register: "\<And>rw i. I rw \<Longrightarrow> I (register_call i rw)"
    and open_call: "\<And>rw i. I rw \<Longrightarrow> I (openCall marshal e i rw)"
    and send: "\<And>rw i. I rw \<Longrightarrow> I (sendArguments e i rw)"
    and draw: "\<And>rw n. I rw \<Longrightarrow> I (rw\<lparr>rw_drawn := n\<rparr>)"
    and legacy_field: "\<And>rw i. I rw \<Longrightarrow> I (rw\<lparr>rw_legacyCallID := i\<rparr>)"
    and meta: "\<And>rw chunk. I rw \<Longrightarrow> I (handle_meta chunk rw)"
    and finish_reason: "\<And>rw t. I rw \<Longrightarrow> I (rw\<lparr>rw_finishReason := t\<rparr>)"
    and saw_done: "\<And>rw b. I rw \<Longrightarrow> I (rw\<lparr>rw_sawDone := b\<rparr>)"
    and stream_error: "\<And>rw err. I rw \<Longrightarrow> I (rw\<lparr>rw_streamErr := err\<rparr>)"
    and buffer: "\<And>rw t. I rw \<Longrightarrow> I (rw\<lparr>rw_buf := t\<rparr>)"
begin

lemma failing: "I rw \<Longrightarrow> I (failOutput code m rw)"
  by (simp add: failOutput_def stream_error)

lemma flush_all: "I rw \<Longrightarrow> I (flush_calls marshal e is rw)"
  by (induction "is" arbitrary: rw) (auto simp: Let_def intro: send open_call)

lemma flush_ready: "I rw \<Longrightarrow> I (flushReadyCalls marshal e rw)"
  by (simp add: flushReadyCalls_def flush_all)

lemma entry:
  assumes "I rw"
  shows "toolCallEntry e item rw = Inl r \<Longrightarrow> I r" "toolCallEntry e item rw = Inr r \<Longrightarrow> I r"
  using assms
  by (auto simp: toolCallEntry_def delta_id_def delta_name_def delta_arguments_def andthen_def Let_def
      split: json.splits sum.splits if_splits option.splits intro!: call register failing)

lemma entries: "I rw \<Longrightarrow> I (toolCallEntries marshal e items rw)"
  by (induction items arbitrary: rw) (auto split: sum.split intro: flush_ready dest: entry)

lemma naming: "I rw \<Longrightarrow> I (name_calls e is rw)"
proof (induction "is" arbitrary: rw)
  case (Cons i "is")
  show ?case unfolding name_calls.simps Let_def by (rule Cons.IH) (auto intro!: call draw Cons.prems)
qed simp

lemma legacy_call: "I rw \<Longrightarrow> I (rw\<lparr>rw_legacyCallID := i, rw_drawn := n\<rparr>)"
  by (drule legacy_field [where i = i], drule draw [where n = n]) simp

end

sublocale call_blind \<subseteq> reader: writer_invariant
  by unfold_locales
    (auto simp: toolCallDelta_def intro: reasoning text_delta refusal entries flush_ready naming failing legacy_call meta
      finish_reason saw_done stream_error buffer)

interpretation written: call_blind marshal e "writes e a" for marshal e a
  by unfold_locales
    (auto intro: writes_update writes_reasoning writes_text writes_open_call writes_arguments)

lemma writes_close_parts: "writes e a b \<Longrightarrow> writes e a (close_parts e i ks b)"
proof (induction ks arbitrary: i b)
  case (Cons k ks)
  show ?case unfolding close_parts.simps Let_def by (intro Cons.IH writes_emit_after Cons.prems)
qed simp

lemma writes_close_call: "writes e a b \<Longrightarrow> writes e a (closeCall marshal e i b)"
  by (auto simp: closeCall_def Let_def intro!: writes_step)

lemma writes_close: "writes e a b \<Longrightarrow> writes e a (closeCalls marshal e b)"
proof -
  assume ab: "writes e a b"
  have "writes e a (fold (closeCall marshal e) is c)" if "writes e a c" for "is" c
    using that by (induction "is" arbitrary: c) (auto intro: writes_close_call)
  moreover have "writes e a (closeMessage e (closeReasoning e b))"
    using ab by (auto simp: closeMessage_def closeReasoning_def closeSummary_def Let_def intro!: writes_close_parts writes_step)
  ultimately show ?thesis by (simp add: closeCalls_def)
qed

lemma writes_finish_stream: "writes e a b \<Longrightarrow> writes e a (finishStream marshal e b)"
  by (auto simp: finishStream_def Let_def intro!: writes_close written.reader.completion writes_step)

lemma writes_begin_after: "writes e a b \<Longrightarrow> writes e a (beginStream marshal e b)"
  using writes_begin writes_trans by blast

lemma writes_write: "writes e a b \<Longrightarrow> writes e a (Write marshal e p b)"
  by (auto simp: Write_def begin_and_feed_def split: out_mode.split intro!: written.reader.feeding writes_begin_after writes_step)

lemma writes_finish: "writes e a b \<Longrightarrow> writes e a (finish marshal e b)"
  unfolding finish_def Let_def finishJSON_def
  by (auto split: out_mode.split option.split intro!: writes_finish_stream writes_begin_after writes_step)
     (erule writes_quiet, simp add: same_out_def)+

end
