(* ===== verification/ResponsesSim.thy ===== *)
theory ResponsesSim
  imports ResponsesWrites
begin

text \<open>
  The simulation: after every operation of the writer, the client that followed the events has
  exactly the items the writer holds.
\<close>

subsection \<open>The relation\<close>

definition content :: "responsesWriter \<Rightarrow> string \<Rightarrow> string" where
  "content rw kind = (if kind = ''refusal'' then rw_refusal rw else rw_text rw)"

definition call_view :: "respToolCall \<Rightarrow> view_item" where
  "call_view c = (if ca_custom c then VCustom (ca_id c) else VCall (ca_id c) (POpen (take (ca_sentArgs c) (ca_args c))))"

definition text_ok :: "responsesWriter \<Rightarrow> bool" where
  "text_ok rw \<longleftrightarrow> (rw_rsOpen rw \<longleftrightarrow> rw_reason rw \<noteq> []) \<and> rw_rsPart rw = rw_rsOpen rw
     \<and> (rw_messageParts rw \<noteq> [] \<longrightarrow> rw_msgOpen rw) \<and> distinct (rw_messageParts rw)
     \<and> set (rw_messageParts rw) \<subseteq> {''output_text'', ''refusal''}
     \<and> (rw_text rw \<noteq> [] \<longrightarrow> ''output_text'' \<in> set (rw_messageParts rw))
     \<and> (rw_refusal rw \<noteq> [] \<longrightarrow> ''refusal'' \<in> set (rw_messageParts rw))
     \<and> rw_rsID rw \<noteq> [] \<and> rw_msgID rw \<noteq> []"

definition call_ok :: "'s surroundings \<Rightarrow> respToolCall \<Rightarrow> bool" where
  "call_ok e c \<longleftrightarrow> (ca_opened c \<longleftrightarrow> ca_id c \<noteq> []) \<and> (ca_opened c \<longrightarrow> ca_name c \<noteq> [] \<and> ca_callID c \<noteq> [])
     \<and> ca_sentArgs c \<le> length (ca_args c) \<and> (ca_custom c \<or> \<not> ca_opened c \<longrightarrow> ca_sentArgs c = 0)
     \<and> (ca_custom c \<longleftrightarrow> ca_name c \<noteq> [] \<and> ca_name c \<in> set (tt_custom (rq_tables (en_req e))))"

definition calls_ok :: "'s surroundings \<Rightarrow> responsesWriter \<Rightarrow> bool" where
  "calls_ok e rw \<longleftrightarrow> distinct (rw_order rw) \<and> (\<forall>i. i \<in> set (rw_order rw) \<longleftrightarrow> mget (rw_calls rw) i \<noteq> None)
     \<and> (\<forall>i c. mget (rw_calls rw) i = Some c \<longrightarrow> call_ok e c)"

definition index_ok :: "responsesWriter \<Rightarrow> bool" where
  "index_ok rw \<longleftrightarrow> (rw_reason rw \<noteq> [] \<longrightarrow> rw_rsOutIdx rw < rw_nextIdx rw)
     \<and> (rw_msgOpen rw \<longrightarrow> rw_msgOutIdx rw < rw_nextIdx rw)
     \<and> (rw_reason rw \<noteq> [] \<longrightarrow> rw_msgOpen rw \<longrightarrow> rw_rsOutIdx rw \<noteq> rw_msgOutIdx rw)
     \<and> (\<forall>i c. mget (rw_calls rw) i = Some c \<longrightarrow> ca_outIdx c < rw_nextIdx rw
          \<and> (rw_reason rw \<noteq> [] \<longrightarrow> ca_outIdx c \<noteq> rw_rsOutIdx rw) \<and> (rw_msgOpen rw \<longrightarrow> ca_outIdx c \<noteq> rw_msgOutIdx rw))
     \<and> (\<forall>i j c d. mget (rw_calls rw) i = Some c \<longrightarrow> mget (rw_calls rw) j = Some d \<longrightarrow> ca_outIdx c = ca_outIdx d \<longrightarrow> i = j)"

definition shown :: "responsesWriter \<Rightarrow> (nat \<Rightarrow> view_item option) \<Rightarrow> bool" where
  "shown rw items \<longleftrightarrow>
     (rw_reason rw \<noteq> [] \<longrightarrow> items (rw_rsOutIdx rw) = Some (VReasoning (rw_rsID rw) (POpen (rw_reason rw))))
     \<and> (rw_msgOpen rw \<longrightarrow> items (rw_msgOutIdx rw)
          = Some (VMessage (rw_msgID rw) (map (\<lambda>k. (k, POpen (content rw k))) (rw_messageParts rw))))
     \<and> (\<forall>i c. mget (rw_calls rw) i = Some c \<longrightarrow> ca_opened c \<longrightarrow> items (ca_outIdx c) = Some (call_view c))
     \<and> (\<forall>idx. items idx \<noteq> None \<longrightarrow> (rw_reason rw \<noteq> [] \<and> idx = rw_rsOutIdx rw) \<or> (rw_msgOpen rw \<and> idx = rw_msgOutIdx rw)
          \<or> (\<exists>i c. mget (rw_calls rw) i = Some c \<and> ca_opened c \<and> idx = ca_outIdx c))"

definition sim :: "'s surroundings \<Rightarrow> responsesWriter \<Rightarrow> view \<Rightarrow> bool" where
  "sim e rw v \<longleftrightarrow> text_ok rw \<and> calls_ok e rw \<and> index_ok rw \<and> vw_phase v = InProgress \<and> vw_done v = []
     \<and> shown rw (mget (vw_items v))"

abbreviation evs :: "responsesWriter \<Rightarrow> event list" where
  "evs rw \<equiv> map snd (rw_events rw)"

definition followed :: "'s surroundings \<Rightarrow> responsesWriter \<Rightarrow> bool" where
  "followed e rw \<longleftrightarrow> (\<exists>v. view_of (evs rw) = Some v \<and> sim e rw v)"

lemma emit_event_fields [simp]:
  "evs (emit_event e ev rw) = evs rw @ [ev]"
  "rw_calls (emit_event e ev rw) = rw_calls rw" "rw_order (emit_event e ev rw) = rw_order rw"
  "rw_rsOpen (emit_event e ev rw) = rw_rsOpen rw" "rw_rsPart (emit_event e ev rw) = rw_rsPart rw"
  "rw_msgOpen (emit_event e ev rw) = rw_msgOpen rw" "rw_reason (emit_event e ev rw) = rw_reason rw"
  "rw_text (emit_event e ev rw) = rw_text rw" "rw_refusal (emit_event e ev rw) = rw_refusal rw"
  "rw_messageParts (emit_event e ev rw) = rw_messageParts rw" "rw_rsID (emit_event e ev rw) = rw_rsID rw"
  "rw_msgID (emit_event e ev rw) = rw_msgID rw" "rw_rsOutIdx (emit_event e ev rw) = rw_rsOutIdx rw"
  "rw_msgOutIdx (emit_event e ev rw) = rw_msgOutIdx rw" "rw_nextIdx (emit_event e ev rw) = rw_nextIdx rw"
  "rw_drawn (emit_event e ev rw) = rw_drawn rw" "rw_streamErr (emit_event e ev rw) = rw_streamErr rw"
  "rw_terminalStatus (emit_event e ev rw) = rw_terminalStatus rw" "rw_legacyCallID (emit_event e ev rw) = rw_legacyCallID rw"
  "rw_finishReason (emit_event e ev rw) = rw_finishReason rw" "rw_sawDone (emit_event e ev rw) = rw_sawDone rw"
  "rw_begun (emit_event e ev rw) = rw_begun rw" "rw_mode (emit_event e ev rw) = rw_mode rw"
  "rw_respID (emit_event e ev rw) = rw_respID rw" "rw_created (emit_event e ev rw) = rw_created rw"
  "rw_usage (emit_event e ev rw) = rw_usage rw" "rw_modelName (emit_event e ev rw) = rw_modelName rw"
  "rw_closed (emit_event e ev rw) = rw_closed rw" "rw_reply (emit_event e ev rw) = rw_reply rw"
  by (simp_all add: emit_event_def Let_def)

lemma set_call_fields [simp]:
  "rw_calls (set_call i c rw) = mput i c (rw_calls rw)" "rw_events (set_call i c rw) = rw_events rw"
  "rw_order (set_call i c rw) = rw_order rw" "rw_rsOpen (set_call i c rw) = rw_rsOpen rw" "rw_rsPart (set_call i c rw) = rw_rsPart rw"
  "rw_msgOpen (set_call i c rw) = rw_msgOpen rw" "rw_reason (set_call i c rw) = rw_reason rw"
  "rw_text (set_call i c rw) = rw_text rw" "rw_refusal (set_call i c rw) = rw_refusal rw"
  "rw_messageParts (set_call i c rw) = rw_messageParts rw" "rw_rsID (set_call i c rw) = rw_rsID rw"
  "rw_msgID (set_call i c rw) = rw_msgID rw" "rw_rsOutIdx (set_call i c rw) = rw_rsOutIdx rw"
  "rw_msgOutIdx (set_call i c rw) = rw_msgOutIdx rw" "rw_nextIdx (set_call i c rw) = rw_nextIdx rw"
  "rw_drawn (set_call i c rw) = rw_drawn rw" "rw_streamErr (set_call i c rw) = rw_streamErr rw"
  "rw_terminalStatus (set_call i c rw) = rw_terminalStatus rw" "rw_begun (set_call i c rw) = rw_begun rw"
  "rw_finishReason (set_call i c rw) = rw_finishReason rw" "rw_mode (set_call i c rw) = rw_mode rw"
  "rw_usage (set_call i c rw) = rw_usage rw" "rw_modelName (set_call i c rw) = rw_modelName rw"
  "rw_respID (set_call i c rw) = rw_respID rw" "rw_created (set_call i c rw) = rw_created rw"
  "rw_sawDone (set_call i c rw) = rw_sawDone rw"
  by (simp_all add: set_call_def)

lemmas sim_defs = sim_def text_ok_def calls_ok_def index_ok_def shown_def

subsection \<open>Reasoning\<close>

lemma view_append: "view_of (xs @ ys) = (case view_of xs of None \<Rightarrow> None | Some v \<Rightarrow> follow ys v)"
  by (simp add: view_of_def follow_append)

lemma simD:
  assumes "sim e rw v"
  shows "text_ok rw" "calls_ok e rw" "index_ok rw" "vw_phase v = InProgress" "vw_done v = []" "shown rw (mget (vw_items v))"
  using assms by (simp_all add: sim_def)

lemma simulates:
  assumes "follow es v = Some v'" "text_ok rw" "calls_ok e rw" "index_ok rw" "vw_phase v' = InProgress" "vw_done v' = []"
    and "shown rw (mget (vw_items v'))"
  shows "\<exists>v'. follow es v = Some v' \<and> sim e rw v'"
  using assms unfolding sim_def by blast

text \<open>The client knows no index that was not given out, so the next one is new.\<close>

lemma shown_below:
  assumes "shown rw items" "index_ok rw" "items idx \<noteq> None"
  shows "idx < rw_nextIdx rw"
proof -
  from assms(1,3) consider "rw_reason rw \<noteq> []" "idx = rw_rsOutIdx rw" | "rw_msgOpen rw" "idx = rw_msgOutIdx rw"
    | i c where "mget (rw_calls rw) i = Some c" "idx = ca_outIdx c"
    unfolding shown_def by blast
  then show ?thesis using assms(2) by cases (auto simp: index_ok_def)
qed

lemma next_index_new: "sim e rw v \<Longrightarrow> mget (vw_items v) (rw_nextIdx rw) = None"
  using shown_below [of rw "mget (vw_items v)" "rw_nextIdx rw"] unfolding sim_def by blast

lemma call_below: "index_ok rw \<Longrightarrow> mget (rw_calls rw) i = Some c \<Longrightarrow> ca_outIdx c \<noteq> rw_nextIdx rw"
  unfolding index_ok_def by (metis less_irrefl)

text \<open>Only the fields a component reads matter to it.\<close>

lemma ok_cong:
  "rw_order rw' = rw_order rw \<Longrightarrow> rw_calls rw' = rw_calls rw \<Longrightarrow> calls_ok e rw' = calls_ok e rw"
  by (simp add: calls_ok_def)

text \<open>A change of one item in the client's hands.\<close>

lemma change_item:
  assumes "vw_phase v = InProgress" "vw_done v = []" "mget (vw_items v) idx = Some item" "view_id item = i" "f item = Some item'"
  shows "in_progress (change idx i f) v = Some (v\<lparr>vw_items := mput idx item' (vw_items v)\<rparr>)"
  using assms by (simp add: in_progress_def change_def)

definition put_item :: "nat \<Rightarrow> view_item \<Rightarrow> view \<Rightarrow> view" where
  "put_item idx item v = v\<lparr>vw_items := mput idx item (vw_items v)\<rparr>"

lemma put_item_fields [simp]:
  "vw_phase (put_item idx item v) = vw_phase v" "vw_done (put_item idx item v) = vw_done v"
  "mget (vw_items (put_item idx item v)) k = (if k = idx then Some item else mget (vw_items v) k)"
  by (simp_all add: put_item_def)

lemma reasoning_more:
  assumes "sim e rw v" "rw_reason rw \<noteq> []"
  shows "\<exists>v'. follow [EvRsDelta (rw_rsID rw) (rw_rsOutIdx rw) s] v = Some v' \<and> sim e (rw\<lparr>rw_reason := rw_reason rw @ s\<rparr>) v'"
proof -
  note d = simD [OF assms(1)]
  let ?v' = "put_item (rw_rsOutIdx rw) (VReasoning (rw_rsID rw) (POpen (rw_reason rw @ s))) v"
  have "mget (vw_items v) (rw_rsOutIdx rw) = Some (VReasoning (rw_rsID rw) (POpen (rw_reason rw)))"
    using d(6) assms(2) by (simp add: shown_def)
  then have "follow [EvRsDelta (rw_rsID rw) (rw_rsOutIdx rw) s] v = Some ?v'"
    using change_item [OF d(4,5)] by (simp add: put_item_def)
  then show ?thesis
  proof (rule simulates)
    show "text_ok (rw\<lparr>rw_reason := rw_reason rw @ s\<rparr>)" using d(1) assms(2) by (simp add: text_ok_def)
    show "index_ok (rw\<lparr>rw_reason := rw_reason rw @ s\<rparr>)" using d(3) assms(2) by (simp add: index_ok_def)
    show "shown (rw\<lparr>rw_reason := rw_reason rw @ s\<rparr>) (mget (vw_items ?v'))"
      using d(3,6) assms(2) by (auto simp: shown_def index_ok_def content_def)
    show "calls_ok e (rw\<lparr>rw_reason := rw_reason rw @ s\<rparr>)" using d(2) by (simp add: calls_ok_def)
  qed (use d in simp_all)
qed

lemma mput_twice [simp]: "mput k a (mput k b m) = mput k a m"
  by (induction m) auto

lemma reasoning_first:
  assumes "sim e rw v" "rw_reason rw = []" "s \<noteq> []"
  shows "\<exists>v'. follow [EvItemAdded (rw_nextIdx rw) (reasoningItem rw ''in_progress''), EvRsPartAdded (rw_rsID rw) (rw_nextIdx rw),
      EvRsDelta (rw_rsID rw) (rw_nextIdx rw) s] v = Some v'
    \<and> sim e (rw\<lparr>rw_rsOutIdx := rw_nextIdx rw, rw_nextIdx := rw_nextIdx rw + 1, rw_rsOpen := True, rw_rsPart := True, rw_reason := s\<rparr>) v'"
    (is "\<exists>v'. follow ?es v = Some v' \<and> sim e ?rw' v'")
proof -
  note d = simD [OF assms(1)]
  let ?i = "rw_nextIdx rw" and ?id = "rw_rsID rw"
  let ?v1 = "put_item ?i (VReasoning ?id PNone) v"
  let ?v2 = "put_item ?i (VReasoning ?id (POpen [])) ?v1"
  let ?v3 = "put_item ?i (VReasoning ?id (POpen s)) ?v2"
  note new = next_index_new [OF assms(1)]
  have "?id \<noteq> []" using d(1) by (simp add: text_ok_def)
  then have "client_step (EvItemAdded ?i (reasoningItem rw ''in_progress'')) v = Some ?v1"
    using new d(4) by (simp add: in_progress_def item_of_def reasoningItem_def get_str_def str_or_empty_def Let_def put_item_def)
  moreover have "client_step (EvRsPartAdded ?id ?i) ?v1 = Some ?v2"
    using change_item [of ?v1 ?i "VReasoning ?id PNone" ?id "on_summary open_summary"] d(4,5) by (simp add: put_item_def)
  moreover have "client_step (EvRsDelta ?id ?i s) ?v2 = Some ?v3"
    using change_item [of ?v2 ?i "VReasoning ?id (POpen [])" ?id "on_summary (add_delta s)"] d(4,5) by (simp add: put_item_def)
  ultimately have "follow ?es v = Some ?v3" by simp
  then show ?thesis
  proof (rule simulates)
    show "text_ok ?rw'" using d(1) assms(2,3) by (simp add: text_ok_def)
    show "index_ok ?rw'"
      using d(3) assms(2) call_below [OF d(3)] unfolding index_ok_def by (auto simp: less_Suc_eq)
    show "shown ?rw' (mget (vw_items ?v3))"
      using d(3,6) assms(2,3) call_below [OF d(3)] unfolding shown_def index_ok_def by (auto simp: content_def)
    show "calls_ok e ?rw'" using d(2) by (simp add: calls_ok_def)
  qed (use d in simp_all)
qed

lemma followedI:
  assumes "view_of (evs rw) = Some v" "\<exists>v'. follow es v = Some v' \<and> sim e rw1 v'" "evs rw' = evs rw @ es"
    and "sim e rw1 = sim e rw'"
  shows "followed e rw'"
  using assms by (auto simp: followed_def view_append)

text \<open>The simulation does not look at the output, the mode or the errors.\<close>

definition same_items :: "responsesWriter \<Rightarrow> responsesWriter \<Rightarrow> bool" where
  "same_items rw rw' \<longleftrightarrow> rw_reason rw' = rw_reason rw \<and> rw_rsOpen rw' = rw_rsOpen rw \<and> rw_rsPart rw' = rw_rsPart rw
     \<and> rw_msgOpen rw' = rw_msgOpen rw \<and> rw_messageParts rw' = rw_messageParts rw \<and> rw_text rw' = rw_text rw
     \<and> rw_refusal rw' = rw_refusal rw \<and> rw_rsID rw' = rw_rsID rw \<and> rw_msgID rw' = rw_msgID rw \<and> rw_order rw' = rw_order rw
     \<and> rw_calls rw' = rw_calls rw \<and> rw_nextIdx rw' = rw_nextIdx rw \<and> rw_rsOutIdx rw' = rw_rsOutIdx rw
     \<and> rw_msgOutIdx rw' = rw_msgOutIdx rw"

lemma sim_cong:
  assumes "same_items rw rw'"
  shows "sim e rw' = sim e rw"
proof
  fix v
  have "content rw' = content rw" using assms by (auto simp: content_def same_items_def)
  moreover have "text_ok rw' = text_ok rw" using assms by (simp add: text_ok_def same_items_def)
  moreover have "calls_ok e rw' = calls_ok e rw" using assms by (simp add: calls_ok_def same_items_def)
  moreover have "index_ok rw' = index_ok rw" using assms by (simp add: index_ok_def same_items_def)
  ultimately show "sim e rw' v = sim e rw v" using assms by (simp add: sim_def shown_def same_items_def)
qed

lemma followed_same: "followed e rw \<Longrightarrow> same_items rw rw' \<Longrightarrow> evs rw' = evs rw \<Longrightarrow> followed e rw'"
  by (simp add: followed_def sim_cong)

lemma followed_reasoning:
  assumes "followed e rw" "s \<noteq> []"
  shows "followed e (reasoningDelta e s rw)"
proof -
  obtain v where v: "view_of (evs rw) = Some v" "sim e rw v" using assms(1) by (auto simp: followed_def)
  note t = simD(1) [OF v(2)]
  show ?thesis
  proof (cases "rw_reason rw = []")
    case True
    then have shut: "\<not> rw_rsOpen rw" "\<not> rw_rsPart rw" using t by (auto simp: text_ok_def)
    show ?thesis
      by (rule followedI [OF v(1) reasoning_first [OF v(2) True assms(2)]])
        (use True shut in \<open>simp_all add: reasoningDelta_def openSummary_def openReasoning_def Let_def sim_cong same_items_def
           reasoningItem_def\<close>)
  next
    case False
    then have opened: "rw_rsOpen rw" "rw_rsPart rw" using t by (auto simp: text_ok_def)
    show ?thesis
      by (rule followedI [OF v(1) reasoning_more [OF v(2) False, of s]])
        (use False opened in \<open>simp_all add: reasoningDelta_def openSummary_def openReasoning_def Let_def sim_cong same_items_def\<close>)
  qed
qed


subsection \<open>The message\<close>

definition add_text :: "string \<Rightarrow> string \<Rightarrow> responsesWriter \<Rightarrow> responsesWriter" where
  "add_text kind s rw =
     (if kind = ''refusal'' then rw\<lparr>rw_refusal := rw_refusal rw @ s\<rparr> else rw\<lparr>rw_text := rw_text rw @ s\<rparr>)"

definition text_event :: "string \<Rightarrow> string \<Rightarrow> nat \<Rightarrow> nat \<Rightarrow> string \<Rightarrow> event" where
  "text_event kind i idx c s = (if kind = ''refusal'' then EvRefusalDelta i idx c s else EvTextDelta i idx c s)"

lemma position_of: "position_of k ks = Some c \<Longrightarrow> c < length ks \<and> ks ! c = k"
  by (induction ks arbitrary: c) (auto split: if_splits)

lemma position_of_None: "position_of k ks = None \<longleftrightarrow> k \<notin> set ks"
  by (induction ks) auto

definition empty_part :: "string \<Rightarrow> obj" where
  "empty_part kind = (if kind = ''output_text'' then text_part [] else refusal_part [])"

lemma message_open:
  assumes "sim e rw v" "\<not> rw_msgOpen rw"
  shows "\<exists>v'. follow [EvItemAdded (rw_nextIdx rw) (messageItem rw ''in_progress'')] v = Some v'
    \<and> sim e (rw\<lparr>rw_msgOutIdx := rw_nextIdx rw, rw_nextIdx := rw_nextIdx rw + 1, rw_msgOpen := True\<rparr>) v'"
    (is "\<exists>v'. follow ?es v = Some v' \<and> sim e ?rw' v'")
proof -
  note d = simD [OF assms(1)]
  let ?i = "rw_nextIdx rw" and ?id = "rw_msgID rw"
  let ?v' = "put_item ?i (VMessage ?id []) v"
  have parts: "rw_messageParts rw = []" "?id \<noteq> []" using d(1) assms(2) by (auto simp: text_ok_def)
  then have "follow ?es v = Some ?v'"
    using next_index_new [OF assms(1)] d(4)
    by (simp add: in_progress_def item_of_def messageItem_def get_str_def str_or_empty_def Let_def put_item_def)
  then show ?thesis
  proof (rule simulates)
    show "text_ok ?rw'" using d(1) by (simp add: text_ok_def)
    show "index_ok ?rw'"
      using d(3) assms(2) call_below [OF d(3)] unfolding index_ok_def by (auto simp: less_Suc_eq)
    show "shown ?rw' (mget (vw_items ?v'))"
      using d(3,6) assms(2) parts call_below [OF d(3)] unfolding shown_def index_ok_def by (auto simp: content_def)
    show "calls_ok e ?rw'" using d(2) by (simp add: calls_ok_def)
  qed (use d in simp_all)
qed

lemma message_part_added:
  assumes "sim e rw v" "rw_msgOpen rw" "k \<in> {''output_text'', ''refusal''}" "k \<notin> set (rw_messageParts rw)"
  shows "\<exists>v'. follow [EvPartAdded (rw_msgID rw) (rw_msgOutIdx rw) (length (rw_messageParts rw)) (empty_part k)] v = Some v'
    \<and> sim e (rw\<lparr>rw_messageParts := rw_messageParts rw @ [k]\<rparr>) v'"
    (is "\<exists>v'. follow ?es v = Some v' \<and> sim e ?rw' v'")
proof -
  note d = simD [OF assms(1)]
  let ?ps = "map (\<lambda>k. (k, POpen (content rw k))) (rw_messageParts rw)"
  let ?v' = "put_item (rw_msgOutIdx rw) (VMessage (rw_msgID rw) (?ps @ [(k, POpen [])])) v"
  have item: "mget (vw_items v) (rw_msgOutIdx rw) = Some (VMessage (rw_msgID rw) ?ps)"
    using d(6) assms(2) by (simp add: shown_def)
  have "get_str (empty_part k) ''type'' = k"
    using assms(3) by (auto simp: empty_part_def text_part_def refusal_part_def get_str_def str_or_empty_def)
  then have "follow ?es v = Some ?v'"
    using change_item [OF d(4,5) item, of "rw_msgID rw" "add_part (length (rw_messageParts rw)) (empty_part k)"] assms(4)
    by (simp add: put_item_def comp_def)
  moreover have "content rw k = []"
    using d(1) assms(3,4) by (auto simp: text_ok_def content_def)
  then have items: "map (\<lambda>k. (k, POpen (content rw k))) (rw_messageParts rw @ [k]) = ?ps @ [(k, POpen [])]" by simp
  ultimately show ?thesis
  proof (elim simulates)
    show "text_ok ?rw'" using d(1) assms(2-4) by (auto simp: text_ok_def)
    show "index_ok ?rw'" using d(3) by (simp add: index_ok_def)
    have "content ?rw' = content rw" by (auto simp: content_def)
    then show "shown ?rw' (mget (vw_items ?v'))"
      using d(3,6) assms(2) items unfolding shown_def index_ok_def by auto
    show "calls_ok e ?rw'" using d(2) by (simp add: calls_ok_def)
  qed (use d in simp_all)
qed

lemma message_text_added:
  assumes "sim e rw v" "k \<in> {''output_text'', ''refusal''}" "position_of k (rw_messageParts rw) = Some c"
  shows "\<exists>v'. follow [text_event k (rw_msgID rw) (rw_msgOutIdx rw) c s] v = Some v' \<and> sim e (add_text k s rw) v'"
    (is "\<exists>v'. follow ?es v = Some v' \<and> sim e ?rw' v'")
proof -
  note d = simD [OF assms(1)]
  let ?ps = "\<lambda>rw. map (\<lambda>k. (k, POpen (content rw k))) (rw_messageParts rw)"
  have c: "c < length (rw_messageParts rw)" "rw_messageParts rw ! c = k" using position_of [OF assms(3)] by auto
  have op: "rw_msgOpen rw" and dist: "distinct (rw_messageParts rw)" using d(1) c(1) by (auto simp: text_ok_def)
  have item: "mget (vw_items v) (rw_msgOutIdx rw) = Some (VMessage (rw_msgID rw) (?ps rw))"
    using d(6) op by (simp add: shown_def)
  have parts': "rw_messageParts ?rw' = rw_messageParts rw" by (simp add: add_text_def)
  have content': "content ?rw' j = (if j = k then content rw k @ s else content rw j)" if "j \<in> {''output_text'', ''refusal''}" for j
    using assms(2) that by (auto simp: content_def add_text_def)
  have upd: "(?ps rw)[c := (k, POpen (content rw k @ s))] = ?ps ?rw'"
  proof (rule nth_equalityI)
    fix j assume j: "j < length ((?ps rw)[c := (k, POpen (content rw k @ s))])"
    then have "rw_messageParts rw ! j \<in> set (rw_messageParts rw)" by simp
    then have "rw_messageParts rw ! j \<in> {''output_text'', ''refusal''}" using d(1) unfolding text_ok_def by blast
    moreover have "rw_messageParts rw ! j = k \<longleftrightarrow> j = c" using c j dist by (auto simp: nth_eq_iff_index_eq)
    ultimately show "(?ps rw)[c := (k, POpen (content rw k @ s))] ! j = ?ps ?rw' ! j"
      using j c content' parts' by (auto simp: nth_list_update)
  qed (simp add: parts')
  let ?v' = "put_item (rw_msgOutIdx rw) (VMessage (rw_msgID rw) (?ps ?rw')) v"
  have "in_progress (change (rw_msgOutIdx rw) (rw_msgID rw) (on_part k c (add_delta s))) v = Some ?v'"
    unfolding put_item_def by (rule change_item [OF d(4,5) item]) (use c upd in simp_all)
  then have "follow ?es v = Some ?v'" using assms(2) by (auto simp: text_event_def)
  then show ?thesis
  proof (rule simulates)
    have "k \<in> set (rw_messageParts rw)" using c by (metis nth_mem)
    then show "text_ok ?rw'" using d(1) assms(2) by (auto simp: text_ok_def add_text_def)
    show "index_ok ?rw'" using d(3) by (simp add: index_ok_def add_text_def)
    show "shown ?rw' (mget (vw_items ?v'))"
      using d(3,6) op parts' unfolding shown_def index_ok_def by (auto simp: add_text_def)
    show "calls_ok e ?rw'" using d(2) by (simp add: calls_ok_def add_text_def)
  qed (use d in simp_all)
qed


lemma followed_open_message: "followed e rw \<Longrightarrow> followed e (openMessage e rw) \<and> rw_msgOpen (openMessage e rw)"
proof -
  assume "followed e rw"
  then obtain v where v: "view_of (evs rw) = Some v" "sim e rw v" by (auto simp: followed_def)
  show ?thesis
  proof (cases "rw_msgOpen rw")
    case True
    then show ?thesis using \<open>followed e rw\<close> by (simp add: openMessage_def)
  next
    case False
    have "followed e (openMessage e rw)"
      by (rule followedI [OF v(1) message_open [OF v(2) False]])
        (use False in \<open>simp_all add: openMessage_def Let_def sim_cong same_items_def messageItem_def\<close>)
    then show ?thesis using False by (simp add: openMessage_def Let_def)
  qed
qed

lemma followed_part:
  assumes "followed e rw" "k \<in> {''output_text'', ''refusal''}" "ensureMessagePart e k rw = (rw', c)"
  shows "followed e rw' \<and> position_of k (rw_messageParts rw') = Some c"
proof (cases "position_of k (rw_messageParts (openMessage e rw))")
  case (Some i)
  then show ?thesis using assms followed_open_message by (auto simp: ensureMessagePart_def Let_def)
next
  case None
  let ?r = "openMessage e rw"
  obtain v where v: "view_of (evs ?r) = Some v" "sim e ?r v" and op: "rw_msgOpen ?r"
    using followed_open_message [OF assms(1)] by (auto simp: followed_def)
  have new: "k \<notin> set (rw_messageParts ?r)" using None by (simp add: position_of_None)
  have "position_of k (ks @ [k]) = Some (length ks)" if "k \<notin> set ks" for ks using that by (induction ks) auto
  moreover have "followed e rw'"
    by (rule followedI [OF v(1) message_part_added [OF v(2) op assms(2) new]])
      (use None assms(3) in \<open>auto simp: ensureMessagePart_def Let_def empty_part_def intro!: sim_cong simp: same_items_def\<close>)
  ultimately show ?thesis using None assms(3) new by (auto simp: ensureMessagePart_def Let_def)
qed

lemma followed_text:
  assumes "followed e rw"
  shows "followed e (textDelta e s rw)" "followed e (refusalDelta e s rw)"
proof -
  have more: "followed e (emit_event e (text_event k (rw_msgID (add_text k s r)) (rw_msgOutIdx (add_text k s r)) c s) (add_text k s r))"
    if f: "followed e r" and k: "k \<in> {''output_text'', ''refusal''}" and c: "position_of k (rw_messageParts r) = Some c" for r k c
  proof -
    obtain v where v: "view_of (evs r) = Some v" "sim e r v" using f by (auto simp: followed_def)
    show ?thesis
      by (rule followedI [OF v(1) message_text_added [OF v(2) k c, of s]])
        (auto simp: add_text_def same_items_def intro!: sim_cong)
  qed
  obtain r c where "ensureMessagePart e ''output_text'' rw = (r, c)" by fastforce
  with more [of r "''output_text''" c] followed_part [OF assms] show "followed e (textDelta e s rw)"
    by (auto simp: textDelta_def Let_def add_text_def text_event_def)
  obtain r c where "ensureMessagePart e ''refusal'' rw = (r, c)" by fastforce
  with more [of r "''refusal''" c] followed_part [OF assms] show "followed e (refusalDelta e s rw)"
    by (auto simp: refusalDelta_def Let_def add_text_def text_event_def)
qed


subsection \<open>Calls\<close>

lemma shownD:
  assumes "shown rw items"
  shows "rw_reason rw \<noteq> [] \<Longrightarrow> items (rw_rsOutIdx rw) = Some (VReasoning (rw_rsID rw) (POpen (rw_reason rw)))"
    "rw_msgOpen rw \<Longrightarrow> items (rw_msgOutIdx rw)
          = Some (VMessage (rw_msgID rw) (map (\<lambda>k. (k, POpen (content rw k))) (rw_messageParts rw)))"
    "mget (rw_calls rw) i = Some c \<Longrightarrow> ca_opened c \<Longrightarrow> items (ca_outIdx c) = Some (call_view c)"
    "items idx \<noteq> None \<Longrightarrow> (rw_reason rw \<noteq> [] \<and> idx = rw_rsOutIdx rw) \<or> (rw_msgOpen rw \<and> idx = rw_msgOutIdx rw)
          \<or> (\<exists>i c. mget (rw_calls rw) i = Some c \<and> ca_opened c \<and> idx = ca_outIdx c)"
  using assms unfolding shown_def by blast+

lemma shown_calls:
  assumes "shown rw items"
    and "rw_reason rw' = rw_reason rw" "rw_rsOutIdx rw' = rw_rsOutIdx rw" "rw_rsID rw' = rw_rsID rw"
      "rw_msgOpen rw' = rw_msgOpen rw" "rw_msgOutIdx rw' = rw_msgOutIdx rw" "rw_msgID rw' = rw_msgID rw"
      "rw_messageParts rw' = rw_messageParts rw" "content rw' = content rw"
    and new: "\<And>j d. mget (rw_calls rw') j = Some d \<Longrightarrow> ca_opened d \<Longrightarrow> items (ca_outIdx d) = Some (call_view d)"
    and old: "\<And>j d. mget (rw_calls rw) j = Some d \<Longrightarrow> ca_opened d \<Longrightarrow>
      \<exists>j' d'. mget (rw_calls rw') j' = Some d' \<and> ca_opened d' \<and> ca_outIdx d' = ca_outIdx d"
  shows "shown rw' items"
proof -
  have "(rw_reason rw' \<noteq> [] \<and> k = rw_rsOutIdx rw') \<or> (rw_msgOpen rw' \<and> k = rw_msgOutIdx rw')
      \<or> (\<exists>j d. mget (rw_calls rw') j = Some d \<and> ca_opened d \<and> k = ca_outIdx d)" if k: "items k \<noteq> None" for k
  proof -
    consider "rw_reason rw \<noteq> [] \<and> k = rw_rsOutIdx rw" | "rw_msgOpen rw \<and> k = rw_msgOutIdx rw"
      | j d where "mget (rw_calls rw) j = Some d" "ca_opened d" "k = ca_outIdx d"
      using shownD(4) [OF assms(1) k] by blast
    then show ?thesis
    proof cases
      case (3 j d)
      then show ?thesis using old [of j d] by metis
    qed (use assms in simp_all)
  qed
  moreover note shownD(1,2) [OF assms(1)]
  ultimately show ?thesis using assms(2-9) new unfolding shown_def by simp
qed

lemma call_changed:
  assumes "sim e rw v" "mget (rw_calls rw) i = Some c" "call_ok e c'" "ca_outIdx c' = ca_outIdx c" "ca_opened c' = ca_opened c"
    and "ca_opened c \<Longrightarrow> call_view c' = call_view c"
  shows "sim e (set_call i c' rw) v"
proof -
  note d = simD [OF assms(1)]
  have "text_ok (set_call i c' rw)" using d(1) by (simp add: text_ok_def)
  moreover have "calls_ok e (set_call i c' rw)" using d(2) assms(2,3) by (auto simp: calls_ok_def)
  moreover have "index_ok (set_call i c' rw)" using d(3) assms(2,4) unfolding index_ok_def by (simp; blast)
  moreover have "shown (set_call i c' rw) (mget (vw_items v))"
  proof (rule shown_calls [OF d(6)])
    show "mget (vw_items v) (ca_outIdx d') = Some (call_view d')"
      if "mget (rw_calls (set_call i c' rw)) j = Some d'" "ca_opened d'" for j d'
      using that shownD(3) [OF d(6)] assms(2,4-6) by (auto split: if_splits)
    show "\<exists>j' d'. mget (rw_calls (set_call i c' rw)) j' = Some d' \<and> ca_opened d' \<and> ca_outIdx d' = ca_outIdx d"
      if "mget (rw_calls rw) j = Some d" "ca_opened d" for j d
    proof (cases "j = i")
      case True
      then show ?thesis using that assms(2,4,5) by (intro exI [of _ i] exI [of _ c']) simp
    next
      case False
      then show ?thesis using that by (intro exI [of _ j] exI [of _ d]) simp
    qed
  qed (auto simp: content_def)
  ultimately show ?thesis using d(4,5) by (simp add: sim_def)
qed

lemma index_okD:
  assumes "index_ok rw" "mget (rw_calls rw) i = Some c"
  shows "ca_outIdx c < rw_nextIdx rw" "rw_reason rw \<noteq> [] \<Longrightarrow> ca_outIdx c \<noteq> rw_rsOutIdx rw"
    "rw_msgOpen rw \<Longrightarrow> ca_outIdx c \<noteq> rw_msgOutIdx rw"
    "mget (rw_calls rw) j = Some d \<Longrightarrow> ca_outIdx d = ca_outIdx c \<Longrightarrow> j = i"
  using assms unfolding index_ok_def by blast+

text \<open>A call that is open in the end, and whose item the client has accordingly.\<close>

lemma shown_call:
  assumes shown: "shown rw items" and idx: "index_ok rw" and c: "mget (rw_calls rw) i = Some c"
    and c': "ca_outIdx c' = ca_outIdx c" "ca_opened c'"
    and items': "\<And>k. items' k = (if k = ca_outIdx c then Some (call_view c') else items k)"
  shows "shown (set_call i c' rw) items'"
proof -
  note i = index_okD [OF idx c]
  have "content (set_call i c' rw) = content rw" by (auto simp: content_def)
  moreover have "rw_reason rw \<noteq> [] \<longrightarrow> items' (rw_rsOutIdx rw) = Some (VReasoning (rw_rsID rw) (POpen (rw_reason rw)))"
    using shown i(2) by (auto simp: shown_def items')
  moreover have "rw_msgOpen rw \<longrightarrow> items' (rw_msgOutIdx rw)
      = Some (VMessage (rw_msgID rw) (map (\<lambda>k. (k, POpen (content rw k))) (rw_messageParts rw)))"
    using shown i(3) by (auto simp: shown_def items')
  moreover have "items' (ca_outIdx d) = Some (call_view d)"
    if "mget (rw_calls (set_call i c' rw)) j = Some d" "ca_opened d" for j d
  proof (cases "j = i")
    case False
    then have j: "mget (rw_calls rw) j = Some d" using that by simp
    then have "ca_outIdx d \<noteq> ca_outIdx c" using i(4) False by blast
    moreover have "items (ca_outIdx d) = Some (call_view d)" using shown j that(2) unfolding shown_def by blast
    ultimately show ?thesis by (simp add: items')
  qed (use that c' in \<open>simp add: items'\<close>)
  moreover have "(rw_reason rw \<noteq> [] \<and> k = rw_rsOutIdx rw) \<or> (rw_msgOpen rw \<and> k = rw_msgOutIdx rw)
      \<or> (\<exists>j d. mget (rw_calls (set_call i c' rw)) j = Some d \<and> ca_opened d \<and> k = ca_outIdx d)" if "items' k \<noteq> None" for k
  proof (cases "k = ca_outIdx c")
    case True
    then show ?thesis using c' by (intro disjI2 exI [of _ i] exI [of _ c']) simp
  next
    case False
    then have "items k \<noteq> None" using that by (simp add: items')
    then consider "rw_reason rw \<noteq> [] \<and> k = rw_rsOutIdx rw" | "rw_msgOpen rw \<and> k = rw_msgOutIdx rw"
      | j d where "mget (rw_calls rw) j = Some d" "ca_opened d" "k = ca_outIdx d"
      using shown unfolding shown_def by blast
    then show ?thesis
    proof cases
      case (3 j d)
      then have "j \<noteq> i" using False c by auto
      with 3 show ?thesis by (intro disjI2 exI [of _ j] exI [of _ d]) simp
    qed simp_all
  qed
  ultimately show ?thesis unfolding shown_def by simp
qed

lemma call_registered:
  assumes "sim e rw v" "mget (rw_calls rw) i = None"
  shows "sim e (register_call i rw) v"
proof -
  note d = simD [OF assms(1)]
  let ?rw' = "register_call i rw"
  have eq: "?rw' = (set_call i (new_call (rw_nextIdx rw)) rw)\<lparr>rw_nextIdx := rw_nextIdx rw + 1, rw_order := rw_order rw @ [i]\<rparr>"
    using assms(2) by (simp add: register_call_def)
  have "text_ok ?rw'" using d(1) by (simp add: text_ok_def eq)
  moreover have "calls_ok e ?rw'" using d(2) assms(2) by (auto simp: calls_ok_def eq call_ok_def new_call_def)
  moreover have "index_ok ?rw'"
  proof -
    have below: "\<forall>j d. mget (rw_calls rw) j = Some d \<longrightarrow> ca_outIdx d \<noteq> rw_nextIdx rw" using call_below [OF d(3)] by blast
    have "rw_reason rw \<noteq> [] \<longrightarrow> rw_nextIdx rw \<noteq> rw_rsOutIdx rw" "rw_msgOpen rw \<longrightarrow> rw_nextIdx rw \<noteq> rw_msgOutIdx rw"
      using d(3) unfolding index_ok_def by auto
    with below d(3) show ?thesis unfolding index_ok_def eq by (simp add: less_Suc_eq new_call_def; metis)
  qed
  moreover have "shown ?rw' (mget (vw_items v))"
  proof (rule shown_calls [OF d(6)])
    show "mget (vw_items v) (ca_outIdx d') = Some (call_view d')"
      if "mget (rw_calls ?rw') j = Some d'" "ca_opened d'" for j d'
      using that shownD(3) [OF d(6)] by (auto simp: eq new_call_def split: if_splits)
    show "\<exists>j' d'. mget (rw_calls ?rw') j' = Some d' \<and> ca_opened d' \<and> ca_outIdx d' = ca_outIdx c"
      if "mget (rw_calls rw) j = Some c" "ca_opened c" for j c
      using that assms(2) by (intro exI [of _ j] exI [of _ c]) (auto simp: eq)
  qed (auto simp: content_def eq)
  ultimately show ?thesis using d(4,5) by (simp add: sim_def)
qed

lemma call_opened:
  assumes "sim e rw v" "mget (rw_calls rw) i = Some c" "\<not> ca_opened c" "ca_name c \<noteq> []" "ca_callID c \<noteq> []"
    and id: "cid \<noteq> []" and kind: "is_str item ''type'' (if ca_custom c then ''custom_tool_call'' else ''function_call'')"
    and item: "get_str item ''id'' = cid" "get_str item ''status'' = ''in_progress''"
  shows "\<exists>v'. follow [EvItemAdded (ca_outIdx c) item] v = Some v' \<and> sim e (set_call i (c\<lparr>ca_opened := True, ca_id := cid\<rparr>) rw) v'"
    (is "\<exists>v'. follow ?es v = Some v' \<and> sim e ?rw' v'")
proof -
  note d = simD [OF assms(1)]
  let ?c' = "c\<lparr>ca_opened := True, ca_id := cid\<rparr>"
  let ?v' = "put_item (ca_outIdx c) (call_view ?c') v"
  have ok: "call_ok e c" using d(2) assms(2) by (auto simp: calls_ok_def)
  note idx = index_okD [OF d(3) assms(2)]
  have "mget (vw_items v) (ca_outIdx c) = None"
  proof (rule ccontr)
    assume "mget (vw_items v) (ca_outIdx c) \<noteq> None"
    then obtain j d where "mget (rw_calls rw) j = Some d" "ca_opened d" "ca_outIdx c = ca_outIdx d"
      using d(6) idx(2,3) unfolding shown_def by blast
    then show False using idx(4) [of j d] assms(2,3) by auto
  qed
  moreover have "item_of item = Some (call_view ?c')"
    using item kind id ok assms(3) by (auto simp: item_of_def call_view_def is_str_def get_str_def str_or_empty_def call_ok_def Let_def)
  ultimately have "follow ?es v = Some ?v'" using d(4) by (simp add: in_progress_def put_item_def)
  then show ?thesis
  proof (rule simulates)
    show "text_ok ?rw'" using d(1) by (simp add: text_ok_def)
    show "calls_ok e ?rw'" using d(2) assms(2-5) ok id by (auto simp: calls_ok_def call_ok_def)
    show "index_ok ?rw'" using d(3) assms(2) unfolding index_ok_def by (simp; blast)
    show "shown ?rw' (mget (vw_items ?v'))"
      by (rule shown_call [OF d(6) d(3) assms(2)]) (use assms(3) in simp_all)
  qed (use d in simp_all)
qed

lemma call_arguments_sent:
  assumes "sim e rw v" "mget (rw_calls rw) i = Some c" "ca_opened c" "\<not> ca_custom c"
  shows "\<exists>v'. follow [EvArgsDelta (ca_id c) (ca_outIdx c) (drop (ca_sentArgs c) (ca_args c))] v = Some v'
    \<and> sim e (set_call i (c\<lparr>ca_sentArgs := length (ca_args c)\<rparr>) rw) v'"
    (is "\<exists>v'. follow ?es v = Some v' \<and> sim e ?rw' v'")
proof -
  note d = simD [OF assms(1)]
  let ?c' = "c\<lparr>ca_sentArgs := length (ca_args c)\<rparr>"
  let ?v' = "put_item (ca_outIdx c) (call_view ?c') v"
  have ok: "call_ok e c" using d(2) assms(2) by (auto simp: calls_ok_def)
  have item: "mget (vw_items v) (ca_outIdx c) = Some (call_view c)" using d(6) assms(2,3) unfolding shown_def by blast
  note idx = index_okD [OF d(3) assms(2)]
  have "follow ?es v = Some ?v'"
    using change_item [OF d(4,5) item, of "ca_id c" "on_arguments (add_delta (drop (ca_sentArgs c) (ca_args c)))"] assms(4)
    by (simp add: call_view_def put_item_def)
  then show ?thesis
  proof (rule simulates)
    show "text_ok ?rw'" using d(1) by (simp add: text_ok_def)
    show "calls_ok e ?rw'" using d(2) assms(2-4) ok by (auto simp: calls_ok_def call_ok_def)
    show "index_ok ?rw'" using d(3) assms(2) unfolding index_ok_def by (simp; blast)
    show "shown ?rw' (mget (vw_items ?v'))"
      by (rule shown_call [OF d(6) d(3) assms(2)]) (use assms(3) in simp_all)
  qed (use d in simp_all)
qed


text \<open>The tables agree on which names belong to custom tools; those of an accepted request do.\<close>

definition tables_agree :: "tool_tables \<Rightarrow> bool" where
  "tables_agree t \<longleftrightarrow> (\<forall>w a. mget (tt_aliases t) w = Some a \<longrightarrow> (al_custom a \<longleftrightarrow> w \<in> set (tt_custom t)))"

lemma custom_flag: "tables_agree t \<Longrightarrow> snd (snd (responsesToolName t w)) \<longleftrightarrow> w \<in> set (tt_custom t)"
  by (auto simp: responsesToolName_def tables_agree_def split: option.split)

lemma call_object_fields:
  assumes "tables_agree t"
  shows "get_str (call_object marshal t i status cid w args) ''id'' = i"
    "get_str (call_object marshal t i status cid w args) ''status'' = status"
    "is_str (call_object marshal t i status cid w args) ''type'' (if w \<in> set (tt_custom t) then ''custom_tool_call'' else ''function_call'')"
proof -
  obtain n ns custom where p: "responsesToolName t w = (n, ns, custom)" by (cases "responsesToolName t w") auto
  have "custom \<longleftrightarrow> w \<in> set (tt_custom t)" using custom_flag [OF assms, of w] p by simp
  then show "get_str (call_object marshal t i status cid w args) ''id'' = i"
    "get_str (call_object marshal t i status cid w args) ''status'' = status"
    "is_str (call_object marshal t i status cid w args) ''type'' (if w \<in> set (tt_custom t) then ''custom_tool_call'' else ''function_call'')"
    by (simp_all add: call_object_def p get_str_def str_or_empty_def is_str_def)
qed

lemma followedE:
  assumes "followed e rw"
  obtains v where "view_of (evs rw) = Some v" "sim e rw v"
  using assms by (auto simp: followed_def)

lemma followed_call_changed:
  assumes "followed e rw" "mget (rw_calls rw) i = Some c" "call_ok e c'" "ca_outIdx c' = ca_outIdx c" "ca_opened c' = ca_opened c"
    and "ca_opened c \<Longrightarrow> call_view c' = call_view c"
  shows "followed e (set_call i c' rw)"
  using assms call_changed by (metis followed_def set_call_fields(2))

lemma followed_calls: "followed e rw \<Longrightarrow> calls_ok e rw"
  by (auto simp: followed_def sim_def)

lemma followed_call_ok: "followed e rw \<Longrightarrow> mget (rw_calls rw) i = Some c \<Longrightarrow> call_ok e c"
  using followed_calls [of e rw] unfolding calls_ok_def by blast

lemma followed_open_call:
  assumes "followed e rw" "tables_agree (rq_tables (en_req e))" "mget (rw_calls rw) i = Some c" "ca_name c \<noteq> []" "ca_callID c \<noteq> []"
  shows "followed e (openCall marshal e i rw) \<and> mget (rw_calls (openCall marshal e i rw)) i \<noteq> None
    \<and> ca_opened (the_call (openCall marshal e i rw) i)"
proof (cases "ca_opened c")
  case True
  then show ?thesis using assms by (simp add: openCall_def the_call_def Let_def)
next
  case False
  obtain v where v: "view_of (evs rw) = Some v" "sim e rw v" using assms(1) by (rule followedE)
  let ?id = "newRespID e (if ca_custom c then ''ctc_'' else ''fc_'') (rw_drawn rw)"
  let ?c' = "c\<lparr>ca_opened := True, ca_id := ?id\<rparr>"
  let ?item = "callItem marshal e ?c' ''in_progress''"
  have "call_ok e c" using followed_call_ok assms by blast
  then have custom: "ca_custom c \<longleftrightarrow> ca_name c \<in> set (tt_custom (rq_tables (en_req e)))" using assms(4) by (simp add: call_ok_def)
  have item: "get_str ?item ''id'' = ?id" "get_str ?item ''status'' = ''in_progress''"
    "is_str ?item ''type'' (if ca_custom c then ''custom_tool_call'' else ''function_call'')"
    using call_object_fields [OF assms(2)] custom by (simp_all add: callItem_def)
  have id: "?id \<noteq> []" by (simp add: newRespID_def)
  have "followed e (openCall marshal e i rw)"
    by (rule followedI [OF v(1) call_opened [OF v(2) assms(3) False assms(4,5) id item(3,1,2)]])
      (use assms False in \<open>auto simp: openCall_def the_call_def Let_def same_items_def intro!: sim_cong\<close>)
  then show ?thesis using assms False by (simp add: openCall_def the_call_def Let_def)
qed

lemma followed_arguments:
  assumes "followed e rw" "mget (rw_calls rw) i = Some c" "ca_opened c"
  shows "followed e (sendArguments e i rw)"
proof (cases "ca_custom c \<or> \<not> ca_sentArgs c < length (ca_args c)")
  case True
  then show ?thesis using assms by (auto simp: sendArguments_def the_call_def Let_def)
next
  case False
  obtain v where v: "view_of (evs rw) = Some v" "sim e rw v" using assms(1) by (rule followedE)
  show ?thesis
    by (rule followedI [OF v(1) call_arguments_sent [OF v(2) assms(2,3)]])
      (use assms False in \<open>auto simp: sendArguments_def the_call_def Let_def same_items_def intro!: sim_cong\<close>)
qed

lemma calls_kept [simp]:
  "mget (rw_calls (openCall marshal e i rw)) j \<noteq> None \<longleftrightarrow> (j = i \<and> ca_name (the_call rw i) \<noteq> [] \<and> ca_callID (the_call rw i) \<noteq> []
     \<and> \<not> ca_opened (the_call rw i)) \<or> mget (rw_calls rw) j \<noteq> None"
  by (auto simp: openCall_def Let_def)

lemma followed_flush_calls:
  assumes "followed e rw" "tables_agree (rq_tables (en_req e))" "\<forall>i \<in> set is. mget (rw_calls rw) i \<noteq> None"
  shows "followed e (flush_calls marshal e is rw)"
  using assms
proof (induction "is" arbitrary: rw)
  case (Cons i "is")
  obtain c where c: "mget (rw_calls rw) i = Some c" using Cons.prems(3) by auto
  show ?case
  proof (cases "\<not> ca_opened c \<and> (ca_name c = [] \<or> ca_callID c = [])")
    case True
    then show ?thesis using Cons.prems c by (simp add: the_call_def Let_def)
  next
    case False
    have "call_ok e c" using followed_call_ok Cons.prems(1) c by blast
    then have "ca_name c \<noteq> []" "ca_callID c \<noteq> []" using False by (auto simp: call_ok_def)
    note o = followed_open_call [OF Cons.prems(1,2) c this, of marshal]
    then obtain c' where c': "mget (rw_calls (openCall marshal e i rw)) i = Some c'" by auto
    then have "followed e (sendArguments e i (openCall marshal e i rw))"
      using o by (intro followed_arguments [OF _ c']) (auto simp: the_call_def)
    moreover have "\<forall>j \<in> set is. mget (rw_calls (sendArguments e i (openCall marshal e i rw))) j \<noteq> None"
      using Cons.prems(3) calls_kept [of marshal e i rw] by (auto simp: sendArguments_def Let_def simp del: calls_kept)
    ultimately have "followed e (flush_calls marshal e is (sendArguments e i (openCall marshal e i rw)))"
      using Cons.IH Cons.prems(2) by blast
    then show ?thesis using False c by (auto simp: the_call_def Let_def)
  qed
qed simp

lemma followed_flush:
  assumes "followed e rw" "tables_agree (rq_tables (en_req e))"
  shows "followed e (flushReadyCalls marshal e rw)"
  using assms followed_calls [OF assms(1)] by (auto simp: flushReadyCalls_def calls_ok_def intro!: followed_flush_calls)


subsection \<open>Chunks\<close>

lemma followed_fail: "followed e rw \<Longrightarrow> followed e (failOutput code m rw)"
  by (erule followed_same) (simp_all add: failOutput_def same_items_def)

definition either :: "(responsesWriter \<Rightarrow> bool) \<Rightarrow> responsesWriter + responsesWriter \<Rightarrow> int \<Rightarrow> bool" where
  "either P r index \<longleftrightarrow> (case r of Inl rw \<Rightarrow> P rw | Inr rw \<Rightarrow> P rw \<and> mget (rw_calls rw) index \<noteq> None)"

lemma either_simps [simp]:
  "either P (Inl rw) i = P rw" "either P (Inr rw) i = (P rw \<and> mget (rw_calls rw) i \<noteq> None)"
  by (simp_all add: either_def)

lemma either_andthen: "either P r i \<Longrightarrow> (\<And>rw. P rw \<Longrightarrow> mget (rw_calls rw) i \<noteq> None \<Longrightarrow> either P (k rw) i) \<Longrightarrow> either P (andthen r k) i"
  by (cases r) auto

lemma fail_calls [simp]: "rw_calls (failOutput code m rw) = rw_calls rw"
  by (simp add: failOutput_def)

lemma followed_register:
  assumes "followed e rw"
  shows "followed e (register_call i rw) \<and> mget (rw_calls (register_call i rw)) i \<noteq> None"
proof (cases "mget (rw_calls rw) i")
  case None
  obtain v where "view_of (evs rw) = Some v" "sim e rw v" using assms by (rule followedE)
  then have "view_of (evs (register_call i rw)) = Some v" "sim e (register_call i rw) v"
    using call_registered None by (simp_all add: register_call_def)
  then show ?thesis using None by (auto simp: followed_def register_call_def)
qed (use assms in \<open>simp add: register_call_def\<close>)

lemma followed_delta_id:
  assumes "followed e rw" "mget (rw_calls rw) i \<noteq> None"
  shows "either (followed e) (delta_id tm i rw) i"
proof -
  obtain c where c: "mget (rw_calls rw) i = Some c" using assms(2) by auto
  have ok: "call_ok e c" using followed_call_ok assms(1) c by blast
  have "followed e (set_call i (c\<lparr>ca_callID := val\<rparr>) rw)" if "val \<noteq> []" for val
    by (rule followed_call_changed [OF assms(1) c]) (use ok that in \<open>auto simp: call_ok_def call_view_def\<close>)
  then show ?thesis using assms c by (simp add: delta_id_def the_call_def Let_def followed_fail)
qed

lemma followed_delta_name:
  assumes "followed e rw" "mget (rw_calls rw) i \<noteq> None"
  shows "either (followed e) (delta_name e fn i rw) i"
proof -
  obtain c where c: "mget (rw_calls rw) i = Some c" using assms(2) by auto
  have ok: "call_ok e c" using followed_call_ok assms(1) c by blast
  have "followed e (set_call i (c\<lparr>ca_name := val, ca_custom := val \<in> set (tt_custom (rq_tables (en_req e)))\<rparr>) rw)"
    if "val \<noteq> []" "ca_name c = [] \<or> ca_name c = val" for val
    by (rule followed_call_changed [OF assms(1) c]) (use ok that in \<open>auto simp: call_ok_def call_view_def\<close>)
  then show ?thesis using assms c by (auto simp: delta_name_def the_call_def Let_def followed_fail)
qed

lemma followed_delta_arguments:
  assumes "followed e rw" "mget (rw_calls rw) i \<noteq> None"
  shows "either (followed e) (delta_arguments fn i rw) i"
proof -
  obtain c where c: "mget (rw_calls rw) i = Some c" using assms(2) by auto
  have ok: "call_ok e c" using followed_call_ok assms(1) c by blast
  have "followed e (set_call i (c\<lparr>ca_argumentsSeen := True, ca_args := ca_args c @ args\<rparr>) rw)" for args
    by (rule followed_call_changed [OF assms(1) c]) (use ok in \<open>auto simp: call_ok_def call_view_def\<close>)
  then show ?thesis using assms c
    by (simp add: delta_arguments_def the_call_def Let_def followed_fail split: option.split json.split)
qed

lemma followed_entry:
  assumes "followed e rw"
  shows "case toolCallEntry e item rw of Inl rw' \<Rightarrow> followed e rw' | Inr rw' \<Rightarrow> followed e rw'"
proof (cases item)
  case (JObj tm)
  let ?i = "get_index 0 tm"
  have "either (followed e) (toolCallEntry e item rw) ?i"
    unfolding toolCallEntry_def JObj json.case Let_def
  proof (rule either_andthen)
    show "either (followed e) (delta_id tm ?i (register_call ?i rw)) ?i"
      using followed_register [OF assms] by (intro followed_delta_id) auto
    fix rw1 assume r: "followed e rw1" "mget (rw_calls rw1) ?i \<noteq> None"
    then show "either (followed e) (case mget tm ''function'' of Some (JObj fn) \<Rightarrow> andthen (delta_name e fn ?i rw1) (delta_arguments fn ?i)
        | _ \<Rightarrow> Inr rw1) ?i"
      by (auto split: option.split json.split intro!: either_andthen followed_delta_name followed_delta_arguments)
  qed
  then show ?thesis by (auto simp: either_def split: sum.splits)
qed (use assms in \<open>simp_all add: toolCallEntry_def followed_fail\<close>)

lemma followed_tools:
  assumes "tables_agree (rq_tables (en_req e))"
  shows "followed e rw \<Longrightarrow> followed e (toolCallDelta marshal e items rw)"
proof -
  have "followed e rw \<Longrightarrow> followed e (toolCallEntries marshal e items rw)"
  proof (induction items arbitrary: rw)
    case (Cons item items)
    with followed_entry [OF Cons.prems, of item] show ?case by (auto split: sum.splits)
  qed (simp add: followed_flush assms)
  then show "followed e rw \<Longrightarrow> followed e (toolCallDelta marshal e items rw)" by (simp add: toolCallDelta_def)
qed

lemma followed_update:
  "followed e rw \<Longrightarrow> followed e (rw\<lparr>rw_sawDone := o1\<rparr>)" "followed e rw \<Longrightarrow> followed e (rw\<lparr>rw_streamErr := er\<rparr>)"
  "followed e rw \<Longrightarrow> followed e (rw\<lparr>rw_buf := t\<rparr>)" "followed e rw \<Longrightarrow> followed e (rw\<lparr>rw_mode := md\<rparr>)"
  "followed e rw \<Longrightarrow> followed e (rw\<lparr>rw_ctype := t\<rparr>)" "followed e rw \<Longrightarrow> followed e (rw\<lparr>rw_status := n\<rparr>)"
  "followed e rw \<Longrightarrow> followed e (rw\<lparr>rw_terminalStatus := t\<rparr>)" "followed e rw \<Longrightarrow> followed e (rw\<lparr>rw_closed := o1\<rparr>)"
  by (erule followed_same; simp add: same_items_def)+

lemma followed_name_calls: "followed e rw \<Longrightarrow> \<forall>i \<in> set is. mget (rw_calls rw) i \<noteq> None \<Longrightarrow> followed e (name_calls e is rw)"
proof (induction "is" arbitrary: rw)
  case (Cons i "is")
  obtain c where c: "mget (rw_calls rw) i = Some c" using Cons.prems(2) by auto
  have ok: "call_ok e c" using followed_call_ok Cons.prems(1) c by blast
  let ?rw1 = "set_call i (c\<lparr>ca_callID := newRespID e ''call_'' (rw_drawn rw)\<rparr>) rw"
  have "followed e ?rw1"
    by (rule followed_call_changed [OF Cons.prems(1) c]) (use ok in \<open>auto simp: call_ok_def call_view_def newRespID_def\<close>)
  then have "followed e (?rw1\<lparr>rw_drawn := rw_drawn rw + 1\<rparr>)" by (rule followed_same) (simp_all add: same_items_def)
  with Cons show ?case by (auto simp: the_call_def c Let_def)
qed simp

interpretation followed: writer_invariant marshal e "\<lambda>rw. tables_agree (rq_tables (en_req e)) \<longrightarrow> followed e rw" for marshal e
proof unfold_locales
  show "tables_agree (rq_tables (en_req e)) \<longrightarrow> followed e (name_calls e (rw_order rw) rw)"
    if "tables_agree (rq_tables (en_req e)) \<longrightarrow> followed e rw" for rw
    using that followed_calls [of e rw] by (auto simp: calls_ok_def intro!: followed_name_calls)
  show "tables_agree (rq_tables (en_req e)) \<longrightarrow> followed e (rw\<lparr>rw_legacyCallID := i, rw_drawn := n\<rparr>)"
    if "tables_agree (rq_tables (en_req e)) \<longrightarrow> followed e rw" for rw i n
    using that by (auto simp: same_items_def elim!: followed_same)
  show "tables_agree (rq_tables (en_req e)) \<longrightarrow> followed e (handle_meta chunk rw)"
    if "tables_agree (rq_tables (en_req e)) \<longrightarrow> followed e rw" for rw chunk
    using that by (auto simp: same_items_def handle_meta_def Let_def elim!: followed_same)
  show "tables_agree (rq_tables (en_req e)) \<longrightarrow> followed e (rw\<lparr>rw_finishReason := t\<rparr>)"
    if "tables_agree (rq_tables (en_req e)) \<longrightarrow> followed e rw" for rw t
    using that by (auto simp: same_items_def elim!: followed_same)
qed (auto intro: followed_reasoning followed_text followed_tools followed_flush followed_fail followed_update)

lemma followed_begin:
  assumes "rw_events rw = []" "rw_calls rw = []" "rw_order rw = []" "rw_reason rw = []" "rw_text rw = []" "rw_refusal rw = []"
    "rw_messageParts rw = []" "\<not> rw_rsOpen rw" "\<not> rw_rsPart rw" "\<not> rw_msgOpen rw"
  shows "followed e (beginStream marshal e rw)"
proof -
  let ?rw = "beginStream marshal e rw"
  obtain r1 r2 where "evs ?rw = [EvCreated r1, EvInProgress r2]" using assms(1) by (simp add: beginStream_def Let_def)
  moreover have "sim e ?rw (empty_view\<lparr>vw_phase := InProgress\<rparr>)"
    using assms by (simp add: beginStream_def Let_def sim_defs empty_view_def newRespID_def)
  ultimately show ?thesis by (simp add: followed_def view_of_def empty_view_def)
qed

end
