(* ===== verification/ResponsesClose.thy ===== *)
theory ResponsesClose
  imports ResponsesSim
begin

text \<open>
  The end of a stream: reasoning, message and calls are closed in turn, each with what its deltas
  added up to, and the last event lists what was closed.
\<close>

subsection \<open>Open parts are not empty\<close>

definition full :: "responsesWriter \<Rightarrow> bool" where
  "full rw \<longleftrightarrow> (rw_msgOpen rw \<longrightarrow> rw_messageParts rw \<noteq> []) \<and> (\<forall>k \<in> set (rw_messageParts rw). content rw k \<noteq> [])"

definition same_message :: "responsesWriter \<Rightarrow> responsesWriter \<Rightarrow> bool" where
  "same_message rw rw' \<longleftrightarrow> rw_msgOpen rw' = rw_msgOpen rw \<and> rw_messageParts rw' = rw_messageParts rw
     \<and> rw_text rw' = rw_text rw \<and> rw_refusal rw' = rw_refusal rw"

lemma full_same: "same_message rw rw' \<Longrightarrow> full rw \<Longrightarrow> full rw'"
  by (auto simp: full_def same_message_def content_def)

lemma ensure_fields:
  assumes "ensureMessagePart e k rw = (rw', c)"
  shows "rw_messageParts rw' \<noteq> []" "set (rw_messageParts rw') = insert k (set (rw_messageParts rw))"
    "rw_text rw' = rw_text rw" "rw_refusal rw' = rw_refusal rw"
proof -
  have o: "rw_messageParts (openMessage e rw) = rw_messageParts rw" "rw_text (openMessage e rw) = rw_text rw"
    "rw_refusal (openMessage e rw) = rw_refusal rw"
    by (simp_all add: openMessage_def Let_def)
  show "rw_messageParts rw' \<noteq> []" "set (rw_messageParts rw') = insert k (set (rw_messageParts rw))"
    "rw_text rw' = rw_text rw" "rw_refusal rw' = rw_refusal rw"
    using assms o position_of [of k "rw_messageParts rw"]
    by (auto simp: ensureMessagePart_def Let_def split: option.splits)
qed

lemma full_text:
  assumes "full rw" "s \<noteq> []"
  shows "full (textDelta e s rw)" "full (refusalDelta e s rw)"
proof -
  obtain r c where r: "ensureMessagePart e ''output_text'' rw = (r, c)" by fastforce
  show "full (textDelta e s rw)"
    using assms ensure_fields [OF r] by (auto simp: textDelta_def r Let_def full_def content_def)
  obtain r c where r: "ensureMessagePart e ''refusal'' rw = (r, c)" by fastforce
  show "full (refusalDelta e s rw)"
    using assms ensure_fields [OF r] by (auto simp: refusalDelta_def r Let_def full_def content_def)
qed

interpretation filled: call_blind marshal e full for marshal e
proof unfold_locales
  show "full (textDelta e s rw)" if "full rw" "s \<noteq> []" for rw s using that by (rule full_text)
  show "full (refusalDelta e s rw)" if "full rw" "s \<noteq> []" for rw s using that by (rule full_text)
qed (erule full_same [rotated],
  auto simp: same_message_def reasoningDelta_def openSummary_def openReasoning_def set_call_def register_call_def openCall_def
        sendArguments_def handle_meta_def Let_def)+

subsection \<open>After a successful check all arguments are sent\<close>

lemma call_steps_other:
  assumes "j \<noteq> i"
  shows "mget (rw_calls (sendArguments e i (openCall marshal e i rw))) j = mget (rw_calls rw) j"
    "the_call (sendArguments e i (openCall marshal e i rw)) j = the_call rw j"
  using assms by (auto simp: sendArguments_def openCall_def the_call_def Let_def)

definition sent_all :: "respToolCall \<Rightarrow> bool" where
  "sent_all c \<longleftrightarrow> ca_opened c \<and> (ca_custom c \<or> length (ca_args c) \<le> ca_sentArgs c)"

lemma call_steps_this:
  assumes "ca_name (the_call rw i) \<noteq> []" "ca_callID (the_call rw i) \<noteq> []"
  shows "sent_all (the_call (sendArguments e i (openCall marshal e i rw)) i)"
  using assms by (auto simp: sendArguments_def openCall_def the_call_def Let_def sent_all_def)

lemma flush_sends:
  assumes "distinct is" "\<forall>i \<in> set is. ca_name (the_call rw i) \<noteq> [] \<and> ca_callID (the_call rw i) \<noteq> []"
  shows "(\<forall>i \<in> set is. sent_all (the_call (flush_calls marshal e is rw) i))
    \<and> (\<forall>j. j \<notin> set is \<longrightarrow> the_call (flush_calls marshal e is rw) j = the_call rw j)"
  using assms
proof (induction "is" arbitrary: rw)
  case (Cons i "is")
  let ?r = "sendArguments e i (openCall marshal e i rw)"
  have step: "flush_calls marshal e (i # is) rw = flush_calls marshal e is ?r" using Cons.prems(2) by (simp add: Let_def)
  have "\<forall>j \<in> set is. ca_name (the_call ?r j) \<noteq> [] \<and> ca_callID (the_call ?r j) \<noteq> []"
  proof
    fix j assume "j \<in> set is"
    then have "j \<noteq> i" using Cons.prems(1) by auto
    then show "ca_name (the_call ?r j) \<noteq> [] \<and> ca_callID (the_call ?r j) \<noteq> []"
      using Cons.prems(2) \<open>j \<in> set is\<close> by (simp add: call_steps_other)
  qed
  with Cons have ih: "\<forall>j \<in> set is. sent_all (the_call (flush_calls marshal e is ?r) j)"
    "\<forall>j. j \<notin> set is \<longrightarrow> the_call (flush_calls marshal e is ?r) j = the_call ?r j"
    by auto
  moreover have "sent_all (the_call (flush_calls marshal e is ?r) i)"
    using ih(2) Cons.prems call_steps_this [of rw i e marshal] by simp
  ultimately show ?case unfolding step by (auto simp: call_steps_other)
qed simp

lemma name_calls_fields:
  "distinct is \<Longrightarrow> (\<forall>i. ca_name (the_call (name_calls e is rw) i) = ca_name (the_call rw i))
     \<and> (\<forall>i \<in> set is. ca_callID (the_call (name_calls e is rw) i) \<noteq> [])
     \<and> (\<forall>i. i \<notin> set is \<longrightarrow> the_call (name_calls e is rw) i = the_call rw i)
     \<and> rw_order (name_calls e is rw) = rw_order rw \<and> rw_streamErr (name_calls e is rw) = rw_streamErr rw"
proof (induction "is" arbitrary: rw)
  case (Cons i "is")
  define r where "r = (if ca_callID (the_call rw i) = []
      then (set_call i ((the_call rw i)\<lparr>ca_callID := newRespID e ''call_'' (rw_drawn rw)\<rparr>) rw)\<lparr>rw_drawn := rw_drawn rw + 1\<rparr> else rw)"
  have step: "name_calls e (i # is) rw = name_calls e is r" by (simp only: name_calls.simps Let_def r_def)
  have r: "\<And>j. ca_name (the_call r j) = ca_name (the_call rw j)" "\<And>j. j \<noteq> i \<Longrightarrow> the_call r j = the_call rw j"
    "ca_callID (the_call r i) \<noteq> []" "rw_order r = rw_order rw" "rw_streamErr r = rw_streamErr rw"
    by (auto simp: r_def the_call_def newRespID_def)
  have i: "i \<notin> set is" "distinct is" using Cons.prems by auto
  note ih = Cons.IH [OF i(2), of r]
  have "the_call (name_calls e is r) i = the_call r i" using ih i(1) by blast
  then show ?case using ih r i unfolding step by (metis set_ConsD list.set_intros)
qed simp

lemma no_failure: "rw_streamErr (fail_with code t rw) = None \<Longrightarrow> t = None \<and> fail_with code t rw = rw"
  by (auto simp: fail_with_def failOutput_def split: option.splits if_splits)

lemma no_failure_if: "rw_streamErr (fail_if b code m rw) = None \<Longrightarrow> \<not> b \<and> fail_if b code m rw = rw"
  using no_failure [of code "if b then Some m else None" rw] by (auto simp: fail_if_def split: if_splits)

lemma contract_kept:
  assumes "rw_streamErr (check_contract e rw) = None"
  shows "check_contract e rw = rw" "call_errors rw = []"
    "validate_policy (en_fits e) (rq_toolPolicy (en_req e)) (invocations rw) (rw_refusal rw \<noteq> []) = None"
    "rw_order rw = [] \<Longrightarrow> rw_refusal rw = [] \<Longrightarrow> validate_output (en_fits e) (rq_output (en_req e)) (rw_text rw) = None"
    "rq_parallel (en_req e) = Some False \<Longrightarrow> length (rw_order rw) \<le> 1"
proof -
  let ?c1 = "rq_parallel (en_req e) = Some False \<and> 1 < length (rw_order rw)"
  let ?c2 = "case call_errors rw of [] \<Rightarrow> None | p # _ \<Rightarrow> Some (call_error_text p)"
  let ?c3 = "map_option (violation_text (en_quote e))
      (validate_policy (en_fits e) (rq_toolPolicy (en_req e)) (invocations rw) (rw_refusal rw \<noteq> []))"
  define r1 where "r1 = fail_if ?c1 ''parallel_tool_calls_violation'' ''model returned parallel tool calls despite parallel_tool_calls=false'' rw"
  define r2 where "r2 = fail_with ''invalid_tool_call'' (case call_errors r1 of [] \<Rightarrow> None | p # _ \<Rightarrow> Some (call_error_text p)) r1"
  define r3 where "r3 = fail_with ''tool_contract_violation'' (map_option (violation_text (en_quote e))
      (validate_policy (en_fits e) (rq_toolPolicy (en_req e)) (invocations r2) (rw_refusal r2 \<noteq> []))) r2"
  define t4 where "t4 = (if rw_order r3 = [] \<and> rw_refusal r3 = []
      then map_option format_text (validate_output (en_fits e) (rq_output (en_req e)) (rw_text r3)) else None)"
  have whole: "check_contract e rw = fail_with ''response_format_violation'' t4 r3"
    by (simp only: check_contract_def r1_def r2_def r3_def t4_def Let_def)
  have s4: "rw_streamErr (fail_with ''response_format_violation'' t4 r3) = None" using assms by (simp only: whole)
  have 4: "t4 = None" "fail_with ''response_format_violation'' t4 r3 = r3" using no_failure [OF s4] by blast+
  have s3: "rw_streamErr r3 = None" using s4 by (simp only: 4(2))
  note 3 = no_failure [OF s3 [unfolded r3_def], folded r3_def]
  have s2: "rw_streamErr r2 = None" using 3 s3 by metis
  note 2 = no_failure [OF s2 [unfolded r2_def], folded r2_def]
  have s1: "rw_streamErr r1 = None" using 2 s2 by metis
  note 1 = no_failure_if [OF s1 [unfolded r1_def], folded r1_def]
  have eq: "r1 = rw" "r2 = rw" "r3 = rw" using 1 2 3 by metis+
  show "check_contract e rw = rw" using 4 eq by (simp only: whole)
  show "call_errors rw = []" using 2 eq by (auto split: list.splits)
  show "validate_policy (en_fits e) (rq_toolPolicy (en_req e)) (invocations rw) (rw_refusal rw \<noteq> []) = None" using 3 eq by simp
  show "validate_output (en_fits e) (rq_output (en_req e)) (rw_text rw) = None" if "rw_order rw = []" "rw_refusal rw = []"
    using that 4 eq by (simp add: t4_def)
  show "length (rw_order rw) \<le> 1" if "rq_parallel (en_req e) = Some False" using that 1 by simp
qed

lemma flush_same_order: "rw_order (flush_calls marshal e is rw) = rw_order rw"
  by (induction "is" arbitrary: rw) (auto simp: Let_def sendArguments_def openCall_def)

lemma completion_sends:
  assumes "followed e rw" "\<not> rw_writeErr rw" "final_status (CompletionError marshal e rw) = ''completed''"
    and "i \<in> set (rw_order (CompletionError marshal e rw))"
  shows "sent_all (the_call (CompletionError marshal e rw) i)"
proof -
  define r1 where "r1 = fail_if (\<not> rw_sawDone rw \<and> rw_finishReason rw = []) ''upstream_truncated''
      ''upstream stream ended without a completion marker'' rw"
  define r2 where "r2 = fail_if ((rw_finishReason r1 = ''tool_calls'' \<or> rw_finishReason r1 = ''function_call'') \<and> rw_order r1 = [])
      ''missing_tool_call'' ''upstream ended with a tool finish reason but no tool call'' r1"
  have split: "CompletionError marshal e rw = (if rw_streamErr r2 \<noteq> None \<or> \<not> finishing_normally r2 then r2
      else let r3 = check_contract e r2 in if rw_streamErr r3 \<noteq> None then r3 else flushReadyCalls marshal e (name_calls e (rw_order r3) r3))"
    by (simp only: CompletionError_def r1_def r2_def Let_def assms(2) if_False)
  have ok: "rw_streamErr (CompletionError marshal e rw) = None" "finishing_normally (CompletionError marshal e rw)"
    using assms(3) by (auto simp: final_status_def finishing_normally_def split: if_splits)
  then have e2: "rw_streamErr r2 = None" "finishing_normally r2" "rw_streamErr (check_contract e r2) = None"
    by (auto simp: split Let_def split: if_splits)
  note c = contract_kept [OF e2(3)]
  have "r2 = rw" using e2(1) no_failure_if unfolding r1_def r2_def by metis
  have d: "distinct (rw_order rw)" using followed_calls [OF assms(1)] by (simp add: calls_ok_def)
  note n = name_calls_fields [OF d, of e]
  have "rw_streamErr rw = None" "finishing_normally rw" "check_contract e rw = rw"
    using e2 c(1) \<open>r2 = rw\<close> by simp_all
  moreover have "rw_streamErr (name_calls e (rw_order rw) rw) = None" "rw_order (name_calls e (rw_order rw) rw) = rw_order rw"
    using n [of rw] calculation by simp_all
  ultimately have whole: "CompletionError marshal e rw = flush_calls marshal e (rw_order rw) (name_calls e (rw_order rw) rw)"
    by (simp add: split \<open>r2 = rw\<close> flushReadyCalls_def Let_def)
  have "ca_name (the_call rw j) \<noteq> []" if "j \<in> set (rw_order rw)" for j
    using c(2) that \<open>r2 = rw\<close>
    by (auto simp: call_errors_def map_filter_def filter_empty_conv validateResponseToolCall_def Let_def split: if_splits)
  then have "\<forall>j \<in> set (rw_order rw). ca_name (the_call (name_calls e (rw_order rw) rw) j) \<noteq> []
      \<and> ca_callID (the_call (name_calls e (rw_order rw) rw) j) \<noteq> []"
    using name_calls_fields [OF d, of e rw] by simp
  from flush_sends [OF d this, where marshal = marshal and e = e] show ?thesis
    using assms(4) name_calls_fields [OF d, of e rw] by (simp add: whole flush_same_order)
qed


subsection \<open>Closing, seen by the client\<close>

text \<open>
  A job closes one item: its events, its index, the object that is announced as done, and the item
  as the client has it before and after.
\<close>

record job =
  jb_events :: "event list"
  jb_index :: nat
  jb_object :: obj
  jb_before :: view_item
  jb_after :: view_item

definition job_ok :: "job \<Rightarrow> bool" where
  "job_ok j \<longleftrightarrow> is_call (jb_after j) = is_call (jb_before j) \<and>
     (\<forall>v. vw_phase v = InProgress \<longrightarrow> mget (vw_items v) (jb_index j) = Some (jb_before j) \<longrightarrow> jb_index j \<notin> fst ` set (vw_done v)
       \<longrightarrow> follow (jb_events j) v = Some (v\<lparr>vw_items := mput (jb_index j) (jb_after j) (vw_items v),
             vw_done := vw_done v @ [(jb_index j, jb_object j)]\<rparr>))"

lemma follow_jobs:
  assumes "distinct (map jb_index js)" "\<forall>j \<in> set js. job_ok j" "vw_phase v = InProgress"
    and "\<forall>j \<in> set js. mget (vw_items v) (jb_index j) = Some (jb_before j) \<and> jb_index j \<notin> fst ` set (vw_done v)"
  shows "\<exists>v'. follow (concat (map jb_events js)) v = Some v' \<and> vw_phase v' = InProgress
    \<and> vw_done v' = vw_done v @ map (\<lambda>j. (jb_index j, jb_object j)) js
    \<and> (\<forall>k. map_option is_call (mget (vw_items v') k) = map_option is_call (mget (vw_items v) k))"
  using assms
proof (induction js arbitrary: v)
  case (Cons j js)
  define v1 where "v1 = v\<lparr>vw_items := mput (jb_index j) (jb_after j) (vw_items v),
    vw_done := vw_done v @ [(jb_index j, jb_object j)]\<rparr>"
  have ok: "job_ok j" using Cons.prems(2) by simp
  then have step: "follow (jb_events j) v = Some v1"
    using Cons.prems(3,4) unfolding job_ok_def v1_def by (metis list.set_intros(1))
  have fresh: "\<forall>k \<in> set js. jb_index k \<noteq> jb_index j" using Cons.prems(1) by (metis distinct.simps(2) image_eqI list.map(2) list.set_map)
  have "\<exists>v'. follow (concat (map jb_events js)) v1 = Some v' \<and> vw_phase v' = InProgress
    \<and> vw_done v' = vw_done v1 @ map (\<lambda>j. (jb_index j, jb_object j)) js
    \<and> (\<forall>k. map_option is_call (mget (vw_items v') k) = map_option is_call (mget (vw_items v1) k))"
  proof (rule Cons.IH)
    show "distinct (map jb_index js)" "\<forall>j \<in> set js. job_ok j" "vw_phase v1 = InProgress"
      using Cons.prems by (auto simp: v1_def)
    show "\<forall>k \<in> set js. mget (vw_items v1) (jb_index k) = Some (jb_before k) \<and> jb_index k \<notin> fst ` set (vw_done v1)"
      using Cons.prems(4) fresh by (simp add: v1_def)
  qed
  moreover have "map_option is_call (mget (vw_items v1) k) = map_option is_call (mget (vw_items v) k)" for k
    using ok Cons.prems(4) by (simp add: v1_def job_ok_def)
  ultimately show ?case by (auto simp: follow_append step v1_def)
qed simp

text \<open>Reasoning, calls, and a message with its parts.\<close>

definition reasoning_job :: "responsesWriter \<Rightarrow> job" where
  "reasoning_job rw = \<lparr>jb_events = [EvRsDone (rw_rsID rw) (rw_rsOutIdx rw) (rw_reason rw),
       EvRsPartDone (rw_rsID rw) (rw_rsOutIdx rw) (rw_reason rw), EvItemDone (rw_rsOutIdx rw) (reasoningItem rw (itemStatus rw))],
     jb_index = rw_rsOutIdx rw, jb_object = reasoningItem rw (itemStatus rw),
     jb_before = VReasoning (rw_rsID rw) (POpen (rw_reason rw)), jb_after = VReasoning (rw_rsID rw) (PClosed (rw_reason rw))\<rparr>"

definition call_job :: "(json \<Rightarrow> string) \<Rightarrow> 's surroundings \<Rightarrow> responsesWriter \<Rightarrow> int \<Rightarrow> job" where
  "call_job marshal e rw i =
     (let c = the_call rw i; item = callItem marshal e c (itemStatus rw)
      in \<lparr>jb_events = (if ca_custom c then [] else [EvArgsDone (ca_id c) (ca_outIdx c) (ca_args c)]) @ [EvItemDone (ca_outIdx c) item],
          jb_index = ca_outIdx c, jb_object = item, jb_before = call_view c,
          jb_after = (if ca_custom c then VCustom (ca_id c) else VCall (ca_id c) (PWhole (ca_args c)))\<rparr>)"

fun part_events :: "responsesWriter \<Rightarrow> nat \<Rightarrow> string list \<Rightarrow> event list" where
  "part_events rw i [] = []"
| "part_events rw i (k # ks) =
     (if k = ''refusal'' then EvRefusalDone (rw_msgID rw) (rw_msgOutIdx rw) i (rw_refusal rw)
      else EvTextDone (rw_msgID rw) (rw_msgOutIdx rw) i (rw_text rw))
     # EvPartDone (rw_msgID rw) (rw_msgOutIdx rw) i (message_part rw k) # part_events rw (i + 1) ks"

definition message_job :: "responsesWriter \<Rightarrow> job" where
  "message_job rw = \<lparr>jb_events = part_events rw 0 (rw_messageParts rw) @ [EvItemDone (rw_msgOutIdx rw) (messageItem rw (itemStatus rw))],
     jb_index = rw_msgOutIdx rw, jb_object = messageItem rw (itemStatus rw),
     jb_before = VMessage (rw_msgID rw) (map (\<lambda>k. (k, POpen (content rw k))) (rw_messageParts rw)),
     jb_after = VMessage (rw_msgID rw) (map (\<lambda>k. (k, PClosed (content rw k))) (rw_messageParts rw))\<rparr>"

lemma itemStatus_cases: "itemStatus rw = ''completed'' \<or> itemStatus rw = ''incomplete''"
  by (simp add: itemStatus_def)

lemma change_done:
  assumes "vw_phase v = InProgress" "idx \<notin> fst ` set (vw_done v)" "mget (vw_items v) idx = Some item" "view_id item = i"
    "f item = Some item'"
  shows "in_progress (change idx i f) v = Some (put_item idx item' v)"
  using assms by (simp add: in_progress_def change_def put_item_def)

lemma item_done:
  assumes "vw_phase v = InProgress" "idx \<notin> fst ` set (vw_done v)" "mget (vw_items v) idx = Some item" "agrees item x"
  shows "client_step (EvItemDone idx x) v = Some (v\<lparr>vw_done := vw_done v @ [(idx, x)]\<rparr>)"
  using assms by (simp add: in_progress_def)

lemma put_item_twice [simp]: "put_item idx a (put_item idx b v) = put_item idx a v"
  by (simp add: put_item_def)

lemma mput_same: "mget m k = Some a \<Longrightarrow> mput k a m = m"
  by (induction m) (auto split: if_splits)

lemma put_item_same: "mget (vw_items v) idx = Some a \<Longrightarrow> put_item idx a v = v"
  by (simp add: put_item_def mput_same)

lemma jobI:
  assumes "is_call (jb_after j) = is_call (jb_before j)" "jb_events j = es @ [EvItemDone (jb_index j) (jb_object j)]"
    and "agrees (jb_after j) (jb_object j)"
    and "\<And>v :: view. vw_phase v = InProgress \<Longrightarrow> mget (vw_items v) (jb_index j) = Some (jb_before j) \<Longrightarrow> jb_index j \<notin> fst ` set (vw_done v)
       \<Longrightarrow> follow es v = Some (put_item (jb_index j) (jb_after j) v)"
  shows "job_ok j"
  unfolding job_ok_def
proof (intro conjI allI impI)
  fix v :: view assume v: "vw_phase v = InProgress" "mget (vw_items v) (jb_index j) = Some (jb_before j)" "jb_index j \<notin> fst ` set (vw_done v)"
  let ?v = "put_item (jb_index j) (jb_after j) v"
  have "client_step (EvItemDone (jb_index j) (jb_object j)) ?v = Some (?v\<lparr>vw_done := vw_done ?v @ [(jb_index j, jb_object j)]\<rparr>)"
    by (rule item_done) (use v assms(3) in simp_all)
  then show "follow (jb_events j) v = Some (v\<lparr>vw_items := mput (jb_index j) (jb_after j) (vw_items v),
             vw_done := vw_done v @ [(jb_index j, jb_object j)]\<rparr>)"
    using assms(4) [OF v] by (simp add: assms(2) follow_append put_item_def)
qed (fact assms(1))

lemma reasoning_job_ok:
  assumes "rw_reason rw \<noteq> []"
  shows "job_ok (reasoning_job rw)"
proof (rule jobI)
  let ?i = "rw_rsOutIdx rw" and ?id = "rw_rsID rw" and ?t = "rw_reason rw"
  let ?es = "[EvRsDone ?id ?i ?t, EvRsPartDone ?id ?i ?t]"
  show "jb_events (reasoning_job rw) = ?es @ [EvItemDone (jb_index (reasoning_job rw)) (jb_object (reasoning_job rw))]"
    by (simp add: reasoning_job_def)
  show "agrees (jb_after (reasoning_job rw)) (jb_object (reasoning_job rw))"
    using assms itemStatus_cases [of rw] by (auto simp: reasoning_job_def agrees_def reasoningItem_def get_str_def str_or_empty_def is_str_def)
  fix v :: view assume v: "vw_phase v = InProgress" "mget (vw_items v) (jb_index (reasoning_job rw)) = Some (jb_before (reasoning_job rw))"
    "jb_index (reasoning_job rw) \<notin> fst ` set (vw_done v)"
  have 1: "client_step (EvRsDone ?id ?i ?t) v = Some (put_item ?i (VReasoning ?id (PWhole ?t)) v)"
    unfolding client_step.simps by (rule change_done [OF v(1)]) (use v in \<open>auto simp: reasoning_job_def\<close>)
  have 2: "client_step (EvRsPartDone ?id ?i ?t) (put_item ?i (VReasoning ?id (PWhole ?t)) v) = Some (put_item ?i (VReasoning ?id (PClosed ?t)) v)"
    unfolding client_step.simps
    by (subst change_done [where item' = "VReasoning ?id (PClosed ?t)"]) (use v in \<open>auto simp: reasoning_job_def\<close>)
  show "follow ?es v = Some (put_item (jb_index (reasoning_job rw)) (jb_after (reasoning_job rw)) v)"
    using 1 2 by (simp add: reasoning_job_def)
qed (simp add: reasoning_job_def)

lemma call_job_ok:
  assumes "tables_agree (rq_tables (en_req e))" "call_ok e (the_call rw i)" "sent_all (the_call rw i)" "itemStatus rw = ''completed''"
  shows "job_ok (call_job marshal e rw i)"
proof (rule jobI)
  let ?j = "call_job marshal e rw i" and ?c = "the_call rw i"
  let ?es = "if ca_custom ?c then [] else [EvArgsDone (ca_id ?c) (ca_outIdx ?c) (ca_args ?c)]"
  have opened: "ca_name ?c \<noteq> []" using assms(2,3) by (auto simp: call_ok_def sent_all_def)
  then have custom: "ca_custom ?c \<longleftrightarrow> ca_name ?c \<in> set (tt_custom (rq_tables (en_req e)))" using assms(2) by (simp add: call_ok_def)
  have sent: "ca_custom ?c \<or> take (ca_sentArgs ?c) (ca_args ?c) = ca_args ?c" using assms(3) by (auto simp: sent_all_def)
  show "is_call (jb_after ?j) = is_call (jb_before ?j)" by (simp add: call_job_def Let_def call_view_def)
  show "jb_events ?j = ?es @ [EvItemDone (jb_index ?j) (jb_object ?j)]" by (simp add: call_job_def Let_def)
  obtain n ns x where p: "responsesToolName (rq_tables (en_req e)) (ca_name ?c) = (n, ns, x)"
    by (cases "responsesToolName (rq_tables (en_req e)) (ca_name ?c)") auto
  have x: "x = ca_custom ?c" using custom_flag [OF assms(1), of "ca_name ?c"] p custom by simp
  show "agrees (jb_after ?j) (jb_object ?j)"
    by (simp add: call_job_def Let_def agrees_def callItem_def call_object_def p x assms(4) get_str_def str_or_empty_def is_str_def)
  fix v :: view assume v: "vw_phase v = InProgress" "mget (vw_items v) (jb_index ?j) = Some (jb_before ?j)" "jb_index ?j \<notin> fst ` set (vw_done v)"
  show "follow ?es v = Some (put_item (jb_index ?j) (jb_after ?j) v)"
  proof (cases "ca_custom ?c")
    case True
    then show ?thesis using put_item_same v(2) by (simp add: call_job_def Let_def call_view_def)
  next
    case False
    have "client_step (EvArgsDone (ca_id ?c) (ca_outIdx ?c) (ca_args ?c)) v
        = Some (put_item (ca_outIdx ?c) (VCall (ca_id ?c) (PWhole (ca_args ?c))) v)"
      unfolding client_step.simps
      by (rule change_done [OF v(1)]) (use v sent False in \<open>auto simp: call_job_def Let_def call_view_def\<close>)
    then show ?thesis using False by (simp add: call_job_def Let_def)
  qed
qed


lemma list_update_middle: "(xs @ a # ys)[length xs := b] = xs @ b # ys"
  by (induction xs) auto

lemma part_events_followed:
  fixes v :: view
  assumes "vw_phase v = InProgress" "rw_msgOutIdx rw \<notin> fst ` set (vw_done v)"
    and "mget (vw_items v) (rw_msgOutIdx rw)
      = Some (VMessage (rw_msgID rw) (map (\<lambda>k. (k, PClosed (content rw k))) xs @ map (\<lambda>k. (k, POpen (content rw k))) ks))"
    and "set ks \<subseteq> {''output_text'', ''refusal''}"
  shows "follow (part_events rw (length xs) ks) v
    = Some (put_item (rw_msgOutIdx rw) (VMessage (rw_msgID rw) (map (\<lambda>k. (k, PClosed (content rw k))) (xs @ ks))) v)"
  using assms
proof (induction ks arbitrary: xs v)
  case Nil
  then show ?case by (simp add: put_item_same)
next
  case (Cons k ks)
  let ?i = "rw_msgOutIdx rw" and ?id = "rw_msgID rw" and ?n = "length xs"
  let ?item = "\<lambda>p. VMessage ?id (map (\<lambda>k. (k, PClosed (content rw k))) xs @ (k, p) # map (\<lambda>k. (k, POpen (content rw k))) ks)"
  let ?v1 = "put_item ?i (?item (PWhole (content rw k))) v" and ?v2 = "put_item ?i (?item (PClosed (content rw k))) v"
  have upd: "(map (\<lambda>k. (k, PClosed (content rw k))) xs @ a # ys)[length xs := b] = map (\<lambda>k. (k, PClosed (content rw k))) xs @ b # ys" for a b ys
    using list_update_middle [of "map (\<lambda>k. (k, PClosed (content rw k))) xs"] by simp
  have nth: "(map (\<lambda>k. (k, PClosed (content rw k))) xs @ a # ys) ! length xs = a" for a ys
    using nth_append_length [of "map (\<lambda>k. (k, PClosed (content rw k))) xs"] by simp
  have k: "k = ''output_text'' \<or> k = ''refusal''" using Cons.prems(4) by auto
  have 1: "in_progress (change ?i ?id (on_part k ?n (announce (content rw k)))) v = Some ?v1"
    by (rule change_done [OF Cons.prems(1,2,3)]) (simp_all add: upd nth)
  have p: "get_str (message_part rw k) ''type'' = k" "message_part rw k = part_object k (content rw k)"
    using k by (auto simp: message_part_def part_object_def content_def text_part_def refusal_part_def get_str_def str_or_empty_def)
  have 2: "in_progress (change ?i ?id (on_part k ?n (close_part (message_part rw k) k))) ?v1 = Some ?v2"
  proof -
    have "in_progress (change ?i ?id (on_part k ?n (close_part (message_part rw k) k))) ?v1 = Some (put_item ?i (?item (PClosed (content rw k))) ?v1)"
      by (rule change_done [where item = "?item (PWhole (content rw k))"]) (simp_all add: Cons.prems(1,2) upd nth p(2))
    then show ?thesis by simp
  qed
  have 3: "follow (part_events rw (length (xs @ [k])) ks) ?v2
      = Some (put_item ?i (VMessage ?id (map (\<lambda>k. (k, PClosed (content rw k))) ((xs @ [k]) @ ks))) ?v2)"
    by (rule Cons.IH) (use Cons.prems in simp_all)
  show ?case using k
  proof
    assume "k = ''output_text''"
    then show ?thesis using 1 2 3 p(1) by (simp add: content_def)
  next
    assume "k = ''refusal''"
    then show ?thesis using 1 2 3 p(1) by (simp add: content_def)
  qed
qed

lemma message_job_ok:
  assumes "set (rw_messageParts rw) \<subseteq> {''output_text'', ''refusal''}"
  shows "job_ok (message_job rw)"
proof (rule jobI)
  let ?es = "part_events rw 0 (rw_messageParts rw)"
  show "jb_events (message_job rw) = ?es @ [EvItemDone (jb_index (message_job rw)) (jb_object (message_job rw))]"
    by (simp add: message_job_def)
  have parts: "List.map_filter closed_part (map (\<lambda>k. (k, PClosed (content rw k))) ks) = map (\<lambda>k. JObj (message_part rw k)) ks"
    if "set ks \<subseteq> {''output_text'', ''refusal''}" for ks
    using that by (induction ks) (auto simp: message_part_def part_object_def content_def)
  show "agrees (jb_after (message_job rw)) (jb_object (message_job rw))"
    using itemStatus_cases [of rw]
    by (auto simp: message_job_def agrees_def messageItem_def messageContent_def get_str_def str_or_empty_def is_str_def
        list_all_iff parts [OF assms] comp_def)
  fix v :: view assume v: "vw_phase v = InProgress" "mget (vw_items v) (jb_index (message_job rw)) = Some (jb_before (message_job rw))"
    "jb_index (message_job rw) \<notin> fst ` set (vw_done v)"
  show "follow ?es v = Some (put_item (jb_index (message_job rw)) (jb_after (message_job rw)) v)"
    using part_events_followed [of v rw "[]" "rw_messageParts rw"] v assms by (simp add: message_job_def)
qed (simp add: message_job_def)

end
