(* ===== verification/ResponsesEnd.thy ===== *)
theory ResponsesEnd
  imports ResponsesClose
begin

text \<open>
  What the end of a stream writes: the jobs of closing, and after them the last event, which the
  client accepts.
\<close>

subsection \<open>The events of closing\<close>

text \<open>Closing changes no more than whether items are open.\<close>

definition kept :: "responsesWriter \<Rightarrow> responsesWriter \<Rightarrow> bool" where
  "kept rw rw' \<longleftrightarrow> rw_reason rw' = rw_reason rw \<and> rw_text rw' = rw_text rw \<and> rw_refusal rw' = rw_refusal rw
     \<and> rw_messageParts rw' = rw_messageParts rw \<and> rw_rsID rw' = rw_rsID rw \<and> rw_msgID rw' = rw_msgID rw
     \<and> rw_rsOutIdx rw' = rw_rsOutIdx rw \<and> rw_msgOutIdx rw' = rw_msgOutIdx rw \<and> rw_order rw' = rw_order rw
     \<and> rw_terminalStatus rw' = rw_terminalStatus rw
     \<and> (\<forall>i. (the_call rw' i)\<lparr>ca_opened := False\<rparr> = (the_call rw i)\<lparr>ca_opened := False\<rparr>)"

lemma kept_refl [simp]: "kept rw rw"
  by (simp add: kept_def)

lemma kept_trans: "kept a b \<Longrightarrow> kept b c \<Longrightarrow> kept a c"
  by (simp add: kept_def)

lemma kept_emit [simp]: "kept rw (emit_event e ev rw)"
  by (simp add: kept_def the_call_def)

lemma kept_flags [simp]: "kept rw (rw'\<lparr>rw_rsOpen := o1\<rparr>) = kept rw rw'" "kept rw (rw'\<lparr>rw_rsPart := o1\<rparr>) = kept rw rw'"
  "kept rw (rw'\<lparr>rw_msgOpen := o1\<rparr>) = kept rw rw'" "kept (rw\<lparr>rw_rsOpen := o1\<rparr>) rw' = kept rw rw'"
  by (simp_all add: kept_def the_call_def)

lemma emit_terminal [simp]: "itemStatus (emit_event e ev rw) = itemStatus rw" "itemStatus (rw\<lparr>rw_rsPart := o1\<rparr>) = itemStatus rw"
  "itemStatus (rw\<lparr>rw_rsOpen := o1\<rparr>) = itemStatus rw" "itemStatus (rw\<lparr>rw_msgOpen := o1\<rparr>) = itemStatus rw"
  by (simp_all add: itemStatus_def)

lemma close_reasoning_writes:
  assumes "rw_rsPart rw = rw_rsOpen rw"
  shows "evs (closeReasoning e rw) = evs rw @ (if rw_rsOpen rw then jb_events (reasoning_job rw) else [])"
    "kept rw (closeReasoning e rw)" "\<not> rw_rsOpen (closeReasoning e rw)" "rw_msgOpen (closeReasoning e rw) = rw_msgOpen rw"
    "the_call (closeReasoning e rw) = the_call rw"
  using assms
  by (simp_all add: closeReasoning_def closeSummary_def reasoning_job_def Let_def reasoningItem_def kept_def the_call_def fun_eq_iff)

lemma close_parts_writes:
  "evs (close_parts e i ks rw) = evs rw @ part_events rw i ks \<and> kept rw (close_parts e i ks rw)
    \<and> rw_msgOpen (close_parts e i ks rw) = rw_msgOpen rw \<and> rw_rsOpen (close_parts e i ks rw) = rw_rsOpen rw
    \<and> the_call (close_parts e i ks rw) = the_call rw"
proof (induction ks arbitrary: i rw)
  case (Cons k ks)
  have same: "part_events (emit_event e ev (emit_event e ev' rw)) j ls = part_events rw j ls" for ev ev' j ls
    by (induction ls arbitrary: j) (simp_all add: message_part_def)
  have calls: "the_call (emit_event e ev r) = the_call r" for ev r by (simp add: the_call_def fun_eq_iff)
  let ?d = "if k = ''refusal'' then EvRefusalDone (rw_msgID rw) (rw_msgOutIdx rw) i (rw_refusal rw)
            else EvTextDone (rw_msgID rw) (rw_msgOutIdx rw) i (rw_text rw)"
  let ?r = "emit_event e (EvPartDone (rw_msgID rw) (rw_msgOutIdx rw) i (message_part rw k)) (emit_event e ?d rw)"
  have step: "close_parts e i (k # ks) rw = close_parts e (i + 1) ks ?r" by (simp only: close_parts.simps Let_def)
  have "kept rw ?r" by (rule kept_trans [OF kept_emit kept_emit])
  then have "kept rw (close_parts e (i + 1) ks ?r)" using Cons.IH [of "i + 1" ?r] kept_trans by blast
  then show ?case using Cons.IH [of "i + 1" ?r] unfolding step part_events.simps same calls by simp
qed simp

lemma close_message_writes:
  "evs (closeMessage e rw) = evs rw @ (if rw_msgOpen rw then jb_events (message_job rw) else [])"
  "kept rw (closeMessage e rw)" "\<not> rw_msgOpen (closeMessage e rw)" "rw_rsOpen (closeMessage e rw) = rw_rsOpen rw"
  "the_call (closeMessage e rw) = the_call rw"
proof -
  let ?r = "close_parts e 0 (rw_messageParts rw) rw"
  have k: "kept rw ?r" using close_parts_writes by blast
  then have eq: "messageItem ?r (itemStatus ?r) = messageItem rw (itemStatus rw)" "rw_msgOutIdx ?r = rw_msgOutIdx rw"
    by (simp_all add: kept_def messageItem_def messageContent_def message_part_def itemStatus_def fun_eq_iff)
  then have step: "closeMessage e rw = (if \<not> rw_msgOpen rw then rw
      else (emit_event e (EvItemDone (rw_msgOutIdx rw) (messageItem rw (itemStatus rw))) ?r)\<lparr>rw_msgOpen := False\<rparr>)"
    by (simp add: closeMessage_def Let_def)
  note p = close_parts_writes [of e 0 "rw_messageParts rw" rw]
  show "evs (closeMessage e rw) = evs rw @ (if rw_msgOpen rw then jb_events (message_job rw) else [])"
    using p by (simp add: step message_job_def)
  show "kept rw (closeMessage e rw)" by (simp add: step kept_trans [OF k])
  show "\<not> rw_msgOpen (closeMessage e rw)" by (simp add: step)
  show "rw_rsOpen (closeMessage e rw) = rw_rsOpen rw" using p by (simp add: step)
  show "the_call (closeMessage e rw) = the_call rw" using p by (simp add: step the_call_def fun_eq_iff)
qed

definition call_events :: "(json \<Rightarrow> string) \<Rightarrow> 's surroundings \<Rightarrow> responsesWriter \<Rightarrow> int \<Rightarrow> event list" where
  "call_events marshal e rw i =
     (if ca_opened (the_call rw i) \<and> itemStatus rw = ''completed'' then jb_events (call_job marshal e rw i) else [])"

lemma close_call_writes:
  "evs (closeCall marshal e i rw) = evs rw @ call_events marshal e rw i \<and> kept rw (closeCall marshal e i rw)
    \<and> rw_msgOpen (closeCall marshal e i rw) = rw_msgOpen rw \<and> rw_rsOpen (closeCall marshal e i rw) = rw_rsOpen rw
    \<and> (\<forall>j. j \<noteq> i \<longrightarrow> the_call (closeCall marshal e i rw) j = the_call rw j)"
  by (simp add: closeCall_def Let_def call_events_def call_job_def kept_def the_call_def set_call_def)

lemma close_calls_writes:
  "distinct is \<Longrightarrow> evs (fold (closeCall marshal e) is rw) = evs rw @ concat (map (call_events marshal e rw) is)
    \<and> kept rw (fold (closeCall marshal e) is rw)
    \<and> rw_msgOpen (fold (closeCall marshal e) is rw) = rw_msgOpen rw \<and> rw_rsOpen (fold (closeCall marshal e) is rw) = rw_rsOpen rw"
proof (induction "is" arbitrary: rw)
  case (Cons i "is")
  let ?r = "closeCall marshal e i rw"
  note c = close_call_writes [of marshal e i rw]
  have "itemStatus ?r = itemStatus rw" using c by (simp add: kept_def itemStatus_def)
  moreover have "the_call ?r j = the_call rw j" if "j \<in> set is" for j using c that Cons.prems by auto
  ultimately have "map (call_events marshal e ?r) is = map (call_events marshal e rw) is"
    by (simp add: call_events_def call_job_def)
  then have "concat (map (call_events marshal e ?r) is) = concat (map (call_events marshal e rw) is)" by (rule arg_cong)
  moreover have "kept rw (fold (closeCall marshal e) is ?r)" using Cons c kept_trans by (metis distinct.simps(2))
  ultimately show ?case using Cons c by simp
qed simp

definition jobs :: "(json \<Rightarrow> string) \<Rightarrow> 's surroundings \<Rightarrow> responsesWriter \<Rightarrow> job list" where
  "jobs marshal e rw = (if rw_rsOpen rw then [reasoning_job rw] else []) @ (if rw_msgOpen rw then [message_job rw] else [])
     @ (if itemStatus rw = ''completed'' then map (call_job marshal e rw) (filter (\<lambda>i. ca_opened (the_call rw i)) (rw_order rw)) else [])"

lemma kept_jobs:
  assumes "kept rw rw'"
  shows "itemStatus rw' = itemStatus rw" "message_job rw' = message_job rw"
proof -
  have *: "content rw' = content rw" "\<And>i. part_events rw' i ks = part_events rw i ks" for ks
    using assms by (induction ks) (auto simp: kept_def content_def message_part_def)
  show "itemStatus rw' = itemStatus rw" using assms by (simp add: kept_def itemStatus_def)
  then show "message_job rw' = message_job rw" using assms *
    by (simp add: kept_def message_job_def messageItem_def messageContent_def message_part_def fun_eq_iff)
qed

lemma closing_writes:
  assumes "text_ok rw" "distinct (rw_order rw)"
  shows "evs (closeCalls marshal e rw) = evs rw @ concat (map jb_events (jobs marshal e rw))" "kept rw (closeCalls marshal e rw)"
    "\<not> rw_msgOpen (closeCalls marshal e rw)" "\<not> rw_rsOpen (closeCalls marshal e rw)"
proof -
  define r1 where "r1 = closeReasoning e rw"
  define r2 where "r2 = closeMessage e r1"
  have "rw_rsPart rw = rw_rsOpen rw" using assms(1) by (simp add: text_ok_def)
  note 1 = close_reasoning_writes [OF this, where e = e, folded r1_def]
  note 2 = close_message_writes [where e = e and rw = r1, folded r2_def]
  note k1 = kept_jobs [OF 1(2)] and k2 = kept_jobs [OF 2(2)]
  note 3 = close_calls_writes [OF assms(2), where marshal = marshal and e = e and rw = r2]
  have order: "closeCalls marshal e rw = fold (closeCall marshal e) (rw_order rw) r2"
    by (simp add: closeCalls_def r1_def r2_def)
  have "call_events marshal e r2 = call_events marshal e rw"
    using 1(5) 2(5) k1(1) k2(1) by (simp add: call_events_def call_job_def fun_eq_iff)
  moreover have "concat (map (call_events marshal e rw) is)
      = concat (map jb_events (if itemStatus rw = ''completed'' then map (call_job marshal e rw) (filter (\<lambda>i. ca_opened (the_call rw i)) is) else []))"
    for "is" by (induction "is") (auto simp: call_events_def)
  ultimately have c: "concat (map (call_events marshal e r2) (rw_order rw))
      = concat (map jb_events (if itemStatus rw = ''completed'' then map (call_job marshal e rw) (filter (\<lambda>i. ca_opened (the_call rw i)) (rw_order rw)) else []))"
    by (simp only:)
  have "evs (closeCalls marshal e rw) = evs r2 @ concat (map (call_events marshal e r2) (rw_order rw))" using 3 by (simp only: order)
  also have "evs r2 = evs rw @ concat (map jb_events ((if rw_rsOpen rw then [reasoning_job rw] else []) @ (if rw_msgOpen rw then [message_job rw] else [])))"
    using 2(1) by (simp add: 1(1,4) k1(2))
  finally show "evs (closeCalls marshal e rw) = evs rw @ concat (map jb_events (jobs marshal e rw))"
    unfolding jobs_def c by (simp only: append_assoc map_append concat_append)
  show "kept rw (closeCalls marshal e rw)" "\<not> rw_msgOpen (closeCalls marshal e rw)" "\<not> rw_rsOpen (closeCalls marshal e rw)"
    using kept_trans [OF kept_trans [OF 1(2) 2(2)]] 1(3) 2(3,4) 3 by (simp_all add: order)
qed


subsection \<open>The last event\<close>

lemma jobs_ready:
  assumes "sim e rw v" "tables_agree (rq_tables (en_req e))"
    and calls: "itemStatus rw = ''completed'' \<Longrightarrow> \<forall>i \<in> set (rw_order rw). sent_all (the_call rw i)"
  shows "distinct (map jb_index (jobs marshal e rw))" "\<forall>j \<in> set (jobs marshal e rw). job_ok j"
    "\<forall>j \<in> set (jobs marshal e rw). mget (vw_items v) (jb_index j) = Some (jb_before j)"
proof -
  note d = simD [OF assms(1)]
  have rs: "rw_rsOpen rw \<longleftrightarrow> rw_reason rw \<noteq> []" and parts: "set (rw_messageParts rw) \<subseteq> {''output_text'', ''refusal''}"
    using d(1) by (auto simp: text_ok_def)
  have known: "mget (rw_calls rw) i = Some (the_call rw i)" if "i \<in> set (rw_order rw)" for i
    using d(2) that by (auto simp: calls_ok_def the_call_def split: option.splits)
  have index: "jb_index (reasoning_job rw) = rw_rsOutIdx rw" "jb_index (message_job rw) = rw_msgOutIdx rw"
    "\<And>i. jb_index (call_job marshal e rw i) = ca_outIdx (the_call rw i)"
    by (simp_all add: reasoning_job_def message_job_def call_job_def Let_def)
  have "inj_on (\<lambda>i. ca_outIdx (the_call rw i)) (set (rw_order rw))"
    using index_okD(4) [OF d(3)] known by (intro inj_onI) metis
  moreover have "distinct (rw_order rw)" using d(2) by (simp add: calls_ok_def)
  ultimately have "distinct (map (\<lambda>i. ca_outIdx (the_call rw i)) (filter (\<lambda>i. ca_opened (the_call rw i)) (rw_order rw)))"
    by (auto simp: distinct_map intro: inj_on_subset)
  moreover have "rw_rsOpen rw \<Longrightarrow> rw_rsOutIdx rw \<notin> (\<lambda>i. ca_outIdx (the_call rw i)) ` set (rw_order rw)"
    using index_okD(2) [OF d(3) known] rs by (metis imageE)
  moreover have "rw_msgOpen rw \<Longrightarrow> rw_msgOutIdx rw \<notin> (\<lambda>i. ca_outIdx (the_call rw i)) ` set (rw_order rw)"
    using index_okD(3) [OF d(3) known] by (metis imageE)
  moreover have "rw_rsOpen rw \<longrightarrow> rw_msgOpen rw \<longrightarrow> rw_rsOutIdx rw \<noteq> rw_msgOutIdx rw"
    using d(3) rs by (simp add: index_ok_def)
  ultimately show "distinct (map jb_index (jobs marshal e rw))"
    by (auto simp: jobs_def index comp_def)
  show "\<forall>j \<in> set (jobs marshal e rw). job_ok j"
    using reasoning_job_ok [of rw] rs message_job_ok [OF parts] call_job_ok [OF assms(2)] calls known d(2)
    by (auto simp: jobs_def calls_ok_def split: if_splits)
  show "\<forall>j \<in> set (jobs marshal e rw). mget (vw_items v) (jb_index j) = Some (jb_before j)"
  proof
    fix j assume "j \<in> set (jobs marshal e rw)"
    then consider "rw_reason rw \<noteq> []" "j = reasoning_job rw" | "rw_msgOpen rw" "j = message_job rw"
      | i where "i \<in> set (rw_order rw)" "ca_opened (the_call rw i)" "j = call_job marshal e rw i"
      using rs by (auto simp: jobs_def split: if_splits)
    then show "mget (vw_items v) (jb_index j) = Some (jb_before j)"
    proof cases
      case 1
      then show ?thesis using shownD(1) [OF d(6)] by (simp add: reasoning_job_def)
    next
      case 2
      then show ?thesis using shownD(2) [OF d(6)] by (simp add: message_job_def)
    next
      case (3 i)
      then show ?thesis using shownD(3) [OF d(6) known [OF 3(1)]] by (simp add: call_job_def Let_def)
    qed
  qed
qed

text \<open>The jobs are the items the response lists, when the answer is completed.\<close>

lemma call_item_same: "c\<lparr>ca_opened := False\<rparr> = d\<lparr>ca_opened := False\<rparr> \<Longrightarrow> callItem marshal e c st = callItem marshal e d st
    \<and> ca_outIdx c = ca_outIdx d \<and> ca_id c = ca_id d"
  by (cases c; cases d) (simp add: callItem_def)

lemma items_listed:
  assumes "text_ok rw" "calls_ok e rw" "full rw" "itemStatus rw = ''completed''" "kept rw rw'" "\<not> rw_msgOpen rw'" "\<not> rw_rsOpen rw'"
    and "\<forall>i \<in> set (rw_order rw). sent_all (the_call rw i)"
  shows "indexed_items marshal e rw' = map (\<lambda>j. (jb_index j, jb_object j)) (jobs marshal e rw)"
proof -
  have st: "itemStatus rw' = itemStatus rw" using assms(5) by (rule kept_jobs)
  have calls: "callItem marshal e (the_call rw' i) ''completed'' = callItem marshal e (the_call rw i) ''completed''"
    "ca_outIdx (the_call rw' i) = ca_outIdx (the_call rw i)" "ca_id (the_call rw' i) = ca_id (the_call rw i)" for i
  proof -
    have same: "(the_call rw' i)\<lparr>ca_opened := False\<rparr> = (the_call rw i)\<lparr>ca_opened := False\<rparr>" using assms(5) unfolding kept_def by blast
    show "callItem marshal e (the_call rw' i) ''completed'' = callItem marshal e (the_call rw i) ''completed''"
      "ca_outIdx (the_call rw' i) = ca_outIdx (the_call rw i)" "ca_id (the_call rw' i) = ca_id (the_call rw i)"
      using call_item_same [OF same, where marshal = marshal and e = e] by blast+
  qed
  have "ca_opened (the_call rw i) \<and> ca_id (the_call rw i) \<noteq> []" if "i \<in> set (rw_order rw)" for i
    using that assms(2,8) by (auto simp: sent_all_def calls_ok_def call_ok_def the_call_def split: option.splits)
  then have "filter (\<lambda>i. ca_opened (the_call rw i)) (rw_order rw) = rw_order rw"
    "filter (\<lambda>i. ca_id (the_call rw i) \<noteq> []) (rw_order rw) = rw_order rw"
    by simp_all
  moreover have "rw_rsOpen rw \<longleftrightarrow> rw_reason rw \<noteq> []" using assms(1) by (simp add: text_ok_def)
  moreover have "rw_msgOpen rw \<longleftrightarrow> rw_text rw \<noteq> [] \<or> rw_refusal rw \<noteq> []"
  proof
    assume "rw_msgOpen rw"
    then obtain k where "k \<in> set (rw_messageParts rw)" "content rw k \<noteq> []"
      using assms(3) unfolding full_def by (metis list.set_intros(1) neq_Nil_conv)
    then show "rw_text rw \<noteq> [] \<or> rw_refusal rw \<noteq> []" by (auto simp: content_def split: if_splits)
  next
    assume "rw_text rw \<noteq> [] \<or> rw_refusal rw \<noteq> []"
    then have "rw_messageParts rw \<noteq> []" using assms(1) by (auto simp: text_ok_def)
    then show "rw_msgOpen rw" using assms(1) by (simp add: text_ok_def)
  qed
  moreover have "reasoningItem rw' ''completed'' = reasoningItem rw ''completed''" "messageItem rw' ''completed'' = messageItem rw ''completed''"
    using assms(5) by (simp_all add: kept_def reasoningItem_def messageItem_def messageContent_def message_part_def fun_eq_iff)
  ultimately show ?thesis
    using assms(5-7) by (simp add: indexed_items_def jobs_def st assms(4) calls kept_def reasoning_job_def message_job_def call_job_def Let_def)
qed

lemma echo_other: "k \<noteq> key \<Longrightarrow> mget (echo_field key x ob) k = mget ob k"
  by (cases x) (simp_all add: echo_field_def)

lemma echo_keeps: "mget (applyEcho req ob) ''status'' = mget ob ''status''" "mget (applyEcho req ob) ''output'' = mget ob ''output''"
  by (simp_all add: applyEcho_def echo_other)

lemma response_said:
  "get_str (responseObject marshal e rw st) ''status'' = st"
  "mget (responseObject marshal e rw st) ''output'' = Some (JArr (map JObj (map snd (sort_key fst (indexed_items marshal e rw)))))"
  by (simp_all add: responseObject_def Let_def echo_keeps get_str_def response_fields_def str_or_empty_def outputItems_def)

lemma client_ends:
  assumes "sim e rw v" "tables_agree (rq_tables (en_req e))" "full rw" "rw_terminalStatus rw = st"
    and st: "st \<in> {''completed'', ''incomplete'', ''failed''}"
    and calls: "st = ''completed'' \<Longrightarrow> \<forall>i \<in> set (rw_order rw). sent_all (the_call rw i)"
    and after: "kept rw rw'" "\<not> rw_msgOpen rw'" "\<not> rw_rsOpen rw'"
  shows "\<exists>v'. follow (concat (map jb_events (jobs marshal e rw)) @ [EvTerminal st (responseObject marshal e rw' st)]) v = Some v'
    \<and> vw_phase v' = Ended"
proof -
  note d = simD [OF assms(1)]
  have completed: "itemStatus rw = ''completed'' \<longleftrightarrow> st = ''completed''" using assms(4) st by (auto simp: itemStatus_def)
  note ready = jobs_ready [OF assms(1,2), of marshal, unfolded completed, OF calls]
  obtain v' where v': "follow (concat (map jb_events (jobs marshal e rw))) v = Some v'" "vw_phase v' = InProgress"
    "vw_done v' = map (\<lambda>j. (jb_index j, jb_object j)) (jobs marshal e rw)"
    "\<And>k. map_option is_call (mget (vw_items v') k) = map_option is_call (mget (vw_items v) k)"
    using follow_jobs [OF ready(1,2) d(4)] ready(3) d(5) by auto
  have "idx \<in> jb_index ` set (jobs marshal e rw) \<longleftrightarrow> st = ''completed'' \<or> \<not> is_call vi"
    if vi: "mget (vw_items v') idx = Some vi" for idx vi
  proof -
    obtain vi0 where vi0: "mget (vw_items v) idx = Some vi0" "is_call vi0 = is_call vi"
      using v'(4) [of idx] vi by (cases "mget (vw_items v) idx") auto
    have job: "mget (vw_items v) (jb_index j) = Some (jb_before j)" if "j \<in> set (jobs marshal e rw)" for j using ready(3) that by blast
    have rs: "rw_rsOpen rw \<longleftrightarrow> rw_reason rw \<noteq> []" using d(1) by (simp add: text_ok_def)
    from vi0 consider "rw_reason rw \<noteq> []" "idx = rw_rsOutIdx rw" | "rw_msgOpen rw" "idx = rw_msgOutIdx rw"
      | i c where "mget (rw_calls rw) i = Some c" "ca_opened c" "idx = ca_outIdx c"
      using shownD(4) [OF d(6), of idx] by blast
    then show ?thesis
    proof cases
      case 1
      then have "reasoning_job rw \<in> set (jobs marshal e rw)" "idx = jb_index (reasoning_job rw)" "\<not> is_call vi"
        using rs vi0 shownD(1) [OF d(6)] by (auto simp: jobs_def reasoning_job_def)
      then show ?thesis by blast
    next
      case 2
      then have "message_job rw \<in> set (jobs marshal e rw)" "idx = jb_index (message_job rw)" "\<not> is_call vi"
        using vi0 shownD(2) [OF d(6)] by (auto simp: jobs_def message_job_def)
      then show ?thesis by blast
    next
      case (3 i c)
      then have c: "the_call rw i = c" "i \<in> set (rw_order rw)" using d(2) by (auto simp: the_call_def calls_ok_def)
      have called: "is_call vi" using vi0 shownD(3) [OF d(6) 3(1,2)] 3(3) by (auto simp: call_view_def split: if_splits)
      show ?thesis
      proof (cases "st = ''completed''")
        case True
        then have "call_job marshal e rw i \<in> set (jobs marshal e rw)" using c 3 completed by (auto simp: jobs_def)
        then show ?thesis using True 3(3) c by (force simp: call_job_def Let_def)
      next
        case False
        have "idx \<noteq> jb_index j" if j: "j \<in> set (jobs marshal e rw)" for j
        proof -
          have "\<not> is_call (jb_before j)" using j False completed by (auto simp: jobs_def reasoning_job_def message_job_def split: if_splits)
          then show ?thesis using job [OF j] vi0 called by auto
        qed
        then show ?thesis using False called by blast
      qed
    qed
  qed
  note closed = this
  have listed: "set (map fst (vw_done v')) = jb_index ` set (jobs marshal e rw)" by (simp add: v'(3) image_image)
  have "\<forall>idx \<in> set (mkeys (vw_items v')). idx \<in> set (map fst (vw_done v')) \<longleftrightarrow>
          st = ''completed'' \<or> (case mget (vw_items v') idx of Some vi \<Rightarrow> \<not> is_call vi | None \<Rightarrow> False)"
  proof
    fix idx assume "idx \<in> set (mkeys (vw_items v'))"
    then obtain vi where vi: "mget (vw_items v') idx = Some vi" by (metis mget_None_keys not_None_eq)
    show "idx \<in> set (map fst (vw_done v')) \<longleftrightarrow>
          st = ''completed'' \<or> (case mget (vw_items v') idx of Some vi \<Rightarrow> \<not> is_call vi | None \<Rightarrow> False)"
      unfolding listed vi option.case by (rule closed [OF vi])
  qed
  moreover have "st = ''completed'' \<Longrightarrow> indexed_items marshal e rw' = vw_done v'"
    using items_listed [OF d(1,2) assms(3) _ after] calls completed v'(3) by simp
  ultimately have "may_end st (responseObject marshal e rw' st) v'"
    using st unfolding may_end_def response_said by auto
  then show ?thesis using v' by (simp add: follow_append in_progress_def)
qed


subsection \<open>A whole answer\<close>

lemma final_status_cases: "final_status rw \<in> {''completed'', ''incomplete'', ''failed''}"
  by (simp add: final_status_def)

lemma finish_ends:
  assumes "followed e rw" "full rw" "\<not> rw_writeErr rw" "tables_agree (rq_tables (en_req e))"
  shows "\<exists>v. view_of (evs (finishStream marshal e rw)) = Some v \<and> vw_phase v = Ended"
proof -
  define r1 where "r1 = CompletionError marshal e rw"
  define st where "st = final_status r1"
  let ?r = "r1\<lparr>rw_terminalStatus := st\<rparr>"
  have "followed e r1" using followed.completion [of e rw marshal] assms(1,4) by (simp add: r1_def)
  then have "followed e ?r" by (rule followed_update)
  then obtain v where v: "view_of (evs ?r) = Some v" "sim e ?r v" by (rule followedE)
  have "full r1" unfolding r1_def by (rule filled.reader.completion [OF assms(2)])
  then have f: "full ?r" by (rule full_same [rotated]) (simp add: same_message_def)
  have sent: "\<forall>i \<in> set (rw_order ?r). sent_all (the_call ?r i)" if "st = ''completed''"
    using completion_sends [OF assms(1,3), of marshal] that by (simp add: r1_def st_def the_call_def)
  have w: "evs (closeCalls marshal e ?r) = evs ?r @ concat (map jb_events (jobs marshal e ?r))" "kept ?r (closeCalls marshal e ?r)"
    "\<not> rw_msgOpen (closeCalls marshal e ?r)" "\<not> rw_rsOpen (closeCalls marshal e ?r)"
    using closing_writes [where marshal = marshal and e = e and rw = ?r] simD(1,2) [OF v(2)] by (simp_all add: calls_ok_def)
  obtain v' where "follow (concat (map jb_events (jobs marshal e ?r))
      @ [EvTerminal st (responseObject marshal e (closeCalls marshal e ?r) st)]) v = Some v'" "vw_phase v' = Ended"
    using client_ends [OF v(2) assms(4) f _ _ sent w(2-4)] final_status_cases [of r1] by (auto simp: st_def)
  moreover have "evs (finishStream marshal e rw) = evs ?r @ concat (map jb_events (jobs marshal e ?r))
      @ [EvTerminal st (responseObject marshal e (closeCalls marshal e ?r) st)]"
    by (simp add: finishStream_def Let_def w(1) r1_def [symmetric] st_def [symmetric])
  ultimately show ?thesis using v(1) by (simp add: view_append)
qed

text \<open>
  What the chat handler does with the writer: sets a header, writes, or asks whether the answer
  is complete.
\<close>

datatype writer_op = SetType string | SetStatus int | Wrote string | Asked

fun writer_do :: "(json \<Rightarrow> string) \<Rightarrow> 's surroundings \<Rightarrow> writer_op \<Rightarrow> responsesWriter \<Rightarrow> responsesWriter" where
  "writer_do marshal e (SetType t) rw = rw\<lparr>rw_ctype := t\<rparr>"
| "writer_do marshal e (SetStatus n) rw = WriteHeader n rw"
| "writer_do marshal e (Wrote p) rw = Write marshal e p rw"
| "writer_do marshal e Asked rw = CompletionError marshal e rw"

definition answer_of :: "(json \<Rightarrow> string) \<Rightarrow> 's surroundings \<Rightarrow> writer_op list \<Rightarrow> responsesWriter" where
  "answer_of marshal e ops = fold (writer_do marshal e) ops (newResponsesWriter (en_req e))"

text \<open>Before the stream has begun nothing was read; from then on the client follows.\<close>

definition unread :: "responsesWriter \<Rightarrow> bool" where
  "unread rw \<longleftrightarrow> rw_events rw = [] \<and> rw_calls rw = [] \<and> rw_order rw = [] \<and> rw_reason rw = [] \<and> rw_text rw = [] \<and> rw_refusal rw = []
     \<and> rw_messageParts rw = [] \<and> \<not> rw_rsOpen rw \<and> \<not> rw_rsPart rw \<and> \<not> rw_msgOpen rw \<and> \<not> rw_writeErr rw"

definition reading :: "'s surroundings \<Rightarrow> responsesWriter \<Rightarrow> bool" where
  "reading e rw \<longleftrightarrow> (if rw_begun rw then followed e rw \<and> full rw else unread rw)"

interpretation begun: call_blind marshal e "\<lambda>rw. rw_begun rw = b \<and> rw_closed rw = c" for marshal e b c
  by unfold_locales
    (simp_all add: reasoningDelta_def openSummary_def openReasoning_def textDelta_def refusalDelta_def ensureMessagePart_def openMessage_def
      register_call_def openCall_def sendArguments_def handle_meta_def set_call_def Let_def split: option.split prod.split)


lemma no_events:
  assumes "unread rw"
  shows "unread (CompletionError marshal e rw)"
proof -
  have fails: "unread (fail_with code t r)" "unread (fail_if b code m r)" if "unread r" for r code t b m
    using that by (auto simp: fail_if_def fail_with_def failOutput_def unread_def split: option.split)
  then have contract: "unread (check_contract e r)" if "unread r" for r using that by (simp add: check_contract_def Let_def)
  have quiet: "flushReadyCalls marshal e (name_calls e (rw_order r) r) = r" if "unread r" for r
    using that by (simp add: unread_def flushReadyCalls_def)
  show ?thesis using assms unfolding CompletionError_def Let_def
    by (auto intro: fails contract simp: quiet [OF contract [OF fails(2) [OF fails(2)]]])
qed

lemma unread_begins:
  assumes "unread rw"
  shows "followed e (beginStream marshal e rw)" "full (beginStream marshal e rw)" "rw_begun (beginStream marshal e rw)"
proof -
  show "followed e (beginStream marshal e rw)" by (rule followed_begin) (use assms in \<open>simp_all add: unread_def\<close>)
  show "full (beginStream marshal e rw)" "rw_begun (beginStream marshal e rw)"
    using assms by (simp_all add: unread_def beginStream_def Let_def full_def)
qed

lemma reading_feed:
  assumes "rw_begun rw" "followed e rw" "full rw" "tables_agree (rq_tables (en_req e))"
  shows "reading e (feed marshal e p rw)"
  using assms followed.feeding [of e rw marshal p] filled.reader.feeding [of rw marshal e p]
    begun.reader.feeding [of rw True "rw_closed rw" marshal e p]
  by (simp add: reading_def)

lemma reading_fields:
  assumes "reading e rw"
  shows "reading e (rw\<lparr>rw_ctype := t\<rparr>)" "reading e (rw\<lparr>rw_status := n, rw_mode := md\<rparr>)" "reading e (rw\<lparr>rw_mode := md, rw_buf := t\<rparr>)"
    "reading e (rw\<lparr>rw_buf := t\<rparr>)" "reading e (rw\<lparr>rw_mode := md\<rparr>)"
proof -
  have same: "reading e rw'" if "rw_begun rw' = rw_begun rw" "evs rw' = evs rw" "same_items rw rw'" "unread rw' = unread rw" for rw'
    using assms followed_same [of e rw rw'] full_same [of rw rw'] that
    by (auto simp: reading_def same_message_def same_items_def split: if_splits)
  show "reading e (rw\<lparr>rw_ctype := t\<rparr>)" "reading e (rw\<lparr>rw_status := n, rw_mode := md\<rparr>)" "reading e (rw\<lparr>rw_mode := md, rw_buf := t\<rparr>)"
    "reading e (rw\<lparr>rw_buf := t\<rparr>)" "reading e (rw\<lparr>rw_mode := md\<rparr>)"
    by (rule same; simp add: same_items_def unread_def)+
qed

lemma reading_do:
  assumes "reading e rw" "tables_agree (rq_tables (en_req e))"
  shows "reading e (writer_do marshal e op rw)"
proof (cases op)
  case (SetType t)
  then show ?thesis using reading_fields(1) [OF assms(1)] by simp
next
  case (SetStatus n)
  then show ?thesis using reading_fields(2) [OF assms(1)] by (simp add: WriteHeader_def)
next
  case (Wrote p)
  note same = reading_fields(3-5) [OF assms(1)]
  have "reading e (begin_and_feed marshal e p r)" if "reading e r" for r
    using that unread_begins [where rw = r and e = e and marshal = marshal] reading_feed [OF _ _ _ assms(2)] by (auto simp: begin_and_feed_def reading_def)
  then show ?thesis using assms(1) same Wrote by (simp add: Write_def split: out_mode.split)
next
  case Asked
  have "rw_begun (CompletionError marshal e rw) = rw_begun rw"
    using begun.reader.completion [of rw "rw_begun rw" "rw_closed rw" marshal e] by simp
  then show ?thesis
    using assms Asked followed.completion [of e rw marshal] filled.reader.completion [of rw marshal e] no_events [of rw marshal e]
    by (auto simp: reading_def split: if_splits)
qed

lemma writes_do: "writes e a b \<Longrightarrow> writes e a (writer_do marshal e op b)"
  by (cases op) (auto intro: writes_write written.reader.completion writes_quiet simp: same_out_def WriteHeader_def)

lemma open_do: "rw_closed (writer_do marshal e op rw) = rw_closed rw"
proof (cases op)
  case (Wrote p)
  have "rw_closed (begin_and_feed marshal e p r) = rw_closed r" for r
  proof -
    have "rw_closed (feed marshal e p r') = rw_closed r'" for r'
      using begun.reader.feeding [of r' "rw_begun r'" "rw_closed r'" marshal e p] by simp
    then show ?thesis by (simp add: begin_and_feed_def beginStream_def Let_def)
  qed
  then show ?thesis using Wrote by (simp add: Write_def split: out_mode.split)
next
  case Asked
  then show ?thesis using begun.reader.completion [of rw "rw_begun rw" "rw_closed rw" marshal e] by simp
qed (simp_all add: WriteHeader_def)

lemma answer_facts:
  assumes "tables_agree (rq_tables (en_req e))"
  shows "reading e (answer_of marshal e ops)" "numbered_events (answer_of marshal e ops)" "\<not> rw_closed (answer_of marshal e ops)"
proof -
  have "reading e (fold (writer_do marshal e) ops rw)" if "reading e rw" for rw
    using that by (induction ops arbitrary: rw) (auto intro: reading_do assms)
  moreover have "reading e (newResponsesWriter (en_req e))" by (simp add: reading_def unread_def newResponsesWriter_def)
  ultimately show "reading e (answer_of marshal e ops)" by (simp add: answer_of_def)
  have "rw_closed (fold (writer_do marshal e) ops rw) = rw_closed rw" for rw
    by (induction ops arbitrary: rw) (auto simp: open_do)
  then show "\<not> rw_closed (answer_of marshal e ops)" by (simp add: answer_of_def newResponsesWriter_def)
  have "writes e a (fold (writer_do marshal e) ops b)" if "writes e a b" for a b
    using that by (induction ops arbitrary: b) (auto intro: writes_do)
  then have "writes e (newResponsesWriter (en_req e)) (answer_of marshal e ops)" by (simp add: answer_of_def)
  then show "numbered_events (answer_of marshal e ops)"
    by (rule writes_numbered) (simp add: numbered_events_def newResponsesWriter_def)
qed

lemma received_all: "numbered_events rw \<Longrightarrow> \<not> rw_writeErr rw \<Longrightarrow> received rw = rw_events rw"
  by (simp add: numbered_events_def received_def)

lemma received_prefix: "view_of (evs rw) \<noteq> None \<Longrightarrow> view_of (map snd (received rw)) \<noteq> None"
  using view_of_take by (simp add: received_def flip: take_map)

lemma stream_followed:
  assumes "followed e rw" "full rw" "numbered_events rw" "tables_agree (rq_tables (en_req e))"
  shows "\<exists>v. view_of (map snd (received (finishStream marshal e rw))) = Some v
    \<and> (\<not> rw_writeErr (finishStream marshal e rw) \<longrightarrow> vw_phase v = Ended)"
proof -
  let ?r = "finishStream marshal e rw"
  have w: "writes e rw ?r" by (rule writes_finish_stream [OF writes_refl])
  show ?thesis
  proof (cases "rw_writeErr rw")
    case True
    then have "rw_writeErr ?r \<and> received ?r = received rw" using writes_after_failure [OF w assms(3)] by blast
    moreover have "view_of (map snd (received rw)) \<noteq> None"
      using assms(1) by (intro received_prefix) (auto simp: followed_def)
    ultimately show ?thesis by auto
  next
    case False
    then obtain v where v: "view_of (evs ?r) = Some v" "vw_phase v = Ended"
      using finish_ends [OF assms(1,2) _ assms(4)] by blast
    then have "view_of (map snd (received ?r)) \<noteq> None" by (intro received_prefix) simp
    moreover have "received ?r = rw_events ?r" if "\<not> rw_writeErr ?r"
      using received_all [OF writes_numbered [OF w assms(3)] that] .
    ultimately show ?thesis using v by auto
  qed
qed

end
