(* ===== verification/ResponsesProps.thy ===== *)
theory ResponsesProps
  imports ResponsesEnd ToolNamesProps
begin

text \<open>What a client of the Responses stream may rely on, over a whole answer.\<close>

text \<open>The tables of an accepted request agree.\<close>

lemma accepted_agree:
  assumes "requestValidationTools (Some (JArr tools)) path True = None"
  shows "tables_agree (responsesTools digest tools)"
proof -
  obtain topNames n0 ps where ok: "tables_ok False topNames n0 ps (responsesTools digest tools)"
    using accepted_tables [OF assms, of False digest] by auto
  have "inj_on snd (set ps)" using ok by (simp add: tables_ok_def distinct_map)
  then have one: "d' = d" if "(d', w) \<in> set ps" "(d, w) \<in> set ps" for d d' w
    using inj_onD [of snd "set ps" "(d', w)" "(d, w)"] that by simp
  show ?thesis unfolding tables_agree_def
  proof (intro allI impI)
    fix w a assume "mget (tt_aliases (responsesTools digest tools)) w = Some a"
    then obtain d where d: "(d, w) \<in> set ps" "a = alias_of d" using tables_alias [OF ok] by blast
    then have "w \<in> set (tt_custom (responsesTools digest tools)) \<longleftrightarrow> decl_custom d"
      using tables_custom [OF ok, of w] one by blast
    then show "al_custom a \<longleftrightarrow> w \<in> set (tt_custom (responsesTools digest tools))"
      using d(2) by (simp add: alias_of_def)
  qed
qed

text \<open>A request with these tools and a JSON answer.\<close>

definition sample_request :: "unit responsesRequest" where
  "sample_request = \<lparr>rq_model = ''m'', rq_instructions = [], rq_stream = True, rq_maxOutputTokens = None, rq_temperature = None, rq_topP = None,
     rq_tools = Some sample_tools, rq_toolChoice = None, rq_metadata = None, rq_reasoning = None, rq_parallel = Some False,
     rq_promptCacheKey = [], rq_conversationID = [], rq_conversationCamel = [],
     rq_output = Some \<lparr>oc_format = [], oc_chatFormat = Some [], oc_schema = None, oc_jsonObject = True\<rparr>, rq_toolPolicy = None,
     rq_tables = responsesTools (\<lambda>_. ''0123456789ab'') sample_tools\<rparr>"

definition sample_env :: "unit surroundings" where
  "sample_env = \<lparr>en_req = sample_request, en_fits = (\<lambda>_ _. True), en_ids = (\<lambda>n. replicate n CHR ''1''), en_clock = 1700000000,
     en_ok = (\<lambda>_. True), en_quote = id\<rparr>"



text \<open>
  C13: The events the client receives carry the sequence numbers 0, 1, 2 and so on, without a gap, also
  when a write fails on the way.
\<close>

theorem event_numbers_count_up:
  "map fst (received (finish marshal e (answer_of marshal e ops)))
     = [0..<length (received (finish marshal e (answer_of marshal e ops)))]"
proof -
  have "writes e a (fold (writer_do marshal e) ops b)" if "writes e a b" for a b
    using that by (induction ops arbitrary: b) (auto intro: writes_do)
  then have "writes e (newResponsesWriter (en_req e)) (finish marshal e (answer_of marshal e ops))"
    by (auto simp: answer_of_def intro!: writes_finish)
  moreover have "numbered_events (newResponsesWriter (en_req e))" by (simp add: numbered_events_def newResponsesWriter_def)
  ultimately have "numbered_events (finish marshal e (answer_of marshal e ops))" by (rule writes_numbered)
  then have n: "map fst (rw_events (finish marshal e (answer_of marshal e ops))) = [0..<rw_seq (finish marshal e (answer_of marshal e ops))]"
    by (simp add: numbered_events_def)
  then have "rw_seq (finish marshal e (answer_of marshal e ops)) = length (rw_events (finish marshal e (answer_of marshal e ops)))"
    by (metis length_map length_upt diff_zero)
  with n show ?thesis by (simp add: received_def min_def flip: take_map)
qed




end
