(* ===== verification/ChatContract.thy ===== *)
theory ChatContract
  imports ResponsesOut RequestValidation SseStream
begin

text \<open>
  What a chat client demands of the answer, \<open>internal/server/chat_output_contract.go\<close>: the demands
  of a request, the declarations under names the vendor takes, and the writer that holds back the
  end of a stream until the whole answer was checked.
\<close>

subsection \<open>The demands of a request\<close>

datatype demand_error =
    BadField string
  | ResponseFormatNotObject
  | SchemaMissing
  | BadPolicy policy_error
  | BadFormat format_error

text \<open>Fields decoded into a string, a slice and a pointer; \<open>null\<close> leaves them as they are.\<close>

definition string_into :: "string \<Rightarrow> obj \<Rightarrow> demand_error + string" where
  "string_into key fs =
     (case given (mget fs key) of None \<Rightarrow> Inr [] | Some (JStr s) \<Rightarrow> Inr s | Some _ \<Rightarrow> Inl (BadField key))"

definition array_into :: "string \<Rightarrow> obj \<Rightarrow> demand_error + json list" where
  "array_into key fs =
     (case given (mget fs key) of None \<Rightarrow> Inr [] | Some (JArr vs) \<Rightarrow> Inr vs | Some _ \<Rightarrow> Inl (BadField key))"

definition bool_into :: "string \<Rightarrow> obj \<Rightarrow> demand_error + bool option" where
  "bool_into key fs =
     (case given (mget fs key) of None \<Rightarrow> Inr None | Some (JBool b) \<Rightarrow> Inr (Some b) | Some _ \<Rightarrow> Inl (BadField key))"

definition legacy_tools :: "obj \<Rightarrow> json list \<Rightarrow> demand_error + json list" where
  "legacy_tools fs tools =
     (if tools \<noteq> [] then Inr tools
      else case array_into ''functions'' fs of
        Inl e \<Rightarrow> Inl e
      | Inr fns \<Rightarrow> Inr (map (\<lambda>fn. JObj [(''type'', JStr ''function''), (''function'', fn)]) fns))"

definition or_nothing :: "json option \<Rightarrow> json" where
  "or_nothing v = (case v of None \<Rightarrow> JNull | Some x \<Rightarrow> x)"

definition named_choice :: "json option \<Rightarrow> json" where
  "named_choice name = JObj [(''type'', JStr ''function''), (''name'', or_nothing name)]"

definition flat_choice :: "json \<Rightarrow> json" where
  "flat_choice choice =
     (case choice of
        JObj ob \<Rightarrow>
          (case given (mget ob ''type'') of
             None \<Rightarrow> named_choice (mget ob ''name'')
           | Some (JStr k) \<Rightarrow>
               if k \<in> {''auto'', ''none'', ''required''} then JStr k
               else if k = ''function''
               then (case mget ob ''function'' of Some (JObj fn) \<Rightarrow> named_choice (mget fn ''name'') | _ \<Rightarrow> choice)
               else choice
           | Some _ \<Rightarrow> choice)
      | _ \<Rightarrow> choice)"

definition demanded_choice :: "obj \<Rightarrow> json option" where
  "demanded_choice fs =
     map_option flat_choice (if mget fs ''tool_choice'' = None then mget fs ''function_call'' else mget fs ''tool_choice'')"

definition demanded_format :: "(json \<Rightarrow> nat) \<Rightarrow> (obj \<Rightarrow> 's option) \<Rightarrow> obj \<Rightarrow> demand_error + 's outputContract option" where
  "demanded_format raw_length compile fs =
     (case given (mget fs ''response_format'') of
        None \<Rightarrow> Inr None
      | Some (JObj format) \<Rightarrow>
          let parse = (\<lambda>f. case parseOutputContract raw_length compile (Some (JObj [(''format'', JObj f)])) of
                 Inl e \<Rightarrow> Inl (BadFormat e) | Inr c \<Rightarrow> Inr c)
          in if is_str format ''type'' ''json_schema''
             then (case mget format ''json_schema'' of
                     Some (JObj nested) \<Rightarrow> parse (mput ''type'' (JStr ''json_schema'') nested)
                   | _ \<Rightarrow> Inl SchemaMissing)
             else parse format
      | Some _ \<Rightarrow> Inl ResponseFormatNotObject)"

definition chat_demands :: "string \<Rightarrow> json list \<Rightarrow> bool option \<Rightarrow> json option \<Rightarrow> tool_tables \<Rightarrow> 's responseToolPolicy
    \<Rightarrow> 's outputContract option \<Rightarrow> 's responsesRequest" where
  "chat_demands model tools parallel choice tables policy contract =
     \<lparr>rq_model = model, rq_instructions = [], rq_stream = False, rq_maxOutputTokens = None, rq_temperature = None, rq_topP = None,
      rq_tools = (if tools = [] then None else Some tools), rq_toolChoice = choice, rq_metadata = None, rq_reasoning = None,
      rq_parallel = parallel, rq_promptCacheKey = [], rq_conversationID = [], rq_conversationCamel = [],
      rq_output = contract, rq_toolPolicy = Some policy, rq_tables = tables\<rparr>"

definition demands_something :: "'s responsesRequest \<Rightarrow> 's responseToolPolicy \<Rightarrow> bool" where
  "demands_something req policy \<longleftrightarrow>
     po_mode policy \<noteq> ''auto'' \<or> po_allowed policy \<noteq> None \<or> po_schemas policy \<noteq> [] \<or> tt_aliases (rq_tables req) \<noteq> []
     \<or> rq_parallel req = Some False \<or> (case rq_output req of None \<Rightarrow> False | Some c \<Rightarrow> oc_chatFormat c \<noteq> None)"

definition newChatOutputContract :: "(string \<Rightarrow> string) \<Rightarrow> (obj \<Rightarrow> 's option) \<Rightarrow> (json \<Rightarrow> nat) \<Rightarrow> obj
    \<Rightarrow> demand_error + 's responsesRequest option" where
  "newChatOutputContract digest compile raw_length fs =
     (case string_into ''model'' fs of Inl e \<Rightarrow> Inl e | Inr model \<Rightarrow>
      case array_into ''tools'' fs of Inl e \<Rightarrow> Inl e | Inr tools0 \<Rightarrow>
      case bool_into ''parallel_tool_calls'' fs of Inl e \<Rightarrow> Inl e | Inr parallel \<Rightarrow>
      case legacy_tools fs tools0 of Inl e \<Rightarrow> Inl e | Inr tools \<Rightarrow>
        let choice = demanded_choice fs; tables = responsesTools digest tools
        in case prepareToolPolicy digest compile tables (tt_out tables) choice of
             Inl e \<Rightarrow> Inl (BadPolicy e)
           | Inr (_, _, policy) \<Rightarrow>
               (case demanded_format raw_length compile fs of
                  Inl e \<Rightarrow> Inl e
                | Inr contract \<Rightarrow>
                    let req = chat_demands model tools parallel choice tables policy contract
                    in Inr (if demands_something req policy then Some req else None)))"

subsection \<open>Declarations under the names the vendor takes\<close>

definition rename_function :: "(string, string) gomap \<Rightarrow> bool \<Rightarrow> obj \<Rightarrow> obj" where
  "rename_function names declaration fn =
     (let name = get_str fn ''name''
      in case mget names (identity [] name) of
           None \<Rightarrow> fn
         | Some alias_name \<Rightarrow>
             if alias_name = name then fn
             else let fn' = mput ''name'' (JStr alias_name) fn
                  in if declaration then describeToolAlias name fn' else fn')"

definition in_object :: "string \<Rightarrow> (obj \<Rightarrow> obj) \<Rightarrow> obj \<Rightarrow> obj" where
  "in_object key f m = (case mget m key of Some (JObj x) \<Rightarrow> mput key (JObj (f x)) m | _ \<Rightarrow> m)"

definition in_array :: "string \<Rightarrow> (json \<Rightarrow> json) \<Rightarrow> obj \<Rightarrow> obj" where
  "in_array key f m = (case mget m key of Some (JArr vs) \<Rightarrow> mput key (JArr (map f vs)) m | _ \<Rightarrow> m)"

definition if_object :: "(obj \<Rightarrow> obj) \<Rightarrow> json \<Rightarrow> json" where
  "if_object f v = (case v of JObj m \<Rightarrow> JObj (f m) | _ \<Rightarrow> v)"

definition rename_tools :: "(string, string) gomap \<Rightarrow> json list \<Rightarrow> json list" where
  "rename_tools names tools =
     map (if_object (in_object ''function'' (rename_function names True)))
       (filter (\<lambda>raw. \<not> isUnimplementedBuiltinTool (get_str (nested_of (Some raw)) ''type'')) tools)"

definition rename_choice :: "(string, string) gomap \<Rightarrow> json \<Rightarrow> json" where
  "rename_choice names choice =
     (case choice of
        JStr name \<Rightarrow> (case mget names (identity [] name) of None \<Rightarrow> choice | Some alias_name \<Rightarrow> JStr alias_name)
      | JObj ob \<Rightarrow>
          (case mget ob ''function'' of
             Some (JObj _) \<Rightarrow> JObj (in_object ''function'' (rename_function names False) ob)
           | _ \<Rightarrow> JObj (rename_function names False ob))
      | _ \<Rightarrow> choice)"

definition rename_message :: "(string, string) gomap \<Rightarrow> obj \<Rightarrow> obj" where
  "rename_message names message =
     (let m1 = in_array ''tool_calls'' (if_object (in_object ''function'' (rename_function names False))) message;
          m2 = in_object ''function_call'' (rename_function names False) m1
      in if is_str m2 ''role'' ''function'' then rename_function names False m2 else m2)"

definition set_array :: "string \<Rightarrow> json list \<Rightarrow> json list \<Rightarrow> obj \<Rightarrow> obj" where
  "set_array key before after fs =
     (if after = before then fs else if after = [] then mdel key fs else mput key (JArr after) fs)"

definition rename_choices :: "(string, string) gomap \<Rightarrow> obj \<Rightarrow> obj" where
  "rename_choices names fs =
     fold (\<lambda>key fs. case mget fs key of None \<Rightarrow> fs | Some v \<Rightarrow> mput key (rename_choice names v) fs)
       [''tool_choice'', ''function_call''] fs"

text \<open>Without any tool the controls that are only about tools go.\<close>

definition idle_choice :: "json \<Rightarrow> bool" where
  "idle_choice v =
     (let c = (case v of JObj ob \<Rightarrow> or_nothing (mget ob ''type'') | _ \<Rightarrow> v)
      in c = JNull \<or> c = JStr ''auto'' \<or> c = JStr ''none'')"

definition drop_controls :: "obj \<Rightarrow> obj" where
  "drop_controls fs =
     fold (\<lambda>key fs. case mget fs key of
         None \<Rightarrow> fs | Some v \<Rightarrow> if idle_choice v then mdel key fs else fs)
       [''tool_choice'', ''function_call''] (mdel ''parallel_tool_calls'' fs)"

definition normalizeChatToolDeclarations :: "obj \<Rightarrow> 's responsesRequest option \<Rightarrow> demand_error + obj" where
  "normalizeChatToolDeclarations fs req =
     (let names = (case req of None \<Rightarrow> [] | Some r \<Rightarrow> toolAliasIndex (tt_aliases (rq_tables r)))
      in case array_into ''tools'' fs of Inl e \<Rightarrow> Inl e | Inr tools \<Rightarrow>
         case array_into ''functions'' fs of Inl e \<Rightarrow> Inl e | Inr legacy \<Rightarrow>
           let kept = rename_tools names tools;
               f1 = set_array ''functions'' legacy (map (if_object (rename_function names True)) legacy)
                      (set_array ''tools'' tools kept fs);
               f2 = (if names = [] then Inr f1
                     else let f = rename_choices names f1
                          in case array_into ''messages'' f of
                               Inl e \<Rightarrow> Inl e
                             | Inr messages \<Rightarrow>
                                 Inr (set_array ''messages'' messages (map (if_object (rename_message names)) messages) f))
           in case f2 of
                Inl e \<Rightarrow> Inl e
              | Inr f \<Rightarrow> Inr (if kept = [] \<and> legacy = [] then drop_controls f else f))"

subsection \<open>The writer\<close>

text \<open>
  What was written: a frame as it came, one that was changed, the vendor's error, a refusal, the
  end of the answer, usage, and \<open>[DONE]\<close>; an answer that is no stream is written as it comes.
\<close>

datatype contract_error = FrameInvalid | AnswerBroken stream_error | AnswerRefused answer_error

datatype chat_frame =
    Passed string
  | Changed obj
  | VendorError string
  | Refusal contract_error
  | ChatEnd obj
  | UsageFrame obj
  | DoneFrame

record chatContractWriter =
  cw_raw :: string
  cw_buffer :: string
  cw_usageFrames :: "obj list"
  cw_errorFrame :: string
  cw_streaming :: bool
  cw_checked :: bool
  cw_err :: "contract_error option"
  cw_writeErr :: bool
  cw_frames :: "chat_frame list"
  cw_plain :: "string list"

definition new_contract_writer :: chatContractWriter where
  "new_contract_writer = \<lparr>cw_raw = [], cw_buffer = [], cw_usageFrames = [], cw_errorFrame = [], cw_streaming = False,
     cw_checked = False, cw_err = None, cw_writeErr = False, cw_frames = [], cw_plain = []\<rparr>"

definition contract_writeRaw :: "(nat \<Rightarrow> bool) \<Rightarrow> chat_frame \<Rightarrow> chatContractWriter \<Rightarrow> chatContractWriter" where
  "contract_writeRaw ok f w =
     (if cw_writeErr w then w
      else if ok (length (cw_frames w)) then w\<lparr>cw_frames := cw_frames w @ [f]\<rparr> else w\<lparr>cw_writeErr := True\<rparr>)"

definition restore_function :: "tool_tables \<Rightarrow> obj \<Rightarrow> obj" where
  "restore_function tables fn =
     (let original = fst (responsesToolName tables (get_str fn ''name''))
      in if original = get_str fn ''name'' then fn else mput ''name'' (JStr original) fn)"

definition restoreToolNames :: "tool_tables \<Rightarrow> obj \<Rightarrow> obj" where
  "restoreToolNames tables message =
     in_object ''function_call'' (restore_function tables)
       (in_array ''tool_calls'' (if_object (in_object ''function'' (restore_function tables))) message)"

definition has_delta :: "json \<Rightarrow> bool" where
  "has_delta choice \<longleftrightarrow> nested_of (mget (nested_of (Some choice)) ''delta'') \<noteq> []"

definition held_choice :: "tool_tables \<Rightarrow> obj \<Rightarrow> obj" where
  "held_choice tables choice =
     in_object ''delta'' (restoreToolNames tables)
       (if get_str choice ''finish_reason'' = [] then choice else mput ''finish_reason'' JNull choice)"

definition held_frame :: "tool_tables \<Rightarrow> obj \<Rightarrow> obj" where
  "held_frame tables frame =
     in_array ''choices'' (if_object (held_choice tables))
       (if given (mget frame ''usage'') = None then frame else mput ''usage'' JNull frame)"

text \<open>The object of a \<open>data:\<close> line; \<open>None\<close>: it is none, or not decodable.\<close>

definition done_text :: string where "done_text = ''[DONE]''"

definition is_data :: "string \<Rightarrow> bool" where
  "is_data raw \<longleftrightarrow> has_prefix (trim_space raw) data_prefix"

definition data_of :: "string \<Rightarrow> string" where
  "data_of raw = drop (length data_prefix) (trim_space raw)"

definition decode_frame :: "string \<Rightarrow> obj option" where
  "decode_frame text =
     (case map_option exact_of (parse_json text) of Some (JObj m) \<Rightarrow> Some m | Some JNull \<Rightarrow> Some [] | _ \<Rightarrow> None)"

definition pass_frame :: "(nat \<Rightarrow> bool) \<Rightarrow> tool_tables \<Rightarrow> string \<Rightarrow> obj \<Rightarrow> chatContractWriter \<Rightarrow> chatContractWriter" where
  "pass_frame ok tables raw frame w =
     (let w1 = (if given (mget frame ''usage'') = None then w
             else w\<lparr>cw_usageFrames := cw_usageFrames w @ [mput ''choices'' (JArr []) frame]\<rparr>);
          frame' = held_frame tables frame
      in if \<not> list_ex has_delta (array_of (mget frame ''choices'')) then w1
         else contract_writeRaw ok (if frame' = frame then Passed raw else Changed frame') w1)"

definition contract_frame :: "(nat \<Rightarrow> bool) \<Rightarrow> tool_tables \<Rightarrow> string \<Rightarrow> chatContractWriter \<Rightarrow> chatContractWriter" where
  "contract_frame ok tables raw w =
     (if \<not> is_data raw then contract_writeRaw ok (Passed raw) w
      else if data_of raw = done_text then w
      else case decode_frame (data_of raw) of
        None \<Rightarrow> w\<lparr>cw_err := Some FrameInvalid\<rparr>
      | Some frame \<Rightarrow>
          if given (mget frame ''error'') \<noteq> None then w\<lparr>cw_errorFrame := raw\<rparr>
          else pass_frame ok tables raw frame w)"

function contract_frames :: "(nat \<Rightarrow> bool) \<Rightarrow> tool_tables \<Rightarrow> string \<Rightarrow> chatContractWriter \<Rightarrow> chatContractWriter" where
  "contract_frames ok tables buf w =
     (case cut_frame buf of
        None \<Rightarrow> w\<lparr>cw_buffer := buf\<rparr>
      | Some (frame, rest) \<Rightarrow>
          contract_frames ok tables rest (contract_frame ok tables (frame @ [CHR 0x0A, CHR 0x0A]) w))"
  by pat_completeness auto
termination
  by (relation "measure (\<lambda>(_, _, buf, _). length buf)") (auto dest: cut_frame_shorter)

declare contract_frames.simps [simp del]

definition contract_Write :: "(nat \<Rightarrow> bool) \<Rightarrow> tool_tables \<Rightarrow> string \<Rightarrow> string \<Rightarrow> chatContractWriter \<Rightarrow> chatContractWriter" where
  "contract_Write ok tables ctype raw w =
     (if cw_writeErr w then w
      else if \<not> has_prefix ctype event_stream then w\<lparr>cw_plain := cw_plain w @ [raw]\<rparr>
      else contract_frames ok tables (cw_buffer w @ raw) (w\<lparr>cw_streaming := True, cw_raw := cw_raw w @ raw\<rparr>))"

definition PrepareCompletion :: "tool_tables \<Rightarrow> obj \<Rightarrow> obj" where
  "PrepareCompletion tables chat =
     in_array ''choices'' (if_object (in_object ''message'' (restoreToolNames tables))) chat"

definition ValidateCompletion :: "'s surroundings \<Rightarrow> obj \<Rightarrow> answer_error option" where
  "ValidateCompletion e chat =
     (let choices = array_of (mget chat ''choices'')
      in if choices = [] then Some NoChoices
         else case List.map_filter (\<lambda>choice. validateJSONCompletion e [(''choices'', JArr [choice])]) choices of
           [] \<Rightarrow> None | p # _ \<Rightarrow> Some p)"

definition end_choice_of :: "json \<Rightarrow> json" where
  "end_choice_of raw =
     (let choice = nested_of (Some raw)
      in JObj [(''index'', or_nothing (mget choice ''index'')), (''delta'', JObj []),
           (''finish_reason'', or_nothing (mget choice ''finish_reason''))])"

definition terminal_chunk :: "obj \<Rightarrow> obj" where
  "terminal_chunk chat =
     [(''id'', or_nothing (mget chat ''id'')), (''object'', JStr ''chat.completion.chunk''), (''created'', or_nothing (mget chat ''created'')),
      (''model'', or_nothing (mget chat ''model'')), (''choices'', JArr (map end_choice_of (array_of (mget chat ''choices'')))),
      (''usage'', JNull)]"

text \<open>The judgement of the whole stream; \<open>aggregate\<close> is \<open>upstream.Aggregate\<close> on the recorded bytes.\<close>

definition judge :: "'s surroundings \<Rightarrow> (string \<Rightarrow> stream_error + obj) \<Rightarrow> chatContractWriter \<Rightarrow> contract_error + obj" where
  "judge e aggregate w =
     (case cw_err w of
        Some err \<Rightarrow> Inl err
      | None \<Rightarrow>
          (case aggregate (cw_raw w) of
             Inl se \<Rightarrow> Inl (AnswerBroken se)
           | Inr chat \<Rightarrow> (case ValidateCompletion e chat of Some p \<Rightarrow> Inl (AnswerRefused p) | None \<Rightarrow> Inr chat)))"

definition end_frames :: "chatContractWriter \<Rightarrow> contract_error + obj \<Rightarrow> chat_frame list" where
  "end_frames w judged =
     (case judged of
        Inl err \<Rightarrow> [if cw_errorFrame w \<noteq> [] then VendorError (cw_errorFrame w) else Refusal err]
      | Inr chat \<Rightarrow> ChatEnd (terminal_chunk chat) # map UsageFrame (cw_usageFrames w)) @ [DoneFrame]"

definition contract_CompletionError :: "'s surroundings \<Rightarrow> (string \<Rightarrow> stream_error + obj) \<Rightarrow> chatContractWriter \<Rightarrow> chatContractWriter" where
  "contract_CompletionError e aggregate w =
     (if cw_writeErr w \<or> cw_checked w \<or> \<not> cw_streaming w then w
      else let judged = judge e aggregate w
           in fold (contract_writeRaw (en_ok e)) (end_frames w judged)
                (w\<lparr>cw_checked := True, cw_err := (case judged of Inl err \<Rightarrow> Some err | Inr _ \<Rightarrow> None)\<rparr>))"

text \<open>Whether \<open>CompletionError\<close> returned an error.\<close>

definition contract_failed :: "chatContractWriter \<Rightarrow> bool" where
  "contract_failed w \<longleftrightarrow> cw_writeErr w \<or> cw_err w \<noteq> None"

definition aggregate_stream :: "(nat list \<Rightarrow> string) \<Rightarrow> (int list \<Rightarrow> int list) \<Rightarrow> string \<Rightarrow> int \<Rightarrow> string \<Rightarrow> stream_error + obj" where
  "aggregate_stream sha ord clock_id clock raw = Aggregate sha ord clock_id clock None raw AtEOF"

end
