(* ===== verification/ChatContractProps.thy ===== *)
theory ChatContractProps
  imports ChatContract
begin

text \<open>What a chat client sees before and after the answer was judged.\<close>

definition finishes :: "obj \<Rightarrow> bool" where
  "finishes frame \<longleftrightarrow> list_ex (\<lambda>c. get_str (nested_of (Some c)) ''finish_reason'' \<noteq> []) (array_of (mget frame ''choices''))"

text \<open>A frame that tells the client that a choice is finished; the vendor's own error frame can be one.\<close>

definition data_finishes :: "string \<Rightarrow> bool" where
  "data_finishes raw \<longleftrightarrow> is_data raw \<and> (case decode_frame (data_of raw) of Some frame \<Rightarrow> finishes frame | None \<Rightarrow> False)"

fun finishing :: "chat_frame \<Rightarrow> bool" where
  "finishing (Passed raw) = data_finishes raw"
| "finishing (VendorError raw) = data_finishes raw"
| "finishing (Changed frame) = finishes frame"
| "finishing (ChatEnd _) = True"
| "finishing _ = False"

lemma in_object_other: "key \<noteq> key' \<Longrightarrow> mget (in_object key f m) key' = mget m key'"
  by (auto simp: in_object_def split: option.split json.split)

lemma held_choice_open: "get_str (held_choice tables c) ''finish_reason'' = []"
  by (simp add: held_choice_def get_str_def str_or_empty_def in_object_other)

lemma held_frame_open: "\<not> finishes (held_frame tables frame)"
proof -
  define m where "m = (if given (mget frame ''usage'') = None then frame else mput ''usage'' JNull frame)"
  have "get_str (nested_of (Some (if_object (held_choice tables) v))) ''finish_reason'' = []" for v
    by (cases v) (simp_all add: if_object_def held_choice_open nested_of_def get_str_def [of "[]"] str_or_empty_def)
  then show ?thesis
    by (auto simp: held_frame_def m_def [symmetric] in_array_def finishes_def array_of_def list_ex_iff split: option.split json.split)
qed

lemma frames_written:
  "cw_frames (contract_writeRaw ok f w) = cw_frames w @ (if \<not> cw_writeErr w \<and> ok (length (cw_frames w)) then [f] else [])"
  by (simp add: contract_writeRaw_def)

text \<open>Nothing that was written before the judgement finishes a choice; the bytes are recorded.\<close>

definition holding :: "chatContractWriter \<Rightarrow> bool" where
  "holding w \<longleftrightarrow> list_all (\<lambda>f. \<not> finishing f) (cw_frames w)"

lemma holding_write: "holding w \<Longrightarrow> \<not> finishing f \<Longrightarrow> holding (contract_writeRaw ok f w)"
  by (simp add: holding_def frames_written)

lemma same_frame:
  "cw_raw (contract_frame ok tables raw w) = cw_raw w" "cw_checked (contract_frame ok tables raw w) = cw_checked w"
  "cw_streaming (contract_frame ok tables raw w) = cw_streaming w"
  by (auto simp: contract_frame_def pass_frame_def contract_writeRaw_def Let_def split: option.split)

lemma holding_frame:
  assumes "holding w"
  shows "holding (contract_frame ok tables raw w)"
proof -
  have "\<not> finishing (Passed raw)" if "\<not> is_data raw" using that by (simp add: data_finishes_def)
  moreover have "\<not> finishing (Passed raw)" if "decode_frame (data_of raw) = Some frame" "held_frame tables frame = frame" for frame
    using that held_frame_open [of tables frame] by (simp add: data_finishes_def)
  moreover have "\<not> finishing (Changed (held_frame tables frame))" for frame by (simp add: held_frame_open)
  moreover have "holding (w\<lparr>cw_usageFrames := us\<rparr>)" for us using assms by (simp add: holding_def)
  ultimately show ?thesis using assms
    by (auto simp: contract_frame_def pass_frame_def Let_def holding_def split: option.split
        intro!: holding_write [unfolded holding_def])
qed

lemma holding_frames:
  "holding w \<Longrightarrow> holding (contract_frames ok tables buf w)
    \<and> cw_raw (contract_frames ok tables buf w) = cw_raw w \<and> cw_checked (contract_frames ok tables buf w) = cw_checked w
    \<and> cw_streaming (contract_frames ok tables buf w) = cw_streaming w"
proof (induction buf arbitrary: w rule: length_induct)
  case (1 buf)
  show ?case
  proof (cases "cut_frame buf")
    case None
    then show ?thesis using 1(2) by (simp add: contract_frames.simps [of _ _ buf] holding_def)
  next
    case (Some p)
    obtain f r where p: "p = (f, r)" by (cases p)
    let ?w = "contract_frame ok tables (f @ [CHR 0x0A, CHR 0x0A]) w"
    have "length r < length buf" using cut_frame_shorter Some p by blast
    then have "holding (contract_frames ok tables r ?w) \<and> cw_raw (contract_frames ok tables r ?w) = cw_raw ?w
      \<and> cw_checked (contract_frames ok tables r ?w) = cw_checked ?w \<and> cw_streaming (contract_frames ok tables r ?w) = cw_streaming ?w"
      using 1 holding_frame by blast
    then show ?thesis using Some p by (simp add: contract_frames.simps [of _ _ buf] same_frame)
  qed
qed

lemma holding_raw: "cw_raw (contract_frames ok tables buf w) = cw_raw w"
proof (induction buf arbitrary: w rule: length_induct)
  case (1 buf)
  then show ?case
    using cut_frame_shorter by (simp add: contract_frames.simps [of _ _ buf] same_frame split: option.split)
qed

lemma err_stays: "cw_err (fold (contract_writeRaw ok) fs w) = cw_err w"
  by (induction fs arbitrary: w) (simp_all add: contract_writeRaw_def)

lemma error_stays:
  "cw_writeErr w \<Longrightarrow> contract_Write ok tables ct raw w = w"
  by (simp add: contract_Write_def)

definition written_stream :: "(nat \<Rightarrow> bool) \<Rightarrow> tool_tables \<Rightarrow> string list \<Rightarrow> chatContractWriter" where
  "written_stream ok tables raws = fold (contract_Write ok tables event_stream) raws new_contract_writer"

lemma stream_holds:
  "holding (written_stream ok tables raws) \<and> \<not> cw_checked (written_stream ok tables raws)
    \<and> (\<not> cw_writeErr (written_stream ok tables raws) \<longrightarrow> cw_raw (written_stream ok tables raws) = concat raws)"
proof (induction raws rule: rev_induct)
  case Nil
  then show ?case by (simp add: written_stream_def new_contract_writer_def holding_def)
next
  case (snoc raw raws)
  let ?w = "written_stream ok tables raws"
  have step: "written_stream ok tables (raws @ [raw]) = contract_Write ok tables event_stream raw ?w"
    by (simp add: written_stream_def)
  show ?case
  proof (cases "cw_writeErr ?w")
    case True
    then show ?thesis using snoc by (simp add: step error_stays)
  next
    case False
    let ?v = "?w\<lparr>cw_streaming := True, cw_raw := cw_raw ?w @ raw\<rparr>"
    have "holding ?v" using snoc by (simp add: holding_def)
    from holding_frames [OF this, of ok tables "cw_buffer ?w @ raw"] show ?thesis
      using snoc False by (simp add: step contract_Write_def has_prefix_def)
  qed
qed

lemma written_after:
  "set (cw_frames (fold (contract_writeRaw ok) fs w)) \<subseteq> set (cw_frames w) \<union> set fs"
proof (induction fs arbitrary: w)
  case Nil
  then show ?case by simp
next
  case (Cons f fs)
  have "set (cw_frames (contract_writeRaw ok f w)) \<subseteq> set (cw_frames w) \<union> {f}" by (auto simp: frames_written)
  then show ?case using Cons.IH [of "contract_writeRaw ok f w"] by auto
qed

text \<open>A request that demands a JSON object, and a stream that answers it in three pieces.\<close>

definition object_request :: "unit responsesRequest" where
  "object_request = \<lparr>rq_model = ''m'', rq_instructions = [], rq_stream = True, rq_maxOutputTokens = None, rq_temperature = None,
     rq_topP = None, rq_tools = None, rq_toolChoice = None, rq_metadata = None, rq_reasoning = None, rq_parallel = None,
     rq_promptCacheKey = [], rq_conversationID = [], rq_conversationCamel = [],
     rq_output = Some \<lparr>oc_format = [], oc_chatFormat = Some [], oc_schema = None, oc_jsonObject = True\<rparr>, rq_toolPolicy = None,
     rq_tables = responsesTools (\<lambda>_. ''0123456789ab'') []\<rparr>"

definition object_env :: "unit surroundings" where
  "object_env = \<lparr>en_req = object_request, en_fits = (\<lambda>_ _. True), en_ids = (\<lambda>n. replicate n CHR ''1''), en_clock = 1700000000,
     en_ok = (\<lambda>_. True), en_quote = id\<rparr>"

definition object_piece :: string where
  "object_piece = ''data: {\"choices\":[{\"index\":0,\"delta\":{\"content\":\"{}\"},\"finish_reason\":\"stop\"}]}'' @ [CHR 0x0A, CHR 0x0A]"

definition done_piece :: string where
  "done_piece = ''data: [DONE]'' @ [CHR 0x0A, CHR 0x0A]"

definition object_pieces :: "string list" where
  "object_pieces = [take 30 object_piece, drop 30 object_piece, done_piece]"

definition object_frame :: obj where
  "object_frame = [(''choices'', JArr [JObj [(''index'', JInt 0), (''delta'', JObj [(''content'', JStr ''{}'')]), (''finish_reason'', JStr ''stop'')]])]"

text \<open>The answer of these pieces; every other stream is broken.\<close>

definition put_together :: "string \<Rightarrow> stream_error + obj" where
  "put_together raw =
     (if raw = concat object_pieces
      then Inr [(''id'', JStr ''1''), (''choices'', JArr [JObj [(''index'', JInt 0), (''finish_reason'', JStr ''stop''),
             (''message'', JObj [(''role'', JStr ''assistant''), (''content'', JStr ''{}'')])]])]
      else Inl (plain_error [] []))"

lemma object_frame_read:
  "decode_frame (data_of object_piece) = Some object_frame" "is_data object_piece" "data_of object_piece \<noteq> done_text"
  by code_simp+

lemma object_frame_held: "held_frame (rq_tables object_request) object_frame \<noteq> object_frame" by code_simp

lemma pieces_cut:
  "cut_frame (take 30 object_piece) = None" "cut_frame object_piece = Some (butlast (butlast object_piece), [])"
  "cut_frame done_piece = Some (butlast (butlast done_piece), [])"
  "butlast (butlast object_piece) @ [CHR 0x0A, CHR 0x0A] = object_piece" "butlast (butlast done_piece) @ [CHR 0x0A, CHR 0x0A] = done_piece"
  by (simp_all add: object_piece_def done_piece_def)

lemma done_read: "is_data done_piece" "data_of done_piece = done_text"
  by code_simp+

lemma object_written:
  "written_stream (\<lambda>_. True) (rq_tables object_request) object_pieces
    = new_contract_writer\<lparr>cw_streaming := True, cw_raw := concat object_pieces,
        cw_frames := [Changed (held_frame (rq_tables object_request) object_frame)]\<rparr>"
proof -
  have delta: "list_ex has_delta (array_of (mget object_frame ''choices''))" "given (mget object_frame ''error'') = None"
    "given (mget object_frame ''usage'') = None" by (simp_all add: object_frame_def has_delta_def given_def nested_of_def array_of_def)
  have whole: "take 30 object_piece @ drop 30 object_piece = object_piece" by simp
  show ?thesis
    by (simp add: written_stream_def object_pieces_def contract_Write_def has_prefix_def new_contract_writer_def contract_frames.simps
        pieces_cut contract_frame_def object_frame_read object_frame_held done_read delta pass_frame_def contract_writeRaw_def whole)
qed

lemma object_accepted: "\<exists>chat. put_together (concat object_pieces) = Inr chat \<and> ValidateCompletion object_env chat = None"
  unfolding put_together_def by (simp, code_simp)

text \<open>The kept error frame is one the vendor sent, byte for byte, and it carries an error.\<close>

definition carries_error :: "string \<Rightarrow> bool" where
  "carries_error raw \<longleftrightarrow> (\<exists>frame. decode_frame (data_of raw) = Some frame \<and> given (mget frame ''error'') \<noteq> None)"

definition occurs_in :: "string \<Rightarrow> string \<Rightarrow> bool" where
  "occurs_in x s \<longleftrightarrow> (\<exists>a b. s = a @ x @ b)"

lemma occurs_later: "occurs_in x s \<Longrightarrow> occurs_in x (s @ t)"
  by (fastforce simp: occurs_in_def)

definition vendors_own :: "chatContractWriter \<Rightarrow> bool" where
  "vendors_own w \<longleftrightarrow> cw_errorFrame w = [] \<or> carries_error (cw_errorFrame w) \<and> occurs_in (cw_errorFrame w) (cw_raw w)"

lemma error_frame_kept:
  assumes "vendors_own w" "occurs_in raw (cw_raw w)"
  shows "vendors_own (contract_frame ok tables raw w)"
proof -
  have "cw_errorFrame (contract_frame ok tables raw w) = cw_errorFrame w
      \<or> cw_errorFrame (contract_frame ok tables raw w) = raw \<and> carries_error raw"
    by (auto simp: contract_frame_def pass_frame_def contract_writeRaw_def Let_def carries_error_def split: option.split)
  then show ?thesis using assms by (auto simp: vendors_own_def same_frame)
qed

lemma cut_frame_whole: "cut_frame s = Some (f, r) \<Longrightarrow> s = f @ [CHR 0x0A, CHR 0x0A] @ r"
  by (induction s arbitrary: f r rule: cut_frame.induct) (auto split: if_splits)

lemma error_frames_kept:
  "vendors_own w \<Longrightarrow> cw_raw w = a @ buf \<Longrightarrow>
   vendors_own (contract_frames ok tables buf w) \<and> (\<exists>c. cw_raw w = c @ cw_buffer (contract_frames ok tables buf w))"
proof (induction buf arbitrary: a w rule: length_induct)
  case (1 buf)
  show ?case
  proof (cases "cut_frame buf")
    case None
    then show ?thesis using 1(2,3) by (auto simp: contract_frames.simps [of _ _ buf] vendors_own_def)
  next
    case (Some p)
    obtain f r where p: "p = (f, r)" by (cases p)
    let ?nn = "[CHR 0x0A, CHR 0x0A]"
    let ?w = "contract_frame ok tables (f @ ?nn) w"
    have shorter: "length r < length buf" using cut_frame_shorter Some p by blast
    have buf: "buf = f @ ?nn @ r" using cut_frame_whole Some p by blast
    then have "occurs_in (f @ ?nn) (cw_raw w)" using 1(3) by (auto simp: occurs_in_def)
    then have "vendors_own ?w" using error_frame_kept 1(2) by blast
    moreover have "cw_raw ?w = (a @ f @ ?nn) @ r" using 1(3) buf by (simp add: same_frame)
    ultimately have "vendors_own (contract_frames ok tables r ?w) \<and> (\<exists>c. cw_raw ?w = c @ cw_buffer (contract_frames ok tables r ?w))"
      using 1(1) shorter by blast
    then show ?thesis using Some p by (simp add: contract_frames.simps [of _ _ buf] same_frame)
  qed
qed

lemma stream_own:
  "vendors_own (written_stream ok tables raws)
    \<and> (\<not> cw_writeErr (written_stream ok tables raws) \<longrightarrow> (\<exists>c. cw_raw (written_stream ok tables raws) = c @ cw_buffer (written_stream ok tables raws)))"
proof (induction raws rule: rev_induct)
  case Nil
  then show ?case by (simp add: written_stream_def new_contract_writer_def vendors_own_def)
next
  case (snoc raw raws)
  let ?w = "written_stream ok tables raws"
  have step: "written_stream ok tables (raws @ [raw]) = contract_Write ok tables event_stream raw ?w"
    by (simp add: written_stream_def)
  show ?case
  proof (cases "cw_writeErr ?w")
    case True
    then show ?thesis using snoc by (simp add: step error_stays)
  next
    case False
    let ?v = "?w\<lparr>cw_streaming := True, cw_raw := cw_raw ?w @ raw\<rparr>"
    obtain c where c: "cw_raw ?w = c @ cw_buffer ?w" using snoc False by blast
    have "vendors_own ?v" using conjunct1 [OF snoc] by (auto simp: vendors_own_def occurs_later)
    from error_frames_kept [OF this, of c "cw_buffer ?w @ raw" ok tables] c
    have "vendors_own (contract_frames ok tables (cw_buffer ?w @ raw) ?v)"
      "\<exists>c'. cw_raw ?v = c' @ cw_buffer (contract_frames ok tables (cw_buffer ?w @ raw) ?v)" by simp_all
    moreover have "cw_raw (contract_frames ok tables (cw_buffer ?w @ raw) ?v) = cw_raw ?v"
      using holding_raw [of ok tables "cw_buffer ?w @ raw" ?v] by simp
    ultimately show ?thesis using False by (simp add: step contract_Write_def has_prefix_def)
  qed
qed



end
