(* ===== verification/ResponsesInput.thy ===== *)
theory ResponsesInput
  imports StructuredOutput RequestValidation Session
begin

text \<open>
  A request of the Responses protocol as a chat request, \<open>internal/server/responses.go\<close>: the items
  of the history become messages, calls of one turn one message, reasoning goes to the answer it
  belongs to.
\<close>

subsection \<open>Contents\<close>

definition chatImagePart :: "obj \<Rightarrow> obj option" where
  "chatImagePart em =
     (let (url, detail) = (case mget em ''image_url'' of
            Some (JObj um) \<Rightarrow> (mget um ''url'', if get_str em ''detail'' = [] then get_str um ''detail'' else get_str em ''detail'')
          | u \<Rightarrow> (u, get_str em ''detail''))
      in case url of
           Some (JStr s) \<Rightarrow>
             if s = [] then None
             else Some [(''type'', JStr ''image_url''),
               (''image_url'', JObj ((''url'', JStr s) # (if detail = [] then [] else [(''detail'', JStr detail)])))]
         | _ \<Rightarrow> None)"

definition text_kinds :: "string list" where
  "text_kinds = [''input_text'', ''output_text'', ''text'', ''summary_text'', []]"

text \<open>A part is a text, an image, or passed over.\<close>

definition read_part :: "obj \<Rightarrow> (string + obj) option" where
  "read_part em =
     (let kind = get_str em ''type''; text = (\<lambda>s. if s = [] then None else Some (Inl s))
      in if kind \<in> set text_kinds then text (get_str em ''text'')
         else if kind = ''input_image'' \<or> kind = ''image_url'' then map_option Inr (chatImagePart em)
         else if kind = ''refusal'' then text (get_str em ''refusal'')
         else None)"

definition read_parts :: "json list \<Rightarrow> (string + obj) list" where
  "read_parts vs = List.map_filter (\<lambda>v. case v of JObj em \<Rightarrow> read_part em | _ \<Rightarrow> None) vs"

fun chat_part :: "string + obj \<Rightarrow> json" where
  "chat_part (Inl s) = JObj [(''type'', JStr ''text''), (''text'', JStr s)]"
| "chat_part (Inr img) = JObj img"

definition texts_only :: "(string + obj) list \<Rightarrow> string list option" where
  "texts_only ps = (if list_all isl ps then Some (map projl ps) else None)"

fun join_with :: "string \<Rightarrow> string list \<Rightarrow> string" where
  "join_with sep [] = []"
| "join_with sep [x] = x"
| "join_with sep (x # xs) = x @ sep @ join_with sep xs"

text \<open>Only texts become one string; with an image the parts stay.\<close>

definition folded_parts :: "json list \<Rightarrow> json" where
  "folded_parts vs =
     (let ps = read_parts vs
      in case texts_only ps of Some texts \<Rightarrow> JStr (join_with [CHR 0x0A] texts) | None \<Rightarrow> JArr (map chat_part ps))"

definition responsesContent :: "json option \<Rightarrow> json option" where
  "responsesContent v =
     (case v of Some (JStr s) \<Rightarrow> Some (JStr s) | Some (JArr vs) \<Rightarrow> Some (folded_parts vs) | _ \<Rightarrow> None)"

definition responsesToolOutput :: "(json \<Rightarrow> string) \<Rightarrow> json option \<Rightarrow> json" where
  "responsesToolOutput marshal v =
     (case v of
        None \<Rightarrow> JStr []
      | Some JNull \<Rightarrow> JStr []
      | Some (JStr s) \<Rightarrow> JStr s
      | Some (JArr vs) \<Rightarrow> folded_parts vs
      | Some x \<Rightarrow> JStr (marshal x))"

definition not_blank :: "string \<Rightarrow> bool" where
  "not_blank s \<longleftrightarrow> trim_space s \<noteq> []"

definition reasoning_texts :: "json option \<Rightarrow> string list" where
  "reasoning_texts v =
     (case v of
        Some (JStr t) \<Rightarrow> if not_blank t then [t] else []
      | _ \<Rightarrow> filter not_blank (map (\<lambda>raw. get_str (nested_of (Some raw)) ''text'') (array_of v)))"

definition responsesReasoningText :: "obj \<Rightarrow> string" where
  "responsesReasoningText item =
     (let parts = reasoning_texts (mget item ''summary'') @ reasoning_texts (mget item ''content'');
          r = get_str item ''reasoning_content''
      in trim_space (join_with blank_line (if parts = [] \<and> not_blank r then [r] else parts)))"

subsection \<open>Turns\<close>

record reasoningStats =
  rs_Items :: nat
  rs_WithText :: nat

record turns =
  tu_msgs :: "obj list"
  tu_pending :: "json list"
  tu_pendingReasoning :: string
  tu_stats :: reasoningStats

definition new_turns :: "string \<Rightarrow> turns" where
  "new_turns instructions =
     \<lparr>tu_msgs = (if not_blank instructions then [[(''role'', JStr ''system''), (''content'', JStr instructions)]] else []),
      tu_pending = [], tu_pendingReasoning = [], tu_stats = \<lparr>rs_Items = 0, rs_WithText = 0\<rparr>\<rparr>"

definition with_reasoning :: "string \<Rightarrow> obj \<Rightarrow> obj" where
  "with_reasoning text m = (if text = [] then m else mput ''reasoning_content'' (JStr text) m)"

definition flush_turn :: "turns \<Rightarrow> turns" where
  "flush_turn t =
     (if tu_pending t = [] then t
      else t\<lparr>tu_msgs := tu_msgs t @ [with_reasoning (tu_pendingReasoning t)
               [(''role'', JStr ''assistant''), (''content'', JStr []), (''tool_calls'', JArr (tu_pending t))]],
             tu_pending := [], tu_pendingReasoning := []\<rparr>)"

definition call_entry :: "(string \<Rightarrow> string) \<Rightarrow> (string, string) gomap \<Rightarrow> obj \<Rightarrow> string \<Rightarrow> json" where
  "call_entry digest toolNames m args =
     (let callID = get_str m ''call_id''
      in JObj [(''id'', JStr (if callID = [] then get_str m ''id'' else callID)), (''type'', JStr ''function''),
           (''function'', JObj [(''name'', JStr (upstreamToolName digest toolNames (namespaceOf m) (get_str m ''name''))),
              (''arguments'', JStr args)])])"

definition custom_args :: "(json \<Rightarrow> string) \<Rightarrow> obj \<Rightarrow> string" where
  "custom_args marshal m = marshal (JObj [(''input'', JStr (get_str m ''input''))])"

definition tool_message :: "(json \<Rightarrow> string) \<Rightarrow> obj \<Rightarrow> obj" where
  "tool_message marshal m =
     [(''role'', JStr ''tool''), (''tool_call_id'', JStr (get_str m ''call_id'')),
      (''content'', responsesToolOutput marshal (mget m ''output''))]"

definition note_reasoning :: "string \<Rightarrow> turns \<Rightarrow> turns" where
  "note_reasoning text t =
     (let stats = tu_stats t; pending = tu_pendingReasoning t
      in t\<lparr>tu_stats := \<lparr>rs_Items = rs_Items stats + 1, rs_WithText = (if text = [] then rs_WithText stats else rs_WithText stats + 1)\<rparr>,
           tu_pendingReasoning := (if text = [] then pending else if pending = [] then text else pending @ blank_line @ text)\<rparr>)"

definition item_role :: "obj \<Rightarrow> string" where
  "item_role m = (if get_str m ''role'' = [] then ''user'' else get_str m ''role'')"

definition message_turn :: "obj \<Rightarrow> turns \<Rightarrow> turns" where
  "message_turn m t =
     (case responsesContent (mget m ''content'') of
        None \<Rightarrow> t
      | Some content \<Rightarrow>
          let t1 = flush_turn t; message = [(''role'', JStr (item_role m)), (''content'', content)]
          in if item_role m = ''assistant''
             then t1\<lparr>tu_msgs := tu_msgs t1 @ [with_reasoning (tu_pendingReasoning t1) message], tu_pendingReasoning := []\<rparr>
             else t1\<lparr>tu_msgs := tu_msgs t1 @ [message]\<rparr>)"

definition item_turn :: "(string \<Rightarrow> string) \<Rightarrow> (json \<Rightarrow> string) \<Rightarrow> (string, string) gomap \<Rightarrow> json \<Rightarrow> turns \<Rightarrow> turns" where
  "item_turn digest marshal toolNames item t =
     (case item of
        JObj m \<Rightarrow>
          let kind = get_str m ''type''
          in if kind = ''function_call''
             then t\<lparr>tu_pending := tu_pending t @ [call_entry digest toolNames m (get_str m ''arguments'')]\<rparr>
             else if kind = ''custom_tool_call''
             then t\<lparr>tu_pending := tu_pending t @ [call_entry digest toolNames m (custom_args marshal m)]\<rparr>
             else if kind = ''function_call_output'' \<or> kind = ''custom_tool_call_output''
             then (let t1 = flush_turn t in t1\<lparr>tu_msgs := tu_msgs t1 @ [tool_message marshal m]\<rparr>)
             else if kind = ''reasoning'' then note_reasoning (responsesReasoningText m) t
             else if kind = [] \<or> kind = ''message'' then message_turn m t
             else t
      | _ \<Rightarrow> t)"

subsection \<open>Reasoning that is left, and adjacent answers\<close>

definition is_assistant :: "obj \<Rightarrow> bool" where
  "is_assistant m \<longleftrightarrow> get_str m ''role'' = ''assistant''"

text \<open>\<open>lastAssistantWithoutReasoning\<close>, looking from the end, gets the text.\<close>

fun attach_first :: "string \<Rightarrow> obj list \<Rightarrow> obj list" where
  "attach_first text [] = []"
| "attach_first text (m # ms) =
     (if is_assistant m \<and> mget m ''reasoning_content'' = None then mput ''reasoning_content'' (JStr text) m # ms
      else m # attach_first text ms)"

definition attach_last :: "string \<Rightarrow> obj list \<Rightarrow> obj list" where
  "attach_last text msgs = (if text = [] then msgs else rev (attach_first text (rev msgs)))"

definition deepSeekModel :: "string \<Rightarrow> bool" where
  "deepSeekModel model = has_prefix (to_lower (trim_space (snd (resolveModel model)))) ''deepseek''"

definition fill_reasoning :: "obj \<Rightarrow> obj" where
  "fill_reasoning m =
     (if is_assistant m \<and> mget m ''reasoning_content'' = None
      then mput ''reasoning_content'' (JStr (get_str m ''reasoning'')) m else m)"

definition assistantContentParts :: "json option \<Rightarrow> json list" where
  "assistantContentParts content =
     (case content of
        Some (JArr parts) \<Rightarrow> parts
      | Some (JStr text) \<Rightarrow> if text = [] then [] else [JObj [(''type'', JStr ''text''), (''text'', JStr text)]]
      | _ \<Rightarrow> [])"

definition plain_text :: "json option \<Rightarrow> string option" where
  "plain_text v = (case v of Some (JStr s) \<Rightarrow> Some s | _ \<Rightarrow> None)"

definition merge_content :: "obj \<Rightarrow> obj \<Rightarrow> obj" where
  "merge_content earlier later =
     (let c = mget earlier ''content''; d = mget later ''content''
      in case (plain_text c, plain_text d) of
           (Some text, Some extra) \<Rightarrow>
             if \<not> not_blank extra then earlier
             else mput ''content'' (JStr (if not_blank text then text @ blank_line @ extra else extra)) earlier
         | _ \<Rightarrow>
             let parts = assistantContentParts c @ assistantContentParts d
             in if parts = [] then earlier else mput ''content'' (JArr parts) earlier)"

definition merge_calls :: "obj \<Rightarrow> obj \<Rightarrow> obj" where
  "merge_calls earlier later =
     (let calls = array_of (mget later ''tool_calls'')
      in if calls = [] then earlier
         else mput ''tool_calls'' (JArr (array_of (mget earlier ''tool_calls'') @ calls)) earlier)"

definition merge_reasoning :: "obj \<Rightarrow> obj \<Rightarrow> obj" where
  "merge_reasoning earlier later =
     (if \<not> not_blank (get_str earlier ''reasoning_content'') \<and> not_blank (get_str later ''reasoning_content'')
      then mput ''reasoning_content'' (JStr (get_str later ''reasoning_content'')) earlier else earlier)"

definition mergeAssistantInto :: "obj \<Rightarrow> obj \<Rightarrow> obj" where
  "mergeAssistantInto earlier later = merge_reasoning (merge_calls (merge_content earlier later) later) later"

definition merge_message :: "obj \<Rightarrow> obj list \<Rightarrow> obj list" where
  "merge_message m out =
     (if is_assistant m \<and> out \<noteq> [] \<and> is_assistant (last out) then butlast out @ [mergeAssistantInto (last out) m]
      else out @ [m])"

definition mergeAdjacentAssistants :: "obj list \<Rightarrow> obj list" where
  "mergeAdjacentAssistants msgs = (if length msgs < 2 then msgs else fold merge_message msgs [])"

definition finish_turns :: "string \<Rightarrow> turns \<Rightarrow> obj list \<times> reasoningStats" where
  "finish_turns model t =
     (let t1 = flush_turn t; msgs = attach_last (tu_pendingReasoning t1) (tu_msgs t1);
          filled = (if 0 < rs_Items (tu_stats t1) \<and> deepSeekModel model then map fill_reasoning msgs else msgs)
      in (mergeAdjacentAssistants filled, tu_stats t1))"

text \<open>\<open>None\<close>: the input is neither a string nor an array.\<close>

definition responsesMessages :: "(string \<Rightarrow> string) \<Rightarrow> (json \<Rightarrow> string) \<Rightarrow> json option \<Rightarrow> string \<Rightarrow> (string, string) gomap \<Rightarrow> string
    \<Rightarrow> (obj list \<times> reasoningStats) option" where
  "responsesMessages digest marshal input instructions toolNames model =
     (let t = new_turns instructions
      in case input of
           None \<Rightarrow> Some (tu_msgs t, tu_stats t)
         | Some JNull \<Rightarrow> Some (tu_msgs t, tu_stats t)
         | Some (JStr s) \<Rightarrow> Some (tu_msgs t @ [[(''role'', JStr ''user''), (''content'', JStr s)]], tu_stats t)
         | Some (JArr items) \<Rightarrow> Some (finish_turns model (fold (item_turn digest marshal toolNames) items t))
         | Some _ \<Rightarrow> None)"

subsection \<open>The chat request\<close>

definition ActNote :: string where
  "ActNote = ''Tool execution protocol: a reply containing only text ends the client'' @ [CHR 0x27] @ ''s turn; ''
      @ ''there is no automatic continuation after a standalone progress message. If required work ''
      @ ''remains and you are ready to act, return an actual available tool call in this same response. ''
      @ ''Do not end with a promise such as '' @ [CHR 0x27] @ ''Let me...'' @ [CHR 0x27] @ '', '' @ [CHR 0x27] @ ''I will...'' @ [CHR 0x27]
      @ '', or '' @ [CHR 0x27] @ ''next I will...'' @ [CHR 0x27] @ '' and expect ''
      @ ''another turn to execute it. Continue the authorized task through implementation and verification. ''
      @ ''Give a final text answer when the task is complete, when the user asked only for an answer, ''
      @ ''or when a blocker genuinely requires user input or approval. Respect the user'' @ [CHR 0x27] @ ''s scope, ''
      @ ''stop requests, and approval requirements; this protocol grants no additional authorization.''"

definition ActNoteFor :: "string \<Rightarrow> string" where
  "ActNoteFor configured =
     (let v = trim_space configured
      in if v = [] then ActNote else if v \<in> {''off'', ''none'', ''false''} then [] else v)"

definition is_system :: "obj \<Rightarrow> bool" where
  "is_system m \<longleftrightarrow> fold_name (trim_space (get_str m ''role'')) = ''system''"

text \<open>The first system message with a text gets the note.\<close>

fun note_system :: "string \<Rightarrow> json list \<Rightarrow> json list option" where
  "note_system note [] = None"
| "note_system note (v # vs) =
     (case v of
        JObj m \<Rightarrow>
          (case (is_system m, mget m ''content'') of
             (True, Some (JStr s)) \<Rightarrow>
               Some (JObj (mput ''content'' (JStr (rev (dropWhile (\<lambda>c. c = CHR 0x0A) (rev s)) @ blank_line @ note)) m) # vs)
           | _ \<Rightarrow> map_option (Cons v) (note_system note vs))
      | _ \<Rightarrow> map_option (Cons v) (note_system note vs))"

definition applyActNote :: "string \<Rightarrow> bool \<Rightarrow> obj \<Rightarrow> obj" where
  "applyActNote note hasTools ob =
     (let msgs = array_of (mget ob ''messages'')
      in if trim_space note = [] \<or> \<not> hasTools \<or> msgs = [] then ob
         else mput ''messages'' (JArr (case note_system note msgs of
                Some msgs' \<Rightarrow> msgs'
              | None \<Rightarrow> JObj [(''role'', JStr ''system''), (''content'', JStr note)] # msgs)) ob)"

datatype translate_error =
    OptionRefused string problem
  | PreviousResponse
  | StoreRequested
  | FormatRefused format_error
  | PolicyRefused policy_error
  | InputRefused
  | ReasoningRefused string

definition reasoning_field :: "obj \<Rightarrow> string \<times> string \<Rightarrow> translate_error + obj" where
  "reasoning_field reasoning k =
     (case mget reasoning (fst k) of
        None \<Rightarrow> Inr []
      | Some (JStr t) \<Rightarrow> if not_blank t then Inr [(snd k, JStr t)] else Inl (ReasoningRefused (fst k))
      | Some _ \<Rightarrow> Inl (ReasoningRefused (fst k)))"

definition reasoning_fields :: "obj option \<Rightarrow> translate_error + obj" where
  "reasoning_fields reasoning =
     (case reasoning of
        None \<Rightarrow> Inr []
      | Some r \<Rightarrow>
          (case reasoning_field r (''effort'', ''reasoning_effort'') of
             Inl e \<Rightarrow> Inl e
           | Inr xs \<Rightarrow> (case reasoning_field r (''summary'', ''reasoning_summary'') of Inl e \<Rightarrow> Inl e | Inr ys \<Rightarrow> Inr (xs @ ys))))"

definition optional :: "string \<Rightarrow> json option \<Rightarrow> obj" where
  "optional key v = (case v of None \<Rightarrow> [] | Some x \<Rightarrow> [(key, x)])"

definition chat_object :: "'s responsesRequest \<Rightarrow> obj list \<Rightarrow> obj \<Rightarrow> json list \<Rightarrow> json option \<Rightarrow> obj" where
  "chat_object req msgs reasoning tools choice =
     [(''model'', JStr (rq_model req)), (''messages'', JArr (map JObj msgs)), (''stream'', JBool (rq_stream req))]
     @ optional ''response_format'' (map_option JObj (case rq_output req of None \<Rightarrow> None | Some c \<Rightarrow> oc_chatFormat c))
     @ reasoning
     @ optional ''parallel_tool_calls'' (map_option JBool (rq_parallel req))
     @ optional ''prompt_cache_key'' (if_text (rq_promptCacheKey req))
     @ optional ''conversation_id'' (if_text (rq_conversationID req))
     @ optional ''conversationId'' (if_text (rq_conversationCamel req))
     @ optional ''max_tokens'' (map_option JInt (rq_maxOutputTokens req))
     @ optional ''temperature'' (map_option JFloat (rq_temperature req))
     @ optional ''top_p'' (map_option JFloat (rq_topP req))
     @ (if tools = [] then [] else (''tools'', JArr tools) # optional ''tool_choice'' choice)
     @ optional ''metadata'' (given (rq_metadata req))"

text \<open>
  \<open>ob\<close> is the body as a map, \<open>req\<close> the body decoded into the struct, with \<open>input\<close>, \<open>text\<close>,
  \<open>previous\<close> and \<open>store\<close> of its remaining fields; \<open>compile\<close>, \<open>raw_length\<close> and \<open>marshal\<close> as in
  \<open>StructuredOutput\<close>.
\<close>

definition responsesToChat :: "(string \<Rightarrow> string) \<Rightarrow> (obj \<Rightarrow> 's option) \<Rightarrow> (json \<Rightarrow> nat) \<Rightarrow> (json \<Rightarrow> string) \<Rightarrow> obj
    \<Rightarrow> 's responsesRequest \<Rightarrow> json option \<Rightarrow> json option \<Rightarrow> string \<Rightarrow> bool option
    \<Rightarrow> translate_error + obj \<times> 's responsesRequest \<times> reasoningStats" where
  "responsesToChat digest compile raw_length marshal ob req input text previous store =
     (case validateResponsesOptions (Some ob) of
        Some (path, p) \<Rightarrow> Inl (OptionRefused path p)
      | None \<Rightarrow>
          if previous \<noteq> [] then Inl PreviousResponse
          else if store = Some True then Inl StoreRequested
          else case parseOutputContract raw_length compile text of
            Inl e \<Rightarrow> Inl (FormatRefused e)
          | Inr contract \<Rightarrow>
              let tables = responsesTools digest (case rq_tools req of None \<Rightarrow> [] | Some tools \<Rightarrow> tools)
              in case prepareToolPolicy digest compile tables (tt_out tables) (rq_toolChoice req) of
                   Inl e \<Rightarrow> Inl (PolicyRefused e)
                 | Inr (tools, choice, policy) \<Rightarrow>
                     (case responsesMessages digest marshal input (rq_instructions req) (toolAliasIndex (tt_aliases tables)) (rq_model req) of
                        None \<Rightarrow> Inl InputRefused
                      | Some (msgs, stats) \<Rightarrow>
                          let req' = req\<lparr>rq_output := contract, rq_toolPolicy := Some policy, rq_tables := tables\<rparr>;
                              note = instruction marshal contract;
                              msgs' = (if note = [] then msgs else [(''role'', JStr ''system''), (''content'', JStr note)] # msgs)
                          in case reasoning_fields (rq_reasoning req) of
                               Inl e \<Rightarrow> Inl e
                             | Inr reasoning \<Rightarrow> Inr (chat_object req' msgs' reasoning tools choice, req', stats)))"

end
