(* ===== verification/ResponsesInputProps.thy ===== *)
theory ResponsesInputProps
  imports ResponsesInput
begin

text \<open>What the translation of a history keeps: every call, every result and every other message.\<close>

datatype history_step = Call json | Said obj

text \<open>What a message tells the vendor; the texts of an answer aside.\<close>

definition message_steps :: "obj \<Rightarrow> history_step list" where
  "message_steps m = (if is_assistant m then map Call (array_of (mget m ''tool_calls'')) else [Said m])"

definition steps :: "obj list \<Rightarrow> history_step list" where
  "steps msgs = concat (map message_steps msgs)"

text \<open>What an item of the history tells it.\<close>

definition item_steps :: "(string \<Rightarrow> string) \<Rightarrow> (json \<Rightarrow> string) \<Rightarrow> (string, string) gomap \<Rightarrow> json \<Rightarrow> history_step list" where
  "item_steps digest marshal toolNames item =
     (case item of
        JObj m \<Rightarrow>
          let kind = get_str m ''type''
          in if kind = ''function_call'' then [Call (call_entry digest toolNames m (get_str m ''arguments''))]
             else if kind = ''custom_tool_call'' then [Call (call_entry digest toolNames m (custom_args marshal m))]
             else if kind = ''function_call_output'' \<or> kind = ''custom_tool_call_output'' then [Said (tool_message marshal m)]
             else if kind = [] \<or> kind = ''message''
             then (case responsesContent (mget m ''content'') of
                     None \<Rightarrow> []
                   | Some content \<Rightarrow>
                       if item_role m = ''assistant'' then [] else [Said [(''role'', JStr (item_role m)), (''content'', content)]])
             else []
      | _ \<Rightarrow> [])"

definition is_reasoning :: "json \<Rightarrow> bool" where
  "is_reasoning item \<longleftrightarrow> get_str (nested_of (Some item)) ''type'' = ''reasoning''"

fun separated :: "obj list \<Rightarrow> bool" where
  "separated (m # n # ms) = (\<not> (is_assistant m \<and> is_assistant n) \<and> separated (n # ms))"
| "separated _ = True"

definition reasons :: "obj \<Rightarrow> bool" where
  "reasons m \<longleftrightarrow> is_assistant m \<longrightarrow> mget m ''reasoning_content'' \<noteq> None"

subsection \<open>Steps of the messages\<close>

lemma steps_simps [simp]: "steps [] = []" "steps (m # ms) = message_steps m @ steps ms" "steps (xs @ ys) = steps xs @ steps ys"
  by (simp_all add: steps_def)

text \<open>A field of an answer that is neither its role nor its calls changes none of its steps.\<close>

lemma is_assistant_mput [simp]: "k \<noteq> ''role'' \<Longrightarrow> is_assistant (mput k v m) = is_assistant m"
  by (simp add: is_assistant_def get_str_def)

lemma message_steps_mput:
  "is_assistant m \<Longrightarrow> k \<noteq> ''role'' \<Longrightarrow> k \<noteq> ''tool_calls'' \<Longrightarrow> message_steps (mput k v m) = message_steps m"
  by (simp add: message_steps_def)

lemma with_reasoning_simps [simp]:
  "is_assistant (with_reasoning t m) = is_assistant m" "is_assistant m \<Longrightarrow> message_steps (with_reasoning t m) = message_steps m"
  by (simp_all add: with_reasoning_def message_steps_mput)

lemma attach_steps:
  "map message_steps (attach_first text ms) = map message_steps ms" "map is_assistant (attach_first text ms) = map is_assistant ms"
  by (induction ms) (simp_all add: message_steps_mput)

lemma attach_last_steps [simp]: "steps (attach_last text ms) = steps ms"
  by (simp add: attach_last_def steps_def rev_map [symmetric] attach_steps)

lemma fill_steps [simp]: "message_steps (fill_reasoning m) = message_steps m" "is_assistant (fill_reasoning m) = is_assistant m"
  by (simp_all add: fill_reasoning_def message_steps_mput)

lemma reasons_fill: "reasons (fill_reasoning m)"
  by (simp add: reasons_def fill_reasoning_def)

lemma fill_all_steps [simp]: "steps (map fill_reasoning ms) = steps ms"
  by (simp add: steps_def comp_def)

subsection \<open>Merging answers\<close>

lemma merge_content_other: "k \<noteq> ''content'' \<Longrightarrow> mget (merge_content a b) k = mget a k"
  by (simp add: merge_content_def Let_def split: option.split)

lemma merge_calls_other: "k \<noteq> ''tool_calls'' \<Longrightarrow> mget (merge_calls a b) k = mget a k"
  by (simp add: merge_calls_def Let_def)

lemma merge_reasoning_other: "k \<noteq> ''reasoning_content'' \<Longrightarrow> mget (merge_reasoning a b) k = mget a k"
  by (simp add: merge_reasoning_def)

lemma merge_is_assistant [simp]: "is_assistant (mergeAssistantInto a b) = is_assistant a"
  by (simp add: is_assistant_def get_str_def mergeAssistantInto_def merge_content_other merge_calls_other merge_reasoning_other)

lemma merge_steps:
  assumes "is_assistant a" "is_assistant b"
  shows "message_steps (mergeAssistantInto a b) = message_steps a @ message_steps b"
proof -
  have "array_of (mget (merge_calls c b) ''tool_calls'') = array_of (mget c ''tool_calls'') @ array_of (mget b ''tool_calls'')" for c
    by (simp add: merge_calls_def Let_def array_of_def)
  then show ?thesis using assms
    by (simp add: message_steps_def) (simp add: mergeAssistantInto_def merge_reasoning_other merge_content_other)
qed

lemma merge_reasons: "reasons a \<Longrightarrow> is_assistant a \<Longrightarrow> reasons (mergeAssistantInto a b)"
  by (simp add: reasons_def) (simp add: mergeAssistantInto_def merge_reasoning_def merge_calls_other merge_content_other)

lemma separated_snoc: "separated (ms @ [m]) \<longleftrightarrow> separated ms \<and> (ms = [] \<or> \<not> (is_assistant (last ms) \<and> is_assistant m))"
proof (induction ms rule: separated.induct)
  case (1 a b ms)
  then show ?case by (cases ms) auto
qed auto

lemma merged_one:
  assumes "separated out"
  shows "separated (merge_message m out)" "steps (merge_message m out) = steps out @ message_steps m"
    "list_all reasons out \<Longrightarrow> reasons m \<Longrightarrow> list_all reasons (merge_message m out)"
proof -
  have "separated (merge_message m out) \<and> steps (merge_message m out) = steps out @ message_steps m
    \<and> (list_all reasons out \<longrightarrow> reasons m \<longrightarrow> list_all reasons (merge_message m out))"
  proof (cases "is_assistant m \<and> out \<noteq> [] \<and> is_assistant (last out)")
    case False
    then show ?thesis using assms by (auto simp: merge_message_def separated_snoc)
  next
    case True
    then obtain front l where out: "out = front @ [l]" by (metis append_butlast_last_id)
    then show ?thesis using True assms by (auto simp: merge_message_def separated_snoc merge_steps merge_reasons)
  qed
  then show "separated (merge_message m out)" "steps (merge_message m out) = steps out @ message_steps m"
    "list_all reasons out \<Longrightarrow> reasons m \<Longrightarrow> list_all reasons (merge_message m out)" by blast+
qed

lemma merged_all:
  "separated out \<Longrightarrow> separated (fold merge_message ms out) \<and> steps (fold merge_message ms out) = steps out @ steps ms
    \<and> (list_all reasons (out @ ms) \<longrightarrow> list_all reasons (fold merge_message ms out))"
  by (induction ms arbitrary: out) (simp_all add: merged_one)

lemma merged_messages:
  "separated (mergeAdjacentAssistants ms)" "steps (mergeAdjacentAssistants ms) = steps ms"
  "list_all reasons ms \<Longrightarrow> list_all reasons (mergeAdjacentAssistants ms)"
proof -
  have "length ms < 2 \<Longrightarrow> separated ms" by (cases ms rule: separated.cases) auto
  with merged_all [of "[]" ms] show "separated (mergeAdjacentAssistants ms)" "steps (mergeAdjacentAssistants ms) = steps ms"
    "list_all reasons ms \<Longrightarrow> list_all reasons (mergeAdjacentAssistants ms)"
    by (simp_all add: mergeAdjacentAssistants_def)
qed

subsection \<open>The turns\<close>

definition turn_steps :: "turns \<Rightarrow> history_step list" where
  "turn_steps t = steps (tu_msgs t) @ map Call (tu_pending t)"

lemma flush_steps: "turn_steps (flush_turn t) = turn_steps t" "tu_pending (flush_turn t) = []" "tu_stats (flush_turn t) = tu_stats t"
  by (simp_all add: turn_steps_def flush_turn_def message_steps_def with_reasoning_def is_assistant_def get_str_def str_or_empty_def array_of_def)

lemma flush_said [simp]: "steps (tu_msgs (flush_turn t)) = turn_steps t"
  using flush_steps [of t] by (simp add: turn_steps_def)

lemma message_turn_steps:
  "turn_steps (message_turn m t) = turn_steps t
     @ (case responsesContent (mget m ''content'') of
          None \<Rightarrow> []
        | Some content \<Rightarrow>
            if item_role m = ''assistant'' then [] else [Said [(''role'', JStr (item_role m)), (''content'', content)]])"
  "tu_stats (message_turn m t) = tu_stats t"
  by (simp_all add: message_turn_def Let_def turn_steps_def flush_steps message_steps_def is_assistant_def get_str_def
      str_or_empty_def array_of_def with_reasoning_def split: option.split)

lemma tool_message_steps: "message_steps (tool_message marshal m) = [Said (tool_message marshal m)]"
  by (simp add: message_steps_def tool_message_def is_assistant_def get_str_def str_or_empty_def)

lemma note_reasoning_steps:
  "turn_steps (note_reasoning text t) = turn_steps t" "rs_Items (tu_stats (note_reasoning text t)) = rs_Items (tu_stats t) + 1"
  by (simp_all add: note_reasoning_def turn_steps_def Let_def)

lemma item_turn_steps:
  "turn_steps (item_turn digest marshal toolNames item t) = turn_steps t @ item_steps digest marshal toolNames item
   \<and> rs_Items (tu_stats (item_turn digest marshal toolNames item t)) = rs_Items (tu_stats t) + (if is_reasoning item then 1 else 0)"
proof (cases item)
  case (JObj m)
  have pend: "turn_steps (t\<lparr>tu_pending := tu_pending t @ [c]\<rparr>) = turn_steps t @ [Call c]" for c
    by (simp add: turn_steps_def)
  have said: "turn_steps ((flush_turn t)\<lparr>tu_msgs := tu_msgs (flush_turn t) @ [tool_message marshal m]\<rparr>)
      = turn_steps t @ [Said (tool_message marshal m)]"
    using flush_steps [of t] by (simp add: turn_steps_def tool_message_steps)
  show ?thesis unfolding JObj item_turn_def item_steps_def is_reasoning_def
    by (simp add: Let_def pend said flush_steps message_turn_steps note_reasoning_steps nested_of_def)
qed (simp_all add: item_turn_def item_steps_def is_reasoning_def nested_of_def get_str_def str_or_empty_def)

lemma items_steps:
  "turn_steps (fold (item_turn digest marshal toolNames) items t) = turn_steps t @ concat (map (item_steps digest marshal toolNames) items)
   \<and> rs_Items (tu_stats (fold (item_turn digest marshal toolNames) items t))
     = rs_Items (tu_stats t) + length (filter is_reasoning items)"
  by (induction items arbitrary: t) (simp_all add: item_turn_steps)


text \<open>A turn with reasoning, a text and two calls, their results, and another answer.\<close>

definition sample_items :: "json list" where
  "sample_items =
     [JObj [(''role'', JStr ''user''), (''content'', JStr ''go'')],
      JObj [(''type'', JStr ''reasoning''), (''summary'', JArr [JObj [(''text'', JStr ''look first'')]])],
      JObj [(''type'', JStr ''message''), (''role'', JStr ''assistant''), (''content'', JStr ''I look.'')],
      JObj [(''type'', JStr ''function_call''), (''call_id'', JStr ''a''), (''name'', JStr ''ls''), (''arguments'', JStr ''{}'')],
      JObj [(''type'', JStr ''function_call''), (''call_id'', JStr ''b''), (''name'', JStr ''cat''), (''arguments'', JStr ''{}'')],
      JObj [(''type'', JStr ''function_call_output''), (''call_id'', JStr ''a''), (''output'', JStr ''x'')],
      JObj [(''type'', JStr ''function_call_output''), (''call_id'', JStr ''b''), (''output'', JStr ''y'')],
      JObj [(''role'', JStr ''assistant''), (''content'', JStr ''Done.'')]]"


end
