(* ===== verification/ChatLoop.thy ===== *)
theory ChatLoop
  imports ChatRetry Session ReasoningLoop UsageJson
begin

text \<open>
  The rotation of a chat request over the accounts, the loop of \<open>chatCompletions\<close> in
  \<open>internal/server/handler.go\<close>: an account is selected and leased, its credentials are refreshed,
  the request is sent, and the answer is passed on, blamed on the request, or tried elsewhere.
\<close>

subsection \<open>The request, the settings, the state\<close>

record chat_setup =
  cs_global :: bool
  cs_off :: duration
  cs_epoch :: int
  cs_SoftCooldown :: duration
  cs_RefreshSkew :: duration
  cs_APIKey :: string
  cs_parse :: "string \<Rightarrow> json option"
  cs_sprint :: "json \<Rightarrow> string"

record chat_call =
  cc_model :: string
  cc_realm :: string
  cc_stream :: bool
  cc_sessKey :: string
  cc_bearer :: string

datatype last_error = FromUpstream ErrKind string | FromElsewhere

text \<open>\<open>held\<close> is the account whose slot the request occupies, the log what was sent to whom and came back.\<close>

record rotation =
  ro_pool :: pool
  ro_router :: "router option"
  ro_sticky :: string
  ro_tried :: "string set"
  ro_held :: string
  ro_lastErr :: "last_error option"
  ro_log :: "(auth \<times> chat_result) list"

text \<open>
  What one turn of the loop meets. The clock is read before the request is sent and after the answer;
  meanwhile other requests work on the pool. A refresh that succeeds brings new credentials, or finds
  that another one already did.
\<close>

datatype refresh_result = Refreshed "token_update option" | RefreshRefused ErrKind string | RefreshBroken

record turn =
  tn_cancelled :: bool
  tn_now :: instant
  tn_later :: instant
  tn_chance :: chance
  tn_others :: "pool \<Rightarrow> pool"
  tn_refresh :: "auth \<Rightarrow> refresh_result"
  tn_vendor :: "auth \<Rightarrow> chat_result"
  tn_gone :: bool
  tn_streamErr :: "stream_error option"
  tn_cost :: "(float64 \<times> int) option"
  tn_aggregate :: "stream_error + obj"
  tn_checked :: "obj \<Rightarrow> string option"
  tn_prepare :: "obj \<Rightarrow> obj"
  tn_written :: bool

text \<open>How the handler ends: an error object, a stream, a stream that broke, an answer, a lost client.\<close>

datatype chat_end =
    ErrorReply int string string
  | StreamEnded
  | StreamCut int
  | AnswerSent obj
  | AnswerLost
  | ClientGone

fun end_status :: "chat_end \<Rightarrow> int" where
  "end_status (ErrorReply status code msg) = status"
| "end_status StreamEnded = 200"
| "end_status (StreamCut status) = status"
| "end_status (AnswerSent resp) = 200"
| "end_status AnswerLost = 502"
| "end_status ClientGone = 499"

datatype turn_end = Again | NoAccount | Finished chat_end

subsection \<open>Leases and the sticky account\<close>

definition releaseHeld :: "rotation \<Rightarrow> rotation" where
  "releaseHeld t =
     (if ro_held t = [] then t else t\<lparr>ro_pool := Release (ro_held t) (ro_pool t), ro_held := []\<rparr>)"

definition unbindSticky :: "string \<Rightarrow> rotation \<Rightarrow> rotation" where
  "unbindSticky key t =
     (if ro_sticky t = [] then t
      else t\<lparr>ro_router := map_option (\<lambda>r. fst (Unbind key r)) (ro_router t), ro_sticky := []\<rparr>)"

definition fail_account :: "string \<Rightarrow> string \<Rightarrow> rotation \<Rightarrow> rotation" where
  "fail_account key uid t =
     (let t1 = releaseHeld t
      in if ro_sticky t1 \<noteq> [] \<and> uid = ro_sticky t1 then unbindSticky key t1 else t1)"

definition on_pool :: "(pool \<Rightarrow> pool) \<Rightarrow> rotation \<Rightarrow> rotation" where
  "on_pool f t = t\<lparr>ro_pool := f (ro_pool t)\<rparr>"

subsection \<open>Selecting an account\<close>

definition sticky_account :: "chat_setup \<Rightarrow> chat_call \<Rightarrow> turn \<Rightarrow> rotation \<Rightarrow> rotation \<times> auth option" where
  "sticky_account s c n t =
     (if ro_sticky t = [] then (t, None)
      else case PickByUIDForModel (tn_now n) (ro_sticky t) (cc_model c) (ro_pool t) of
        (p, found) \<Rightarrow>
          let t1 = t\<lparr>ro_pool := p\<rparr>;
              wrong = (case found of None \<Rightarrow> True | Some a \<Rightarrow> cc_realm c \<noteq> [] \<and> Realm (cs_global s) a \<noteq> cc_realm c)
          in (if wrong then unbindSticky (cc_sessKey c) t1 else t1, found))"

definition choose_account :: "chat_setup \<Rightarrow> chat_call \<Rightarrow> turn \<Rightarrow> rotation \<Rightarrow> rotation \<times> auth option" where
  "choose_account s c n t =
     (case sticky_account s c n t of
        (t1, Some a) \<Rightarrow> (t1, Some a)
      | (t1, None) \<Rightarrow>
          (case PickExcludingForRealm (tn_chance n) (cs_global s) (tn_now n) (ro_tried t1) (cc_model c) (cc_realm c) (ro_pool t1) of
             (p, found) \<Rightarrow> (t1\<lparr>ro_pool := p\<rparr>, found)))"

definition lease_account :: "chat_call \<Rightarrow> auth \<Rightarrow> rotation \<Rightarrow> rotation \<times> bool" where
  "lease_account c a t =
     (let t1 = t\<lparr>ro_tried := insert (UID a) (ro_tried t)\<rparr>
      in case Acquire (UID a) (ro_pool t1) of
           (p, True) \<Rightarrow> (t1\<lparr>ro_pool := p, ro_held := UID a\<rparr>, True)
         | (p, False) \<Rightarrow>
             let t2 = t1\<lparr>ro_pool := p\<rparr>
             in (if ro_sticky t2 \<noteq> [] \<and> UID a = ro_sticky t2 then unbindSticky (cc_sessKey c) t2 else t2, False))"

text \<open>The account in the pool and the one in hand are the same object; a refresh writes both.\<close>

definition put_account :: "string \<Rightarrow> auth \<Rightarrow> pool \<Rightarrow> pool" where
  "put_account uid a p = (case mget (byUID p) uid of None \<Rightarrow> p | Some e \<Rightarrow> set_entry uid (e\<lparr>acct := a\<rparr>) p)"

definition refresh_account :: "chat_setup \<Rightarrow> chat_call \<Rightarrow> turn \<Rightarrow> auth \<Rightarrow> rotation \<Rightarrow> rotation \<times> auth option" where
  "refresh_account s c n a t =
     (if \<not> NeedsRefresh (tn_now n) (cs_RefreshSkew s) (cs_epoch s) a then (t, Some a)
      else case tn_refresh n a of
        Refreshed u \<Rightarrow>
          let b = fst (BackfillRealm (case u of None \<Rightarrow> a | Some upd \<Rightarrow> apply_update upd a))
          in (on_pool (put_account (UID a) b) t, Some b)
      | RefreshRefused kind msg \<Rightarrow>
          let t1 = on_pool (if kind = ErrSessionDead then (\<lambda>p. fst (NoteSessionDead (UID a) p)) else NoteError (tn_now n) (UID a))
                     (t\<lparr>ro_lastErr := Some (FromUpstream kind msg)\<rparr>)
          in (fail_account (cc_sessKey c) (UID a) t1, None)
      | RefreshBroken \<Rightarrow>
          let t1 = on_pool (NoteError (tn_now n) (UID a)) (t\<lparr>ro_lastErr := Some FromElsewhere\<rparr>)
          in (fail_account (cc_sessKey c) (UID a) t1, None))"

subsection \<open>A refusal of the vendor\<close>

text \<open>The vendor's text for a client, the secrets blanked.\<close>

function replace_all :: "string \<Rightarrow> string \<Rightarrow> string \<Rightarrow> string" where
  "replace_all old new s =
     (if old = [] then s
      else if has_prefix s old then new @ replace_all old new (drop (length old) s)
      else case s of [] \<Rightarrow> [] | c # cs \<Rightarrow> c # replace_all old new cs)"
  by pat_completeness auto
termination
  by (relation "measure (\<lambda>(_, _, s). length s)") (auto simp: has_prefix_def intro!: diff_less)

declare replace_all.simps [simp del]

definition redact :: "string list \<Rightarrow> string \<Rightarrow> string" where
  "redact secrets detail =
     fold (\<lambda>secret d. if length secret > 4 then replace_all secret ''[redacted]'' d else d) secrets detail"

fun rune_start_below :: "string \<Rightarrow> nat \<Rightarrow> nat" where
  "rune_start_below s 0 = 0"
| "rune_start_below s (Suc n) =
     (if cont (s ! Suc n) then rune_start_below s n else Suc n)"

definition Truncate :: "string \<Rightarrow> nat \<Rightarrow> string" where
  "Truncate s0 n =
     (let s = trim_space s0 in if length s > n then take (rune_start_below s n) s else s)"

definition refusal_detail :: "chat_setup \<Rightarrow> chat_call \<Rightarrow> auth \<Rightarrow> string \<Rightarrow> string" where
  "refusal_detail s c a raw =
     (let detail = redact [AccessToken a, RefreshToken a, DeviceToken a, cs_APIKey s, cc_bearer c] raw
      in if length detail > 2000 then Truncate detail 2000 else detail)"

definition ContextTooLongDetail :: "(string \<Rightarrow> json option) \<Rightarrow> string \<Rightarrow> string" where
  "ContextTooLongDetail parse raw =
     (let m = (case parse raw of Some (JObj env) \<Rightarrow> (case str_field ''msg'' env of None \<Rightarrow> [] | Some msg \<Rightarrow> trim_space msg) | _ \<Rightarrow> [])
      in if m \<noteq> [] then m
         else if trim_space raw = [] then ''request exceeds model context window'' else trim_space raw)"

definition channel_text :: string where
  "channel_text = ''upstream rejected the client channel: Illegal API invocation from an unapproved channel''"

definition waf_text :: string where
  "waf_text = ''upstream WAF rejected this request even after the gateway broke the matching ''
     @ ''patterns; start a new conversation, or remove the HTML/script/SQL-looking part''"

definition refused_by_vendor :: "chat_setup \<Rightarrow> chat_call \<Rightarrow> turn \<Rightarrow> auth \<Rightarrow> int \<Rightarrow> string \<Rightarrow> rotation \<Rightarrow> turn_end \<times> rotation" where
  "refused_by_vendor s c n a status raw t =
     (let kind = Classify (cs_parse s) (cs_sprint s) status raw;
          blame = on_pool (applyErrorPolicy (tn_later n) (cs_off s) (cs_SoftCooldown s) (UID a) kind raw (cc_model c));
          leave = fail_account (cc_sessKey c) (UID a);
          bad = (\<lambda>code msg. Finished (ErrorReply 400 code msg))
      in if kind = ErrChannelRejected then (bad ''upstream_channel_rejected'' channel_text, leave t)
         else if kind = ErrUpstreamWAF then (bad ''upstream_waf_blocked'' waf_text, leave t)
         else if kind = ErrContentBlocked
         then (bad ''content_blocked'' (if trim_space raw = [] then ''content blocked by upstream content firewall'' else raw),
               leave (blame t))
         else if kind = ErrContextTooLong
         then (bad ''context_length_exceeded'' (ContextTooLongDetail (cs_parse s) raw), leave (blame t))
         else let t1 = t\<lparr>ro_lastErr := Some (FromUpstream kind raw)\<rparr>
              in if kind = ErrBadParams \<or> kind = ErrClient
                 then (bad ''upstream_invalid_request'' (''upstream rejected request params: '' @ refusal_detail s c a raw), leave t1)
                 else (Again, leave (blame t1)))"

subsection \<open>An answer of the vendor\<close>

definition account_served :: "chat_call \<Rightarrow> turn \<Rightarrow> auth \<Rightarrow> rotation \<Rightarrow> rotation" where
  "account_served c n a t =
     (let t1 = on_pool (\<lambda>p. BlockModelClear (UID a) (cc_model c) (NoteSuccess (tn_later n) (UID a) p)) t
      in if cc_sessKey c = [] then t1
         else t1\<lparr>ro_router := map_option (Bind (tn_later n) (cc_sessKey c) (UID a)) (ro_router t1)\<rparr>)"

definition note_cost :: "chat_call \<Rightarrow> turn \<Rightarrow> auth \<Rightarrow> (float64 \<times> int) option \<Rightarrow> rotation \<Rightarrow> rotation" where
  "note_cost c n a cost t =
     (case cost of
        None \<Rightarrow> t
      | Some (credit, tokens) \<Rightarrow> on_pool (NoteModelCost (tn_later n) (UID a) (cc_model c) credit tokens) t)"

definition usageCreditTotal :: "obj \<Rightarrow> (float64 \<times> int) option" where
  "usageCreditTotal resp =
     (case mget resp ''usage'' of
        Some (JObj u) \<Rightarrow>
          (case (UsageCredit (mget u ''credit''), UsageCount (mget u ''prompt_tokens''), UsageCount (mget u ''completion_tokens'')) of
             (Some credit, Some pt, Some ct) \<Rightarrow> Some (credit, wrap64 (pt + ct))
           | _ \<Rightarrow> None)
      | _ \<Rightarrow> None)"

definition streamed :: "chat_call \<Rightarrow> turn \<Rightarrow> auth \<Rightarrow> rotation \<Rightarrow> chat_end \<times> rotation" where
  "streamed c n a t =
     (case tn_streamErr n of
        Some err \<Rightarrow>
          if IsReasoningLoopError err then (StreamCut (if tn_gone n then 499 else 422), t)
          else (StreamCut (if tn_gone n then 499 else 502), fail_account (cc_sessKey c) (UID a) t)
      | None \<Rightarrow> (StreamEnded, note_cost c n a (tn_cost n) (account_served c n a t)))"

definition aggregated :: "chat_call \<Rightarrow> turn \<Rightarrow> auth \<Rightarrow> rotation \<Rightarrow> chat_end \<times> rotation" where
  "aggregated c n a t =
     (case tn_aggregate n of
        Inl err \<Rightarrow>
          (if IsReasoningLoopError err then ErrorReply 422 ReasoningLoopErrorCode (se_Message err)
           else ErrorReply 502 ''upstream_parse'' (se_Message err), t)
      | Inr resp \<Rightarrow>
          (case tn_checked n resp of
             Some problem \<Rightarrow> (ErrorReply 502 ''response_contract_violation'' problem, t)
           | None \<Rightarrow>
               let answer = tn_prepare n resp; t1 = account_served c n a t
               in if \<not> tn_written n then (AnswerLost, t1)
                  else (AnswerSent answer, note_cost c n a (usageCreditTotal answer) t1)))"

subsection \<open>The loop\<close>

definition send_request :: "chat_setup \<Rightarrow> chat_call \<Rightarrow> turn \<Rightarrow> auth \<Rightarrow> rotation \<Rightarrow> turn_end \<times> rotation" where
  "send_request s c n a t =
     (let back = tn_vendor n a;
          t1 = on_pool (tn_others n) (t\<lparr>ro_log := ro_log t @ [(a, back)]\<rparr>)
      in case back of
           TransportError \<Rightarrow> (Again, fail_account (cc_sessKey c) (UID a) (t1\<lparr>ro_lastErr := Some FromElsewhere\<rparr>))
         | Returned status raw \<Rightarrow> refused_by_vendor s c n a status raw t1
         | Streaming status \<Rightarrow>
             (case (if cc_stream c then streamed c n a t1 else aggregated c n a t1) of (e, t2) \<Rightarrow> (Finished e, t2)))"

definition take_turn :: "chat_setup \<Rightarrow> chat_call \<Rightarrow> turn \<Rightarrow> rotation \<Rightarrow> turn_end \<times> rotation" where
  "take_turn s c n t =
     (if tn_cancelled n then (Finished ClientGone, t)
      else case choose_account s c n t of
        (t1, None) \<Rightarrow> (NoAccount, t1)
      | (t1, Some a) \<Rightarrow>
          (case lease_account c a t1 of
             (t2, False) \<Rightarrow> (Again, t2)
           | (t2, True) \<Rightarrow>
               (case refresh_account s c n a t2 of
                  (t3, None) \<Rightarrow> (Again, t3)
                | (t3, Some b) \<Rightarrow> send_request s c n b t3)))"

text \<open>After the last turn the last error is passed on.\<close>

definition exhausted :: "last_error option \<Rightarrow> chat_end" where
  "exhausted err =
     (case err of
        Some (FromUpstream kind msg) \<Rightarrow>
          let text = (\<lambda>own. if trim_space msg \<noteq> [] then trim_space msg else own)
          in if kind = ErrSoftRate
             then ErrorReply 429 ''rate_limit_exceeded'' (text ''rate limited: all accounts are cooling down, please wait a moment and try again'')
             else ErrorReply 503 ''no_healthy_account'' (text ''all accounts are temporarily unavailable, please retry later'')
      | _ \<Rightarrow> ErrorReply 503 ''no_healthy_account'' ''all accounts are temporarily unavailable, please retry later'')"

fun rotate :: "chat_setup \<Rightarrow> chat_call \<Rightarrow> turn list \<Rightarrow> rotation \<Rightarrow> chat_end \<times> rotation" where
  "rotate s c [] t = (exhausted (ro_lastErr t), t)"
| "rotate s c (n # ns) t =
     (case take_turn s c n t of
        (Again, t1) \<Rightarrow> rotate s c ns t1
      | (NoAccount, t1) \<Rightarrow> (exhausted (ro_lastErr t1), t1)
      | (Finished e, t1) \<Rightarrow> (e, t1))"

definition start_rotation :: "pool \<Rightarrow> router option \<Rightarrow> string \<Rightarrow> rotation" where
  "start_rotation p r sticky =
     \<lparr>ro_pool = p, ro_router = r, ro_sticky = sticky, ro_tried = {}, ro_held = [], ro_lastErr = None, ro_log = []\<rparr>"

text \<open>The whole loop, its turns one for each of \<open>MaxRotate\<close>; on every way out the slot is given back.\<close>

definition serve_chat :: "chat_setup \<Rightarrow> chat_call \<Rightarrow> turn list \<Rightarrow> pool \<Rightarrow> router option \<Rightarrow> string \<Rightarrow> chat_end \<times> rotation" where
  "serve_chat s c turns p r sticky = apsnd releaseHeld (rotate s c turns (start_rotation p r sticky))"

end
