(* ===== verification/ChatLoopFacts.thy ===== *)
theory ChatLoopFacts
  imports ChatLoop PoolRun
begin

text \<open>
  What the rotation keeps: the pool's invariant, the slots of the accounts, and which accounts may
  still be selected. That an operation leaves the slots alone is a contract of its own.
\<close>

subsection \<open>Slots\<close>

definition lease :: "pool \<Rightarrow> string \<Rightarrow> int option" where
  "lease p uid = map_option inFlight (mget (byUID p) uid)"

locale seat_keeper = sound_method +
  assumes keeps_seat: "mget (byUID p) uid = Some e \<Longrightarrow> mget (byUID (oper uid p)) uid = Some e' \<Longrightarrow>
      inFlight e' = inFlight e"
begin

lemma lease_kept [simp]: "lease (oper uid p) = lease p"
proof (rule ext)
  fix v
  show "lease (oper uid p) v = lease p v"
  proof (cases "v = uid")
    case True
    show ?thesis
    proof (cases rule: cases_uid [of uid p])
      case none
      then show ?thesis by (simp add: lease_def)
    next
      case (some e e')
      have "mget (byUID (oper uid p)) uid = Some e'" using some(2) by simp
      from keeps_seat [OF some(1) this] show ?thesis using some(1) \<open>mget (byUID (oper uid p)) uid = Some e'\<close> True
        by (simp add: lease_def)
    qed
  next
    case False
    then show ?thesis using other_accounts by (simp add: lease_def)
  qed
qed

end

lemma breaker_seat [simp]: "inFlight (recordBreakerFailureLocked now p e) = inFlight e"
  by (simp add: recordBreakerFailureLocked_def Let_def)

lemma cost_seat [simp]: "inFlight (learn_cost now m x e) = inFlight e" "inFlight (debit_entry c e) = inFlight e"
  by (simp_all add: learn_cost_def debit_entry_def Let_def)

interpretation cooldown_seat: seat_keeper "\<lambda>uid. Cooldown now uid k d why" for now k d why
  by unfold_locales (auto simp: Cooldown_def split: option.splits if_splits)

interpretation cooldown_4am_seat: seat_keeper "\<lambda>uid. CooldownUntilTomorrow4AM off now uid why" for off now why
  by unfold_locales (auto simp: CooldownUntilTomorrow4AM_def Cooldown_def split: option.splits if_splits)

interpretation soft_model_seat: seat_keeper "\<lambda>uid. CooldownSoftForModel now uid b t m why" for now b t m why
  by unfold_locales (auto simp: CooldownSoftForModel_def Let_def split: option.splits if_splits)

interpretation soft_rate_seat: seat_keeper "\<lambda>uid. CooldownSoftRate now uid b t why" for now b t why
  by unfold_locales (auto simp: CooldownSoftRate_def Let_def split: option.splits if_splits)

interpretation block_seat: seat_keeper "\<lambda>uid. BlockModelBackoff now uid m why" for now m why
  by unfold_locales (auto simp: BlockModelBackoff_def Let_def split: option.splits if_splits)

interpretation block_clear_seat: seat_keeper "\<lambda>uid. BlockModelClear uid m" for m
  by unfold_locales (auto simp: BlockModelClear_def split: option.splits if_splits)

interpretation disable_seat: seat_keeper "\<lambda>uid. Disable uid why" for why
  by unfold_locales (auto simp: Disable_def primitive_defs Let_def split: option.splits if_splits)

interpretation session_dead_seat: seat_keeper "\<lambda>uid p. fst (NoteSessionDead uid p)"
  by unfold_locales (auto simp: NoteSessionDead_def primitive_defs Let_def split: option.splits if_splits)

interpretation note_error_seat: seat_keeper "\<lambda>uid. NoteError now uid" for now
  by unfold_locales (auto simp: NoteError_def split: option.splits)

interpretation note_success_seat: seat_keeper "\<lambda>uid. NoteSuccess now uid" for now
  by unfold_locales (auto simp: NoteSuccess_def split: option.splits)

interpretation note_cost_seat: seat_keeper "\<lambda>uid. NoteModelCost now uid m c t" for now m c t
  by unfold_locales (auto simp: NoteModelCost_def Let_def split: option.splits if_splits)

interpretation pick_uid_seat: seat_keeper "\<lambda>uid p. fst (PickByUIDForModel now uid m p)" for now m
  by unfold_locales (auto simp: PickByUIDForModel_def mark_used_def Let_def split: option.splits if_splits)

text \<open>The policy is one of these operations, or none.\<close>

lemma policy_keeps [simp]:
  "lease (applyErrorPolicy now off d uid k raw m p) = lease p"
  "pool_inv p \<Longrightarrow> pool_inv (applyErrorPolicy now off d uid k raw m p)"
  by (auto simp: applyErrorPolicy_def method_invs split: ErrKind.split option.split)

lemma pick_lease:
  assumes "pool_wf p" "\<And>xs. mset (c_shuf ch xs) = mset xs"
  shows "lease (fst (pick ch g now tried m r p)) = lease p"
proof (rule ext)
  fix v
  have *: "lease (prune_all now p) v = lease p v"
    by (cases "mget (byUID p) v") (simp_all add: lease_def mget_prune_all prune_eq)
  show "lease (fst (pick ch g now tried m r p)) v = lease p v"
    by (rule pick_shape [OF assms, of g now tried m r])
      (use * in \<open>auto simp: lease_def same_but_use_def prune_eq\<close>)
qed

lemma put_account_keeps:
  "lease (put_account uid a p) = lease p"
  "pool_inv p \<Longrightarrow> UID a = uid \<Longrightarrow> pool_inv (put_account uid a p)"
proof -
  show "lease (put_account uid a p) = lease p"
    by (rule ext) (simp add: put_account_def lease_def split: option.split)
  assume inv: "pool_inv p" and uid: "UID a = uid"
  show "pool_inv (put_account uid a p)"
  proof (cases "mget (byUID p) uid")
    case None
    then show ?thesis using inv by (simp add: put_account_def)
  next
    case (Some e)
    have wf: "wfmap (modelCooldowns e)" using pool_wf_mget [OF _ Some] inv by (simp add: pool_inv_def)
    have same: "same_settings p (put_account uid a p)" by (simp add: put_account_def Some same_settings_def)
    then have "acct_inv (put_account uid a p) x = acct_inv p x" for x using acct_inv_settings by blast
    then show ?thesis using inv uid Some wf same
      by (auto simp: pool_inv_def pool_wf_iff put_account_def same_settings_def)
  qed
qed

text \<open>What giving a slot back, and taking one, does to the slots.\<close>

lemma release_lease:
  assumes "lease p uid = Some (k + 1)" "0 \<le> k"
  shows "lease (Release uid p) = (lease p)(uid \<mapsto> k)"
proof (rule ext)
  fix v
  show "lease (Release uid p) v = ((lease p)(uid \<mapsto> k)) v"
    using assms by (auto simp: lease_def Release_def release_inflight_def split: option.splits)
qed

lemma acquire_lease:
  assumes "Acquire uid p = (q, ok)"
  shows "if ok then \<exists>k. lease p uid = Some k \<and> lease q = (lease p)(uid \<mapsto> k + 1) else q = p"
proof (cases "mget (byUID p) uid")
  case None
  then show ?thesis using assms by (auto simp: Acquire_def)
next
  case (Some e)
  show ?thesis
  proof (cases "acquire_inflight (maxInFlight p) (inFlight e)")
    case None
    then show ?thesis using assms Some by (auto simp: Acquire_def)
  next
    case (Some n)
    then have "n = inFlight e + 1" by (auto simp: acquire_inflight_def split: if_splits)
    then show ?thesis using assms Some \<open>mget (byUID p) uid = Some e\<close>
      by (auto simp: Acquire_def lease_def fun_eq_iff)
  qed
qed

subsection \<open>The turns\<close>

text \<open>What a theorem may assume of a turn: a shuffle shuffles, the other requests keep the invariant
  of the pool, and, where slots are counted, give back what they take.\<close>

definition fair_turn :: "turn \<Rightarrow> bool" where
  "fair_turn n \<longleftrightarrow> (\<forall>xs. mset (c_shuf (tn_chance n) xs) = mset xs) \<and> (\<forall>p. pool_inv p \<longrightarrow> pool_inv (tn_others n p))"

definition balanced :: "turn \<Rightarrow> bool" where
  "balanced n \<longleftrightarrow> (\<forall>p. lease (tn_others n p) = lease p)"

text \<open>The slots are those of the start, and one more for the account that is held.\<close>

definition leased :: "(string \<Rightarrow> int option) \<Rightarrow> rotation \<Rightarrow> bool" where
  "leased L t \<longleftrightarrow>
     (if ro_held t = [] then lease (ro_pool t) = L
      else \<exists>k. L (ro_held t) = Some k \<and> 0 \<le> k \<and> lease (ro_pool t) = L(ro_held t \<mapsto> k + 1))"

lemma leased_same: "leased L t \<Longrightarrow> ro_held t' = ro_held t \<Longrightarrow> lease (ro_pool t') = lease (ro_pool t) \<Longrightarrow> leased L t'"
  by (simp add: leased_def)

lemma unbind_frame [simp]:
  "ro_pool (unbindSticky key t) = ro_pool t" "ro_held (unbindSticky key t) = ro_held t" "ro_tried (unbindSticky key t) = ro_tried t"
  "ro_log (unbindSticky key t) = ro_log t" "ro_sticky (unbindSticky key t) = []" "ro_lastErr (unbindSticky key t) = ro_lastErr t"
  by (simp_all add: unbindSticky_def)

lemma on_pool_frame [simp]:
  "ro_pool (on_pool f t) = f (ro_pool t)" "ro_held (on_pool f t) = ro_held t" "ro_tried (on_pool f t) = ro_tried t"
  "ro_log (on_pool f t) = ro_log t" "ro_sticky (on_pool f t) = ro_sticky t" "ro_router (on_pool f t) = ro_router t"
  "ro_lastErr (on_pool f t) = ro_lastErr t"
  by (simp_all add: on_pool_def)

lemma release_frame [simp]:
  "ro_held (releaseHeld t) = []" "ro_tried (releaseHeld t) = ro_tried t" "ro_log (releaseHeld t) = ro_log t"
  "ro_sticky (releaseHeld t) = ro_sticky t" "ro_router (releaseHeld t) = ro_router t" "ro_lastErr (releaseHeld t) = ro_lastErr t"
  "pool_inv (ro_pool t) \<Longrightarrow> pool_inv (ro_pool (releaseHeld t))"
  by (simp_all add: releaseHeld_def method_invs)

lemma fail_frame [simp]:
  "ro_held (fail_account key uid t) = []" "ro_tried (fail_account key uid t) = ro_tried t" "ro_log (fail_account key uid t) = ro_log t"
  "ro_sticky (fail_account key uid t) = (if uid = ro_sticky t then [] else ro_sticky t)"
  "ro_lastErr (fail_account key uid t) = ro_lastErr t"
  "pool_inv (ro_pool t) \<Longrightarrow> pool_inv (ro_pool (fail_account key uid t))"
  by (simp_all add: fail_account_def Let_def)

lemma release_leased: "leased L t \<Longrightarrow> lease (ro_pool (releaseHeld t)) = L"
proof (cases "ro_held t = []")
  case False
  assume "leased L t"
  then obtain k where k: "L (ro_held t) = Some k" "0 \<le> k" "lease (ro_pool t) = L(ro_held t \<mapsto> k + 1)"
    using False by (auto simp: leased_def)
  have "lease (ro_pool t) (ro_held t) = Some (k + 1)" using k(3) by simp
  from release_lease [OF this k(2)] show ?thesis using False k by (simp add: releaseHeld_def fun_upd_idem)
qed (simp add: leased_def releaseHeld_def)

lemma fail_leased: "leased L t \<Longrightarrow> lease (ro_pool (fail_account key uid t)) = L"
  by (simp add: fail_account_def Let_def release_leased)

lemma pool_inv_wf: "pool_inv p \<Longrightarrow> pool_wf p"
  by (simp add: pool_inv_def)

lemma pick_by_uid:
  assumes "pool_inv p" "PickByUIDForModel now uid m p = (q, r)"
  shows "pool_inv q" "lease q = lease p" "r = Some a \<Longrightarrow> UID a = uid \<and> (\<exists>e. mget (byUID p) uid = Some e \<and> acct e = a)"
proof -
  have q: "q = fst (PickByUIDForModel now uid m p)" using assms(2) by simp
  show "pool_inv q" "lease q = lease p" using assms(1) by (simp_all only: q pick_uid.keeps_pool_inv pick_uid_seat.lease_kept)
  show "UID a = uid \<and> (\<exists>e. mget (byUID p) uid = Some e \<and> acct e = a)" if "r = Some a"
    using assms that pool_wf_mget(1) [OF pool_inv_wf [OF assms(1)]]
    by (auto simp: PickByUIDForModel_def split: option.splits if_splits)
qed

text \<open>The sticky account is used at most once: it is gone, or it is the account that was selected.\<close>

definition sticky_ok :: "rotation \<Rightarrow> bool" where
  "sticky_ok t \<longleftrightarrow> ro_sticky t = [] \<or> ro_sticky t \<notin> ro_tried t"

lemma sticky_facts:
  assumes "pool_inv (ro_pool t)" "sticky_account s c n t = (t1, r)"
  shows "pool_inv (ro_pool t1)" "lease (ro_pool t1) = lease (ro_pool t)"
    "ro_held t1 = ro_held t" "ro_tried t1 = ro_tried t" "ro_log t1 = ro_log t" "ro_lastErr t1 = ro_lastErr t"
    "r = None \<Longrightarrow> ro_sticky t1 = []"
    "r = Some a \<Longrightarrow> ro_sticky t \<noteq> [] \<and> UID a = ro_sticky t \<and> ro_sticky t1 \<in> {[], UID a}
       \<and> (\<exists>e. mget (byUID (ro_pool t)) (ro_sticky t) = Some e \<and> acct e = a)"
proof -
  obtain q x where pick: "PickByUIDForModel (tn_now n) (ro_sticky t) (cc_model c) (ro_pool t) = (q, x)" by fastforce
  note facts = pick_by_uid [OF assms(1) pick]
  have "pool_inv (ro_pool t1) \<and> lease (ro_pool t1) = lease (ro_pool t) \<and> ro_held t1 = ro_held t \<and> ro_tried t1 = ro_tried t
    \<and> ro_log t1 = ro_log t \<and> ro_lastErr t1 = ro_lastErr t \<and> (r = None \<longrightarrow> ro_sticky t1 = [])"
    using assms pick facts(1,2) by (auto simp: sticky_account_def Let_def split: if_splits option.splits)
  then show "pool_inv (ro_pool t1)" "lease (ro_pool t1) = lease (ro_pool t)"
    "ro_held t1 = ro_held t" "ro_tried t1 = ro_tried t" "ro_log t1 = ro_log t" "ro_lastErr t1 = ro_lastErr t"
    "r = None \<Longrightarrow> ro_sticky t1 = []" by blast+
  show "ro_sticky t \<noteq> [] \<and> UID a = ro_sticky t \<and> ro_sticky t1 \<in> {[], UID a}
       \<and> (\<exists>e. mget (byUID (ro_pool t)) (ro_sticky t) = Some e \<and> acct e = a)" if "r = Some a"
    using assms that pick facts(3) [of a] by (auto simp: sticky_account_def Let_def split: if_splits)
qed

lemma pick_facts:
  assumes "pool_inv p" "fair_turn n" "PickExcludingForRealm (tn_chance n) g now tried m r p = (q, x)"
  shows "pool_inv q" "lease q = lease p" "x = Some a \<Longrightarrow> UID a \<notin> tried \<and> (r = [] \<or> Realm g a = r)"
proof -
  have shuf: "\<And>xs. mset (c_shuf (tn_chance n) xs) = mset xs" using assms(2) by (simp add: fair_turn_def)
  have q: "q = fst (pick (tn_chance n) g now tried m r p)" "x = snd (pick (tn_chance n) g now tried m r p)"
    using assms(3) by (simp_all add: PickExcludingForRealm_def)
  note wf = pool_inv_wf [OF assms(1)]
  show "pool_inv q" "lease q = lease p" unfolding q using pick_inv [OF assms(1) shuf] pick_lease [OF wf shuf] by blast+
  show "UID a \<notin> tried \<and> (r = [] \<or> Realm g a = r)" if "x = Some a"
    by (rule pick_shape [OF wf shuf, of g now tried m r])
      (use that q(2) pool_wf_mget(1) [OF wf] in \<open>auto simp: realmOK_def\<close>)
qed

lemma choose_facts:
  assumes "pool_inv (ro_pool t)" "fair_turn n" "choose_account s c n t = (t1, r)"
  shows "pool_inv (ro_pool t1)" "lease (ro_pool t1) = lease (ro_pool t)"
    "ro_held t1 = ro_held t" "ro_tried t1 = ro_tried t" "ro_log t1 = ro_log t" "ro_lastErr t1 = ro_lastErr t"
    "sticky_ok t \<Longrightarrow> r = Some a \<Longrightarrow> UID a \<notin> ro_tried t \<and> ro_sticky t1 \<in> {[], UID a}"
    "r = Some a \<Longrightarrow> (cc_realm c = [] \<or> Realm (cs_global s) a = cc_realm c)
       \<or> (\<exists>e. mget (byUID (ro_pool t)) (ro_sticky t) = Some e \<and> acct e = a \<and> ro_sticky t \<noteq> [])"
proof -
  obtain t0 x where st: "sticky_account s c n t = (t0, x)" by fastforce
  note sf = sticky_facts [OF assms(1) st]
  have all: "pool_inv (ro_pool t1) \<and> lease (ro_pool t1) = lease (ro_pool t)
    \<and> ro_held t1 = ro_held t \<and> ro_tried t1 = ro_tried t \<and> ro_log t1 = ro_log t \<and> ro_lastErr t1 = ro_lastErr t
    \<and> (sticky_ok t \<longrightarrow> r = Some a \<longrightarrow> UID a \<notin> ro_tried t \<and> ro_sticky t1 \<in> {[], UID a})
    \<and> (r = Some a \<longrightarrow> (cc_realm c = [] \<or> Realm (cs_global s) a = cc_realm c)
       \<or> (\<exists>e. mget (byUID (ro_pool t)) (ro_sticky t) = Some e \<and> acct e = a \<and> ro_sticky t \<noteq> []))" for a
  proof (cases x)
    case (Some b)
    then have "t1 = t0" "r = Some b" using assms(3) st by (simp_all add: choose_account_def)
    then show ?thesis using sf(1-6) sf(8) [OF Some] by (auto simp: sticky_ok_def)
  next
    case None
    obtain q y where pk: "PickExcludingForRealm (tn_chance n) (cs_global s) (tn_now n) (ro_tried t0) (cc_model c) (cc_realm c) (ro_pool t0) = (q, y)"
      by fastforce
    have "t1 = t0\<lparr>ro_pool := q\<rparr>" "r = y" using assms(3) st pk None by (simp_all add: choose_account_def)
    then show ?thesis using sf(1-6) sf(7) [OF None] pick_facts [OF sf(1) assms(2) pk] by auto
  qed
  then show "pool_inv (ro_pool t1)" "lease (ro_pool t1) = lease (ro_pool t)"
    "ro_held t1 = ro_held t" "ro_tried t1 = ro_tried t" "ro_log t1 = ro_log t" "ro_lastErr t1 = ro_lastErr t"
    "sticky_ok t \<Longrightarrow> r = Some a \<Longrightarrow> UID a \<notin> ro_tried t \<and> ro_sticky t1 \<in> {[], UID a}"
    "r = Some a \<Longrightarrow> (cc_realm c = [] \<or> Realm (cs_global s) a = cc_realm c)
       \<or> (\<exists>e. mget (byUID (ro_pool t)) (ro_sticky t) = Some e \<and> acct e = a \<and> ro_sticky t \<noteq> [])" by blast+
qed

lemma lease_nonneg: "pool_inv p \<Longrightarrow> lease p v = Some k \<Longrightarrow> 0 \<le> k"
  by (auto simp: lease_def pool_inv_def acct_inv_def)

text \<open>After a failure nothing is held, and the account that failed is not the sticky one.\<close>

definition left_account :: "rotation \<Rightarrow> string \<Rightarrow> rotation \<Rightarrow> bool" where
  "left_account t uid t1 \<longleftrightarrow> ro_held t1 = [] \<and> ro_sticky t1 = (if uid = ro_sticky t then [] else ro_sticky t)"

lemma left_fail: "ro_sticky t' = ro_sticky t \<Longrightarrow> left_account t uid (fail_account key uid t')"
  by (simp add: left_account_def)

lemma lease_account_facts:
  assumes "pool_inv (ro_pool t)" "ro_held t = []" "lease_account c a t = (t1, ok)"
  shows "pool_inv (ro_pool t1)" "ro_tried t1 = insert (UID a) (ro_tried t)" "ro_log t1 = ro_log t"
    "ok \<Longrightarrow> ro_sticky t1 = ro_sticky t"
    "\<not> ok \<Longrightarrow> left_account t (UID a) t1 \<and> lease (ro_pool t1) = lease (ro_pool t)"
    "lease (ro_pool t) [] = None \<Longrightarrow> leased (lease (ro_pool t)) t1"
proof -
  obtain q x where aq: "Acquire (UID a) (ro_pool t) = (q, x)" by fastforce
  note al = acquire_lease [OF aq]
  have inv: "pool_inv q" using acquire.keeps_pool_inv [OF assms(1), of "UID a"] aq by simp
  have ok: "ok = x" using assms(3) aq by (cases x) (simp_all add: lease_account_def Let_def)
  have "pool_inv (ro_pool t1) \<and> ro_tried t1 = insert (UID a) (ro_tried t) \<and> ro_log t1 = ro_log t
    \<and> (ok \<longrightarrow> ro_sticky t1 = ro_sticky t)
    \<and> (\<not> ok \<longrightarrow> left_account t (UID a) t1 \<and> lease (ro_pool t1) = lease (ro_pool t))"
    using assms aq inv al ok by (cases x) (auto simp: lease_account_def Let_def left_account_def split: if_splits)
  then show "pool_inv (ro_pool t1)" "ro_tried t1 = insert (UID a) (ro_tried t)" "ro_log t1 = ro_log t"
    "ok \<Longrightarrow> ro_sticky t1 = ro_sticky t"
    "\<not> ok \<Longrightarrow> left_account t (UID a) t1 \<and> lease (ro_pool t1) = lease (ro_pool t)" by blast+
  then show "leased (lease (ro_pool t)) t1" if none: "lease (ro_pool t) [] = None"
  proof (cases x)
    case True
    then obtain k where k: "lease (ro_pool t) (UID a) = Some k" "lease q = (lease (ro_pool t))(UID a \<mapsto> k + 1)" using al by auto
    have "UID a \<noteq> []" using k(1) none by auto
    moreover have "0 \<le> k" by (rule lease_nonneg [OF assms(1) k(1)])
    moreover have "t1 = t\<lparr>ro_tried := insert (UID a) (ro_tried t), ro_pool := q, ro_held := UID a\<rparr>"
      using assms(3) aq True by (simp add: lease_account_def Let_def)
    ultimately show ?thesis using k by (simp add: leased_def)
  next
    case False
    then show ?thesis using \<open>\<not> ok \<Longrightarrow> left_account t (UID a) t1 \<and> lease (ro_pool t1) = lease (ro_pool t)\<close> ok
      by (simp add: left_account_def leased_def)
  qed
qed

lemma refresh_UID: "UID (fst (BackfillRealm (case u of None \<Rightarrow> a | Some upd \<Rightarrow> apply_update upd a))) = UID a"
  by (cases u) (simp_all add: BackfillRealm_def apply_update_def Let_def)

lemma refresh_facts:
  assumes "pool_inv (ro_pool t)" "refresh_account s c n a t = (t1, r)"
  shows "pool_inv (ro_pool t1)" "ro_tried t1 = ro_tried t" "ro_log t1 = ro_log t"
    "r = Some b \<Longrightarrow> UID b = UID a \<and> ro_sticky t1 = ro_sticky t \<and> (b = a \<or> (\<exists>u. tn_refresh n a = Refreshed u
        \<and> b = fst (BackfillRealm (case u of None \<Rightarrow> a | Some upd \<Rightarrow> apply_update upd a))))"
    "r = None \<Longrightarrow> left_account t (UID a) t1"
    "leased L t \<Longrightarrow> leased L t1"
proof -
  have "pool_inv (ro_pool t1) \<and> ro_tried t1 = ro_tried t \<and> ro_log t1 = ro_log t \<and> (leased L t \<longrightarrow> leased L t1)
    \<and> (r = None \<longrightarrow> left_account t (UID a) t1)"
  proof (cases "NeedsRefresh (tn_now n) (cs_RefreshSkew s) (cs_epoch s) a")
    case False
    then show ?thesis using assms by (auto simp: refresh_account_def)
  next
    case True
    show ?thesis
    proof (cases "tn_refresh n a")
      case (Refreshed u)
      then show ?thesis using assms True refresh_UID [of a u]
        by (auto simp: refresh_account_def Let_def put_account_keeps elim: leased_same)
    next
      case (RefreshRefused kind msg)
      let ?t = "on_pool (if kind = ErrSessionDead then (\<lambda>p. fst (NoteSessionDead (UID a) p)) else NoteError (tn_now n) (UID a))
                     (t\<lparr>ro_lastErr := Some (FromUpstream kind msg)\<rparr>)"
      have "t1 = fail_account (cc_sessKey c) (UID a) ?t" "r = None" using assms(2) True RefreshRefused by (simp_all add: refresh_account_def Let_def)
      moreover have "pool_inv (ro_pool ?t)" using assms(1) by (simp add: method_invs)
      moreover have "leased L t \<Longrightarrow> leased L ?t" by (erule leased_same) simp_all
      moreover have "left_account t (UID a) (fail_account (cc_sessKey c) (UID a) ?t)" by (rule left_fail) simp
      ultimately show ?thesis using fail_leased [of L ?t "cc_sessKey c" "UID a"] by (simp add: leased_def [of L "fail_account k u x" for k u x])
    next
      case RefreshBroken
      let ?t = "on_pool (NoteError (tn_now n) (UID a)) (t\<lparr>ro_lastErr := Some FromElsewhere\<rparr>)"
      have "t1 = fail_account (cc_sessKey c) (UID a) ?t" "r = None" using assms(2) True RefreshBroken by (simp_all add: refresh_account_def Let_def)
      moreover have "pool_inv (ro_pool ?t)" using assms(1) by (simp add: method_invs)
      moreover have "leased L t \<Longrightarrow> leased L ?t" by (erule leased_same) simp_all
      moreover have "left_account t (UID a) (fail_account (cc_sessKey c) (UID a) ?t)" by (rule left_fail) simp
      ultimately show ?thesis using fail_leased [of L ?t "cc_sessKey c" "UID a"] by (simp add: leased_def [of L "fail_account k u x" for k u x])
    qed
  qed
  then show "pool_inv (ro_pool t1)" "ro_tried t1 = ro_tried t" "ro_log t1 = ro_log t" "leased L t \<Longrightarrow> leased L t1"
    "r = None \<Longrightarrow> left_account t (UID a) t1" by blast+
  show "UID b = UID a \<and> ro_sticky t1 = ro_sticky t \<and> (b = a \<or> (\<exists>u. tn_refresh n a = Refreshed u
        \<and> b = fst (BackfillRealm (case u of None \<Rightarrow> a | Some upd \<Rightarrow> apply_update upd a))))" if "r = Some b"
    using assms(2) that refresh_UID by (auto simp: refresh_account_def Let_def split: if_splits refresh_result.splits)
qed

text \<open>What an operation that ends a turn leaves behind.\<close>

definition kept :: "rotation \<Rightarrow> rotation \<Rightarrow> bool" where
  "kept t t1 \<longleftrightarrow> (pool_inv (ro_pool t) \<longrightarrow> pool_inv (ro_pool t1)) \<and> ro_tried t1 = ro_tried t \<and> ro_log t1 = ro_log t
     \<and> (\<forall>L. leased L t \<longrightarrow> leased L t1)"

lemma seats_kept_refl: "kept t t"
  by (simp add: kept_def)

lemma seats_kept_trans: "kept t t1 \<Longrightarrow> kept t1 t2 \<Longrightarrow> kept t t2"
  by (simp add: kept_def)

lemma kept_fail: "kept t (fail_account key uid t)"
  using fail_leased by (auto simp: kept_def leased_def [of _ "fail_account key uid t"])

lemma kept_pool:
  "(\<And>p. lease (f p) = lease p) \<Longrightarrow> (\<And>p. pool_inv p \<Longrightarrow> pool_inv (f p)) \<Longrightarrow> kept t (on_pool f t)"
  by (auto simp: kept_def intro: leased_same)

lemma kept_error: "kept t (t\<lparr>ro_lastErr := x\<rparr>)"
  by (auto simp: kept_def intro: leased_same)

lemma kept_policy: "kept t (on_pool (applyErrorPolicy now off d uid k raw m) t)"
  by (rule kept_pool) simp_all

lemma kept_served: "kept t (account_served c n a t)"
proof -
  have "kept t (on_pool (\<lambda>p. BlockModelClear (UID a) (cc_model c) (NoteSuccess (tn_later n) (UID a) p)) t)"
    by (rule kept_pool) (simp_all add: method_invs)
  then show ?thesis by (auto simp: account_served_def Let_def kept_def intro: leased_same)
qed

lemma kept_cost: "kept t (note_cost c n a cost t)"
  by (auto simp: note_cost_def seats_kept_refl method_invs intro!: kept_pool split: option.split)

lemma refused_facts:
  assumes "refused_by_vendor s c n a status raw t = (e, t1)"
  shows "kept t t1" "left_account t (UID a) t1" "e \<noteq> NoAccount"
    "e = Again \<Longrightarrow> Classify (cs_parse s) (cs_sprint s) status raw \<notin>
       {ErrChannelRejected, ErrUpstreamWAF, ErrContentBlocked, ErrContextTooLong, ErrBadParams, ErrClient}"
    "e = Finished d \<Longrightarrow> \<exists>code msg. d = ErrorReply 400 code msg"
proof -
  let ?blame = "on_pool (applyErrorPolicy (tn_later n) (cs_off s) (cs_SoftCooldown s) (UID a)
    (Classify (cs_parse s) (cs_sprint s) status raw) raw (cc_model c))"
  let ?err = "t\<lparr>ro_lastErr := Some (FromUpstream (Classify (cs_parse s) (cs_sprint s) status raw) raw)\<rparr>"
  have t1: "t1 \<in> fail_account (cc_sessKey c) (UID a) ` {t, ?blame t, ?err, ?blame ?err}"
    using assms by (auto simp: refused_by_vendor_def Let_def split: if_splits)
  have "kept t (?blame t)" "kept t ?err" "kept t (?blame ?err)"
    by (rule kept_policy kept_error seats_kept_trans [OF kept_error kept_policy])+
  then show "kept t t1" using t1 kept_fail seats_kept_trans by blast
  show "left_account t (UID a) t1" using t1 by (auto simp: left_account_def)
  show "e \<noteq> NoAccount" "e = Again \<Longrightarrow> Classify (cs_parse s) (cs_sprint s) status raw \<notin>
       {ErrChannelRejected, ErrUpstreamWAF, ErrContentBlocked, ErrContextTooLong, ErrBadParams, ErrClient}"
    "e = Finished d \<Longrightarrow> \<exists>code msg. d = ErrorReply 400 code msg"
    using assms by (auto simp: refused_by_vendor_def Let_def split: if_splits)
qed

lemma streamed_kept: "streamed c n a t = (e, t1) \<Longrightarrow> kept t t1"
  using seats_kept_trans [OF kept_served kept_cost]
  by (auto simp: streamed_def seats_kept_refl kept_fail split: option.splits if_splits)

lemma aggregated_kept: "aggregated c n a t = (e, t1) \<Longrightarrow> kept t t1"
  using seats_kept_trans [OF kept_served kept_cost]
  by (auto simp: aggregated_def seats_kept_refl kept_served Let_def split: sum.splits option.splits if_splits)

text \<open>The answers that make the request go to another account.\<close>

definition moves_on :: "chat_setup \<Rightarrow> chat_result \<Rightarrow> bool" where
  "moves_on s back \<longleftrightarrow>
     (case back of
        TransportError \<Rightarrow> True
      | Returned status raw \<Rightarrow> Classify (cs_parse s) (cs_sprint s) status raw \<notin>
          {ErrChannelRejected, ErrUpstreamWAF, ErrContentBlocked, ErrContextTooLong, ErrBadParams, ErrClient}
      | Streaming _ \<Rightarrow> False)"

text \<open>Ends that only an accepted request has.\<close>

fun served :: "chat_end \<Rightarrow> bool" where
  "served (ErrorReply status _ _) = (status = 422 \<or> status = 502)"
| "served ClientGone = False"
| "served _ = True"

lemma send_facts:
  assumes "fair_turn n" "send_request s c n a t = (e, t1)"
  shows "pool_inv (ro_pool t) \<Longrightarrow> pool_inv (ro_pool t1)" "ro_tried t1 = ro_tried t" "ro_log t1 = ro_log t @ [(a, tn_vendor n a)]"
    "balanced n \<Longrightarrow> leased L t \<Longrightarrow> leased L t1" "e \<noteq> NoAccount"
    "e = Again \<Longrightarrow> left_account t (UID a) t1 \<and> moves_on s (tn_vendor n a)"
    "e = Finished d \<Longrightarrow> served d \<Longrightarrow> \<exists>status. tn_vendor n a = Streaming status"
proof -
  let ?t = "on_pool (tn_others n) (t\<lparr>ro_log := ro_log t @ [(a, tn_vendor n a)]\<rparr>)"
  have start: "pool_inv (ro_pool t) \<Longrightarrow> pool_inv (ro_pool ?t)" "balanced n \<Longrightarrow> leased L t \<Longrightarrow> leased L ?t"
    using assms(1) by (auto simp: fair_turn_def balanced_def intro: leased_same)
  have "kept ?t t1 \<and> e \<noteq> NoAccount \<and> (e = Again \<longrightarrow> left_account ?t (UID a) t1 \<and> moves_on s (tn_vendor n a))
    \<and> (e = Finished d \<longrightarrow> served d \<longrightarrow> (\<exists>status. tn_vendor n a = Streaming status))"
  proof (cases "tn_vendor n a")
    case TransportError
    then have "e = Again" "t1 = fail_account (cc_sessKey c) (UID a) (?t\<lparr>ro_lastErr := Some FromElsewhere\<rparr>)"
      using assms(2) by (simp_all add: send_request_def Let_def)
    then show ?thesis using TransportError seats_kept_trans [OF kept_error kept_fail]
      by (simp add: moves_on_def left_account_def)
  next
    case (Returned status raw)
    then have r: "refused_by_vendor s c n a status raw ?t = (e, t1)" using assms(2) by (simp add: send_request_def Let_def)
    have "e = Finished d \<longrightarrow> \<not> served d" using refused_facts(5) [OF r] by fastforce
    then show ?thesis using refused_facts(1-4) [OF r] Returned by (auto simp: moves_on_def)
  next
    case (Streaming status)
    then have "\<exists>d'. e = Finished d' \<and> (if cc_stream c then streamed c n a ?t else aggregated c n a ?t) = (d', t1)"
      using assms(2) by (auto simp: send_request_def Let_def split: prod.splits)
    then show ?thesis using Streaming streamed_kept aggregated_kept by (auto split: if_splits)
  qed
  then show "pool_inv (ro_pool t) \<Longrightarrow> pool_inv (ro_pool t1)" "ro_tried t1 = ro_tried t" "ro_log t1 = ro_log t @ [(a, tn_vendor n a)]"
    "balanced n \<Longrightarrow> leased L t \<Longrightarrow> leased L t1" "e \<noteq> NoAccount"
    "e = Again \<Longrightarrow> left_account t (UID a) t1 \<and> moves_on s (tn_vendor n a)"
    "e = Finished d \<Longrightarrow> served d \<Longrightarrow> \<exists>status. tn_vendor n a = Streaming status"
    using start by (simp_all add: kept_def left_account_def)
qed

text \<open>A refresh brings credentials of the same realm; the sticky account is of the realm asked for.\<close>

definition steady_realm :: "chat_setup \<Rightarrow> turn \<Rightarrow> bool" where
  "steady_realm s n \<longleftrightarrow> (\<forall>a u. tn_refresh n a = Refreshed (Some u) \<longrightarrow> Realm (cs_global s) (apply_update u a) = Realm (cs_global s) a)"

definition sticky_right :: "chat_setup \<Rightarrow> chat_call \<Rightarrow> rotation \<Rightarrow> bool" where
  "sticky_right s c t \<longleftrightarrow> ro_sticky t = []
     \<or> (\<forall>e. mget (byUID (ro_pool t)) (ro_sticky t) = Some e \<longrightarrow> cc_realm c = [] \<or> Realm (cs_global s) (acct e) = cc_realm c)"

definition in_realm :: "chat_setup \<Rightarrow> chat_call \<Rightarrow> auth \<Rightarrow> bool" where
  "in_realm s c a \<longleftrightarrow> cc_realm c = [] \<or> Realm (cs_global s) a = cc_realm c"

text \<open>One turn: at most one request is sent, to an account that was not tried.\<close>

definition turn_ok :: "chat_setup \<Rightarrow> chat_call \<Rightarrow> turn \<Rightarrow> rotation \<Rightarrow> turn_end \<Rightarrow> rotation \<Rightarrow> bool" where
  "turn_ok s c n t e t1 \<longleftrightarrow>
     pool_inv (ro_pool t1) \<and> ro_tried t \<subseteq> ro_tried t1
     \<and> (e = Again \<longrightarrow> ro_held t1 = [] \<and> ro_sticky t1 = [])
     \<and> (balanced n \<longrightarrow> lease (ro_pool t) [] = None \<longrightarrow> leased (lease (ro_pool t)) t1)
     \<and> (ro_log t1 = ro_log t \<and> (\<forall>d. e = Finished d \<longrightarrow> \<not> served d)
        \<or> (\<exists>a. ro_log t1 = ro_log t @ [(a, tn_vendor n a)] \<and> UID a \<in> ro_tried t1 - ro_tried t
             \<and> (e = Again \<longrightarrow> moves_on s (tn_vendor n a))
             \<and> (\<forall>d. e = Finished d \<longrightarrow> served d \<longrightarrow> (\<exists>status. tn_vendor n a = Streaming status))
             \<and> (steady_realm s n \<longrightarrow> sticky_right s c t \<longrightarrow> in_realm s c a)))"

lemma turn_facts:
  assumes "pool_inv (ro_pool t)" "fair_turn n" "ro_held t = []" "sticky_ok t" "take_turn s c n t = (e, t1)"
  shows "turn_ok s c n t e t1"
proof (cases "tn_cancelled n")
  case True
  then have "e = Finished ClientGone" "t1 = t" using assms(5) by (simp_all add: take_turn_def)
  then show ?thesis using assms(1,3) by (simp add: turn_ok_def leased_def)
next
  case running: False
  obtain u r where ch: "choose_account s c n t = (u, r)" by fastforce
  note cf = choose_facts [OF assms(1,2) ch]
  show ?thesis
  proof (cases r)
    case None
    then have "e = NoAccount" "t1 = u" using assms(5) running ch by (simp_all add: take_turn_def)
    then show ?thesis using cf(1-5) assms(3) by (simp add: turn_ok_def leased_def)
  next
    case (Some a)
    note ca = cf(7) [OF assms(4) Some] and cr = cf(8) [OF Some]
    obtain v ok where la: "lease_account c a u = (v, ok)" by fastforce
    have held: "ro_held u = []" using cf(3) assms(3) by simp
    note lf = lease_account_facts [OF cf(1) held la]
    have lease: "lease (ro_pool t) [] = None \<Longrightarrow> leased (lease (ro_pool t)) v" using lf(6) cf(2) by simp
    show ?thesis
    proof (cases ok)
      case False
      then have "e = Again" "t1 = v" using assms(5) running ch Some la by (simp_all add: take_turn_def)
      then show ?thesis using lf(1-3) lf(5) [OF False] lease cf(4,5) ca by (auto simp: turn_ok_def left_account_def)
    next
      case True
      obtain w x where ra: "refresh_account s c n a v = (w, x)" by fastforce
      note rf = refresh_facts [OF lf(1) ra]
      have st: "ro_sticky v \<in> {[], UID a}" using ca lf(4) [OF True] by simp
      show ?thesis
      proof (cases x)
        case None
        then have "e = Again" "t1 = w" using assms(5) running ch Some la True ra by (simp_all add: take_turn_def)
        then show ?thesis using rf(1-3) rf(5) [OF None] rf(6) lf(2,3) lease cf(4,5) st
          by (auto simp: turn_ok_def left_account_def)
      next
        case (Some b)
        note b = rf(4) [OF Some]
        have send: "send_request s c n b w = (e, t1)" using assms(5) running ch \<open>r = Some a\<close> la True ra Some by (simp add: take_turn_def)
        note sf = send_facts [OF assms(2) send]
        have realm: "in_realm s c b" if steady: "steady_realm s n" and right: "sticky_right s c t"
        proof -
          have "in_realm s c a" using cr right by (auto simp: in_realm_def sticky_right_def)
          moreover have "Realm (cs_global s) b = Realm (cs_global s) a"
            using b steady BackfillRealm_keeps_Realm by (auto simp: steady_realm_def split: option.splits)
          ultimately show ?thesis by (simp add: in_realm_def)
        qed
        have "e = Again \<longrightarrow> ro_held t1 = [] \<and> ro_sticky t1 = [] \<and> moves_on s (tn_vendor n b)"
          using sf(6) st b by (auto simp: left_account_def)
        then show ?thesis using sf(1-4,7) rf(1-3) rf(6) lf(2,3) lease cf(4,5) ca b realm
          by (auto simp: turn_ok_def)
      qed
    qed
  qed
qed

end
