(* ===== verification/ChatLoopProps.thy ===== *)
theory ChatLoopProps
  imports ChatLoopFacts SessionProps
begin

text \<open>What a chat request may do to the pool, and what its client may rely on, over the whole rotation.\<close>

subsection \<open>All turns together\<close>

definition sent_to :: "rotation \<Rightarrow> string list" where
  "sent_to t = map (\<lambda>(a, back). UID a) (ro_log t)"

definition fresh :: "rotation \<Rightarrow> bool" where
  "fresh t \<longleftrightarrow> ro_held t = [] \<and> sticky_ok t \<and> distinct (sent_to t) \<and> set (sent_to t) \<subseteq> ro_tried t"

definition run_ok :: "chat_setup \<Rightarrow> chat_call \<Rightarrow> turn list \<Rightarrow> rotation \<Rightarrow> chat_end \<Rightarrow> rotation \<Rightarrow> bool" where
  "run_ok s c ns t e t1 \<longleftrightarrow>
     distinct (sent_to t1)
     \<and> (list_all balanced ns \<longrightarrow> lease (ro_pool t) [] = None \<longrightarrow> leased (lease (ro_pool t)) t1)
     \<and> (\<exists>new. ro_log t1 = ro_log t @ new \<and> length new \<le> length ns
          \<and> list_all (\<lambda>(a, back). moves_on s back) (butlast new)
          \<and> (served e \<longrightarrow> new \<noteq> [] \<and> (\<exists>status. snd (last new) = Streaming status))
          \<and> (list_all (steady_realm s) ns \<longrightarrow> sticky_right s c t \<longrightarrow> list_all (\<lambda>(a, back). in_realm s c a) new))"

lemma not_served_exhausted: "\<not> served (exhausted err)"
  by (auto simp: exhausted_def Let_def split: option.split last_error.split)

lemma leased_lease: "ro_held t = [] \<Longrightarrow> leased L t \<longleftrightarrow> lease (ro_pool t) = L"
  by (simp add: leased_def)

text \<open>The request a turn sends, if it sends one.\<close>

definition one_sent :: "chat_setup \<Rightarrow> chat_call \<Rightarrow> turn \<Rightarrow> rotation \<Rightarrow> turn_end \<Rightarrow> rotation \<Rightarrow> (auth \<times> chat_result) list \<Rightarrow> bool" where
  "one_sent s c n t e t1 new \<longleftrightarrow> ro_log t1 = ro_log t @ new \<and> length new \<le> 1
     \<and> list_all (\<lambda>(a, back). UID a \<in> ro_tried t1 - ro_tried t) new
     \<and> (e = Again \<longrightarrow> list_all (\<lambda>(a, back). moves_on s back) new)
     \<and> (\<forall>d. e = Finished d \<longrightarrow> served d \<longrightarrow> new \<noteq> [] \<and> (\<exists>status. snd (last new) = Streaming status))
     \<and> (steady_realm s n \<longrightarrow> sticky_right s c t \<longrightarrow> list_all (\<lambda>(a, back). in_realm s c a) new)"

lemma turn_sent:
  assumes "turn_ok s c n t e t1"
  obtains new where "one_sent s c n t e t1 new"
proof -
  from assms consider (quiet) "ro_log t1 = ro_log t" "\<forall>d. e = Finished d \<longrightarrow> \<not> served d"
    | (sent) a where "ro_log t1 = ro_log t @ [(a, tn_vendor n a)]" "UID a \<in> ro_tried t1 - ro_tried t"
        "e = Again \<longrightarrow> moves_on s (tn_vendor n a)"
        "\<forall>d. e = Finished d \<longrightarrow> served d \<longrightarrow> (\<exists>status. tn_vendor n a = Streaming status)"
        "steady_realm s n \<longrightarrow> sticky_right s c t \<longrightarrow> in_realm s c a"
    unfolding turn_ok_def by blast
  then show thesis
  proof cases
    case quiet
    then show ?thesis using that [of "[]"] by (simp add: one_sent_def)
  next
    case (sent a)
    then show ?thesis using that [of "[(a, tn_vendor n a)]"] by (simp add: one_sent_def)
  qed
qed

lemma sent_fresh:
  assumes "one_sent s c n t e t1 new" "ro_tried t \<subseteq> ro_tried t1" "fresh t"
  shows "distinct (sent_to t1)" "set (sent_to t1) \<subseteq> ro_tried t1"
proof -
  have "sent_to t1 = sent_to t @ map (\<lambda>(a, back). UID a) new" using assms(1) by (simp add: one_sent_def sent_to_def)
  moreover have "set (map (\<lambda>(a, back). UID a) new) \<subseteq> ro_tried t1 - ro_tried t" "distinct (map (\<lambda>(a, back). UID a) new)"
    using assms(1) by (auto simp: one_sent_def list_all_iff le_Suc_eq length_Suc_conv)
  ultimately show "distinct (sent_to t1)" "set (sent_to t1) \<subseteq> ro_tried t1" using assms(2,3) by (auto simp: fresh_def)
qed

lemma run_step:
  assumes "one_sent s c n t Again u new1" "turn_ok s c n t Again u" "ro_held t = []" "run_ok s c ns u e t1"
  shows "run_ok s c (n # ns) t e t1"
proof -
  obtain new2 where new2: "ro_log t1 = ro_log u @ new2" "length new2 \<le> length ns" "list_all (\<lambda>(a, back). moves_on s back) (butlast new2)"
    "served e \<longrightarrow> new2 \<noteq> [] \<and> (\<exists>status. snd (last new2) = Streaming status)"
    "list_all (steady_realm s) ns \<longrightarrow> sticky_right s c u \<longrightarrow> list_all (\<lambda>(a, back). in_realm s c a) new2"
    using assms(4) unfolding run_ok_def by blast
  have right: "sticky_right s c u" using assms(2) by (simp add: turn_ok_def sticky_right_def)
  have lease: "lease (ro_pool u) = lease (ro_pool t)" if "balanced n" "lease (ro_pool t) [] = None"
    using assms(2) that by (auto simp: turn_ok_def leased_lease)
  have on: "list_all (\<lambda>(a, back). moves_on s back) (butlast (new1 @ new2))"
    using assms(1) new2(3) by (auto simp: one_sent_def butlast_append list_all_iff dest: in_set_butlastD)
  have "ro_log t1 = ro_log t @ (new1 @ new2)" "length (new1 @ new2) \<le> length (n # ns)"
    "served e \<longrightarrow> new1 @ new2 \<noteq> [] \<and> (\<exists>status. snd (last (new1 @ new2)) = Streaming status)"
    "list_all (steady_realm s) (n # ns) \<longrightarrow> sticky_right s c t \<longrightarrow> list_all (\<lambda>(a, back). in_realm s c a) (new1 @ new2)"
    using assms(1) new2 right by (auto simp: one_sent_def)
  moreover have "distinct (sent_to t1)" using assms(4) by (simp add: run_ok_def)
  moreover have "list_all balanced (n # ns) \<longrightarrow> lease (ro_pool t) [] = None \<longrightarrow> leased (lease (ro_pool t)) t1"
    using assms(4) lease unfolding run_ok_def by auto
  ultimately show ?thesis unfolding run_ok_def using on by blast
qed

lemma run_last:
  assumes "one_sent s c n t x u new" "turn_ok s c n t x u" "fresh t" "served e \<longrightarrow> x = Finished e"
  shows "run_ok s c (n # ns) t e u"
proof -
  have "distinct (sent_to u)" using sent_fresh(1) [OF assms(1) _ assms(3)] assms(2) by (simp add: turn_ok_def)
  moreover have "list_all (\<lambda>(a, back). moves_on s back) (butlast new)"
    using assms(1) by (auto simp: one_sent_def le_Suc_eq length_Suc_conv)
  moreover have "length new \<le> length (n # ns)" using assms(1) by (simp add: one_sent_def)
  moreover have "served e \<longrightarrow> new \<noteq> [] \<and> (\<exists>status. snd (last new) = Streaming status)"
    using assms(1,4) by (simp add: one_sent_def)
  ultimately show ?thesis using assms(1,2) unfolding run_ok_def one_sent_def turn_ok_def by auto
qed

lemma rotate_facts:
  assumes "pool_inv (ro_pool t)" "list_all fair_turn ns" "fresh t" "rotate s c ns t = (e, t1)"
  shows "run_ok s c ns t e t1"
  using assms
proof (induction ns arbitrary: t)
  case Nil
  then show ?case by (auto simp: run_ok_def fresh_def leased_def not_served_exhausted)
next
  case (Cons n ns)
  obtain x u where turn: "take_turn s c n t = (x, u)" by fastforce
  have ok: "turn_ok s c n t x u" using turn_facts [OF Cons.prems(1) _ _ _ turn] Cons.prems(2,3) by (simp add: fresh_def)
  obtain new where new: "one_sent s c n t x u new" using turn_sent [OF ok] .
  show ?case
  proof (cases x)
    case Again
    have "fresh u" using ok Again sent_fresh [OF new _ Cons.prems(3)] by (simp add: fresh_def turn_ok_def sticky_ok_def)
    moreover have "rotate s c ns u = (e, t1)" using Cons.prems(4) turn Again by simp
    ultimately have "run_ok s c ns u e t1" using Cons.IH [of u] ok Cons.prems(2) by (simp add: turn_ok_def)
    then show ?thesis using run_step [of s c n t u new ns e t1] new ok Again Cons.prems(3) by (simp add: fresh_def)
  next
    case NoAccount
    then have "e = exhausted (ro_lastErr u)" "t1 = u" using Cons.prems(4) turn by auto
    then show ?thesis using run_last [OF new ok Cons.prems(3), of e] not_served_exhausted by simp
  next
    case (Finished d)
    then have "e = d" "t1 = u" using Cons.prems(4) turn by simp_all
    then show ?thesis using run_last [OF new ok Cons.prems(3), of e] Finished by simp
  qed
qed

lemma serve_facts:
  assumes "pool_inv p" "list_all fair_turn turns" "serve_chat s c turns p r sticky = (e, t)"
  shows "run_ok s c turns (start_rotation p r sticky) e (snd (rotate s c turns (start_rotation p r sticky)))"
    "t = releaseHeld (snd (rotate s c turns (start_rotation p r sticky)))" "e = fst (rotate s c turns (start_rotation p r sticky))"
proof -
  have "fresh (start_rotation p r sticky)" "pool_inv (ro_pool (start_rotation p r sticky))"
    using assms(1) by (simp_all add: fresh_def start_rotation_def sticky_ok_def sent_to_def)
  then show "run_ok s c turns (start_rotation p r sticky) e (snd (rotate s c turns (start_rotation p r sticky)))"
    using rotate_facts assms(2,3) by (auto simp: serve_chat_def apsnd_def map_prod_def split: prod.splits)
  show "t = releaseHeld (snd (rotate s c turns (start_rotation p r sticky)))" "e = fst (rotate s c turns (start_rotation p r sticky))"
    using assms(3) by (auto simp: serve_chat_def apsnd_def map_prod_def split: prod.splits)
qed

text \<open>
  C2: A chat request sends at most one request per turn of the loop, and never two of them to the same
  account, whatever the accounts answer and whatever other requests do to the pool meanwhile.
\<close>

theorem accounts_tried_once:
  assumes "pool_inv p" "list_all fair_turn turns"
  shows "let t = snd (serve_chat s c turns p r sticky) in distinct (sent_to t) \<and> length (sent_to t) \<le> length turns"
proof -
  obtain e t where run: "serve_chat s c turns p r sticky = (e, t)" by fastforce
  note facts = serve_facts [OF assms run]
  have "distinct (sent_to t)" "\<exists>new. ro_log t = [] @ new \<and> length new \<le> length turns"
    using facts(1,2) by (auto simp: run_ok_def sent_to_def start_rotation_def)
  then show ?thesis using run by (auto simp: sent_to_def)
qed

text \<open>
  C1: On every way out of the handler - an answer, an error, a broken stream, a client that left, no
  account - the slots of all accounts are what they were before: the request gave back every slot it
  took, as long as the other requests give back theirs.
\<close>

theorem slots_given_back:
  assumes "pool_inv p" "list_all fair_turn turns" "list_all balanced turns" "mget (byUID p) [] = None"
  shows "lease (ro_pool (snd (serve_chat s c turns p r sticky))) = lease p"
proof -
  obtain e t where run: "serve_chat s c turns p r sticky = (e, t)" by fastforce
  note facts = serve_facts [OF assms(1,2) run]
  have "leased (lease p) (snd (rotate s c turns (start_rotation p r sticky)))"
    using facts(1) assms(3,4) by (auto simp: run_ok_def start_rotation_def lease_def)
  then show ?thesis using run facts(2) release_leased by simp
qed

text \<open>
  C3: A request leaves an account for the next one only when the account could not be reached or its
  answer does not blame the request; a client is told of an answer - whole, broken or refused by the
  checks - only when the last account accepted the request, and no account was asked after that one.
\<close>

theorem moves_on_only_for_the_account:
  assumes "pool_inv p" "list_all fair_turn turns" "serve_chat s c turns p r sticky = (e, t)"
  shows "list_all (\<lambda>(a, back). moves_on s back) (butlast (ro_log t))
    \<and> (served e \<longrightarrow> (\<exists>a status. ro_log t \<noteq> [] \<and> last (ro_log t) = (a, Streaming status)))"
proof -
  note facts = serve_facts [OF assms]
  have "\<exists>new. ro_log t = new \<and> list_all (\<lambda>(a, back). moves_on s back) (butlast new)
    \<and> (served e \<longrightarrow> new \<noteq> [] \<and> (\<exists>status. snd (last new) = Streaming status))"
    using facts(1,2) by (auto simp: run_ok_def start_rotation_def)
  then show ?thesis by (metis prod.collapse)
qed

subsection \<open>The sticky account and the realm\<close>

text \<open>The sticky account as the handler gets it: from the router, over the accounts the pool offers for the full model name.\<close>

lemma resolved_available:
  assumes "ResolveForModel now key av av r = (r', Some uid)" "length av < 2 ^ 32"
  shows "uid \<in> set av"
proof (cases "lookup_bound now key av r")
  case None
  obtain r2 where run: "assign now key av r2 = (r', Some uid)"
    using assms(1) unfolding resolve_assigns [OF None] by (auto split: if_splits)
  have "snd (assign now key av r2) \<noteq> None" using run by simp
  then have "av \<noteq> []" by (simp only: assign_None simp_thms)
  from assign_SomeD [OF this assms(2) run] show ?thesis by auto
next
  case (Some u)
  then show ?thesis using assms(1) lookup_boundD [OF Some] by (auto simp: ResolveForModel_def)
qed

lemma available_realm:
  assumes "pool_wf p" "uid \<in> set (AvailableUIDsForModelRealm g now model rlm p)" "mget (byUID p) uid = Some e"
  shows "rlm = [] \<or> Realm g (acct e) = rlm"
proof -
  obtain e' where e': "(uid, e') \<in> set (byUID p)" "rlm = [] \<or> Realm g (acct e') = rlm"
    using assms(2) by (auto simp: AvailableUIDsForModelRealm_def availableUIDsLocked_def)
  have "mget (byUID p) uid = Some e'" using wf_mget_iff [OF pool_wfD(1) [OF assms(1)]] e'(1) by blast
  then show ?thesis using assms(3) e'(2) by simp
qed

text \<open>
  C4: A request for a model of one realm, given an account by the conversation router and then the
  pool, is sent to accounts of that realm only - provided a refresh of credentials leaves the account
  in its realm.
\<close>

theorem request_stays_in_realm:
  assumes "pool_inv p" "list_all fair_turn turns" "list_all (steady_realm s) turns"
    and "resolveModel model = (cc_realm c, cc_model c)"
    and "length (realmAwareAvailableForModel (cs_global s) now p model) < 2 ^ 32"
    and "ResolveForModel now (cc_sessKey c) (realmAwareAvailableForModel (cs_global s) now p model)
        (realmAwareAvailableForModel (cs_global s) now p model) r = (r', sticky)"
  shows "list_all (\<lambda>(a, back). Realm (cs_global s) a = cc_realm c)
    (ro_log (snd (serve_chat s c turns p (Some r') (case sticky of None \<Rightarrow> [] | Some uid \<Rightarrow> uid))))"
proof -
  let ?sticky = "case sticky of None \<Rightarrow> [] | Some uid \<Rightarrow> uid"
  obtain e t where run: "serve_chat s c turns p (Some r') ?sticky = (e, t)" by fastforce
  note facts = serve_facts [OF assms(1,2) run]
  have named: "cc_realm c \<noteq> []" using assms(4) by (auto simp: resolveModel_def split: option.splits if_splits)
  have "sticky_right s c (start_rotation p (Some r') ?sticky)"
  proof (cases sticky)
    case (Some uid)
    then have "uid \<in> set (AvailableUIDsForModelRealm (cs_global s) now (cc_model c) (cc_realm c) p)"
      using resolved_available assms(4,5,6) by (simp add: realmAwareAvailableForModel_def)
    then show ?thesis using available_realm [OF pool_inv_wf [OF assms(1)]] Some
      by (auto simp: sticky_right_def start_rotation_def)
  qed (simp add: sticky_right_def start_rotation_def)
  then have "list_all (\<lambda>(a, back). in_realm s c a) (ro_log t)"
    using facts(1,2) assms(3) by (auto simp: run_ok_def start_rotation_def)
  then show ?thesis using run named by (simp add: in_realm_def)
qed

text \<open>
  The guard of the loop itself does not hold the realm: it drops the binding of a sticky account of
  another realm and then uses that account all the same.
\<close>

lemma wrong_realm_sticky_used:
  assumes "ro_sticky t \<noteq> []" "PickByUIDForModel (tn_now n) (ro_sticky t) (cc_model c) (ro_pool t) = (p, Some a)"
    and "cc_realm c \<noteq> []" "Realm (cs_global s) a \<noteq> cc_realm c"
  shows "snd (choose_account s c n t) = Some a" "ro_sticky (fst (choose_account s c n t)) = []"
  using assms by (simp_all add: choose_account_def sticky_account_def)

subsection \<open>The conversation follows the account\<close>

fun delivered :: "chat_end \<Rightarrow> bool" where
  "delivered StreamEnded = True"
| "delivered (AnswerSent _) = True"
| "delivered AnswerLost = True"
| "delivered _ = False"

definition routed :: "rotation \<Rightarrow> bool" where
  "routed t \<longleftrightarrow> ro_router t \<noteq> None"

lemma routed_simps [simp]:
  "routed (unbindSticky key t) = routed t" "routed (releaseHeld t) = routed t" "routed (fail_account key uid t) = routed t"
  "routed (on_pool f t) = routed t" "routed (account_served c n a t) = routed t" "routed (note_cost c n a cost t) = routed t"
  "routed (t\<lparr>ro_pool := p\<rparr>) = routed t" "routed (t\<lparr>ro_lastErr := x\<rparr>) = routed t" "routed (t\<lparr>ro_log := l\<rparr>) = routed t"
  "routed (t\<lparr>ro_tried := ts\<rparr>) = routed t" "routed (t\<lparr>ro_held := h\<rparr>) = routed t"
  by (auto simp: routed_def unbindSticky_def fail_account_def account_served_def note_cost_def Let_def split: option.split)

lemma sticky_routed: "routed (fst (sticky_account s c n t)) = routed t"
  by (simp add: sticky_account_def Let_def split: prod.split option.split)

lemma choose_routed: "choose_account s c n t = (t1, r) \<Longrightarrow> routed t1 = routed t"
  using sticky_routed [of s c n t] by (auto simp: choose_account_def split: prod.splits option.splits)

lemma lease_routed: "lease_account c a t = (t1, ok) \<Longrightarrow> routed t1 = routed t"
  by (auto simp: lease_account_def Let_def split: prod.splits bool.splits if_splits)

lemma refresh_routed: "refresh_account s c n a t = (t1, r) \<Longrightarrow> routed t1 = routed t"
  by (auto simp: refresh_account_def Let_def split: if_splits refresh_result.splits)

lemma refused_routed: "refused_by_vendor s c n a status raw t = (e, t1) \<Longrightarrow> routed t1 = routed t"
  by (auto simp: refused_by_vendor_def Let_def split: if_splits)

lemma answer_routed: "streamed c n a t = (e, t1) \<Longrightarrow> routed t1 = routed t" "aggregated c n a t = (e, t1) \<Longrightarrow> routed t1 = routed t"
  by (auto simp: streamed_def aggregated_def Let_def split: option.splits sum.splits if_splits)

lemma send_routed: "send_request s c n a t = (e, t1) \<Longrightarrow> routed t1 = routed t"
  by (cases "tn_vendor n a")
    (auto simp: send_request_def Let_def dest: refused_routed answer_routed split: prod.splits if_splits)

lemma turn_routed: "take_turn s c n t = (e, t1) \<Longrightarrow> routed t1 = routed t"
  by (auto simp: take_turn_def dest!: choose_routed lease_routed refresh_routed send_routed
      split: if_splits prod.splits option.splits bool.splits)

text \<open>A delivered answer ends its turn with the account bound to the conversation.\<close>

definition bound_to :: "string \<Rightarrow> auth \<Rightarrow> rotation \<Rightarrow> bool" where
  "bound_to key a t \<longleftrightarrow> (\<forall>r. ro_router t = Some r \<longrightarrow> UID a = [] \<or> (\<exists>b. mget (entries r) key = Some b \<and> b_uid b = UID a))"

lemma served_bound: "cc_sessKey c \<noteq> [] \<Longrightarrow> bound_to (cc_sessKey c) a (account_served c n a t)"
proof -
  assume key: "cc_sessKey c \<noteq> []"
  have "UID a = [] \<or> (\<exists>b. mget (entries (Bind i (cc_sessKey c) (UID a) r)) (cc_sessKey c) = Some b \<and> b_uid b = UID a)" for i r
    using key by (simp add: Bind_def touch_def emit_def put_binding_def)
  then show ?thesis using key by (auto simp: bound_to_def account_served_def Let_def)
qed

lemma cost_bound: "bound_to key a (note_cost c n b cost t) = bound_to key a t"
  by (simp add: bound_to_def note_cost_def split: option.split)

lemma send_bound:
  assumes "send_request s c n a t = (Finished e, t1)" "delivered e" "cc_sessKey c \<noteq> []"
  shows "\<exists>status. ro_log t1 = ro_log t @ [(a, Streaming status)]" "bound_to (cc_sessKey c) a t1"
proof -
  let ?t = "on_pool (tn_others n) (t\<lparr>ro_log := ro_log t @ [(a, tn_vendor n a)]\<rparr>)"
  obtain status where st: "tn_vendor n a = Streaming status"
    using assms(1,2) refused_facts(5) by (cases "tn_vendor n a") (fastforce simp: send_request_def Let_def)+
  then have "(if cc_stream c then streamed c n a ?t else aggregated c n a ?t) = (e, t1)"
    using assms(1) by (auto simp: send_request_def Let_def split: prod.splits)
  then have "\<exists>cost. t1 = note_cost c n a cost (account_served c n a ?t) \<or> t1 = account_served c n a ?t"
    using assms(2) by (auto simp: streamed_def aggregated_def Let_def split: option.splits sum.splits if_splits)
  moreover have "ro_log (note_cost c n a cost u) = ro_log u" "ro_log (account_served c n a u) = ro_log u" for cost u
    by (simp_all add: note_cost_def account_served_def Let_def split: option.split)
  ultimately show "\<exists>status. ro_log t1 = ro_log t @ [(a, Streaming status)]" "bound_to (cc_sessKey c) a t1"
    using st served_bound [OF assms(3)] cost_bound by auto
qed

lemma turn_bound:
  assumes "take_turn s c n t = (Finished e, t1)" "delivered e" "cc_sessKey c \<noteq> []"
  shows "\<exists>a status. ro_log t1 \<noteq> [] \<and> last (ro_log t1) = (a, Streaming status) \<and> bound_to (cc_sessKey c) a t1"
proof -
  obtain a u where "send_request s c n a u = (Finished e, t1)"
    using assms(1,2) by (auto simp: take_turn_def split: if_splits prod.splits option.splits bool.splits)
  from send_bound [OF this assms(2,3)] show ?thesis by auto
qed

lemma rotate_bound:
  assumes "rotate s c ns t = (e, t1)" "delivered e" "cc_sessKey c \<noteq> []"
  shows "(\<exists>a status. ro_log t1 \<noteq> [] \<and> last (ro_log t1) = (a, Streaming status) \<and> bound_to (cc_sessKey c) a t1)
    \<and> routed t1 = routed t"
  using assms(1)
proof (induction ns arbitrary: t)
  case Nil
  have "\<not> delivered (exhausted err)" for err by (simp add: exhausted_def Let_def split: option.split last_error.split)
  then show ?case using Nil assms(2) by auto
next
  case (Cons n ns)
  have no: "\<not> delivered (exhausted err)" for err by (simp add: exhausted_def Let_def split: option.split last_error.split)
  obtain x u where turn: "take_turn s c n t = (x, u)" by fastforce
  show ?case
  proof (cases x)
    case Again
    then show ?thesis using Cons.IH [of u] Cons.prems turn turn_routed [OF turn] by simp
  next
    case NoAccount
    then have "e = exhausted (ro_lastErr u)" using Cons.prems turn by auto
    then show ?thesis using no assms(2) by blast
  next
    case (Finished d)
    then have "d = e" "u = t1" using Cons.prems turn by simp_all
    then show ?thesis using turn_bound [OF _ assms(2,3), of s n t t1] turn Finished turn_routed [OF turn] by simp
  qed
qed

text \<open>
  C5: After an answer was delivered, the conversation is bound to the account that gave it, whatever
  account it was bound to before and however many accounts were tried.
\<close>

theorem answer_binds_conversation:
  assumes "serve_chat s c turns p (Some r) sticky = (e, t)" "delivered e" "cc_sessKey c \<noteq> []"
  shows "\<exists>a status r'. ro_log t \<noteq> [] \<and> last (ro_log t) = (a, Streaming status) \<and> ro_router t = Some r'
     \<and> (UID a = [] \<or> (\<exists>b. mget (entries r') (cc_sessKey c) = Some b \<and> b_uid b = UID a))"
proof -
  obtain t0 where run: "rotate s c turns (start_rotation p (Some r) sticky) = (e, t0)" and t: "t = releaseHeld t0"
    using assms(1) by (auto simp: serve_chat_def apsnd_def map_prod_def split: prod.splits)
  from rotate_bound [OF run assms(2,3)] obtain a status where "ro_log t0 \<noteq> []" "last (ro_log t0) = (a, Streaming status)"
    "bound_to (cc_sessKey c) a t0" "routed t0" by (auto simp: routed_def start_rotation_def)
  then show ?thesis by (auto simp: t bound_to_def routed_def)
qed

subsection \<open>A request that is served\<close>

definition desk_account :: "string \<Rightarrow> auth" where
  "desk_account uid = empty_auth\<lparr>UID := uid, AccessToken := ''token'', ExpiresAt := 4000000000\<rparr>"

definition desk_pool :: pool where
  "desk_pool = (New_pool [])\<lparr>byUID := [(''u'', new_entry (desk_account ''u'')), (''v'', new_entry (desk_account ''v''))]\<rparr>"

definition desk_setup :: chat_setup where
  "desk_setup = \<lparr>cs_global = True, cs_off = 0, cs_epoch = 0, cs_SoftCooldown = 600 * second, cs_RefreshSkew = 600 * second,
     cs_APIKey = [], cs_parse = (\<lambda>_. None), cs_sprint = (\<lambda>_. [])\<rparr>"

definition desk_call :: chat_call where
  "desk_call = \<lparr>cc_model = ''glm'', cc_realm = ''cn'', cc_stream = True, cc_sessKey = ''talk'', cc_bearer = []\<rparr>"

definition desk_turn :: turn where
  "desk_turn = \<lparr>tn_cancelled = False, tn_now = 10, tn_later = 20,
     tn_chance = \<lparr>c_sha = id, c_zero = [], c_rnd = (\<lambda>_. 0), c_shuf = id\<rparr>, tn_others = id, tn_refresh = (\<lambda>_. RefreshBroken),
     tn_vendor = (\<lambda>_. Streaming 200), tn_gone = False, tn_streamErr = None, tn_cost = None,
     tn_aggregate = Inl (plain_error [] []), tn_checked = (\<lambda>_. None), tn_prepare = id, tn_written = True\<rparr>"

lemma desk_inv: "pool_inv desk_pool"
  by (simp add: pool_inv_def pool_wf_def desk_pool_def desk_account_def acct_inv_def new_entry_def New_pool_def
      defaultBreakerThreshold_def sessionDeadThreshold_def)

lemma desk_fair: "list_all fair_turn [desk_turn, desk_turn]" "list_all balanced [desk_turn, desk_turn]"
    "list_all (steady_realm desk_setup) [desk_turn, desk_turn]"
  by (simp_all add: fair_turn_def balanced_def steady_realm_def desk_turn_def)

lemma desk_seat: "mget (byUID desk_pool) ''u'' = Some (new_entry (desk_account ''u''))"
  by (simp add: desk_pool_def)

lemma desk_healthy: "healthyForModel (new_entry a) now m"
  by (simp add: healthyForModel_iff healthy_iff modelCooled_def new_entry_def in_force_def is_zero_def zero_time_def)

lemma desk_realm: "Realm True (desk_account uid) = ''cn''"
proof -
  have "\<not> is_global_domain []" by code_simp
  then show ?thesis by (simp add: Realm_def desk_account_def empty_auth_def)
qed

lemma desk_chosen:
  "choose_account desk_setup desk_call desk_turn (start_rotation desk_pool r ''u'')
    = (start_rotation (mark_used 10 (''u'', new_entry (desk_account ''u'')) desk_pool) r ''u'', Some (desk_account ''u''))"
proof -
  have "\<not> inFlightFull desk_pool (new_entry (desk_account ''u''))"
    by (simp add: inFlightFull_def new_entry_def desk_pool_def New_pool_def)
  moreover have "acct (new_entry a) = a" for a by (simp add: new_entry_def)
  ultimately show ?thesis
    by (simp add: choose_account_def sticky_account_def start_rotation_def PickByUIDForModel_def desk_seat desk_healthy
        desk_turn_def desk_call_def desk_setup_def desk_realm)
qed

lemma desk_served: "fst (serve_chat desk_setup desk_call [desk_turn, desk_turn] desk_pool (Some (New_router 0)) ''u'') = StreamEnded"
proof -
  let ?p = "mark_used 10 (''u'', new_entry (desk_account ''u'')) desk_pool"
  have "snd (Acquire ''u'' ?p)" by (simp add: Acquire_def acquire_inflight_def mark_used_def Let_def new_entry_def desk_pool_def New_pool_def)
  then obtain q where q: "Acquire ''u'' ?p = (q, True)" by (cases "Acquire ''u'' ?p") auto
  have uid: "UID (desk_account ''u'') = ''u''" by (simp add: desk_account_def)
  have no: "\<not> NeedsRefresh (tn_now desk_turn) (cs_RefreshSkew desk_setup) (cs_epoch desk_setup) (desk_account ''u'')"
    by (simp add: NeedsRefresh_def desk_turn_def desk_setup_def desk_account_def dur_defs)
  have turn: "tn_vendor desk_turn a = Streaming 200" "tn_streamErr desk_turn = None" "\<not> tn_cancelled desk_turn" "cc_stream desk_call" for a
    by (simp_all add: desk_turn_def desk_call_def)
  show ?thesis
    by (simp add: serve_chat_def take_turn_def desk_chosen [unfolded start_rotation_def] lease_account_def uid q Let_def start_rotation_def refresh_account_def no
        send_request_def turn streamed_def)
qed

lemma accounts_tried_once_witness:
  "let t = snd (serve_chat desk_setup desk_call [desk_turn, desk_turn] desk_pool None [])
   in distinct (sent_to t) \<and> length (sent_to t) \<le> length [desk_turn, desk_turn]"
  by (rule accounts_tried_once [OF desk_inv desk_fair(1)])

lemma slots_given_back_witness:
  "lease (ro_pool (snd (serve_chat desk_setup desk_call [desk_turn, desk_turn] desk_pool None ''u''))) = lease desk_pool"
  by (rule slots_given_back [OF desk_inv desk_fair(1,2)]) (simp add: desk_pool_def)

lemma moves_on_only_for_the_account_witness:
  "\<exists>a status. last (ro_log (snd (serve_chat desk_setup desk_call [desk_turn, desk_turn] desk_pool (Some (New_router 0)) ''u''))) = (a, Streaming status)"
proof -
  obtain t where run: "serve_chat desk_setup desk_call [desk_turn, desk_turn] desk_pool (Some (New_router 0)) ''u'' = (StreamEnded, t)"
    using desk_served by (metis prod.collapse)
  from moves_on_only_for_the_account [OF desk_inv desk_fair(1) run] show ?thesis using run by auto
qed

lemma request_stays_in_realm_witness:
  "list_all (\<lambda>(a, back). Realm True a = ''cn'')
    (ro_log (snd (serve_chat desk_setup desk_call [desk_turn, desk_turn] desk_pool
      (Some (fst (ResolveForModel 10 ''talk'' (realmAwareAvailableForModel True 10 desk_pool ''glm'')
          (realmAwareAvailableForModel True 10 desk_pool ''glm'') (New_router 0))))
      (case snd (ResolveForModel 10 ''talk'' (realmAwareAvailableForModel True 10 desk_pool ''glm'')
          (realmAwareAvailableForModel True 10 desk_pool ''glm'') (New_router 0)) of None \<Rightarrow> [] | Some uid \<Rightarrow> uid))))"
proof -
  let ?av = "realmAwareAvailableForModel True 10 desk_pool ''glm''"
  have model: "resolveModel ''glm'' = (cc_realm desk_call, cc_model desk_call)"
    by (simp add: resolveModel_def desk_call_def)
  have desk: "cs_global desk_setup = True" "cc_sessKey desk_call = ''talk''" "cc_realm desk_call = ''cn''"
    by (simp_all add: desk_setup_def desk_call_def)
  have few: "length ?av \<le> 2"
    using length_filter_le [of _ "byUID desk_pool"]
    by (simp add: realmAwareAvailableForModel_def resolveModel_def AvailableUIDsForModelRealm_def availableUIDsLocked_def desk_pool_def
        split: prod.split option.split)
  show ?thesis
    using request_stays_in_realm [OF desk_inv desk_fair(1,3), of "''glm''" desk_call 10 "New_router 0"
        "fst (ResolveForModel 10 ''talk'' ?av ?av (New_router 0))" "snd (ResolveForModel 10 ''talk'' ?av ?av (New_router 0))"]
      model few by (simp add: desk)
qed

lemma answer_binds_conversation_witness:
  "\<exists>a status r'. let t = snd (serve_chat desk_setup desk_call [desk_turn, desk_turn] desk_pool (Some (New_router 0)) ''u'')
     in last (ro_log t) = (a, Streaming status) \<and> ro_router t = Some r'"
proof -
  obtain t where run: "serve_chat desk_setup desk_call [desk_turn, desk_turn] desk_pool (Some (New_router 0)) ''u'' = (StreamEnded, t)"
    using desk_served by (metis prod.collapse)
  from answer_binds_conversation [OF run] show ?thesis using run by (auto simp: desk_call_def)
qed

end
