(* ===== verification/ChatStats.thy ===== *)
theory ChatStats
  imports StructuredOutput UsageJson SseEvents Usage
begin

text \<open>
  What a chat request consumed, \<open>internal/server/logging.go\<close>: a reader that passes the vendor's
  stream on unchanged and observes the usage in it, and the sum over the attempts of a request, which
  goes to the ledger. Times to the first byte and the rows of the log are left out.
\<close>

subsection \<open>What is observed\<close>

record observation =
  ob_seen :: bool
  ob_hasUsage :: bool
  ob_hasCredit :: bool
  ob_tokens :: int
  ob_credit :: float64
  ob_prompt :: int
  ob_cached :: int
  ob_dataParts :: "string list"

definition new_observation :: observation where
  "new_observation = \<lparr>ob_seen = False, ob_hasUsage = False, ob_hasCredit = False, ob_tokens = -1, ob_credit = 0,
     ob_prompt = -1, ob_cached = -1, ob_dataParts = []\<rparr>"

text \<open>The field \<open>usage\<close> decoded into a map: \<open>null\<close> makes it nil, objects add up; \<open>None\<close>: an error.\<close>

fun usage_values :: "json list \<Rightarrow> obj option \<Rightarrow> obj option option" where
  "usage_values [] m = Some m"
| "usage_values (JNull # vs) m = usage_values vs None"
| "usage_values (JObj ps # vs) m = usage_values vs (Some (exact_pairs ps (case m of None \<Rightarrow> [] | Some x \<Rightarrow> x)))"
| "usage_values (_ # vs) m = None"

definition usage_in :: "string \<Rightarrow> obj option" where
  "usage_in payload =
     (case first_value payload of
        Some (JObj m, rest) \<Rightarrow>
          if list_ex (\<lambda>ch. \<not> json_space ch) rest then None
          else (case usage_values (map snd (filter (\<lambda>(k, v). names_field ''usage'' k) m)) None of None \<Rightarrow> None | Some u \<Rightarrow> u)
      | _ \<Rightarrow> None)"

definition observeJSON :: "string \<Rightarrow> observation \<Rightarrow> observation" where
  "observeJSON payload ob =
     (case usage_in payload of
        None \<Rightarrow> ob
      | Some u \<Rightarrow>
          let ob1 = ob\<lparr>ob_hasUsage := True\<rparr>;
              ob2 = (case UsageCount (mget u ''completion_tokens'') of None \<Rightarrow> ob1 | Some n \<Rightarrow> ob1\<lparr>ob_tokens := n\<rparr>);
              ob3 = (case UsageCount (mget u ''prompt_tokens'') of None \<Rightarrow> ob2 | Some n \<Rightarrow> ob2\<lparr>ob_prompt := n\<rparr>);
              ob4 = (case CachedInputTokens u of None \<Rightarrow> ob3 | Some n \<Rightarrow> ob3\<lparr>ob_cached := n\<rparr>)
          in (case UsageCredit (mget u ''credit'') of None \<Rightarrow> ob4 | Some x \<Rightarrow> ob4\<lparr>ob_hasCredit := True, ob_credit := x\<rparr>))"

definition observePendingEvent :: "observation \<Rightarrow> observation" where
  "observePendingEvent ob =
     (if ob_dataParts ob = [] then ob else (observeJSON (join_lines (ob_dataParts ob)) ob)\<lparr>ob_dataParts := []\<rparr>)"

definition trim_eol :: "string \<Rightarrow> string" where
  "trim_eol line = rev (dropWhile (\<lambda>c. c = CHR 0x0D \<or> c = CHR 0x0A) (rev line))"

definition parseSSELine :: "string \<Rightarrow> observation \<Rightarrow> observation" where
  "parseSSELine raw ob =
     (let line = trim_eol raw
      in if line = [] then observePendingEvent ob
         else if \<not> has_prefix line ''data:'' then ob
         else let text = drop 5 line; payload = (if has_prefix text '' '' then drop 1 text else text)
              in ob\<lparr>ob_seen := (ob_seen ob \<or> payload \<noteq> ''[DONE]''), ob_dataParts := ob_dataParts ob @ [payload]\<rparr>)"

subsection \<open>The reader\<close>

record chatStatsReader =
  sr_rest :: string
  sr_end :: stream_end
  sr_pend :: string
  sr_readErr :: "stream_end option"
  sr_obs :: observation

definition new_stats_reader :: "string \<Rightarrow> stream_end \<Rightarrow> chatStatsReader" where
  "new_stats_reader bytes e = \<lparr>sr_rest = bytes, sr_end = e, sr_pend = [], sr_readErr = None, sr_obs = new_observation\<rparr>"

text \<open>\<open>bufio.Reader.ReadString\<close> up to a newline: the line, what is left, and the end when no newline came.\<close>

definition ReadString :: "string \<Rightarrow> stream_end \<Rightarrow> string \<times> string \<times> stream_end option" where
  "ReadString s e =
     (case dropWhile (\<lambda>c. c \<noteq> CHR 0x0A) s of
        [] \<Rightarrow> (s, [], Some e)
      | c # rest \<Rightarrow> (takeWhile (\<lambda>c. c \<noteq> CHR 0x0A) s @ [c], rest, None))"

definition stats_Read :: "nat \<Rightarrow> chatStatsReader \<Rightarrow> (string \<times> stream_end option) \<times> chatStatsReader" where
  "stats_Read n r =
     (if n = 0 then (([], None), r)
      else if sr_pend r \<noteq> [] then ((take n (sr_pend r), None), r\<lparr>sr_pend := drop n (sr_pend r)\<rparr>)
      else if sr_readErr r \<noteq> None then (([], sr_readErr r), r\<lparr>sr_readErr := None\<rparr>)
      else case ReadString (sr_rest r) (sr_end r) of
        (line, rest, err) \<Rightarrow>
          let flush = (if err = Some AtEOF then observePendingEvent else id)
          in if line \<noteq> []
             then ((take n line, None), r\<lparr>sr_rest := rest, sr_pend := drop n line, sr_readErr := err,
                      sr_obs := flush (parseSSELine line (sr_obs r))\<rparr>)
             else (([], err), r\<lparr>sr_rest := rest, sr_obs := flush (sr_obs r)\<rparr>))"

definition stats_Credit :: "observation \<Rightarrow> float64 option" where
  "stats_Credit ob = (if ob_hasUsage ob \<and> ob_hasCredit ob then Some (ob_credit ob) else None)"

definition TotalTokens :: "observation \<Rightarrow> int" where
  "TotalTokens ob = wrap64 (max 0 (ob_prompt ob) + max 0 (ob_tokens ob))"

definition CompleteUsage :: "observation \<Rightarrow> bool" where
  "CompleteUsage ob \<longleftrightarrow> 0 \<le> ob_prompt ob \<and> 0 \<le> ob_tokens ob"

text \<open>What the pool learns of the cost of a streamed answer.\<close>

definition observed_cost :: "observation \<Rightarrow> (float64 \<times> int) option" where
  "observed_cost ob =
     (case stats_Credit ob of
        None \<Rightarrow> None
      | Some credit \<Rightarrow> if CompleteUsage ob then Some (credit, TotalTokens ob) else None)"

subsection \<open>The sum over the attempts\<close>

record chatStat =
  st_keyID :: string
  st_keyName :: string
  st_keyMask :: string
  st_prompt :: int
  st_toks :: int
  st_cached :: int
  st_hasUsage :: bool
  st_credit :: float64
  st_hasCred :: bool
  st_upstreamStarted :: bool
  st_failed :: bool
  st_unreported :: bool

definition newChatStat :: chatStat where
  "newChatStat = \<lparr>st_keyID = [], st_keyName = [], st_keyMask = [], st_prompt = -1, st_toks = -1, st_cached = -1,
     st_hasUsage = False, st_credit = 0, st_hasCred = False, st_upstreamStarted = False, st_failed = True,
     st_unreported = False\<rparr>"

definition addKnown :: "int \<Rightarrow> int \<Rightarrow> int" where
  "addKnown current v = (if v < 0 then current else wrap64 ((if current < 0 then 0 else current) + v))"

definition absorbUsage :: "observation option \<Rightarrow> chatStat \<Rightarrow> chatStat" where
  "absorbUsage observed st =
     (case observed of
        None \<Rightarrow> st\<lparr>st_unreported := True\<rparr>
      | Some ob \<Rightarrow>
          let st1 = st\<lparr>st_prompt := addKnown (st_prompt st) (ob_prompt ob), st_toks := addKnown (st_toks st) (ob_tokens ob),
                st_cached := addKnown (st_cached st) (ob_cached ob)\<rparr>;
              st2 = (case stats_Credit ob of
                       None \<Rightarrow> st1 | Some x \<Rightarrow> st1\<lparr>st_credit := fl (st_credit st1 + x), st_hasCred := True\<rparr>)
          in st2\<lparr>st_hasUsage := st_hasUsage st2 \<or> ob_hasUsage ob,
                 st_unreported := st_unreported st2 \<or> \<not> CompleteUsage ob\<rparr>)"

definition absorbJSONUsage :: "string \<Rightarrow> chatStat \<Rightarrow> chatStat" where
  "absorbJSONUsage raw st = absorbUsage (Some (observeJSON raw new_observation)) st"

definition stat_event :: "string \<Rightarrow> instant \<Rightarrow> chatStat \<Rightarrow> usage_event" where
  "stat_event model now st =
     \<lparr>ev_keyID = st_keyID st, ev_name = st_keyName st, ev_maskedKey = st_keyMask st, ev_model = model,
      ev_prompt = st_prompt st, ev_completion = st_toks st, ev_cached = st_cached st, ev_credit = st_credit st,
      ev_hasCredit = st_hasCred st, ev_outcome = \<lparr>Failed = st_failed st, Unreported = st_unreported st\<rparr>, ev_at = now\<rparr>"

definition recordUsage :: "duration \<Rightarrow> instant \<Rightarrow> string \<Rightarrow> chatStat \<Rightarrow> usage_store option \<Rightarrow> usage_store option" where
  "recordUsage tz now model st ledger =
     (if st_upstreamStarted st then map_option (RecordOutcome tz now (stat_event model now st)) ledger else ledger)"

end
