(* ===== verification/ChatStatsProps.thy ===== *)
theory ChatStatsProps
  imports ChatStats UsageFacts
begin

text \<open>The reader changes nothing and sees what a plain reading line by line would see.\<close>

subsection \<open>Reading line by line\<close>

lemma ReadString_cases:
  obtains (line) line rest where "ReadString s e = (line, rest, None)" "line \<noteq> []" "s = line @ rest"
    | (last) "ReadString s e = (s, [], Some e)"
proof (cases "dropWhile (\<lambda>c. c \<noteq> CHR 0x0A) s")
  case Nil
  have "ReadString s e = (s, [], Some e)" unfolding ReadString_def Nil by simp
  then show thesis by (rule last)
next
  case (Cons c rest)
  let ?line = "takeWhile (\<lambda>c. c \<noteq> CHR 0x0A) s @ [c]"
  have "s = ?line @ rest" using takeWhile_dropWhile_id [of "\<lambda>c. c \<noteq> CHR 0x0A" s] Cons by simp
  moreover have "ReadString s e = (?line, rest, None)" using Cons by (simp add: ReadString_def)
  ultimately show thesis using line [of ?line rest] by blast
qed

lemma ReadString_shorter: "ReadString s e = (line, rest, None) \<Longrightarrow> length rest < length s"
  by (cases rule: ReadString_cases [of s e]) auto

function observe_lines :: "string \<Rightarrow> stream_end \<Rightarrow> observation \<Rightarrow> observation" where
  "observe_lines s e ob =
     (case ReadString s e of
        (line, rest, None) \<Rightarrow> observe_lines rest e (parseSSELine line ob)
      | (line, rest, Some e') \<Rightarrow>
          (if e' = AtEOF then observePendingEvent else id) (if line = [] then ob else parseSSELine line ob))"
  by pat_completeness auto
termination
  by (relation "measure (\<lambda>(s, e, ob). length s)") (auto dest: ReadString_shorter [OF sym])

declare observe_lines.simps [simp del]

fun read_all :: "nat list \<Rightarrow> chatStatsReader \<Rightarrow> string \<times> stream_end option \<times> chatStatsReader" where
  "read_all [] r = ([], None, r)"
| "read_all (n # ns) r =
     (case stats_Read n r of
        ((out, Some e), r1) \<Rightarrow> (out, Some e, r1)
      | ((out, None), r1) \<Rightarrow> (case read_all ns r1 of (out2, err, r2) \<Rightarrow> (out @ out2, err, r2)))"

text \<open>What is still to come of the bytes and of the observation.\<close>

definition to_come :: "chatStatsReader \<Rightarrow> string" where
  "to_come r = sr_pend r @ sr_rest r"

definition will_observe :: "chatStatsReader \<Rightarrow> observation" where
  "will_observe r = (if sr_readErr r = None then observe_lines (sr_rest r) (sr_end r) (sr_obs r) else sr_obs r)"

definition reader_ok :: "chatStatsReader \<Rightarrow> bool" where
  "reader_ok r \<longleftrightarrow> sr_readErr r = None \<or> sr_readErr r = Some (sr_end r) \<and> sr_rest r = []"

lemma read_step:
  assumes "reader_ok r" "stats_Read n r = ((out, err), r1)"
  shows "reader_ok r1" "to_come r = out @ to_come r1" "sr_end r1 = sr_end r"
    "err = None \<Longrightarrow> will_observe r1 = will_observe r"
    "err = Some e \<Longrightarrow> e = sr_end r \<and> to_come r1 = [] \<and> sr_obs r1 = will_observe r"
proof -
  have "reader_ok r1 \<and> to_come r = out @ to_come r1 \<and> sr_end r1 = sr_end r
    \<and> (err = None \<longrightarrow> will_observe r1 = will_observe r)
    \<and> (err = Some e \<longrightarrow> e = sr_end r \<and> to_come r1 = [] \<and> sr_obs r1 = will_observe r)"
  proof (cases "n = 0 \<or> sr_pend r \<noteq> []")
    case True
    then show ?thesis using assms
      by (auto simp: stats_Read_def reader_ok_def to_come_def will_observe_def split: if_splits)
  next
    case more: False
    show ?thesis
    proof (cases "sr_readErr r")
      case (Some x)
      then show ?thesis using assms more by (auto simp: stats_Read_def reader_ok_def to_come_def will_observe_def)
    next
      case None
      show ?thesis
      proof (cases rule: ReadString_cases [of "sr_rest r" "sr_end r"])
        case (line l rest)
        have "observe_lines (sr_rest r) (sr_end r) (sr_obs r) = observe_lines rest (sr_end r) (parseSSELine l (sr_obs r))"
          by (subst observe_lines.simps) (simp add: line(1))
        then show ?thesis using assms more None line
          by (auto simp: stats_Read_def reader_ok_def to_come_def will_observe_def)
      next
        case last
        have "observe_lines (sr_rest r) (sr_end r) (sr_obs r)
            = (if sr_end r = AtEOF then observePendingEvent else id) (if sr_rest r = [] then sr_obs r else parseSSELine (sr_rest r) (sr_obs r))"
          by (subst observe_lines.simps) (simp add: last)
        then show ?thesis using assms more None last
          by (auto simp: stats_Read_def reader_ok_def to_come_def will_observe_def Let_def split: if_splits)
      qed
    qed
  qed
  then show "reader_ok r1" "to_come r = out @ to_come r1" "sr_end r1 = sr_end r"
    "err = None \<Longrightarrow> will_observe r1 = will_observe r"
    "err = Some e \<Longrightarrow> e = sr_end r \<and> to_come r1 = [] \<and> sr_obs r1 = will_observe r" by blast+
qed

lemma reads_all:
  assumes "reader_ok r" "read_all ns r = (out, err, r1)"
  shows "to_come r = out @ to_come r1" "err = Some e \<Longrightarrow> e = sr_end r \<and> to_come r1 = [] \<and> sr_obs r1 = will_observe r"
proof -
  have "to_come r = out @ to_come r1 \<and> (err = Some e \<longrightarrow> e = sr_end r \<and> to_come r1 = [] \<and> sr_obs r1 = will_observe r)"
    using assms
  proof (induction ns arbitrary: r out)
    case (Cons n ns)
    obtain o1 e1 r0 where step: "stats_Read n r = ((o1, e1), r0)" by (metis prod.collapse)
    note facts = read_step [OF Cons.prems(1) step]
    show ?case
    proof (cases e1)
      case None
      obtain o2 where rest: "read_all ns r0 = (o2, err, r1)" "out = o1 @ o2"
        using Cons.prems(2) step None by (auto split: prod.splits)
      show ?thesis using Cons.IH [OF facts(1) rest(1)] facts(2-4) None rest(2) by simp
    next
      case (Some x)
      then show ?thesis using Cons.prems(2) step facts(2) facts(5) [of x] by auto
    qed
  qed simp
  then show "to_come r = out @ to_come r1" "err = Some e \<Longrightarrow> e = sr_end r \<and> to_come r1 = [] \<and> sr_obs r1 = will_observe r"
    by blast+
qed

text \<open>
  C22: The reader that observes the usage is transparent: whatever the sizes of the buffers it is read
  with, the bytes come out in order and unchanged, the end or the failure of the connection is
  reported as it is and only after the last byte, and then the usage observed is exactly what a plain
  reading of the stream, line by line, observes.
\<close>

theorem stats_reader_transparent:
  assumes "read_all ns (new_stats_reader bytes e) = (out, err, r)"
  shows "bytes = out @ sr_pend r @ sr_rest r
    \<and> (err \<noteq> None \<longrightarrow> err = Some e \<and> out = bytes \<and> sr_obs r = observe_lines bytes e new_observation)"
proof -
  have ok: "reader_ok (new_stats_reader bytes e)" by (simp add: reader_ok_def new_stats_reader_def)
  have "to_come (new_stats_reader bytes e) = bytes" "sr_end (new_stats_reader bytes e) = e"
    "will_observe (new_stats_reader bytes e) = observe_lines bytes e new_observation"
    by (simp_all add: to_come_def will_observe_def new_stats_reader_def)
  with reads_all [OF ok assms] show ?thesis by (auto simp: to_come_def)
qed

definition usage_line :: string where
  "usage_line = ''data: {\"usage\":{\"prompt_tokens\":7}}'' @ [CHR 0x0A]"

lemma stats_reader_transparent_witness:
  "case read_all [5, 100, 100] (new_stats_reader usage_line AtEOF) of
     (out, err, r) \<Rightarrow> out = usage_line \<and> err = Some AtEOF \<and> sr_obs r = observe_lines usage_line AtEOF new_observation \<and> ob_prompt (sr_obs r) = 7"
proof -
  obtain out err r where run: "read_all [5, 100, 100] (new_stats_reader usage_line AtEOF) = (out, err, r)" by (metis prod.collapse)
  have "fst (snd (read_all [5, 100, 100] (new_stats_reader usage_line AtEOF))) \<noteq> None"
    "ob_prompt (sr_obs (snd (snd (read_all [5, 100, 100] (new_stats_reader usage_line AtEOF))))) = 7" by code_simp+
  then show ?thesis using stats_reader_transparent [OF run] run by simp
qed

end
