(* ===== verification/ChatHandler.thy ===== *)
theory ChatHandler
  imports ChatLoop ChatContract ApiKeys
begin

text \<open>
  A chat request from its arrival to the rotation, \<open>chatCompletions\<close> and \<open>withAuth\<close> of
  \<open>internal/server/handler.go\<close> with \<open>Rewrite\<close> of \<open>internal/prompt/prompt.go\<close>: the key, the checks of
  the body, the models the key may use, the conversation, and the body that is sent.
\<close>

subsection \<open>The key\<close>

datatype admission = Unauthorized | Admitted "key_info option"

definition bearer_prefix :: string where
  "bearer_prefix = ''Bearer ''"

definition bearer :: "string \<Rightarrow> string" where
  "bearer authz = (if has_prefix authz bearer_prefix then drop (length bearer_prefix) authz else authz)"

text \<open>\<open>keys\<close> resolves a key in the key file, when there is one; \<open>internal\<close>: the socket of the panel.\<close>

definition withAuth :: "bool \<Rightarrow> (string \<Rightarrow> key_info option) option \<Rightarrow> string \<Rightarrow> string \<Rightarrow> admission" where
  "withAuth internal keys apiKey authz =
     (if internal then Admitted None
      else case keys of
        Some find_key \<Rightarrow>
          (case find_key (bearer authz) of
             Some info \<Rightarrow> if has_prefix authz bearer_prefix then Admitted (Some info) else Unauthorized
           | None \<Rightarrow> Unauthorized)
      | None \<Rightarrow>
          if apiKey \<noteq> [] \<and> (\<not> has_prefix authz bearer_prefix \<or> bearer authz \<noteq> apiKey) then Unauthorized else Admitted None)"

subsection \<open>The checks of the body\<close>

text \<open>The fields \<open>stream\<close> and \<open>model\<close> decoded into a struct: any case of the name, the last one counts.\<close>

definition bool_value :: "json \<Rightarrow> bool option" where
  "bool_value v = (case v of JBool b \<Rightarrow> Some b | _ \<Rightarrow> None)"

definition bool_field :: "string \<Rightarrow> obj \<Rightarrow> bool option" where
  "bool_field f m = map_option (last_or False) (all_some (map bool_value (field_values f m)))"

record peek =
  pk_Stream :: bool
  pk_Model :: string

definition peek_at :: "obj \<Rightarrow> peek option" where
  "peek_at m =
     (case (bool_field ''stream'' m, str_field ''model'' m) of
        (Some stream, Some model) \<Rightarrow> Some \<lparr>pk_Stream = stream, pk_Model = model\<rparr>
      | _ \<Rightarrow> None)"

datatype gate_error =
    TooLarge
  | NotAnObjectBody
  | FieldsInvalid
  | RequestInvalid string problem
  | DemandInvalid demand_error
  | ModelNotAllowed

definition gate_status :: "gate_error \<Rightarrow> int" where
  "gate_status e = (case e of TooLarge \<Rightarrow> 413 | ModelNotAllowed \<Rightarrow> 403 | _ \<Rightarrow> 400)"

text \<open>
  \<open>doc\<close> is the body as JSON, \<open>None\<close> when it is none; \<open>fs\<close> the fields of the request, the last of
  several equal ones. A request of the Responses protocol was given its contract before.
\<close>

definition chat_fields :: "bool \<Rightarrow> (string \<Rightarrow> string) \<Rightarrow> (obj \<Rightarrow> 's option) \<Rightarrow> (json \<Rightarrow> nat) \<Rightarrow> obj
    \<Rightarrow> gate_error + obj \<times> 's responsesRequest option" where
  "chat_fields responses digest compile raw_length fs =
     (if responses then Inr (fs, None)
      else case newChatOutputContract digest compile raw_length fs of
        Inl e \<Rightarrow> Inl (DemandInvalid e)
      | Inr contract \<Rightarrow>
          (case normalizeChatToolDeclarations fs contract of
             Inl e \<Rightarrow> Inl (DemandInvalid e)
           | Inr fs' \<Rightarrow> Inr (fs', contract)))"

definition enter_chat :: "bool \<Rightarrow> (string \<Rightarrow> string) \<Rightarrow> (obj \<Rightarrow> 's option) \<Rightarrow> (json \<Rightarrow> nat) \<Rightarrow> nat \<Rightarrow> nat \<Rightarrow> json option \<Rightarrow> key_info option
    \<Rightarrow> gate_error + peek \<times> obj \<times> 's responsesRequest option" where
  "enter_chat responses digest compile raw_length limit amount doc info =
     (if amount > limit then Inl TooLarge
      else case doc of
        Some (JObj m) \<Rightarrow>
          (case peek_at m of
             None \<Rightarrow> Inl FieldsInvalid
           | Some pk \<Rightarrow>
               (case validateChatRequest (Some (exact_of (JObj m))) of
                  Some (path, problem) \<Rightarrow> Inl (RequestInvalid path problem)
                | None \<Rightarrow>
                    (case chat_fields responses digest compile raw_length (exact_pairs m []) of
                       Inl e \<Rightarrow> Inl e
                     | Inr (fs, contract) \<Rightarrow>
                         if (case info of None \<Rightarrow> False | Some i \<Rightarrow> \<not> modelAllowedByKey i (pk_Model pk)) then Inl ModelNotAllowed
                         else Inr (pk, fs, contract))))
      | _ \<Rightarrow> Inl NotAnObjectBody)"

subsection \<open>The body that is sent\<close>

definition prompt_message :: "string \<Rightarrow> json" where
  "prompt_message text = JObj [(''role'', JStr ''system''), (''content'', JStr text)]"

definition replaced_role :: "json \<Rightarrow> bool" where
  "replaced_role m \<longleftrightarrow> get_str (nested_of (Some m)) ''role'' \<in> {''system'', ''developer''}"

definition Rewrite_prompt :: "string \<Rightarrow> obj \<Rightarrow> obj" where
  "Rewrite_prompt systemPrompt ob =
     (if systemPrompt = [] then ob
      else mput ''messages'' (JArr (prompt_message systemPrompt
             # filter (\<lambda>m. \<not> replaced_role m) (array_of (mget ob ''messages'')))) ob)"

definition rewriteModel :: "string \<Rightarrow> obj \<Rightarrow> obj" where
  "rewriteModel bare ob =
     (if bare = [] then ob
      else case mget ob ''model'' of
        Some (JStr cur) \<Rightarrow> if cur = bare then ob else mput ''model'' (JStr bare) ob
      | _ \<Rightarrow> ob)"

definition outgoing_body :: "bool \<Rightarrow> string \<Rightarrow> string \<Rightarrow> string \<Rightarrow> obj \<Rightarrow> obj" where
  "outgoing_body custom promptText model bare ob =
     (let ob1 = (if custom \<and> promptText \<noteq> [] then Rewrite_prompt promptText ob else ob)
      in if bare \<noteq> model then rewriteModel bare ob1 else ob1)"

subsection \<open>The conversation\<close>

record chatMeta =
  cm_ConversationID :: string
  cm_ConversationRequestID :: string
  cm_TraceID :: string

definition session_key :: "(string \<Rightarrow> string) \<Rightarrow> string \<Rightarrow> string option \<Rightarrow> obj \<Rightarrow> string" where
  "session_key sha16 caller preserved ob =
     ScopeKey sha16 caller (case preserved of Some key \<Rightarrow> key | None \<Rightarrow> ExtractKey (Some ob))"

definition turn_key :: "(string \<Rightarrow> string) \<Rightarrow> string \<Rightarrow> string \<Rightarrow> message list option \<Rightarrow> string" where
  "turn_key sha16 caller sessKey messages = (if sessKey = [] then ScopeKey sha16 caller (TurnKey messages) else [])"

definition sticky_of :: "bool \<Rightarrow> instant \<Rightarrow> pool \<Rightarrow> string \<Rightarrow> string \<Rightarrow> router option \<Rightarrow> router option \<times> string" where
  "sticky_of g now p model sessKey r =
     (case r of
        None \<Rightarrow> (None, [])
      | Some r0 \<Rightarrow>
          if sessKey = [] then (Some r0, [])
          else let available = realmAwareAvailableForModel g now p model
               in case ResolveForModel now sessKey available available r0 of
                    (r1, Some uid) \<Rightarrow> (Some r1, uid)
                  | (r1, None) \<Rightarrow> (Some r1, []))"

definition chat_meta :: "(string \<Rightarrow> string) \<Rightarrow> string \<Rightarrow> string \<Rightarrow> string \<Rightarrow> obj \<Rightarrow> string \<Rightarrow> string \<Rightarrow> string \<Rightarrow> string \<Rightarrow> chatMeta" where
  "chat_meta sha16 salt rnd caller ob sessKey turnKey inbound trace =
     \<lparr>cm_ConversationID = ScopeKey sha16 caller (ResolveConversationID (Some ob)),
      cm_ConversationRequestID =
        (if inbound \<noteq> [] then ScopeKey sha16 caller inbound
         else if sessKey \<noteq> [] then RequestIDForKey sha16 salt rnd sessKey
         else TurnRequestID sha16 salt rnd turnKey),
      cm_TraceID = ScopeKey sha16 caller trace\<rparr>"

subsection \<open>The whole handler\<close>

record 's chat_env =
  ce_setup :: chat_setup
  ce_digest :: "string \<Rightarrow> string"
  ce_compile :: "obj \<Rightarrow> 's option"
  ce_length :: "json \<Rightarrow> nat"
  ce_limit :: nat
  ce_custom :: bool
  ce_prompt :: string
  ce_sha16 :: "string \<Rightarrow> string"
  ce_salt :: string

record chat_arrival =
  ca_responses :: bool
  ca_size :: nat
  ca_doc :: "json option"
  ca_info :: "key_info option"
  ca_preserved :: "string option"
  ca_messages :: "message list option"
  ca_bearer :: string
  ca_inbound :: string
  ca_trace :: string
  ca_fresh :: string
  ca_now :: instant

datatype handled = Gate gate_error | Handled chat_end rotation

text \<open>\<open>world\<close> is what happens to a body and its identifiers in the turns of the loop.\<close>

definition chatCompletions :: "'s chat_env \<Rightarrow> (obj \<Rightarrow> chatMeta \<Rightarrow> turn list) \<Rightarrow> chat_arrival \<Rightarrow> pool \<Rightarrow> router option \<Rightarrow> handled" where
  "chatCompletions e world q p r =
     (case enter_chat (ca_responses q) (ce_digest e) (ce_compile e) (ce_length e) (ce_limit e) (ca_size q) (ca_doc q) (ca_info q) of
        Inl err \<Rightarrow> Gate err
      | Inr (pk, fs, contract) \<Rightarrow>
          let model = pk_Model pk; (rlm, bare) = resolveModel model;
              caller = (case ca_info q of None \<Rightarrow> [] | Some i \<Rightarrow> k_ID i);
              sessKey = session_key (ce_sha16 e) caller (ca_preserved q) fs;
              (r1, sticky) = sticky_of (cs_global (ce_setup e)) (ca_now q) p model sessKey r;
              body = outgoing_body (ce_custom e) (ce_prompt e) model bare fs;
              meta = chat_meta (ce_sha16 e) (ce_salt e) (ca_fresh q) caller body sessKey
                       (turn_key (ce_sha16 e) caller sessKey (ca_messages q)) (ca_inbound q) (ca_trace q);
              call = \<lparr>cc_model = bare, cc_realm = rlm, cc_stream = pk_Stream pk, cc_sessKey = sessKey, cc_bearer = ca_bearer q\<rparr>
          in (case serve_chat (ce_setup e) call (world body meta) p r1 sticky of (x, t) \<Rightarrow> Handled x t))"

end
