(* ===== verification/ChatHandlerProps.thy ===== *)
theory ChatHandlerProps
  imports ChatHandler ValidationFacts
begin

text \<open>The model a key was admitted for is the model that is asked of the vendor.\<close>

subsection \<open>The model field\<close>

lemma exact_pairs_mget:
  "mget (exact_pairs m acc) k = (case jget m k of None \<Rightarrow> mget acc k | Some v \<Rightarrow> Some (exact_of v))"
proof (induction m arbitrary: acc)
  case (Cons kv m)
  obtain k' v where kv: "kv = (k', v)" by fastforce
  have "jget ((k', v) # m) k = (case jget m k of None \<Rightarrow> if k = k' then Some v else None | Some w \<Rightarrow> Some w)"
    by (simp add: jget_def map_add_def split: option.split)
  then show ?case by (simp add: kv Cons.IH split: option.split)
qed simp

lemma exact_of_str: "exact_of v = JStr s \<Longrightarrow> v = JStr s"
  by (cases v) simp_all

text \<open>The fields that the renaming of tools may touch.\<close>

definition tool_keys :: "string list" where
  "tool_keys = [''tools'', ''functions'', ''tool_choice'', ''function_call'', ''messages'', ''parallel_tool_calls'']"

lemma set_array_other: "k \<noteq> key \<Longrightarrow> mget (set_array key before after fs) k = mget fs k"
  by (simp add: set_array_def)

lemma rename_choices_other: "k \<notin> {''tool_choice'', ''function_call''} \<Longrightarrow> mget (rename_choices names fs) k = mget fs k"
  by (simp add: rename_choices_def split: option.split)

lemma drop_controls_other:
  "k \<notin> {''tool_choice'', ''function_call'', ''parallel_tool_calls''} \<Longrightarrow> mget (drop_controls fs) k = mget fs k"
  by (simp add: drop_controls_def split: option.split)

lemma normalized_other:
  assumes "normalizeChatToolDeclarations fs req = Inr fs'" "k \<notin> set tool_keys"
  shows "mget fs' k = mget fs k"
  using assms
  by (auto simp: normalizeChatToolDeclarations_def Let_def tool_keys_def set_array_other rename_choices_other drop_controls_other
      split: sum.splits if_splits)

lemma fields_model:
  assumes "chat_fields responses digest compile raw_length fs = Inr (fs', contract)"
  shows "mget fs' ''model'' = mget fs ''model''"
  using assms normalized_other [where k = "''model''"]
  by (auto simp: chat_fields_def tool_keys_def split: if_splits sum.splits)

lemma rewritten_model:
  assumes "mget fs ''model'' = Some (JStr model)" "bare \<noteq> []"
  shows "get_str (outgoing_body custom promptText model bare fs) ''model'' = bare"
  using assms
  by (simp add: outgoing_body_def Rewrite_prompt_def rewriteModel_def get_str_def str_or_empty_def Let_def)

definition model_fields :: "obj \<Rightarrow> obj" where
  "model_fields m = filter (\<lambda>(k, v). names_field ''model'' k) m"

lemma single_model:
  assumes "length (model_fields m) = 1" "jget m ''model'' = Some (JStr s)"
  shows "str_field ''model'' m = Some s"
proof -
  have "(''model'', JStr s) \<in> set m" using assms(2) map_of_SomeD [of "rev m"] by (simp add: jget_def)
  then have "(''model'', JStr s) \<in> set (model_fields m)" by (simp add: model_fields_def names_field_def)
  then have "model_fields m = [(''model'', JStr s)]" using assms(1) by (cases "model_fields m") auto
  then have "field_values ''model'' m = [JStr s]" by (simp add: field_values_def model_fields_def)
  then show ?thesis by (simp add: str_field_def all_some_def last_or_def str_value_def)
qed

lemma enter_facts:
  assumes "enter_chat responses digest compile raw_length limit amount (Some (JObj m)) info = Inr (pk, fs, contract)"
  shows "peek_at m = Some pk" "\<exists>s. jget m ''model'' = Some (JStr s) \<and> mget fs ''model'' = Some (JStr s)"
    "info = Some i \<Longrightarrow> modelAllowedByKey i (pk_Model pk)"
proof -
  have valid: "validateChatRequest (Some (exact_of (JObj m))) = None" and pk: "peek_at m = Some pk"
    and fs: "chat_fields responses digest compile raw_length (exact_pairs m []) = Inr (fs, contract)"
    and allowed: "info = Some i \<Longrightarrow> modelAllowedByKey i (pk_Model pk)"
    using assms by (auto simp: enter_chat_def split: if_splits option.splits sum.splits)
  show "peek_at m = Some pk" "info = Some i \<Longrightarrow> modelAllowedByKey i (pk_Model pk)" using pk allowed by blast+
  have "requestValidationString (mget (exact_pairs m []) ''model'') ''model'' True = None"
    using valid by (simp add: validateChatRequest_def accepted)
  then obtain s where "mget (exact_pairs m []) ''model'' = Some (JStr s)" by (auto simp: string_None)
  then show "\<exists>s. jget m ''model'' = Some (JStr s) \<and> mget fs ''model'' = Some (JStr s)"
    using fields_model [OF fs] exact_of_str by (auto simp: exact_pairs_mget split: option.splits)
qed

text \<open>
  C6: A key that is bound to models never reaches another one with a body that names its model once: a
  request that is let through asks the vendor for exactly the model, without its realm, that the key was
  checked for - whatever the system prompt and the renaming of tools change in the body.
\<close>

theorem whitelisted_model_is_sent:
  assumes "enter_chat responses digest compile raw_length limit amount (Some (JObj m)) (Some info) = Inr (pk, fs, contract)"
    and "length (model_fields m) = 1" "resolveModel (pk_Model pk) = (rlm, bare)" "bare \<noteq> []"
  shows "modelAllowedByKey info (pk_Model pk)
    \<and> get_str (outgoing_body custom promptText (pk_Model pk) bare fs) ''model'' = bare"
proof -
  obtain s where s: "jget m ''model'' = Some (JStr s)" "mget fs ''model'' = Some (JStr s)" using enter_facts(2) [OF assms(1)] by blast
  have "pk_Model pk = s"
    using enter_facts(1) [OF assms(1)] single_model [OF assms(2) s(1)] by (auto simp: peek_at_def split: option.splits)
  then show ?thesis using rewritten_model [OF _ assms(4)] s(2) enter_facts(3) [OF assms(1)] by simp
qed

subsection \<open>Naming the model twice\<close>

text \<open>
  The whitelist reads the model as a struct field, in any case and the last one, the body that is sent
  keeps the field \<open>model\<close>: a second field \<open>Model\<close> takes a request past the whitelist.
\<close>

definition two_models :: obj where
  "two_models = [(''model'', JStr ''secret''), (''Model'', JStr ''glm''),
     (''messages'', JArr [JObj [(''role'', JStr ''user''), (''content'', JStr ''hi'')]])]"

definition glm_only :: key_info where
  "glm_only = \<lparr>k_ID = ''k1'', k_Name = ''n'', k_Note = [], k_MaskedKey = [], k_Enabled = True, k_CreatedAt = 0, k_Legacy = False,
     k_Models = [''glm'']\<rparr>"

definition one_model :: obj where
  "one_model = [(''model'', JStr ''glm''),
     (''messages'', JArr [JObj [(''role'', JStr ''user''), (''content'', JStr ''hi'')]])]"

lemma two_models_pass:
  "\<not> modelAllowedByKey glm_only ''secret''"
  "case enter_chat False (\<lambda>_. []) (\<lambda>_. None :: unit option) (\<lambda>_. 0) 1000 100 (Some (JObj two_models)) (Some glm_only) of
     Inl e \<Rightarrow> False
   | Inr (pk, fs, contract) \<Rightarrow>
       pk_Model pk = ''glm'' \<and> get_str (outgoing_body False [] ''glm'' ''glm'' fs) ''model'' = ''secret''"
  by code_simp+

lemma one_model_passes:
  "case enter_chat False (\<lambda>_. []) (\<lambda>_. None :: unit option) (\<lambda>_. 0) 1000 100 (Some (JObj one_model)) (Some glm_only) of
     Inl e \<Rightarrow> False
   | Inr (pk, fs, contract) \<Rightarrow> pk_Model pk = ''glm''"
  by code_simp

lemma whitelisted_model_is_sent_witness:
  "case enter_chat False (\<lambda>_. []) (\<lambda>_. None :: unit option) (\<lambda>_. 0) 1000 100 (Some (JObj one_model)) (Some glm_only) of
     Inl e \<Rightarrow> False
   | Inr (pk, fs, contract) \<Rightarrow> get_str (outgoing_body True ''be brief'' ''glm'' ''glm'' fs) ''model'' = ''glm''"
proof (cases "enter_chat False (\<lambda>_. []) (\<lambda>_. None :: unit option) (\<lambda>_. 0) 1000 100 (Some (JObj one_model)) (Some glm_only)")
  case (Inl e)
  then show ?thesis using one_model_passes by simp
next
  case (Inr x)
  obtain pk fs contract where x: "x = (pk, fs, contract)" by (cases x)
  have glm: "pk_Model pk = ''glm''" using one_model_passes Inr x by simp
  have "length (model_fields one_model) = 1" by code_simp
  moreover have "resolveModel ''glm'' = (''cn'', ''glm'')" by code_simp
  ultimately show ?thesis
    using whitelisted_model_is_sent [OF Inr [unfolded x], of "''cn''" "''glm''" True "''be brief''"] glm Inr x by simp
qed

end
