(* ===== verification/Spec2Isabelle.thy ===== *)
theory Spec2Isabelle
  imports PoolProps Lease AuthProps AuthFile PersistProps SessionProps ErrorPolicyProps ApiKeysProps UsageProps SseTools SseWire UsageJsonProps ReasoningProps PreparedProps NeutralizeProps ChatRetryProps ValidationProps ResponsesProps ChatContractProps ResponsesInputProps ChatLoopProps ChatStatsProps ChatHandlerProps
begin

text \<open>
workbuddy2api is a gateway in Go: it offers an OpenAI-compatible API and serves each request
  with one of a pool of vendor accounts. This development models the parts that decide: which
  account serves a request, what an answer of the vendor does to the account, what survives a
  restart or a second process, and who may call what.

  \<^bold>\<open>How the parts interact.\<close> A request carries a calling key (\<open>internal/apikeys\<close>) whose whitelist
  names models. The conversation it belongs to is routed to an account
  (\<open>internal/session\<close>), asking the pool which accounts are available; otherwise the
  pool (\<open>internal/pool\<close>) selects one. The request leases a slot of the account. The answer is
  classified (\<open>internal/upstream/client.go\<close>) and the policy (\<open>applyErrorPolicy\<close> in
  \<open>internal/server/handler.go\<close>) changes the account. Consumption goes to the usage ledger
  (\<open>internal/usage\<close>). The vendor's event stream is checked and passed on, or put together into one
  response (\<open>internal/upstream/sse.go\<close>). Requests of the Responses protocol are checked
  (\<open>internal/server/request_validation.go\<close>), their tools renamed for the vendor and their history
  made chat messages, and the chat answer is turned back into the events of that protocol
  (\<open>internal/server/responses.go\<close>, \<open>structured_output.go\<close>); a chat client's demands are checked before
  it is told the end of the answer (\<open>chat_output_contract.go\<close>). Pool, keys and ledger are files that two processes share during an
  update of the program.

  \<^bold>\<open>Theories.\<close>

  \<^item> \<open>Prelude\<close>, \<open>GoStrings\<close>, \<open>GoFloat\<close>, \<open>Utf8\<close>, \<open>Json\<close>: Go's maps, instants, durations, bytes,
    floating point numbers (rounded rationals), runes and decoded JSON.
  \<^item> \<open>Auth\<close>, \<open>AuthFile\<close>, \<open>AuthProps\<close>: \<open>internal/auth/auth.go\<close>: realms, the single-flight refresh as a
    step relation over concurrent callers, credential files.
  \<^item> \<open>PoolEntry\<close>, \<open>PoolState\<close>, \<open>PoolFacts\<close>: \<open>entry.go\<close>, \<open>transition.go\<close>, \<open>cooldown.go\<close>, \<open>state.go\<close>,
    \<open>pool.go\<close>: the account, its health, and every operation on it.
  \<^item> \<open>PoolPick\<close>, \<open>PickFacts\<close>: \<open>pick.go\<close>, \<open>exploration.go\<close>, \<open>realm.go\<close>: the selection.
  \<^item> \<open>PoolPersist\<close>, \<open>PersistFacts\<close>, \<open>PersistProps\<close>: \<open>persist.go\<close>, \<open>persist_merge.go\<close>: the state file.
  \<^item> \<open>PoolMachine\<close>: the contracts of the operations as locales (\<open>account_method\<close> and those that
    extend it), each interpreted on the operations that satisfy it; \<open>PoolRun\<close>: the pool as a
    transition system over all operations; \<open>PoolProps\<close>: the properties.
  \<^item> \<open>Lease\<close>: \<open>Acquire\<close> and \<open>Release\<close> as interleaved loads and compare-and-swaps.
  \<^item> \<open>Session\<close>, \<open>SessionProps\<close>: the router, over any source of available accounts (locale
    \<open>account_source\<close>), interpreted on the pool.
  \<^item> \<open>ErrorPolicy\<close>, \<open>ErrorPolicyProps\<close>: classification and policy.
  \<^item> \<open>ApiKeys\<close>, \<open>ApiKeysProps\<close>: the key file and its processes.
  \<^item> \<open>Usage\<close>, \<open>UsageFacts\<close>, \<open>UsageProps\<close>: the ledger, and the processes that record into it
    and flush it as a transition system (locale \<open>ledger_counter\<close>, interpreted on the ledger).
  \<^item> \<open>JsonText\<close>: the scanner and decoder of \<open>encoding/json\<close>, as far as the streams need it.
  \<^item> \<open>SseEvents\<close>: \<open>readSSE\<close> and \<open>decodeSSEEvent\<close>; \<open>SseDelta\<close>, \<open>SseStream\<close>: what deltas add up to and
    \<open>Aggregate\<close>; \<open>SseOut\<close>: \<open>Stream\<close> (all \<open>internal/upstream/sse.go\<close>); \<open>ReasoningLoop\<close>:
    \<open>reasoning_loop.go\<close>; \<open>UsageJson\<close>: \<open>usage.go\<close>.
  \<^item> \<open>Rewrite\<close>: \<open>payload.go\<close>, \<open>tool_pairing.go\<close>, \<open>thinking.go\<close>, \<open>cache_key.go\<close>; \<open>EffortCatalog\<close>:
    \<open>effort_catalog.go\<close>, \<open>image_budget.go\<close> and \<open>prepareBody\<close>; \<open>Neutralize\<close>: \<open>waf_neutralize.go\<close>,
    \<open>channel_neutralize.go\<close>; \<open>ChatRetry\<close>: \<open>ChatStreamContext\<close>; \<open>PairingProps\<close>, 
    \<open>PreparedProps\<close>, \<open>NeutralizeProps\<close>, \<open>ChatRetryProps\<close>: what a prepared request is and how it is sent.
  \<^item> \<open>SseFacts\<close>: reading any callbacks (locales \<open>sse_reader\<close> and \<open>sse_simulation\<close>); \<open>SseShape\<close>,
    \<open>SseText\<close>, \<open>SseAnswer\<close>, \<open>SseTools\<close>, \<open>SseWire\<close>, \<open>UsageJsonProps\<close>, \<open>ReasoningProps\<close>:
    the properties of the streams.

  \<^item> \<open>Decimal\<close>, \<open>RequestValidation\<close>, \<open>ValidationFacts\<close>, \<open>ValidationProps\<close>: the checks of
    \<open>request_validation.go\<close>; \<open>ToolNames\<close>, \<open>ToolNamesProps\<close>: \<open>responsesTools\<close> and the names of tools;
    \<open>StructuredOutput\<close>: \<open>structured_output.go\<close>.
  \<^item> \<open>ResponsesOut\<close>: \<open>responsesWriter\<close> with all its methods; \<open>ResponsesView\<close>: the protocol as a machine
    on the client's side; \<open>ResponsesWrites\<close>: invariants of reading (locales \<open>writer_invariant\<close> and
    \<open>call_blind\<close>, interpreted on what is written, on the simulation and on the flags of the writer);
    \<open>ResponsesSim\<close>, \<open>ResponsesClose\<close>, \<open>ResponsesEnd\<close>: the simulation of writer and client while reading,
    closing and at the end; \<open>ResponsesProps\<close>: the properties.
  \<^item> \<open>ResponsesInput\<close>, \<open>ResponsesInputProps\<close>: \<open>responsesToChat\<close>, the translation of a request and its
    history; \<open>ChatContract\<close>, \<open>ChatContractProps\<close>: \<open>chat_output_contract.go\<close>.
  \<^item> \<open>ChatLoop\<close>: the loop of \<open>chatCompletions\<close> over the accounts, on the models of pool, router,
    credentials and policy; \<open>ChatLoopFacts\<close>: what a turn does to the leases (locale \<open>seat_keeper\<close>,
    interpreted on the operations of the pool) and to the request; \<open>ChatLoopProps\<close>: the properties.
    \<open>ChatStats\<close>, \<open>ChatStatsProps\<close>: the reader of \<open>logging.go\<close> that observes the usage in a stream, and
    what of it goes to the ledger. \<open>ChatHandler\<close>, \<open>ChatHandlerProps\<close>: \<open>withAuth\<close> and \<open>chatCompletions\<close>
    as a whole, from the key and the checks of the body to the answer.

  \<^bold>\<open>What the lemmas show.\<close> The selection returns eligible accounts of the cheapest tier, fails only
  when nothing may be used, and does not depend on Go's map order; the operations keep the
  pool's invariant and touch only what they are about; the lease counter is exact under every
  interleaving; merging two processes' states is a three-way merge in which nothing is lost and
  a deletion is final; conversations keep their account; a client's error never changes an
  account; what is recorded in the ledger is counted exactly once; a
  prepared request obeys the vendor's rules on roles, tools and efforts and loses no more images
  than it must; a body is rewritten further only after a refusal, a bounded number of times; a streamed and an aggregated
  answer agree, carry the same text, end once, and never show a damaged tool call as a success; accepted
  requests are well typed and need no state on the server; tools keep their identity both ways; the
  events of a Responses stream are a run of the protocol, numbered without gaps, and a completed
  answer kept the contract of its request; a history loses no call, result or message and has no two
  answers side by side; a chat client with demands sees the end of an answer only after its check; a
  request asks each account at most once, stays in its realm, gives every slot back, leaves an account
  only for a failure that is the account's, and binds the conversation to the account that answered;
  observing the usage of a stream changes no byte of it; the model a key was checked for is the model
  that is asked, as long as the body names one.

  \<^bold>\<open>Bounds.\<close> Instants and counters are unbounded integers; where the code's 64-bit arithmetic can
  wrap it is written out (\<open>wrap64\<close>). No definition uses fuel: every loop of the modelled code is
  structural or has a measure. Random draws, hashes, clocks and the order of Go maps are
  arguments, so the theorems hold for all of them.

  \<^bold>\<open>Not modelled.\<close> HTTP, the vendor, Redis and the operating system; a locked
  read-modify-write of a file is one step. Encoding to JSON text; a file or request body is its
  decoded value (the text of a stream is decoded by the model). Logging, the
  HTTP handlers other than those of chat and Responses requests, the scheduler, the updater and the panel. The JSON Schema library is a parameter
  of \<open>StructuredOutput\<close> and \<open>ResponsesOut\<close>.
\<close>

end
